(* ===== verification/Pulse_Prelude.thy ===== *)
theory Pulse_Prelude
  imports Main "HOL-Library.Word"
begin

section \<open>Shared vocabulary of the development\<close>

text \<open>
  The parts of Go and of its standard library that the modelled packages use, and the generic
  lemmas the component theories share.

  \<^item> A Go string is a byte sequence; it is a \<open>string\<close> (a list of 8-bit characters). Case
    mapping and white space follow Go on the ASCII range, which is what the program's own
    constants and identifiers use; a byte above 127 is left alone by \<open>ToLower\<close> and is not
    white space.
  \<^item> \<open>time.Time\<close> is the number of nanoseconds since the Unix epoch, an unbounded \<open>int\<close>;
    \<open>time.Duration\<close> is an \<open>int\<close> kept in the range of a signed 64-bit integer by
    \<open>sat64\<close> (what \<open>Time.Sub\<close> does) and \<open>wrap64\<close> (what Go's arithmetic does).
  \<^item> A Go map is a partial function. Where the code ranges over a map, Go chooses an order that
    may differ each time: the model takes that order as an argument, a list of the keys.
  \<^item> \<open>auth.NewID\<close> and the clock are inputs: operations take the random bytes they draw and
    the instants they read as arguments.
\<close>

named_theorems store_simps \<open>definitions of the store operations\<close>
named_theorems http_simps \<open>definitions of the response helpers\<close>

type_synonym byte = "8 word"
type_synonym bytes = "8 word list"
type_synonym time = int
type_synonym duration = int

lemma unat_byte_less [simp]: "unat (b :: byte) < 256"
  using unsigned_less [of b] by simp

text \<open>A fact about every byte, from its 256 instances.\<close>

lemma byte_cases:
  assumes "list_all (\<lambda>n. P (of_nat n :: byte)) [0..<256]"
  shows "P b"
proof -
  have "unat b < 256" using unsigned_less [of b] by simp
  then have "unat b \<in> set [0..<256]" by simp
  then have "P (of_nat (unat b))" using assms unfolding list_all_iff by blast
  then show ?thesis by simp
qed

subsection \<open>Durations: saturation and wrap-around at 64 bits\<close>

definition minDuration :: duration where
  "minDuration = - (2 ^ 63)"

definition maxDuration :: duration where
  "maxDuration = 2 ^ 63 - 1"

definition wrap64 :: "int \<Rightarrow> int" where
  "wrap64 x = (x + 2 ^ 63) mod 2 ^ 64 - 2 ^ 63"

definition sat64 :: "int \<Rightarrow> duration" where
  "sat64 x = max minDuration (min maxDuration x)"

abbreviation second :: duration where
  "second \<equiv> 1000000000"

text \<open>\<open>t.Sub(u)\<close> and \<open>t.After(u)\<close>, \<open>t.Before(u)\<close>.\<close>

definition time_Sub :: "time \<Rightarrow> time \<Rightarrow> duration" where
  "time_Sub t u = sat64 (t - u)"

definition time_After :: "time \<Rightarrow> time \<Rightarrow> bool" where
  "time_After t u \<longleftrightarrow> u < t"

definition time_Before :: "time \<Rightarrow> time \<Rightarrow> bool" where
  "time_Before t u \<longleftrightarrow> t < u"

lemma wrap64_id: "minDuration \<le> x \<Longrightarrow> x \<le> maxDuration \<Longrightarrow> wrap64 x = x"
  by (simp add: wrap64_def minDuration_def maxDuration_def)

lemma sat64_range: "minDuration \<le> sat64 x" "sat64 x \<le> maxDuration"
  by (simp_all add: sat64_def minDuration_def maxDuration_def)

lemma sat64_id: "minDuration \<le> x \<Longrightarrow> x \<le> maxDuration \<Longrightarrow> sat64 x = x"
  by (simp add: sat64_def)

lemma sat64_le_iff: "c < maxDuration \<Longrightarrow> minDuration \<le> c \<Longrightarrow> sat64 x \<le> c \<longleftrightarrow> x \<le> c"
  by (auto simp: sat64_def max_def min_def)

lemma sat64_less_iff: "c \<le> maxDuration \<Longrightarrow> minDuration < c \<Longrightarrow> sat64 x < c \<longleftrightarrow> x < c"
  by (auto simp: sat64_def max_def min_def)

subsection \<open>Go strings\<close>

definition is_space :: "char \<Rightarrow> bool" where
  "is_space c \<longleftrightarrow> c \<in> set [CHR 0x09, CHR 0x0A, CHR 0x0B, CHR 0x0C, CHR 0x0D, CHR '' '']"

definition lower_char :: "char \<Rightarrow> char" where
  "lower_char c = (let n = (of_char c :: nat) in if 65 \<le> n \<and> n \<le> 90 then char_of (n + 32) else c)"

definition ToLower :: "string \<Rightarrow> string" where
  "ToLower s = map lower_char s"

definition EqualFold :: "string \<Rightarrow> string \<Rightarrow> bool" where
  "EqualFold s t \<longleftrightarrow> ToLower s = ToLower t"

definition TrimLeftSpace :: "string \<Rightarrow> string" where
  "TrimLeftSpace s = dropWhile is_space s"

definition TrimSpace :: "string \<Rightarrow> string" where
  "TrimSpace s = rev (TrimLeftSpace (rev (TrimLeftSpace s)))"

definition HasPrefix :: "string \<Rightarrow> string \<Rightarrow> bool" where
  "HasPrefix s p \<longleftrightarrow> take (length p) s = p"

definition HasSuffix :: "string \<Rightarrow> string \<Rightarrow> bool" where
  "HasSuffix s p \<longleftrightarrow> length p \<le> length s \<and> drop (length s - length p) s = p"

definition TrimSuffix :: "string \<Rightarrow> string \<Rightarrow> string" where
  "TrimSuffix s p = (if HasSuffix s p then take (length s - length p) s else s)"

definition TrimPrefix :: "string \<Rightarrow> string \<Rightarrow> string" where
  "TrimPrefix s p = (if HasPrefix s p then drop (length p) s else s)"

fun Contains :: "string \<Rightarrow> string \<Rightarrow> bool" where
  "Contains [] p = (p = [])"
| "Contains (c # s) p = (HasPrefix (c # s) p \<or> Contains s p)"

definition ContainsAny :: "string \<Rightarrow> string \<Rightarrow> bool" where
  "ContainsAny s chars \<longleftrightarrow> list_ex (\<lambda>c. c \<in> set chars) s"

text \<open>\<open>strings.Cut\<close> and \<open>strings.Split\<close> with a one-byte separator.\<close>

fun Cut :: "string \<Rightarrow> char \<Rightarrow> string \<times> string \<times> bool" where
  "Cut [] sep = ([], [], False)"
| "Cut (c # s) sep =
     (if c = sep then ([], s, True)
      else let (a, b, ok) = Cut s sep in (c # a, b, ok))"

fun Split :: "string \<Rightarrow> char \<Rightarrow> string list" where
  "Split [] sep = [[]]"
| "Split (c # s) sep =
     (if c = sep then [] # Split s sep
      else case Split s sep of [] \<Rightarrow> [[c]] | w # ws \<Rightarrow> (c # w) # ws)"

fun Join :: "string list \<Rightarrow> string \<Rightarrow> string" where
  "Join [] sep = []"
| "Join [w] sep = w"
| "Join (w # v # ws) sep = w @ sep @ Join (v # ws) sep"

text \<open>\<open>strings.Fields\<close>: the maximal runs of bytes that are not white space.\<close>

definition Fields :: "string \<Rightarrow> string list" where
  "Fields s = filter (\<lambda>w. w \<noteq> [])
     (Split (map (\<lambda>c. if is_space c then CHR '' '' else c) s) (CHR '' ''))"

subsubsection \<open>Facts about the string functions\<close>

lemma Split_notin [simp]: "sep \<notin> set w \<Longrightarrow> Split w sep = [w]"
  by (induction w) auto

lemma Split_append [simp]: "sep \<notin> set w \<Longrightarrow> Split (w @ sep # s) sep = w # Split s sep"
  by (induction w) auto

lemma Cut_notin: "sep \<notin> set s \<Longrightarrow> Cut s sep = (s, [], False)"
  by (induction s) auto

lemma Cut_append: "sep \<notin> set a \<Longrightarrow> Cut (a @ sep # b) sep = (a, b, True)"
  by (induction a) auto

lemma Cut_found: "Cut s sep = (a, b, True) \<longleftrightarrow> s = a @ sep # b \<and> sep \<notin> set a"
proof
  assume "Cut s sep = (a, b, True)"
  then show "s = a @ sep # b \<and> sep \<notin> set a"
    by (induction s arbitrary: a) (auto split: if_splits prod.splits)
qed (auto simp: Cut_append)

lemma Cut_snd_snd: "snd (snd (Cut s sep)) \<longleftrightarrow> sep \<in> set s"
  by (induction s) (auto split: prod.splits)

lemma Contains_single: "Contains s [c] \<longleftrightarrow> c \<in> set s"
  by (induction s) (auto simp: HasPrefix_def)

lemma length_ToLower [simp]: "length (ToLower s) = length s"
  by (simp add: ToLower_def)

lemma ToLower_eq_Nil [simp]: "ToLower s = [] \<longleftrightarrow> s = []" "[] = ToLower s \<longleftrightarrow> s = []"
  by (auto simp: ToLower_def)

lemma lower_char_range:
  "\<not> (65 \<le> (of_char (lower_char c) :: nat) \<and> (of_char (lower_char c) :: nat) \<le> 90)"
  by (auto simp: lower_char_def Let_def)

lemma lower_char_idem [simp]: "lower_char (lower_char c) = lower_char c"
  using lower_char_range [of c] unfolding lower_char_def [of "lower_char c"] Let_def by presburger

lemma ToLower_idem [simp]: "ToLower (ToLower s) = ToLower s"
  by (simp add: ToLower_def)

lemma is_space_lower_char [simp]: "is_space (lower_char c) = is_space c"
proof (cases "65 \<le> (of_char c :: nat) \<and> (of_char c :: nat) \<le> 90")
  case True
  have "(of_char (lower_char c) :: nat) = of_char c + 32"
    using True by (simp add: lower_char_def Let_def)
  with True have "97 \<le> (of_char (lower_char c) :: nat)" by simp
  then have "\<not> is_space (lower_char c)" by (auto simp: is_space_def)
  moreover have "\<not> is_space c" using True by (auto simp: is_space_def)
  ultimately show ?thesis by simp
qed (auto simp: lower_char_def Let_def)

lemma TrimLeftSpace_ToLower: "TrimLeftSpace (ToLower s) = ToLower (TrimLeftSpace s)"
  by (simp add: TrimLeftSpace_def ToLower_def dropWhile_map comp_def)

lemma TrimSpace_ToLower: "TrimSpace (ToLower s) = ToLower (TrimSpace s)"
proof -
  have "rev (ToLower t) = ToLower (rev t)" for t by (simp add: ToLower_def rev_map)
  then show ?thesis by (simp add: TrimSpace_def TrimLeftSpace_ToLower)
qed

lemma TrimLeftSpace_idem [simp]: "TrimLeftSpace (TrimLeftSpace s) = TrimLeftSpace s"
  by (simp add: TrimLeftSpace_def)

lemma TrimLeftSpace_rev_trim:
  "TrimLeftSpace (rev (TrimLeftSpace (rev (TrimLeftSpace s)))) = rev (TrimLeftSpace (rev (TrimLeftSpace s)))"
proof (cases "TrimLeftSpace s")
  case Nil
  then show ?thesis by (simp only: rev.simps) (simp add: TrimLeftSpace_def)
next
  case (Cons c r)
  then have c: "\<not> is_space c"
    using hd_dropWhile [of is_space s] by (simp add: TrimLeftSpace_def)
  have "TrimLeftSpace (xs @ [c]) = TrimLeftSpace xs @ [c]" for xs
    using c unfolding TrimLeftSpace_def by (induction xs) auto
  then show ?thesis using Cons c by (simp add: TrimLeftSpace_def)
qed

lemma TrimSpace_idem [simp]: "TrimSpace (TrimSpace s) = TrimSpace s"
  by (simp add: TrimSpace_def TrimLeftSpace_rev_trim)

lemma HasSuffix_iff: "HasSuffix s p \<longleftrightarrow> (\<exists>t. s = t @ p)"
proof
  assume "HasSuffix s p"
  then have "s = take (length s - length p) s @ p"
    unfolding HasSuffix_def by (metis append_take_drop_id)
  then show "\<exists>t. s = t @ p" by blast
qed (auto simp: HasSuffix_def)

lemma HasPrefix_iff: "HasPrefix s p \<longleftrightarrow> (\<exists>t. s = p @ t)"
proof
  assume "HasPrefix s p"
  then have "s = p @ drop (length p) s"
    unfolding HasPrefix_def by (metis append_take_drop_id)
  then show "\<exists>t. s = p @ t" by blast
qed (auto simp: HasPrefix_def)

subsection \<open>Lists\<close>

lemma find_SomeD: "find P xs = Some x \<Longrightarrow> x \<in> set xs \<and> P x"
  by (induction xs) (auto split: if_splits)

lemma set_map_filter: "set (List.map_filter f xs) = {y. \<exists>x \<in> set xs. f x = Some y}"
  by (auto simp: List.map_filter_def image_iff) force

end
