(* ===== verification/Pulse_Model.thy ===== *)
theory Pulse_Model
  imports Pulse_Prelude
begin

section \<open>Package \<open>model\<close>: the entities of the control plane\<close>

text \<open>
  \<^verbatim>\<open>apps/api/internal/model/model.go\<close>: one record per struct, fields in the source's
  order with a prefix per entity. \<open>Health\<close>, \<open>Severity\<close> and \<open>Role\<close> are string types in
  the source and are strings here; a pointer to a time is an option; raw JSON is the string of
  its bytes.
\<close>

type_synonym health = string
type_synonym severity = string
type_synonym role = string
type_synonym raw_json = string

definition HealthHealthy :: health where "HealthHealthy = ''HEALTHY''"
definition HealthDegraded :: health where "HealthDegraded = ''DEGRADED''"
definition HealthDown :: health where "HealthDown = ''DOWN''"
definition HealthUnknown :: health where "HealthUnknown = ''UNKNOWN''"

definition SevInfo :: severity where "SevInfo = ''INFO''"
definition SevWarning :: severity where "SevWarning = ''WARNING''"
definition SevCritical :: severity where "SevCritical = ''CRITICAL''"

definition RoleOwner :: role where "RoleOwner = ''owner''"
definition RoleAdmin :: role where "RoleAdmin = ''admin''"
definition RoleViewer :: role where "RoleViewer = ''viewer''"

lemmas role_defs = RoleOwner_def RoleAdmin_def RoleViewer_def

text \<open>The zero \<open>time.Time\<close> (1 January of year 1) as nanoseconds since the Unix epoch.\<close>

definition zeroTime :: time where
  "zeroTime = - 62135596800 * 1000000000"

record organization =
  org_ID :: string
  org_Name :: string
  org_CreatedAt :: time

record user =
  usr_ID :: string
  usr_Email :: string
  usr_Name :: string
  usr_PasswordHash :: string
  usr_MFASecret :: string
  usr_CreatedAt :: time

record membership =
  mem_OrgID :: string
  mem_UserID :: string
  mem_Role :: role

record server =
  srv_ID :: string
  srv_OrgID :: string
  srv_ServerID :: string
  srv_Hostname :: string
  srv_Mode :: string
  srv_Status :: health
  srv_LastSeenAt :: time
  srv_CreatedAt :: time

record agent =
  agt_ID :: string
  agt_OrgID :: string
  agt_ServerID :: string
  agt_AgentID :: string
  agt_PublicKey :: string
  agt_ProtocolVersion :: string
  agt_RevokedAt :: "time option"
  agt_LastSeenAt :: time

record enrollment_token =
  tok_ID :: string
  tok_OrgID :: string
  tok_TokenHash :: string
  tok_ExpiresAt :: time
  tok_UsedAt :: "time option"
  tok_Fingerprint :: string
  tok_CreatedAt :: time

record alert =
  alr_ID :: string
  alr_OrgID :: string
  alr_Name :: string
  alr_Expr :: string
  alr_Severity :: severity
  alr_ForSeconds :: int
  alr_CooldownSeconds :: int
  alr_Enabled :: bool

record alert_instance =
  ali_ID :: string
  ali_OrgID :: string
  ali_AlertID :: string
  ali_Name :: string
  ali_Severity :: severity
  ali_ServerID :: string
  ali_State :: string
  ali_DedupKey :: string
  ali_RootCause :: string
  ali_Affected :: "string list"
  ali_StartedAt :: time
  ali_ResolvedAt :: "time option"

record event =
  evt_ID :: string
  evt_OrgID :: string
  evt_ServerID :: string
  evt_Severity :: severity
  evt_Source :: string
  evt_Event :: string
  evt_PrevState :: string
  evt_NewState :: string
  evt_TS :: time

text \<open>Audit metadata is a string-keyed map; the handlers put strings in it.\<close>

record audit_entry =
  aud_ID :: string
  aud_OrgID :: string
  aud_Actor :: string
  aud_Action :: string
  aud_Result :: string
  aud_IP :: string
  aud_Metadata :: "(string \<times> string) list"
  aud_TS :: time

record session =
  ses_ID :: string
  ses_UserID :: string
  ses_OrgID :: string
  ses_CSRFSecret :: string
  ses_ExpiresAt :: time

record metric_sample =
  ms_TS :: time
  ms_Sample :: raw_json

end
