(* ===== verification/Go_Encoding.thy ===== *)
theory Go_Encoding
  imports Pulse_Prelude
begin

section \<open>Decimal, base64 and hexadecimal text\<close>

text \<open>
  What the program uses of \<open>strconv\<close>, \<open>encoding/base64\<close>, \<open>encoding/hex\<close> and
  \<open>encoding/binary\<close>, with the round trips the password and token code relies on.
\<close>

subsection \<open>Decimal integers (\<open>strconv\<close>)\<close>

definition digit_char :: "nat \<Rightarrow> char" where
  "digit_char d = char_of (48 + d)"

definition is_digit :: "char \<Rightarrow> bool" where
  "is_digit c \<longleftrightarrow> 48 \<le> (of_char c :: nat) \<and> (of_char c :: nat) \<le> 57"

definition digit_val :: "char \<Rightarrow> nat" where
  "digit_val c = of_char c - 48"

fun show_nat :: "nat \<Rightarrow> string" where
  "show_nat n = (if n < 10 then [digit_char n] else show_nat (n div 10) @ [digit_char (n mod 10)])"

declare show_nat.simps [simp del]

definition Itoa :: "int \<Rightarrow> string" where
  "Itoa i = (if i < 0 then CHR ''-'' # show_nat (nat (- i)) else show_nat (nat i))"

definition digits_val :: "string \<Rightarrow> nat" where
  "digits_val s = foldl (\<lambda>a c. 10 * a + digit_val c) 0 s"

text \<open>\<open>strconv.ParseInt(s, 10, 64)\<close>, and \<open>strconv.Atoi\<close> on a 64-bit platform:
  an optional sign, at least one digit, only digits, a value that fits in 64 bits.\<close>

definition ParseInt10 :: "string \<Rightarrow> int option" where
  "ParseInt10 s =
     (let (neg, ds) = (case s of
            [] \<Rightarrow> (False, [])
          | c # r \<Rightarrow> if c = CHR ''-'' then (True, r) else if c = CHR ''+'' then (False, r)
                    else (False, s))
      in if ds = [] \<or> \<not> list_all is_digit ds then None
         else let v = (if neg then - int (digits_val ds) else int (digits_val ds))
              in if - (2 ^ 63) \<le> v \<and> v \<le> 2 ^ 63 - 1 then Some v else None)"

lemma of_char_digit_char: "d < 10 \<Longrightarrow> (of_char (digit_char d) :: nat) = 48 + d"
  by (simp add: digit_char_def)

lemma is_digit_digit_char [simp]: "d < 10 \<Longrightarrow> is_digit (digit_char d)"
  by (simp add: is_digit_def of_char_digit_char)

lemma digit_val_digit_char [simp]: "d < 10 \<Longrightarrow> digit_val (digit_char d) = d"
  by (simp add: digit_val_def of_char_digit_char)

lemma show_nat_nonempty [simp]: "show_nat n \<noteq> []"
  by (subst show_nat.simps) simp

lemma show_nat_digits: "list_all is_digit (show_nat n)"
proof (induction n rule: show_nat.induct)
  case (1 n)
  then show ?case by (subst show_nat.simps) auto
qed

lemma digits_val_snoc: "digits_val (s @ [c]) = 10 * digits_val s + digit_val c"
  by (simp add: digits_val_def)

lemma digits_val_show_nat: "digits_val (show_nat n) = n"
proof (induction n rule: show_nat.induct)
  case (1 n)
  then show ?case
    by (subst show_nat.simps) (auto simp: digits_val_snoc, simp add: digits_val_def)
qed

lemma show_nat_set: "c \<in> set (show_nat n) \<Longrightarrow> is_digit c"
  using show_nat_digits [of n] by (auto simp: list_all_iff)

lemma is_digit_not_sign: "is_digit c \<Longrightarrow> c \<noteq> CHR ''-'' \<and> c \<noteq> CHR ''+'' \<and> c \<noteq> CHR ''$''"
  by (auto simp: is_digit_def)

lemma ParseInt10_Itoa:
  assumes "- (2 ^ 63) \<le> i" and "i \<le> 2 ^ 63 - 1"
  shows "ParseInt10 (Itoa i) = Some i"
proof (cases "i < 0")
  case True
  then show ?thesis using assms
    by (simp add: Itoa_def ParseInt10_def show_nat_digits digits_val_show_nat)
next
  case False
  obtain c r where cr: "show_nat (nat i) = c # r"
    by (cases "show_nat (nat i)") auto
  then have "is_digit c" using show_nat_set [of c "nat i"] by simp
  then have "c \<noteq> CHR ''-''" "c \<noteq> CHR ''+''" using is_digit_not_sign by auto
  moreover have "list_all is_digit (c # r)" "digits_val (c # r) = nat i"
    using show_nat_digits [of "nat i"] digits_val_show_nat [of "nat i"] cr by simp_all
  ultimately show ?thesis using False assms cr
    by (simp add: Itoa_def ParseInt10_def)
qed

subsection \<open>Bytes of a string, big-endian integers\<close>

definition str_bytes :: "string \<Rightarrow> bytes" where
  "str_bytes s = map of_char s"

definition be_bytes :: "nat \<Rightarrow> nat \<Rightarrow> bytes" where
  "be_bytes k n = map (\<lambda>i. of_nat (n div 256 ^ (k - 1 - i))) [0..<k]"

definition be_val :: "bytes \<Rightarrow> nat" where
  "be_val bs = foldl (\<lambda>a b. 256 * a + unat b) 0 bs"

lemma length_be_bytes [simp]: "length (be_bytes k n) = k"
  by (simp add: be_bytes_def)

lemma be_val_snoc: "be_val (bs @ [b]) = 256 * be_val bs + unat b"
  by (simp add: be_val_def)

lemma be_bytes_Suc: "be_bytes (Suc k) n = be_bytes k (n div 256) @ [of_nat n]"
proof -
  have "map (\<lambda>i. of_nat (n div 256 ^ (k - i)) :: byte) [0..<k]
      = map (\<lambda>i. of_nat (n div 256 div 256 ^ (k - 1 - i))) [0..<k]"
  proof (rule map_cong [OF refl])
    fix i assume "i \<in> set [0..<k]"
    then have "k - i = Suc (k - 1 - i)" by auto
    then show "(of_nat (n div 256 ^ (k - i)) :: byte) = of_nat (n div 256 div 256 ^ (k - 1 - i))"
      by (simp add: div_mult2_eq)
  qed
  then show ?thesis by (simp add: be_bytes_def)
qed

lemma be_val_be_bytes: "n < 256 ^ k \<Longrightarrow> be_val (be_bytes k n) = n"
proof (induction k arbitrary: n)
  case 0
  then show ?case by (simp add: be_bytes_def be_val_def)
next
  case (Suc k)
  then have "n div 256 < 256 ^ k" by (simp add: less_mult_imp_div_less mult.commute)
  then have "be_val (be_bytes k (n div 256)) = n div 256" by (rule Suc.IH)
  moreover have "unat (of_nat n :: byte) = n mod 256" by (simp add: unat_of_nat)
  ultimately show ?case by (simp add: be_bytes_Suc be_val_snoc)
qed

lemma be_val_bound: "be_val bs < 256 ^ length bs"
proof (induction bs rule: rev_induct)
  case Nil
  then show ?case by (simp add: be_val_def)
next
  case (snoc b bs)
  have "unat b < 256" "Suc (be_val bs) \<le> 256 ^ length bs" using snoc by simp_all
  then have "256 * be_val bs + unat b < 256 * 256 ^ length bs" by linarith
  then show ?case by (simp add: be_val_snoc)
qed

subsection \<open>Hexadecimal (\<open>hex.EncodeToString\<close>)\<close>

definition hex_char :: "nat \<Rightarrow> char" where
  "hex_char d = (if d < 10 then char_of (48 + d) else char_of (87 + d))"

definition hex_encode :: "bytes \<Rightarrow> string" where
  "hex_encode bs = concat (map (\<lambda>b. [hex_char (unat b div 16), hex_char (unat b mod 16)]) bs)"

subsection \<open>base64\<close>

text \<open>The two alphabets: \<open>StdEncoding\<close> ends in \<open>+/\<close>, \<open>URLEncoding\<close> in \<open>-_\<close>.\<close>

datatype b64_alphabet = B64Std | B64URL

definition b64_char :: "b64_alphabet \<Rightarrow> nat \<Rightarrow> char" where
  "b64_char al n =
     (if n < 26 then char_of (65 + n)
      else if n < 52 then char_of (71 + n)
      else if n < 62 then char_of (n - 4)
      else if n = 62 then (case al of B64Std \<Rightarrow> CHR ''+'' | B64URL \<Rightarrow> CHR ''-'')
      else (case al of B64Std \<Rightarrow> CHR ''/'' | B64URL \<Rightarrow> CHR ''_''))"

definition b64_val :: "b64_alphabet \<Rightarrow> char \<Rightarrow> nat option" where
  "b64_val al c =
     (let n = (of_char c :: nat) in
      if 65 \<le> n \<and> n \<le> 90 then Some (n - 65)
      else if 97 \<le> n \<and> n \<le> 122 then Some (n - 71)
      else if 48 \<le> n \<and> n \<le> 57 then Some (n + 4)
      else case al of
        B64Std \<Rightarrow> if c = CHR ''+'' then Some 62 else if c = CHR ''/'' then Some 63 else None
      | B64URL \<Rightarrow> if c = CHR ''-'' then Some 62 else if c = CHR ''_'' then Some 63 else None)"

text \<open>A group of three bytes is a 24-bit number: four sextets, three octets.\<close>

definition sextet :: "nat \<Rightarrow> nat \<Rightarrow> nat" where
  "sextet i n = n div 64 ^ i mod 64"

definition octet :: "nat \<Rightarrow> nat \<Rightarrow> byte" where
  "octet i n = of_nat (n div 256 ^ i)"

definition group24 :: "byte \<Rightarrow> byte \<Rightarrow> byte \<Rightarrow> nat" where
  "group24 a b c = unat a * 65536 + unat b * 256 + unat c"

definition join64 :: "nat \<Rightarrow> nat \<Rightarrow> nat \<Rightarrow> nat \<Rightarrow> nat" where
  "join64 p q r s = p * 262144 + q * 4096 + r * 64 + s"

fun b64_raw :: "b64_alphabet \<Rightarrow> bytes \<Rightarrow> string" where
  "b64_raw al [] = []"
| "b64_raw al [a] =
     (let n = group24 a 0 0 in [b64_char al (sextet 3 n), b64_char al (sextet 2 n)])"
| "b64_raw al [a, b] =
     (let n = group24 a b 0
      in [b64_char al (sextet 3 n), b64_char al (sextet 2 n), b64_char al (sextet 1 n)])"
| "b64_raw al (a # b # c # r) =
     (let n = group24 a b c
      in [b64_char al (sextet 3 n), b64_char al (sextet 2 n),
          b64_char al (sextet 1 n), b64_char al (sextet 0 n)] @ b64_raw al r)"

text \<open>Decoding of the sextets of an unpadded string: groups of four give three bytes; a last
  group of three or two gives two or one, and its unused low bits are ignored (Go is not strict
  about them); a last group of one is an error.\<close>

fun b64_bytes :: "nat list \<Rightarrow> bytes option" where
  "b64_bytes [] = Some []"
| "b64_bytes [p] = None"
| "b64_bytes [p, q] = Some [octet 2 (join64 p q 0 0)]"
| "b64_bytes [p, q, r] = Some [octet 2 (join64 p q r 0), octet 1 (join64 p q r 0)]"
| "b64_bytes (p # q # r # s # t) =
     (let n = join64 p q r s
      in map_option (\<lambda>bs. octet 2 n # octet 1 n # octet 0 n # bs) (b64_bytes t))"

fun b64_vals :: "b64_alphabet \<Rightarrow> string \<Rightarrow> nat list option" where
  "b64_vals al [] = Some []"
| "b64_vals al (c # s) =
     (case b64_val al c of None \<Rightarrow> None
      | Some v \<Rightarrow> map_option (\<lambda>vs. v # vs) (b64_vals al s))"

definition strip_newlines :: "string \<Rightarrow> string" where
  "strip_newlines s = filter (\<lambda>c. c \<noteq> CHR 0x0A \<and> c \<noteq> CHR 0x0D) s"

text \<open>\<open>RawStdEncoding.DecodeString\<close>: no padding.\<close>

definition b64_raw_decode :: "b64_alphabet \<Rightarrow> string \<Rightarrow> bytes option" where
  "b64_raw_decode al s = Option.bind (b64_vals al (strip_newlines s)) b64_bytes"

text \<open>\<open>StdEncoding.DecodeString\<close>: the input is a multiple of four characters and only the
  last group may end in one or two padding characters.\<close>

definition b64_std_decode :: "string \<Rightarrow> bytes option" where
  "b64_std_decode s =
     (let t = strip_newlines s;
          body = (if HasSuffix t ''=='' then take (length t - 2) t
                  else if HasSuffix t ''='' then take (length t - 1) t else t)
      in if length t mod 4 \<noteq> 0 then None else Option.bind (b64_vals B64Std body) b64_bytes)"

text \<open>\<open>StdEncoding.EncodeToString\<close>.\<close>

definition b64_std_encode :: "bytes \<Rightarrow> string" where
  "b64_std_encode bs = b64_raw B64Std bs @
     (if length bs mod 3 = 1 then ''=='' else if length bs mod 3 = 2 then ''='' else [])"

lemma b64_val_char: "n < 64 \<Longrightarrow> b64_val al (b64_char al n) = Some n"
  by (cases al) (auto simp: b64_val_def b64_char_def Let_def)

lemma b64_val_special:
  "b64_val al (CHR ''$'') = None" "b64_val al (CHR 0x0A) = None" "b64_val al (CHR 0x0D) = None"
  "b64_val B64URL (CHR ''/'') = None"
  by (cases al; simp add: b64_val_def)+

definition b64_chars :: "b64_alphabet \<Rightarrow> string \<Rightarrow> bool" where
  "b64_chars al s \<longleftrightarrow> list_all (\<lambda>c. b64_val al c \<noteq> None) s"

lemma sextet_less [simp]: "sextet i n < 64"
  by (simp add: sextet_def)

lemma b64_raw_chars: "b64_chars al (b64_raw al bs)"
  by (induction al bs rule: b64_raw.induct) (auto simp: b64_chars_def Let_def b64_val_char)

lemma b64_chars_notin: "b64_chars al s \<Longrightarrow> b64_val al c = None \<Longrightarrow> c \<notin> set s"
  by (auto simp: b64_chars_def list_all_iff)

lemma strip_newlines_b64: "b64_chars al s \<Longrightarrow> strip_newlines s = s"
  using b64_val_special b64_chars_notin [of al s] by (auto simp: strip_newlines_def filter_id_conv)

lemma join64_sextets: "n < 16777216 \<Longrightarrow> join64 (sextet 3 n) (sextet 2 n) (sextet 1 n) (sextet 0 n) = n"
proof -
  assume n: "n < 16777216"
  have d: "n div 64 ^ 2 = n div 64 div 64" "n div 64 ^ 3 = n div 64 div 64 div 64"
    by (simp_all flip: div_mult2_eq)
  have "n div 64 div 64 div 64 < 64" using n by linarith
  then have s: "sextet 3 n = n div 64 div 64 div 64" "sextet 2 n = n div 64 div 64 mod 64"
    "sextet 1 n = n div 64 mod 64" "sextet 0 n = n mod 64"
    by (simp_all only: sextet_def d power_one_right power_0 mod_less div_by_1)
  have "64 * (n div 64) + n mod 64 = n" "64 * (n div 64 div 64) + n div 64 mod 64 = n div 64"
    "64 * (n div 64 div 64 div 64) + n div 64 div 64 mod 64 = n div 64 div 64"
    by (rule mult_div_mod_eq)+
  then show ?thesis unfolding s join64_def by linarith
qed

lemma group24_less [simp]: "group24 a b c < 16777216"
proof -
  have "unat a < 256" "unat b < 256" "unat c < 256" by simp_all
  then show ?thesis unfolding group24_def by linarith
qed

lemma sextet_group24_0: "sextet 0 (group24 a b 0) = 0" "sextet (Suc 0) (group24 a 0 0) = 0"
  by (simp_all add: sextet_def group24_def)

lemma octet_group24 [simp]:
  "octet 2 (group24 a b c) = a" "octet 1 (group24 a b c) = b" "octet 0 (group24 a b c) = c"
proof -
  have abc: "unat a < 256" "unat b < 256" "unat c < 256" by simp_all
  have w: "(of_nat m :: byte) = x" if "m mod 256 = unat x" for m x
    using that by (simp add: word_unat_eq_iff unat_of_nat)
  have g: "group24 a b c = (unat a * 256 + unat b) * 256 + unat c" by (simp add: group24_def)
  have d1: "group24 a b c div 256 = unat a * 256 + unat b"
    unfolding g div_mult_self3 [OF zero_neq_numeral [symmetric]] using abc(3) by simp
  have "group24 a b c div 256 ^ 2 = group24 a b c div 256 div 256"
    by (simp flip: div_mult2_eq)
  also have "\<dots> = unat a"
    unfolding d1 div_mult_self3 [OF zero_neq_numeral [symmetric]] using abc(2) by simp
  finally have d2: "group24 a b c div 256 ^ 2 = unat a" .
  have "group24 a b c mod 256 = unat c"
    unfolding g mod_mult_self3 using abc(3) by simp
  moreover have "(unat a * 256 + unat b) mod 256 = unat b"
    unfolding mod_mult_self3 using abc(2) by simp
  ultimately show "octet 2 (group24 a b c) = a" "octet 1 (group24 a b c) = b"
    "octet 0 (group24 a b c) = c"
    unfolding octet_def d2 power_one_right d1 power_0 div_by_1 by (simp_all only: w) simp
qed

lemma octet_1_group24 [simp]: "octet (Suc 0) (group24 a b c) = b"
  using octet_group24(2) [of a b c] by simp

lemma join64_group24: "join64 (sextet 3 (group24 a b c)) (sextet 2 (group24 a b c))
    (sextet 1 (group24 a b c)) (sextet 0 (group24 a b c)) = group24 a b c"
  by (rule join64_sextets) simp

lemmas join64_group24_simps [simp] = join64_group24 join64_group24 [unfolded One_nat_def]

lemma b64_decode_vals:
  "Option.bind (b64_vals al (b64_raw al bs)) b64_bytes = Some bs"
proof (induction al bs rule: b64_raw.induct)
  case (2 al a)
  then show ?case using join64_group24 [of a 0 0]
    by (simp add: Let_def b64_val_char sextet_group24_0)
next
  case (3 al a b)
  then show ?case using join64_group24 [of a b 0]
    by (simp add: Let_def b64_val_char sextet_group24_0)
next
  case (4 al a b c r)
  then show ?case
    by (auto simp: Let_def b64_val_char bind_eq_Some_conv)
qed simp

lemma b64_raw_roundtrip: "b64_raw_decode al (b64_raw al bs) = Some bs"
  by (simp add: b64_raw_decode_def strip_newlines_b64 [OF b64_raw_chars] b64_decode_vals)


lemma b64_raw_length_mod:
  "(length (b64_raw al bs) + (if length bs mod 3 = 1 then 2 else if length bs mod 3 = 2 then 1 else 0)) mod 4 = 0"
proof (induction al bs rule: b64_raw.induct)
  case (4 al a b c r)
  have "Suc (Suc (Suc (length r))) mod 3 = length r mod 3" by presburger
  moreover have "(4 + m) mod 4 = m mod 4" for m :: nat by presburger
  ultimately show ?case using 4 by (auto simp: Let_def split: if_splits)
qed (simp_all add: Let_def)

lemma b64_std_roundtrip: "b64_std_decode (b64_std_encode bs) = Some bs"
proof -
  let ?r = "b64_raw B64Std bs"
  have c: "b64_val B64Std (CHR ''='') = None" by (simp add: b64_val_def)
  then have e: "CHR ''='' \<notin> set ?r" using b64_chars_notin [OF b64_raw_chars] by blast
  have s: "strip_newlines ?r = ?r" by (rule strip_newlines_b64 [OF b64_raw_chars])
  have n: "\<not> HasSuffix ?r ''==''" "\<not> HasSuffix ?r ''=''" "\<not> HasSuffix (?r @ ''='') ''==''"
    using e by (auto simp: HasSuffix_iff append_eq_append_conv2 append_eq_Cons_conv Cons_eq_append_conv)
  have y: "HasSuffix (?r @ ''=='') ''==''" "HasSuffix (?r @ ''='') ''=''" by (auto simp: HasSuffix_iff)
  have d: "Option.bind (b64_vals B64Std ?r) b64_bytes = Some bs" by (rule b64_decode_vals)
  consider "length bs mod 3 = 1" | "length bs mod 3 = 2" | "length bs mod 3 = 0" by linarith
  then show ?thesis
  proof cases
    case 1
    then show ?thesis using y n d s b64_raw_length_mod [of B64Std bs]
      by (simp add: b64_std_encode_def b64_std_decode_def strip_newlines_def Let_def)
  next
    case 2
    then show ?thesis using y n d s b64_raw_length_mod [of B64Std bs]
      by (simp add: b64_std_encode_def b64_std_decode_def strip_newlines_def Let_def)
  next
    case 3
    then show ?thesis using n d s b64_raw_length_mod [of B64Std bs]
      by (simp add: b64_std_encode_def b64_std_decode_def strip_newlines_def Let_def)
  qed
qed

end
