(* ===== verification/Pulse_Auth.thy ===== *)
theory Pulse_Auth
  imports Go_Encoding
begin

section \<open>Package \<open>auth\<close>: passwords, tokens, identifiers\<close>

text \<open>
  \<^verbatim>\<open>apps/api/internal/auth\<close>: PBKDF2 written out over an HMAC, the encoded password
  hash, the password and e-mail policy, opaque tokens and entity identifiers. The hash functions
  (\<open>crypto/hmac\<close> with SHA-256 and \<open>crypto/sha256\<close>) are arguments; random bytes are
  arguments too, and a failing random source is \<open>None\<close>.
\<close>

unbundle bit_operations_syntax

subsection \<open>PBKDF2-HMAC-SHA256\<close>

definition pbkdf2Iterations :: nat where "pbkdf2Iterations = 210000"
definition saltLen :: nat where "saltLen = 16"
definition keyLen :: nat where "keyLen = 32"

type_synonym prf_fn = "bytes \<Rightarrow> bytes \<Rightarrow> bytes"

text \<open>\<open>prf.Size()\<close> of HMAC-SHA256.\<close>

definition hLen :: nat where "hLen = 32"

definition xor_bytes :: "bytes \<Rightarrow> bytes \<Rightarrow> bytes" where
  "xor_bytes T U = map2 (\<lambda>t u. t XOR u) T U"

text \<open>The inner loop \<open>for n := 2; n <= iter; n++\<close>: \<open>k\<close> rounds are left.\<close>

fun pbkdf2_rounds :: "prf_fn \<Rightarrow> bytes \<Rightarrow> nat \<Rightarrow> bytes \<Rightarrow> bytes \<Rightarrow> bytes" where
  "pbkdf2_rounds hmac password 0 U T = T"
| "pbkdf2_rounds hmac password (Suc k) U T =
     (let U' = hmac password U in pbkdf2_rounds hmac password k U' (xor_bytes T U'))"

definition pbkdf2_block :: "prf_fn \<Rightarrow> bytes \<Rightarrow> bytes \<Rightarrow> nat \<Rightarrow> nat \<Rightarrow> bytes" where
  "pbkdf2_block hmac password salt iter block =
     (let T = hmac password (salt @ be_bytes 4 (block mod 2 ^ 32))
      in pbkdf2_rounds hmac password (iter - 1) T T)"

definition pbkdf2SHA256 :: "prf_fn \<Rightarrow> bytes \<Rightarrow> bytes \<Rightarrow> nat \<Rightarrow> nat \<Rightarrow> bytes" where
  "pbkdf2SHA256 hmac password salt iter kLen =
     (let numBlocks = (kLen + hLen - 1) div hLen;
          dk = concat (map (pbkdf2_block hmac password salt iter) [1..<numBlocks + 1])
      in take kLen dk)"

subsection \<open>Encoded password hashes\<close>

definition hash_prefix :: string where "hash_prefix = ''pbkdf2-sha256''"

definition HashPassword :: "prf_fn \<Rightarrow> string \<Rightarrow> bytes option \<Rightarrow> string + string" where
  "HashPassword hmac password rnd =
     (if length password < 8 then Inl ''password too short''
      else case rnd of
        None \<Rightarrow> Inl ''rand''
      | Some salt \<Rightarrow>
          let dk = pbkdf2SHA256 hmac (str_bytes password) salt pbkdf2Iterations keyLen
          in Inr (hash_prefix @ ''$'' @ Itoa (int pbkdf2Iterations) @ ''$''
                  @ b64_raw B64Std salt @ ''$'' @ b64_raw B64Std dk))"

definition VerifyPassword :: "prf_fn \<Rightarrow> string \<Rightarrow> string \<Rightarrow> bool" where
  "VerifyPassword hmac password encoded =
     (case Split encoded (CHR ''$'') of
        [p0, p1, p2, p3] \<Rightarrow>
          if p0 \<noteq> hash_prefix then False
          else (case ParseInt10 p1 of
              None \<Rightarrow> False
            | Some iter \<Rightarrow>
                if iter < 1 then False
                else (case b64_raw_decode B64Std p2 of
                    None \<Rightarrow> False
                  | Some salt \<Rightarrow>
                      (case b64_raw_decode B64Std p3 of
                         None \<Rightarrow> False
                       | Some want \<Rightarrow>
                           pbkdf2SHA256 hmac (str_bytes password) salt (nat iter) (length want) = want)))
      | _ \<Rightarrow> False)"

subsection \<open>Password and e-mail policy\<close>

definition MinPasswordLength :: nat where "MinPasswordLength = 12"
definition maxPasswordLength :: nat where "maxPasswordLength = 256"

definition weakPasswords :: "string list" where
  "weakPasswords = [''password'', ''password123'', ''passw0rd123'', ''changeme'', ''changeme123'',
     ''administrator'', ''adminadmin'', ''pulsepulse'', ''letmein12345'', ''123456789012'',
     ''qwertyuiop12'']"

definition ValidatePasswordPolicy :: "string \<Rightarrow> string \<Rightarrow> string option" where
  "ValidatePasswordPolicy password email =
     (if length password < MinPasswordLength
      then Some (''password must be at least '' @ Itoa (int MinPasswordLength) @ '' characters'')
      else if maxPasswordLength < length password
      then Some (''password must be at most '' @ Itoa (int maxPasswordLength) @ '' characters'')
      else let lower = ToLower password in
        if lower \<in> set weakPasswords then Some ''password is too common''
        else if email \<noteq> [] then
          (let e = ToLower (TrimSpace email) in
           if lower = e then Some ''password must not be your email address''
           else let (loc, dom, ok) = Cut e (CHR ''@'') in
             if ok \<and> loc \<noteq> [] \<and> lower = loc
             then Some ''password must not be your email address'' else None)
        else None)"

definition ValidateEmail :: "string \<Rightarrow> string option" where
  "ValidateEmail email =
     (let e = TrimSpace email in
      if e = [] then Some ''email is required''
      else if 254 < length e then Some ''email is too long''
      else if ContainsAny e [CHR '' '', CHR 0x09, CHR 0x0D, CHR 0x0A]
      then Some ''email must not contain whitespace''
      else let (loc, dom, ok) = Cut e (CHR ''@'') in
        if \<not> ok \<or> loc = [] \<or> dom = [] \<or> Contains dom ''@'' then Some ''email is not valid''
        else if \<not> Contains dom ''.'' \<or> HasPrefix dom ''.'' \<or> HasSuffix dom ''.''
        then Some ''email is not valid''
        else None)"

definition NormalizeEmail :: "string \<Rightarrow> string" where
  "NormalizeEmail email = ToLower (TrimSpace email)"

subsection \<open>Tokens and identifiers\<close>

text \<open>\<open>sha256\<close> is the argument \<open>sha\<close> of these operations.\<close>

definition HashToken :: "(bytes \<Rightarrow> bytes) \<Rightarrow> string \<Rightarrow> string" where
  "HashToken sha plain = hex_encode (sha (str_bytes plain))"

definition GenerateToken :: "(bytes \<Rightarrow> bytes) \<Rightarrow> string \<Rightarrow> bytes option \<Rightarrow> (string \<times> string) option" where
  "GenerateToken sha pfx rnd =
     (case rnd of
        None \<Rightarrow> None
      | Some b \<Rightarrow> let plain = pfx @ ''_'' @ b64_raw B64URL b in Some (plain, HashToken sha plain))"

definition EqualToken :: "(bytes \<Rightarrow> bytes) \<Rightarrow> string \<Rightarrow> string \<Rightarrow> bool" where
  "EqualToken sha plain storedHash = (HashToken sha plain = storedHash)"

definition NewID :: "string \<Rightarrow> bytes \<Rightarrow> string" where
  "NewID pfx b = pfx @ ''_'' @ b64_raw B64URL b"

subsection \<open>PBKDF2 against its definition in RFC 8018\<close>

text \<open>The reference: \<open>U\<^sub>1 = PRF(P, S || INT(i))\<close>, \<open>U\<^sub>j = PRF(P, U\<^sub>j\<^sub>-\<^sub>1)\<close>, and
  block \<open>i\<close> is the exclusive or of \<open>U\<^sub>1 .. U\<^sub>c\<close>.\<close>

definition rfc_U :: "prf_fn \<Rightarrow> bytes \<Rightarrow> bytes \<Rightarrow> nat \<Rightarrow> nat \<Rightarrow> bytes" where
  "rfc_U hmac P S i j = (hmac P ^^ (j - 1)) (hmac P (S @ be_bytes 4 i))"

definition rfc_F :: "prf_fn \<Rightarrow> bytes \<Rightarrow> bytes \<Rightarrow> nat \<Rightarrow> nat \<Rightarrow> bytes" where
  "rfc_F hmac P S c i = foldl xor_bytes (rfc_U hmac P S i 1) (map (rfc_U hmac P S i) [2..<Suc c])"

lemma pbkdf2_rounds_fold:
  "pbkdf2_rounds hmac pw k U T = foldl xor_bytes T (map (\<lambda>j. (hmac pw ^^ j) U) [1..<Suc k])"
proof (induction k arbitrary: U T)
  case 0
  then show ?case by simp
next
  case (Suc k)
  have "map (\<lambda>j. (hmac pw ^^ j) U) [1..<Suc (Suc k)]
      = hmac pw U # map (\<lambda>j. (hmac pw ^^ j) (hmac pw U)) [1..<Suc k]"
    by (subst upt_conv_Cons) (auto simp: map_Suc_upt [symmetric] funpow_swap1 simp del: upt_Suc)
  with Suc show ?case by (simp add: Let_def del: upt_Suc)
qed

lemma pbkdf2_block_rfc:
  assumes "0 < c" and "i < 2 ^ 32"
  shows "pbkdf2_block hmac P S c i = rfc_F hmac P S c i"
proof -
  have "map (rfc_U hmac P S i) [2..<Suc c]
      = map (\<lambda>j. (hmac P ^^ j) (hmac P (S @ be_bytes 4 i))) [1..<Suc (c - 1)]"
    using assms(1) by (cases c) (auto simp: rfc_U_def map_Suc_upt [symmetric] numeral_2_eq_2 simp del: upt_Suc)
  then show ?thesis using assms(2)
    by (simp add: pbkdf2_block_def rfc_F_def pbkdf2_rounds_fold rfc_U_def Let_def del: upt_Suc)
qed

lemma length_pbkdf2_rounds:
  "(\<And>k m. length (hmac k m) = n) \<Longrightarrow> length T = n \<Longrightarrow> length (pbkdf2_rounds hmac pw k U T) = n"
  by (induction k arbitrary: U T) (auto simp: Let_def xor_bytes_def)

lemma length_pbkdf2_block:
  "(\<And>k m. length (hmac k m) = hLen) \<Longrightarrow> length (pbkdf2_block hmac P S c i) = hLen"
  by (simp add: pbkdf2_block_def Let_def length_pbkdf2_rounds)

lemma length_pbkdf2:
  assumes "\<And>k m. length (hmac k m) = hLen"
  shows "length (pbkdf2SHA256 hmac P S c n) = n"
proof -
  let ?b = "(n + hLen - 1) div hLen"
  have "length (concat (map (pbkdf2_block hmac P S c) [1..<?b + 1])) = ?b * hLen"
    by (simp add: length_concat comp_def length_pbkdf2_block [OF assms] sum_list_triv del: upt_Suc)
  moreover have "n \<le> ?b * hLen" by (simp add: hLen_def)
  ultimately show ?thesis by (simp add: pbkdf2SHA256_def Let_def del: upt_Suc)
qed

text \<open>C7: PBKDF2. The derived key has exactly the requested length and is the prefix of the
  concatenated blocks of RFC 8018, for every password, salt, positive iteration count and key
  length whose block count fits in 32 bits.\<close>

theorem pbkdf2_matches_rfc8018:
  assumes "\<And>k m. length (hmac k m) = hLen" and "0 < iter" and "n \<le> hLen * (2 ^ 32 - 1)"
  shows "length (pbkdf2SHA256 hmac P S iter n) = n \<and>
    pbkdf2SHA256 hmac P S iter n
      = take n (concat (map (rfc_F hmac P S iter) [1..<(n + hLen - 1) div hLen + 1]))"
proof -
  have "(n + hLen - 1) div hLen \<le> 2 ^ 32 - 1" using assms(3) by (simp add: hLen_def)
  then have "map (pbkdf2_block hmac P S iter) [1..<(n + hLen - 1) div hLen + 1]
      = map (rfc_F hmac P S iter) [1..<(n + hLen - 1) div hLen + 1]"
    by (intro map_cong refl pbkdf2_block_rfc assms(2)) (auto simp del: upt_Suc)
  moreover have "length (pbkdf2SHA256 hmac P S iter n) = n" by (rule length_pbkdf2 [OF assms(1)])
  ultimately show ?thesis unfolding pbkdf2SHA256_def Let_def by (simp only: simp_thms)
qed

theorem pbkdf2_matches_rfc8018_witness:
  "length (pbkdf2SHA256 (\<lambda>k m. replicate 32 7) [1, 2] [3] 2 40) = 40 \<and>
    pbkdf2SHA256 (\<lambda>k m. replicate 32 7) [1, 2] [3] 2 40
      = take 40 (concat (map (rfc_F (\<lambda>k m. replicate 32 7) [1, 2] [3] 2) [1..<(40 + hLen - 1) div hLen + 1]))"
  by (rule pbkdf2_matches_rfc8018) (simp_all add: hLen_def)

subsection \<open>Hashing then verifying\<close>

lemma dollar_notin_b64: "CHR ''$'' \<notin> set (b64_raw al bs)"
  using b64_chars_notin [OF b64_raw_chars] b64_val_special by blast

lemma dollar_notin_Itoa: "CHR ''$'' \<notin> set (Itoa (int n))"
  using show_nat_set is_digit_not_sign by (fastforce simp: Itoa_def)

lemma hash_verifies:
  assumes "\<And>k m. length (hmac k m) = hLen" and "8 \<le> length p"
  shows "\<exists>h. HashPassword hmac p (Some salt) = Inr h \<and> VerifyPassword hmac p h \<and>
    (\<forall>q. VerifyPassword hmac q h \<longleftrightarrow>
       pbkdf2SHA256 hmac (str_bytes q) salt pbkdf2Iterations keyLen
         = pbkdf2SHA256 hmac (str_bytes p) salt pbkdf2Iterations keyLen)"
proof -
  let ?dk = "pbkdf2SHA256 hmac (str_bytes p) salt pbkdf2Iterations keyLen"
  let ?h = "hash_prefix @ ''$'' @ Itoa (int pbkdf2Iterations) @ ''$''
    @ b64_raw B64Std salt @ ''$'' @ b64_raw B64Std ?dk"
  have "CHR ''$'' \<notin> set hash_prefix" by (simp add: hash_prefix_def)
  then have "Split ?h (CHR ''$'') =
      [hash_prefix, Itoa (int pbkdf2Iterations), b64_raw B64Std salt, b64_raw B64Std ?dk]"
    by (simp add: dollar_notin_b64 dollar_notin_Itoa)
  moreover have "ParseInt10 (Itoa (int pbkdf2Iterations)) = Some (int pbkdf2Iterations)"
    by (rule ParseInt10_Itoa) (simp_all add: pbkdf2Iterations_def)
  moreover have "length ?dk = keyLen" by (rule length_pbkdf2 [OF assms(1)])
  ultimately have v: "VerifyPassword hmac q ?h \<longleftrightarrow>
      pbkdf2SHA256 hmac (str_bytes q) salt pbkdf2Iterations keyLen = ?dk" for q
    by (simp add: VerifyPassword_def b64_raw_roundtrip pbkdf2Iterations_def)
  have "HashPassword hmac p (Some salt) = Inr ?h"
    using assms(2) by (simp add: HashPassword_def Let_def)
  with v show ?thesis by blast
qed

text \<open>C6: the hash of every password of at least eight bytes verifies against that password, and
  verifies another password exactly when the two derive the same 32-byte key.\<close>

theorem HashPassword_VerifyPassword:
  assumes "\<And>k m. length (hmac k m) = hLen" and "8 \<le> length p"
  shows "\<exists>h. HashPassword hmac p (Some salt) = Inr h \<and> VerifyPassword hmac p h \<and>
    (\<forall>q. VerifyPassword hmac q h \<longleftrightarrow>
       pbkdf2SHA256 hmac (str_bytes q) salt pbkdf2Iterations keyLen
         = pbkdf2SHA256 hmac (str_bytes p) salt pbkdf2Iterations keyLen)"
  using assms by (rule hash_verifies)

theorem HashPassword_VerifyPassword_witness:
  "\<exists>h. HashPassword (\<lambda>k m. replicate 32 7) ''correct horse'' (Some (replicate 16 1)) = Inr h \<and>
    VerifyPassword (\<lambda>k m. replicate 32 7) ''correct horse'' h"
  using HashPassword_VerifyPassword [of "\<lambda>k m. replicate 32 7" "''correct horse''" "replicate 16 1"]
  by (auto simp: hLen_def)

lemma HashPassword_error: "(\<exists>e. HashPassword hmac p rnd = Inl e) \<longleftrightarrow> length p < 8 \<or> rnd = None"
  by (auto simp: HashPassword_def Let_def split: option.splits)

subsection \<open>Policy\<close>

lemma NormalizeEmail_idem [simp]: "NormalizeEmail (NormalizeEmail e) = NormalizeEmail e"
  by (simp add: NormalizeEmail_def TrimSpace_ToLower)

lemma ToLower_NormalizeEmail [simp]: "ToLower (NormalizeEmail e) = NormalizeEmail e"
  by (simp add: NormalizeEmail_def)

lemma TrimSpace_NormalizeEmail [simp]: "TrimSpace (NormalizeEmail e) = NormalizeEmail e"
  by (simp add: NormalizeEmail_def TrimSpace_ToLower)

lemma ContainsAny_set: "ContainsAny s cs \<longleftrightarrow> set s \<inter> set cs \<noteq> {}"
  by (auto simp: ContainsAny_def list_ex_iff)

text \<open>\<open>ValidateEmail\<close> accepts exactly the trimmed addresses of at most 254 bytes of the
  form \<open>local@domain\<close> with a single at sign, both sides non-empty, no blank, and a domain with
  an inner dot that neither starts nor ends it.\<close>

theorem ValidateEmail_accepts:
  "ValidateEmail email = None \<longleftrightarrow>
     (\<exists>loc dom. TrimSpace email = loc @ CHR ''@'' # dom \<and> loc \<noteq> [] \<and> dom \<noteq> [] \<and>
        CHR ''@'' \<notin> set loc \<union> set dom \<and> length (TrimSpace email) \<le> 254 \<and>
        set (TrimSpace email) \<inter> {CHR '' '', CHR 0x09, CHR 0x0D, CHR 0x0A} = {} \<and>
        CHR ''.'' \<in> set dom \<and> hd dom \<noteq> CHR ''.'' \<and> last dom \<noteq> CHR ''.'')"
  (is "?L \<longleftrightarrow> ?R")
proof
  assume ?L
  obtain loc dom ok where c: "Cut (TrimSpace email) (CHR ''@'') = (loc, dom, ok)"
    by (cases "Cut (TrimSpace email) (CHR ''@'')") auto
  with \<open>?L\<close> have ok: "ok" "loc \<noteq> []" "dom \<noteq> []" "CHR ''@'' \<notin> set dom" "CHR ''.'' \<in> set dom"
    "\<not> HasPrefix dom ''.''" "\<not> HasSuffix dom ''.''" "length (TrimSpace email) \<le> 254"
    "set (TrimSpace email) \<inter> {CHR '' '', CHR 0x09, CHR 0x0D, CHR 0x0A} = {}"
    by (auto simp: ValidateEmail_def Let_def Contains_single ContainsAny_set split: if_splits)
  from c ok(1) have "TrimSpace email = loc @ CHR ''@'' # dom" "CHR ''@'' \<notin> set loc"
    by (auto simp: Cut_found)
  moreover have "hd dom \<noteq> CHR ''.''" using ok(3,6) by (cases dom) (auto simp: HasPrefix_def)
  moreover have "last dom \<noteq> CHR ''.''" using ok(3,7) by (auto simp: HasSuffix_iff) (metis append_butlast_last_id)
  ultimately show ?R using ok by blast
next
  assume ?R
  then obtain loc dom where r: "TrimSpace email = loc @ CHR ''@'' # dom" "loc \<noteq> []" "dom \<noteq> []"
    "CHR ''@'' \<notin> set loc" "CHR ''@'' \<notin> set dom" "length (TrimSpace email) \<le> 254"
    "set (TrimSpace email) \<inter> {CHR '' '', CHR 0x09, CHR 0x0D, CHR 0x0A} = {}"
    "CHR ''.'' \<in> set dom" "hd dom \<noteq> CHR ''.''" "last dom \<noteq> CHR ''.''" by blast
  then have "\<not> HasPrefix dom ''.''" "\<not> HasSuffix dom ''.''"
    by (auto simp: HasPrefix_iff HasSuffix_iff)
  with r show ?L
    by (simp add: ValidateEmail_def Let_def Contains_single ContainsAny_set Cut_append)
qed

lemma ValidatePasswordPolicy_accepts:
  assumes "ValidatePasswordPolicy p e = None"
  shows "12 \<le> length p" "length p \<le> 256" "ToLower p \<notin> set weakPasswords"
    "e \<noteq> [] \<Longrightarrow> ToLower p \<noteq> NormalizeEmail e"
  using assms by (auto simp: ValidatePasswordPolicy_def MinPasswordLength_def maxPasswordLength_def
      NormalizeEmail_def Let_def split: if_splits prod.splits)

lemma policy_hashable: "ValidatePasswordPolicy p e = None \<Longrightarrow> \<exists>h. HashPassword hmac p (Some salt) = Inr h"
  using ValidatePasswordPolicy_accepts(1) [of p e] by (simp add: HashPassword_def Let_def)

subsection \<open>Identifiers\<close>

lemma NewID_no_slash: "CHR ''/'' \<notin> set pfx \<Longrightarrow> CHR ''/'' \<notin> set (NewID pfx b)"
  using b64_chars_notin [OF b64_raw_chars, of B64URL "CHR ''/''" b] b64_val_special(4)
  by (auto simp: NewID_def)

lemma b64_raw_inj: "b64_raw al a = b64_raw al b \<Longrightarrow> a = b"
  by (metis b64_raw_roundtrip option.inject)

lemma NewID_inj: "NewID pfx a = NewID pfx b \<longleftrightarrow> a = b"
  using b64_raw_inj by (auto simp: NewID_def)

lemma NewID_nonempty [simp]: "NewID pfx b \<noteq> []"
  by (simp add: NewID_def)

lemma GenerateToken_EqualToken:
  "GenerateToken sha pfx rnd = Some (plain, h) \<Longrightarrow> EqualToken sha plain h"
  by (auto simp: GenerateToken_def EqualToken_def Let_def split: option.splits)

end
