(* ===== verification/Pulse_Systems.thy ===== *)
theory Pulse_Systems
  imports Main
begin

section \<open>Interfaces: operations on a state and what they promise\<close>

text \<open>
  The contracts the components of the control plane are held to, stated once over any state type
  and any step function. Every locale below is interpreted in the theory of the component that
  provides the operations; the component's properties rest on the facts it gives.

  \<^item> \<open>invariant_of\<close>: a predicate that holds at the start and is kept by every permitted
    operation holds in every reachable state.
  \<^item> \<open>tenant_isolation\<close>: an operation made on behalf of one tenant does not change what
    another tenant can see; hence no sequence of such operations does.
  \<^item> \<open>single_use\<close>: consuming a key marks it, and marks are never lost; hence no sequence of
    operations consumes a key twice.
\<close>

subsection \<open>Runs and reachable states\<close>

fun run :: "('op \<Rightarrow> 's \<Rightarrow> 's) \<Rightarrow> 'op list \<Rightarrow> 's \<Rightarrow> 's" where
  "run step [] s = s"
| "run step (a # as) s = run step as (step a s)"

fun run_ok :: "('op \<Rightarrow> 's \<Rightarrow> bool) \<Rightarrow> ('op \<Rightarrow> 's \<Rightarrow> 's) \<Rightarrow> 'op list \<Rightarrow> 's \<Rightarrow> bool" where
  "run_ok ok step [] s = True"
| "run_ok ok step (a # as) s = (ok a s \<and> run_ok ok step as (step a s))"

text \<open>The keys consumed along a run; \<open>c a s\<close> is the key operation \<open>a\<close> consumes in \<open>s\<close>.\<close>

fun consumed :: "('op \<Rightarrow> 's \<Rightarrow> 'k option) \<Rightarrow> ('op \<Rightarrow> 's \<Rightarrow> 's) \<Rightarrow> 'op list \<Rightarrow> 's \<Rightarrow> 'k list" where
  "consumed c step [] s = []"
| "consumed c step (a # as) s =
     (case c a s of None \<Rightarrow> [] | Some k \<Rightarrow> [k]) @ consumed c step as (step a s)"

inductive reachable :: "('op \<Rightarrow> 's \<Rightarrow> 's) \<Rightarrow> ('op \<Rightarrow> 's \<Rightarrow> bool) \<Rightarrow> 's \<Rightarrow> 's \<Rightarrow> bool"
  for step ok init where
  reachable_init: "reachable step ok init init"
| reachable_step: "reachable step ok init s \<Longrightarrow> ok a s \<Longrightarrow> reachable step ok init (step a s)"

lemma run_append: "run step (as @ bs) s = run step bs (run step as s)"
  by (induction as arbitrary: s) auto

lemma run_ok_append: "run_ok ok step (as @ bs) s = (run_ok ok step as s \<and> run_ok ok step bs (run step as s))"
  by (induction as arbitrary: s) auto

lemma reachable_run:
  "reachable step ok init s \<Longrightarrow> run_ok ok step as s \<Longrightarrow> reachable step ok init (run step as s)"
  by (induction as arbitrary: s) (auto intro: reachable_step)

subsection \<open>Invariants\<close>

locale invariant_of =
  fixes step :: "'op \<Rightarrow> 's \<Rightarrow> 's"
    and ok :: "'op \<Rightarrow> 's \<Rightarrow> bool"
    and init :: 's
    and inv :: "'s \<Rightarrow> bool"
  assumes inv_init: "inv init"
    and inv_step: "inv s \<Longrightarrow> ok a s \<Longrightarrow> inv (step a s)"
begin

lemma inv_reachable: "reachable step ok init s \<Longrightarrow> inv s"
  by (induction rule: reachable.induct) (auto intro: inv_init inv_step)

lemma inv_run: "inv s \<Longrightarrow> run_ok ok step as s \<Longrightarrow> inv (run step as s)"
  by (induction as arbitrary: s) (auto intro: inv_step)

end

subsection \<open>Isolation of tenants\<close>

locale tenant_isolation = invariant_of step ok init inv
  for step :: "'op \<Rightarrow> 's \<Rightarrow> 's" and ok :: "'op \<Rightarrow> 's \<Rightarrow> bool" and init :: 's
    and inv :: "'s \<Rightarrow> bool" +
  fixes acts :: "'op \<Rightarrow> 's \<Rightarrow> 't \<Rightarrow> bool"
    and view :: "'t \<Rightarrow> 's \<Rightarrow> 'v"
    and tenant :: "'t \<Rightarrow> bool"
  assumes respects: "inv s \<Longrightarrow> ok a s \<Longrightarrow> tenant t \<Longrightarrow> \<not> acts a s t \<Longrightarrow> view t (step a s) = view t s"
begin

lemma isolation_run:
  "inv s \<Longrightarrow> tenant t \<Longrightarrow> run_ok (\<lambda>a s. ok a s \<and> \<not> acts a s t) step as s \<Longrightarrow>
    view t (run step as s) = view t s"
proof (induction as arbitrary: s)
  case Nil
  then show ?case by simp
next
  case (Cons a as)
  then have "view t (run step as (step a s)) = view t (step a s)" by (simp add: inv_step)
  moreover have "view t (step a s) = view t s" using Cons.prems respects by simp
  ultimately show ?case by simp
qed

end

subsection \<open>Keys that are consumed at most once\<close>

locale single_use =
  fixes step :: "'op \<Rightarrow> 's \<Rightarrow> 's"
    and ok :: "'op \<Rightarrow> 's \<Rightarrow> bool"
    and consumes :: "'op \<Rightarrow> 's \<Rightarrow> 'k option"
    and spent :: "'s \<Rightarrow> 'k \<Rightarrow> bool"
  assumes consumes_unspent: "ok a s \<Longrightarrow> consumes a s = Some k \<Longrightarrow> \<not> spent s k"
    and consumes_spends: "ok a s \<Longrightarrow> consumes a s = Some k \<Longrightarrow> spent (step a s) k"
    and spent_step: "ok a s \<Longrightarrow> spent s k \<Longrightarrow> spent (step a s) k"
begin

lemma spent_not_consumed:
  "run_ok ok step as s \<Longrightarrow> spent s k \<Longrightarrow> k \<notin> set (consumed consumes step as s)"
proof (induction as arbitrary: s)
  case Nil
  then show ?case by simp
next
  case (Cons a as)
  then have "k \<notin> set (consumed consumes step as (step a s))" by (auto intro: spent_step)
  moreover have "consumes a s \<noteq> Some k" using Cons.prems consumes_unspent by auto
  ultimately show ?case by (auto split: option.splits)
qed

lemma consumed_distinct: "run_ok ok step as s \<Longrightarrow> distinct (consumed consumes step as s)"
proof (induction as arbitrary: s)
  case Nil
  then show ?case by simp
next
  case (Cons a as)
  then have "k \<notin> set (consumed consumes step as (step a s))" if "consumes a s = Some k" for k
    using that spent_not_consumed [of as "step a s" k] consumes_spends [of a s k] by simp
  with Cons show ?case by (auto split: option.splits)
qed

end

end
