(* ===== verification/Pulse_Store.thy ===== *)
theory Pulse_Store
  imports Pulse_Model Pulse_Auth Pulse_Systems "HOL-Library.Char_ord" "HOL-Library.List_Lexorder"
begin

section \<open>Package \<open>store\<close>: the in-memory store\<close>

text \<open>
  \<^verbatim>\<open>apps/api/internal/store/memory.go\<close>: the record \<open>memory\<close> is the struct
  \<open>Memory\<close>, one definition per method. The mutex makes each method atomic, so a method is a
  function of the state; a method that can fail returns a sum. Clock readings (\<open>now\<close>) and
  random bytes (\<open>rnd\<close>, given to \<open>auth.NewID\<close>) are arguments. Where the code ranges over a
  map, the argument \<open>ord\<close> is the order in which the runtime visits the keys. Reading a
  missing entry of a map of pointers and dereferencing it is the error \<open>NilDeref\<close>.
\<close>

datatype store_error = ErrNotFound | ErrAlreadyExists | NilDeref

record memory =
  m_orgs :: "string \<rightharpoonup> organization"
  m_users :: "string \<rightharpoonup> user"
  m_usersByMail :: "string \<rightharpoonup> string"
  m_oidcByKey :: "string \<rightharpoonup> string"
  m_memberships :: "string \<rightharpoonup> membership"
  m_sessions :: "string \<rightharpoonup> session"
  m_servers :: "string \<rightharpoonup> server"
  m_agents :: "string \<rightharpoonup> agent"
  m_agentByAID :: "string \<rightharpoonup> string"
  m_enrollments :: "string \<rightharpoonup> enrollment_token"
  m_discovery :: "string \<rightharpoonup> raw_json"
  m_logs :: "string \<rightharpoonup> raw_json"
  m_metrics :: "string \<rightharpoonup> raw_json"
  m_metricHist :: "string \<rightharpoonup> metric_sample list"
  m_alerts :: "string \<rightharpoonup> alert"
  m_instances :: "string \<rightharpoonup> alert_instance"
  m_events :: "event list"
  m_audit :: "audit_entry list"

definition NewMemory :: memory where
  "NewMemory = \<lparr>m_orgs = Map.empty, m_users = Map.empty, m_usersByMail = Map.empty,
     m_oidcByKey = Map.empty, m_memberships = Map.empty, m_sessions = Map.empty,
     m_servers = Map.empty, m_agents = Map.empty, m_agentByAID = Map.empty,
     m_enrollments = Map.empty, m_discovery = Map.empty, m_logs = Map.empty,
     m_metrics = Map.empty, m_metricHist = Map.empty, m_alerts = Map.empty,
     m_instances = Map.empty, m_events = [], m_audit = []\<rparr>"

definition key :: "string \<Rightarrow> string \<Rightarrow> string" where
  "key orgID serverID = orgID @ ''/'' @ serverID"

text \<open>The values of a map in the order its keys are visited.\<close>

definition range_vals :: "(string \<rightharpoonup> 'v) \<Rightarrow> string list \<Rightarrow> 'v list" where
  "range_vals m ord = List.map_filter m ord"

definition visits :: "(string \<rightharpoonup> 'v) \<Rightarrow> string list \<Rightarrow> bool" where
  "visits m ord \<longleftrightarrow> distinct ord \<and> set ord = dom m"

subsection \<open>Accounts and sessions\<close>

definition FindLoginByEmail :: "string \<Rightarrow> memory \<Rightarrow> store_error + (user option \<times> membership option)" where
  "FindLoginByEmail email m =
     (case m_usersByMail m (ToLower email) of
        None \<Rightarrow> Inl ErrNotFound
      | Some uid \<Rightarrow> Inr (m_users m uid, m_memberships m uid))"

definition SeedOrgOwner :: "string \<Rightarrow> string \<Rightarrow> string \<Rightarrow> bytes \<Rightarrow> bytes \<Rightarrow> time \<Rightarrow> memory \<Rightarrow>
    (store_error + organization \<times> user) \<times> memory" where
  "SeedOrgOwner orgName email0 passwordHash rndOrg rndUsr now m =
     (let email = ToLower email0 in
      if m_usersByMail m email \<noteq> None then (Inl ErrAlreadyExists, m)
      else
        let org = \<lparr>org_ID = NewID ''org'' rndOrg, org_Name = orgName, org_CreatedAt = now\<rparr>;
            usr = \<lparr>usr_ID = NewID ''usr'' rndUsr, usr_Email = email, usr_Name = [],
                    usr_PasswordHash = passwordHash, usr_MFASecret = [], usr_CreatedAt = now\<rparr>
        in (Inr (org, usr),
            m\<lparr>m_orgs := (m_orgs m)(org_ID org \<mapsto> org),
              m_users := (m_users m)(usr_ID usr \<mapsto> usr),
              m_usersByMail := (m_usersByMail m)(email \<mapsto> usr_ID usr),
              m_memberships := (m_memberships m)(usr_ID usr \<mapsto>
                \<lparr>mem_OrgID = org_ID org, mem_UserID = usr_ID usr, mem_Role = RoleOwner\<rparr>)\<rparr>))"

fun firstNonEmpty :: "string list \<Rightarrow> string" where
  "firstNonEmpty [] = []"
| "firstNonEmpty (v # vs) = (if v \<noteq> [] then v else firstNonEmpty vs)"

definition UpsertOIDCUser :: "string \<Rightarrow> string \<Rightarrow> string \<Rightarrow> string \<Rightarrow> bytes \<Rightarrow> bytes \<Rightarrow> time \<Rightarrow> memory \<Rightarrow>
    (user option \<times> membership option) \<times> memory" where
  "UpsertOIDCUser provider subject email name rndOrg rndUsr now m =
     (let k = provider @ '':'' @ subject in
      case m_oidcByKey m k of
        Some uid \<Rightarrow> ((m_users m uid, m_memberships m uid), m)
      | None \<Rightarrow>
          (case (if email \<noteq> [] then m_usersByMail m (ToLower email) else None) of
             Some uid \<Rightarrow> ((m_users m uid, m_memberships m uid),
                          m\<lparr>m_oidcByKey := (m_oidcByKey m)(k \<mapsto> uid)\<rparr>)
           | None \<Rightarrow>
               let orgName = firstNonEmpty [name, email, ''Personal''];
                   org = \<lparr>org_ID = NewID ''org'' rndOrg, org_Name = orgName, org_CreatedAt = now\<rparr>;
                   usr = \<lparr>usr_ID = NewID ''usr'' rndUsr, usr_Email = ToLower email, usr_Name = name,
                          usr_PasswordHash = [], usr_MFASecret = [], usr_CreatedAt = now\<rparr>;
                   mem = \<lparr>mem_OrgID = org_ID org, mem_UserID = usr_ID usr, mem_Role = RoleOwner\<rparr>
               in ((Some usr, Some mem),
                   m\<lparr>m_orgs := (m_orgs m)(org_ID org \<mapsto> org),
                     m_users := (m_users m)(usr_ID usr \<mapsto> usr),
                     m_usersByMail := (if email \<noteq> [] then (m_usersByMail m)(ToLower email \<mapsto> usr_ID usr)
                                       else m_usersByMail m),
                     m_oidcByKey := (m_oidcByKey m)(k \<mapsto> usr_ID usr),
                     m_memberships := (m_memberships m)(usr_ID usr \<mapsto> mem)\<rparr>)))"

definition GetMembership :: "string \<Rightarrow> string \<Rightarrow> memory \<Rightarrow> store_error + membership" where
  "GetMembership orgID userID m =
     (case m_memberships m userID of
        None \<Rightarrow> Inl ErrNotFound
      | Some mem \<Rightarrow> if mem_OrgID mem \<noteq> orgID then Inl ErrNotFound else Inr mem)"

definition GetUser :: "string \<Rightarrow> string \<Rightarrow> memory \<Rightarrow> store_error + user" where
  "GetUser orgID userID m =
     (case m_users m userID of
        None \<Rightarrow> Inl ErrNotFound
      | Some u \<Rightarrow>
          (case m_memberships m userID of
             None \<Rightarrow> Inl ErrNotFound
           | Some mem \<Rightarrow> if mem_OrgID mem \<noteq> orgID then Inl ErrNotFound else Inr u))"

definition CountUsers :: "memory \<Rightarrow> nat" where
  "CountUsers m = card (dom (m_users m))"

definition UpdateUserEmail :: "string \<Rightarrow> string \<Rightarrow> string \<Rightarrow> memory \<Rightarrow> (store_error + unit) \<times> memory" where
  "UpdateUserEmail orgID userID email0 m =
     (case m_users m userID of
        None \<Rightarrow> (Inl ErrNotFound, m)
      | Some u \<Rightarrow>
          (case m_memberships m userID of
             None \<Rightarrow> (Inl ErrNotFound, m)
           | Some mem \<Rightarrow>
               if mem_OrgID mem \<noteq> orgID then (Inl ErrNotFound, m)
               else
                 let email = ToLower (TrimSpace email0) in
                 if (case m_usersByMail m email of None \<Rightarrow> False | Some ex \<Rightarrow> ex \<noteq> userID)
                 then (Inl ErrAlreadyExists, m)
                 else
                   let idx = (if usr_Email u \<noteq> [] then (m_usersByMail m)(ToLower (usr_Email u) := None)
                              else m_usersByMail m)
                   in (Inr (),
                       m\<lparr>m_users := (m_users m)(userID \<mapsto> u\<lparr>usr_Email := email\<rparr>),
                         m_usersByMail := idx(email \<mapsto> userID)\<rparr>)))"

definition UpdateUserPassword :: "string \<Rightarrow> string \<Rightarrow> string \<Rightarrow> memory \<Rightarrow> (store_error + unit) \<times> memory" where
  "UpdateUserPassword orgID userID passwordHash m =
     (case m_users m userID of
        None \<Rightarrow> (Inl ErrNotFound, m)
      | Some u \<Rightarrow>
          (case m_memberships m userID of
             None \<Rightarrow> (Inl ErrNotFound, m)
           | Some mem \<Rightarrow>
               if mem_OrgID mem \<noteq> orgID then (Inl ErrNotFound, m)
               else (Inr (), m\<lparr>m_users := (m_users m)(userID \<mapsto> u\<lparr>usr_PasswordHash := passwordHash\<rparr>)\<rparr>)))"

definition CreateSession :: "session \<Rightarrow> memory \<Rightarrow> memory" where
  "CreateSession s m = m\<lparr>m_sessions := (m_sessions m)(ses_ID s \<mapsto> s)\<rparr>"

definition GetSession :: "string \<Rightarrow> time \<Rightarrow> memory \<Rightarrow> store_error + session" where
  "GetSession i now m =
     (case m_sessions m i of
        None \<Rightarrow> Inl ErrNotFound
      | Some s \<Rightarrow> if time_After now (ses_ExpiresAt s) then Inl ErrNotFound else Inr s)"

definition DeleteSession :: "string \<Rightarrow> memory \<Rightarrow> memory" where
  "DeleteSession i m = m\<lparr>m_sessions := (m_sessions m)(i := None)\<rparr>"

definition DeleteSessionsForUser :: "string \<Rightarrow> memory \<Rightarrow> memory" where
  "DeleteSessionsForUser userID m =
     m\<lparr>m_sessions := (\<lambda>i. case m_sessions m i of
          None \<Rightarrow> None
        | Some s \<Rightarrow> if ses_UserID s = userID then None else Some s)\<rparr>"

subsection \<open>Servers and agents\<close>

definition ListServers :: "string list \<Rightarrow> string \<Rightarrow> memory \<Rightarrow> server list" where
  "ListServers ord orgID m =
     sort_key srv_Hostname (filter (\<lambda>s. srv_OrgID s = orgID) (range_vals (m_servers m) ord))"

definition GetServer :: "string \<Rightarrow> string \<Rightarrow> memory \<Rightarrow> store_error + server" where
  "GetServer orgID i m =
     (case m_servers m i of
        None \<Rightarrow> Inl ErrNotFound
      | Some s \<Rightarrow> if srv_OrgID s \<noteq> orgID then Inl ErrNotFound else Inr s)"

text \<open>The stored record is also what the caller's pointer holds afterwards, so it is returned.\<close>

definition UpsertServer :: "string \<Rightarrow> server \<Rightarrow> bytes \<Rightarrow> time \<Rightarrow> memory \<Rightarrow> server \<times> memory" where
  "UpsertServer orgID s0 rnd now m =
     (let s1 = s0\<lparr>srv_OrgID := orgID\<rparr>;
          s2 = (if srv_ID s1 = [] then s1\<lparr>srv_ID := NewID ''srv'' rnd\<rparr> else s1);
          s3 = (if srv_CreatedAt s2 = zeroTime then s2\<lparr>srv_CreatedAt := now\<rparr> else s2)
      in (s3, m\<lparr>m_servers := (m_servers m)(srv_ID s3 \<mapsto> s3)\<rparr>))"

definition DeleteServer :: "string \<Rightarrow> string \<Rightarrow> memory \<Rightarrow> (store_error + unit) \<times> memory" where
  "DeleteServer orgID i m =
     (case m_servers m i of
        None \<Rightarrow> (Inl ErrNotFound, m)
      | Some s \<Rightarrow>
          if srv_OrgID s \<noteq> orgID then (Inl ErrNotFound, m)
          else let k = key orgID (srv_ServerID s) in
            (Inr (), m\<lparr>m_servers := (m_servers m)(i := None),
                       m_discovery := (m_discovery m)(k := None),
                       m_logs := (m_logs m)(k := None),
                       m_metrics := (m_metrics m)(k := None),
                       m_metricHist := (m_metricHist m)(k := None)\<rparr>))"

text \<open>The first server visited that belongs to the organisation and has the public id.\<close>

definition find_server :: "string list \<Rightarrow> string \<Rightarrow> string \<Rightarrow> memory \<Rightarrow> (string \<times> server) option" where
  "find_server ord orgID serverID m =
     find (\<lambda>(i, s). srv_OrgID s = orgID \<and> srv_ServerID s = serverID)
       (List.map_filter (\<lambda>i. map_option (\<lambda>s. (i, s)) (m_servers m i)) ord)"

definition TouchServerSeen :: "string list \<Rightarrow> string \<Rightarrow> string \<Rightarrow> time \<Rightarrow> health \<Rightarrow> memory \<Rightarrow>
    (store_error + unit) \<times> memory" where
  "TouchServerSeen ord orgID serverID now status m =
     (case find_server ord orgID serverID m of
        Some (i, s) \<Rightarrow>
          (Inr (), m\<lparr>m_servers := (m_servers m)(i \<mapsto> s\<lparr>srv_LastSeenAt := now, srv_Status := status\<rparr>)\<rparr>)
      | None \<Rightarrow> (Inl ErrNotFound, m))"

definition EnsureServer :: "string list \<Rightarrow> string \<Rightarrow> string \<Rightarrow> string \<Rightarrow> time \<Rightarrow> health \<Rightarrow> bytes \<Rightarrow> memory \<Rightarrow>
    memory" where
  "EnsureServer ord orgID serverID hostname now status rnd m =
     (case find_server ord orgID serverID m of
        Some (i, s) \<Rightarrow>
          let s1 = s\<lparr>srv_LastSeenAt := now, srv_Status := status\<rparr>;
              s2 = (if hostname \<noteq> [] then s1\<lparr>srv_Hostname := hostname\<rparr> else s1)
          in m\<lparr>m_servers := (m_servers m)(i \<mapsto> s2)\<rparr>
      | None \<Rightarrow>
          let srv = \<lparr>srv_ID = NewID ''srv'' rnd, srv_OrgID = orgID, srv_ServerID = serverID,
                     srv_Hostname = hostname, srv_Mode = ''cloud'', srv_Status = status,
                     srv_LastSeenAt = now, srv_CreatedAt = now\<rparr>
          in m\<lparr>m_servers := (m_servers m)(srv_ID srv \<mapsto> srv)\<rparr>)"

definition CreateEnrollmentToken :: "enrollment_token \<Rightarrow> memory \<Rightarrow> memory" where
  "CreateEnrollmentToken t m = m\<lparr>m_enrollments := (m_enrollments m)(tok_TokenHash t \<mapsto> t)\<rparr>"

definition ConsumeEnrollmentToken :: "string \<Rightarrow> time \<Rightarrow> memory \<Rightarrow> (store_error + enrollment_token) \<times> memory" where
  "ConsumeEnrollmentToken hash now m =
     (case m_enrollments m hash of
        None \<Rightarrow> (Inl ErrNotFound, m)
      | Some t \<Rightarrow>
          if tok_UsedAt t \<noteq> None \<or> time_After now (tok_ExpiresAt t) then (Inl ErrNotFound, m)
          else let t' = t\<lparr>tok_UsedAt := Some now\<rparr>
               in (Inr t', m\<lparr>m_enrollments := (m_enrollments m)(hash \<mapsto> t')\<rparr>))"

definition CreateAgent :: "agent \<Rightarrow> bytes \<Rightarrow> memory \<Rightarrow> agent \<times> memory" where
  "CreateAgent a0 rnd m =
     (let a = (if agt_ID a0 = [] then a0\<lparr>agt_ID := NewID ''agt'' rnd\<rparr> else a0)
      in (a, m\<lparr>m_agents := (m_agents m)(agt_ID a \<mapsto> a),
               m_agentByAID := (m_agentByAID m)(agt_AgentID a \<mapsto> agt_ID a)\<rparr>))"

definition GetAgentByAgentID :: "string \<Rightarrow> memory \<Rightarrow> store_error + agent" where
  "GetAgentByAgentID agentID m =
     (case m_agentByAID m agentID of
        None \<Rightarrow> Inl ErrNotFound
      | Some i \<Rightarrow>
          (case m_agents m i of
             None \<Rightarrow> Inl NilDeref
           | Some a \<Rightarrow> if agt_RevokedAt a \<noteq> None then Inl ErrNotFound else Inr a))"

definition GetAgentByPublicKey :: "string list \<Rightarrow> string \<Rightarrow> memory \<Rightarrow> store_error + agent" where
  "GetAgentByPublicKey ord publicKey m =
     (if publicKey = [] then Inl ErrNotFound
      else case find (\<lambda>a. agt_PublicKey a = publicKey) (range_vals (m_agents m) ord) of
        None \<Rightarrow> Inl ErrNotFound
      | Some a \<Rightarrow> Inr a)"

definition RevokeAgent :: "string \<Rightarrow> string \<Rightarrow> time \<Rightarrow> memory \<Rightarrow> (store_error + unit) \<times> memory" where
  "RevokeAgent orgID i now m =
     (case m_agents m i of
        None \<Rightarrow> (Inl ErrNotFound, m)
      | Some a \<Rightarrow>
          if agt_OrgID a \<noteq> orgID then (Inl ErrNotFound, m)
          else (Inr (), m\<lparr>m_agents := (m_agents m)(i \<mapsto> a\<lparr>agt_RevokedAt := Some now\<rparr>)\<rparr>))"

subsection \<open>Discovery snapshots, logs and metrics\<close>

definition SaveDiscovery :: "string \<Rightarrow> string \<Rightarrow> raw_json \<Rightarrow> memory \<Rightarrow> memory" where
  "SaveDiscovery orgID serverID snapshot m = m\<lparr>m_discovery := (m_discovery m)(key orgID serverID \<mapsto> snapshot)\<rparr>"

definition GetDiscovery :: "string \<Rightarrow> string \<Rightarrow> memory \<Rightarrow> store_error + raw_json" where
  "GetDiscovery orgID serverID m =
     (case m_discovery m (key orgID serverID) of None \<Rightarrow> Inl ErrNotFound | Some raw \<Rightarrow> Inr raw)"

definition SaveLogs :: "string \<Rightarrow> string \<Rightarrow> raw_json \<Rightarrow> memory \<Rightarrow> memory" where
  "SaveLogs orgID serverID logs m = m\<lparr>m_logs := (m_logs m)(key orgID serverID \<mapsto> logs)\<rparr>"

definition GetLogs :: "string \<Rightarrow> string \<Rightarrow> memory \<Rightarrow> store_error + raw_json" where
  "GetLogs orgID serverID m =
     (case m_logs m (key orgID serverID) of None \<Rightarrow> Inl ErrNotFound | Some raw \<Rightarrow> Inr raw)"

definition SaveMetrics :: "string \<Rightarrow> string \<Rightarrow> raw_json \<Rightarrow> memory \<Rightarrow> memory" where
  "SaveMetrics orgID serverID sample m = m\<lparr>m_metrics := (m_metrics m)(key orgID serverID \<mapsto> sample)\<rparr>"

definition GetMetrics :: "string \<Rightarrow> string \<Rightarrow> memory \<Rightarrow> store_error + raw_json" where
  "GetMetrics orgID serverID m =
     (case m_metrics m (key orgID serverID) of None \<Rightarrow> Inl ErrNotFound | Some raw \<Rightarrow> Inr raw)"

definition maxPoints :: nat where "maxPoints = 10000"

definition hist_of :: "(string \<rightharpoonup> 'a list) \<Rightarrow> string \<Rightarrow> 'a list" where
  "hist_of h k = (case h k of None \<Rightarrow> [] | Some xs \<Rightarrow> xs)"

definition AppendMetricSample :: "string \<Rightarrow> string \<Rightarrow> time \<Rightarrow> raw_json \<Rightarrow> memory \<Rightarrow> memory" where
  "AppendMetricSample orgID serverID ts sample m =
     (let k = key orgID serverID;
          h = hist_of (m_metricHist m) k @ [\<lparr>ms_TS = ts, ms_Sample = sample\<rparr>];
          h' = (if maxPoints < length h then drop (length h - maxPoints) h else h)
      in m\<lparr>m_metricHist := (m_metricHist m)(k \<mapsto> h')\<rparr>)"

definition QueryMetricHistory :: "string \<Rightarrow> string \<Rightarrow> time \<Rightarrow> memory \<Rightarrow> metric_sample list" where
  "QueryMetricHistory orgID serverID since m =
     filter (\<lambda>s. \<not> time_Before (ms_TS s) since) (hist_of (m_metricHist m) (key orgID serverID))"

subsection \<open>Alerts, events, audit\<close>

definition ListAlerts :: "string list \<Rightarrow> string \<Rightarrow> memory \<Rightarrow> alert list" where
  "ListAlerts ord orgID m =
     sort_key alr_Name (filter (\<lambda>a. alr_OrgID a = orgID) (range_vals (m_alerts m) ord))"

definition CreateAlert :: "alert \<Rightarrow> bytes \<Rightarrow> memory \<Rightarrow> alert \<times> memory" where
  "CreateAlert a0 rnd m =
     (let a = (if alr_ID a0 = [] then a0\<lparr>alr_ID := NewID ''alr'' rnd\<rparr> else a0)
      in (a, m\<lparr>m_alerts := (m_alerts m)(alr_ID a \<mapsto> a)\<rparr>))"

definition UpdateAlert :: "string \<Rightarrow> alert \<Rightarrow> memory \<Rightarrow> (store_error + unit) \<times> memory" where
  "UpdateAlert orgID a m =
     (case m_alerts m (alr_ID a) of
        None \<Rightarrow> (Inl ErrNotFound, m)
      | Some existing \<Rightarrow>
          if alr_OrgID existing \<noteq> orgID then (Inl ErrNotFound, m)
          else (Inr (), m\<lparr>m_alerts := (m_alerts m)(alr_ID a \<mapsto> a\<lparr>alr_OrgID := orgID\<rparr>)\<rparr>))"

definition DeleteAlert :: "string \<Rightarrow> string \<Rightarrow> memory \<Rightarrow> (store_error + unit) \<times> memory" where
  "DeleteAlert orgID i m =
     (case m_alerts m i of
        None \<Rightarrow> (Inl ErrNotFound, m)
      | Some a \<Rightarrow>
          if alr_OrgID a \<noteq> orgID then (Inl ErrNotFound, m)
          else (Inr (), m\<lparr>m_alerts := (m_alerts m)(i := None)\<rparr>))"

definition ListAlertInstances :: "string list \<Rightarrow> string \<Rightarrow> memory \<Rightarrow> alert_instance list" where
  "ListAlertInstances ord orgID m =
     sort_key (\<lambda>i. - ali_StartedAt i)
       (filter (\<lambda>i. ali_OrgID i = orgID) (range_vals (m_instances m) ord))"

definition UpsertAlertInstance :: "alert_instance \<Rightarrow> bytes \<Rightarrow> memory \<Rightarrow> alert_instance \<times> memory" where
  "UpsertAlertInstance i0 rnd m =
     (let i = (if ali_ID i0 = [] then i0\<lparr>ali_ID := NewID ''ali'' rnd\<rparr> else i0)
      in (i, m\<lparr>m_instances := (m_instances m)(ali_ID i \<mapsto> i)\<rparr>))"

definition AppendEvent :: "event \<Rightarrow> bytes \<Rightarrow> memory \<Rightarrow> memory" where
  "AppendEvent e0 rnd m =
     (let e = (if evt_ID e0 = [] then e0\<lparr>evt_ID := NewID ''evt'' rnd\<rparr> else e0)
      in m\<lparr>m_events := m_events m @ [e]\<rparr>)"

text \<open>The loop of \<open>ListEvents\<close> and \<open>ListAudit\<close>: newest first, while the output is
  shorter than the limit.\<close>

fun newest :: "('e \<Rightarrow> bool) \<Rightarrow> int \<Rightarrow> 'e list \<Rightarrow> 'e list \<Rightarrow> 'e list" where
  "newest P limit out [] = out"
| "newest P limit out (e # es) =
     (if int (length out) < limit then newest P limit (if P e then out @ [e] else out) es else out)"

definition ListEvents :: "string \<Rightarrow> int \<Rightarrow> memory \<Rightarrow> event list" where
  "ListEvents orgID limit m = newest (\<lambda>e. evt_OrgID e = orgID) limit [] (rev (m_events m))"

definition AppendAudit :: "audit_entry \<Rightarrow> bytes \<Rightarrow> memory \<Rightarrow> memory" where
  "AppendAudit e0 rnd m =
     (let e = (if aud_ID e0 = [] then e0\<lparr>aud_ID := NewID ''aud'' rnd\<rparr> else e0)
      in m\<lparr>m_audit := m_audit m @ [e]\<rparr>)"

definition ListAudit :: "string \<Rightarrow> int \<Rightarrow> memory \<Rightarrow> audit_entry list" where
  "ListAudit orgID limit m = newest (\<lambda>e. aud_OrgID e = orgID) limit [] (rev (m_audit m))"

lemmas store_write_defs =
  SeedOrgOwner_def UpsertOIDCUser_def UpdateUserEmail_def UpdateUserPassword_def CreateSession_def
  DeleteSession_def DeleteSessionsForUser_def UpsertServer_def DeleteServer_def TouchServerSeen_def
  EnsureServer_def CreateEnrollmentToken_def ConsumeEnrollmentToken_def CreateAgent_def
  RevokeAgent_def SaveDiscovery_def SaveLogs_def SaveMetrics_def AppendMetricSample_def
  CreateAlert_def UpdateAlert_def DeleteAlert_def UpsertAlertInstance_def AppendEvent_def
  AppendAudit_def

declare store_write_defs [store_simps]

subsection \<open>The store as a state machine\<close>

text \<open>One constructor per method that changes the state, with the method's arguments.\<close>

datatype store_op =
    OpSeed string string string bytes bytes time
  | OpOIDC string string string string bytes bytes time
  | OpEmail string string string
  | OpPassword string string string
  | OpCreateSession session
  | OpDeleteSession string
  | OpDeleteSessions string
  | OpUpsertServer string server bytes time
  | OpDeleteServer string string
  | OpTouch "string list" string string time health
  | OpEnsure "string list" string string string time health bytes
  | OpCreateToken enrollment_token
  | OpConsume string time
  | OpCreateAgent agent bytes
  | OpRevoke string string time
  | OpSaveDiscovery string string raw_json
  | OpSaveLogs string string raw_json
  | OpSaveMetrics string string raw_json
  | OpAppendMetric string string time raw_json
  | OpCreateAlert alert bytes
  | OpUpdateAlert string alert
  | OpDeleteAlert string string
  | OpUpsertInstance alert_instance bytes
  | OpAppendEvent event bytes
  | OpAppendAudit audit_entry bytes

fun store_step :: "store_op \<Rightarrow> memory \<Rightarrow> memory" where
  "store_step (OpSeed n e h ro ru t) m = snd (SeedOrgOwner n e h ro ru t m)"
| "store_step (OpOIDC p sub e n ro ru t) m = snd (UpsertOIDCUser p sub e n ro ru t m)"
| "store_step (OpEmail o1 u e) m = snd (UpdateUserEmail o1 u e m)"
| "store_step (OpPassword o1 u h) m = snd (UpdateUserPassword o1 u h m)"
| "store_step (OpCreateSession s) m = CreateSession s m"
| "store_step (OpDeleteSession i) m = DeleteSession i m"
| "store_step (OpDeleteSessions u) m = DeleteSessionsForUser u m"
| "store_step (OpUpsertServer o1 s r t) m = snd (UpsertServer o1 s r t m)"
| "store_step (OpDeleteServer o1 i) m = snd (DeleteServer o1 i m)"
| "store_step (OpTouch ord o1 i t h) m = snd (TouchServerSeen ord o1 i t h m)"
| "store_step (OpEnsure ord o1 i hn t h r) m = EnsureServer ord o1 i hn t h r m"
| "store_step (OpCreateToken t) m = CreateEnrollmentToken t m"
| "store_step (OpConsume h t) m = snd (ConsumeEnrollmentToken h t m)"
| "store_step (OpCreateAgent a r) m = snd (CreateAgent a r m)"
| "store_step (OpRevoke o1 i t) m = snd (RevokeAgent o1 i t m)"
| "store_step (OpSaveDiscovery o1 i r) m = SaveDiscovery o1 i r m"
| "store_step (OpSaveLogs o1 i r) m = SaveLogs o1 i r m"
| "store_step (OpSaveMetrics o1 i r) m = SaveMetrics o1 i r m"
| "store_step (OpAppendMetric o1 i t r) m = AppendMetricSample o1 i t r m"
| "store_step (OpCreateAlert a r) m = snd (CreateAlert a r m)"
| "store_step (OpUpdateAlert o1 a) m = snd (UpdateAlert o1 a m)"
| "store_step (OpDeleteAlert o1 i) m = snd (DeleteAlert o1 i m)"
| "store_step (OpUpsertInstance i r) m = snd (UpsertAlertInstance i r m)"
| "store_step (OpAppendEvent e r) m = AppendEvent e r m"
| "store_step (OpAppendAudit e r) m = AppendAudit e r m"

text \<open>
  What the callers of the store provide: identifiers drawn by \<open>auth.NewID\<close> and hashes of
  fresh tokens are not in use yet, an explicit identifier names an entity of the same
  organisation, and organisation identifiers (which \<open>auth.NewID\<close> makes) contain no slash.
\<close>

definition no_slash :: "string \<Rightarrow> bool" where
  "no_slash s \<longleftrightarrow> CHR ''/'' \<notin> set s"

definition id_ok :: "string \<Rightarrow> string \<Rightarrow> bytes \<Rightarrow> (string \<rightharpoonup> 'v) \<Rightarrow> ('v \<Rightarrow> string) \<Rightarrow> string \<Rightarrow> bool" where
  "id_ok i pfx rnd mp owner o1 \<longleftrightarrow>
     (if i = [] then mp (NewID pfx rnd) = None
      else (case mp i of None \<Rightarrow> True | Some v \<Rightarrow> owner v = o1))"

fun store_ok :: "store_op \<Rightarrow> memory \<Rightarrow> bool" where
  "store_ok (OpSeed n e h ro ru t) m \<longleftrightarrow>
     m_orgs m (NewID ''org'' ro) = None \<and> m_users m (NewID ''usr'' ru) = None
     \<and> m_memberships m (NewID ''usr'' ru) = None"
| "store_ok (OpOIDC p sub e n ro ru t) m \<longleftrightarrow>
     m_orgs m (NewID ''org'' ro) = None \<and> m_users m (NewID ''usr'' ru) = None
     \<and> m_memberships m (NewID ''usr'' ru) = None"
| "store_ok (OpCreateSession s) m \<longleftrightarrow> m_sessions m (ses_ID s) = None"
| "store_ok (OpUpsertServer o1 s r t) m \<longleftrightarrow> id_ok (srv_ID s) ''srv'' r (m_servers m) srv_OrgID o1"
| "store_ok (OpDeleteServer o1 i) m \<longleftrightarrow> no_slash o1"
| "store_ok (OpEnsure ord o1 i hn t h r) m \<longleftrightarrow> m_servers m (NewID ''srv'' r) = None"
| "store_ok (OpCreateToken t) m \<longleftrightarrow> m_enrollments m (tok_TokenHash t) = None"
| "store_ok (OpCreateAgent a r) m \<longleftrightarrow>
     m_agents m (if agt_ID a = [] then NewID ''agt'' r else agt_ID a) = None
     \<and> m_agentByAID m (agt_AgentID a) = None"
| "store_ok (OpSaveDiscovery o1 i r) m \<longleftrightarrow> no_slash o1"
| "store_ok (OpSaveLogs o1 i r) m \<longleftrightarrow> no_slash o1"
| "store_ok (OpSaveMetrics o1 i r) m \<longleftrightarrow> no_slash o1"
| "store_ok (OpAppendMetric o1 i t r) m \<longleftrightarrow> no_slash o1"
| "store_ok (OpCreateAlert a r) m \<longleftrightarrow> id_ok (alr_ID a) ''alr'' r (m_alerts m) alr_OrgID (alr_OrgID a)"
| "store_ok (OpUpsertInstance i r) m \<longleftrightarrow> id_ok (ali_ID i) ''ali'' r (m_instances m) ali_OrgID (ali_OrgID i)"
| "store_ok _ m = True"

abbreviation store_reachable :: "memory \<Rightarrow> bool" where
  "store_reachable \<equiv> reachable store_step store_ok NewMemory"

end
