(* ===== verification/Pulse_Store_Props.thy ===== *)
theory Pulse_Store_Props
  imports Pulse_Store
begin

section \<open>What the store guarantees\<close>

text \<open>
  The invariant of the in-memory store, tenant isolation, the lookup laws of its operations and
  the single use of enrollment tokens. The interpretations at the end of each part discharge
  the contracts of \<open>Pulse_Systems\<close> for the store's own operations.
\<close>

subsection \<open>Well-formedness\<close>

text \<open>The mail index and the accounts agree, every account has a membership, identity-provider
  links and agent identifiers point at something, and no history outgrows its bound.\<close>

definition mail_index_ok :: "memory \<Rightarrow> bool" where
  "mail_index_ok m \<longleftrightarrow>
     (\<forall>e uid. e \<noteq> [] \<longrightarrow> m_usersByMail m e = Some uid \<longrightarrow> (\<exists>u. m_users m uid = Some u \<and> usr_Email u = e)) \<and>
     (\<forall>uid u. m_users m uid = Some u \<longrightarrow> usr_Email u \<noteq> [] \<longrightarrow> m_usersByMail m (usr_Email u) = Some uid) \<and>
     (\<forall>uid u. m_users m uid = Some u \<longrightarrow> ToLower (usr_Email u) = usr_Email u)"

definition accounts_ok :: "memory \<Rightarrow> bool" where
  "accounts_ok m \<longleftrightarrow>
     dom (m_memberships m) = dom (m_users m) \<and>
     (\<forall>k uid. m_oidcByKey m k = Some uid \<longrightarrow> uid \<in> dom (m_users m)) \<and>
     (\<forall>uid. m_usersByMail m [] = Some uid \<longrightarrow> uid \<in> dom (m_users m))"

definition agents_ok :: "memory \<Rightarrow> bool" where
  "agents_ok m \<longleftrightarrow>
     (\<forall>aid i. m_agentByAID m aid = Some i \<longrightarrow> (\<exists>a. m_agents m i = Some a \<and> agt_AgentID a = aid)) \<and>
     (\<forall>i a. m_agents m i = Some a \<longrightarrow> m_agentByAID m (agt_AgentID a) = Some i)"

definition history_ok :: "memory \<Rightarrow> bool" where
  "history_ok m \<longleftrightarrow> (\<forall>k h. m_metricHist m k = Some h \<longrightarrow> length h \<le> maxPoints)"

definition store_inv :: "memory \<Rightarrow> bool" where
  "store_inv m \<longleftrightarrow> mail_index_ok m \<and> accounts_ok m \<and> agents_ok m \<and> history_ok m"

lemma store_inv_init: "store_inv NewMemory"
  by (simp add: store_inv_def mail_index_ok_def accounts_ok_def agents_ok_def history_ok_def NewMemory_def)

text \<open>The parts of the state an operation can touch.\<close>

definition same_accounts :: "memory \<Rightarrow> memory \<Rightarrow> bool" where
  "same_accounts m m' \<longleftrightarrow> m_users m' = m_users m \<and> m_usersByMail m' = m_usersByMail m \<and>
     m_oidcByKey m' = m_oidcByKey m \<and> m_memberships m' = m_memberships m"

definition same_agents :: "memory \<Rightarrow> memory \<Rightarrow> bool" where
  "same_agents m m' \<longleftrightarrow> m_agents m' = m_agents m \<and> m_agentByAID m' = m_agentByAID m"

lemma accounts_frame: "same_accounts m m' \<Longrightarrow> mail_index_ok m' = mail_index_ok m \<and> accounts_ok m' = accounts_ok m"
  by (simp add: same_accounts_def mail_index_ok_def accounts_ok_def)

lemma agents_frame: "same_agents m m' \<Longrightarrow> agents_ok m' = agents_ok m"
  by (simp add: same_agents_def agents_ok_def)

lemma history_frame: "m_metricHist m' = m_metricHist m \<Longrightarrow> history_ok m' = history_ok m"
  by (simp add: history_ok_def)

fun account_op :: "store_op \<Rightarrow> bool" where
  "account_op (OpSeed _ _ _ _ _ _) = True"
| "account_op (OpOIDC _ _ _ _ _ _ _) = True"
| "account_op (OpEmail _ _ _) = True"
| "account_op (OpPassword _ _ _) = True"
| "account_op _ = False"

fun agent_op :: "store_op \<Rightarrow> bool" where
  "agent_op (OpCreateAgent _ _) = True"
| "agent_op (OpRevoke _ _ _) = True"
| "agent_op _ = False"

fun history_op :: "store_op \<Rightarrow> bool" where
  "history_op (OpAppendMetric _ _ _ _) = True"
| "history_op (OpDeleteServer _ _) = True"
| "history_op _ = False"

lemma step_same_accounts: "\<not> account_op a \<Longrightarrow> same_accounts m (store_step a m)"
  by (cases a) (auto simp: same_accounts_def store_simps Let_def split: option.splits)

lemma step_same_agents: "\<not> agent_op a \<Longrightarrow> same_agents m (store_step a m)"
  by (cases a) (auto simp: same_agents_def store_simps Let_def split: option.splits)

lemma step_same_history: "\<not> history_op a \<Longrightarrow> m_metricHist (store_step a m) = m_metricHist m"
  by (cases a) (auto simp: store_simps Let_def split: option.splits)

subsubsection \<open>The operations on accounts keep the mail index\<close>

lemma mail_index_okD:
  assumes "mail_index_ok m"
  shows "e \<noteq> [] \<Longrightarrow> m_usersByMail m e = Some uid \<Longrightarrow> \<exists>u. m_users m uid = Some u \<and> usr_Email u = e"
    and "m_users m uid = Some u \<Longrightarrow> usr_Email u \<noteq> [] \<Longrightarrow> m_usersByMail m (usr_Email u) = Some uid"
    and "m_users m uid = Some u \<Longrightarrow> ToLower (usr_Email u) = usr_Email u"
  using assms unfolding mail_index_ok_def by blast+

text \<open>Adding an account under an unused address, or changing the address of an account to one that
  is free or its own.\<close>

lemma mail_index_add:
  assumes "mail_index_ok m" and "m_users m uid = None" and "e \<noteq> [] \<Longrightarrow> m_usersByMail m e = None"
    and "ToLower e = e" and "usr_Email u = e"
    and "m_users m' = (m_users m)(uid \<mapsto> u)"
    and "m_usersByMail m' = (if e = [] then (\<lambda>x. if x = [] then i else m_usersByMail m x)
                              else (m_usersByMail m)(e \<mapsto> uid))"
  shows "mail_index_ok m'"
  unfolding mail_index_ok_def
proof (intro conjI allI impI)
  fix x v assume "x \<noteq> []" "m_usersByMail m' x = Some v"
  then show "\<exists>w. m_users m' v = Some w \<and> usr_Email w = x"
    using mail_index_okD(1) [OF assms(1), of x v] assms(2,5,6,7) by (auto split: if_splits)
next
  fix v w assume "m_users m' v = Some w" "usr_Email w \<noteq> []"
  then show "m_usersByMail m' (usr_Email w) = Some v"
    using mail_index_okD(2) [OF assms(1), of v w] assms(3,5,6,7) by (auto split: if_splits)
next
  fix v w assume "m_users m' v = Some w"
  then show "ToLower (usr_Email w) = usr_Email w"
    using mail_index_okD(3) [OF assms(1), of v w] assms(4,5,6) by (auto split: if_splits)
qed

lemma mail_index_change:
  assumes ok: "mail_index_ok m" and u: "m_users m uid = Some u"
    and free: "m_usersByMail m e = None \<or> m_usersByMail m e = Some uid" and low: "ToLower e = e"
    and m': "m_users m' = (m_users m)(uid \<mapsto> u\<lparr>usr_Email := e\<rparr>)"
      "m_usersByMail m' = (if usr_Email u \<noteq> [] then (m_usersByMail m)(ToLower (usr_Email u) := None)
                              else m_usersByMail m)(e \<mapsto> uid)"
  shows "mail_index_ok m'"
  unfolding mail_index_ok_def
proof (intro conjI allI impI)
  note lu = mail_index_okD(3) [OF ok u]
  fix x v assume x: "x \<noteq> []" "m_usersByMail m' x = Some v"
  show "\<exists>w. m_users m' v = Some w \<and> usr_Email w = x"
  proof (cases "x = e")
    case True
    then show ?thesis using x m' by auto
  next
    case False
    then have "m_usersByMail m x = Some v" "usr_Email u \<noteq> [] \<longrightarrow> x \<noteq> usr_Email u"
      using x m'(2) lu by (auto split: if_splits)
    then obtain w where w: "m_users m v = Some w" "usr_Email w = x"
      using mail_index_okD(1) [OF ok x(1)] by blast
    with u x(1) \<open>usr_Email u \<noteq> [] \<longrightarrow> x \<noteq> usr_Email u\<close> have "v \<noteq> uid" by auto
    with w m'(1) show ?thesis by simp
  qed
next
  note lu = mail_index_okD(3) [OF ok u]
  fix v w assume w: "m_users m' v = Some w" "usr_Email w \<noteq> []"
  show "m_usersByMail m' (usr_Email w) = Some v"
  proof (cases "v = uid")
    case True
    then show ?thesis using w m' by auto
  next
    case False
    then have "m_users m v = Some w" using w m'(1) by simp
    then have i: "m_usersByMail m (usr_Email w) = Some v" using mail_index_okD(2) [OF ok] w(2) by blast
    with free False have "usr_Email w \<noteq> e" by auto
    moreover have "usr_Email u \<noteq> [] \<longrightarrow> usr_Email w \<noteq> usr_Email u"
      using mail_index_okD(2) [OF ok u] i False by auto
    ultimately show ?thesis using i m'(2) lu by auto
  qed
next
  fix v w assume "m_users m' v = Some w"
  then show "ToLower (usr_Email w) = usr_Email w"
    using mail_index_okD(3) [OF ok, of v w] low m'(1) by (auto split: if_splits)
qed

lemma mail_index_same_emails:
  assumes "mail_index_ok m" and "m_usersByMail m' = m_usersByMail m"
    and "m_users m uid = Some u" and "m_users m' = (m_users m)(uid \<mapsto> u')" and "usr_Email u' = usr_Email u"
  shows "mail_index_ok m'"
  unfolding mail_index_ok_def
proof (intro conjI allI impI)
  fix x v assume "x \<noteq> []" "m_usersByMail m' x = Some v"
  then show "\<exists>w. m_users m' v = Some w \<and> usr_Email w = x"
    using mail_index_okD(1) [OF assms(1), of x v] assms by auto
next
  fix v w assume "m_users m' v = Some w" "usr_Email w \<noteq> []"
  then show "m_usersByMail m' (usr_Email w) = Some v"
    using mail_index_okD(2) [OF assms(1)] assms by (auto split: if_splits)
next
  fix v w assume "m_users m' v = Some w"
  then show "ToLower (usr_Email w) = usr_Email w"
    using mail_index_okD(3) [OF assms(1)] assms by (auto split: if_splits)
qed

lemma seed_keeps_index:
  assumes "mail_index_ok m" and "store_ok (OpSeed n e h ro ru t) m"
  shows "mail_index_ok (store_step (OpSeed n e h ro ru t) m)"
proof (cases "m_usersByMail m (ToLower e)")
  case None
  show ?thesis
    by (rule mail_index_add [OF assms(1), where uid = "NewID ''usr'' ru" and e = "ToLower e"
          and i = "Some (NewID ''usr'' ru)"])
      (use assms None in \<open>auto simp: SeedOrgOwner_def Let_def fun_eq_iff\<close>)
qed (use assms in \<open>simp add: SeedOrgOwner_def Let_def\<close>)

lemma oidc_keeps_index:
  assumes "mail_index_ok m" and "store_ok (OpOIDC p sub e n ro ru t) m"
  shows "mail_index_ok (store_step (OpOIDC p sub e n ro ru t) m)"
proof (cases "m_oidcByKey m (p @ '':'' @ sub) = None \<and> (e \<noteq> [] \<longrightarrow> m_usersByMail m (ToLower e) = None)")
  case True
  show ?thesis
    by (rule mail_index_add [OF assms(1), where uid = "NewID ''usr'' ru" and e = "ToLower e"
          and i = "m_usersByMail m []"
          and u = "the (m_users (store_step (OpOIDC p sub e n ro ru t) m) (NewID ''usr'' ru))"])
      (use assms True in \<open>auto simp: UpsertOIDCUser_def Let_def fun_eq_iff\<close>)
next
  case False
  then show ?thesis using assms(1)
    by (auto simp: UpsertOIDCUser_def Let_def mail_index_ok_def split: option.splits)
qed

lemma email_keeps_index:
  assumes "mail_index_ok m"
  shows "mail_index_ok (store_step (OpEmail o1 uid e) m)"
proof (cases "fst (UpdateUserEmail o1 uid e m)")
  case (Inl x)
  then show ?thesis using assms
    by (auto simp: UpdateUserEmail_def Let_def split: option.splits if_splits)
next
  case (Inr x)
  then obtain u where u: "m_users m uid = Some u"
    by (auto simp: UpdateUserEmail_def Let_def split: option.splits if_splits)
  show ?thesis
    by (rule mail_index_change [OF assms u, where e = "ToLower (TrimSpace e)"])
      (use Inr u in \<open>auto simp: UpdateUserEmail_def Let_def split: option.splits if_splits\<close>)
qed

lemma password_keeps_index:
  assumes "mail_index_ok m"
  shows "mail_index_ok (store_step (OpPassword o1 uid h) m)"
proof (cases "m_users m uid")
  case None
  then show ?thesis using assms by (simp add: UpdateUserPassword_def)
next
  case (Some u)
  have "store_step (OpPassword o1 uid h) m = m \<or>
      store_step (OpPassword o1 uid h) m = m\<lparr>m_users := (m_users m)(uid \<mapsto> u\<lparr>usr_PasswordHash := h\<rparr>)\<rparr>"
    using Some by (auto simp: UpdateUserPassword_def split: option.splits)
  then show ?thesis using assms by (auto intro: mail_index_same_emails [OF assms _ Some])
qed

lemma step_mail_index: "mail_index_ok m \<Longrightarrow> store_ok a m \<Longrightarrow> mail_index_ok (store_step a m)"
  using accounts_frame [OF step_same_accounts [of a m]]
    seed_keeps_index oidc_keeps_index email_keeps_index password_keeps_index
  by (cases a) (simp_all del: store_step.simps)

lemma step_accounts_ok:
  assumes "accounts_ok m" and "mail_index_ok m"
  shows "accounts_ok (store_step a m)"
proof (cases "account_op a")
  case False
  then show ?thesis using assms accounts_frame [OF step_same_accounts] by blast
next
  case True
  have idx: "uid \<in> dom (m_users m)" if "m_usersByMail m e = Some uid" for e uid
    using that assms(1) mail_index_okD(1) [OF assms(2), of e uid]
    by (cases "e = []") (auto simp: accounts_ok_def)
  from True show ?thesis
  proof (cases a)
    case (OpSeed n e h ro ru t)
    then show ?thesis using assms
      by (auto simp: SeedOrgOwner_def accounts_ok_def Let_def split: if_splits)
  next
    case (OpOIDC p sub e n ro ru t)
    then show ?thesis using assms idx
      by (auto simp: UpsertOIDCUser_def accounts_ok_def Let_def split: option.splits if_splits)
  next
    case (OpEmail o1 uid e)
    then show ?thesis using assms
      by (auto simp: UpdateUserEmail_def accounts_ok_def Let_def split: option.splits if_splits)
  next
    case (OpPassword o1 uid h)
    then show ?thesis using assms
      by (auto simp: UpdateUserPassword_def accounts_ok_def split: option.splits if_splits)
  qed simp_all
qed

lemma step_agents_ok:
  assumes "agents_ok m" and "store_ok a m"
  shows "agents_ok (store_step a m)"
proof (cases "agent_op a")
  case False
  then show ?thesis using assms agents_frame [OF step_same_agents] by blast
next
  case True
  then show ?thesis
  proof (cases a)
    case (OpCreateAgent g r)
    then show ?thesis using assms
      by (fastforce simp: CreateAgent_def agents_ok_def Let_def split: if_splits)
  next
    case (OpRevoke o1 i t)
    then show ?thesis using assms
      by (fastforce simp: RevokeAgent_def agents_ok_def split: option.splits if_splits)
  qed simp_all
qed

lemma step_history_ok:
  assumes "history_ok m"
  shows "history_ok (store_step a m)"
proof (cases "history_op a")
  case False
  then show ?thesis using assms history_frame [OF step_same_history] by blast
next
  case True
  then show ?thesis
  proof (cases a)
    case (OpAppendMetric o1 i t r)
    then show ?thesis using assms
      by (auto simp: AppendMetricSample_def history_ok_def Let_def)
  next
    case (OpDeleteServer o1 i)
    then show ?thesis using assms
      by (auto simp: DeleteServer_def history_ok_def Let_def split: option.splits if_splits)
  qed simp_all
qed

lemma step_store_inv: "store_inv m \<Longrightarrow> store_ok a m \<Longrightarrow> store_inv (store_step a m)"
  by (simp add: store_inv_def step_mail_index step_accounts_ok step_agents_ok step_history_ok)

interpretation store: invariant_of store_step store_ok NewMemory store_inv
  by unfold_locales (simp_all add: store_inv_init step_store_inv)

text \<open>C3: in every reachable state of the store the index of e-mail addresses and the accounts
  agree (an indexed address belongs to exactly the account that carries it, in lower case),
  every account has a membership, every agent identifier resolves to the agent that carries it,
  and no metric history exceeds its bound.\<close>

theorem store_reachable_inv: "store_reachable m \<Longrightarrow> store_inv m"
  by (rule store.inv_reachable)

theorem store_reachable_inv_witness:
  "store_inv (store_step (OpSeed ''Default'' ''Ops@Example.com'' ''h'' [1] [2] 0) NewMemory)"
  by (rule store_reachable_inv, rule reachable_step [OF reachable_init]) (simp add: NewMemory_def)

subsection \<open>Tenant isolation\<close>

text \<open>What an organisation sees: the part of each map whose entries carry its identifier, the
  snapshots stored under its keys, its events and audit entries, and its members.\<close>

definition scoped :: "('v \<Rightarrow> string) \<Rightarrow> string \<Rightarrow> (string \<rightharpoonup> 'v) \<Rightarrow> (string \<rightharpoonup> 'v)" where
  "scoped owner t mp = (\<lambda>i. case mp i of None \<Rightarrow> None | Some v \<Rightarrow> if owner v = t then Some v else None)"

record tenant_view =
  v_servers :: "string \<rightharpoonup> server"
  v_agents :: "string \<rightharpoonup> agent"
  v_tokens :: "string \<rightharpoonup> enrollment_token"
  v_alerts :: "string \<rightharpoonup> alert"
  v_instances :: "string \<rightharpoonup> alert_instance"
  v_sessions :: "string \<rightharpoonup> session"
  v_discovery :: "string \<rightharpoonup> raw_json"
  v_logs :: "string \<rightharpoonup> raw_json"
  v_metrics :: "string \<rightharpoonup> raw_json"
  v_hist :: "string \<rightharpoonup> metric_sample list"
  v_members :: "string \<rightharpoonup> membership \<times> user option"
  v_events :: "event list"
  v_audit :: "audit_entry list"

definition members_of :: "string \<Rightarrow> (string \<rightharpoonup> membership) \<Rightarrow> (string \<rightharpoonup> user) \<Rightarrow>
    (string \<rightharpoonup> membership \<times> user option)" where
  "members_of t mems usrs = (\<lambda>uid. case mems uid of None \<Rightarrow> None
     | Some mem \<Rightarrow> if mem_OrgID mem = t then Some (mem, usrs uid) else None)"

definition view_of :: "string \<Rightarrow> memory \<Rightarrow> tenant_view" where
  "view_of t m =
     \<lparr>v_servers = scoped srv_OrgID t (m_servers m), v_agents = scoped agt_OrgID t (m_agents m),
      v_tokens = scoped tok_OrgID t (m_enrollments m), v_alerts = scoped alr_OrgID t (m_alerts m),
      v_instances = scoped ali_OrgID t (m_instances m), v_sessions = scoped ses_OrgID t (m_sessions m),
      v_discovery = m_discovery m \<circ> key t, v_logs = m_logs m \<circ> key t,
      v_metrics = m_metrics m \<circ> key t, v_hist = m_metricHist m \<circ> key t,
      v_members = members_of t (m_memberships m) (m_users m),
      v_events = filter (\<lambda>e. evt_OrgID e = t) (m_events m),
      v_audit = filter (\<lambda>e. aud_OrgID e = t) (m_audit m)\<rparr>"

text \<open>Whether an operation is made for organisation \<open>t\<close>: it names \<open>t\<close> (an account created
  by \<open>SeedOrgOwner\<close> or \<open>UpsertOIDCUser\<close> founds its own organisation), or it presents a
  session or a token of \<open>t\<close>.\<close>

fun acts_for :: "store_op \<Rightarrow> memory \<Rightarrow> string \<Rightarrow> bool" where
  "acts_for (OpSeed n e h ro ru tm) m t \<longleftrightarrow> t = NewID ''org'' ro"
| "acts_for (OpOIDC p sub e n ro ru tm) m t \<longleftrightarrow> t = NewID ''org'' ro"
| "acts_for (OpEmail o1 u e) m t \<longleftrightarrow> t = o1"
| "acts_for (OpPassword o1 u h) m t \<longleftrightarrow> t = o1"
| "acts_for (OpCreateSession s) m t \<longleftrightarrow> t = ses_OrgID s"
| "acts_for (OpDeleteSession i) m t \<longleftrightarrow> (\<exists>s. m_sessions m i = Some s \<and> ses_OrgID s = t)"
| "acts_for (OpDeleteSessions u) m t \<longleftrightarrow>
     (\<exists>i s. m_sessions m i = Some s \<and> ses_UserID s = u \<and> ses_OrgID s = t)"
| "acts_for (OpUpsertServer o1 s r tm) m t \<longleftrightarrow> t = o1"
| "acts_for (OpDeleteServer o1 i) m t \<longleftrightarrow> t = o1"
| "acts_for (OpTouch ord o1 i tm h) m t \<longleftrightarrow> t = o1"
| "acts_for (OpEnsure ord o1 i hn tm h r) m t \<longleftrightarrow> t = o1"
| "acts_for (OpCreateToken k) m t \<longleftrightarrow> t = tok_OrgID k"
| "acts_for (OpConsume h tm) m t \<longleftrightarrow> (\<exists>k. m_enrollments m h = Some k \<and> tok_OrgID k = t)"
| "acts_for (OpCreateAgent a r) m t \<longleftrightarrow> t = agt_OrgID a"
| "acts_for (OpRevoke o1 i tm) m t \<longleftrightarrow> t = o1"
| "acts_for (OpSaveDiscovery o1 i r) m t \<longleftrightarrow> t = o1"
| "acts_for (OpSaveLogs o1 i r) m t \<longleftrightarrow> t = o1"
| "acts_for (OpSaveMetrics o1 i r) m t \<longleftrightarrow> t = o1"
| "acts_for (OpAppendMetric o1 i tm r) m t \<longleftrightarrow> t = o1"
| "acts_for (OpCreateAlert a r) m t \<longleftrightarrow> t = alr_OrgID a"
| "acts_for (OpUpdateAlert o1 a) m t \<longleftrightarrow> t = o1"
| "acts_for (OpDeleteAlert o1 i) m t \<longleftrightarrow> t = o1"
| "acts_for (OpUpsertInstance i r) m t \<longleftrightarrow> t = ali_OrgID i"
| "acts_for (OpAppendEvent e r) m t \<longleftrightarrow> t = evt_OrgID e"
| "acts_for (OpAppendAudit e r) m t \<longleftrightarrow> t = aud_OrgID e"

lemma scoped_upd:
  assumes "owner v \<noteq> t" and "case mp i of None \<Rightarrow> True | Some w \<Rightarrow> owner w \<noteq> t"
  shows "scoped owner t (mp(i \<mapsto> v)) = scoped owner t mp"
  using assms by (auto simp: scoped_def fun_eq_iff split: option.splits)

lemma scoped_del:
  "case mp i of None \<Rightarrow> True | Some w \<Rightarrow> owner w \<noteq> t \<Longrightarrow> scoped owner t (mp(i := None)) = scoped owner t mp"
  by (auto simp: scoped_def fun_eq_iff split: option.splits)

lemma members_upd_user:
  "case mems uid of None \<Rightarrow> True | Some mem \<Rightarrow> mem_OrgID mem \<noteq> t \<Longrightarrow>
    members_of t mems (usrs(uid := u)) = members_of t mems usrs"
  by (auto simp: members_of_def fun_eq_iff split: option.splits)

lemma members_add:
  "mems uid = None \<Longrightarrow> mem_OrgID mem \<noteq> t \<Longrightarrow>
    members_of t (mems(uid \<mapsto> mem)) usrs = members_of t mems usrs"
  by (auto simp: members_of_def fun_eq_iff)

text \<open>Keys of different organisations never collide, as organisation ids contain no slash.\<close>

lemma key_inj:
  assumes "no_slash a" and "no_slash b"
  shows "key a s = key b t \<longleftrightarrow> a = b \<and> s = t"
proof
  assume eq: "key a s = key b t"
  have "Cut (key a s) (CHR ''/'') = (a, s, True)" "Cut (key b t) (CHR ''/'') = (b, t, True)"
    using assms by (simp_all add: key_def no_slash_def Cut_append)
  with eq show "a = b \<and> s = t" by (metis prod.inject)
qed simp

lemma comp_key_upd: "no_slash a \<Longrightarrow> no_slash t \<Longrightarrow> t \<noteq> a \<Longrightarrow> (f(key a s := v)) \<circ> key t = f \<circ> key t"
  by (auto simp: fun_eq_iff key_inj)

lemma find_server_Some:
  assumes "find_server ord o1 sid m = Some (i, s)"
  shows "m_servers m i = Some s" "srv_OrgID s = o1" "srv_ServerID s = sid" "i \<in> set ord"
  using find_SomeD [OF assms [unfolded find_server_def]] by (auto simp: set_map_filter)

lemma find_server_None:
  "find_server ord o1 sid m = None \<longleftrightarrow>
    (\<forall>i \<in> set ord. \<forall>s. m_servers m i = Some s \<longrightarrow> \<not> (srv_OrgID s = o1 \<and> srv_ServerID s = sid))"
  by (auto simp: find_server_def find_None_iff set_map_filter)

lemmas view_simps = view_of_def scoped_upd scoped_del comp_key_upd members_add members_upd_user

lemma respects_accounts:
  assumes "account_op a" and "store_ok a m" and "\<not> acts_for a m t"
  shows "view_of t (store_step a m) = view_of t m"
  using assms
proof (cases a)
  case (OpSeed n e h ro ru tm)
  then show ?thesis using assms by (auto simp: view_simps SeedOrgOwner_def Let_def)
next
  case (OpOIDC p sub e n ro ru tm)
  then show ?thesis using assms by (auto simp: view_simps UpsertOIDCUser_def Let_def split: option.splits)
next
  case (OpEmail o1 u e)
  then show ?thesis using assms by (auto simp: view_simps UpdateUserEmail_def Let_def split: option.splits)
next
  case (OpPassword o1 u h)
  then show ?thesis using assms by (auto simp: view_simps UpdateUserPassword_def split: option.splits)
qed simp_all

lemma scoped_sessions_del:
  assumes "\<not> (\<exists>i s. mp i = Some s \<and> ses_UserID s = u \<and> ses_OrgID s = t)"
  shows "scoped ses_OrgID t (\<lambda>i. case mp i of None \<Rightarrow> None | Some s \<Rightarrow> if ses_UserID s = u then None else Some s)
    = scoped ses_OrgID t mp"
  using assms by (auto simp: scoped_def fun_eq_iff split: option.splits)

lemma id_okD: "id_ok i pfx rnd mp owner o1 \<Longrightarrow> o1 \<noteq> t \<Longrightarrow>
    case mp (if i = [] then NewID pfx rnd else i) of None \<Rightarrow> True | Some v \<Rightarrow> owner v \<noteq> t"
  by (auto simp: id_ok_def split: if_splits option.splits)

lemma respects_servers:
  assumes "store_ok a m" and "\<not> acts_for a m t" and "no_slash t"
    and "a = OpUpsertServer o1 s r tm \<or> a = OpDeleteServer o1 i \<or> a = OpTouch ord o1 i tm h
      \<or> a = OpEnsure ord o1 i hn tm h r"
  shows "view_of t (store_step a m) = view_of t m"
  using assms(4)
proof (elim disjE)
  assume "a = OpUpsertServer o1 s r tm"
  with assms show ?thesis using id_okD [of "srv_ID s" "''srv''" r "m_servers m" srv_OrgID o1 t]
    by (auto simp: view_simps UpsertServer_def Let_def split: if_splits)
next
  assume "a = OpDeleteServer o1 i"
  with assms show ?thesis
    by (auto simp: view_simps DeleteServer_def Let_def split: option.splits)
next
  assume "a = OpTouch ord o1 i tm h"
  with assms show ?thesis
    by (auto simp: view_simps TouchServerSeen_def find_server_Some split: option.splits)
next
  assume "a = OpEnsure ord o1 i hn tm h r"
  with assms show ?thesis
    by (auto simp: view_simps EnsureServer_def Let_def find_server_Some split: option.splits)
qed

lemma step_respects:
  assumes "store_ok a m" and "no_slash t" and "\<not> acts_for a m t"
  shows "view_of t (store_step a m) = view_of t m"
proof (cases a)
  case (OpCreateAlert x r)
  with assms show ?thesis using id_okD [of "alr_ID x" "''alr''" r "m_alerts m" alr_OrgID "alr_OrgID x" t]
    by (auto simp: view_simps CreateAlert_def Let_def split: if_splits)
next
  case (OpUpsertInstance x r)
  with assms show ?thesis using id_okD [of "ali_ID x" "''ali''" r "m_instances m" ali_OrgID "ali_OrgID x" t]
    by (auto simp: view_simps UpsertAlertInstance_def Let_def split: if_splits)
next
  case (OpDeleteSessions u)
  with assms show ?thesis
    by (simp add: view_of_def DeleteSessionsForUser_def scoped_sessions_del)
qed (use assms respects_accounts [of a m t] respects_servers [of a m t] in
      \<open>auto simp: view_simps store_simps Let_def split: option.splits\<close>)

interpretation tenants: tenant_isolation store_step store_ok NewMemory store_inv acts_for view_of no_slash
  by unfold_locales (simp add: step_respects)

subsubsection \<open>The scoped reads are functions of the view\<close>

lemma GetServer_view: "GetServer t i m = (case v_servers (view_of t m) i of None \<Rightarrow> Inl ErrNotFound | Some s \<Rightarrow> Inr s)"
  by (simp add: GetServer_def view_of_def scoped_def split: option.splits)

lemma GetMembership_view:
  "GetMembership t u m = (case v_members (view_of t m) u of None \<Rightarrow> Inl ErrNotFound | Some p \<Rightarrow> Inr (fst p))"
  by (simp add: GetMembership_def view_of_def members_of_def split: option.splits)

lemma GetUser_view:
  "GetUser t u m = (case v_members (view_of t m) u of Some (_, Some usr) \<Rightarrow> Inr usr | _ \<Rightarrow> Inl ErrNotFound)"
  by (simp add: GetUser_def view_of_def members_of_def split: option.splits)

lemma snapshots_view:
  "GetDiscovery t i m = (case v_discovery (view_of t m) i of None \<Rightarrow> Inl ErrNotFound | Some raw \<Rightarrow> Inr raw)"
  "GetLogs t i m = (case v_logs (view_of t m) i of None \<Rightarrow> Inl ErrNotFound | Some raw \<Rightarrow> Inr raw)"
  "GetMetrics t i m = (case v_metrics (view_of t m) i of None \<Rightarrow> Inl ErrNotFound | Some raw \<Rightarrow> Inr raw)"
  "QueryMetricHistory t i since m =
     filter (\<lambda>s. \<not> time_Before (ms_TS s) since) (hist_of (v_hist (view_of t m)) i)"
  by (simp_all add: GetDiscovery_def GetLogs_def GetMetrics_def QueryMetricHistory_def view_of_def hist_of_def)

lemma newest_take: "int (length out) \<le> limit \<Longrightarrow> newest P limit out es = out @ take (nat limit - length out) (filter P es)"
proof (induction es arbitrary: out)
  case (Cons e es)
  show ?case
  proof (cases "int (length out) < limit")
    case True
    then have "nat limit - length out = Suc (nat limit - Suc (length out))" by linarith
    with True Cons.IH [of out] Cons.IH [of "out @ [e]"] show ?thesis by simp
  qed (use Cons.prems in simp)
qed simp

lemma newest_Nil: "newest P limit [] es = take (nat limit) (filter P es)"
  by (cases "0 \<le> limit") (simp add: newest_take, cases es, simp_all)

lemma lists_view:
  "ListEvents t limit m = take (nat limit) (rev (v_events (view_of t m)))"
  "ListAudit t limit m = take (nat limit) (rev (v_audit (view_of t m)))"
  by (simp_all add: ListEvents_def ListAudit_def newest_Nil view_of_def rev_filter)

lemma set_ListServers:
  "visits (m_servers m) ord \<Longrightarrow> set (ListServers ord t m) = ran (v_servers (view_of t m))"
  by (auto simp: ListServers_def range_vals_def set_map_filter visits_def view_of_def scoped_def ran_def
      split: option.splits)

lemma set_ListAlerts:
  "visits (m_alerts m) ord \<Longrightarrow> set (ListAlerts ord t m) = ran (v_alerts (view_of t m))"
  by (auto simp: ListAlerts_def range_vals_def set_map_filter visits_def view_of_def scoped_def ran_def
      split: option.splits)



text \<open>The isolation rests on the identifiers the callers pass. \<open>UpsertServer\<close> does not look
  at the owner of an existing row: given the row identifier of another organisation's server, it
  moves that server to the caller's organisation and its owner can no longer read it.\<close>

theorem UpsertServer_takes_over_foreign_id:
  assumes "GetServer victim i m = Inr s" and "i \<noteq> []" and "attacker \<noteq> victim"
  shows "\<exists>s'. GetServer attacker i (snd (UpsertServer attacker (x\<lparr>srv_ID := i\<rparr>) rnd now m)) = Inr s' \<and>
    GetServer victim i (snd (UpsertServer attacker (x\<lparr>srv_ID := i\<rparr>) rnd now m)) = Inl ErrNotFound"
  using assms by (auto simp: GetServer_def UpsertServer_def Let_def split: option.splits if_splits)

theorem UpsertServer_takes_over_foreign_id_witness:
  "let s = \<lparr>srv_ID = ''srv_1'', srv_OrgID = ''orgA'', srv_ServerID = ''s1'', srv_Hostname = ''h'',
            srv_Mode = ''cloud'', srv_Status = HealthHealthy, srv_LastSeenAt = 0, srv_CreatedAt = 0\<rparr>;
       m = NewMemory\<lparr>m_servers := [''srv_1'' \<mapsto> s]\<rparr>
   in GetServer ''orgA'' ''srv_1'' (snd (UpsertServer ''orgB'' (s\<lparr>srv_ID := ''srv_1''\<rparr>) [] 0 m)) = Inl ErrNotFound"
proof -
  define s where "s = \<lparr>srv_ID = ''srv_1'', srv_OrgID = ''orgA'', srv_ServerID = ''s1'', srv_Hostname = ''h'',
      srv_Mode = ''cloud'', srv_Status = HealthHealthy, srv_LastSeenAt = 0, srv_CreatedAt = (0::int)\<rparr>"
  have "GetServer ''orgA'' ''srv_1'' (NewMemory\<lparr>m_servers := [''srv_1'' \<mapsto> s]\<rparr>) = Inr s"
    by (simp add: GetServer_def s_def)
  from UpsertServer_takes_over_foreign_id [OF this, of "''orgB''" s "[]" 0]
  show ?thesis by (auto simp: Let_def s_def)
qed

subsection \<open>Enrollment tokens are consumed at most once\<close>

definition consumes_token :: "store_op \<Rightarrow> memory \<Rightarrow> string option" where
  "consumes_token a m =
     (case a of
        OpConsume h now \<Rightarrow> (case fst (ConsumeEnrollmentToken h now m) of Inl _ \<Rightarrow> None | Inr _ \<Rightarrow> Some h)
      | _ \<Rightarrow> None)"

definition token_spent :: "memory \<Rightarrow> string \<Rightarrow> bool" where
  "token_spent m h \<longleftrightarrow> (\<exists>t. m_enrollments m h = Some t \<and> tok_UsedAt t \<noteq> None)"

lemma Consume_Inr:
  "fst (ConsumeEnrollmentToken h now m) = Inr t' \<longleftrightarrow>
     (\<exists>t. m_enrollments m h = Some t \<and> tok_UsedAt t = None \<and> now \<le> tok_ExpiresAt t \<and>
       t' = t\<lparr>tok_UsedAt := Some now\<rparr>)"
  by (auto simp: ConsumeEnrollmentToken_def Let_def time_After_def split: option.splits)

lemma token_spent_step: "store_ok a m \<Longrightarrow> token_spent m h \<Longrightarrow> token_spent (store_step a m) h"
  by (cases a) (auto simp: token_spent_def store_simps Let_def split: option.splits if_splits)

interpretation tokens: single_use store_step store_ok consumes_token token_spent
proof
  fix a m h assume "consumes_token a m = Some h"
  then obtain now t where a: "a = OpConsume h now" "fst (ConsumeEnrollmentToken h now m) = Inr t"
    by (auto simp: consumes_token_def split: store_op.splits sum.splits)
  then show "\<not> token_spent m h" by (auto simp: Consume_Inr token_spent_def)
  from a show "token_spent (store_step a m) h"
    by (auto simp: token_spent_def ConsumeEnrollmentToken_def Let_def split: option.splits if_splits)
next
  fix a m h assume "store_ok a m" "token_spent m h"
  then show "token_spent (store_step a m) h" by (rule token_spent_step)
qed

text \<open>C4: an enrollment token admits at most one agent. In every sequence of store operations from
  any state, each token hash is consumed successfully at most once.\<close>

theorem enrollment_tokens_single_use:
  assumes "run_ok store_ok store_step as m"
  shows "distinct (consumed consumes_token store_step as m)"
  using assms by (rule tokens.consumed_distinct)

definition sample_token :: enrollment_token where
  "sample_token = \<lparr>tok_ID = [], tok_OrgID = ''orgA'', tok_TokenHash = ''h1'', tok_ExpiresAt = 100,
     tok_UsedAt = None, tok_Fingerprint = [], tok_CreatedAt = 0\<rparr>"

theorem enrollment_tokens_single_use_witness:
  "distinct (consumed consumes_token store_step
      [OpCreateToken sample_token, OpConsume ''h1'' 10, OpConsume ''h1'' 11] NewMemory)
   \<and> consumed consumes_token store_step
      [OpCreateToken sample_token, OpConsume ''h1'' 10, OpConsume ''h1'' 11] NewMemory = [''h1'']"
proof (rule conjI)
  show "distinct (consumed consumes_token store_step
      [OpCreateToken sample_token, OpConsume ''h1'' 10, OpConsume ''h1'' 11] NewMemory)"
    by (rule enrollment_tokens_single_use) (simp add: NewMemory_def sample_token_def)
qed (simp add: consumes_token_def CreateEnrollmentToken_def ConsumeEnrollmentToken_def NewMemory_def
    sample_token_def time_After_def Let_def)

subsection \<open>Sessions\<close>

lemma DeleteSessions_lookup:
  "GetSession i now (DeleteSessionsForUser u m) =
     (case m_sessions m i of Some s \<Rightarrow> if ses_UserID s = u then Inl ErrNotFound else GetSession i now m
      | None \<Rightarrow> Inl ErrNotFound)"
  by (auto simp: GetSession_def DeleteSessionsForUser_def split: option.splits)

lemma GetSession_Create: "GetSession i now (CreateSession s m) =
    (if i = ses_ID s then (if time_After now (ses_ExpiresAt s) then Inl ErrNotFound else Inr s)
     else GetSession i now m)"
  by (simp add: GetSession_def CreateSession_def)

subsection \<open>Histories, servers and agents\<close>

text \<open>The metric history of a server is the sequence of its appended samples cut to the newest
  10000: after any number of appends the stored history is the last \<open>maxPoints\<close> samples, in
  order, and a query returns those not older than the requested time.\<close>

theorem metric_history_is_newest_suffix:
  assumes "m_metricHist m (key o1 sid) = None"
    and "m' = fold (\<lambda>(t, raw). AppendMetricSample o1 sid t raw) xs m"
  shows "QueryMetricHistory o1 sid since m' =
    filter (\<lambda>s. since \<le> ms_TS s)
      (drop (length xs - maxPoints) (map (\<lambda>(t, raw). \<lparr>ms_TS = t, ms_Sample = raw\<rparr>) xs))"
proof -
  let ?f = "\<lambda>(t, raw). \<lparr>ms_TS = t, ms_Sample = raw\<rparr>"
  have "hist_of (m_metricHist (fold (\<lambda>(t, raw). AppendMetricSample o1 sid t raw) xs m)) (key o1 sid)
      = drop (length xs - maxPoints) (map ?f xs)"
  proof (induction xs rule: rev_induct)
    case Nil
    then show ?case using assms(1) by (simp add: hist_of_def)
  next
    case (snoc x xs)
    then show ?case
      by (cases x, cases "maxPoints \<le> length xs")
        (auto simp: AppendMetricSample_def hist_of_def Let_def Suc_diff_le)
  qed
  then show ?thesis using assms(2)
    by (simp add: QueryMetricHistory_def time_Before_def not_less)
qed

theorem metric_history_is_newest_suffix_witness:
  "QueryMetricHistory ''o'' ''s'' 2 (fold (\<lambda>(t, raw). AppendMetricSample ''o'' ''s'' t raw)
      [(1, ''a''), (2, ''b''), (3, ''c'')] NewMemory)
    = [\<lparr>ms_TS = 2, ms_Sample = ''b''\<rparr>, \<lparr>ms_TS = 3, ms_Sample = ''c''\<rparr>]"
  using metric_history_is_newest_suffix [OF _ refl, of NewMemory "''o''" "''s''" 2
      "[(1, ''a''), (2, ''b''), (3, ''c'')]"]
  by (simp add: NewMemory_def maxPoints_def)

text \<open>Looking an agent up never dereferences a missing entry, and a revoked agent stays
  refused: in every reachable state \<open>GetAgentByAgentID\<close> returns the live agent that carries the
  identifier or \<open>ErrNotFound\<close>, and after a successful revocation it returns \<open>ErrNotFound\<close>.\<close>

theorem GetAgentByAgentID_safe:
  assumes "store_reachable m"
  shows "GetAgentByAgentID aid m \<noteq> Inl NilDeref \<and>
    (\<forall>a. GetAgentByAgentID aid m = Inr a \<longrightarrow> agt_AgentID a = aid \<and> agt_RevokedAt a = None) \<and>
    (\<forall>a i o1 now. m_agents m i = Some a \<and> agt_AgentID a = aid \<and>
       fst (RevokeAgent o1 i now m) = Inr () \<longrightarrow>
       GetAgentByAgentID aid (snd (RevokeAgent o1 i now m)) = Inl ErrNotFound)"
proof -
  have "agents_ok m" using store.inv_reachable [OF assms] by (simp add: store_inv_def)
  then show ?thesis
    by (fastforce simp: agents_ok_def GetAgentByAgentID_def RevokeAgent_def split: option.splits if_splits)
qed

theorem GetAgentByAgentID_safe_witness:
  "GetAgentByAgentID ''a'' NewMemory \<noteq> Inl NilDeref"
  using GetAgentByAgentID_safe [OF reachable_init] by blast

text \<open>The lookup after \<open>EnsureServer\<close>: whatever order the map is visited in, a row of the
  organisation with the public identifier exists, freshly seen and with the new status.\<close>

lemma EnsureServer_present:
  assumes "visits (m_servers m) ord"
  shows "\<exists>i s. m_servers (EnsureServer ord o1 sid hn now st r m) i = Some s \<and> srv_OrgID s = o1 \<and>
    srv_ServerID s = sid \<and> srv_LastSeenAt s = now \<and> srv_Status s = st"
proof (cases "find_server ord o1 sid m")
  case None
  then show ?thesis by (auto simp: EnsureServer_def Let_def)
next
  case (Some p)
  obtain i s where "p = (i, s)" by (cases p)
  with Some find_server_Some [of ord o1 sid m i s] show ?thesis
    by (auto simp: EnsureServer_def Let_def intro!: exI [of _ i])
qed

end
