(* ===== verification/Pulse_Rbac.thy ===== *)
theory Pulse_Rbac
  imports Pulse_Model
begin

section \<open>Package \<open>rbac\<close>: roles and permissions\<close>

text \<open>
  \<^verbatim>\<open>apps/api/internal/rbac/rbac.go\<close>: the permissions are a datatype with the source's
  constants, the role table a function from role strings, undefined for unknown roles.
\<close>

datatype permission = ServerRead | ServerManage | AlertRead | AlertManage | EventRead
  | IntegrationManage | SSHExec | UserManage | OrgManage | AuditRead

fun permission_string :: "permission \<Rightarrow> string" where
  "permission_string ServerRead = ''server.read''"
| "permission_string ServerManage = ''server.manage''"
| "permission_string AlertRead = ''alert.read''"
| "permission_string AlertManage = ''alert.manage''"
| "permission_string EventRead = ''event.read''"
| "permission_string IntegrationManage = ''integration.manage''"
| "permission_string SSHExec = ''ssh.exec''"
| "permission_string UserManage = ''user.manage''"
| "permission_string OrgManage = ''org.manage''"
| "permission_string AuditRead = ''audit.read''"

definition rolePermissions :: "role \<rightharpoonup> permission list" where
  "rolePermissions r =
     (if r = RoleViewer then Some [ServerRead, AlertRead, EventRead]
      else if r = RoleAdmin then Some [ServerRead, AlertRead, EventRead, ServerManage, AlertManage,
        IntegrationManage, AuditRead, SSHExec]
      else if r = RoleOwner then Some [ServerRead, AlertRead, EventRead, ServerManage, AlertManage,
        IntegrationManage, AuditRead, UserManage, OrgManage, SSHExec]
      else None)"

definition Can :: "role \<Rightarrow> permission \<Rightarrow> bool" where
  "Can r p = (case rolePermissions r of None \<Rightarrow> False | Some ps \<Rightarrow> p \<in> set ps)"

text \<open>\<open>Permissions\<close> ranges over the role's permission map, in an order the runtime chooses: the
  model gives the table's order.\<close>

definition Permissions :: "role \<Rightarrow> permission list" where
  "Permissions r = (case rolePermissions r of None \<Rightarrow> [] | Some ps \<Rightarrow> ps)"

lemma Permissions_Can: "p \<in> set (Permissions r) \<longleftrightarrow> Can r p"
  by (auto simp: Permissions_def Can_def split: option.splits)

text \<open>Every permission is one of the listed ones, so the roles can be compared.\<close>

text \<open>The roles form a chain (whatever a viewer may do an admin may, whatever an admin may do
  the owner may, and the owner may do everything); a viewer holds only read permissions, in
  particular never the SSH console; an unknown role holds nothing.\<close>

theorem role_hierarchy:
  "(Can RoleViewer p \<longrightarrow> Can RoleAdmin p) \<and> (Can RoleAdmin p \<longrightarrow> Can RoleOwner p) \<and> Can RoleOwner p \<and>
   (Can RoleViewer p \<longleftrightarrow> p \<in> {ServerRead, AlertRead, EventRead}) \<and>
   (Can RoleAdmin p \<longleftrightarrow> p \<noteq> UserManage \<and> p \<noteq> OrgManage) \<and>
   (r \<notin> {RoleViewer, RoleAdmin, RoleOwner} \<longrightarrow> \<not> Can r p)"
  by (cases p) (auto simp: Can_def rolePermissions_def role_defs)

theorem role_hierarchy_witness: "Can RoleOwner SSHExec \<and> \<not> Can ''root'' SSHExec"
  using role_hierarchy [of SSHExec "''root''"] by (simp add: role_defs)

end
