(* ===== verification/Go_Json.thy ===== *)
theory Go_Json
  imports Go_Encoding Complex_Main
begin

section \<open>JSON text (\<open>encoding/json\<close>)\<close>

text \<open>
  What the handlers use of \<open>encoding/json\<close>: the parser of one JSON value, the two entry
  points \<open>json.Unmarshal\<close> (the whole input) and \<open>Decoder.Decode\<close> (the first value of a
  stream), and the typing rules by which an object is stored into a struct. A number keeps its
  literal; a member of an object keeps the raw text of its value next to the parsed value, which
  is what a \<open>json.RawMessage\<close> field receives.

  The parser recurses with fuel; every second call consumes a character, so twice the length of
  the input is enough (\<open>jval_fuel\<close> below: more fuel gives the same result).
\<close>

datatype json =
    JvNull
  | JvBool bool
  | JvNum string
  | JvStr string
  | JvArr "json list"
  | JvObj "(string \<times> string \<times> json) list"

subsection \<open>Strings\<close>

definition json_ws :: "char \<Rightarrow> bool" where
  "json_ws c \<longleftrightarrow> c = CHR '' '' \<or> c = CHR 0x09 \<or> c = CHR 0x0D \<or> c = CHR 0x0A"

definition skip_ws :: "string \<Rightarrow> string" where
  "skip_ws s = dropWhile json_ws s"

definition quote :: char where "quote = CHR 0x22"
definition backslash :: char where "backslash = CHR 0x5C"

definition hex_val :: "char \<Rightarrow> nat option" where
  "hex_val c =
     (let n = (of_char c :: nat) in
      if 48 \<le> n \<and> n \<le> 57 then Some (n - 48)
      else if 97 \<le> n \<and> n \<le> 102 then Some (n - 87)
      else if 65 \<le> n \<and> n \<le> 70 then Some (n - 55)
      else None)"

text \<open>The code unit of the four hexadecimal digits after \<open>\u\<close>.\<close>

definition hex4 :: "string \<Rightarrow> nat option" where
  "hex4 s =
     (case map hex_val (take 4 s) of
        [Some a, Some b, Some c, Some d] \<Rightarrow> Some (4096 * a + 256 * b + 16 * c + d)
      | _ \<Rightarrow> None)"

definition utf8_encode :: "nat \<Rightarrow> string" where
  "utf8_encode u =
     map char_of
       (if u < 128 then [u]
        else if u < 2048 then [192 + u div 64, 128 + u mod 64]
        else if u < 65536 then [224 + u div 4096, 128 + u div 64 mod 64, 128 + u mod 64]
        else [240 + u div 262144, 128 + u div 4096 mod 64, 128 + u div 64 mod 64, 128 + u mod 64])"

definition replacement :: string where
  "replacement = utf8_encode 65533"

text \<open>The length of the valid UTF-8 sequence at the head of a string, 0 when there is none.\<close>

definition is_cont :: "nat \<Rightarrow> bool" where
  "is_cont n \<longleftrightarrow> 128 \<le> n \<and> n < 192"

definition utf8_len :: "string \<Rightarrow> nat" where
  "utf8_len s =
     (case map of_char (take 4 s) of
        [] \<Rightarrow> 0
      | a # r \<Rightarrow>
          if a < 128 then 1
          else if 194 \<le> a \<and> a < 224 then (case r of b # _ \<Rightarrow> if is_cont b then 2 else 0 | _ \<Rightarrow> 0)
          else if 224 \<le> a \<and> a < 240 then
            (case r of
               b # c # _ \<Rightarrow>
                 if is_cont b \<and> is_cont c \<and> (a = 224 \<longrightarrow> 160 \<le> b) \<and> (a = 237 \<longrightarrow> b < 160) then 3 else 0
             | _ \<Rightarrow> 0)
          else if 240 \<le> a \<and> a < 245 then
            (case r of
               [b, c, d] \<Rightarrow>
                 if is_cont b \<and> is_cont c \<and> is_cont d \<and> (a = 240 \<longrightarrow> 144 \<le> b) \<and> (a = 244 \<longrightarrow> b < 144)
                 then 4 else 0
             | _ \<Rightarrow> 0)
          else 0)"

definition simple_escape :: "char \<Rightarrow> char option" where
  "simple_escape e =
     map_of [(quote, quote), (backslash, backslash), (CHR ''/'', CHR ''/''), (CHR ''b'', CHR 0x08),
             (CHR ''f'', CHR 0x0C), (CHR ''n'', CHR 0x0A), (CHR ''r'', CHR 0x0D), (CHR ''t'', CHR 0x09)] e"

text \<open>The low surrogate that an escape at the head of \<open>s\<close> spells, if any.\<close>

definition low_surrogate :: "string \<Rightarrow> nat option" where
  "low_surrogate s =
     (if take 2 s = [backslash, CHR ''u''] then
        (case hex4 (drop 2 s) of
           Some v \<Rightarrow> if 56320 \<le> v \<and> v < 57344 then Some v else None
         | None \<Rightarrow> None)
      else None)"

text \<open>A string literal after its opening quote: its value and the rest of the input.\<close>

fun jstring :: "string \<Rightarrow> (string \<times> string) option" where
  "jstring [] = None"
| "jstring (c # s) =
     (if c = quote then Some ([], s)
      else if of_char c < (32 :: nat) then None
      else if c = backslash then
        (case s of
           [] \<Rightarrow> None
         | e # s' \<Rightarrow>
             if e = CHR ''u'' then
               (case hex4 s' of
                  None \<Rightarrow> None
                | Some u \<Rightarrow>
                    let t = drop 4 s' in
                    if 55296 \<le> u \<and> u < 56320 then
                      (case low_surrogate t of
                         Some v \<Rightarrow>
                           map_option (apfst ((@) (utf8_encode (65536 + (u - 55296) * 1024 + (v - 56320)))))
                             (jstring (drop 6 t))
                       | None \<Rightarrow> map_option (apfst ((@) replacement)) (jstring t))
                    else if 56320 \<le> u \<and> u < 57344 then map_option (apfst ((@) replacement)) (jstring t)
                    else map_option (apfst ((@) (utf8_encode u))) (jstring t))
             else
               (case simple_escape e of
                  None \<Rightarrow> None
                | Some x \<Rightarrow> map_option (apfst ((#) x)) (jstring s')))
      else
        (let k = utf8_len (c # s) in
         if k = 0 then map_option (apfst ((@) replacement)) (jstring s)
         else map_option (apfst ((@) (take k (c # s)))) (jstring (drop (k - 1) s))))"

subsection \<open>Numbers\<close>

text \<open>The longest number literal at the head of the input; \<open>None\<close> is a syntax error.\<close>

definition jnum_exp :: "string \<Rightarrow> (string \<times> string) option" where
  "jnum_exp s =
     (case s of
        [] \<Rightarrow> Some ([], [])
      | e # r \<Rightarrow>
          if e = CHR ''e'' \<or> e = CHR ''E'' then
            (let sg = (if r \<noteq> [] \<and> (hd r = CHR ''+'' \<or> hd r = CHR ''-'') then [hd r] else []);
                 r' = drop (length sg) r;
                 ds = takeWhile is_digit r'
             in if ds = [] then None else Some (e # sg @ ds, dropWhile is_digit r'))
          else Some ([], s))"

definition jnum_frac :: "string \<Rightarrow> (string \<times> string) option" where
  "jnum_frac s =
     (case s of
        [] \<Rightarrow> Some ([], [])
      | e # r \<Rightarrow>
          if e = CHR ''.'' then
            (let ds = takeWhile is_digit r in
             if ds = [] then None else Some (e # ds, dropWhile is_digit r))
          else Some ([], s))"

definition jnumber :: "string \<Rightarrow> (string \<times> string) option" where
  "jnumber s =
     (let sg = (if s \<noteq> [] \<and> hd s = CHR ''-'' then [hd s] else []);
          s1 = drop (length sg) s;
          ds = (if s1 \<noteq> [] \<and> hd s1 = CHR ''0'' then [hd s1] else takeWhile is_digit s1)
      in if ds = [] then None
         else (case jnum_frac (drop (length ds) s1) of
             None \<Rightarrow> None
           | Some (fr, s2) \<Rightarrow>
               (case jnum_exp s2 of
                  None \<Rightarrow> None
                | Some (ex, s3) \<Rightarrow> Some (sg @ ds @ fr @ ex, s3))))"

subsection \<open>Values\<close>

definition maxNestingDepth :: nat where "maxNestingDepth = 10000"

text \<open>\<open>jval fuel d s\<close> parses the value at the head of \<open>s\<close> at nesting depth \<open>d\<close>;
  \<open>jelems\<close> and \<open>jmembers\<close> parse the rest of a non-empty array or object.\<close>

fun jval :: "nat \<Rightarrow> nat \<Rightarrow> string \<Rightarrow> (json \<times> string) option"
  and jelems :: "nat \<Rightarrow> nat \<Rightarrow> string \<Rightarrow> (json list \<times> string) option"
  and jmembers :: "nat \<Rightarrow> nat \<Rightarrow> string \<Rightarrow> ((string \<times> string \<times> json) list \<times> string) option" where
  "jval 0 d s0 = None"
| "jval (Suc n) d s0 =
     (let s = skip_ws s0 in
      if s = [] then None
      else if hd s = quote then map_option (apfst JvStr) (jstring (tl s))
      else if hd s = CHR ''{'' then
        (if maxNestingDepth \<le> d then None
         else if skip_ws (tl s) \<noteq> [] \<and> hd (skip_ws (tl s)) = CHR ''}''
         then Some (JvObj [], tl (skip_ws (tl s)))
         else map_option (apfst JvObj) (jmembers n (Suc d) (tl s)))
      else if hd s = CHR ''['' then
        (if maxNestingDepth \<le> d then None
         else if skip_ws (tl s) \<noteq> [] \<and> hd (skip_ws (tl s)) = CHR '']''
         then Some (JvArr [], tl (skip_ws (tl s)))
         else map_option (apfst JvArr) (jelems n (Suc d) (tl s)))
      else if HasPrefix s ''true'' then Some (JvBool True, drop 4 s)
      else if HasPrefix s ''false'' then Some (JvBool False, drop 5 s)
      else if HasPrefix s ''null'' then Some (JvNull, drop 4 s)
      else map_option (apfst JvNum) (jnumber s))"
| "jelems 0 d s = None"
| "jelems (Suc n) d s =
     (case jval n d s of
        None \<Rightarrow> None
      | Some (v, s1) \<Rightarrow>
          let t = skip_ws s1 in
          if t = [] then None
          else if hd t = CHR '']'' then Some ([v], tl t)
          else if hd t = CHR '','' then map_option (apfst ((#) v)) (jelems n d (tl t))
          else None)"
| "jmembers 0 d s = None"
| "jmembers (Suc n) d s0 =
     (let s = skip_ws s0 in
      if s = [] \<or> hd s \<noteq> quote then None
      else (case jstring (tl s) of
          None \<Rightarrow> None
        | Some (k, s1) \<Rightarrow>
            let t1 = skip_ws s1 in
            if t1 = [] \<or> hd t1 \<noteq> CHR '':'' then None
            else
              let v0 = skip_ws (tl t1) in
              (case jval n d v0 of
                 None \<Rightarrow> None
               | Some (v, s2) \<Rightarrow>
                   let m = (k, take (length v0 - length s2) v0, v); t = skip_ws s2 in
                   if t = [] then None
                   else if hd t = CHR ''}'' then Some ([m], tl t)
                   else if hd t = CHR '','' then map_option (apfst ((#) m)) (jmembers n d (tl t))
                   else None)))"

definition json_Unmarshal :: "string \<Rightarrow> json option" where
  "json_Unmarshal s =
     (case jval (2 * length s + 2) 0 s of
        None \<Rightarrow> None
      | Some (v, r) \<Rightarrow> if skip_ws r = [] then Some v else None)"

definition json_Decode :: "string \<Rightarrow> json option" where
  "json_Decode s = map_option fst (jval (2 * length s + 2) 0 s)"

subsection \<open>The value of a number\<close>

text \<open>The exact value of a decimal literal. Storing it into a \<open>float64\<close> fails when its magnitude
  rounds beyond the largest finite double.\<close>

definition pow10 :: "int \<Rightarrow> rat" where
  "pow10 e = (if 0 \<le> e then 10 ^ nat e else 1 / 10 ^ nat (- e))"

definition exp_val :: "string \<Rightarrow> int" where
  "exp_val s =
     (case s of
        [] \<Rightarrow> 0
      | e # r \<Rightarrow>
          if r \<noteq> [] \<and> hd r = CHR ''-'' then - int (digits_val (tl r))
          else if r \<noteq> [] \<and> hd r = CHR ''+'' then int (digits_val (tl r))
          else int (digits_val r))"

definition num_val :: "string \<Rightarrow> rat" where
  "num_val s =
     (let neg = (s \<noteq> [] \<and> hd s = CHR ''-'');
          s1 = (if neg then tl s else s);
          ints = takeWhile is_digit s1;
          r1 = dropWhile is_digit s1;
          frac = (if r1 \<noteq> [] \<and> hd r1 = CHR ''.'' then takeWhile is_digit (tl r1) else []);
          r2 = (if r1 \<noteq> [] \<and> hd r1 = CHR ''.'' then dropWhile is_digit (tl r1) else r1);
          v = of_nat (digits_val (ints @ frac)) * pow10 (exp_val r2 - int (length frac))
      in if neg then - v else v)"

definition float_ok :: "string \<Rightarrow> bool" where
  "float_ok n \<longleftrightarrow> \<bar>num_val n\<bar> < 2 ^ 1024 - 2 ^ 970"

definition ParseUint10 :: "string \<Rightarrow> nat option" where
  "ParseUint10 s = (if s = [] \<or> \<not> list_all is_digit s \<or> 2 ^ 64 \<le> digits_val s then None else Some (digits_val s))"

subsection \<open>Times\<close>

text \<open>Whether a string is a time in RFC 3339 form, as \<open>time.Time\<close> requires of its JSON value.\<close>

definition two_digits :: "string \<Rightarrow> nat option" where
  "two_digits s = (if length s = 2 \<and> list_all is_digit s then Some (digits_val s) else None)"

definition days_in :: "nat \<Rightarrow> nat \<Rightarrow> nat" where
  "days_in y m =
     (if m = 2 then (if y mod 4 = 0 \<and> (y mod 100 \<noteq> 0 \<or> y mod 400 = 0) then 29 else 28)
      else if m \<in> {4, 6, 9, 11} then 30 else 31)"

definition in_range :: "nat option \<Rightarrow> nat \<Rightarrow> nat \<Rightarrow> bool" where
  "in_range v lo hi = (case v of None \<Rightarrow> False | Some n \<Rightarrow> lo \<le> n \<and> n \<le> hi)"

definition zone_ok :: "string \<Rightarrow> bool" where
  "zone_ok z \<longleftrightarrow> z = ''Z'' \<or>
     (length z = 6 \<and> (hd z = CHR ''+'' \<or> hd z = CHR ''-'') \<and> z ! 3 = CHR '':'' \<and>
      in_range (two_digits (take 2 (drop 1 z))) 0 23 \<and> in_range (two_digits (drop 4 z)) 0 59)"

definition rfc3339 :: "string \<Rightarrow> bool" where
  "rfc3339 s \<longleftrightarrow>
     20 \<le> length s \<and> list_all is_digit (take 4 s) \<and> s ! 4 = CHR ''-'' \<and> s ! 7 = CHR ''-'' \<and> s ! 10 = CHR ''T'' \<and>
     s ! 13 = CHR '':'' \<and> s ! 16 = CHR '':'' \<and>
     in_range (two_digits (take 2 (drop 5 s))) 1 12 \<and>
     in_range (two_digits (take 2 (drop 8 s))) 1
       (days_in (digits_val (take 4 s)) (digits_val (take 2 (drop 5 s)))) \<and>
     in_range (two_digits (take 2 (drop 11 s))) 0 23 \<and> in_range (two_digits (take 2 (drop 14 s))) 0 59 \<and>
     in_range (two_digits (take 2 (drop 17 s))) 0 59 \<and>
     (let r = drop 19 s in
      if r \<noteq> [] \<and> hd r = CHR ''.'' then takeWhile is_digit (tl r) \<noteq> [] \<and> zone_ok (dropWhile is_digit (tl r))
      else zone_ok r)"

subsection \<open>Storing a value into a struct\<close>

text \<open>The field types the handlers use. \<open>null\<close> fits every type and leaves the field alone.
  A key names a field when it equals the field's name up to case. \<open>strict\<close> is
  \<open>DisallowUnknownFields\<close>.\<close>

datatype field_type =
    FString | FInt | FUint | FBool | FFloat | FRaw | FTime | FAny
  | FMap field_type
  | FList field_type
  | FStruct "(string \<times> field_type) list"

abbreviation FStrMap :: field_type where
  "FStrMap \<equiv> FMap FString"

definition field_of :: "(string \<times> field_type) list \<Rightarrow> string \<Rightarrow> field_type option" where
  "field_of fs k = map_option snd (find (\<lambda>(n, t). EqualFold k n) fs)"

lemma json_member_size: "(k, r, v) \<in> set ms \<Longrightarrow> size v < Suc (size_list (size_prod (\<lambda>_. 0) (size_prod (\<lambda>_. 0) size)) ms)"
  by (induction ms) auto

function fits :: "bool \<Rightarrow> field_type \<Rightarrow> json \<Rightarrow> bool" where
  "fits strict t JvNull = True"
| "fits strict t (JvBool b) = (t \<in> {FBool, FAny, FRaw})"
| "fits strict t (JvNum n) =
     (case t of FInt \<Rightarrow> ParseInt10 n \<noteq> None | FUint \<Rightarrow> ParseUint10 n \<noteq> None | FFloat \<Rightarrow> float_ok n
      | FAny \<Rightarrow> float_ok n | FRaw \<Rightarrow> True | _ \<Rightarrow> False)"
| "fits strict t (JvStr s) = (t \<in> {FString, FAny, FRaw} \<or> t = FTime \<and> rfc3339 s)"
| "fits strict t (JvArr vs) =
     (case t of FList t' \<Rightarrow> (\<forall>v \<in> set vs. fits strict t' v) | FAny \<Rightarrow> (\<forall>v \<in> set vs. fits strict FAny v)
      | FRaw \<Rightarrow> True | _ \<Rightarrow> False)"
| "fits strict t (JvObj ms) =
     (case t of
        FMap t' \<Rightarrow> (\<forall>m \<in> set ms. fits strict t' (snd (snd m)))
      | FAny \<Rightarrow> (\<forall>m \<in> set ms. fits strict FAny (snd (snd m)))
      | FRaw \<Rightarrow> True
      | FStruct fs \<Rightarrow>
          (\<forall>m \<in> set ms. case field_of fs (fst m) of None \<Rightarrow> \<not> strict | Some t' \<Rightarrow> fits strict t' (snd (snd m)))
      | _ \<Rightarrow> False)"
  by pat_completeness auto

termination
  by (relation "measure (\<lambda>(strict, t, v). size v)")
    (auto dest: size_list_estimation' [where f = size, OF _ order_refl] json_member_size simp: less_Suc_eq_le)

type_synonym members = "(string \<times> string \<times> json) list"

text \<open>The members an object stores into a struct with fields \<open>fs\<close>, or \<open>None\<close> when
  decoding reports an error.\<close>

definition decode_struct :: "bool \<Rightarrow> (string \<times> field_type) list \<Rightarrow> json \<Rightarrow> members option" where
  "decode_struct strict fs j =
     (if fits strict (FStruct fs) j then Some (case j of JvObj ms \<Rightarrow> ms | _ \<Rightarrow> []) else None)"

text \<open>The value of a field: the last member that names it and is not \<open>null\<close>.\<close>

definition get_member :: "string \<Rightarrow> members \<Rightarrow> (string \<times> json) option" where
  "get_member n ms =
     map_option snd (find (\<lambda>(k, r, v). EqualFold k n \<and> v \<noteq> JvNull) (rev ms))"

definition get_string :: "string \<Rightarrow> members \<Rightarrow> string" where
  "get_string n ms = (case get_member n ms of Some (_, JvStr s) \<Rightarrow> s | _ \<Rightarrow> [])"

definition get_int :: "string \<Rightarrow> members \<Rightarrow> int" where
  "get_int n ms = (case get_member n ms of
     Some (_, JvNum s) \<Rightarrow> (case ParseInt10 s of Some i \<Rightarrow> i | None \<Rightarrow> 0) | _ \<Rightarrow> 0)"

definition get_uint :: "string \<Rightarrow> members \<Rightarrow> nat" where
  "get_uint n ms = (case get_member n ms of
     Some (_, JvNum s) \<Rightarrow> (case ParseUint10 s of Some i \<Rightarrow> i | None \<Rightarrow> 0) | _ \<Rightarrow> 0)"

definition get_float :: "string \<Rightarrow> members \<Rightarrow> rat" where
  "get_float n ms = (case get_member n ms of Some (_, JvNum s) \<Rightarrow> num_val s | _ \<Rightarrow> 0)"

definition get_list :: "string \<Rightarrow> members \<Rightarrow> json list" where
  "get_list n ms = (case get_member n ms of Some (_, JvArr vs) \<Rightarrow> vs | _ \<Rightarrow> [])"

definition get_object :: "string \<Rightarrow> members \<Rightarrow> members" where
  "get_object n ms = (case get_member n ms of Some (_, JvObj es) \<Rightarrow> es | _ \<Rightarrow> [])"

definition get_bool :: "string \<Rightarrow> members \<Rightarrow> bool" where
  "get_bool n ms = (case get_member n ms of Some (_, JvBool b) \<Rightarrow> b | _ \<Rightarrow> False)"

text \<open>A \<open>json.RawMessage\<close> field: the raw text, \<open>null\<close> included; empty when absent.\<close>

definition get_raw :: "string \<Rightarrow> members \<Rightarrow> string" where
  "get_raw n ms = (case find (\<lambda>(k, r, v). EqualFold k n) (rev ms) of Some (_, r, _) \<Rightarrow> r | None \<Rightarrow> [])"

text \<open>A lookup in a \<open>map[string]string\<close> field: keys are compared exactly, and every object
  given for the field is merged into the map.\<close>

definition get_strmap :: "string \<Rightarrow> string \<Rightarrow> members \<Rightarrow> string" where
  "get_strmap n key ms =
     (let objs = concat (map (\<lambda>(k, r, v). if EqualFold k n then (case v of JvObj es \<Rightarrow> es | _ \<Rightarrow> []) else []) ms)
      in case find (\<lambda>(k, r, v). k = key) (rev objs) of Some (_, _, JvStr s) \<Rightarrow> s | _ \<Rightarrow> [])"

definition bytes_str :: "bytes \<Rightarrow> string" where
  "bytes_str bs = map (\<lambda>b. char_of (unat b)) bs"

lemma bytes_str_str_bytes [simp]: "bytes_str (str_bytes s) = s"
proof -
  have "char_of (unat (of_char c :: byte)) = c" for c
  proof -
    have "unat (of_nat (of_char c) :: byte) = of_char c" by (simp add: unsigned_of_nat take_bit_eq_mod)
    then show ?thesis by (simp only: of_nat_of_char char_of_char)
  qed
  then show ?thesis by (simp add: bytes_str_def str_bytes_def comp_def)
qed

lemma length_str_bytes [simp]: "length (str_bytes s) = length s"
  by (simp add: str_bytes_def)

subsection \<open>The fuel is enough\<close>

lemma skip_ws_length: "length (skip_ws s) \<le> length s"
  by (simp add: skip_ws_def length_dropWhile_le)

lemma length_tl_skip: "skip_ws s \<noteq> [] \<Longrightarrow> length (tl (skip_ws s)) < length s"
  using skip_ws_length [of s] by (cases "skip_ws s") auto

lemma jstring_length: "jstring s = Some (v, r) \<Longrightarrow> length r < length s"
proof (induction s arbitrary: v r rule: jstring.induct)
  case (2 c s)
  then show ?case
    by (auto simp: Let_def split: if_splits list.splits option.splits) fastforce+
qed simp

lemma jnum_frac_length: "jnum_frac s = Some (v, r) \<Longrightarrow> length r \<le> length s"
  by (auto simp: jnum_frac_def Let_def length_dropWhile_le le_SucI split: list.splits if_splits)

lemma dropWhile_drop_length: "length (dropWhile P (drop k s)) \<le> length s"
  using length_dropWhile_le [of P "drop k s"] by simp

lemma jnum_exp_length: "jnum_exp s = Some (v, r) \<Longrightarrow> length r \<le> length s"
  using dropWhile_drop_length [of is_digit 1] dropWhile_drop_length [of is_digit 0]
  by (auto simp: jnum_exp_def Let_def le_SucI split: list.splits if_splits)

lemma jnumber_length:
  assumes "jnumber s = Some (v, r)"
  shows "length r < length s"
proof -
  define sg where "sg = (if s \<noteq> [] \<and> hd s = CHR ''-'' then [hd s] else [])"
  define s1 where "s1 = drop (length sg) s"
  define ds where "ds = (if s1 \<noteq> [] \<and> hd s1 = CHR ''0'' then [hd s1] else takeWhile is_digit s1)"
  have eq: "jnumber s = (if ds = [] then None
      else (case jnum_frac (drop (length ds) s1) of
          None \<Rightarrow> None
        | Some (fr, s2) \<Rightarrow> (case jnum_exp s2 of None \<Rightarrow> None | Some (ex, s3) \<Rightarrow> Some (sg @ ds @ fr @ ex, s3))))"
    unfolding jnumber_def Let_def sg_def s1_def ds_def ..
  have ds: "ds \<noteq> []" using assms eq by auto
  then have "s1 \<noteq> []" by (auto simp: ds_def split: if_splits)
  then have "length (drop (length ds) s1) < length s" using ds by (cases ds) (auto simp: s1_def)
  moreover obtain fr s2 ex where "jnum_frac (drop (length ds) s1) = Some (fr, s2)" "jnum_exp s2 = Some (ex, r)"
    using assms ds unfolding eq by (auto split: option.splits prod.splits)
  ultimately show ?thesis using jnum_frac_length jnum_exp_length by fastforce
qed

lemma map_apfst_Some: "map_option (apfst f) x = Some (v, r) \<longleftrightarrow> (\<exists>u. x = Some (u, r) \<and> v = f u)"
  by (cases x) auto

lemmas next_length = skip_ws_length [THEN order.strict_trans1] skip_ws_length [THEN order.trans]

lemma jval_Suc_length:
  assumes "jval (Suc n) d s0 = Some (v, r)"
    and "\<And>s u t. jelems n (Suc d) s = Some (u, t) \<Longrightarrow> length t < length s"
    and "\<And>s u t. jmembers n (Suc d) s = Some (u, t) \<Longrightarrow> length t < length s"
  shows "length r < length s0"
proof -
  define s where "s = skip_ws s0"
  have s: "s \<noteq> []" using assms(1) by (auto simp: s_def)
  then obtain c q where q: "s = c # q" by (cases s) auto
  have t: "length (skip_ws q) - Suc 0 \<le> length q" using skip_ws_length [of q] by simp
  have "length r < length s"
    using assms(1) q unfolding jval.simps s_def [symmetric] Let_def
    by (auto simp: map_apfst_Some less_Suc_eq_le t split: if_splits
        dest: jstring_length assms(2,3) jnumber_length intro: less_imp_le)
  then show ?thesis using skip_ws_length [of s0] by (simp add: s_def)
qed

lemma jelems_Suc_length:
  assumes "jelems (Suc n) d s = Some (vs, r)"
    and "\<And>s u t. jval n d s = Some (u, t) \<Longrightarrow> length t < length s"
    and "\<And>s u t. jelems n d s = Some (u, t) \<Longrightarrow> length t < length s"
  shows "length r < length s"
proof -
  from assms(1) obtain v s1 where v: "jval n d s = Some (v, s1)" by (auto split: option.splits)
  define t where "t = skip_ws s1"
  have "length t < length s" using assms(2) [OF v] skip_ws_length [of s1] by (simp add: t_def)
  moreover have "length r < length t"
    using assms(1) v unfolding jelems.simps t_def [symmetric] Let_def
    by (auto simp: map_apfst_Some t_def [symmetric] split: if_splits dest!: assms(3))
  ultimately show ?thesis by simp
qed

lemma jmembers_Suc_length:
  assumes "jmembers (Suc n) d s0 = Some (ms, r)"
    and "\<And>s u t. jval n d s = Some (u, t) \<Longrightarrow> length t < length s"
    and "\<And>s u t. jmembers n d s = Some (u, t) \<Longrightarrow> length t < length s"
  shows "length r < length s0"
proof -
  define s where "s = skip_ws s0"
  have s: "s \<noteq> []" using assms(1) by (auto simp: s_def)
  obtain k s1 where k: "jstring (tl s) = Some (k, s1)"
    using assms(1) by (auto simp: s_def Let_def split: if_splits option.splits)
  define t1 where "t1 = skip_ws s1"
  define v0 where "v0 = skip_ws (tl t1)"
  obtain v s2 where v: "jval n d v0 = Some (v, s2)"
    using assms(1) k by (auto simp: s_def t1_def v0_def Let_def split: if_splits option.splits)
  define t where "t = skip_ws s2"
  have "length r < length t"
    using assms(1) k v
    by (auto simp: map_apfst_Some t_def s_def t1_def v0_def Let_def split: if_splits dest!: assms(3))
  also have "length t \<le> length s2" by (simp add: t_def skip_ws_length)
  also have "length s2 \<le> length v0" using assms(2) [OF v] by simp
  also have "length v0 \<le> length (tl t1)" unfolding v0_def by (rule skip_ws_length)
  also have "\<dots> \<le> length s1" using skip_ws_length [of s1] by (simp add: t1_def)
  also have "\<dots> \<le> length s" using jstring_length [OF k] by simp
  also have "\<dots> \<le> length s0" by (simp add: s_def skip_ws_length)
  finally show ?thesis .
qed

lemma jval_lengths:
  "(\<forall>d s v r. jval n d s = Some (v, r) \<longrightarrow> length r < length s) \<and>
   (\<forall>d s v r. jelems n d s = Some (v, r) \<longrightarrow> length r < length s) \<and>
   (\<forall>d s v r. jmembers n d s = Some (v, r) \<longrightarrow> length r < length s)"
proof (induction n)
  case (Suc n)
  then show ?case
    by (intro conjI allI impI; elim jval_Suc_length jelems_Suc_length jmembers_Suc_length) blast+
qed simp

lemmas jval_length = jval_lengths [THEN conjunct1, rule_format]

lemma jval_fuel_Suc:
  assumes "\<And>d s. 2 * length s + 1 < n \<Longrightarrow> jelems (Suc n) d s = jelems n d s"
    and "\<And>d s. 2 * length s + 1 < n \<Longrightarrow> jmembers (Suc n) d s = jmembers n d s"
    and "2 * length s < Suc n"
  shows "jval (Suc (Suc n)) d s = jval (Suc n) d s"
proof (cases "skip_ws s = []")
  case False
  then have "2 * length (tl (skip_ws s)) + 1 < n" using length_tl_skip [OF False] assms(3) by simp
  then show ?thesis
    unfolding jval.simps(2) [of "Suc n"] jval.simps(2) [of n] Let_def by (simp only: assms(1,2))
qed (simp add: Let_def)

lemma jelems_fuel_Suc:
  assumes "\<And>d s. 2 * length s < n \<Longrightarrow> jval (Suc n) d s = jval n d s"
    and "\<And>d s. 2 * length s + 1 < n \<Longrightarrow> jelems (Suc n) d s = jelems n d s"
    and "2 * length s + 1 < Suc n"
  shows "jelems (Suc (Suc n)) d s = jelems (Suc n) d s"
proof -
  have v: "jval (Suc n) d s = jval n d s" using assms(1,3) by simp
  show ?thesis
  proof (cases "jval n d s")
    case (Some p)
    obtain x s1 where p: "p = (x, s1)" by (cases p)
    have "jelems (Suc n) d (tl (skip_ws s1)) = jelems n d (tl (skip_ws s1))" if "skip_ws s1 \<noteq> []"
      using jval_length [of n d s x s1] Some p assms(3) length_tl_skip [OF that] by (intro assms(2)) simp
    then show ?thesis
      unfolding jelems.simps(2) [of "Suc n"] jelems.simps(2) [of n] Let_def by (simp only: v Some p) simp
  qed (simp only: jelems.simps(2) v option.case)
qed

lemma jmembers_fuel_Suc:
  assumes "\<And>d s. 2 * length s < n \<Longrightarrow> jval (Suc n) d s = jval n d s"
    and "\<And>d s. 2 * length s + 1 < n \<Longrightarrow> jmembers (Suc n) d s = jmembers n d s"
    and "2 * length s0 + 1 < Suc n"
  shows "jmembers (Suc (Suc n)) d s0 = jmembers (Suc n) d s0"
proof -
  define s where "s = skip_ws s0"
  show ?thesis
  proof (cases "jstring (tl s)")
    case (Some p)
    obtain k s1 where p: "p = (k, s1)" by (cases p)
    define v0 where "v0 = skip_ws (tl (skip_ws s1))"
    have l: "length v0 < length s0"
    proof -
      have "length v0 \<le> length s1"
        unfolding v0_def using skip_ws_length [of s1] skip_ws_length [of "tl (skip_ws s1)"] by simp
      also have "\<dots> < length (tl s)" using jstring_length [of "tl s" k s1] Some p by (simp only:)
      also have "\<dots> \<le> length s0" using skip_ws_length [of s0] by (simp add: s_def)
      finally show ?thesis .
    qed
    then have v: "jval (Suc n) d v0 = jval n d v0" using assms(1,3) by simp
    have "jmembers (Suc n) d (tl (skip_ws s2)) = jmembers n d (tl (skip_ws s2))"
      if "jval n d v0 = Some (x, s2)" "skip_ws s2 \<noteq> []" for x s2
      using jval_length [OF that(1)] l assms(3) length_tl_skip [OF that(2)] by (intro assms(2)) simp
    then show ?thesis
      unfolding jmembers.simps(2) [of "Suc n"] jmembers.simps(2) [of n] Let_def s_def [symmetric]
      by (simp only: Some p option.case prod.case v0_def [symmetric] v)
        (auto split: option.splits simp del: jval.simps jmembers.simps)
  qed (simp add: s_def Let_def)
qed

lemma jval_fuel_all:
  "(\<forall>d s. 2 * length s < n \<longrightarrow> jval (Suc n) d s = jval n d s) \<and>
   (\<forall>d s. 2 * length s + 1 < n \<longrightarrow> jelems (Suc n) d s = jelems n d s) \<and>
   (\<forall>d s. 2 * length s + 1 < n \<longrightarrow> jmembers (Suc n) d s = jmembers n d s)"
proof (induction n)
  case (Suc n)
  then show ?case
    by (intro conjI allI impI jval_fuel_Suc jelems_fuel_Suc jmembers_fuel_Suc) blast+
qed simp

lemma jval_fuel: "2 * length s < n \<Longrightarrow> n \<le> m \<Longrightarrow> jval m d s = jval n d s"
proof (induction m)
  case (Suc m)
  then show ?case using jval_fuel_all [of m] by (cases "n \<le> m") (auto simp: not_le le_Suc_eq)
qed simp

lemma json_Unmarshal_Decode: "json_Unmarshal s = Some v \<Longrightarrow> json_Decode s = Some v"
  by (auto simp: json_Unmarshal_def json_Decode_def split: option.splits if_splits)

end
