(* ===== verification/Pulse_Http.thy ===== *)
theory Pulse_Http
  imports Pulse_Rbac Pulse_Store Go_Json Complex_Main
begin

section \<open>The HTTP layer: requests, responses, middleware\<close>

text \<open>
  \<^verbatim>\<open>apps/api/internal/httpx\<close>: \<^verbatim>\<open>respond.go\<close>, \<^verbatim>\<open>middleware.go\<close>,
  \<^verbatim>\<open>handlers_common.go\<close>, the authorisation gates of \<^verbatim>\<open>server.go\<close>, and
  \<^verbatim>\<open>audit/audit.go\<close>. A handler is a function of the inputs the environment gives to one
  request (clock readings, random draws, map orders), the request and the server's state; it
  returns the response and the new state. Floating-point token counts are real numbers.
\<close>

subsection \<open>Requests and responses\<close>

record http_request =
  rq_Method :: string
  rq_Path :: string
  rq_Header :: "string \<Rightarrow> string list"
  rq_RemoteAddr :: string
  rq_Cookie :: "string option"
  rq_PathValue :: "string \<Rightarrow> string"
  rq_Body :: bytes

definition header_Get :: "http_request \<Rightarrow> string \<Rightarrow> string" where
  "header_Get r k = (case rq_Header r k of [] \<Rightarrow> [] | v # _ \<Rightarrow> v)"

datatype json_value = JStr string | JBool bool | JStrs "string list" | JInt int

text \<open>A response: its status, the error envelope's code and message (empty on success), the fields
  of a success object, and the session cookie it sets (\<open>Some []\<close> clears it).\<close>

record http_response =
  rs_Status :: nat
  rs_Code :: string
  rs_Message :: string
  rs_Fields :: "(string \<times> json_value) list"
  rs_Cookie :: "string option"

definition CodeAuth :: string where "CodeAuth = ''AUTH_ERROR''"
definition CodePermission :: string where "CodePermission = ''PERMISSION_ERROR''"
definition CodeValidation :: string where "CodeValidation = ''VALIDATION_ERROR''"
definition CodeNotFound :: string where "CodeNotFound = ''SERVER_NOT_FOUND''"
definition CodeRateLimited :: string where "CodeRateLimited = ''RATE_LIMITED''"
definition CodeInternal :: string where "CodeInternal = ''INTERNAL_ERROR''"

definition Fail :: "nat \<Rightarrow> string \<Rightarrow> string \<Rightarrow> http_response" where
  "Fail status code message =
     \<lparr>rs_Status = status, rs_Code = code, rs_Message = message, rs_Fields = [], rs_Cookie = None\<rparr>"

definition JSON :: "nat \<Rightarrow> (string \<times> json_value) list \<Rightarrow> http_response" where
  "JSON status fs =
     \<lparr>rs_Status = status, rs_Code = [], rs_Message = [], rs_Fields = fs, rs_Cookie = None\<rparr>"

declare Fail_def [http_simps] JSON_def [http_simps]

text \<open>\<open>Recover\<close>: what the client sees when a handler panics.\<close>

definition Recover_response :: http_response where
  "Recover_response = Fail 500 CodeInternal ''internal error''"

text \<open>\<open>decodeJSON\<close>: the members of the first JSON value of the size-limited body, for a struct
  with fields \<open>fs\<close>; unknown fields are an error.\<close>

definition decodeJSON :: "http_request \<Rightarrow> (string \<times> field_type) list \<Rightarrow> nat \<Rightarrow> members option" where
  "decodeJSON r fs maxBytes =
     (case json_Decode (bytes_str (take maxBytes (rq_Body r))) of
        None \<Rightarrow> None
      | Some j \<Rightarrow> decode_struct True fs j)"

subsection \<open>Client address\<close>

text \<open>\<open>net.SplitHostPort\<close>, the host only; \<open>None\<close> is an error. A bracketed host ends at the
  first closing bracket, which the port's colon must follow directly.\<close>

definition last_colon :: "string \<Rightarrow> (string \<times> string) option" where
  "last_colon s =
     (let (rp, rh, ok) = Cut (rev s) (CHR '':'') in if ok then Some (rev rh, rev rp) else None)"

definition SplitHostPort :: "string \<Rightarrow> string option" where
  "SplitHostPort s =
     (case last_colon s of
        None \<Rightarrow> None
      | Some (h, p) \<Rightarrow>
          (case h of
             CHR ''['' # h' \<Rightarrow>
               let (host, rest, ok) = Cut h' (CHR '']'') in
               if ok \<and> rest = [] \<and> CHR ''['' \<notin> set (host @ p) \<and> CHR '']'' \<notin> set p then Some host else None
           | _ \<Rightarrow>
               if CHR '':'' \<in> set h \<or> CHR ''['' \<in> set (h @ p) \<or> CHR '']'' \<in> set (h @ p) then None
               else Some h))"

definition clientIP :: "http_request \<Rightarrow> string" where
  "clientIP r =
     (let xff = header_Get r ''X-Forwarded-For'' in
      if xff \<noteq> [] then
        (let (a, b, ok) = Cut xff (CHR '','') in if ok then TrimSpace a else TrimSpace xff)
      else case SplitHostPort (rq_RemoteAddr r) of None \<Rightarrow> rq_RemoteAddr r | Some host \<Rightarrow> host)"

subsection \<open>Rate limiter\<close>

record bucket =
  b_tokens :: real
  b_last :: time

record limiter =
  l_buckets :: "string \<rightharpoonup> bucket"
  l_rate :: real
  l_burst :: real

definition NewLimiter :: "real \<Rightarrow> real \<Rightarrow> limiter" where
  "NewLimiter ratePerSec burst = \<lparr>l_buckets = Map.empty, l_rate = ratePerSec, l_burst = burst\<rparr>"

definition Allow :: "string \<Rightarrow> time \<Rightarrow> limiter \<Rightarrow> bool \<times> limiter" where
  "Allow k now l =
     (case l_buckets l k of
        None \<Rightarrow> (True, l\<lparr>l_buckets := (l_buckets l)(k \<mapsto> \<lparr>b_tokens = l_burst l - 1, b_last = now\<rparr>)\<rparr>)
      | Some b \<Rightarrow>
          let elapsed = of_int (time_Sub now (b_last b)) / 1000000000;
              tokens = min (l_burst l) (b_tokens b + elapsed * l_rate l)
          in if tokens < 1
             then (False, l\<lparr>l_buckets := (l_buckets l)(k \<mapsto> \<lparr>b_tokens = tokens, b_last = now\<rparr>)\<rparr>)
             else (True, l\<lparr>l_buckets := (l_buckets l)(k \<mapsto> \<lparr>b_tokens = tokens - 1, b_last = now\<rparr>)\<rparr>))"

subsection \<open>Server state and request inputs\<close>

text \<open>The alert engine's transient state: the time of the first breach by \<open>org|rule|server\<close>, and the
  firing instances by organisation and deduplication key.\<close>

record alert_engine =
  ae_breach :: "string \<rightharpoonup> time"
  ae_firing :: "string \<rightharpoonup> (string \<rightharpoonup> alert_instance)"

definition newAlertEngine :: alert_engine where
  "newAlertEngine = \<lparr>ae_breach = Map.empty, ae_firing = Map.empty\<rparr>"

record server_state =
  ss_store :: memory
  ss_alerts :: alert_engine
  ss_nonces :: "string \<rightharpoonup> time"
  ss_loginLimiter :: limiter
  ss_enrollLimiter :: limiter
  ss_ingestLimiter :: limiter
  ss_sshLimiter :: limiter
  ss_setupLimiter :: limiter

text \<open>\<open>New\<close>: the limiters with the source's rates and bursts, an empty nonce cache.\<close>

definition New :: "memory \<Rightarrow> server_state" where
  "New st = \<lparr>ss_store = st, ss_alerts = newAlertEngine, ss_nonces = Map.empty, ss_loginLimiter = NewLimiter (1 / 5) 5,
     ss_enrollLimiter = NewLimiter (1 / 10) 3, ss_ingestLimiter = NewLimiter 50 100,
     ss_sshLimiter = NewLimiter (1 / 5) 5, ss_setupLimiter = NewLimiter (1 / 10) 5\<rparr>"

text \<open>What the environment provides while one request is handled: the \<open>i\<close>-th clock reading, the
  \<open>i\<close>-th draw of random bytes (\<open>None\<close> when the source fails, in which case \<open>auth.NewID\<close>
  keeps a zeroed buffer), and the order in which maps are visited.\<close>

record inputs =
  in_time :: "nat \<Rightarrow> time"
  in_rnd :: "nat \<Rightarrow> bytes option"
  in_servers :: "string list"
  in_agents :: "string list"
  in_alerts :: "string list"

definition id_rnd :: "inputs \<Rightarrow> nat \<Rightarrow> bytes" where
  "id_rnd x i = (case in_rnd x i of None \<Rightarrow> replicate 12 0 | Some b \<Rightarrow> b)"

text \<open>The cryptographic primitives of the standard library.\<close>

record crypto =
  c_sha256 :: "bytes \<Rightarrow> bytes"
  c_hmac :: "bytes \<Rightarrow> bytes \<Rightarrow> bytes"
  c_ed25519 :: "bytes \<Rightarrow> bytes \<Rightarrow> bytes \<Rightarrow> bool"

type_synonym handler = "http_request \<Rightarrow> server_state \<Rightarrow> http_response \<times> server_state"

subsection \<open>Audit log\<close>

definition Record :: "inputs \<Rightarrow> nat \<Rightarrow> string \<Rightarrow> string \<Rightarrow> string \<Rightarrow> string \<Rightarrow> string \<Rightarrow> (string \<times> string) list \<Rightarrow>
    server_state \<Rightarrow> server_state" where
  "Record x i orgID actor action result ip metadata s =
     s\<lparr>ss_store := AppendAudit \<lparr>aud_ID = [], aud_OrgID = orgID, aud_Actor = actor, aud_Action = action,
         aud_Result = result, aud_IP = ip, aud_Metadata = metadata, aud_TS = in_time x i\<rparr>
         (id_rnd x i) (ss_store s)\<rparr>"

subsection \<open>Authentication and authorisation\<close>

record principal =
  p_UserID :: string
  p_OrgID :: string
  p_Email :: string
  p_Role :: role
  p_HasPassword :: bool

definition roleOf :: "membership option \<Rightarrow> role" where
  "roleOf m = (case m of None \<Rightarrow> RoleViewer
     | Some mem \<Rightarrow> if mem_Role mem = [] then RoleViewer else mem_Role mem)"

definition Authenticate :: "crypto \<Rightarrow> time \<Rightarrow> http_request \<Rightarrow> memory \<Rightarrow> principal option" where
  "Authenticate c now r st =
     (case rq_Cookie r of
        None \<Rightarrow> None
      | Some v \<Rightarrow>
          if v = [] then None
          else (case GetSession (HashToken (c_sha256 c) v) now st of
              Inl _ \<Rightarrow> None
            | Inr sess \<Rightarrow>
                (case GetUser (ses_OrgID sess) (ses_UserID sess) st of
                   Inl _ \<Rightarrow> None
                 | Inr u \<Rightarrow>
                     Some \<lparr>p_UserID = usr_ID u, p_OrgID = ses_OrgID sess, p_Email = usr_Email u,
                       p_Role = roleOf (case GetMembership (ses_OrgID sess) (ses_UserID sess) st of
                                          Inl _ \<Rightarrow> None | Inr mem \<Rightarrow> Some mem),
                       p_HasPassword = (usr_PasswordHash u \<noteq> [])\<rparr>)))"

text \<open>The gates: the handler runs only for an authenticated caller with the permission.\<close>

definition requirePerm :: "permission \<Rightarrow> principal option \<Rightarrow> (principal \<Rightarrow> handler) \<Rightarrow> handler" where
  "requirePerm perm pr h r s =
     (case pr of
        None \<Rightarrow> (Fail 401 CodeAuth ''authentication required'', s)
      | Some p \<Rightarrow>
          if \<not> Can (p_Role p) perm then (Fail 403 CodePermission ''insufficient permissions'', s)
          else h p r s)"

definition requireAuth :: "principal option \<Rightarrow> (principal \<Rightarrow> handler) \<Rightarrow> handler" where
  "requireAuth pr h r s =
     (case pr of
        None \<Rightarrow> (Fail 401 CodeAuth ''authentication required'', s)
      | Some p \<Rightarrow> h p r s)"

text \<open>\<open>Limiter.Middleware\<close>: \<open>get\<close> and \<open>put\<close> pick the limiter out of the state.\<close>

definition limited :: "(server_state \<Rightarrow> limiter) \<Rightarrow> (limiter \<Rightarrow> server_state \<Rightarrow> server_state) \<Rightarrow> time \<Rightarrow>
    handler \<Rightarrow> handler" where
  "limited get put now h r s =
     (let (ok, l) = Allow (clientIP r) now (get s); s' = put l s in
      if \<not> ok then (Fail 429 CodeRateLimited ''rate limit exceeded'', s') else h r s')"

subsection \<open>CORS and the middleware chain\<close>

definition CORS_allows :: "string list \<Rightarrow> http_request \<Rightarrow> bool" where
  "CORS_allows origins r =
     (let origin = header_Get r ''Origin'' in origin \<noteq> [] \<and> origin \<in> set origins)"

definition CORS :: "string list \<Rightarrow> http_request \<Rightarrow> (string \<times> string) list" where
  "CORS origins r =
     (if CORS_allows origins r
      then [(''Access-Control-Allow-Origin'', header_Get r ''Origin''), (''Vary'', ''Origin''),
            (''Access-Control-Allow-Credentials'', ''true''),
            (''Access-Control-Allow-Headers'', ''Content-Type, X-CSRF-Token''),
            (''Access-Control-Allow-Methods'', ''GET, POST, PUT, DELETE, OPTIONS'')]
      else [])"

text \<open>\<open>Chain\<close> wraps from the last middleware to the first.\<close>

definition Chain :: "'h \<Rightarrow> ('h \<Rightarrow> 'h) list \<Rightarrow> 'h" where
  "Chain h mws = foldl (\<lambda>acc mw. mw acc) h (rev mws)"

subsection \<open>Sessions\<close>

definition sessionTTL :: duration where "sessionTTL = 30 * 24 * 3600 * second"
definition enrollmentTTL :: duration where "enrollmentTTL = 15 * 60 * second"

definition newSession :: "inputs \<Rightarrow> nat \<Rightarrow> string \<Rightarrow> string \<Rightarrow> duration \<Rightarrow> session" where
  "newSession x i orgID userID ttl =
     \<lparr>ses_ID = [], ses_UserID = userID, ses_OrgID = orgID, ses_CSRFSecret = NewID ''csrf'' (id_rnd x i),
      ses_ExpiresAt = in_time x i + ttl\<rparr>"

definition sessionPayload :: "string \<Rightarrow> role \<Rightarrow> bool \<Rightarrow> (string \<times> json_value) list" where
  "sessionPayload email r hasPassword =
     [(''email'', JStr email), (''role'', JStr r),
      (''permissions'', JStrs (map permission_string (Permissions r))),
      (''has_password'', JBool hasPassword)]"

text \<open>\<open>issueSession\<close>: draw \<open>i\<close> is the cookie secret, draw \<open>i + 1\<close> the CSRF secret. The result is
  the cookie value, or \<open>None\<close> when the random source fails.\<close>

definition issueSession :: "crypto \<Rightarrow> inputs \<Rightarrow> nat \<Rightarrow> string \<Rightarrow> string \<Rightarrow> server_state \<Rightarrow>
    string option \<times> server_state" where
  "issueSession c x i orgID userID s =
     (case GenerateToken (c_sha256 c) ''pss'' (in_rnd x i) of
        None \<Rightarrow> (None, s)
      | Some (cookieValue, h) \<Rightarrow>
          let sess = (newSession x (i + 1) orgID userID sessionTTL)\<lparr>ses_ID := HashToken (c_sha256 c) cookieValue\<rparr>
          in (Some cookieValue, s\<lparr>ss_store := CreateSession sess (ss_store s)\<rparr>))"

definition limitInt :: "int \<Rightarrow> int \<Rightarrow> int \<Rightarrow> int" where
  "limitInt v lo hi = (if v < lo then lo else if hi < v then hi else v)"

subsection \<open>Properties of the limiter\<close>

text \<open>The number of calls for key \<open>k\<close> that a sequence of calls (of any keys) is granted.\<close>

fun granted :: "string \<Rightarrow> (string \<times> time) list \<Rightarrow> limiter \<Rightarrow> nat" where
  "granted k [] l = 0"
| "granted k ((k', t) # cs) l =
     (case Allow k' t l of (ok, l') \<Rightarrow> (if ok \<and> k' = k then 1 else 0) + granted k cs l')"

lemma granted_Cons:
  "granted k ((k', t) # cs) l =
     (if fst (Allow k' t l) \<and> k' = k then 1 else 0) + granted k cs (snd (Allow k' t l))"
  by (simp split: prod.splits)

lemma Allow_params [simp]:
  "l_rate (snd (Allow k t l)) = l_rate l" "l_burst (snd (Allow k t l)) = l_burst l"
  by (auto simp: Allow_def Let_def split: option.splits)

lemma Allow_other [simp]: "k' \<noteq> k \<Longrightarrow> l_buckets (snd (Allow k' t l)) k = l_buckets l k"
  by (auto simp: Allow_def Let_def split: option.splits)

lemma elapsed_le: "t \<le> now \<Longrightarrow> 0 \<le> time_Sub now t \<and> time_Sub now t \<le> now - t"
  by (auto simp: time_Sub_def sat64_def minDuration_def maxDuration_def)

lemma granted_from_bucket:
  assumes "l_buckets l k = Some b" and "0 \<le> b_tokens b" and "0 \<le> l_rate l" and "0 \<le> l_burst l"
    and "sorted (map snd cs)" and "\<forall>c \<in> set cs. b_last b \<le> snd c \<and> snd c \<le> T" and "b_last b \<le> T"
  shows "real (granted k cs l) \<le> b_tokens b + l_rate l * of_int (T - b_last b) / 1000000000"
  using assms
proof (induction cs arbitrary: l b)
  case Nil
  then show ?case by simp
next
  case (Cons c cs)
  obtain k' t where c: "c = (k', t)" by (cases c)
  show ?case
  proof (cases "k' = k")
    case False
    have "real (granted k cs (snd (Allow k' t l))) \<le>
        b_tokens b + l_rate (snd (Allow k' t l)) * of_int (T - b_last b) / 1000000000"
      using Cons.prems False by (intro Cons.IH) auto
    with False c show ?thesis by (simp add: granted_Cons del: granted.simps)
  next
    case True
    define el where "el = of_int (time_Sub t (b_last b)) / (1000000000 :: real)"
    define tk where "tk = min (l_burst l) (b_tokens b + el * l_rate l)"
    define b' where "b' = \<lparr>b_tokens = (if tk < 1 then tk else tk - 1), b_last = t\<rparr>"
    have ord: "b_last b \<le> t" "t \<le> T" using Cons.prems(6) c by simp_all
    have el: "0 \<le> el" "el \<le> of_int (t - b_last b) / 1000000000"
      using elapsed_le [OF ord(1)] by (auto simp: el_def divide_right_mono simp flip: of_int_diff)
    have A: "Allow k t l = (\<not> tk < 1, l\<lparr>l_buckets := (l_buckets l)(k \<mapsto> b')\<rparr>)"
      using Cons.prems(1) by (simp add: Allow_def el_def tk_def b'_def Let_def)
    have "0 \<le> tk" using Cons.prems el(1) by (simp add: tk_def)
    then have "real (granted k cs (l\<lparr>l_buckets := (l_buckets l)(k \<mapsto> b')\<rparr>))
        \<le> b_tokens b' + l_rate l * of_int (T - t) / 1000000000"
      using Cons.prems c ord Cons.IH [of "l\<lparr>l_buckets := (l_buckets l)(k \<mapsto> b')\<rparr>" b']
      by (auto simp: b'_def)
    moreover have "tk \<le> b_tokens b + l_rate l * of_int (t - b_last b) / 1000000000"
    proof -
      have "el * l_rate l \<le> of_int (t - b_last b) / 1000000000 * l_rate l"
        using el(2) Cons.prems(3) by (rule mult_right_mono)
      then show ?thesis by (simp add: tk_def mult.commute)
    qed
    moreover have "l_rate l * of_int (T - b_last b) / 1000000000
        = l_rate l * of_int (t - b_last b) / 1000000000 + l_rate l * of_int (T - t) / 1000000000"
      by (simp add: algebra_simps flip: add_divide_distrib diff_divide_distrib)
    ultimately show ?thesis using A c True by (simp add: b'_def add_divide_distrib split: if_splits)
  qed
qed

lemma granted_fresh:
  assumes "l_buckets l k = None" and "0 \<le> l_rate l" and "1 \<le> l_burst l"
    and "sorted (map snd cs)" and "\<forall>c \<in> set cs. t0 \<le> snd c \<and> snd c \<le> T" and "t0 \<le> T"
  shows "real (granted k cs l) \<le> l_burst l + l_rate l * of_int (T - t0) / 1000000000"
  using assms
proof (induction cs arbitrary: l)
  case Nil
  then show ?case by simp
next
  case (Cons c cs)
  obtain k' t where c: "c = (k', t)" by (cases c)
  show ?case
  proof (cases "k' = k")
    case False
    have "real (granted k cs (snd (Allow k' t l))) \<le>
        l_burst (snd (Allow k' t l)) + l_rate (snd (Allow k' t l)) * of_int (T - t0) / 1000000000"
      using Cons.prems False by (intro Cons.IH) auto
    with False c show ?thesis by (simp add: granted_Cons del: granted.simps)
  next
    case True
    let ?b = "\<lparr>b_tokens = l_burst l - 1, b_last = t\<rparr>"
    have A: "Allow k t l = (True, l\<lparr>l_buckets := (l_buckets l)(k \<mapsto> ?b)\<rparr>)"
      using Cons.prems(1) by (simp add: Allow_def)
    have "real (granted k cs (l\<lparr>l_buckets := (l_buckets l)(k \<mapsto> ?b)\<rparr>))
        \<le> (l_burst l - 1) + l_rate l * of_int (T - t) / 1000000000"
      using Cons.prems c by (intro granted_from_bucket [THEN order_trans]) auto
    moreover have "l_rate l * of_int (T - t) / 1000000000 \<le> l_rate l * of_int (T - t0) / 1000000000"
      using Cons.prems c by (intro divide_right_mono mult_left_mono) auto
    ultimately show ?thesis using A c True by simp
  qed
qed

text \<open>C5: the token bucket bounds every client. Over any sequence of calls with a clock that does
  not go back, a key that starts without a bucket is granted at most \<open>burst\<close> calls plus
  \<open>rate\<close> per elapsed second, whatever the other keys do.\<close>

theorem limiter_bounds_each_key:
  assumes "0 \<le> rate" and "1 \<le> burst" and "sorted (map snd cs)" and "cs \<noteq> []"
  shows "real (granted k cs (NewLimiter rate burst)) \<le>
    burst + rate * of_int (snd (last cs) - snd (hd cs)) / 1000000000"
proof -
  have "t \<le> snd (last cs) \<and> snd (hd cs) \<le> t" if "t \<in> set (map snd cs)" for t
    using that assms(3,4)
  proof (induction cs)
    case (Cons c cs)
    then show ?case by (cases "cs = []") (auto simp: last_map)
  qed simp
  then have "\<forall>c \<in> set cs. snd (hd cs) \<le> snd c \<and> snd c \<le> snd (last cs)" by auto
  moreover have "snd (hd cs) \<le> snd (last cs)" using calculation assms(4) by auto
  ultimately show ?thesis
    using granted_fresh [of "NewLimiter rate burst" k cs "snd (hd cs)" "snd (last cs)"] assms
    by (simp add: NewLimiter_def)
qed

theorem limiter_bounds_each_key_witness:
  "real (granted ''ip'' [(''ip'', 0), (''ip'', 1), (''other'', 2), (''ip'', 5000000000)] (NewLimiter (1 / 10) 3))
    \<le> 3 + (1 / 10) * of_int (5000000000 - 0) / 1000000000"
  using limiter_bounds_each_key [of "1 / 10" 3
      "[(''ip'', 0), (''ip'', 1), (''other'', 2), (''ip'', 5000000000)]" "''ip''"] by simp

definition bucket_ok :: "limiter \<Rightarrow> bool" where
  "bucket_ok l \<longleftrightarrow> (\<forall>k b. l_buckets l k = Some b \<longrightarrow> 0 \<le> b_tokens b \<and> b_tokens b \<le> l_burst l)"

text \<open>A client that waits is served. A key that has not been used for \<open>1 / rate\<close> seconds is
  granted its next call, and the stored token count always stays between zero and the burst.\<close>

theorem limiter_serves_after_wait:
  assumes "bucket_ok l" and "0 < l_rate l" and "1 \<le> l_burst l"
    and "\<forall>b. l_buckets l k = Some b \<longrightarrow> b_last b \<le> now \<and>
           1 / l_rate l \<le> of_int (time_Sub now (b_last b)) / 1000000000"
  shows "fst (Allow k now l) \<and> bucket_ok (snd (Allow k now l))"
proof (cases "l_buckets l k")
  case None
  then show ?thesis using assms by (auto simp: Allow_def bucket_ok_def)
next
  case (Some b)
  define el where "el = of_int (time_Sub now (b_last b)) / (1000000000 :: real)"
  have "1 / l_rate l \<le> el" using assms(4) Some by (auto simp: el_def)
  then have "1 \<le> el * l_rate l" using assms(2) by (simp add: pos_divide_le_eq)
  moreover have "0 \<le> b_tokens b" using assms(1) Some by (simp add: bucket_ok_def)
  ultimately have "1 \<le> min (l_burst l) (b_tokens b + el * l_rate l)" using assms(3) by simp
  then show ?thesis using Some assms(1)
    by (auto simp: Allow_def bucket_ok_def el_def [symmetric] Let_def)
qed

definition demo_limiter :: limiter where
  "demo_limiter = \<lparr>l_buckets = [''ip'' \<mapsto> \<lparr>b_tokens = 0, b_last = 0\<rparr>], l_rate = 1 / 5, l_burst = 5\<rparr>"

theorem limiter_serves_after_wait_witness: "fst (Allow ''ip'' 7000000000 demo_limiter)"
proof -
  have "time_Sub 7000000000 0 = 7000000000"
    by (simp add: time_Sub_def sat64_def minDuration_def maxDuration_def)
  then show ?thesis
    by (intro limiter_serves_after_wait [THEN conjunct1]) (simp_all add: demo_limiter_def bucket_ok_def)
qed

definition forwarded_request :: "string \<Rightarrow> string \<Rightarrow> http_request" where
  "forwarded_request remote ip =
     \<lparr>rq_Method = ''POST'', rq_Path = ''/api/v1/auth/login'',
      rq_Header = (\<lambda>h. if h = ''X-Forwarded-For'' then [ip] else []), rq_RemoteAddr = remote,
      rq_Cookie = None, rq_PathValue = (\<lambda>_. []), rq_Body = []\<rparr>"

fun all_granted :: "http_request list \<Rightarrow> time \<Rightarrow> limiter \<Rightarrow> bool" where
  "all_granted [] now l = True"
| "all_granted (r # rs) now l =
     (case Allow (clientIP r) now l of (ok, l') \<Rightarrow> ok \<and> all_granted rs now l')"

lemma show_nat_inj: "show_nat a = show_nat b \<longleftrightarrow> a = b"
  by (metis digits_val_show_nat)

lemma is_digit_plain: "is_digit c \<Longrightarrow> c \<noteq> CHR '','' \<and> \<not> is_space c"
  by (auto simp: is_digit_def is_space_def)

lemma clientIP_forwarded: "clientIP (forwarded_request remote (show_nat n)) = show_nat n"
proof -
  have "CHR '','' \<notin> set (show_nat n)" using show_nat_set is_digit_plain by blast
  moreover have "TrimLeftSpace xs = xs" if "set xs \<subseteq> set (show_nat n)" for xs
    using that show_nat_set is_digit_plain by (cases xs) (auto simp: TrimLeftSpace_def)
  ultimately show ?thesis
    by (simp add: clientIP_def forwarded_request_def header_Get_def Cut_notin TrimSpace_def)
qed

lemma all_granted_fresh:
  assumes "distinct ns" and "\<forall>n \<in> set ns. l_buckets l (show_nat n) = None"
  shows "all_granted (map (\<lambda>n. forwarded_request remote (show_nat n)) ns) now l"
  using assms
proof (induction ns arbitrary: l)
  case (Cons n ns)
  have A: "Allow (show_nat n) now l = (True, snd (Allow (show_nat n) now l))"
    using Cons.prems by (simp add: Allow_def)
  have "all_granted (map (\<lambda>n. forwarded_request remote (show_nat n)) ns) now (snd (Allow (show_nat n) now l))"
    using Cons.prems by (intro Cons.IH) (auto simp: show_nat_inj Allow_def)
  then show ?case using A by (simp add: clientIP_forwarded split: prod.splits) (metis prod.inject snd_conv)
qed simp

text \<open>The key of every limiter is chosen by the client. A request that carries an
  \<open>X-Forwarded-For\<close> header is limited under the first entry of that header, so one remote
  address is granted any number of requests at one instant by naming a new address in each.\<close>

theorem limiter_evaded_by_forwarded_for:
  "\<exists>rs. length rs = n \<and> (\<forall>r \<in> set rs. rq_RemoteAddr r = remote) \<and>
     all_granted rs now (NewLimiter rate burst)"
proof (intro exI conjI)
  show "all_granted (map (\<lambda>n. forwarded_request remote (show_nat n)) [0..<n]) now (NewLimiter rate burst)"
    by (rule all_granted_fresh) (simp_all add: NewLimiter_def)
qed (simp_all add: forwarded_request_def)

theorem limiter_evaded_by_forwarded_for_witness:
  "\<exists>rs. length rs = 1000 \<and> (\<forall>r \<in> set rs. rq_RemoteAddr r = ''203.0.113.9:4000'') \<and>
     all_granted rs 0 (NewLimiter (1 / 5) 5)"
  by (rule limiter_evaded_by_forwarded_for)

subsection \<open>Access control\<close>

text \<open>C2: a handler behind \<open>requirePerm\<close> runs only for a live session. If the gate's outcome is
  not one of its two refusals (which leave the state untouched), then the request carried the
  cookie of an unexpired session whose user is a member of the session's organisation with a
  role that holds the permission, and the outcome is the handler's, run with exactly that
  organisation and role.\<close>

theorem requirePerm_needs_session_and_role:
  assumes "requirePerm perm (Authenticate c now r (ss_store s)) h r s
      \<notin> {(Fail 401 CodeAuth ''authentication required'', s),
         (Fail 403 CodePermission ''insufficient permissions'', s)}"
  shows "\<exists>v sess u mem. rq_Cookie r = Some v \<and> v \<noteq> [] \<and>
    m_sessions (ss_store s) (HashToken (c_sha256 c) v) = Some sess \<and> now \<le> ses_ExpiresAt sess \<and>
    m_users (ss_store s) (ses_UserID sess) = Some u \<and>
    m_memberships (ss_store s) (ses_UserID sess) = Some mem \<and> mem_OrgID mem = ses_OrgID sess \<and>
    Can (roleOf (Some mem)) perm \<and>
    requirePerm perm (Authenticate c now r (ss_store s)) h r s
      = h \<lparr>p_UserID = usr_ID u, p_OrgID = ses_OrgID sess, p_Email = usr_Email u,
            p_Role = roleOf (Some mem), p_HasPassword = (usr_PasswordHash u \<noteq> [])\<rparr> r s"
  using assms
  by (auto simp: requirePerm_def Authenticate_def GetSession_def GetUser_def GetMembership_def
      time_After_def not_less split: option.splits if_splits sum.splits)

definition demo_store :: memory where
  "demo_store = NewMemory\<lparr>
     m_sessions := [''00'' \<mapsto> \<lparr>ses_ID = ''00'', ses_UserID = ''u'', ses_OrgID = ''o'', ses_CSRFSecret = [],
                                ses_ExpiresAt = 100\<rparr>],
     m_users := [''u'' \<mapsto> \<lparr>usr_ID = ''u'', usr_Email = ''a@b.c'', usr_Name = [], usr_PasswordHash = ''x'',
                           usr_MFASecret = [], usr_CreatedAt = 0\<rparr>],
     m_memberships := [''u'' \<mapsto> \<lparr>mem_OrgID = ''o'', mem_UserID = ''u'', mem_Role = RoleAdmin\<rparr>]\<rparr>"

definition demo_request :: http_request where
  "demo_request = \<lparr>rq_Method = ''GET'', rq_Path = ''/'', rq_Header = (\<lambda>_. []), rq_RemoteAddr = ''1.2.3.4:5'',
     rq_Cookie = Some ''secret'', rq_PathValue = (\<lambda>_. []), rq_Body = []\<rparr>"

definition demo_crypto :: crypto where
  "demo_crypto = \<lparr>c_sha256 = (\<lambda>_. [0]), c_hmac = (\<lambda>_ _. replicate 32 0), c_ed25519 = (\<lambda>_ _ _. True)\<rparr>"

lemma demo_hash [simp]: "HashToken (c_sha256 demo_crypto) v = ''00''"
proof -
  have "hex_char 0 = CHR ''0''" by code_simp
  then show ?thesis by (simp add: HashToken_def demo_crypto_def hex_encode_def)
qed

theorem requirePerm_needs_session_and_role_witness:
  "\<exists>v sess. rq_Cookie demo_request = Some v \<and>
     m_sessions demo_store (HashToken (c_sha256 demo_crypto) v) = Some sess \<and> 50 \<le> ses_ExpiresAt sess"
proof -
  have "requirePerm SSHExec (Authenticate demo_crypto 50 demo_request (ss_store (New demo_store)))
      (\<lambda>p r s. (JSON 200 [], s)) demo_request (New demo_store)
      \<notin> {(Fail 401 CodeAuth ''authentication required'', New demo_store),
         (Fail 403 CodePermission ''insufficient permissions'', New demo_store)}"
    by (simp add: requirePerm_def Authenticate_def New_def demo_request_def demo_store_def GetSession_def
        GetUser_def GetMembership_def time_After_def roleOf_def Can_def rolePermissions_def role_defs http_simps)
  from requirePerm_needs_session_and_role [OF this] show ?thesis by (auto simp: New_def)
qed

lemma Chain_foldr: "Chain h mws = foldr (\<lambda>mw acc. mw acc) mws h"
  by (simp add: Chain_def foldr_conv_foldl)

lemma limitInt_range: "lo \<le> hi \<Longrightarrow> lo \<le> limitInt v lo hi \<and> limitInt v lo hi \<le> hi"
  by (auto simp: limitInt_def)

end
