(* ===== verification/Pulse_Agents.thy ===== *)
theory Pulse_Agents
  imports Pulse_Http Pulse_Store_Props
begin

section \<open>Agents: enrollment, signed requests, ingestion\<close>

text \<open>
  \<^verbatim>\<open>apps/api/internal/httpx/handlers_agents.go\<close>. Each handler is the whole handler: body
  limits, decoding, every refusal, every store call in the source's order, the audit entry and
  the response. The \<open>i\<close>-th reading of the clock in a handler is \<open>in_time x i\<close>, the \<open>i\<close>-th
  draw of random bytes \<open>in_rnd x i\<close>. Reading the body from the connection does not fail here.
\<close>

definition supportedProtocols :: "string list" where
  "supportedProtocols = [''1.0'']"

definition em_dash :: string where
  "em_dash = [CHR 0xE2, CHR 0x80, CHR 0x94]"

subsection \<open>Nonce cache and request signatures\<close>

definition checkAndStore :: "string \<Rightarrow> time \<Rightarrow> (string \<rightharpoonup> time) \<Rightarrow> bool \<times> (string \<rightharpoonup> time)" where
  "checkAndStore nonce now seen =
     (if seen nonce \<noteq> None then (False, seen)
      else
        let pruned = (\<lambda>k. case seen k of
               None \<Rightarrow> None
             | Some t \<Rightarrow> if time_Sub now t > 2 * 60 * second then None else Some t)
        in (True, pruned(nonce \<mapsto> now)))"

definition absDuration :: "duration \<Rightarrow> duration" where
  "absDuration d = (if d < 0 then wrap64 (- d) else d)"

definition time_UnixMilli :: "int \<Rightarrow> time" where
  "time_UnixMilli ms = ms * 1000000"

definition ingestPath :: string where "ingestPath = ''/api/v1/agents/ingest''"
definition reenrollPath :: string where "reenrollPath = ''/api/v1/agents/reenroll''"

definition signing_input :: "crypto \<Rightarrow> string \<Rightarrow> string \<Rightarrow> string \<Rightarrow> bytes \<Rightarrow> string" where
  "signing_input c path tsStr nonce body =
     ''POST|'' @ path @ ''|'' @ tsStr @ ''|'' @ nonce @ ''|'' @ hex_encode (c_sha256 c body)"

text \<open>\<open>verifySignedRequest\<close>: \<open>t0\<close> is the clock of the timestamp check, \<open>t1\<close> that of the
  nonce cache. The result is the error, \<open>None\<close> when the request is genuine.\<close>

definition verifySignedRequest :: "crypto \<Rightarrow> time \<Rightarrow> time \<Rightarrow> http_request \<Rightarrow> bytes \<Rightarrow> string \<Rightarrow> string \<Rightarrow>
    (string \<rightharpoonup> time) \<Rightarrow> string option \<times> (string \<rightharpoonup> time)" where
  "verifySignedRequest c t0 t1 r body publicKeyB64 path seen =
     (let tsStr = header_Get r ''X-Pulse-Timestamp'';
          nonce = header_Get r ''X-Pulse-Nonce'';
          sigB64 = header_Get r ''X-Pulse-Signature''
      in if tsStr = [] \<or> nonce = [] \<or> sigB64 = [] then (Some ''missing signature headers'', seen)
      else if (case ParseInt10 tsStr of
                 None \<Rightarrow> True
               | Some ms \<Rightarrow> absDuration (time_Sub t0 (time_UnixMilli ms)) > 60 * second)
      then (Some ''stale or invalid timestamp'', seen)
      else
        let (fresh, seen') = checkAndStore nonce t1 seen in
        if \<not> fresh then (Some ''replayed request'', seen')
        else (case b64_std_decode publicKeyB64 of
            None \<Rightarrow> (Some ''invalid agent key'', seen')
          | Some pub \<Rightarrow>
              if length pub \<noteq> 32 then (Some ''invalid agent key'', seen')
              else (case b64_std_decode sigB64 of
                  None \<Rightarrow> (Some ''invalid signature encoding'', seen')
                | Some sig \<Rightarrow>
                    if \<not> c_ed25519 c pub (str_bytes (signing_input c path tsStr nonce body)) sig
                    then (Some ''signature verification failed'', seen')
                    else (None, seen'))))"

subsection \<open>Registration\<close>

text \<open>\<open>registerAgent\<close>: draws \<open>i\<close> to \<open>i + 3\<close>; \<open>created\<close> is the store's own clock
  reading for the server row.\<close>

definition registerAgent :: "inputs \<Rightarrow> nat \<Rightarrow> time \<Rightarrow> string \<Rightarrow> string \<Rightarrow> string \<Rightarrow> string \<Rightarrow> time \<Rightarrow>
    memory \<Rightarrow> (server \<times> agent) \<times> memory" where
  "registerAgent x i created orgID publicKey protocolVersion hostname now m =
     (let srv0 = \<lparr>srv_ID = [], srv_OrgID = [], srv_ServerID = NewID ''srv'' (id_rnd x i),
                  srv_Hostname = hostname, srv_Mode = ''cloud'', srv_Status = HealthUnknown,
                  srv_LastSeenAt = now, srv_CreatedAt = zeroTime\<rparr>;
          (srv, m1) = UpsertServer orgID srv0 (id_rnd x (i + 1)) created m;
          agent0 = \<lparr>agt_ID = [], agt_OrgID = orgID, agt_ServerID = srv_ServerID srv,
                    agt_AgentID = NewID ''agt'' (id_rnd x (i + 2)), agt_PublicKey = publicKey,
                    agt_ProtocolVersion = protocolVersion, agt_RevokedAt = None, agt_LastSeenAt = now\<rparr>;
          (agent, m2) = CreateAgent agent0 (id_rnd x (i + 3)) m1
      in ((srv, agent), m2))"

definition handleCreateEnrollment :: "crypto \<Rightarrow> inputs \<Rightarrow> principal \<Rightarrow> handler" where
  "handleCreateEnrollment c x p r s =
     (case GenerateToken (c_sha256 c) ''pst'' (in_rnd x 0) of
        None \<Rightarrow> (Fail 500 CodeInternal ''could not create token'', s)
      | Some (plain, hash) \<Rightarrow>
          let tok = \<lparr>tok_ID = [], tok_OrgID = p_OrgID p, tok_TokenHash = hash,
                     tok_ExpiresAt = in_time x 0 + enrollmentTTL, tok_UsedAt = None,
                     tok_Fingerprint = [], tok_CreatedAt = in_time x 1\<rparr>;
              s1 = s\<lparr>ss_store := CreateEnrollmentToken tok (ss_store s)\<rparr>;
              s2 = Record x 2 (p_OrgID p) (p_Email p) ''agent.enrollment_token.create'' ''success'' (clientIP r) [] s1
          in (JSON 201 [(''enrollment_token'', JStr plain), (''expires_at'', JInt (tok_ExpiresAt tok))], s2))"

definition enrollRequest :: "(string \<times> field_type) list" where
  "enrollRequest = [(''enrollment_token'', FString), (''installation_id'', FString), (''public_key'', FString),
     (''protocol_version'', FString), (''fingerprint'', FStrMap)]"

definition handleEnroll :: "crypto \<Rightarrow> inputs \<Rightarrow> handler" where
  "handleEnroll c x r s =
     (case decodeJSON r enrollRequest 8192 of
        None \<Rightarrow> (Fail 400 CodeValidation ''invalid request body'', s)
      | Some req \<Rightarrow>
          let proto = get_string ''protocol_version'' req;
              pubkey = get_string ''public_key'' req;
              token = get_string ''enrollment_token'' req;
              inst = get_string ''installation_id'' req
          in if proto \<notin> set supportedProtocols
             then (Fail 400 CodeValidation ''unsupported protocol version'', s)
             else if pubkey = [] \<or> token = []
             then (Fail 400 CodeValidation ''missing enrollment fields'', s)
             else (case ConsumeEnrollmentToken (HashToken (c_sha256 c) token) (in_time x 0) (ss_store s) of
                 (Inl _, m1) \<Rightarrow>
                   (Fail 401 CodeAuth ''invalid or expired enrollment token'',
                    Record x 1 [] inst ''agent.enroll'' ''failure'' (clientIP r) [] (s\<lparr>ss_store := m1\<rparr>))
               | (Inr tok, m1) \<Rightarrow>
                   let ((srv, agent), m2) = registerAgent x 0 (in_time x 2) (tok_OrgID tok) pubkey proto
                          (get_strmap ''fingerprint'' ''hostname'' req) (in_time x 1) m1;
                       s2 = Record x 4 (tok_OrgID tok) inst ''agent.enroll'' ''success'' (clientIP r)
                              [(''server_id'', srv_ServerID srv)] (s\<lparr>ss_store := m2\<rparr>)
                   in (JSON 201 [(''server_id'', JStr (srv_ServerID srv)), (''agent_id'', JStr (agt_AgentID agent)),
                                 (''protocol'', JStr proto)], s2)))"

subsection \<open>Ingestion\<close>

definition ingestEnvelope :: "(string \<times> field_type) list" where
  "ingestEnvelope = [(''type'', FString), (''agent_id'', FString), (''protocol'', FString), (''body'', FRaw)]"

definition hostnameFromSnapshot :: "raw_json \<Rightarrow> string" where
  "hostnameFromSnapshot b =
     (case json_Unmarshal b of
        Some (JvObj ms) \<Rightarrow>
          get_string ''hostname'' (filter (\<lambda>(k, r, v). fits False FString v) ms)
      | _ \<Rightarrow> [])"

text \<open>The switch over the message type: the store calls made for the agent, \<open>None\<close> for an
  unknown type.\<close>

definition ingest_store :: "inputs \<Rightarrow> agent \<Rightarrow> string \<Rightarrow> raw_json \<Rightarrow> time \<Rightarrow> memory \<Rightarrow> memory option" where
  "ingest_store x agent type body now m =
     (let org = agt_OrgID agent; sid = agt_ServerID agent;
          ensure = (\<lambda>hostname m. EnsureServer (in_servers x) org sid hostname now HealthHealthy (id_rnd x 0) m)
      in if type = ''discovery'' then Some (ensure (hostnameFromSnapshot body) (SaveDiscovery org sid body m))
         else if type = ''metrics''
         then Some (ensure [] (AppendMetricSample org sid now body (SaveMetrics org sid body m)))
         else if type = ''logs'' then Some (ensure [] (SaveLogs org sid body m))
         else if type \<in> {''heartbeat'', ''hello'', ''health''} then Some (ensure [] m)
         else None)"

definition unknown_agent_message :: string where
  "unknown_agent_message =
     ''unknown or revoked agent '' @ em_dash @ '' the agent should re-enroll; if it cannot, '' @
     ''generate a fresh enrollment token and reinstall it on that host''"

definition handleIngest :: "crypto \<Rightarrow> inputs \<Rightarrow> handler" where
  "handleIngest c x r s =
     (let body = take (8 * 1024 * 1024) (rq_Body r);
          agentID = header_Get r ''X-Pulse-Agent-Id''
      in if agentID = [] then (Fail 401 CodeAuth ''missing signature headers'', s)
      else (case GetAgentByAgentID agentID (ss_store s) of
          Inl NilDeref \<Rightarrow> (Recover_response, s)
        | Inl _ \<Rightarrow> (Fail 401 CodeAuth unknown_agent_message, s)
        | Inr agent \<Rightarrow>
            (case verifySignedRequest c (in_time x 0) (in_time x 1) r body (agt_PublicKey agent) ingestPath
                    (ss_nonces s) of
               (Some err, seen) \<Rightarrow> (Fail 401 CodeAuth err, s\<lparr>ss_nonces := seen\<rparr>)
             | (None, seen) \<Rightarrow>
                 let s1 = s\<lparr>ss_nonces := seen\<rparr> in
                 (case (case json_Unmarshal (bytes_str body) of
                          None \<Rightarrow> None | Some j \<Rightarrow> decode_struct False ingestEnvelope j) of
                    None \<Rightarrow> (Fail 400 CodeValidation ''invalid envelope'', s1)
                  | Some env \<Rightarrow>
                      (case ingest_store x agent (get_string ''type'' env) (get_raw ''body'' env) (in_time x 2)
                              (ss_store s1) of
                         None \<Rightarrow> (Fail 400 CodeValidation ''unknown message type'', s1)
                       | Some m \<Rightarrow> (JSON 202 [(''status'', JStr ''accepted'')], s1\<lparr>ss_store := m\<rparr>))))))"

definition handleRevokeAgent :: "inputs \<Rightarrow> principal \<Rightarrow> handler" where
  "handleRevokeAgent x p r s =
     (case RevokeAgent (p_OrgID p) (rq_PathValue r ''id'') (in_time x 0) (ss_store s) of
        (Inl _, m) \<Rightarrow> (Fail 404 CodeNotFound ''agent not found'', s\<lparr>ss_store := m\<rparr>)
      | (Inr _, m) \<Rightarrow>
          (JSON 200 [(''status'', JStr ''revoked'')],
           Record x 1 (p_OrgID p) (p_Email p) ''agent.revoke'' ''success'' (clientIP r)
             [(''agent'', rq_PathValue r ''id'')] (s\<lparr>ss_store := m\<rparr>)))"

subsection \<open>Re-enrollment\<close>

definition reenrollRequest :: "(string \<times> field_type) list" where
  "reenrollRequest = [(''installation_id'', FString), (''public_key'', FString), (''previous_agent_id'', FString),
     (''protocol_version'', FString), (''fingerprint'', FStrMap), (''enrollment_token'', FString)]"

definition revoked_message :: string where
  "revoked_message =
     ''this agent was revoked, and re-enrolling cannot undo that. Uninstall the agent on that '' @
     ''host, then install it again with a fresh enrollment token.''"

definition no_record_message :: string where
  "no_record_message =
     ''this control plane has no record of this agent. Generate a fresh enrollment token in '' @
     ''the dashboard and re-run the install command on that host.''"

text \<open>The three outcomes for a caller that has proved possession of the key it names: rebind a
  known live key, refuse a revoked one, adopt an unknown one with a token. Clock reading 2 is
  \<open>now\<close>, 3 and 4 belong to the store and the audit log.\<close>

definition reenroll_bind :: "crypto \<Rightarrow> inputs \<Rightarrow> members \<Rightarrow> handler" where
  "reenroll_bind c x req r s =
     (let inst = get_string ''installation_id'' req;
          pubkey = get_string ''public_key'' req;
          proto = get_string ''protocol_version'' req;
          hostname = get_strmap ''fingerprint'' ''hostname'' req;
          token = get_string ''enrollment_token'' req;
          now = in_time x 2;
          reply = (\<lambda>status sid aid. JSON status [(''server_id'', JStr sid), (''agent_id'', JStr aid), (''protocol'', JStr proto)])
      in case GetAgentByPublicKey (in_agents x) pubkey (ss_store s) of
           Inr existing \<Rightarrow>
             if agt_RevokedAt existing \<noteq> None then
               (Fail 401 CodeAuth revoked_message,
                Record x 4 (agt_OrgID existing) inst ''agent.reenroll'' ''failure'' (clientIP r)
                  [(''reason'', ''revoked''), (''agent'', agt_AgentID existing)] s)
             else
               let m1 = EnsureServer (in_servers x) (agt_OrgID existing) (agt_ServerID existing) hostname now
                          HealthHealthy (id_rnd x 0) (ss_store s)
               in (reply 200 (agt_ServerID existing) (agt_AgentID existing),
                   Record x 4 (agt_OrgID existing) inst ''agent.reenroll'' ''success'' (clientIP r)
                     [(''server_id'', agt_ServerID existing), (''agent_id'', agt_AgentID existing), (''path'', ''rebind'')]
                     (s\<lparr>ss_store := m1\<rparr>))
         | Inl _ \<Rightarrow>
             if token = [] then
               (Fail 401 CodeAuth no_record_message,
                Record x 4 [] inst ''agent.reenroll'' ''failure'' (clientIP r) [(''reason'', ''unknown_key_no_token'')] s)
             else (case ConsumeEnrollmentToken (HashToken (c_sha256 c) token) now (ss_store s) of
                 (Inl _, m1) \<Rightarrow>
                   (Fail 401 CodeAuth (''invalid or expired enrollment token '' @ em_dash @ '' generate a fresh one in the dashboard''),
                    Record x 4 [] inst ''agent.reenroll'' ''failure'' (clientIP r) [(''reason'', ''bad_token'')] (s\<lparr>ss_store := m1\<rparr>))
               | (Inr tok, m1) \<Rightarrow>
                   let ((srv, agent), m2) = registerAgent x 0 (in_time x 3) (tok_OrgID tok) pubkey proto hostname now m1
                   in (reply 201 (srv_ServerID srv) (agt_AgentID agent),
                       Record x 4 (tok_OrgID tok) inst ''agent.reenroll'' ''success'' (clientIP r)
                         [(''server_id'', srv_ServerID srv), (''agent_id'', agt_AgentID agent), (''path'', ''adopt'')]
                         (s\<lparr>ss_store := m2\<rparr>))))"

definition handleReenroll :: "crypto \<Rightarrow> inputs \<Rightarrow> handler" where
  "handleReenroll c x r s =
     (let body = take 8192 (rq_Body r) in
      case (case json_Unmarshal (bytes_str body) of
              None \<Rightarrow> None | Some j \<Rightarrow> decode_struct False reenrollRequest j) of
        None \<Rightarrow> (Fail 400 CodeValidation ''invalid request body'', s)
      | Some req \<Rightarrow>
          if get_string ''protocol_version'' req \<notin> set supportedProtocols
          then (Fail 400 CodeValidation ''unsupported protocol version'', s)
          else if get_string ''public_key'' req = []
          then (Fail 400 CodeValidation ''missing public key'', s)
          else (case verifySignedRequest c (in_time x 0) (in_time x 1) r body (get_string ''public_key'' req)
                       reenrollPath (ss_nonces s) of
              (Some err, seen) \<Rightarrow>
                (Fail 401 CodeAuth err,
                 Record x 4 [] (get_string ''installation_id'' req) ''agent.reenroll'' ''failure'' (clientIP r) []
                   (s\<lparr>ss_nonces := seen\<rparr>))
            | (None, seen) \<Rightarrow> reenroll_bind c x req r (s\<lparr>ss_nonces := seen\<rparr>)))"

subsection \<open>The timestamp window\<close>

lemma timestamp_window:
  "absDuration (time_Sub now ts) \<le> 60 * second \<longleftrightarrow> \<bar>now - ts\<bar> \<le> 60 * second \<or> now - ts \<le> - (2 ^ 63)"
proof -
  consider "now - ts \<le> - (2 ^ 63)" | "- (2 ^ 63) < now - ts" "now - ts < 0" | "0 \<le> now - ts" by linarith
  then show ?thesis
  proof cases
    case 1
    then show ?thesis
      by (simp add: absDuration_def time_Sub_def sat64_def minDuration_def maxDuration_def wrap64_def)
  next
    case 2
    then have "time_Sub now ts = now - ts"
      by (simp add: time_Sub_def sat64_def minDuration_def maxDuration_def)
    moreover have "wrap64 (ts - now) = ts - now"
      using 2 by (intro wrap64_id) (simp_all add: minDuration_def maxDuration_def)
    ultimately show ?thesis using 2 by (simp add: absDuration_def)
  next
    case 3
    then show ?thesis
      by (auto simp: absDuration_def time_Sub_def sat64_def minDuration_def maxDuration_def)
  qed
qed

text \<open>The timestamp check. A request passes it exactly when its timestamp is within 60 seconds of
  the clock or at least \<open>2^63\<close> nanoseconds (292 years) ahead of it: in the second case the
  difference saturates at the least duration, whose negation wraps to itself.\<close>

theorem timestamp_window_exact:
  "absDuration (time_Sub now ts) \<le> 60 * second \<longleftrightarrow> \<bar>now - ts\<bar> \<le> 60 * second \<or> now - ts \<le> - (2 ^ 63)"
  by (rule timestamp_window)

subsection \<open>No replay of signed requests\<close>

lemma checkAndStore_fresh: "fst (checkAndStore n now seen) \<longleftrightarrow> seen n = None"
  by (auto simp: checkAndStore_def Let_def)

lemma checkAndStore_stored: "seen n = None \<Longrightarrow> snd (checkAndStore n now seen) n = Some now"
  by (simp add: checkAndStore_def Let_def)

lemma checkAndStore_keeps:
  assumes "seen k = Some t"
  shows "snd (checkAndStore n now seen) k = Some t \<or> 2 * 60 * second < now - t"
proof -
  have "2 * 60 * second < time_Sub now t \<Longrightarrow> 2 * 60 * second < now - t"
    by (auto simp: time_Sub_def sat64_def minDuration_def)
  then show ?thesis using assms by (auto simp: checkAndStore_def Let_def)
qed

definition signed_nonce :: "http_request \<Rightarrow> string" where
  "signed_nonce r = header_Get r ''X-Pulse-Nonce''"

definition signed_time :: "http_request \<Rightarrow> time option" where
  "signed_time r = map_option time_UnixMilli (ParseInt10 (header_Get r ''X-Pulse-Timestamp''))"

lemma verify_seen:
  "snd (verifySignedRequest c t0 t1 r body pk path seen) \<in> {seen, snd (checkAndStore (signed_nonce r) t1 seen)}"
  by (auto simp: verifySignedRequest_def signed_nonce_def Let_def split: prod.splits option.splits)

lemma verify_accept:
  assumes "verifySignedRequest c t0 t1 r body pk path seen = (None, seen')"
  shows "seen (signed_nonce r) = None \<and> seen' = snd (checkAndStore (signed_nonce r) t1 seen) \<and>
    (\<exists>ts. signed_time r = Some ts \<and> absDuration (time_Sub t0 ts) \<le> 60 * second) \<and>
    (\<exists>pub sig. b64_std_decode pk = Some pub \<and> length pub = 32 \<and>
       b64_std_decode (header_Get r ''X-Pulse-Signature'') = Some sig \<and>
       c_ed25519 c pub (str_bytes (signing_input c path (header_Get r ''X-Pulse-Timestamp'') (signed_nonce r) body)) sig)"
  using assms checkAndStore_fresh [of "signed_nonce r" t1 seen]
  by (auto simp: verifySignedRequest_def signed_nonce_def signed_time_def Let_def not_less
      split: prod.splits option.splits if_splits)

text \<open>A run of the control plane as far as the nonce cache goes: the two signed endpoints, and any
  other request, which leaves the cache alone. The clock of the last nonce check is kept.\<close>

datatype agent_op =
    AgIngest inputs http_request
  | AgReenroll inputs http_request
  | AgOther "server_state \<Rightarrow> server_state"

fun agent_step :: "crypto \<Rightarrow> agent_op \<Rightarrow> server_state \<times> time \<Rightarrow> server_state \<times> time" where
  "agent_step c (AgIngest x r) (s, clk) = (snd (handleIngest c x r s), in_time x 1)"
| "agent_step c (AgReenroll x r) (s, clk) = (snd (handleReenroll c x r s), in_time x 1)"
| "agent_step c (AgOther f) (s, clk) = (f s, clk)"

definition clock_ok :: "inputs \<Rightarrow> http_request \<Rightarrow> time \<Rightarrow> bool" where
  "clock_ok x r clk \<longleftrightarrow> clk \<le> in_time x 0 \<and> in_time x 0 \<le> in_time x 1 \<and>
     (case signed_time r of None \<Rightarrow> True | Some ts \<Rightarrow> ts - in_time x 0 < 2 ^ 63)"

fun agent_ok :: "agent_op \<Rightarrow> server_state \<times> time \<Rightarrow> bool" where
  "agent_ok (AgIngest x r) (s, clk) = clock_ok x r clk"
| "agent_ok (AgReenroll x r) (s, clk) = clock_ok x r clk"
| "agent_ok (AgOther f) (s, clk) \<longleftrightarrow> ss_nonces (f s) = ss_nonces s"

fun accepted :: "crypto \<Rightarrow> agent_op \<Rightarrow> server_state \<times> time \<Rightarrow> (string \<times> time option) option" where
  "accepted c (AgIngest x r) (s, clk) =
     (if rs_Status (fst (handleIngest c x r s)) = 202 then Some (signed_nonce r, signed_time r) else None)"
| "accepted c (AgReenroll x r) (s, clk) =
     (if rs_Status (fst (handleReenroll c x r s)) \<in> {200, 201} then Some (signed_nonce r, signed_time r) else None)"
| "accepted c (AgOther f) (s, clk) = None"

definition request_spent :: "server_state \<times> time \<Rightarrow> string \<times> time option \<Rightarrow> bool" where
  "request_spent st k =
     (case (st, k) of ((s, clk), (n, ts)) \<Rightarrow>
        (case ts of None \<Rightarrow> False
         | Some ts \<Rightarrow> (\<exists>t. ss_nonces s n = Some t \<and> ts \<le> t + 60 * second) \<or> ts + 60 * second < clk))"

lemma Record_nonces [simp]: "ss_nonces (Record x i a b c d e f s) = ss_nonces s"
  by (simp add: Record_def)

lemma reenroll_bind_nonces [simp]: "ss_nonces (snd (reenroll_bind c x req r s)) = ss_nonces s"
  by (auto simp: reenroll_bind_def Let_def split: sum.splits prod.splits)

lemma ingest_nonces:
  "ss_nonces (snd (handleIngest c x r s)) \<in> {ss_nonces s, snd (checkAndStore (signed_nonce r) (in_time x 1) (ss_nonces s))}"
proof (cases "GetAgentByAgentID (header_Get r ''X-Pulse-Agent-Id'') (ss_store s)")
  case (Inl e)
  then show ?thesis by (cases e) (auto simp: handleIngest_def Let_def)
next
  case (Inr agent)
  define p where "p = verifySignedRequest c (in_time x 0) (in_time x 1) r (take (8 * 1024 * 1024) (rq_Body r))
    (agt_PublicKey agent) ingestPath (ss_nonces s)"
  have "ss_nonces (snd (handleIngest c x r s)) \<in> {ss_nonces s, snd p}"
    unfolding handleIngest_def Let_def Inr sum.case p_def [symmetric]
    by (auto split: prod.splits option.splits)
  moreover have "snd p \<in> {ss_nonces s, snd (checkAndStore (signed_nonce r) (in_time x 1) (ss_nonces s))}"
    unfolding p_def by (rule verify_seen)
  ultimately show ?thesis by auto
qed

lemma reenroll_nonces:
  "ss_nonces (snd (handleReenroll c x r s)) \<in> {ss_nonces s, snd (checkAndStore (signed_nonce r) (in_time x 1) (ss_nonces s))}"
proof -
  define p where "p req = verifySignedRequest c (in_time x 0) (in_time x 1) r (take 8192 (rq_Body r))
    (get_string ''public_key'' req) reenrollPath (ss_nonces s)" for req
  have "\<exists>req. ss_nonces (snd (handleReenroll c x r s)) \<in> {ss_nonces s, snd (p req)}"
    unfolding handleReenroll_def Let_def p_def [symmetric]
    by (auto split: prod.splits option.splits) (metis snd_conv)+
  then show ?thesis using verify_seen by (fastforce simp: p_def)
qed

lemma ingest_accepted:
  assumes "rs_Status (fst (handleIngest c x r s)) = 202"
  obtains agent seen where "GetAgentByAgentID (header_Get r ''X-Pulse-Agent-Id'') (ss_store s) = Inr agent"
    and "verifySignedRequest c (in_time x 0) (in_time x 1) r (take (8 * 1024 * 1024) (rq_Body r))
           (agt_PublicKey agent) ingestPath (ss_nonces s) = (None, seen)"
    and "ss_nonces (snd (handleIngest c x r s)) = seen"
  using assms
  by (auto simp: handleIngest_def Let_def http_simps Recover_response_def
      split: if_splits sum.splits prod.splits option.splits store_error.splits)

lemma reenroll_accepted:
  assumes "rs_Status (fst (handleReenroll c x r s)) \<in> {200, 201}"
  obtains req seen where
    "verifySignedRequest c (in_time x 0) (in_time x 1) r (take 8192 (rq_Body r))
           (get_string ''public_key'' req) reenrollPath (ss_nonces s) = (None, seen)"
    and "handleReenroll c x r s = reenroll_bind c x req r (s\<lparr>ss_nonces := seen\<rparr>)"
  using assms
  by (auto simp: handleReenroll_def Let_def http_simps split: if_splits prod.splits option.splits)

text \<open>What acceptance of a signed request says about the nonce cache before and after.\<close>

definition nonce_fresh :: "inputs \<Rightarrow> http_request \<Rightarrow> server_state \<Rightarrow> server_state \<Rightarrow> bool" where
  "nonce_fresh x r s s' \<longleftrightarrow> ss_nonces s (signed_nonce r) = None \<and>
     ss_nonces s' = snd (checkAndStore (signed_nonce r) (in_time x 1) (ss_nonces s)) \<and>
     (\<exists>ts. signed_time r = Some ts \<and> absDuration (time_Sub (in_time x 0) ts) \<le> 60 * second)"

lemma ingest_fresh: "rs_Status (fst (handleIngest c x r s)) = 202 \<Longrightarrow> nonce_fresh x r s (snd (handleIngest c x r s))"
  by (elim ingest_accepted) (use verify_accept in \<open>auto simp: nonce_fresh_def\<close>)

lemma reenroll_fresh:
  "rs_Status (fst (handleReenroll c x r s)) \<in> {200, 201} \<Longrightarrow> nonce_fresh x r s (snd (handleReenroll c x r s))"
  by (elim reenroll_accepted) (use verify_accept in \<open>auto simp: nonce_fresh_def\<close>)

lemma fresh_unspent:
  assumes "nonce_fresh x r s s'" and "clock_ok x r clk"
  shows "\<not> request_spent (s, clk) (signed_nonce r, signed_time r)"
    and "request_spent (s', in_time x 1) (signed_nonce r, signed_time r)"
proof -
  obtain ts where ts: "signed_time r = Some ts" "absDuration (time_Sub (in_time x 0) ts) \<le> 60 * second"
    using assms(1) by (auto simp: nonce_fresh_def)
  then have w: "\<bar>in_time x 0 - ts\<bar> \<le> 60 * second"
    using assms(2) timestamp_window [of "in_time x 0" ts] by (auto simp: clock_ok_def)
  have n: "ss_nonces s (signed_nonce r) = None" "ss_nonces s' (signed_nonce r) = Some (in_time x 1)"
    using assms(1) checkAndStore_stored by (auto simp: nonce_fresh_def)
  show "\<not> request_spent (s, clk) (signed_nonce r, signed_time r)"
    using n(1) w ts(1) assms(2) by (auto simp: request_spent_def clock_ok_def)
  show "request_spent (s', in_time x 1) (signed_nonce r, signed_time r)"
    using n(2) w ts(1) assms(2) by (auto simp: request_spent_def clock_ok_def)
qed

lemma spent_kept:
  assumes "ss_nonces s' \<in> {ss_nonces s, snd (checkAndStore n (in_time x 1) (ss_nonces s))}"
    and "clock_ok x r clk" and "request_spent (s, clk) k"
  shows "request_spent (s', in_time x 1) k"
proof -
  obtain m ts where k: "k = (m, Some ts)"
    using assms(3) by (cases k) (auto simp: request_spent_def split: option.splits)
  consider t where "ss_nonces s m = Some t" "ts \<le> t + 60 * second" | "ts + 60 * second < clk"
    using assms(3) k by (auto simp: request_spent_def)
  then show ?thesis
  proof cases
    case 1
    then show ?thesis using assms(1) checkAndStore_keeps [of "ss_nonces s" m t n "in_time x 1"] k
      by (auto simp: request_spent_def)
  next
    case 2
    then show ?thesis using assms(2) k by (simp add: request_spent_def clock_ok_def)
  qed
qed

lemma accepted_spends:
  assumes "agent_ok a (s, clk)" and "accepted c a (s, clk) = Some k"
  shows "\<not> request_spent (s, clk) k \<and> request_spent (agent_step c a (s, clk)) k"
proof (cases a)
  case (AgIngest x r)
  then have "nonce_fresh x r s (snd (handleIngest c x r s))" "k = (signed_nonce r, signed_time r)" "clock_ok x r clk"
    using assms ingest_fresh [of c x r s] by (simp_all split: if_splits)
  with fresh_unspent AgIngest show ?thesis by (simp del: One_nat_def)
next
  case (AgReenroll x r)
  then have "nonce_fresh x r s (snd (handleReenroll c x r s))" "k = (signed_nonce r, signed_time r)" "clock_ok x r clk"
    using assms reenroll_fresh [of c x r s] by (simp_all split: if_splits)
  with fresh_unspent AgReenroll show ?thesis by (simp del: One_nat_def)
next
  case (AgOther f)
  then show ?thesis using assms(2) by simp
qed

lemma request_spent_step:
  assumes "agent_ok a (s, clk)" and "request_spent (s, clk) k"
  shows "request_spent (agent_step c a (s, clk)) k"
proof (cases a)
  case (AgIngest x r)
  then show ?thesis using spent_kept [OF ingest_nonces] assms by (simp del: One_nat_def)
next
  case (AgReenroll x r)
  then show ?thesis using spent_kept [OF reenroll_nonces] assms by (simp del: One_nat_def)
next
  case (AgOther f)
  then show ?thesis using assms by (simp add: request_spent_def)
qed

interpretation signed: single_use "agent_step c" agent_ok "accepted c" request_spent for c
  by unfold_locales (metis accepted_spends surj_pair, metis accepted_spends surj_pair, metis request_spent_step surj_pair)


subsection \<open>Ingestion is authenticated and stays in its tenant\<close>

lemma GetAgent_found:
  assumes "store_inv m" and "GetAgentByAgentID aid m = Inr a"
  shows "\<exists>i. m_agents m i = Some a \<and> agt_RevokedAt a = None \<and> agt_AgentID a = aid"
proof -
  have "agents_ok m" using assms(1) by (simp add: store_inv_def)
  then show ?thesis using assms(2)
    by (fastforce simp: agents_ok_def GetAgentByAgentID_def split: option.splits if_splits)
qed

text \<open>C11: an accepted ingestion is authentic. If the control plane answers 202, the agent named in the
  header is registered and not revoked, and the Ed25519 check of the key on record passed over
  the ingest path, the timestamp and nonce headers and the hash of exactly the bytes that are
  then stored.\<close>

theorem ingest_authentic:
  assumes "store_reachable (ss_store s)" and "rs_Status (fst (handleIngest c x r s)) = 202"
  shows "\<exists>i agent pub sig. m_agents (ss_store s) i = Some agent \<and> agt_RevokedAt agent = None \<and>
    agt_AgentID agent = header_Get r ''X-Pulse-Agent-Id'' \<and>
    b64_std_decode (agt_PublicKey agent) = Some pub \<and> length pub = 32 \<and>
    b64_std_decode (header_Get r ''X-Pulse-Signature'') = Some sig \<and>
    c_ed25519 c pub (str_bytes (signing_input c ingestPath (header_Get r ''X-Pulse-Timestamp'')
      (header_Get r ''X-Pulse-Nonce'') (take (8 * 1024 * 1024) (rq_Body r)))) sig"
proof -
  from assms(2) obtain agent seen where g: "GetAgentByAgentID (header_Get r ''X-Pulse-Agent-Id'') (ss_store s) = Inr agent"
    and v: "verifySignedRequest c (in_time x 0) (in_time x 1) r (take (8 * 1024 * 1024) (rq_Body r))
           (agt_PublicKey agent) ingestPath (ss_nonces s) = (None, seen)"
    by (rule ingest_accepted)
  have "\<exists>i. m_agents (ss_store s) i = Some agent \<and> agt_RevokedAt agent = None
      \<and> agt_AgentID agent = header_Get r ''X-Pulse-Agent-Id''"
    using g GetAgent_found [OF store.inv_reachable [OF assms(1)]] by blast
  then show ?thesis using verify_accept [OF v] by (auto simp: signed_nonce_def)
qed

lemma ingest_store_run:
  assumes "ingest_store x agent type body now m = Some m'" and "no_slash (agt_OrgID agent)" and "t \<noteq> agt_OrgID agent"
    and "m_servers m (NewID ''srv'' (id_rnd x 0)) = None"
  shows "\<exists>ops. m' = run store_step ops m \<and> run_ok (\<lambda>a s. store_ok a s \<and> \<not> acts_for a s t) store_step ops m"
proof -
  let ?o = "agt_OrgID agent" and ?i = "agt_ServerID agent"
  let ?ens = "\<lambda>h. OpEnsure (in_servers x) ?o ?i h now HealthHealthy (id_rnd x 0)"
  have "m' = run store_step ops m \<and> run_ok (\<lambda>a s. store_ok a s \<and> \<not> acts_for a s t) store_step ops m"
    if "ops = (if type = ''discovery'' then [OpSaveDiscovery ?o ?i body, ?ens (hostnameFromSnapshot body)]
       else if type = ''metrics'' then [OpSaveMetrics ?o ?i body, OpAppendMetric ?o ?i now body, ?ens []]
       else if type = ''logs'' then [OpSaveLogs ?o ?i body, ?ens []] else [?ens []])" for ops
    using assms that
    by (auto simp: ingest_store_def Let_def SaveDiscovery_def SaveLogs_def SaveMetrics_def AppendMetricSample_def
        split: if_splits)
  then show ?thesis by blast
qed

text \<open>An agent writes only into its own organisation. Whatever an ingest request carries, nothing
  that another organisation can read changes.\<close>

theorem ingest_keeps_other_tenants:
  assumes "store_reachable (ss_store s)"
    and "\<forall>agent. GetAgentByAgentID (header_Get r ''X-Pulse-Agent-Id'') (ss_store s) = Inr agent \<longrightarrow>
           no_slash (agt_OrgID agent) \<and> agt_OrgID agent \<noteq> t"
    and "no_slash t" and "m_servers (ss_store s) (NewID ''srv'' (id_rnd x 0)) = None"
  shows "view_of t (ss_store (snd (handleIngest c x r s))) = view_of t (ss_store s)"
proof (cases "rs_Status (fst (handleIngest c x r s)) = 202")
  case False
  then have "ss_store (snd (handleIngest c x r s)) = ss_store s"
    by (auto simp: handleIngest_def Let_def http_simps
        split: sum.splits store_error.splits prod.splits option.splits)
  then show ?thesis by simp
next
  case True
  then obtain agent seen where g: "GetAgentByAgentID (header_Get r ''X-Pulse-Agent-Id'') (ss_store s) = Inr agent"
    and v: "verifySignedRequest c (in_time x 0) (in_time x 1) r (take (8 * 1024 * 1024) (rq_Body r))
           (agt_PublicKey agent) ingestPath (ss_nonces s) = (None, seen)"
    by (rule ingest_accepted)
  obtain type body where m: "ingest_store x agent type body (in_time x 2) (ss_store s)
      = Some (ss_store (snd (handleIngest c x r s)))"
    using True g v by (auto simp: handleIngest_def Let_def http_simps split: if_splits option.splits)
  moreover have "no_slash (agt_OrgID agent)" "t \<noteq> agt_OrgID agent" using assms(2) g by auto
  ultimately obtain ops where "ss_store (snd (handleIngest c x r s)) = run store_step ops (ss_store s)"
    "run_ok (\<lambda>a s. store_ok a s \<and> \<not> acts_for a s t) store_step ops (ss_store s)"
    using ingest_store_run [OF m _ _ assms(4)] by blast
  then show ?thesis using tenants.isolation_run [OF store.inv_reachable [OF assms(1)] assms(3)] by simp
qed

subsection \<open>Enrollment and re-enrollment\<close>

lemma registerAgent_result:
  assumes "registerAgent x i created o1 pk pv hn now m = ((srv, agent), m')"
  shows "m' = m\<lparr>m_servers := (m_servers m)(srv_ID srv \<mapsto> srv), m_agents := (m_agents m)(agt_ID agent \<mapsto> agent),
                m_agentByAID := (m_agentByAID m)(agt_AgentID agent \<mapsto> agt_ID agent)\<rparr>"
    and "srv_OrgID srv = o1" and "agt_OrgID agent = o1" and "agt_ServerID agent = srv_ServerID srv"
    and "agt_PublicKey agent = pk" and "agt_RevokedAt agent = None"
  using assms by (auto simp: registerAgent_def Let_def UpsertServer_def CreateAgent_def split: prod.splits)

text \<open>Enrollment binds the key to the token's tenant. If the control plane answers 201, the token was
  issued, unused and not expired, it is used up now, and the agent id of the reply resolves to a
  live agent with the presented public key, bound to a server row, both in the token's
  organisation.\<close>

theorem enroll_binds_key_to_token_org:
  assumes "rs_Status (fst (handleEnroll c x r s)) = 201"
  shows "\<exists>req tok agent srv. decodeJSON r enrollRequest 8192 = Some req \<and>
    m_enrollments (ss_store s) (HashToken (c_sha256 c) (get_string ''enrollment_token'' req)) = Some tok \<and>
    tok_UsedAt tok = None \<and> in_time x 0 \<le> tok_ExpiresAt tok \<and>
    (''agent_id'', JStr (agt_AgentID agent)) \<in> set (rs_Fields (fst (handleEnroll c x r s))) \<and>
    GetAgentByAgentID (agt_AgentID agent) (ss_store (snd (handleEnroll c x r s))) = Inr agent \<and>
    agt_PublicKey agent = get_string ''public_key'' req \<and> agt_OrgID agent = tok_OrgID tok \<and>
    GetServer (tok_OrgID tok) (srv_ID srv) (ss_store (snd (handleEnroll c x r s))) = Inr srv \<and>
    agt_ServerID agent = srv_ServerID srv \<and>
    fst (ConsumeEnrollmentToken (HashToken (c_sha256 c) (get_string ''enrollment_token'' req)) later
      (ss_store (snd (handleEnroll c x r s)))) = Inl ErrNotFound"
proof -
  obtain req where req: "decodeJSON r enrollRequest 8192 = Some req"
    using assms by (auto simp: handleEnroll_def http_simps split: option.splits)
  define h where "h = HashToken (c_sha256 c) (get_string ''enrollment_token'' req)"
  obtain tok1 m1 where cons: "ConsumeEnrollmentToken h (in_time x 0) (ss_store s) = (Inr tok1, m1)"
    using assms req by (auto simp: handleEnroll_def http_simps Let_def h_def split: if_splits sum.splits prod.splits)
  then obtain tok where tok: "m_enrollments (ss_store s) h = Some tok" "tok_UsedAt tok = None"
      "in_time x 0 \<le> tok_ExpiresAt tok" "tok1 = tok\<lparr>tok_UsedAt := Some (in_time x 0)\<rparr>"
      "m1 = (ss_store s)\<lparr>m_enrollments := (m_enrollments (ss_store s))(h \<mapsto> tok1)\<rparr>"
    by (auto simp: ConsumeEnrollmentToken_def Let_def time_After_def split: option.splits if_splits)
  obtain srv agent m2 where reg: "registerAgent x 0 (in_time x 2) (tok_OrgID tok1) (get_string ''public_key'' req)
      (get_string ''protocol_version'' req) (get_strmap ''fingerprint'' ''hostname'' req) (in_time x 1) m1 = ((srv, agent), m2)"
    by (metis surj_pair)
  have res: "rs_Fields (fst (handleEnroll c x r s)) = [(''server_id'', JStr (srv_ServerID srv)),
        (''agent_id'', JStr (agt_AgentID agent)), (''protocol'', JStr (get_string ''protocol_version'' req))]"
    "ss_store (snd (handleEnroll c x r s)) = ss_store (Record x 4 (tok_OrgID tok1) (get_string ''installation_id'' req)
        ''agent.enroll'' ''success'' (clientIP r) [(''server_id'', srv_ServerID srv)] (s\<lparr>ss_store := m2\<rparr>))"
    using assms req cons reg by (auto simp: handleEnroll_def http_simps Let_def h_def split: if_splits)
  note R = registerAgent_result [OF reg]
  have "tok_OrgID tok1 = tok_OrgID tok" by (simp add: tok)
  then show ?thesis
    using req tok res R(2-6) unfolding h_def [symmetric]
    by (intro exI [of _ req] exI [of _ tok] exI [of _ agent] exI [of _ srv])
      (simp add: h_def [symmetric] Record_def AppendAudit_def Let_def R(1) GetAgentByAgentID_def GetServer_def
        ConsumeEnrollmentToken_def)
qed

lemma GetAgentByPublicKey_Inr:
  assumes "GetAgentByPublicKey ord pk m = Inr a"
  shows "\<exists>i. m_agents m i = Some a \<and> agt_PublicKey a = pk"
proof -
  have "find (\<lambda>a. agt_PublicKey a = pk) (range_vals (m_agents m) ord) = Some a"
    using assms by (auto simp: GetAgentByPublicKey_def split: if_splits option.splits)
  from find_SomeD [OF this] show ?thesis by (auto simp: range_vals_def set_map_filter)
qed

lemma GetAgentByPublicKey_Inl:
  assumes "GetAgentByPublicKey ord pk m = Inl e" and "visits (m_agents m) ord" and "pk \<noteq> []"
  shows "\<forall>i a. m_agents m i = Some a \<longrightarrow> agt_PublicKey a \<noteq> pk"
proof -
  have "find (\<lambda>a. agt_PublicKey a = pk) (range_vals (m_agents m) ord) = None"
    using assms(1,3) by (auto simp: GetAgentByPublicKey_def split: if_splits option.splits)
  then show ?thesis using assms(2)
    by (fastforce simp: find_None_iff range_vals_def set_map_filter visits_def)
qed

text \<open>An unknown key needs a token. If re-enrollment answers 201 (adoption), the request was signed with
  the key it names, no agent of any organisation had that key, and it presented an issued, unused,
  unexpired enrollment token, which is used up now.\<close>

theorem reenroll_adopts_only_with_token:
  assumes "rs_Status (fst (handleReenroll c x r s)) = 201" and "visits (m_agents (ss_store s)) (in_agents x)"
  shows "\<exists>req tok pub sig. b64_std_decode (get_string ''public_key'' req) = Some pub \<and>
    b64_std_decode (header_Get r ''X-Pulse-Signature'') = Some sig \<and>
    c_ed25519 c pub (str_bytes (signing_input c reenrollPath (header_Get r ''X-Pulse-Timestamp'')
      (header_Get r ''X-Pulse-Nonce'') (take 8192 (rq_Body r)))) sig \<and>
    (\<forall>i a. m_agents (ss_store s) i = Some a \<longrightarrow> agt_PublicKey a \<noteq> get_string ''public_key'' req) \<and>
    m_enrollments (ss_store s) (HashToken (c_sha256 c) (get_string ''enrollment_token'' req)) = Some tok \<and>
    tok_UsedAt tok = None \<and> in_time x 2 \<le> tok_ExpiresAt tok \<and>
    m_enrollments (ss_store (snd (handleReenroll c x r s))) (HashToken (c_sha256 c) (get_string ''enrollment_token'' req))
      = Some (tok\<lparr>tok_UsedAt := Some (in_time x 2)\<rparr>)"
proof -
  from assms(1) obtain req seen where
    v: "verifySignedRequest c (in_time x 0) (in_time x 1) r (take 8192 (rq_Body r))
           (get_string ''public_key'' req) reenrollPath (ss_nonces s) = (None, seen)"
    and h: "handleReenroll c x r s = reenroll_bind c x req r (s\<lparr>ss_nonces := seen\<rparr>)"
    using reenroll_accepted [of c x r s] by blast
  have "get_string ''public_key'' req \<noteq> []"
  proof
    assume "get_string ''public_key'' req = []"
    moreover have "b64_std_decode [] \<noteq> Some pub \<or> length pub \<noteq> 32" for pub
      by (auto simp: b64_std_decode_def strip_newlines_def)
    ultimately show False using verify_accept [OF v] by auto
  qed
  moreover obtain e where "GetAgentByPublicKey (in_agents x) (get_string ''public_key'' req) (ss_store s) = Inl e"
    using assms(1) h by (auto simp: reenroll_bind_def Let_def http_simps split: sum.splits if_splits)
  moreover obtain tok where "m_enrollments (ss_store s) (HashToken (c_sha256 c) (get_string ''enrollment_token'' req)) = Some tok"
    "tok_UsedAt tok = None" "in_time x 2 \<le> tok_ExpiresAt tok"
    "m_enrollments (ss_store (snd (handleReenroll c x r s))) (HashToken (c_sha256 c) (get_string ''enrollment_token'' req))
      = Some (tok\<lparr>tok_UsedAt := Some (in_time x 2)\<rparr>)"
    using assms(1) calculation(2) h
    by (auto simp: reenroll_bind_def Let_def http_simps ConsumeEnrollmentToken_def time_After_def Record_def AppendAudit_def
        registerAgent_def UpsertServer_def CreateAgent_def split: sum.splits if_splits option.splits prod.splits)
  ultimately show ?thesis using verify_accept [OF v] GetAgentByPublicKey_Inl assms(2)
    by (intro exI [of _ req]) (auto simp: signed_nonce_def)
qed

text \<open>A revocation sticks. While every agent that holds a key is revoked (and there is one),
  re-enrollment with that key is refused, with or without a token, and changes neither the
  agents, the servers nor the tokens.\<close>

theorem reenroll_refuses_revoked_key:
  assumes "visits (m_agents (ss_store s)) (in_agents x)"
    and "json_Unmarshal (bytes_str (take 8192 (rq_Body r))) = Some j" and "decode_struct False reenrollRequest j = Some req"
    and "m_agents (ss_store s) i = Some a" and "agt_PublicKey a = get_string ''public_key'' req"
    and "\<forall>i a. m_agents (ss_store s) i = Some a \<and> agt_PublicKey a = get_string ''public_key'' req \<longrightarrow>
           agt_RevokedAt a \<noteq> None"
  shows "rs_Status (fst (handleReenroll c x r s)) \<in> {400, 401} \<and>
    m_agents (ss_store (snd (handleReenroll c x r s))) = m_agents (ss_store s) \<and>
    m_servers (ss_store (snd (handleReenroll c x r s))) = m_servers (ss_store s) \<and>
    m_enrollments (ss_store (snd (handleReenroll c x r s))) = m_enrollments (ss_store s)"
proof -
  let ?pk = "get_string ''public_key'' req"
  have "rs_Status (fst (reenroll_bind c x req r s')) = 401 \<and>
      m_agents (ss_store (snd (reenroll_bind c x req r s'))) = m_agents (ss_store s) \<and>
      m_servers (ss_store (snd (reenroll_bind c x req r s'))) = m_servers (ss_store s) \<and>
      m_enrollments (ss_store (snd (reenroll_bind c x req r s'))) = m_enrollments (ss_store s)"
    if s': "ss_store s' = ss_store s" and "?pk \<noteq> []" for s'
  proof (cases "GetAgentByPublicKey (in_agents x) ?pk (ss_store s)")
    case (Inl e)
    then show ?thesis using GetAgentByPublicKey_Inl [OF Inl assms(1)] that assms(4,5) by auto
  next
    case (Inr b)
    then have "agt_RevokedAt b \<noteq> None" using GetAgentByPublicKey_Inr [OF Inr] assms(6) by blast
    then show ?thesis using Inr s'
      by (simp add: reenroll_bind_def Let_def http_simps Record_def AppendAudit_def)
  qed
  then show ?thesis
    by (auto simp: handleReenroll_def Let_def assms(2,3) http_simps Record_def AppendAudit_def
        split: prod.splits option.splits)
qed

subsection \<open>Witnesses\<close>

text \<open>A store with one live agent, one revoked agent and one open token, and requests with
  well-formed headers; the signature primitive of \<open>demo_crypto\<close> accepts.\<close>

definition demo_pk :: string where
  "demo_pk = ''AAAAAAAAAAAAAAAAAAAAAAAAAAAAAAAAAAAAAAAAAAA=''"

definition demo_agent :: "string \<Rightarrow> string \<Rightarrow> time option \<Rightarrow> agent" where
  "demo_agent i pk rv = \<lparr>agt_ID = i, agt_OrgID = ''o'', agt_ServerID = ''s'', agt_AgentID = i, agt_PublicKey = pk,
     agt_ProtocolVersion = ''1.0'', agt_RevokedAt = rv, agt_LastSeenAt = 0\<rparr>"

definition demo_token :: enrollment_token where
  "demo_token = \<lparr>tok_ID = [], tok_OrgID = ''o'', tok_TokenHash = ''00'', tok_ExpiresAt = 100, tok_UsedAt = None,
     tok_Fingerprint = [], tok_CreatedAt = 0\<rparr>"

definition demo_ops :: "store_op list" where
  "demo_ops = [OpCreateAgent (demo_agent ''live'' demo_pk None) [], OpCreateToken demo_token]"

definition demo_inputs :: inputs where
  "demo_inputs = \<lparr>in_time = (\<lambda>i. int i), in_rnd = (\<lambda>i. Some [of_nat i]), in_servers = [], in_agents = [''live''], in_alerts = []\<rparr>"

definition demo_signed :: "string \<Rightarrow> http_request" where
  "demo_signed body = demo_request\<lparr>rq_Body := str_bytes body, rq_Header := (\<lambda>h.
     if h = ''X-Pulse-Agent-Id'' then [''live''] else if h = ''X-Pulse-Timestamp'' then [''0'']
     else if h = ''X-Pulse-Nonce'' then [''n''] else if h = ''X-Pulse-Signature'' then [''AAAA''] else [])\<rparr>"

definition demo_hello :: http_request where
  \<open>demo_hello = demo_signed ''{"type":"hello"}''\<close>

definition demo_server :: server_state where
  "demo_server = New (run store_step demo_ops NewMemory)"

lemma demo_hello_json: \<open>json_Unmarshal ''{"type":"hello"}'' = Some (JvObj [(''type'', ''"hello"'', JvStr ''hello'')])\<close>
  by code_simp

lemma b64_val_A: "b64_val B64Std (CHR ''A'') = Some 0"
  by (simp add: b64_val_def)

lemma demo_b64: "\<exists>pub. b64_std_decode demo_pk = Some pub \<and> length pub = 32" 
  by (simp add: b64_std_decode_def strip_newlines_def HasSuffix_def b64_val_A demo_pk_def Let_def)

lemma demo_b64s: "b64_std_decode ''AAAA'' = Some [0, 0, 0]"
  by (simp add: b64_std_decode_def strip_newlines_def HasSuffix_def b64_val_A Let_def join64_def octet_def)

lemma demo_ParseInt [simp]: "ParseInt10 ''0'' = Some 0"
  by code_simp

lemma demo_verify:
  "verifySignedRequest demo_crypto 0 1 (demo_signed b) body demo_pk path Map.empty = (None, [''n'' \<mapsto> 1])"
  using demo_b64
  by (auto simp: verifySignedRequest_def demo_signed_def header_Get_def demo_b64s absDuration_def time_Sub_def sat64_def
      minDuration_def maxDuration_def time_UnixMilli_def checkAndStore_def demo_crypto_def Let_def)

lemma demo_store_eq:
  "run store_step demo_ops NewMemory = NewMemory\<lparr>m_agents := [''live'' \<mapsto> demo_agent ''live'' demo_pk None],
     m_agentByAID := [''live'' \<mapsto> ''live''], m_enrollments := [''00'' \<mapsto> demo_token]\<rparr>"
  by (simp add: demo_ops_def CreateAgent_def CreateEnrollmentToken_def demo_agent_def demo_token_def NewMemory_def Let_def)

lemma demo_GetAgent: "GetAgentByAgentID ''live'' (run store_step demo_ops NewMemory) = Inr (demo_agent ''live'' demo_pk None)"
  by (simp add: demo_store_eq GetAgentByAgentID_def demo_agent_def)

lemma demo_hello_simps:
  "take (8 * 1024 * 1024) (rq_Body demo_hello) = rq_Body demo_hello"
  \<open>bytes_str (rq_Body demo_hello) = ''{"type":"hello"}''\<close>
  "header_Get demo_hello ''X-Pulse-Agent-Id'' = ''live''"
  "verifySignedRequest demo_crypto 0 1 demo_hello body demo_pk path Map.empty = (None, [''n'' \<mapsto> 1])"
  by (simp_all add: demo_hello_def demo_verify) (simp_all add: demo_signed_def header_Get_def)

lemma demo_ingest: "rs_Status (fst (handleIngest demo_crypto demo_inputs demo_hello demo_server)) = 202"
  unfolding handleIngest_def Let_def demo_hello_simps demo_hello_json
  by (simp add: demo_server_def New_def demo_GetAgent demo_hello_simps demo_agent_def [of _ _ None] demo_inputs_def
      decode_struct_def field_of_def ingestEnvelope_def EqualFold_def get_string_def get_member_def ingest_store_def
      http_simps)


lemma demo_reachable: "store_reachable (ss_store demo_server)"
proof -
  have "run_ok store_ok store_step demo_ops NewMemory"
    by (simp add: demo_ops_def demo_agent_def demo_token_def NewMemory_def CreateAgent_def Let_def)
  then show ?thesis using reachable_run [OF reachable_init] by (simp add: demo_server_def New_def)
qed

theorem ingest_authentic_witness:
  "\<exists>i agent. m_agents (ss_store demo_server) i = Some agent \<and> agt_RevokedAt agent = None \<and> agt_AgentID agent = ''live''"
  using ingest_authentic [OF demo_reachable demo_ingest] by (auto simp: demo_hello_simps)

theorem ingest_keeps_other_tenants_witness:
  "view_of ''other'' (ss_store (snd (handleIngest demo_crypto demo_inputs demo_hello demo_server)))
    = view_of ''other'' (ss_store demo_server)"
proof (rule ingest_keeps_other_tenants [OF demo_reachable])
  show "\<forall>agent. GetAgentByAgentID (header_Get demo_hello ''X-Pulse-Agent-Id'') (ss_store demo_server) = Inr agent \<longrightarrow>
      no_slash (agt_OrgID agent) \<and> agt_OrgID agent \<noteq> ''other''"
    by (simp add: demo_hello_simps demo_server_def New_def demo_GetAgent) (simp add: demo_agent_def no_slash_def)
qed (simp_all add: no_slash_def demo_server_def New_def demo_store_eq, simp add: NewMemory_def)

definition demo_enroll_body :: string where
  \<open>demo_enroll_body = ''{"public_key":"AAAAAAAAAAAAAAAAAAAAAAAAAAAAAAAAAAAAAAAAAAA=","protocol_version":"1.0","enrollment_token":"t"}''\<close>

definition demo_enroll_members :: members where
  \<open>demo_enroll_members = [(''public_key'', ''"AAAAAAAAAAAAAAAAAAAAAAAAAAAAAAAAAAAAAAAAAAA="'', JvStr demo_pk), (''protocol_version'', ''"1.0"'', JvStr ''1.0''),
     (''enrollment_token'', ''"t"'', JvStr ''t'')]\<close>

lemma demo_enroll_json: "json_Unmarshal demo_enroll_body = Some (JvObj demo_enroll_members)"
  by code_simp

lemma demo_enroll_decode:
  "take 8192 (rq_Body (demo_signed demo_enroll_body)) = rq_Body (demo_signed demo_enroll_body)"
  "json_Unmarshal (bytes_str (rq_Body (demo_signed demo_enroll_body))) = Some (JvObj demo_enroll_members)"
  "json_Decode (bytes_str (rq_Body (demo_signed demo_enroll_body))) = Some (JvObj demo_enroll_members)"
  "decode_struct strict enrollRequest (JvObj demo_enroll_members) = Some demo_enroll_members"
  "decode_struct strict reenrollRequest (JvObj demo_enroll_members) = Some demo_enroll_members"
  "get_string ''public_key'' demo_enroll_members = demo_pk"
  "get_string ''protocol_version'' demo_enroll_members = ''1.0''"
  "get_string ''enrollment_token'' demo_enroll_members = ''t''"
proof -
  have "rq_Body (demo_signed demo_enroll_body) = str_bytes demo_enroll_body" by (simp add: demo_signed_def)
  then show "take 8192 (rq_Body (demo_signed demo_enroll_body)) = rq_Body (demo_signed demo_enroll_body)"
    "json_Unmarshal (bytes_str (rq_Body (demo_signed demo_enroll_body))) = Some (JvObj demo_enroll_members)"
    "json_Decode (bytes_str (rq_Body (demo_signed demo_enroll_body))) = Some (JvObj demo_enroll_members)"
    using demo_enroll_json json_Unmarshal_Decode by (simp_all add: demo_enroll_body_def)
qed (simp_all add: decode_struct_def field_of_def enrollRequest_def reenrollRequest_def EqualFold_def get_string_def
    get_member_def demo_enroll_members_def ToLower_def lower_char_def)

theorem enroll_binds_key_to_token_org_witness:
  "\<exists>agent. GetAgentByAgentID (agt_AgentID agent)
      (ss_store (snd (handleEnroll demo_crypto demo_inputs (demo_signed demo_enroll_body) demo_server))) = Inr agent \<and>
    agt_PublicKey agent = demo_pk \<and> agt_OrgID agent = ''o''"
proof -
  have "rs_Status (fst (handleEnroll demo_crypto demo_inputs (demo_signed demo_enroll_body) demo_server)) = 201"
    by (simp add: handleEnroll_def decodeJSON_def demo_enroll_decode supportedProtocols_def demo_server_def New_def demo_store_eq
        ConsumeEnrollmentToken_def demo_token_def demo_inputs_def time_After_def http_simps Let_def demo_pk_def
        split: prod.splits)
  from enroll_binds_key_to_token_org [OF this, of 0] show ?thesis
    by (auto simp: decodeJSON_def demo_enroll_decode demo_server_def New_def demo_store_eq demo_token_def)
qed

theorem reenroll_adopts_only_with_token_witness:
  "\<exists>tok. m_enrollments (ss_store (New (CreateEnrollmentToken demo_token NewMemory))) ''00'' = Some tok \<and> tok_UsedAt tok = None"
proof -
  let ?s = "New (CreateEnrollmentToken demo_token NewMemory)"
  let ?x = "demo_inputs\<lparr>in_agents := []\<rparr>"
  have "rs_Status (fst (handleReenroll demo_crypto ?x (demo_signed demo_enroll_body) ?s)) = 201"
    unfolding handleReenroll_def Let_def demo_enroll_decode
    by (simp add: demo_enroll_decode supportedProtocols_def New_def demo_verify demo_inputs_def reenroll_bind_def
        GetAgentByPublicKey_def range_vals_def List.map_filter_def ConsumeEnrollmentToken_def CreateEnrollmentToken_def
        demo_token_def time_After_def http_simps Let_def demo_pk_def [symmetric] split: prod.splits)
      (simp add: demo_pk_def)
  moreover have "visits (m_agents (ss_store ?s)) (in_agents ?x)"
    by (simp add: visits_def New_def CreateEnrollmentToken_def NewMemory_def)
  ultimately show ?thesis using reenroll_adopts_only_with_token [of demo_crypto ?x "demo_signed demo_enroll_body" ?s]
    by (auto simp: New_def)
qed

theorem reenroll_refuses_revoked_key_witness:
  "rs_Status (fst (handleReenroll demo_crypto demo_inputs (demo_signed demo_enroll_body)
     (New (NewMemory\<lparr>m_agents := [''live'' \<mapsto> demo_agent ''live'' demo_pk (Some 5)]\<rparr>)))) \<in> {400, 401}"
proof (rule reenroll_refuses_revoked_key [where j = "JvObj demo_enroll_members" and req = demo_enroll_members
      and i = "''live''" and a = "demo_agent ''live'' demo_pk (Some 5)", THEN conjunct1])
qed (simp_all add: demo_enroll_decode New_def demo_agent_def visits_def demo_inputs_def)

end
