(* ===== verification/Pulse_Config.thy ===== *)
theory Pulse_Config
  imports Pulse_Prelude
begin

section \<open>Package \<open>config\<close>: configuration from the environment\<close>

text \<open>
  \<^verbatim>\<open>apps/api/internal/config/config.go\<close>. The process environment is the argument
  \<open>getenv\<close>, a function from names to values (empty when unset, as \<open>os.Getenv\<close>).
\<close>

type_synonym environment = "string \<Rightarrow> string"

datatype tenancy = SingleTenant | MultiTenant

record oidc_provider =
  op_Name :: string
  op_Display :: string
  op_Issuer :: string
  op_ClientID :: string
  op_ClientSecret :: string
  op_Scopes :: "string list"

record config =
  cfg_Addr :: string
  cfg_Mode :: string
  cfg_Tenancy :: tenancy
  cfg_DatabaseURL :: string
  cfg_MetricsURL :: string
  cfg_SessionSecret :: string
  cfg_JWTSigningKey :: string
  cfg_CORSOrigins :: "string list"
  cfg_RateLimitRPS :: int
  cfg_Env :: string
  cfg_EnableConfigMutation :: bool
  cfg_EnableAutoTLS :: bool
  cfg_EnableRemoteActions :: bool
  cfg_EnableAutoUpdate :: bool
  cfg_EnableSSHConsole :: bool
  cfg_EnableSetupWizard :: bool
  cfg_PublicURL :: string
  cfg_OIDC :: "oidc_provider list"

definition env :: "environment \<Rightarrow> string \<Rightarrow> string \<Rightarrow> string" where
  "env getenv k def = (let v = TrimSpace (getenv k) in if v \<noteq> [] then v else def)"

definition boolEnv :: "environment \<Rightarrow> string \<Rightarrow> bool \<Rightarrow> bool" where
  "boolEnv getenv k def =
     (let v = ToLower (env getenv k []) in
      if v \<in> {''1'', ''true'', ''yes'', ''on''} then True
      else if v \<in> {''0'', ''false'', ''no'', ''off''} then False
      else def)"

text \<open>The replacer of \<open>resolveMode\<close>: hyphens and spaces become underscores.\<close>

definition underscored :: "string \<Rightarrow> string" where
  "underscored s = map (\<lambda>c. if c = CHR ''-'' \<or> c = CHR '' '' then CHR ''_'' else c) s"

definition resolveMode :: "environment \<Rightarrow> string" where
  "resolveMode getenv =
     (let m = ToLower (env getenv ''PULSE_MODE'' []) in
      if m \<noteq> [] then m
      else
        let appMode = underscored (ToLower (env getenv ''APP_MODE'' [])) in
        if appMode = ''self_hosted'' \<or> appMode = ''selfhosted'' \<or> boolEnv getenv ''IS_SELF_HOSTED'' False
        then ''local''
        else if appMode = ''cloud'' then ''cloud'' else ''local'')"

definition splitCSV :: "string \<Rightarrow> string list" where
  "splitCSV s = (if s = [] then [] else filter (\<lambda>t. t \<noteq> []) (map TrimSpace (Split s (CHR '',''))))"

definition TrimRightSlash :: "string \<Rightarrow> string" where
  "TrimRightSlash s = rev (dropWhile (\<lambda>c. c = CHR ''/'') (rev s))"

definition load_PublicURL :: "environment \<Rightarrow> string" where
  "load_PublicURL getenv =
     (let u = TrimRightSlash (env getenv ''PULSE_PUBLIC_URL'' []) in
      if u = [] then
        (let d = env getenv ''DASHBOARD_DOMAIN'' [] in if d \<noteq> [] then ''https://'' @ d else u)
      else u)"

definition load_OIDC :: "environment \<Rightarrow> oidc_provider list" where
  "load_OIDC getenv =
     (let gid = env getenv ''GOOGLE_CLIENT_ID'' []; tid = env getenv ''TELEGRAM_CLIENT_ID'' [] in
      (if gid \<noteq> [] then
         [\<lparr>op_Name = ''google'', op_Display = ''Google'', op_Issuer = ''https://accounts.google.com'',
           op_ClientID = gid, op_ClientSecret = env getenv ''GOOGLE_CLIENT_SECRET'' [],
           op_Scopes = [''openid'', ''email'', ''profile'']\<rparr>]
       else []) @
      (if tid \<noteq> [] then
         [\<lparr>op_Name = ''telegram'', op_Display = ''Telegram'',
           op_Issuer = env getenv ''TELEGRAM_ISSUER'' ''https://oauth.telegram.org'',
           op_ClientID = tid, op_ClientSecret = env getenv ''TELEGRAM_CLIENT_SECRET'' [],
           op_Scopes = splitCSV (env getenv ''TELEGRAM_SCOPES'' ''openid'')\<rparr>]
       else []))"

definition Load :: "environment \<Rightarrow> config" where
  "Load getenv =
     (let mode = resolveMode getenv in
      \<lparr>cfg_Addr = env getenv ''PULSE_API_ADDR'' '':8080'',
       cfg_Mode = mode,
       cfg_Tenancy = (if mode = ''cloud'' then MultiTenant else SingleTenant),
       cfg_DatabaseURL = env getenv ''DATABASE_URL'' [],
       cfg_MetricsURL = env getenv ''METRICS_URL'' ''http://pulse-prometheus:9090'',
       cfg_SessionSecret = env getenv ''PULSE_SESSION_SECRET'' [],
       cfg_JWTSigningKey = env getenv ''PULSE_JWT_SIGNING_KEY'' [],
       cfg_CORSOrigins = splitCSV (env getenv ''PULSE_CORS_ORIGINS'' []),
       cfg_RateLimitRPS = 10,
       cfg_Env = env getenv ''PULSE_ENV'' ''development'',
       cfg_EnableConfigMutation = boolEnv getenv ''ENABLE_CONFIG_MUTATION'' False,
       cfg_EnableAutoTLS = boolEnv getenv ''ENABLE_AUTO_TLS'' False,
       cfg_EnableRemoteActions = boolEnv getenv ''ENABLE_REMOTE_ACTIONS'' False,
       cfg_EnableAutoUpdate = boolEnv getenv ''ENABLE_AUTO_UPDATE'' False,
       cfg_EnableSSHConsole = boolEnv getenv ''PULSE_SSH_CONSOLE'' True,
       cfg_EnableSetupWizard = boolEnv getenv ''PULSE_SETUP_WIZARD'' True,
       cfg_PublicURL = load_PublicURL getenv,
       cfg_OIDC = load_OIDC getenv\<rparr>)"

definition SelfHosted :: "config \<Rightarrow> bool" where
  "SelfHosted c \<longleftrightarrow> cfg_Mode c \<noteq> ''cloud''"

definition OIDCProviderByName :: "string \<Rightarrow> config \<Rightarrow> oidc_provider option" where
  "OIDCProviderByName name c = find (\<lambda>p. op_Name p = name) (cfg_OIDC c)"

subsection \<open>Properties\<close>

lemma ToLower_Nil [simp]: "ToLower [] = []"
  by simp

lemma boolEnv_False: "boolEnv getenv k False \<longleftrightarrow> ToLower (TrimSpace (getenv k)) \<in> {''1'', ''true'', ''yes'', ''on''}"
  by (auto simp: boolEnv_def env_def Let_def)

lemma boolEnv_True: "\<not> boolEnv getenv k True \<longleftrightarrow> ToLower (TrimSpace (getenv k)) \<in> {''0'', ''false'', ''no'', ''off''}"
  by (auto simp: boolEnv_def env_def Let_def)

lemma splitCSV_entries: "t \<in> set (splitCSV s) \<Longrightarrow> t \<noteq> [] \<and> TrimSpace t = t"
  by (auto simp: splitCSV_def split: if_splits)

lemma TrimRightSlash_no_slash: "\<not> HasSuffix (TrimRightSlash s) ''/''"
proof
  assume "HasSuffix (TrimRightSlash s) ''/''"
  then obtain t where "TrimRightSlash s = t @ ''/''" by (auto simp: HasSuffix_iff)
  then have "dropWhile (\<lambda>c. c = CHR ''/'') (rev s) = CHR ''/'' # rev t"
    by (simp add: TrimRightSlash_def rev_swap)
  then show False using hd_dropWhile [of "\<lambda>c. c = CHR ''/''" "rev s"] by simp
qed

lemma load_OIDC_names: "map op_Name (load_OIDC getenv) \<in> {[], [''google''], [''telegram''], [''google'', ''telegram'']}"
  by (auto simp: load_OIDC_def Let_def)

lemma find_by_name: "distinct (map f ps) \<Longrightarrow> p \<in> set ps \<Longrightarrow> find (\<lambda>q. f q = f p) ps = Some p"
  by (induction ps) auto

text \<open>Safe defaults. Whatever the environment holds, the mutating features are on only when their
  variable is set to one of the four affirmative words; the console and the setup wizard are off
  only when theirs is set to a negative word; the tenancy is multi-tenant exactly on Pulse Cloud;
  every CORS origin and scope is a non-empty trimmed entry; and each configured identity provider
  has a client id and is found under its own name.\<close>

theorem Load_safe:
  "(cfg_EnableConfigMutation (Load e) \<longleftrightarrow> ToLower (TrimSpace (e ''ENABLE_CONFIG_MUTATION'')) \<in> {''1'', ''true'', ''yes'', ''on''}) \<and>
   (cfg_EnableAutoTLS (Load e) \<longleftrightarrow> ToLower (TrimSpace (e ''ENABLE_AUTO_TLS'')) \<in> {''1'', ''true'', ''yes'', ''on''}) \<and>
   (cfg_EnableRemoteActions (Load e) \<longleftrightarrow> ToLower (TrimSpace (e ''ENABLE_REMOTE_ACTIONS'')) \<in> {''1'', ''true'', ''yes'', ''on''}) \<and>
   (cfg_EnableAutoUpdate (Load e) \<longleftrightarrow> ToLower (TrimSpace (e ''ENABLE_AUTO_UPDATE'')) \<in> {''1'', ''true'', ''yes'', ''on''}) \<and>
   (\<not> cfg_EnableSSHConsole (Load e) \<longleftrightarrow> ToLower (TrimSpace (e ''PULSE_SSH_CONSOLE'')) \<in> {''0'', ''false'', ''no'', ''off''}) \<and>
   (\<not> cfg_EnableSetupWizard (Load e) \<longleftrightarrow> ToLower (TrimSpace (e ''PULSE_SETUP_WIZARD'')) \<in> {''0'', ''false'', ''no'', ''off''}) \<and>
   (cfg_Tenancy (Load e) = MultiTenant \<longleftrightarrow> \<not> SelfHosted (Load e)) \<and>
   (\<forall>o1 \<in> set (cfg_CORSOrigins (Load e)). o1 \<noteq> [] \<and> TrimSpace o1 = o1) \<and>
   (\<forall>p \<in> set (cfg_OIDC (Load e)). op_ClientID p \<noteq> [] \<and> OIDCProviderByName (op_Name p) (Load e) = Some p)"
proof -
  have d: "distinct (map op_Name (load_OIDC e))" using load_OIDC_names [of e] by auto
  have "op_ClientID p \<noteq> []" if "p \<in> set (load_OIDC e)" for p
    using that by (auto simp: load_OIDC_def Let_def split: if_splits)
  moreover have "find (\<lambda>q. op_Name q = op_Name p) (load_OIDC e) = Some p" if "p \<in> set (load_OIDC e)" for p
    using that by (rule find_by_name [OF d])
  ultimately show ?thesis
    by (simp add: Load_def Let_def boolEnv_False boolEnv_True SelfHosted_def OIDCProviderByName_def splitCSV_entries)
qed

definition demo_env :: environment where
  "demo_env k = (if k = ''ENABLE_AUTO_TLS'' then '' Yes '' else if k = ''APP_MODE'' then ''Cloud''
     else if k = ''GOOGLE_CLIENT_ID'' then ''gid'' else if k = ''PULSE_CORS_ORIGINS'' then ''a, ,b'' else [])"

theorem Load_safe_witness:
  "cfg_EnableAutoTLS (Load demo_env) \<and> \<not> cfg_EnableRemoteActions (Load demo_env)"
proof -
  have "ToLower (TrimSpace (demo_env ''ENABLE_AUTO_TLS'')) = ''yes''" "TrimSpace (demo_env ''ENABLE_REMOTE_ACTIONS'') = []"
    by code_simp+
  then show ?thesis using Load_safe [of demo_env] by simp
qed

text \<open>The mode is \<open>cloud\<close> exactly when \<open>PULSE_MODE\<close> says so or, that being unset, when
  \<open>APP_MODE\<close> does and \<open>IS_SELF_HOSTED\<close> does not contradict it.\<close>

lemma cloud_mode:
  "\<not> SelfHosted (Load e) \<longleftrightarrow>
     ToLower (TrimSpace (e ''PULSE_MODE'')) = ''cloud'' \<or>
     (TrimSpace (e ''PULSE_MODE'') = [] \<and> underscored (ToLower (TrimSpace (e ''APP_MODE''))) = ''cloud'' \<and>
      \<not> boolEnv e ''IS_SELF_HOSTED'' False)"
proof -
  have "env e k [] = TrimSpace (e k)" for k by (simp add: env_def Let_def)
  then show ?thesis by (auto simp: SelfHosted_def Load_def resolveMode_def Let_def)
qed

end
