(* ===== verification/Pulse_Accounts.thy ===== *)
theory Pulse_Accounts
  imports Pulse_Http Pulse_Store_Props Pulse_Config
begin

section \<open>Accounts: login, first-boot setup, credential changes\<close>

text \<open>
  \<^verbatim>\<open>apps/api/internal/httpx\<close>: \<^verbatim>\<open>handlers_auth.go\<close>,
  \<^verbatim>\<open>handlers_setup.go\<close>, \<^verbatim>\<open>handlers_account.go\<close>. Clock readings and random draws
  are numbered in the order the handler makes them. The server configuration \<open>cfg\<close> is an
  argument. Requests to the setup endpoint are serialised by its mutex, so the handler is one
  step.
\<close>

definition with_cookie :: "string \<Rightarrow> http_response \<Rightarrow> http_response" where
  "with_cookie v rsp = rsp\<lparr>rs_Cookie := Some v\<rparr>"

definition clearSessionCookie :: "http_response \<Rightarrow> http_response" where
  "clearSessionCookie rsp = rsp\<lparr>rs_Cookie := Some []\<rparr>"

subsection \<open>Login, logout, session\<close>

definition loginRequest :: "(string \<times> field_type) list" where
  "loginRequest = [(''email'', FString), (''password'', FString)]"

definition handleLogin :: "crypto \<Rightarrow> inputs \<Rightarrow> handler" where
  "handleLogin c x r s =
     (case decodeJSON r loginRequest 4096 of
        None \<Rightarrow> (Fail 400 CodeValidation ''invalid request body'', s)
      | Some req \<Rightarrow>
          let email = ToLower (TrimSpace (get_string ''email'' req));
              password = get_string ''password'' req
          in if email = [] \<or> password = []
             then (Fail 400 CodeValidation ''email and password are required'', s)
             else
               let refuse = (Fail 401 CodeAuth ''invalid credentials'',
                             Record x 0 [] email ''auth.login'' ''failure'' (clientIP r) [] s)
               in case FindLoginByEmail email (ss_store s) of
                    Inr (Some user, Some mem) \<Rightarrow>
                      if \<not> VerifyPassword (c_hmac c) password (usr_PasswordHash user) then refuse
                      else (case issueSession c x 0 (mem_OrgID mem) (usr_ID user) s of
                          (None, s1) \<Rightarrow> (Fail 500 CodeInternal ''could not create session'', s1)
                        | (Some cookie, s1) \<Rightarrow>
                            (with_cookie cookie (JSON 200 (sessionPayload (usr_Email user) (mem_Role mem) True)),
                             Record x 2 (mem_OrgID mem) (usr_Email user) ''auth.login'' ''success'' (clientIP r) [] s1))
                  | _ \<Rightarrow> refuse)"

definition handleLogout :: "crypto \<Rightarrow> handler" where
  "handleLogout c r s =
     (clearSessionCookie (JSON 200 [(''status'', JStr ''logged_out'')]),
      (case rq_Cookie r of
         None \<Rightarrow> s
       | Some v \<Rightarrow> s\<lparr>ss_store := DeleteSession (HashToken (c_sha256 c) v) (ss_store s)\<rparr>))"

definition handleSession :: "principal option \<Rightarrow> handler" where
  "handleSession pr r s =
     (case pr of
        None \<Rightarrow> (Fail 401 CodeAuth ''not authenticated'', s)
      | Some p \<Rightarrow> (JSON 200 (sessionPayload (p_Email p) (p_Role p) (p_HasPassword p)), s))"

subsection \<open>First-boot setup\<close>

definition needsSetup :: "config \<Rightarrow> memory \<Rightarrow> bool" where
  "needsSetup cfg m \<longleftrightarrow> cfg_EnableSetupWizard cfg \<and> SelfHosted cfg \<and> CountUsers m = 0"

definition handleSetupStatus :: "config \<Rightarrow> handler" where
  "handleSetupStatus cfg r s =
     (JSON 200 [(''needs_setup'', JBool (needsSetup cfg (ss_store s))), (''mode'', JStr (cfg_Mode cfg)),
                (''self_hosted'', JBool (SelfHosted cfg)), (''min_password_length'', JInt (int MinPasswordLength))], s)"

definition setupRequest :: "(string \<times> field_type) list" where
  "setupRequest = [(''email'', FString), (''password'', FString)]"

definition handleSetupComplete :: "config \<Rightarrow> crypto \<Rightarrow> inputs \<Rightarrow> handler" where
  "handleSetupComplete cfg c x r s =
     (case decodeJSON r setupRequest 4096 of
        None \<Rightarrow> (Fail 400 CodeValidation ''invalid request body'', s)
      | Some req \<Rightarrow>
          if \<not> needsSetup cfg (ss_store s)
          then (Fail 409 CodeValidation ''this deployment is already provisioned'', s)
          else
            let email = NormalizeEmail (get_string ''email'' req); password = get_string ''password'' req in
            (case ValidateEmail email of
               Some err \<Rightarrow> (Fail 400 CodeValidation err, s)
             | None \<Rightarrow>
                 (case ValidatePasswordPolicy password email of
                    Some err \<Rightarrow> (Fail 400 CodeValidation err, s)
                  | None \<Rightarrow>
                      (case HashPassword (c_hmac c) password (in_rnd x 0) of
                         Inl _ \<Rightarrow> (Fail 400 CodeValidation ''password is not acceptable'', s)
                       | Inr hash \<Rightarrow>
                           (case SeedOrgOwner ''Default'' email hash (id_rnd x 1) (id_rnd x 2) (in_time x 0) (ss_store s) of
                              (Inl ErrAlreadyExists, m) \<Rightarrow>
                                (Fail 409 CodeValidation ''this deployment is already provisioned'', s\<lparr>ss_store := m\<rparr>)
                            | (Inl _, m) \<Rightarrow>
                                (Fail 500 CodeInternal ''could not create the administrator account'', s\<lparr>ss_store := m\<rparr>)
                            | (Inr (org, user), m) \<Rightarrow>
                                let s1 = s\<lparr>ss_store := m\<rparr>;
                                    done = (\<lambda>s. Record x 5 (org_ID org) email ''setup.complete'' ''success'' (clientIP r) [] s)
                                in (case issueSession c x 3 (org_ID org) (usr_ID user) s1 of
                                    (None, s2) \<Rightarrow>
                                      (Fail 500 CodeInternal
                                         (''account created, but the session could not be started '' @ [CHR 0xE2, CHR 0x80, CHR 0x94] @
                                          '' please sign in''), done s2)
                                  | (Some cookie, s2) \<Rightarrow>
                                      (with_cookie cookie (JSON 201 (sessionPayload email RoleOwner True)), done s2)))))))"

subsection \<open>Credential changes\<close>

text \<open>\<open>verifyCurrentPassword\<close>: \<open>None\<close> when the password is right, else the refusal's status
  and message.\<close>

definition verifyCurrentPassword :: "crypto \<Rightarrow> principal \<Rightarrow> string \<Rightarrow> memory \<Rightarrow> (nat \<times> string) option" where
  "verifyCurrentPassword c p current m =
     (case GetUser (p_OrgID p) (p_UserID p) m of
        Inl _ \<Rightarrow> Some (401, ''account not found'')
      | Inr user \<Rightarrow>
          if usr_PasswordHash user = []
          then Some (409, ''this account signs in with an identity provider and has no password'')
          else if \<not> VerifyPassword (c_hmac c) current (usr_PasswordHash user)
          then Some (401, ''current password is incorrect'')
          else None)"

definition changeEmailRequest :: "(string \<times> field_type) list" where
  "changeEmailRequest = [(''current_password'', FString), (''email'', FString)]"

definition handleChangeEmail :: "crypto \<Rightarrow> inputs \<Rightarrow> principal \<Rightarrow> handler" where
  "handleChangeEmail c x p r s =
     (case decodeJSON r changeEmailRequest 4096 of
        None \<Rightarrow> (Fail 400 CodeValidation ''invalid request body'', s)
      | Some req \<Rightarrow>
          let email = NormalizeEmail (get_string ''email'' req) in
          (case ValidateEmail email of
             Some err \<Rightarrow> (Fail 400 CodeValidation err, s)
           | None \<Rightarrow>
               (case verifyCurrentPassword c p (get_string ''current_password'' req) (ss_store s) of
                  Some (status, msg) \<Rightarrow>
                    (Fail status CodeAuth msg,
                     Record x 0 (p_OrgID p) (p_Email p) ''account.email_change'' ''failure'' (clientIP r) [] s)
                | None \<Rightarrow>
                    (case UpdateUserEmail (p_OrgID p) (p_UserID p) email (ss_store s) of
                       (Inl ErrAlreadyExists, m) \<Rightarrow>
                         (Fail 409 CodeValidation ''that email is already in use'', s\<lparr>ss_store := m\<rparr>)
                     | (Inl _, m) \<Rightarrow>
                         (Fail 500 CodeInternal ''could not update the email address'', s\<lparr>ss_store := m\<rparr>)
                     | (Inr _, m) \<Rightarrow>
                         (JSON 200 (sessionPayload email (p_Role p) True),
                          Record x 0 (p_OrgID p) (p_Email p) ''account.email_change'' ''success'' (clientIP r)
                            [(''new_email'', email)] (s\<lparr>ss_store := m\<rparr>))))))"

definition changePasswordRequest :: "(string \<times> field_type) list" where
  "changePasswordRequest = [(''current_password'', FString), (''new_password'', FString)]"

definition handleChangePassword :: "crypto \<Rightarrow> inputs \<Rightarrow> principal \<Rightarrow> handler" where
  "handleChangePassword c x p r s =
     (case decodeJSON r changePasswordRequest 4096 of
        None \<Rightarrow> (Fail 400 CodeValidation ''invalid request body'', s)
      | Some req \<Rightarrow>
          let new = get_string ''new_password'' req; current = get_string ''current_password'' req in
          (case ValidatePasswordPolicy new (p_Email p) of
             Some err \<Rightarrow> (Fail 400 CodeValidation err, s)
           | None \<Rightarrow>
               if new = current
               then (Fail 400 CodeValidation ''the new password must differ from the current one'', s)
               else (case verifyCurrentPassword c p current (ss_store s) of
                   Some (status, msg) \<Rightarrow>
                     (Fail status CodeAuth msg,
                      Record x 0 (p_OrgID p) (p_Email p) ''account.password_change'' ''failure'' (clientIP r) [] s)
                 | None \<Rightarrow>
                     (case HashPassword (c_hmac c) new (in_rnd x 0) of
                        Inl _ \<Rightarrow> (Fail 400 CodeValidation ''password is not acceptable'', s)
                      | Inr hash \<Rightarrow>
                          (case UpdateUserPassword (p_OrgID p) (p_UserID p) hash (ss_store s) of
                             (Inl _, m) \<Rightarrow> (Fail 500 CodeInternal ''could not update the password'', s\<lparr>ss_store := m\<rparr>)
                           | (Inr _, m) \<Rightarrow>
                               let s1 = s\<lparr>ss_store := DeleteSessionsForUser (p_UserID p) m\<rparr>;
                                   done = (\<lambda>s. Record x 3 (p_OrgID p) (p_Email p) ''account.password_change'' ''success''
                                                 (clientIP r) [] s)
                               in (case issueSession c x 1 (p_OrgID p) (p_UserID p) s1 of
                                   (None, s2) \<Rightarrow>
                                     (clearSessionCookie (Fail 401 CodeAuth
                                        (''password updated '' @ [CHR 0xE2, CHR 0x80, CHR 0x94] @ '' please sign in again'')), done s2)
                                 | (Some cookie, s2) \<Rightarrow>
                                     (with_cookie cookie (JSON 200 (sessionPayload (p_Email p) (p_Role p) True)), done s2)))))))"

subsection \<open>Account identifiers\<close>

text \<open>Accounts are stored under their own identifier and there are finitely many of them.\<close>

definition ids_ok :: "memory \<Rightarrow> bool" where
  "ids_ok m \<longleftrightarrow> (\<forall>uid u. m_users m uid = Some u \<longrightarrow> usr_ID u = uid) \<and> finite (dom (m_users m))"

lemma step_ids_ok: "ids_ok m \<Longrightarrow> ids_ok (store_step a m)"
proof (cases "account_op a")
  case False
  then show "ids_ok m \<Longrightarrow> ids_ok (store_step a m)"
    using step_same_accounts [of a m] by (simp add: same_accounts_def ids_ok_def)
next
  case True
  assume "ids_ok m"
  with True show "ids_ok (store_step a m)"
    by (cases a; simp add: SeedOrgOwner_def UpsertOIDCUser_def UpdateUserEmail_def UpdateUserPassword_def Let_def
        split: option.splits)
      (auto simp: ids_ok_def)
qed

interpretation accounts: invariant_of store_step store_ok NewMemory ids_ok
proof
  show "ids_ok NewMemory" by (simp add: ids_ok_def NewMemory_def)
qed (rule step_ids_ok)

lemma CountUsers_0: "ids_ok m \<Longrightarrow> CountUsers m = 0 \<longleftrightarrow> m_users m = Map.empty"
  by (simp add: CountUsers_def ids_ok_def)

lemma issueSession_Some:
  assumes "issueSession c x i o1 u s = (Some cookie, s')"
  shows "cookie \<noteq> [] \<and> s' = s\<lparr>ss_store := CreateSession ((newSession x (i + 1) o1 u sessionTTL)
      \<lparr>ses_ID := HashToken (c_sha256 c) cookie\<rparr>) (ss_store s)\<rparr>"
  using assms by (auto simp: issueSession_def GenerateToken_def Let_def split: option.splits)

lemma newSession_simps [simp]:
  "ses_UserID (newSession x i o1 u ttl) = u" "ses_OrgID (newSession x i o1 u ttl) = o1"
  "ses_ExpiresAt (newSession x i o1 u ttl) = in_time x i + ttl"
  by (simp_all add: newSession_def)

lemma Record_store:
  "m_users (ss_store (Record x i a b c d e f s)) = m_users (ss_store s)"
  "m_memberships (ss_store (Record x i a b c d e f s)) = m_memberships (ss_store s)"
  "m_sessions (ss_store (Record x i a b c d e f s)) = m_sessions (ss_store s)"
  "m_usersByMail (ss_store (Record x i a b c d e f s)) = m_usersByMail (ss_store s)"
  by (simp_all add: Record_def AppendAudit_def Let_def)

text \<open>A cookie issued in \<open>m\<close> authenticates its user until it expires, whatever happens to the
  audit log afterwards.\<close>

lemma issued_cookie_authenticates:
  assumes "issueSession c x i o1 u s = (Some cookie, s')"
    and "m_users (ss_store s) u = Some user" and "usr_ID user = u"
    and "m_memberships (ss_store s) u = Some mem" and "mem_OrgID mem = o1"
    and "rq_Cookie r = Some cookie" and "now \<le> in_time x (i + 1) + sessionTTL"
  shows "Authenticate c now r (ss_store (Record x j a b d e f g s')) =
    Some \<lparr>p_UserID = u, p_OrgID = o1, p_Email = usr_Email user, p_Role = roleOf (Some mem),
      p_HasPassword = (usr_PasswordHash user \<noteq> [])\<rparr>"
  using issueSession_Some [OF assms(1)] assms(2-)
  by (simp add: Authenticate_def GetSession_def GetUser_def GetMembership_def Record_store CreateSession_def time_After_def)

lemma login_status:
  "rs_Status (fst (handleLogin c x r s)) = 200 \<longleftrightarrow>
      (\<exists>req user mem. decodeJSON r loginRequest 4096 = Some req \<and> get_string ''password'' req \<noteq> [] \<and>
         TrimSpace (get_string ''email'' req) \<noteq> [] \<and>
         FindLoginByEmail (ToLower (TrimSpace (get_string ''email'' req))) (ss_store s) = Inr (Some user, Some mem) \<and>
         VerifyPassword (c_hmac c) (get_string ''password'' req) (usr_PasswordHash user) \<and> in_rnd x 0 \<noteq> None)"
  by (auto simp: handleLogin_def http_simps Let_def with_cookie_def issueSession_def GenerateToken_def
      split: option.splits sum.splits prod.splits if_splits)

lemma login_refused:
  assumes "handleLogin c x r s = (rsp, s')" and "rs_Status rsp \<noteq> 200"
  shows "m_sessions (ss_store s') = m_sessions (ss_store s) \<and> m_users (ss_store s') = m_users (ss_store s)"
  using assms
  by (auto simp: handleLogin_def http_simps Let_def with_cookie_def issueSession_def Record_store
      split: option.splits sum.splits prod.splits if_splits)


subsection \<open>The setup wizard closes for good\<close>

lemma users_kept: "m_users m uid \<noteq> None \<Longrightarrow> m_users (store_step a m) uid \<noteq> None"
proof (cases "account_op a")
  case False
  then show "m_users m uid \<noteq> None \<Longrightarrow> m_users (store_step a m) uid \<noteq> None"
    using step_same_accounts [of a m] by (simp add: same_accounts_def)
next
  case True
  assume "m_users m uid \<noteq> None"
  with True show "m_users (store_step a m) uid \<noteq> None"
    by (cases a) (auto simp: SeedOrgOwner_def UpsertOIDCUser_def UpdateUserEmail_def UpdateUserPassword_def Let_def
        split: option.splits)
qed

lemma users_kept_run: "m_users m uid \<noteq> None \<Longrightarrow> m_users (run store_step ops m) uid \<noteq> None"
  by (induction ops arbitrary: m) (use users_kept in auto)

lemma setup_closed: "ids_ok m \<Longrightarrow> m_users m uid \<noteq> None \<Longrightarrow> \<not> needsSetup cfg m"
  by (auto simp: needsSetup_def CountUsers_0)

text \<open>The wizard runs once. Setup answers 201 only on a self-hosted deployment without accounts, and then it
  creates one owner in a new organisation. Once an account exists, then after any further
  operations of the store the endpoint answers 400 or 409 and changes nothing.\<close>

theorem setup_only_before_first_account:
  assumes "store_reachable m"
  shows "(rs_Status (fst (handleSetupComplete cfg c x r (s\<lparr>ss_store := m\<rparr>))) = 201 \<longrightarrow>
      m_users m = Map.empty \<and> SelfHosted cfg \<and> cfg_EnableSetupWizard cfg \<and>
      (\<exists>u o1. m_users (ss_store (snd (handleSetupComplete cfg c x r (s\<lparr>ss_store := m\<rparr>)))) = [usr_ID u \<mapsto> u] \<and>
         m_memberships (ss_store (snd (handleSetupComplete cfg c x r (s\<lparr>ss_store := m\<rparr>)))) (usr_ID u) =
           Some \<lparr>mem_OrgID = o1, mem_UserID = usr_ID u, mem_Role = RoleOwner\<rparr>)) \<and>
    (m_users m \<noteq> Map.empty \<and> run_ok store_ok store_step ops m \<longrightarrow>
      (let s1 = s\<lparr>ss_store := run store_step ops m\<rparr> in
       rs_Status (fst (handleSetupComplete cfg c x r s1)) \<in> {400, 409} \<and> snd (handleSetupComplete cfg c x r s1) = s1))"
proof (intro conjI impI)
  assume 1: "rs_Status (fst (handleSetupComplete cfg c x r (s\<lparr>ss_store := m\<rparr>))) = 201"
  have n: "needsSetup cfg m"
    using 1 by (auto simp: handleSetupComplete_def http_simps split: option.splits if_splits)
  then have e: "m_users m = Map.empty" using CountUsers_0 [OF accounts.inv_reachable [OF assms]] by (simp add: needsSetup_def)
  show "m_users m = Map.empty" by (rule e)
  show "SelfHosted cfg" "cfg_EnableSetupWizard cfg" using n by (simp_all add: needsSetup_def)
  show "\<exists>u o1. m_users (ss_store (snd (handleSetupComplete cfg c x r (s\<lparr>ss_store := m\<rparr>)))) = [usr_ID u \<mapsto> u] \<and>
         m_memberships (ss_store (snd (handleSetupComplete cfg c x r (s\<lparr>ss_store := m\<rparr>)))) (usr_ID u) =
           Some \<lparr>mem_OrgID = o1, mem_UserID = usr_ID u, mem_Role = RoleOwner\<rparr>"
    using 1 e n
    by (auto simp: handleSetupComplete_def http_simps Let_def with_cookie_def SeedOrgOwner_def Record_store
        issueSession_def CreateSession_def split: option.splits sum.splits prod.splits if_splits store_error.splits)
next
  assume "m_users m \<noteq> Map.empty \<and> run_ok store_ok store_step ops m"
  moreover from this obtain uid where "m_users (run store_step ops m) uid \<noteq> None"
    using users_kept_run by (metis ext)
  ultimately have "\<not> needsSetup cfg (run store_step ops m)"
    using setup_closed accounts.inv_run [OF accounts.inv_reachable [OF assms]] by blast
  then show "let s1 = s\<lparr>ss_store := run store_step ops m\<rparr> in
      rs_Status (fst (handleSetupComplete cfg c x r s1)) \<in> {400, 409} \<and> snd (handleSetupComplete cfg c x r s1) = s1"
    by (auto simp: handleSetupComplete_def http_simps Let_def split: option.splits)
qed

subsection \<open>Credential changes\<close>

lemma verifyCurrentPassword_refusal: "verifyCurrentPassword c p pw m = Some (st, msg) \<Longrightarrow> st \<in> {401, 409}"
  by (auto simp: verifyCurrentPassword_def split: sum.splits if_splits)

lemma verifyCurrentPassword_ok:
  assumes "verifyCurrentPassword c p pw m = None"
  obtains u mem where "m_users m (p_UserID p) = Some u" and "m_memberships m (p_UserID p) = Some mem"
    and "mem_OrgID mem = p_OrgID p" and "VerifyPassword (c_hmac c) pw (usr_PasswordHash u)"
  using assms by (auto simp: verifyCurrentPassword_def GetUser_def split: sum.splits if_splits option.splits)

lemma changePassword_ok:
  assumes "handleChangePassword c x p r s = (rsp, s')" and "rs_Status rsp = 200"
  obtains req hash m cookie s2 where "decodeJSON r changePasswordRequest 4096 = Some req"
    and "verifyCurrentPassword c p (get_string ''current_password'' req) (ss_store s) = None"
    and "HashPassword (c_hmac c) (get_string ''new_password'' req) (in_rnd x 0) = Inr hash"
    and "UpdateUserPassword (p_OrgID p) (p_UserID p) hash (ss_store s) = (Inr (), m)"
    and "issueSession c x 1 (p_OrgID p) (p_UserID p) (s\<lparr>ss_store := DeleteSessionsForUser (p_UserID p) m\<rparr>) = (Some cookie, s2)"
    and "rs_Cookie rsp = Some cookie"
    and "s' = Record x 3 (p_OrgID p) (p_Email p) ''account.password_change'' ''success'' (clientIP r) [] s2"
    and "ValidatePasswordPolicy (get_string ''new_password'' req) (p_Email p) = None"
  using assms
  by (auto simp: handleChangePassword_def http_simps Let_def with_cookie_def clearSessionCookie_def
      split: option.splits sum.splits prod.splits if_splits dest: verifyCurrentPassword_refusal)

text \<open>C13: a password change rotates the sessions. When it answers 200, the current password was right, the
  stored hash now verifies the new one (an HMAC value has 32 bytes), every session the user held
  is dead, no other user's session changed, and the new cookie authenticates the user.\<close>

theorem password_change_rotates_sessions:
  assumes "store_reachable (ss_store s)" and "\<And>k d. length (c_hmac c k d) = hLen"
    and "handleChangePassword c x p r s = (rsp, s')" and "rs_Status rsp = 200"
  shows "\<exists>req cookie u u' mem. decodeJSON r changePasswordRequest 4096 = Some req \<and> rs_Cookie rsp = Some cookie \<and>
    m_users (ss_store s) (p_UserID p) = Some u \<and>
    VerifyPassword (c_hmac c) (get_string ''current_password'' req) (usr_PasswordHash u) \<and>
    m_users (ss_store s') (p_UserID p) = Some u' \<and>
    VerifyPassword (c_hmac c) (get_string ''new_password'' req) (usr_PasswordHash u') \<and>
    (\<forall>i sess now. m_sessions (ss_store s) i = Some sess \<and> i \<noteq> HashToken (c_sha256 c) cookie \<longrightarrow>
       GetSession i now (ss_store s') =
         (if ses_UserID sess = p_UserID p then Inl ErrNotFound else GetSession i now (ss_store s))) \<and>
    (\<forall>r2 now. rq_Cookie r2 = Some cookie \<and> now \<le> in_time x 2 + sessionTTL \<longrightarrow>
       Authenticate c now r2 (ss_store s') = Some \<lparr>p_UserID = p_UserID p, p_OrgID = p_OrgID p, p_Email = usr_Email u,
         p_Role = roleOf (Some mem), p_HasPassword = True\<rparr>)"
proof -
  from assms(3,4) obtain req hash m cookie s2 where req: "decodeJSON r changePasswordRequest 4096 = Some req"
    and v: "verifyCurrentPassword c p (get_string ''current_password'' req) (ss_store s) = None"
    and h: "HashPassword (c_hmac c) (get_string ''new_password'' req) (in_rnd x 0) = Inr hash"
    and up: "UpdateUserPassword (p_OrgID p) (p_UserID p) hash (ss_store s) = (Inr (), m)"
    and iss: "issueSession c x 1 (p_OrgID p) (p_UserID p) (s\<lparr>ss_store := DeleteSessionsForUser (p_UserID p) m\<rparr>) = (Some cookie, s2)"
    and res: "rs_Cookie rsp = Some cookie"
      "s' = Record x 3 (p_OrgID p) (p_Email p) ''account.password_change'' ''success'' (clientIP r) [] s2"
    by (rule changePassword_ok)
  from v obtain u mem where u: "m_users (ss_store s) (p_UserID p) = Some u" "m_memberships (ss_store s) (p_UserID p) = Some mem"
    "mem_OrgID mem = p_OrgID p" "VerifyPassword (c_hmac c) (get_string ''current_password'' req) (usr_PasswordHash u)"
    by (rule verifyCurrentPassword_ok)
  have id: "usr_ID u = p_UserID p" using accounts.inv_reachable [OF assms(1)] u(1) by (auto simp: ids_ok_def)
  have m: "m = (ss_store s)\<lparr>m_users := (m_users (ss_store s))(p_UserID p \<mapsto> u\<lparr>usr_PasswordHash := hash\<rparr>)\<rparr>"
    using up u by (simp add: UpdateUserPassword_def)
  have new: "VerifyPassword (c_hmac c) (get_string ''new_password'' req) hash" "hash \<noteq> []"
    using h hash_verifies [of "c_hmac c" "get_string ''new_password'' req"] assms(2)
    by (auto simp: HashPassword_def Let_def split: if_splits option.splits)
  note I = issueSession_Some [OF iss, THEN conjunct2]
  have sess: "GetSession i now (ss_store s') =
      (if ses_UserID ses = p_UserID p then Inl ErrNotFound else GetSession i now (ss_store s))"
    if "m_sessions (ss_store s) i = Some ses" "i \<noteq> HashToken (c_sha256 c) cookie" for i ses now
    using that by (simp add: res(2) Record_store I GetSession_def CreateSession_def DeleteSessionsForUser_def m)
  have auth: "Authenticate c now r2 (ss_store s') = Some \<lparr>p_UserID = p_UserID p, p_OrgID = p_OrgID p,
      p_Email = usr_Email u, p_Role = roleOf (Some mem), p_HasPassword = True\<rparr>"
    if "rq_Cookie r2 = Some cookie" "now \<le> in_time x 2 + sessionTTL" for r2 now
    unfolding res(2)
    using issued_cookie_authenticates [OF iss, of "u\<lparr>usr_PasswordHash := hash\<rparr>" mem r2 now] that id u new
    by (simp add: m DeleteSessionsForUser_def numeral_2_eq_2)
  have "m_users (ss_store s') (p_UserID p) = Some (u\<lparr>usr_PasswordHash := hash\<rparr>)"
    by (simp add: res(2) Record_store I CreateSession_def DeleteSessionsForUser_def m)
  then show ?thesis using req res u(1,4) new sess auth
    by (intro exI [of _ req] exI [of _ cookie] exI [of _ u] exI [of _ "u\<lparr>usr_PasswordHash := hash\<rparr>"] exI [of _ mem])
      (simp del: One_nat_def)
qed

lemma other_accounts_kept:
  assumes "uid \<noteq> p_UserID p"
  shows "m_users (ss_store (snd (handleChangePassword c x p r s))) uid = m_users (ss_store s) uid \<and>
    m_users (ss_store (snd (handleChangeEmail c x p r s))) uid = m_users (ss_store s) uid"
  using assms
  by (auto simp: handleChangePassword_def handleChangeEmail_def Let_def Record_store UpdateUserPassword_def
      UpdateUserEmail_def issueSession_def CreateSession_def DeleteSessionsForUser_def
      split: option.splits sum.splits prod.splits if_splits store_error.splits)

text \<open>Nobody changes an account without its password. If either credential handler changes the
  account table, then the account is the caller's own, in the caller's organisation, it has a
  password, and the current password given in the request verifies against it.\<close>

theorem credential_change_needs_current_password:
  assumes "m_users (ss_store (snd (handleChangePassword c x p r s))) \<noteq> m_users (ss_store s) \<or>
     m_users (ss_store (snd (handleChangeEmail c x p r s))) \<noteq> m_users (ss_store s)"
  shows "\<exists>ms u. (decodeJSON r changePasswordRequest 4096 = Some ms \<or> decodeJSON r changeEmailRequest 4096 = Some ms) \<and>
    GetUser (p_OrgID p) (p_UserID p) (ss_store s) = Inr u \<and> usr_PasswordHash u \<noteq> [] \<and>
    VerifyPassword (c_hmac c) (get_string ''current_password'' ms) (usr_PasswordHash u) \<and>
    (\<forall>uid. uid \<noteq> p_UserID p \<longrightarrow>
       m_users (ss_store (snd (handleChangePassword c x p r s))) uid = m_users (ss_store s) uid \<and>
       m_users (ss_store (snd (handleChangeEmail c x p r s))) uid = m_users (ss_store s) uid)"
proof -
  have "\<exists>ms. (decodeJSON r changePasswordRequest 4096 = Some ms \<or> decodeJSON r changeEmailRequest 4096 = Some ms) \<and>
    verifyCurrentPassword c p (get_string ''current_password'' ms) (ss_store s) = None"
    using assms
    by (auto simp: handleChangePassword_def handleChangeEmail_def Let_def Record_store
        split: option.splits sum.splits prod.splits if_splits store_error.splits)
  then obtain ms where ms: "decodeJSON r changePasswordRequest 4096 = Some ms \<or> decodeJSON r changeEmailRequest 4096 = Some ms"
    "verifyCurrentPassword c p (get_string ''current_password'' ms) (ss_store s) = None" by blast
  then obtain u where "GetUser (p_OrgID p) (p_UserID p) (ss_store s) = Inr u" "usr_PasswordHash u \<noteq> []"
    "VerifyPassword (c_hmac c) (get_string ''current_password'' ms) (usr_PasswordHash u)"
    by (auto simp: verifyCurrentPassword_def split: sum.splits if_splits)
  then show ?thesis using ms other_accounts_kept by blast
qed

text \<open>Logging out ends the session: the cookie that was presented no longer authenticates any
  request, at any time.\<close>

theorem logout_ends_session:
  "rq_Cookie r = Some v \<Longrightarrow> rq_Cookie r2 = Some v \<Longrightarrow>
    Authenticate c now r2 (ss_store (snd (handleLogout c r s))) = None"
  by (auto simp: Authenticate_def handleLogout_def GetSession_def DeleteSession_def)

subsection \<open>Witnesses\<close>

text \<open>A deployment whose owner was seeded with the hash of a password under the constant HMAC of
  \<open>demo_crypto\<close>.\<close>

definition demo_password :: string where "demo_password = ''correct horse''"

definition demo_hash_of :: "string \<Rightarrow> string" where
  "demo_hash_of pw = (case HashPassword (c_hmac demo_crypto) pw (Some (replicate 16 1)) of Inr h \<Rightarrow> h | Inl _ \<Rightarrow> [])"

definition demo_uid :: string where "demo_uid = NewID ''usr'' [1]"
definition demo_org :: string where "demo_org = NewID ''org'' [0]"

definition seeded :: memory where
  "seeded = store_step (OpSeed ''Default'' ''a@b.c'' (demo_hash_of demo_password) [0] [1] 0) NewMemory"

definition demo_post :: "string \<Rightarrow> http_request" where
  "demo_post body = demo_request\<lparr>rq_Method := ''POST'', rq_Body := str_bytes body\<rparr>"

definition demo_in :: inputs where
  "demo_in = \<lparr>in_time = (\<lambda>i. int i), in_rnd = (\<lambda>i. Some [of_nat i]), in_servers = [], in_agents = [], in_alerts = []\<rparr>"

lemma seeded_reachable: "store_reachable seeded"
  unfolding seeded_def by (rule reachable_step [OF reachable_init]) (simp add: NewMemory_def)

definition demo_user :: user where
  "demo_user = \<lparr>usr_ID = demo_uid, usr_Email = ''a@b.c'', usr_Name = [], usr_PasswordHash = demo_hash_of demo_password,
     usr_MFASecret = [], usr_CreatedAt = 0\<rparr>"

lemma demo_lower: "ToLower ''a@b.c'' = ''a@b.c''" "TrimSpace ''a@b.c'' = ''a@b.c''"
  by code_simp+

lemma seeded_simps:
  "m_users seeded = [demo_uid \<mapsto> demo_user]" "m_usersByMail seeded = [''a@b.c'' \<mapsto> demo_uid]"
  "m_memberships seeded = [demo_uid \<mapsto> \<lparr>mem_OrgID = demo_org, mem_UserID = demo_uid, mem_Role = RoleOwner\<rparr>]"
  "m_sessions seeded = Map.empty"
  by (simp_all add: seeded_def SeedOrgOwner_def NewMemory_def demo_lower demo_user_def demo_uid_def demo_org_def Let_def)

lemma demo_verifies: "VerifyPassword (c_hmac demo_crypto) demo_password (demo_hash_of demo_password)"
  using hash_verifies [of "c_hmac demo_crypto" demo_password "replicate 16 1"]
  by (auto simp: demo_crypto_def hLen_def demo_hash_of_def demo_password_def)

lemma demo_hash_nonempty: "demo_hash_of demo_password \<noteq> []"
  using demo_verifies by (auto simp: VerifyPassword_def)

lemma demo_decode:
  assumes "json_Unmarshal b = Some j" and "length b \<le> n"
  shows "decodeJSON (demo_post b) fs n = decode_struct True fs j"
  using json_Unmarshal_Decode [OF assms(1)] assms(2) by (simp add: decodeJSON_def demo_post_def)

definition demo_login :: http_request where
  \<open>demo_login = demo_post ''{"email":"a@b.c","password":"correct horse"}''\<close>

definition demo_login_members :: members where
  \<open>demo_login_members = [(''email'', ''"a@b.c"'', JvStr ''a@b.c''), (''password'', ''"correct horse"'', JvStr ''correct horse'')]\<close>

lemma demo_login_json:
  \<open>json_Unmarshal ''{"email":"a@b.c","password":"correct horse"}'' = Some (JvObj demo_login_members)\<close>
  by code_simp

lemma demo_login_decode:
  "decodeJSON demo_login loginRequest 4096 = Some demo_login_members"
  "decodeJSON demo_login setupRequest 4096 = Some demo_login_members"
  "get_string ''email'' demo_login_members = ''a@b.c''" "get_string ''password'' demo_login_members = demo_password"
  unfolding demo_login_def
  by (simp_all add: demo_decode [OF demo_login_json] decode_struct_def field_of_def loginRequest_def setupRequest_def
      demo_login_members_def EqualFold_def ToLower_def lower_char_def get_string_def get_member_def demo_password_def)


theorem setup_only_before_first_account_witness:
  "rs_Status (fst (handleSetupComplete (Load (\<lambda>_. [])) demo_crypto demo_in demo_login (New seeded))) \<in> {400, 409}"
  using setup_only_before_first_account [OF seeded_reachable, where ops = "[]" and s = "New seeded"
      and cfg = "Load (\<lambda>_. [])" and c = demo_crypto and x = demo_in and r = demo_login]
  by (simp add: seeded_simps New_def Let_def)

definition demo_principal :: principal where
  "demo_principal = \<lparr>p_UserID = demo_uid, p_OrgID = demo_org, p_Email = ''a@b.c'', p_Role = RoleOwner, p_HasPassword = True\<rparr>"

definition demo_change :: http_request where
  \<open>demo_change = demo_post ''{"current_password":"correct horse","new_password":"battery staple"}''\<close>

definition demo_change_members :: members where
  \<open>demo_change_members = [(''current_password'', ''"correct horse"'', JvStr ''correct horse''),
     (''new_password'', ''"battery staple"'', JvStr ''battery staple'')]\<close>

lemma demo_change_json:
  \<open>json_Unmarshal ''{"current_password":"correct horse","new_password":"battery staple"}'' = Some (JvObj demo_change_members)\<close>
  by code_simp

lemma demo_change_decode:
  "decodeJSON demo_change changePasswordRequest 4096 = Some demo_change_members"
  "get_string ''current_password'' demo_change_members = demo_password"
  "get_string ''new_password'' demo_change_members = ''battery staple''"
  unfolding demo_change_def
  by (simp_all add: demo_decode [OF demo_change_json] decode_struct_def field_of_def changePasswordRequest_def
      demo_change_members_def EqualFold_def ToLower_def lower_char_def get_string_def get_member_def demo_password_def)

lemma demo_change_ok:
  "rs_Status (fst (handleChangePassword demo_crypto demo_in demo_principal demo_change (New seeded))) = 200"
proof -
  have pol: "ValidatePasswordPolicy ''battery staple'' ''a@b.c'' = None" by code_simp
  have cur: "verifyCurrentPassword demo_crypto demo_principal demo_password seeded = None"
    using demo_verifies demo_hash_nonempty
    by (simp add: verifyCurrentPassword_def demo_principal_def GetUser_def seeded_simps demo_user_def)
  have up: "UpdateUserPassword demo_org demo_uid h seeded = (Inr (), seeded\<lparr>m_users := [demo_uid \<mapsto> demo_user\<lparr>usr_PasswordHash := h\<rparr>]\<rparr>)" for h
    by (simp add: UpdateUserPassword_def seeded_simps)
  have ne: "''battery staple'' \<noteq> demo_password" by (simp add: demo_password_def)
  have p: "p_Email demo_principal = ''a@b.c''" "p_OrgID demo_principal = demo_org" "p_UserID demo_principal = demo_uid"
    by (simp_all add: demo_principal_def)
  show ?thesis
    by (simp add: handleChangePassword_def demo_change_decode p pol cur ne HashPassword_def demo_in_def up issueSession_def
        GenerateToken_def with_cookie_def http_simps Let_def New_def)
qed

theorem password_change_rotates_sessions_witness:
  "\<exists>u'. m_users (ss_store (snd (handleChangePassword demo_crypto demo_in demo_principal demo_change (New seeded)))) demo_uid = Some u' \<and>
     VerifyPassword (c_hmac demo_crypto) ''battery staple'' (usr_PasswordHash u')"
proof -
  have "length (c_hmac demo_crypto k d) = hLen" for k d by (simp add: demo_crypto_def hLen_def)
  moreover have "store_reachable (ss_store (New seeded))" by (simp add: New_def seeded_reachable)
  ultimately show ?thesis
    using password_change_rotates_sessions [OF _ _ prod.collapse [symmetric] demo_change_ok] demo_change_decode
    by (auto simp: demo_principal_def)
qed

definition demo_email :: http_request where
  \<open>demo_email = demo_post ''{"current_password":"correct horse","email":"n@b.c"}''\<close>

definition demo_email_members :: members where
  \<open>demo_email_members = [(''current_password'', ''"correct horse"'', JvStr ''correct horse''), (''email'', ''"n@b.c"'', JvStr ''n@b.c'')]\<close>

lemma demo_email_json:
  \<open>json_Unmarshal ''{"current_password":"correct horse","email":"n@b.c"}'' = Some (JvObj demo_email_members)\<close>
  by code_simp

lemma demo_email_decode:
  "decodeJSON demo_email changeEmailRequest 4096 = Some demo_email_members"
  "decodeJSON demo_email changePasswordRequest 4096 = None"
  "get_string ''current_password'' demo_email_members = demo_password" "get_string ''email'' demo_email_members = ''n@b.c''"
  unfolding demo_email_def
  by (simp_all add: demo_decode [OF demo_email_json] decode_struct_def field_of_def changeEmailRequest_def
      changePasswordRequest_def demo_email_members_def EqualFold_def ToLower_def lower_char_def get_string_def get_member_def
      demo_password_def)

theorem credential_change_needs_current_password_witness:
  "\<exists>u. GetUser demo_org demo_uid seeded = Inr u \<and> VerifyPassword (c_hmac demo_crypto) demo_password (usr_PasswordHash u)"
proof -
  have v: "ValidateEmail ''n@b.c'' = None" "NormalizeEmail ''n@b.c'' = ''n@b.c''" "ToLower (TrimSpace ''n@b.c'') = ''n@b.c''"
    by code_simp+
  have cur: "verifyCurrentPassword demo_crypto demo_principal demo_password seeded = None"
    using demo_verifies demo_hash_nonempty
    by (simp add: verifyCurrentPassword_def demo_principal_def GetUser_def seeded_simps demo_user_def)
  have p: "p_OrgID demo_principal = demo_org" "p_UserID demo_principal = demo_uid"
    by (simp_all add: demo_principal_def)
  have "m_users (ss_store (snd (handleChangeEmail demo_crypto demo_in demo_principal demo_email (New seeded)))) demo_uid
      = Some (demo_user\<lparr>usr_Email := ''n@b.c''\<rparr>)"
    by (simp add: handleChangeEmail_def demo_email_decode v cur p New_def UpdateUserEmail_def seeded_simps Record_store Let_def)
  then have "m_users (ss_store (snd (handleChangeEmail demo_crypto demo_in demo_principal demo_email (New seeded))))
      \<noteq> m_users (ss_store (New seeded))"
    by (auto simp: New_def seeded_simps demo_user_def)
  from credential_change_needs_current_password [OF disjI2, OF this] show ?thesis
    by (auto simp: demo_email_decode New_def p)
qed

theorem logout_ends_session_witness:
  "Authenticate demo_crypto 50 demo_request (ss_store (snd (handleLogout demo_crypto demo_request (New demo_store)))) = None"
  by (rule logout_ends_session [of _ "''secret''"]) (simp_all add: demo_request_def)

end
