(* ===== verification/Pulse_Snapshot.thy ===== *)
theory Pulse_Snapshot
  imports Pulse_Http Pulse_Store_Props
begin

section \<open>Discovery snapshots and the views derived from them\<close>

text \<open>
  \<^verbatim>\<open>apps/api/internal/httpx/handlers_discovery.go\<close>: the agent's snapshot as the API
  decodes it, the organisation-scoped loader, and the service, container, database and
  application views. A view handler returns \<open>Inl\<close> of a failure response or \<open>Inr\<close> of the data
  it sends with status 200. When a JSON object names a field more than once the last value
  counts.
\<close>

subsection \<open>Decoding\<close>

record agent_port =
  po_Host :: int
  po_Container :: int
  po_Protocol :: string
  po_Address :: string
  po_State :: string

record agent_resource =
  res_Type :: string
  res_ID :: string
  res_Name :: string
  res_Status :: string
  res_Health :: string
  res_Labels :: "string \<rightharpoonup> string"
  res_Attributes :: "string \<rightharpoonup> json"
  res_Ports :: "agent_port list"
  res_Networks :: "string list"
  res_Volumes :: "string list"
  res_DependsOn :: "string list"
  res_DetectedBy :: string

record agent_topology =
  top_Nodes :: "json list"
  top_Edges :: "json list"

record agent_snapshot =
  snap_InstallationID :: string
  snap_ServerID :: string
  snap_Hostname :: string
  snap_GeneratedAt :: string
  snap_DurationMS :: int
  snap_Resources :: "agent_resource list"
  snap_Topology :: "agent_topology option"

definition port_fields :: "(string \<times> field_type) list" where
  "port_fields = [(''host'', FInt), (''container'', FInt), (''protocol'', FString), (''address'', FString), (''state'', FString)]"

definition resource_fields :: "(string \<times> field_type) list" where
  "resource_fields = [(''type'', FString), (''id'', FString), (''name'', FString), (''status'', FString), (''health'', FString),
     (''labels'', FStrMap), (''attributes'', FMap FAny), (''ports'', FList (FStruct port_fields)), (''networks'', FList FString),
     (''volumes'', FList FString), (''depends_on'', FList FString), (''detected_by'', FString)]"

definition snapshot_fields :: "(string \<times> field_type) list" where
  "snapshot_fields = [(''installation_id'', FString), (''server_id'', FString), (''hostname'', FString), (''generated_at'', FTime),
     (''duration_ms'', FInt), (''resources'', FList (FStruct resource_fields)),
     (''topology'', FStruct [(''nodes'', FList (FMap FAny)), (''edges'', FList (FMap FAny))])]"

definition obj_members :: "json \<Rightarrow> members" where
  "obj_members j = (case j of JvObj ms \<Rightarrow> ms | _ \<Rightarrow> [])"

definition str_of :: "json \<Rightarrow> string" where
  "str_of j = (case j of JvStr s \<Rightarrow> s | _ \<Rightarrow> [])"

definition port_of :: "json \<Rightarrow> agent_port" where
  "port_of j = (let ms = obj_members j in
     \<lparr>po_Host = get_int ''host'' ms, po_Container = get_int ''container'' ms, po_Protocol = get_string ''protocol'' ms,
      po_Address = get_string ''address'' ms, po_State = get_string ''state'' ms\<rparr>)"

definition exact_map :: "members \<Rightarrow> (string \<rightharpoonup> json)" where
  "exact_map es = (\<lambda>k. map_option (\<lambda>(_, _, v). v) (find (\<lambda>(k', _, _). k' = k) (rev es)))"

definition resource_of :: "json \<Rightarrow> agent_resource" where
  "resource_of j = (let ms = obj_members j in
     \<lparr>res_Type = get_string ''type'' ms, res_ID = get_string ''id'' ms, res_Name = get_string ''name'' ms,
      res_Status = get_string ''status'' ms, res_Health = get_string ''health'' ms,
      res_Labels = (\<lambda>k. map_option str_of (exact_map (get_object ''labels'' ms) k)),
      res_Attributes = exact_map (get_object ''attributes'' ms),
      res_Ports = map port_of (get_list ''ports'' ms),
      res_Networks = map str_of (get_list ''networks'' ms), res_Volumes = map str_of (get_list ''volumes'' ms),
      res_DependsOn = map str_of (get_list ''depends_on'' ms), res_DetectedBy = get_string ''detected_by'' ms\<rparr>)"

definition snapshot_of :: "members \<Rightarrow> agent_snapshot" where
  "snapshot_of ms =
     \<lparr>snap_InstallationID = get_string ''installation_id'' ms, snap_ServerID = get_string ''server_id'' ms,
      snap_Hostname = get_string ''hostname'' ms, snap_GeneratedAt = get_string ''generated_at'' ms,
      snap_DurationMS = get_int ''duration_ms'' ms, snap_Resources = map resource_of (get_list ''resources'' ms),
      snap_Topology = (case get_member ''topology'' ms of
          None \<Rightarrow> None
        | Some (_, j) \<Rightarrow> Some \<lparr>top_Nodes = get_list ''nodes'' (obj_members j), top_Edges = get_list ''edges'' (obj_members j)\<rparr>)\<rparr>"

definition loadSnapshot :: "string \<Rightarrow> string \<Rightarrow> memory \<Rightarrow> agent_snapshot option" where
  "loadSnapshot orgID serverRowID m =
     (case GetServer orgID serverRowID m of
        Inl _ \<Rightarrow> None
      | Inr srv \<Rightarrow>
          (case GetDiscovery orgID (srv_ServerID srv) m of
             Inl _ \<Rightarrow> None
           | Inr raw \<Rightarrow>
               (case json_Unmarshal raw of
                  None \<Rightarrow> None
                | Some j \<Rightarrow> map_option snapshot_of (decode_struct False snapshot_fields j))))"

subsection \<open>Views\<close>

definition resourcesOfType :: "agent_snapshot \<Rightarrow> string list \<Rightarrow> agent_resource list" where
  "resourcesOfType snap types = filter (\<lambda>r. res_Type r \<in> set types) (snap_Resources snap)"

definition snapshot_view :: "string \<Rightarrow> (agent_snapshot \<Rightarrow> 'a) \<Rightarrow> principal \<Rightarrow> http_request \<Rightarrow> server_state \<Rightarrow>
    http_response + 'a" where
  "snapshot_view missing f p r s =
     (case loadSnapshot (p_OrgID p) (rq_PathValue r ''id'') (ss_store s) of
        None \<Rightarrow> Inl (Fail 404 CodeNotFound missing)
      | Some snap \<Rightarrow> Inr (f snap))"

definition handleDiscovery :: "principal \<Rightarrow> http_request \<Rightarrow> server_state \<Rightarrow> http_response + agent_snapshot" where
  "handleDiscovery = snapshot_view ''no discovery data for this server yet'' (\<lambda>snap. snap)"

definition handleTopology :: "principal \<Rightarrow> http_request \<Rightarrow> server_state \<Rightarrow> http_response + agent_topology" where
  "handleTopology = snapshot_view ''no topology data yet''
     (\<lambda>snap. case snap_Topology snap of None \<Rightarrow> \<lparr>top_Nodes = [], top_Edges = []\<rparr> | Some t \<Rightarrow> t)"

definition handleServices :: "principal \<Rightarrow> http_request \<Rightarrow> server_state \<Rightarrow> http_response + agent_resource list" where
  "handleServices = snapshot_view ''no services discovered yet''
     (\<lambda>snap. resourcesOfType snap [''docker_container'', ''database'', ''nginx_vhost'', ''apache_vhost'', ''caddy_site'',
        ''traefik_router'', ''haproxy_frontend'', ''reverse_proxy'', ''application'', ''systemd_unit'', ''initd_service'',
        ''existing_monitoring''])"

definition handleContainers :: "principal \<Rightarrow> http_request \<Rightarrow> server_state \<Rightarrow> http_response + agent_resource list" where
  "handleContainers = snapshot_view ''no containers discovered yet'' (\<lambda>snap. resourcesOfType snap [''docker_container''])"

definition handleApplications :: "principal \<Rightarrow> http_request \<Rightarrow> server_state \<Rightarrow> http_response + agent_resource list" where
  "handleApplications = snapshot_view ''no applications discovered yet'' (\<lambda>snap. resourcesOfType snap [''application''])"

text \<open>\<open>dbEngineFromImage\<close>: the first line of the table with a word the lower-cased image
  contains.\<close>

definition db_engines :: "(string list \<times> string) list" where
  "db_engines =
     [([''postgres'', ''pgvector'', ''timescale'', ''postgis''], ''postgresql''), ([''mariadb''], ''mariadb''),
      ([''mysql'', ''percona''], ''mysql''), ([''valkey'', ''keydb'', ''redis''], ''redis''), ([''mongo''], ''mongodb''),
      ([''memcached''], ''memcached''), ([''opensearch'', ''elasticsearch''], ''elasticsearch''),
      ([''clickhouse''], ''clickhouse''), ([''cockroach''], ''cockroachdb''), ([''scylla'', ''cassandra''], ''cassandra''),
      ([''influxdb''], ''influxdb''), ([''rabbitmq''], ''rabbitmq''), ([''neo4j''], ''neo4j''), ([''couchdb''], ''couchdb''),
      ([''surrealdb''], ''surrealdb'')]"

definition dbEngineFromImage :: "string \<Rightarrow> string" where
  "dbEngineFromImage imgRef =
     (let img = ToLower imgRef in
      case find (\<lambda>(words, _). list_ex (Contains img) words) db_engines of None \<Rightarrow> [] | Some (_, engine) \<Rightarrow> engine)"

definition attr_string :: "agent_resource \<Rightarrow> string \<Rightarrow> string" where
  "attr_string r k = (case res_Attributes r k of Some (JvStr s) \<Rightarrow> s | _ \<Rightarrow> [])"

text \<open>The loop over the containers: \<open>seen\<close> holds the lower-cased names already listed.\<close>

fun derive_databases :: "string list \<Rightarrow> agent_resource list \<Rightarrow> agent_resource list" where
  "derive_databases seen [] = []"
| "derive_databases seen (c # cs) =
     (let imgRef = attr_string c ''image''; engine = dbEngineFromImage imgRef in
      if engine = [] \<or> ToLower (res_Name c) \<in> set seen then derive_databases seen cs
      else
        \<lparr>res_Type = ''database'', res_ID = ''dbc:'' @ res_Name c, res_Name = res_Name c, res_Status = res_Status c,
         res_Health = res_Health c, res_Labels = Map.empty,
         res_Attributes = [''engine'' \<mapsto> JvStr engine, ''image'' \<mapsto> JvStr imgRef, ''container'' \<mapsto> JvStr (res_Name c),
             ''exposure'' \<mapsto> JvStr ''container''] ++
           (case res_Ports c of [] \<Rightarrow> Map.empty | p # _ \<Rightarrow> [''port'' \<mapsto> JvNum (Itoa (po_Host p))]),
         res_Ports = res_Ports c, res_Networks = [], res_Volumes = [], res_DependsOn = [], res_DetectedBy = ''docker''\<rparr>
        # derive_databases (ToLower (res_Name c) # seen) cs)"

definition databases_of :: "agent_snapshot \<Rightarrow> agent_resource list" where
  "databases_of snap =
     (let out = resourcesOfType snap [''database''] in
      out @ derive_databases (map (\<lambda>d. ToLower (res_Name d)) out) (resourcesOfType snap [''docker_container'']))"

definition handleDatabases :: "principal \<Rightarrow> http_request \<Rightarrow> server_state \<Rightarrow> http_response + agent_resource list" where
  "handleDatabases = snapshot_view ''no databases discovered yet'' databases_of"

subsection \<open>Properties\<close>

text \<open>A snapshot view reads only the caller's organisation: in two states in which the caller's
  organisation sees the same, every view answers the same.\<close>

theorem snapshot_views_scoped:
  assumes "view_of (p_OrgID p) (ss_store s) = view_of (p_OrgID p) (ss_store s')"
  shows "snapshot_view missing f p r s = snapshot_view missing f p r s'"
proof -
  have "loadSnapshot (p_OrgID p) i (ss_store s) = loadSnapshot (p_OrgID p) i (ss_store s')" for i
    unfolding loadSnapshot_def GetServer_view snapshots_view assms ..
  then show ?thesis by (simp add: snapshot_view_def)
qed

theorem snapshot_views_scoped_witness:
  "handleDatabases \<lparr>p_UserID = ''u'', p_OrgID = ''o'', p_Email = [], p_Role = RoleViewer, p_HasPassword = True\<rparr> demo_request
      (New (NewMemory\<lparr>m_servers := [''x'' \<mapsto> \<lparr>srv_ID = ''x'', srv_OrgID = ''other'', srv_ServerID = ''x'', srv_Hostname = [],
          srv_Mode = [], srv_Status = [], srv_LastSeenAt = 0, srv_CreatedAt = 0\<rparr>]\<rparr>))
    = handleDatabases \<lparr>p_UserID = ''u'', p_OrgID = ''o'', p_Email = [], p_Role = RoleViewer, p_HasPassword = True\<rparr> demo_request
      (New NewMemory)"
  unfolding handleDatabases_def
  by (rule snapshot_views_scoped) (simp add: New_def view_of_def scoped_def NewMemory_def fun_eq_iff)

lemma derive_databases_names:
  "(\<forall>d \<in> set (derive_databases seen cs). ToLower (res_Name d) \<notin> set seen) \<and>
   distinct (map (\<lambda>d. ToLower (res_Name d)) (derive_databases seen cs))"
proof (induction cs arbitrary: seen)
  case (Cons c cs)
  show ?case using Cons [of seen] Cons [of "ToLower (res_Name c) # seen"] by (simp add: Let_def image_iff) metis
qed simp

lemma derive_databases_from:
  "d \<in> set (derive_databases seen cs) \<Longrightarrow> \<exists>c \<in> set cs. res_Name d = res_Name c \<and> res_Type d = ''database'' \<and>
     dbEngineFromImage (attr_string c ''image'') \<noteq> [] \<and> res_Attributes d ''engine'' = Some (JvStr (dbEngineFromImage (attr_string c ''image'')))"
  by (induction seen cs rule: derive_databases.induct) (auto simp: Let_def map_add_def split: if_splits list.splits)

lemma derive_databases_complete:
  "c \<in> set cs \<Longrightarrow> dbEngineFromImage (attr_string c ''image'') \<noteq> [] \<Longrightarrow>
     ToLower (res_Name c) \<in> set seen \<or> (\<exists>d \<in> set (derive_databases seen cs). ToLower (res_Name d) = ToLower (res_Name c))"
  by (induction seen cs rule: derive_databases.induct) (auto simp: Let_def)

text \<open>The database view lists every engine once. All entries are databases; the detector's own
  entries come first; every container whose image is a known engine appears under its name
  (compared without case); no derived entry repeats a name that is already listed.\<close>

theorem databases_view_correct:
  "\<exists>derived. databases_of snap = resourcesOfType snap [''database''] @ derived \<and>
    (\<forall>d \<in> set (databases_of snap). res_Type d = ''database'') \<and>
    (\<forall>c \<in> set (snap_Resources snap). res_Type c = ''docker_container'' \<and> dbEngineFromImage (attr_string c ''image'') \<noteq> [] \<longrightarrow>
       (\<exists>d \<in> set (databases_of snap). ToLower (res_Name d) = ToLower (res_Name c))) \<and>
    distinct (map (\<lambda>d. ToLower (res_Name d)) derived) \<and>
    (\<forall>d \<in> set derived. \<forall>e \<in> set (resourcesOfType snap [''database'']). ToLower (res_Name d) \<noteq> ToLower (res_Name e))"
proof -
  let ?out = "resourcesOfType snap [''database'']"
  let ?seen = "map (\<lambda>d. ToLower (res_Name d)) ?out"
  let ?cs = "resourcesOfType snap [''docker_container'']"
  have 1: "databases_of snap = ?out @ derive_databases ?seen ?cs" by (simp add: databases_of_def Let_def)
  have 2: "\<forall>d \<in> set (databases_of snap). res_Type d = ''database''"
    unfolding 1 using derive_databases_from [of _ ?seen ?cs] by (auto simp: resourcesOfType_def)
  have 3: "\<exists>d \<in> set (databases_of snap). ToLower (res_Name d) = ToLower (res_Name c)"
    if "c \<in> set ?cs" "dbEngineFromImage (attr_string c ''image'') \<noteq> []" for c
    unfolding 1 using derive_databases_complete [OF that, of ?seen] by auto
  have 4: "\<forall>d \<in> set (derive_databases ?seen ?cs). \<forall>e \<in> set ?out. ToLower (res_Name d) \<noteq> ToLower (res_Name e)"
    using derive_databases_names [of ?seen ?cs, THEN conjunct1] by fastforce
  show ?thesis
  proof (intro exI [of _ "derive_databases ?seen ?cs"] conjI ballI impI)
    fix c assume "c \<in> set (snap_Resources snap)"
      and "res_Type c = ''docker_container'' \<and> dbEngineFromImage (attr_string c ''image'') \<noteq> []"
    then show "\<exists>d \<in> set (databases_of snap). ToLower (res_Name d) = ToLower (res_Name c)"
      by (intro 3) (simp_all add: resourcesOfType_def)
  qed (use 1 2 4 derive_databases_names [of ?seen ?cs] in blast)+
qed

definition demo_container :: "string \<Rightarrow> string \<Rightarrow> string \<Rightarrow> agent_resource" where
  "demo_container name img st =
     \<lparr>res_Type = ''docker_container'', res_ID = name, res_Name = name, res_Status = st, res_Health = [], res_Labels = Map.empty,
      res_Attributes = [''image'' \<mapsto> JvStr img], res_Ports = [], res_Networks = [], res_Volumes = [], res_DependsOn = [],
      res_DetectedBy = ''docker''\<rparr>"

definition demo_snapshot :: "agent_resource list \<Rightarrow> agent_snapshot" where
  "demo_snapshot rs = \<lparr>snap_InstallationID = [], snap_ServerID = [], snap_Hostname = [], snap_GeneratedAt = [], snap_DurationMS = 0,
     snap_Resources = rs, snap_Topology = None\<rparr>"

theorem databases_view_correct_witness:
  "\<exists>d \<in> set (databases_of (demo_snapshot [demo_container ''DB'' ''docker.io/pgvector:16'' ''running''])). ToLower (res_Name d) = ''db''"
proof -
  have "dbEngineFromImage ''docker.io/pgvector:16'' = ''postgresql''" "ToLower ''DB'' = ''db''" by code_simp+
  then show ?thesis
    using databases_view_correct [of "demo_snapshot [demo_container ''DB'' ''docker.io/pgvector:16'' ''running'']"]
    by (auto simp: demo_snapshot_def demo_container_def attr_string_def)
qed

end
