(* ===== verification/Pulse_Alerts.thy ===== *)
theory Pulse_Alerts
  imports Pulse_Snapshot
begin

section \<open>The alert engine\<close>

text \<open>
  \<^verbatim>\<open>apps/api/internal/httpx/alerts_eval.go\<close> and \<^verbatim>\<open>handlers_alerts.go\<close>: rules,
  their conditions, the evaluator with its breach timers and firing set, and the rule handlers.
  Sampled values and thresholds are exact rationals where Go uses doubles; thresholds may also be
  infinite or not a number. The engine's mutex makes one evaluation one step.
\<close>

subsection \<open>Floating-point text\<close>

datatype gofloat = Fin rat | PosInf | NegInf | NaN

definition parse_exp :: "string \<Rightarrow> int option" where
  "parse_exp s =
     (let neg = (s \<noteq> [] \<and> hd s = CHR ''-'');
          ds = (if s \<noteq> [] \<and> (hd s = CHR ''-'' \<or> hd s = CHR ''+'') then tl s else s)
      in if ds = [] \<or> \<not> list_all is_digit ds then None
         else Some (if neg then - int (digits_val ds) else int (digits_val ds)))"

definition dec_float :: "string \<Rightarrow> rat option" where
  "dec_float t =
     (let ints = takeWhile is_digit t; r1 = dropWhile is_digit t;
          dot = (r1 \<noteq> [] \<and> hd r1 = CHR ''.'');
          frac = (if dot then takeWhile is_digit (tl r1) else []);
          r2 = (if dot then dropWhile is_digit (tl r1) else r1)
      in if ints @ frac = [] then None
         else case (if r2 = [] then Some 0 else if hd r2 = CHR ''e'' then parse_exp (tl r2) else None) of
           None \<Rightarrow> None
         | Some e \<Rightarrow> Some (of_nat (digits_val (ints @ frac)) * pow10 (e - int (length frac))))"

definition hex_digits_val :: "string \<Rightarrow> nat" where
  "hex_digits_val s = foldl (\<lambda>a c. 16 * a + (case hex_val c of Some v \<Rightarrow> v | None \<Rightarrow> 0)) 0 s"

definition is_hex :: "char \<Rightarrow> bool" where
  "is_hex c \<longleftrightarrow> hex_val c \<noteq> None"

definition hex_float :: "string \<Rightarrow> rat option" where
  "hex_float t =
     (let ints = takeWhile is_hex t; r1 = dropWhile is_hex t;
          dot = (r1 \<noteq> [] \<and> hd r1 = CHR ''.'');
          frac = (if dot then takeWhile is_hex (tl r1) else []);
          r2 = (if dot then dropWhile is_hex (tl r1) else r1)
      in if ints @ frac = [] \<or> r2 = [] \<or> hd r2 \<noteq> CHR ''p'' then None
         else case parse_exp (tl r2) of
           None \<Rightarrow> None
         | Some e \<Rightarrow>
             let k = e - 4 * int (length frac) in
             Some (of_nat (hex_digits_val (ints @ frac)) * (if 0 \<le> k then 2 ^ nat k else 1 / 2 ^ nat (- k))))"

text \<open>\<open>strconv.ParseFloat(s, 64)\<close>; a magnitude beyond the largest double is an error. Underscores
  between hexadecimal digits are not accepted here.\<close>

definition ParseFloat :: "string \<Rightarrow> gofloat option" where
  "ParseFloat s =
     (let l = ToLower s;
          neg = (l \<noteq> [] \<and> hd l = CHR ''-'');
          t = (if l \<noteq> [] \<and> (hd l = CHR ''-'' \<or> hd l = CHR ''+'') then tl l else l)
      in if l = ''nan'' then Some NaN
         else if t \<in> {''inf'', ''infinity''} then Some (if neg then NegInf else PosInf)
         else case (if HasPrefix t ''0x'' then hex_float (drop 2 t) else dec_float t) of
           None \<Rightarrow> None
         | Some v \<Rightarrow> if v < 2 ^ 1024 - 2 ^ 970 then Some (Fin (if neg then - v else v)) else None)"

text \<open>The verbs \<open>%.1f\<close> and \<open>%.0f\<close>: rounding to the nearest decimal, ties to even.\<close>

definition round_even :: "rat \<Rightarrow> int" where
  "round_even q =
     (let f = \<lfloor>q\<rfloor>; d = q - of_int f in
      if d < 1 / 2 then f else if 1 / 2 < d then f + 1 else if even f then f else f + 1)"

definition fmt_fixed :: "nat \<Rightarrow> rat \<Rightarrow> string" where
  "fmt_fixed k q =
     (let n = nat (round_even (\<bar>q\<bar> * 10 ^ k)); fr = show_nat (n mod 10 ^ k) in
      (if q < 0 then ''-'' else []) @ show_nat (n div 10 ^ k) @
      (if k = 0 then [] else ''.'' @ replicate (k - length fr) (CHR ''0'') @ fr))"

definition fmt_float :: "nat \<Rightarrow> gofloat \<Rightarrow> string" where
  "fmt_float k f = (case f of Fin q \<Rightarrow> fmt_fixed k q | PosInf \<Rightarrow> ''+Inf'' | NegInf \<Rightarrow> ''-Inf'' | NaN \<Rightarrow> ''NaN'')"

definition above :: "rat \<Rightarrow> gofloat \<Rightarrow> bool" where
  "above v th = (case th of Fin q \<Rightarrow> q < v | NegInf \<Rightarrow> True | _ \<Rightarrow> False)"

definition below :: "rat \<Rightarrow> gofloat \<Rightarrow> bool" where
  "below v th = (case th of Fin q \<Rightarrow> v < q | PosInf \<Rightarrow> True | _ \<Rightarrow> False)"

subsection \<open>Rules\<close>

datatype rule_cond =
    RcMetric string string gofloat
  | RcContainerDown string

definition parseRule :: "string \<Rightarrow> rule_cond option" where
  "parseRule expr =
     (case Fields (TrimSpace expr) of
        [f0, f1] \<Rightarrow> if f0 = ''container_down'' then Some (RcContainerDown f1) else None
      | [f0, f1, f2] \<Rightarrow>
          if f1 = ''>'' \<or> f1 = ''<'' then
            (let metric = ToLower f0 in
             if metric \<notin> {''cpu'', ''memory'', ''disk'', ''load''} then None
             else case ParseFloat f2 of None \<Rightarrow> None | Some th \<Rightarrow> Some (RcMetric metric f1 th))
          else None
      | _ \<Rightarrow> None)"

definition sample_fields :: "(string \<times> field_type) list" where
  "sample_fields = [(''cpu_percent'', FFloat), (''load1'', FFloat), (''mem_used_bytes'', FUint), (''mem_total_bytes'', FUint),
     (''disk_used_bytes'', FUint), (''disk_total_bytes'', FUint)]"

definition percent :: "nat \<Rightarrow> nat \<Rightarrow> rat" where
  "percent used whole = (if 0 < whole then of_nat used / of_nat whole * 100 else 0)"

definition metricValueFromSample :: "raw_json \<Rightarrow> string \<Rightarrow> rat option" where
  "metricValueFromSample raw metric =
     (case (case json_Unmarshal raw of None \<Rightarrow> None | Some j \<Rightarrow> decode_struct False sample_fields j) of
        None \<Rightarrow> None
      | Some smp \<Rightarrow>
          if metric = ''cpu'' then Some (get_float ''cpu_percent'' smp)
          else if metric = ''load'' then Some (get_float ''load1'' smp)
          else if metric = ''memory'' then Some (percent (get_uint ''mem_used_bytes'' smp) (get_uint ''mem_total_bytes'' smp))
          else if metric = ''disk'' then Some (percent (get_uint ''disk_used_bytes'' smp) (get_uint ''disk_total_bytes'' smp))
          else None)"

definition serverLabel :: "server \<Rightarrow> string" where
  "serverLabel srv = (if srv_Hostname srv \<noteq> [] then srv_Hostname srv else srv_ServerID srv)"

definition checkRule :: "string \<Rightarrow> server \<Rightarrow> rule_cond \<Rightarrow> memory \<Rightarrow> bool \<times> string" where
  "checkRule orgID srv c m =
     (case c of
        RcMetric metric opr th \<Rightarrow>
          (case GetMetrics orgID (srv_ServerID srv) m of
             Inl _ \<Rightarrow> (False, [])
           | Inr raw \<Rightarrow>
               (case metricValueFromSample raw metric of
                  None \<Rightarrow> (False, [])
                | Some v \<Rightarrow>
                    if opr = ''>'' \<and> above v th \<or> opr = ''<'' \<and> below v th
                    then (True, metric @ '' is '' @ fmt_fixed 1 v @ '' (threshold '' @ opr @ '' '' @ fmt_float 0 th @ '') on '' @
                          serverLabel srv)
                    else (False, [])))
      | RcContainerDown target \<Rightarrow>
          (case loadSnapshot orgID (srv_ID srv) m of
             None \<Rightarrow> (False, [])
           | Some snap \<Rightarrow>
               (case find (\<lambda>res. res_Type res = ''docker_container'' \<and> res_Name res = target) (snap_Resources snap) of
                  None \<Rightarrow> (False, [])
                | Some res \<Rightarrow>
                    if res_Status res \<noteq> ''running''
                    then (True, ''container '' @ target @ '' is '' @ res_Status res @ '' on '' @ serverLabel srv)
                    else (False, []))))"

subsection \<open>Evaluation\<close>

type_synonym eval_state = "(string \<rightharpoonup> time) \<times> (string \<rightharpoonup> alert_instance) \<times> string set"

definition breach_key :: "string \<Rightarrow> alert \<Rightarrow> server \<Rightarrow> string" where
  "breach_key orgID rule srv = orgID @ ''|'' @ alr_ID rule @ ''|'' @ srv_ServerID srv"

definition dedup_key :: "alert \<Rightarrow> server \<Rightarrow> string" where
  "dedup_key rule srv = alr_ID rule @ '':'' @ srv_ServerID srv"

definition for_duration :: "alert \<Rightarrow> duration" where
  "for_duration rule = wrap64 (alr_ForSeconds rule * second)"

definition new_instance :: "string \<Rightarrow> time \<Rightarrow> alert \<Rightarrow> server \<Rightarrow> alert_instance" where
  "new_instance orgID now rule srv =
     \<lparr>ali_ID = ''ali_'' @ dedup_key rule srv, ali_OrgID = orgID, ali_AlertID = alr_ID rule, ali_Name = alr_Name rule,
      ali_Severity = alr_Severity rule, ali_ServerID = srv_ServerID srv, ali_State = ''firing'',
      ali_DedupKey = dedup_key rule srv, ali_RootCause = [], ali_Affected = [], ali_StartedAt = now, ali_ResolvedAt = None\<rparr>"

text \<open>The body of the inner loop, for one rule with a parsed condition and one server.\<close>

definition eval_server :: "string \<Rightarrow> time \<Rightarrow> memory \<Rightarrow> alert \<Rightarrow> rule_cond \<Rightarrow> server \<Rightarrow> eval_state \<Rightarrow> eval_state" where
  "eval_server orgID now m rule c srv st =
     (let (breach, firing, active) = st;
          (breached, detail) = checkRule orgID srv c m;
          k = breach_key orgID rule srv;
          dedup = dedup_key rule srv
      in if \<not> breached then (breach(k := None), firing, active)
         else
           let start = (case breach k of None \<Rightarrow> now | Some t \<Rightarrow> t);
               breach' = (case breach k of None \<Rightarrow> breach(k \<mapsto> now) | Some _ \<Rightarrow> breach)
           in if time_Sub now start < for_duration rule then (breach', firing, active)
              else
                let inst = (case firing dedup of None \<Rightarrow> new_instance orgID now rule srv | Some i \<Rightarrow> i)
                in (breach', firing(dedup \<mapsto> inst\<lparr>ali_RootCause := detail\<rparr>), insert dedup active))"

definition eval_rule :: "string \<Rightarrow> time \<Rightarrow> memory \<Rightarrow> server list \<Rightarrow> alert \<Rightarrow> eval_state \<Rightarrow> eval_state" where
  "eval_rule orgID now m servers rule st =
     (if \<not> alr_Enabled rule then st
      else case parseRule (alr_Expr rule) of
        None \<Rightarrow> st
      | Some c \<Rightarrow> fold (eval_server orgID now m rule c) servers st)"

definition evaluateAlerts :: "inputs \<Rightarrow> nat \<Rightarrow> string \<Rightarrow> server_state \<Rightarrow> server_state" where
  "evaluateAlerts x i orgID s =
     (let m = ss_store s;
          rules = ListAlerts (in_alerts x) orgID m;
          servers = ListServers (in_servers x) orgID m;
          now = in_time x i;
          ae = ss_alerts s;
          firing0 = (case ae_firing ae orgID of None \<Rightarrow> Map.empty | Some f \<Rightarrow> f);
          (breach, firing, active) = fold (eval_rule orgID now m servers) rules (ae_breach ae, firing0, {});
          firing' = (\<lambda>d. if d \<in> active then firing d else None)
      in s\<lparr>ss_alerts := \<lparr>ae_breach = breach, ae_firing = (ae_firing ae)(orgID \<mapsto> firing')\<rparr>\<rparr>)"

definition firing_of :: "string \<Rightarrow> alert_engine \<Rightarrow> (string \<rightharpoonup> alert_instance)" where
  "firing_of orgID ae = (case ae_firing ae orgID of None \<Rightarrow> Map.empty | Some f \<Rightarrow> f)"

text \<open>\<open>firingInstances\<close>: \<open>ord\<close> is the order in which the runtime visits the firing map.\<close>

definition firingInstances :: "string list \<Rightarrow> string \<Rightarrow> alert_engine \<Rightarrow> alert_instance list" where
  "firingInstances ord orgID ae = range_vals (firing_of orgID ae) ord"

subsection \<open>Handlers\<close>

definition createAlertRequest :: "(string \<times> field_type) list" where
  "createAlertRequest = [(''name'', FString), (''expr'', FString), (''severity'', FString), (''for_seconds'', FInt),
     (''cooldown_seconds'', FInt), (''enabled'', FBool)]"

definition alert_severity :: "string \<Rightarrow> severity" where
  "alert_severity sev = (if sev \<noteq> SevInfo \<and> sev \<noteq> SevWarning \<and> sev \<noteq> SevCritical then SevWarning else sev)"

definition alert_of_request :: "string \<Rightarrow> string \<Rightarrow> members \<Rightarrow> alert" where
  "alert_of_request i orgID req =
     \<lparr>alr_ID = i, alr_OrgID = orgID, alr_Name = get_string ''name'' req, alr_Expr = get_string ''expr'' req,
      alr_Severity = alert_severity (get_string ''severity'' req), alr_ForSeconds = get_int ''for_seconds'' req,
      alr_CooldownSeconds = get_int ''cooldown_seconds'' req, alr_Enabled = get_bool ''enabled'' req\<rparr>"

definition alert_fields :: "alert \<Rightarrow> (string \<times> json_value) list" where
  "alert_fields a = [(''id'', JStr (alr_ID a)), (''org_id'', JStr (alr_OrgID a)), (''name'', JStr (alr_Name a)),
     (''expr'', JStr (alr_Expr a)), (''severity'', JStr (alr_Severity a)), (''for_seconds'', JInt (alr_ForSeconds a)),
     (''cooldown_seconds'', JInt (alr_CooldownSeconds a)), (''enabled'', JBool (alr_Enabled a))]"

definition handleListAlerts :: "inputs \<Rightarrow> principal \<Rightarrow> server_state \<Rightarrow> alert list" where
  "handleListAlerts x p s = ListAlerts (in_alerts x) (p_OrgID p) (ss_store s)"

definition handleCreateAlert :: "inputs \<Rightarrow> principal \<Rightarrow> handler" where
  "handleCreateAlert x p r s =
     (case decodeJSON r createAlertRequest 8192 of
        None \<Rightarrow> (Fail 400 CodeValidation ''invalid request body'', s)
      | Some req \<Rightarrow>
          if get_string ''name'' req = [] \<or> get_string ''expr'' req = []
          then (Fail 400 CodeValidation ''name and expr are required'', s)
          else
            let (a, m) = CreateAlert (alert_of_request [] (p_OrgID p) req) (id_rnd x 0) (ss_store s)
            in (JSON 201 (alert_fields a),
                Record x 1 (p_OrgID p) (p_Email p) ''alert.create'' ''success'' (clientIP r)
                  [(''name'', get_string ''name'' req)] (s\<lparr>ss_store := m\<rparr>)))"

definition handleUpdateAlert :: "inputs \<Rightarrow> principal \<Rightarrow> handler" where
  "handleUpdateAlert x p r s =
     (case decodeJSON r createAlertRequest 8192 of
        None \<Rightarrow> (Fail 400 CodeValidation ''invalid request body'', s)
      | Some req \<Rightarrow>
          let a = alert_of_request (rq_PathValue r ''id'') (p_OrgID p) req in
          (case UpdateAlert (p_OrgID p) a (ss_store s) of
             (Inl _, m) \<Rightarrow> (Fail 404 CodeNotFound ''alert not found'', s\<lparr>ss_store := m\<rparr>)
           | (Inr _, m) \<Rightarrow>
               (JSON 200 (alert_fields a),
                Record x 0 (p_OrgID p) (p_Email p) ''alert.update'' ''success'' (clientIP r) [(''id'', alr_ID a)]
                  (s\<lparr>ss_store := m\<rparr>))))"

definition handleDeleteAlert :: "inputs \<Rightarrow> principal \<Rightarrow> handler" where
  "handleDeleteAlert x p r s =
     (case DeleteAlert (p_OrgID p) (rq_PathValue r ''id'') (ss_store s) of
        (Inl _, m) \<Rightarrow> (Fail 404 CodeNotFound ''alert not found'', s\<lparr>ss_store := m\<rparr>)
      | (Inr _, m) \<Rightarrow>
          (JSON 200 [(''status'', JStr ''deleted'')],
           Record x 0 (p_OrgID p) (p_Email p) ''alert.delete'' ''success'' (clientIP r) [(''id'', rq_PathValue r ''id'')]
             (s\<lparr>ss_store := m\<rparr>)))"

definition handleAlertInstances :: "inputs \<Rightarrow> string list \<Rightarrow> principal \<Rightarrow> server_state \<Rightarrow> alert_instance list \<times> server_state" where
  "handleAlertInstances x ord p s =
     (let s1 = evaluateAlerts x 0 (p_OrgID p) s in (firingInstances ord (p_OrgID p) (ss_alerts s1), s1))"

definition atoiDefault :: "string \<Rightarrow> int \<Rightarrow> int" where
  "atoiDefault t def = (if t = [] then def else case ParseInt10 t of None \<Rightarrow> def | Some n \<Rightarrow> n)"

text \<open>The two feeds; \<open>limit\<close> is the query parameter.\<close>

definition handleListEvents :: "string \<Rightarrow> principal \<Rightarrow> server_state \<Rightarrow> event list" where
  "handleListEvents limit p s = ListEvents (p_OrgID p) (limitInt (atoiDefault limit 50) 1 200) (ss_store s)"

definition handleListAudit :: "string \<Rightarrow> principal \<Rightarrow> server_state \<Rightarrow> audit_entry list" where
  "handleListAudit limit p s = ListAudit (p_OrgID p) (limitInt (atoiDefault limit 100) 1 200) (ss_store s)"

subsection \<open>One evaluation, pair by pair\<close>

text \<open>The pairs of an enabled, well-formed rule and a server, in the order of the two loops.\<close>

definition rule_pairs :: "server list \<Rightarrow> alert list \<Rightarrow> (alert \<times> rule_cond \<times> server) list" where
  "rule_pairs servers rules = concat (map (\<lambda>rule.
     if \<not> alr_Enabled rule then [] else case parseRule (alr_Expr rule) of
       None \<Rightarrow> [] | Some c \<Rightarrow> map (\<lambda>srv. (rule, c, srv)) servers) rules)"

definition eval_pair :: "string \<Rightarrow> time \<Rightarrow> memory \<Rightarrow> alert \<times> rule_cond \<times> server \<Rightarrow> eval_state \<Rightarrow> eval_state" where
  "eval_pair orgID now m p st = (case p of (rule, c, srv) \<Rightarrow> eval_server orgID now m rule c srv st)"

lemma fold_rules_pairs:
  "fold (eval_rule orgID now m servers) rules st = fold (eval_pair orgID now m) (rule_pairs servers rules) st"
proof (induction rules arbitrary: st)
  case (Cons rule rules)
  have "fold (eval_pair orgID now m) (map (\<lambda>srv. (rule, c, srv)) servers) st = fold (eval_server orgID now m rule c) servers st"
    for c st by (induction servers arbitrary: st) (simp_all add: eval_pair_def)
  with Cons show ?case by (simp add: eval_rule_def rule_pairs_def split: option.splits)
qed (simp add: rule_pairs_def)

text \<open>What a pair sees of the state: its timer, its instance and whether it is active.\<close>

definition obs :: "string \<Rightarrow> alert \<times> rule_cond \<times> server \<Rightarrow> eval_state \<Rightarrow> time option \<times> alert_instance option \<times> bool" where
  "obs orgID p st = (case (p, st) of ((rule, c, srv), (b, f, a)) \<Rightarrow>
     (b (breach_key orgID rule srv), f (dedup_key rule srv), dedup_key rule srv \<in> a))"

definition pair_step :: "string \<Rightarrow> time \<Rightarrow> memory \<Rightarrow> alert \<times> rule_cond \<times> server \<Rightarrow>
    time option \<times> alert_instance option \<times> bool \<Rightarrow> time option \<times> alert_instance option \<times> bool" where
  "pair_step orgID now m p o1 = (case (p, o1) of ((rule, c, srv), (b, f, a)) \<Rightarrow>
     let (breached, detail) = checkRule orgID srv c m; start = (case b of None \<Rightarrow> now | Some t \<Rightarrow> t) in
     if \<not> breached then (None, f, a)
     else if time_Sub now start < for_duration rule then (Some start, f, a)
     else (Some start, Some ((case f of None \<Rightarrow> new_instance orgID now rule srv | Some i \<Rightarrow> i)\<lparr>ali_RootCause := detail\<rparr>), True))"

lemma obs_same: "obs orgID p (eval_pair orgID now m p st) = pair_step orgID now m p (obs orgID p st)"
  by (cases p; cases st)
    (auto simp: obs_def eval_pair_def pair_step_def eval_server_def Let_def split: prod.splits option.splits)

definition pair_id :: "alert \<times> rule_cond \<times> server \<Rightarrow> string \<times> string" where
  "pair_id p = (case p of (rule, c, srv) \<Rightarrow> (alr_ID rule, srv_ServerID srv))"

definition plain_id :: "string \<Rightarrow> bool" where
  "plain_id i \<longleftrightarrow> CHR '':'' \<notin> set i \<and> CHR ''|'' \<notin> set i"

lemma sep_inj:
  assumes "(c :: char) \<notin> set a" and "c \<notin> set a'"
  shows "a @ [c] @ b = a' @ [c] @ b' \<longleftrightarrow> a = a' \<and> b = b'"
proof
  assume "a @ [c] @ b = a' @ [c] @ b'"
  then have "Cut (a @ c # b) c = Cut (a' @ c # b') c" by simp
  then show "a = a' \<and> b = b'" using assms by (simp add: Cut_append)
qed simp

lemma obs_other:
  assumes "pair_id p \<noteq> pair_id q" and "plain_id (alr_ID (fst p))" and "plain_id (alr_ID (fst q))"
  shows "obs orgID p (eval_pair orgID now m q st) = obs orgID p st"
proof -
  obtain r c srv where p: "p = (r, c, srv)" by (cases p)
  obtain r' c' srv' where q: "q = (r', c', srv')" by (cases q)
  have "breach_key orgID r srv \<noteq> breach_key orgID r' srv'" "dedup_key r srv \<noteq> dedup_key r' srv'"
    using assms sep_inj [of "CHR ''|''" "alr_ID r" "alr_ID r'"] sep_inj [of "CHR '':''" "alr_ID r" "alr_ID r'"]
    by (auto simp: p q pair_id_def plain_id_def breach_key_def dedup_key_def)
  then show ?thesis
    by (cases st) (auto simp: p q obs_def eval_pair_def eval_server_def Let_def split: prod.splits option.splits)
qed

lemma fold_obs:
  assumes "distinct (map pair_id ps)" and "\<forall>q \<in> set ps. plain_id (alr_ID (fst q))" and "plain_id (alr_ID (fst p))"
    and "pair_id p \<in> pair_id ` set ps \<longrightarrow> p \<in> set ps"
  shows "obs orgID p (fold (eval_pair orgID now m) ps st) =
    (if p \<in> set ps then pair_step orgID now m p (obs orgID p st) else obs orgID p st)"
  using assms
proof (induction ps arbitrary: st)
  case (Cons q ps)
  show ?case
  proof (cases "p = q")
    case True
    then have "pair_id p \<notin> pair_id ` set ps" using Cons.prems(1) by auto
    then have "obs orgID p (fold (eval_pair orgID now m) ps st') = obs orgID p st'" for st'
      using Cons.IH Cons.prems by auto
    then show ?thesis using True by (simp add: obs_same)
  next
    case False
    have ne: "pair_id p \<noteq> pair_id q"
    proof
      assume e: "pair_id p = pair_id q"
      then have "p \<in> set ps" using Cons.prems(4) False by simp
      then have "pair_id p \<in> pair_id ` set ps" by (rule imageI)
      then show False using Cons.prems(1) e by simp
    qed
    then show ?thesis
      using Cons.IH [of "eval_pair orgID now m q st"] Cons.prems False obs_other [OF ne] by auto
  qed
qed simp

lemma rule_pairs_set:
  "(rule, c, srv) \<in> set (rule_pairs servers rules) \<longleftrightarrow>
     rule \<in> set rules \<and> alr_Enabled rule \<and> parseRule (alr_Expr rule) = Some c \<and> srv \<in> set servers"
  by (force simp: rule_pairs_def split: if_splits option.splits)

lemma rule_pairs_Cons:
  "rule_pairs servers (rule # rules) =
     (if \<not> alr_Enabled rule then [] else case parseRule (alr_Expr rule) of
        None \<Rightarrow> [] | Some c \<Rightarrow> map (\<lambda>srv. (rule, c, srv)) servers) @ rule_pairs servers rules"
  by (simp add: rule_pairs_def)

lemma rule_pairs_distinct:
  assumes "distinct (map alr_ID rules)" and "distinct (map srv_ServerID servers)"
  shows "distinct (map pair_id (rule_pairs servers rules))"
  using assms(1)
proof (induction rules)
  case (Cons rule rules)
  have 1: "distinct (map pair_id (map (\<lambda>srv. (rule, c, srv)) servers))" for c
    using assms(2) by (simp add: comp_def pair_id_def distinct_map inj_on_def)
  have 2: "pair_id (rule, c, srv) \<notin> pair_id ` set (rule_pairs servers rules)" for c srv
  proof
    assume "pair_id (rule, c, srv) \<in> pair_id ` set (rule_pairs servers rules)"
    then obtain r' c' v where "(r', c', v) \<in> set (rule_pairs servers rules)" "alr_ID rule = alr_ID r'"
      by (auto simp: pair_id_def)
    then show False using Cons.prems by (simp add: rule_pairs_set)
  qed
  have "set (map pair_id (map (\<lambda>srv. (rule, c, srv)) servers)) \<inter> set (map pair_id (rule_pairs servers rules)) = {}" for c
    unfolding disjoint_iff set_map image_image
  proof (intro allI impI)
    fix y assume "y \<in> (\<lambda>v. pair_id (rule, c, v)) ` set servers"
    then obtain v where "y = pair_id (rule, c, v)" by (rule imageE)
    then show "y \<notin> pair_id ` set (rule_pairs servers rules)" using 2 by (simp only: not_False_eq_True)
  qed
  then show ?case using Cons 1
    unfolding rule_pairs_Cons by (simp only: map_append distinct_append) (simp add: image_image split: option.splits)
qed (simp add: rule_pairs_def)

subsection \<open>Properties of the evaluator\<close>

abbreviation rules_of :: "inputs \<Rightarrow> string \<Rightarrow> server_state \<Rightarrow> alert list" where
  "rules_of x orgID s \<equiv> ListAlerts (in_alerts x) orgID (ss_store s)"

abbreviation servers_of :: "inputs \<Rightarrow> string \<Rightarrow> server_state \<Rightarrow> server list" where
  "servers_of x orgID s \<equiv> ListServers (in_servers x) orgID (ss_store s)"

text \<open>Rules and servers of the organisation are told apart by their identifiers.\<close>

definition ids_distinct :: "inputs \<Rightarrow> string \<Rightarrow> server_state \<Rightarrow> bool" where
  "ids_distinct x orgID s \<longleftrightarrow> distinct (map alr_ID (rules_of x orgID s)) \<and>
     distinct (map srv_ServerID (servers_of x orgID s)) \<and> (\<forall>r \<in> set (rules_of x orgID s). plain_id (alr_ID r))"

lemma evaluate_fold:
  "fold (eval_rule orgID now m servers) rules (b0, f0, {}) = (b, f, a) \<Longrightarrow>
   obs orgID p (b, f, a) = obs orgID p (fold (eval_pair orgID now m) (rule_pairs servers rules) (b0, f0, {}))"
  by (simp add: fold_rules_pairs)

lemma evaluate_obs:
  assumes "ids_distinct x orgID s" and "rule \<in> set (rules_of x orgID s)" and "srv \<in> set (servers_of x orgID s)"
    and "alr_Enabled rule" and "parseRule (alr_Expr rule) = Some c"
  shows "(ae_breach (ss_alerts (evaluateAlerts x i orgID s)) (breach_key orgID rule srv),
          firing_of orgID (ss_alerts (evaluateAlerts x i orgID s)) (dedup_key rule srv)) =
    (case pair_step orgID (in_time x i) (ss_store s) (rule, c, srv)
        (ae_breach (ss_alerts s) (breach_key orgID rule srv), firing_of orgID (ss_alerts s) (dedup_key rule srv), False) of
       (b, f, a) \<Rightarrow> (b, if a then f else None))"
proof -
  let ?ps = "rule_pairs (servers_of x orgID s) (rules_of x orgID s)"
  let ?st = "(ae_breach (ss_alerts s), firing_of orgID (ss_alerts s), {})"
  have mem: "(rule, c, srv) \<in> set ?ps" using assms by (simp add: rule_pairs_set)
  have "plain_id (alr_ID (fst q))" if "q \<in> set ?ps" for q
  proof -
    obtain r c' v where "q = (r, c', v)" using prod_cases3 by blast
    then show ?thesis using that assms(1) by (simp add: rule_pairs_set ids_distinct_def)
  qed
  then have "obs orgID (rule, c, srv) (fold (eval_pair orgID (in_time x i) (ss_store s)) ?ps ?st) =
      pair_step orgID (in_time x i) (ss_store s) (rule, c, srv) (obs orgID (rule, c, srv) ?st)"
    using fold_obs [of ?ps "(rule, c, srv)" orgID "in_time x i" "ss_store s" ?st] mem assms(1)
      rule_pairs_distinct [of "rules_of x orgID s" "servers_of x orgID s"]
    by (auto simp: ids_distinct_def)
  then show ?thesis
    unfolding evaluateAlerts_def Let_def firing_of_def [symmetric] fold_rules_pairs
    by (auto simp: obs_def firing_of_def split: prod.splits)
qed


lemma evaluate_skips:
  assumes "ids_distinct x orgID s" and "rule \<in> set (rules_of x orgID s)" and "\<not> alr_Enabled rule"
  shows "ae_breach (ss_alerts (evaluateAlerts x i orgID s)) (breach_key orgID rule srv) =
    ae_breach (ss_alerts s) (breach_key orgID rule srv)"
proof -
  let ?ps = "rule_pairs (servers_of x orgID s) (rules_of x orgID s)"
  let ?st = "(ae_breach (ss_alerts s), firing_of orgID (ss_alerts s), {})"
  let ?p = "(rule, RcContainerDown [], srv)"
  have mem: "fst q \<in> set (rules_of x orgID s) \<and> alr_Enabled (fst q)" if "q \<in> set ?ps" for q
  proof -
    obtain r c' v where "q = (r, c', v)" using prod_cases3 by blast
    then show ?thesis using that by (simp add: rule_pairs_set)
  qed
  have no: "pair_id ?p \<notin> pair_id ` set ?ps"
  proof
    assume "pair_id ?p \<in> pair_id ` set ?ps"
    then obtain q where q: "q \<in> set ?ps" "alr_ID (fst q) = alr_ID rule" by (auto simp: pair_id_def)
    then have "fst q = rule"
      using mem [OF q(1)] assms(1,2) by (auto simp: ids_distinct_def distinct_map dest: inj_onD)
    then show False using mem [OF q(1)] assms(3) by simp
  qed
  then have "?p \<notin> set ?ps" by (metis imageI)
  then have "obs orgID ?p (fold (eval_pair orgID (in_time x i) (ss_store s)) ?ps ?st) = obs orgID ?p ?st"
    using fold_obs [of ?ps ?p orgID "in_time x i" "ss_store s" ?st] no mem assms
      rule_pairs_distinct [of "rules_of x orgID s" "servers_of x orgID s"]
    by (auto simp: ids_distinct_def)
  then show ?thesis
    unfolding evaluateAlerts_def Let_def firing_of_def [symmetric] fold_rules_pairs
    by (auto simp: obs_def split: prod.splits)
qed

text \<open>A disabled rule keeps its breach timer. A timer that was running when a rule was disabled
  is neither cleared nor restarted, so the first evaluation after the rule is enabled again fires
  at once if the old start is far enough back, however long the rule was off and whatever
  happened in between.\<close>

theorem disabled_rule_keeps_breach_timer:
  assumes "ids_distinct x1 orgID s1" and "rule \<in> set (rules_of x1 orgID s1)" and "\<not> alr_Enabled rule"
    and "ae_breach (ss_alerts s1) (breach_key orgID rule srv) = Some t0"
    and "s2 = (evaluateAlerts x1 i orgID s1)\<lparr>ss_store := m2\<rparr>" and "ids_distinct x2 orgID s2"
    and "rule2 \<in> set (rules_of x2 orgID s2)" and "alr_ID rule2 = alr_ID rule" and "alr_Enabled rule2"
    and "parseRule (alr_Expr rule2) = Some c" and "srv2 \<in> set (servers_of x2 orgID s2)"
    and "srv_ServerID srv2 = srv_ServerID srv" and "fst (checkRule orgID srv2 c m2)"
  shows "firing_of orgID (ss_alerts (evaluateAlerts x2 j orgID s2)) (dedup_key rule2 srv2) \<noteq> None \<longleftrightarrow>
    for_duration rule2 \<le> time_Sub (in_time x2 j) t0"
proof -
  have "ae_breach (ss_alerts s2) (breach_key orgID rule2 srv2) = Some t0"
    using evaluate_skips [OF assms(1-3), of i srv] assms(4,5,8,12) by (simp add: breach_key_def)
  then show ?thesis
    using evaluate_obs [OF assms(6,7,11,9,10), of j] assms(5,13)
    by (auto simp: pair_step_def Let_def not_less split: prod.splits if_splits)
qed

lemma eval_pair_active:
  "snd (snd (eval_pair orgID now m p st)) \<subseteq> insert (dedup_key (fst p) (snd (snd p))) (snd (snd st))"
  by (cases p; cases st) (auto simp: eval_pair_def eval_server_def Let_def split: prod.splits)

lemma fold_active:
  "snd (snd (fold (eval_pair orgID now m) ps st)) \<subseteq> (\<lambda>p. dedup_key (fst p) (snd (snd p))) ` set ps \<union> snd (snd st)"
proof (induction ps arbitrary: st)
  case (Cons p ps)
  show ?case using Cons [of "eval_pair orgID now m p st"] eval_pair_active [of orgID now m p st] by fastforce
qed simp

lemma eval_pair_breach:
  assumes "k \<noteq> breach_key orgID (fst p) (snd (snd p))"
  shows "fst (eval_pair orgID now m p st) k = fst st k"
  using assms by (cases p; cases st) (auto simp: eval_pair_def eval_server_def Let_def split: prod.splits option.splits)

lemma fold_breach:
  assumes "\<And>p. p \<in> set ps \<Longrightarrow> k \<noteq> breach_key orgID (fst p) (snd (snd p))"
  shows "fst (fold (eval_pair orgID now m) ps st) k = fst st k"
  using assms by (induction ps arbitrary: st) (simp_all add: eval_pair_breach)

text \<open>Evaluation is scoped and recovers. Evaluating one organisation leaves the store, the firing
  alerts and the breach timers of every other organisation alone, and whatever fires afterwards
  in the evaluated organisation belongs to one of its enabled, well-formed rules and one of its
  servers: instances of deleted or disabled rules and of removed servers are gone.\<close>

theorem alert_evaluation_scoped:
  assumes "s' = evaluateAlerts x i orgID s" and "CHR ''|'' \<notin> set orgID"
  shows "ss_store s' = ss_store s \<and>
    (\<forall>t. t \<noteq> orgID \<longrightarrow> firing_of t (ss_alerts s') = firing_of t (ss_alerts s) \<and>
       (CHR ''|'' \<notin> set t \<longrightarrow> (\<forall>rule srv. ae_breach (ss_alerts s') (breach_key t rule srv) =
          ae_breach (ss_alerts s) (breach_key t rule srv)))) \<and>
    (\<forall>d. firing_of orgID (ss_alerts s') d \<noteq> None \<longrightarrow>
       (\<exists>rule \<in> set (rules_of x orgID s). \<exists>srv \<in> set (servers_of x orgID s).
          d = dedup_key rule srv \<and> alr_Enabled rule \<and> parseRule (alr_Expr rule) \<noteq> None))"
proof -
  let ?ps = "rule_pairs (servers_of x orgID s) (rules_of x orgID s)"
  let ?st = "(ae_breach (ss_alerts s), firing_of orgID (ss_alerts s), {})"
  obtain b f a where F: "fold (eval_pair orgID (in_time x i) (ss_store s)) ?ps ?st = (b, f, a)"
    using prod_cases3 by blast
  have E: "ss_alerts s' = \<lparr>ae_breach = b, ae_firing = (ae_firing (ss_alerts s))(orgID \<mapsto> (\<lambda>d. if d \<in> a then f d else None))\<rparr>"
    "ss_store s' = ss_store s"
    using F by (simp_all add: assms(1) evaluateAlerts_def Let_def fold_rules_pairs firing_of_def [symmetric])
  have "b (breach_key t rule srv) = ae_breach (ss_alerts s) (breach_key t rule srv)"
    if "t \<noteq> orgID" "CHR ''|'' \<notin> set t" for t rule srv
    using fold_breach [of ?ps "breach_key t rule srv" orgID "in_time x i" "ss_store s" ?st] F that assms(2)
      sep_inj [of "CHR ''|''" t orgID] by (simp add: breach_key_def)
  moreover have "\<exists>rule \<in> set (rules_of x orgID s). \<exists>srv \<in> set (servers_of x orgID s).
      d = dedup_key rule srv \<and> alr_Enabled rule \<and> parseRule (alr_Expr rule) \<noteq> None" if da: "d \<in> a" for d
  proof -
    obtain q where "q \<in> set ?ps" "d = dedup_key (fst q) (snd (snd q))"
      using fold_active [of orgID "in_time x i" "ss_store s" ?ps ?st] F da by auto
    moreover obtain r c v where "q = (r, c, v)" using prod_cases3 by blast
    ultimately show ?thesis by (auto simp: rule_pairs_set)
  qed
  ultimately show ?thesis using E by (auto simp: firing_of_def split: if_splits)
qed

subsection \<open>Witnesses\<close>

definition demo_rule :: "bool \<Rightarrow> alert" where
  "demo_rule en = \<lparr>alr_ID = ''r'', alr_OrgID = ''o'', alr_Name = ''cpu'', alr_Expr = ''cpu > 80'', alr_Severity = SevWarning,
     alr_ForSeconds = 60, alr_CooldownSeconds = 0, alr_Enabled = en\<rparr>"

definition demo_srv :: server where
  "demo_srv = \<lparr>srv_ID = ''row'', srv_OrgID = ''o'', srv_ServerID = ''s'', srv_Hostname = ''web'', srv_Mode = ''cloud'',
     srv_Status = HealthHealthy, srv_LastSeenAt = 0, srv_CreatedAt = 0\<rparr>"

definition demo_sample :: raw_json where
  \<open>demo_sample = ''{"cpu_percent":95.5,"mem_used_bytes":1}''\<close>

definition demo_alert_store :: "bool \<Rightarrow> memory" where
  "demo_alert_store en = NewMemory\<lparr>m_alerts := [''r'' \<mapsto> demo_rule en], m_servers := [''row'' \<mapsto> demo_srv],
     m_metrics := [key ''o'' ''s'' \<mapsto> demo_sample]\<rparr>"

text \<open>The breach was first seen at time 0; the engine is asked again at \<open>now\<close>.\<close>

definition demo_alert_state :: "bool \<Rightarrow> server_state" where
  "demo_alert_state en = (New (demo_alert_store en))\<lparr>ss_alerts := newAlertEngine\<lparr>ae_breach := [''o|r|s'' \<mapsto> 0]\<rparr>\<rparr>"

definition demo_poll :: "time \<Rightarrow> inputs" where
  "demo_poll now = \<lparr>in_time = (\<lambda>_. now), in_rnd = (\<lambda>_. None), in_servers = [''row''], in_agents = [], in_alerts = [''r'']\<rparr>"

lemma demo_parse: "parseRule ''cpu > 80'' = Some (RcMetric ''cpu'' ''>'' (Fin 80))"
proof -
  have f: "Fields (TrimSpace ''cpu > 80'') = [''cpu'', ''>'', ''80'']" "ToLower ''cpu'' = ''cpu''" "ToLower ''80'' = ''80''"
    "dec_float ''80'' = Some 80"
    by code_simp+
  have "ParseFloat ''80'' = Some (Fin 80)"
    by (simp add: ParseFloat_def f HasPrefix_def)
  then show ?thesis by (simp add: parseRule_def f)
qed

lemma demo_value: "metricValueFromSample demo_sample ''cpu'' = Some (191 / 2)"
proof -
  have j: \<open>json_Unmarshal demo_sample = Some (JvObj [(''cpu_percent'', ''95.5'', JvNum ''95.5''), (''mem_used_bytes'', ''1'', JvNum ''1'')])\<close>
    by code_simp
  have t: "is_digit (CHR ''9'')" "is_digit (CHR ''5'')" "is_digit (CHR ''1'')" "\<not> is_digit (CHR ''.'')"
    "digits_val ''955'' = 955" "digits_val ''1'' = 1"
    by code_simp+
  have n: "num_val ''95.5'' = 191 / 2" by (simp add: num_val_def t pow10_def exp_val_def Let_def)
  have u: "ParseUint10 ''1'' = Some 1" by (simp add: ParseUint10_def t)
  show ?thesis
    by (simp add: metricValueFromSample_def j decode_struct_def field_of_def sample_fields_def EqualFold_def ToLower_def lower_char_def
        float_ok_def n u get_float_def get_member_def)
qed

lemma demo_lists:
  "ListAlerts (in_alerts (demo_poll now)) ''o'' (demo_alert_store en) = [demo_rule en]"
  "ListServers (in_servers (demo_poll now)) ''o'' (demo_alert_store en) = [demo_srv]"
  by (simp_all add: ListAlerts_def ListServers_def range_vals_def List.map_filter_def demo_alert_store_def demo_poll_def
      demo_rule_def demo_srv_def)

lemma demo_ids: "ss_store s = demo_alert_store en \<Longrightarrow> ids_distinct (demo_poll now) ''o'' s"
  by (simp add: ids_distinct_def demo_lists plain_id_def) (simp add: demo_rule_def)

lemma demo_check: "fst (checkRule ''o'' demo_srv (RcMetric ''cpu'' ''>'' (Fin 80)) (demo_alert_store en))"
proof -
  have "GetMetrics ''o'' (srv_ServerID demo_srv) (demo_alert_store en) = Inr demo_sample"
    by (simp add: GetMetrics_def demo_alert_store_def demo_srv_def)
  then show ?thesis by (simp add: checkRule_def demo_value above_def)
qed

lemma demo_keys: "breach_key ''o'' (demo_rule en) demo_srv = ''o|r|s''" "for_duration (demo_rule en) = 60 * second"
  by (simp_all add: breach_key_def demo_rule_def demo_srv_def for_duration_def wrap64_def)

lemma demo_store_state: "ss_store (demo_alert_state en) = demo_alert_store en"
  by (simp add: demo_alert_state_def New_def)

lemma demo_rule_simps: "alr_Enabled (demo_rule en) = en" "parseRule (alr_Expr (demo_rule en)) = Some (RcMetric ''cpu'' ''>'' (Fin 80))"
  "alr_ID (demo_rule en) = ''r''"
  by (simp_all add: demo_rule_def demo_parse)

lemma demo_elapsed: "60 * second \<le> time_Sub (90 * second) 0"
  by (simp add: time_Sub_def sat64_def minDuration_def maxDuration_def)

lemma demo_start: "ae_breach (ss_alerts (demo_alert_state en)) ''o|r|s'' = Some 0" "in_time (demo_poll now) i = now"
  by (simp_all add: demo_alert_state_def demo_poll_def)


theorem disabled_rule_keeps_breach_timer_witness:
  "firing_of ''o'' (ss_alerts (evaluateAlerts (demo_poll (90 * second)) 0 ''o''
     ((evaluateAlerts (demo_poll (80 * second)) 0 ''o'' (demo_alert_state False))\<lparr>ss_store := demo_alert_store True\<rparr>)))
     (dedup_key (demo_rule True) demo_srv) \<noteq> None"
proof -
  let ?s2 = "(evaluateAlerts (demo_poll (80 * second)) 0 ''o'' (demo_alert_state False))\<lparr>ss_store := demo_alert_store True\<rparr>"
  have l: "rules_of (demo_poll (80 * second)) ''o'' (demo_alert_state False) = [demo_rule False]"
    "rules_of (demo_poll (90 * second)) ''o'' ?s2 = [demo_rule True]" "servers_of (demo_poll (90 * second)) ''o'' ?s2 = [demo_srv]"
    by (simp_all add: demo_store_state demo_lists)
  have "ids_distinct (demo_poll (90 * second)) ''o'' ?s2" by (rule demo_ids) simp
  then show ?thesis
    using disabled_rule_keeps_breach_timer [where ?x1.0 = "demo_poll (80 * second)" and orgID = "''o''"
        and ?s1.0 = "demo_alert_state False" and rule = "demo_rule False" and srv = demo_srv and ?t0.0 = 0 and i = 0
        and ?m2.0 = "demo_alert_store True" and ?x2.0 = "demo_poll (90 * second)" and ?rule2.0 = "demo_rule True"
        and c = "RcMetric ''cpu'' ''>'' (Fin 80)" and ?srv2.0 = demo_srv and j = 0,
        OF demo_ids [OF demo_store_state] _ _ _ refl] demo_check [of True] demo_elapsed
    by (simp only: l list.set insert_iff demo_rule_simps demo_keys demo_start refl simp_thms)
qed

theorem alert_evaluation_scoped_witness:
  "firing_of ''t'' (ss_alerts (evaluateAlerts (demo_poll 5) 0 ''o'' (demo_alert_state True))) = Map.empty"
proof -
  have "firing_of ''t'' (ss_alerts (demo_alert_state True)) = Map.empty"
    by (simp add: demo_alert_state_def newAlertEngine_def firing_of_def)
  then show ?thesis using alert_evaluation_scoped [of _ "demo_poll 5" 0 "''o''" "demo_alert_state True", OF refl] by simp
qed

end
