(* ===== verification/Pulse_Wsx.thy ===== *)
theory Pulse_Wsx
  imports Go_Encoding
begin

section \<open>Package \<open>wsx\<close>: the server half of WebSocket\<close>

text \<open>
  \<^verbatim>\<open>apps/api/internal/wsx/websocket.go\<close>. A connection is the bytes the peer has still to
  deliver (the stream ends after them), the bytes written so far, the closed flag, and whether
  the network still accepts writes. Read deadlines and the write mutex are not state: one call is
  one step.
\<close>

unbundle bit_operations_syntax

datatype ws_error = ErrClosed | ErrNotUpgrade | ErrNoHijack | ErrProtocol | ErrMessageSize | ErrEOF | ErrUnexpectedEOF | ErrWrite

definition OpContinuation :: byte where "OpContinuation = 0x0"
definition OpText :: byte where "OpText = 0x1"
definition OpBinary :: byte where "OpBinary = 0x2"
definition OpClose :: byte where "OpClose = 0x8"
definition OpPing :: byte where "OpPing = 0x9"
definition OpPong :: byte where "OpPong = 0xA"

lemmas op_defs = OpContinuation_def OpText_def OpBinary_def OpClose_def OpPing_def OpPong_def

definition MaxMessage :: nat where "MaxMessage = 1048576"

record ws_conn =
  ws_in :: bytes
  ws_out :: bytes
  ws_closed :: bool
  ws_up :: bool

subsection \<open>Handshake\<close>

definition headerHasToken :: "string list \<Rightarrow> string \<Rightarrow> bool" where
  "headerHasToken vs token \<longleftrightarrow>
     list_ex (\<lambda>v. list_ex (\<lambda>part. EqualFold (TrimSpace part) token) (Split v (CHR '',''))) vs"

definition first_value :: "string list \<Rightarrow> string" where
  "first_value vs = (case vs of [] \<Rightarrow> [] | v # _ \<Rightarrow> v)"

text \<open>\<open>h\<close> gives the values of each (canonical) header name.\<close>

definition IsUpgrade :: "string \<Rightarrow> (string \<Rightarrow> string list) \<Rightarrow> bool" where
  "IsUpgrade method h \<longleftrightarrow>
     method = ''GET'' \<and> EqualFold (first_value (h ''Upgrade'')) ''websocket'' \<and>
     headerHasToken (h ''Connection'') ''upgrade'' \<and>
     first_value (h ''Sec-Websocket-Version'') = ''13'' \<and> first_value (h ''Sec-Websocket-Key'') \<noteq> []"

definition magicGUID :: string where
  "magicGUID = ''258EAFA5-E914-47DA-95CA-C5AB0DC85B11''"

definition crlf :: string where "crlf = [CHR 0x0D, CHR 0x0A]"

definition accept_response :: "(bytes \<Rightarrow> bytes) \<Rightarrow> string \<Rightarrow> string" where
  "accept_response sha1 key =
     ''HTTP/1.1 101 Switching Protocols'' @ crlf @ ''Upgrade: websocket'' @ crlf @ ''Connection: Upgrade'' @ crlf @
     ''Sec-WebSocket-Accept: '' @ b64_std_encode (sha1 (str_bytes (key @ magicGUID))) @ crlf @ crlf"

text \<open>\<open>Accept\<close>: \<open>hijack\<close> is what the response writer's hijacker gives, \<open>None\<close> when there is
  none: the bytes already buffered and still to come, and whether the connection accepts writes.\<close>

definition Accept :: "(bytes \<Rightarrow> bytes) \<Rightarrow> string \<Rightarrow> (string \<Rightarrow> string list) \<Rightarrow> (bytes \<times> bool) option \<Rightarrow> ws_error + ws_conn" where
  "Accept sha1 method h hijack =
     (if \<not> IsUpgrade method h then Inl ErrNotUpgrade
      else case hijack of
        None \<Rightarrow> Inl ErrNoHijack
      | Some (inp, up) \<Rightarrow>
          if \<not> up then Inl ErrWrite
          else Inr \<lparr>ws_in = inp, ws_out = str_bytes (accept_response sha1 (first_value (h ''Sec-Websocket-Key''))),
                    ws_closed = False, ws_up = True\<rparr>)"

subsection \<open>Framing\<close>

text \<open>\<open>io.ReadFull\<close>: \<open>n\<close> bytes and the rest, or the error.\<close>

definition ReadFull :: "nat \<Rightarrow> bytes \<Rightarrow> (ws_error + bytes) \<times> bytes" where
  "ReadFull n s =
     (if n \<le> length s then (Inr (take n s), drop n s)
      else (Inl (if s = [] then ErrEOF else ErrUnexpectedEOF), []))"

definition unmask :: "bytes \<Rightarrow> bytes \<Rightarrow> bytes" where
  "unmask mk payload = map (\<lambda>(i, b). b XOR mk ! (i mod 4)) (enumerate 0 payload)"

text \<open>The length field: the short form, or two or eight further bytes.\<close>

definition read_length :: "byte \<Rightarrow> bytes \<Rightarrow> (ws_error + nat) \<times> bytes" where
  "read_length b s =
     (let n = unat (b AND 0x7F) in
      if n = 126 then (case ReadFull 2 s of (Inl e, r) \<Rightarrow> (Inl e, r) | (Inr ext, r) \<Rightarrow> (Inr (be_val ext), r))
      else if n = 127 then (case ReadFull 8 s of (Inl e, r) \<Rightarrow> (Inl e, r) | (Inr ext, r) \<Rightarrow> (Inr (be_val ext), r))
      else (Inr n, s))"

definition readFrame :: "bytes \<Rightarrow> (ws_error + bool \<times> byte \<times> bytes) \<times> bytes" where
  "readFrame s =
     (case ReadFull 2 s of
        (Inl e, r) \<Rightarrow> (Inl e, r)
      | (Inr hdr, r) \<Rightarrow>
          let fin = (hdr ! 0 AND 0x80 \<noteq> 0); opcode = hdr ! 0 AND 0x0F; masked = (hdr ! 1 AND 0x80 \<noteq> 0) in
          if hdr ! 0 AND 0x70 \<noteq> 0 then (Inl ErrProtocol, r)
          else (case read_length (hdr ! 1) r of
              (Inl e, r1) \<Rightarrow> (Inl e, r1)
            | (Inr n, r1) \<Rightarrow>
                if OpClose \<le> opcode \<and> (125 < n \<or> \<not> fin) then (Inl ErrProtocol, r1)
                else if MaxMessage < n then (Inl ErrMessageSize, r1)
                else if \<not> masked then (Inl ErrProtocol, r1)
                else (case ReadFull 4 r1 of
                    (Inl e, r2) \<Rightarrow> (Inl e, r2)
                  | (Inr mk, r2) \<Rightarrow>
                      (case ReadFull n r2 of
                         (Inl e, r3) \<Rightarrow> (Inl e, r3)
                       | (Inr payload, r3) \<Rightarrow> (Inr (fin, opcode, unmask mk payload), r3)))))"

definition frame_bytes :: "byte \<Rightarrow> bytes \<Rightarrow> bytes" where
  "frame_bytes opcode payload =
     (let n = length payload in
      (0x80 OR opcode) #
      (if n \<le> 125 then [of_nat n]
       else if n \<le> 0xFFFF then 126 # be_bytes 2 (n mod 2 ^ 16)
       else 127 # be_bytes 8 (n mod 2 ^ 64)) @ payload)"

definition writeFrame :: "byte \<Rightarrow> bytes \<Rightarrow> ws_conn \<Rightarrow> ws_error option \<times> ws_conn" where
  "writeFrame opcode payload c =
     (if ws_closed c then (Some ErrClosed, c)
      else if \<not> ws_up c then (Some ErrWrite, c)
      else (None, c\<lparr>ws_out := ws_out c @ frame_bytes opcode payload\<rparr>))"

definition WriteText :: "bytes \<Rightarrow> ws_conn \<Rightarrow> ws_error option \<times> ws_conn" where
  "WriteText b c = writeFrame OpText b c"

definition WriteBinary :: "bytes \<Rightarrow> ws_conn \<Rightarrow> ws_error option \<times> ws_conn" where
  "WriteBinary b c = writeFrame OpBinary b c"

definition WritePing :: "ws_conn \<Rightarrow> ws_error option \<times> ws_conn" where
  "WritePing c = writeFrame OpPing [] c"

definition ws_Close :: "ws_conn \<Rightarrow> ws_conn" where
  "ws_Close c = c\<lparr>ws_closed := True\<rparr>"

definition CloseWith :: "nat \<Rightarrow> string \<Rightarrow> ws_conn \<Rightarrow> ws_conn" where
  "CloseWith code reason c =
     (if ws_closed c then c
      else ws_Close (snd (writeFrame OpClose (be_bytes 2 (code mod 2 ^ 16) @ str_bytes reason) c)))"

subsection \<open>Messages\<close>

lemma ReadFull_Inr: "ReadFull n s = (Inr xs, r) \<longleftrightarrow> s = xs @ r \<and> length xs = n"
  by (auto simp: ReadFull_def)

lemma ReadFull_length: "ReadFull n s = (Inr xs, r) \<Longrightarrow> length r + n = length s"
  by (auto simp: ReadFull_def split: if_splits)

lemma read_length_shrinks: "read_length b s = (Inr n, r) \<Longrightarrow> length r \<le> length s"
  by (auto simp: read_length_def Let_def split: if_splits prod.splits sum.splits dest!: ReadFull_length)

text \<open>What \<open>readFrame\<close> has read when it returns a frame.\<close>

lemma readFrame_Inr:
  "readFrame s = (Inr (fin, opc, data), r) \<longleftrightarrow>
     (\<exists>b0 b1 r1 n r2 mk p. s = b0 # b1 # r1 \<and> b0 AND 0x70 = 0 \<and> fin = (b0 AND 0x80 \<noteq> 0) \<and> opc = b0 AND 0x0F \<and>
        read_length b1 r1 = (Inr n, r2) \<and> \<not> (OpClose \<le> opc \<and> (125 < n \<or> \<not> fin)) \<and> n \<le> MaxMessage \<and>
        b1 AND 0x80 \<noteq> 0 \<and> r2 = mk @ p @ r \<and> length mk = 4 \<and> length p = n \<and> data = unmask mk p)"
  (is "?l \<longleftrightarrow> ?r")
proof
  assume ?l
  then obtain hdr r1 where h: "ReadFull 2 s = (Inr hdr, r1)"
    by (auto simp: readFrame_def split: prod.splits sum.splits)
  then obtain b0 b1 where s: "hdr = [b0, b1]" "s = b0 # b1 # r1"
    by (auto simp: ReadFull_Inr length_Suc_conv numeral_2_eq_2)
  from \<open>?l\<close> h s obtain n r2 where l: "read_length b1 r1 = (Inr n, r2)"
    by (auto simp: readFrame_def Let_def split: prod.splits sum.splits if_splits)
  from \<open>?l\<close> h s l obtain mk r3 where m: "ReadFull 4 r2 = (Inr mk, r3)"
    by (auto simp: readFrame_def Let_def split: prod.splits sum.splits if_splits)
  from \<open>?l\<close> h s l m obtain p r4 where p: "ReadFull n r3 = (Inr p, r4)"
    by (auto simp: readFrame_def Let_def split: prod.splits sum.splits if_splits)
  have g: "b0 AND 0x70 = 0" "fin = (b0 AND 0x80 \<noteq> 0)" "opc = b0 AND 0x0F"
    "\<not> (OpClose \<le> opc \<and> (125 < n \<or> \<not> fin))" "n \<le> MaxMessage" "b1 AND 0x80 \<noteq> 0" "data = unmask mk p" "r4 = r"
    using \<open>?l\<close> h s l m p by (simp_all add: readFrame_def Let_def split: if_splits)
  have "r2 = mk @ p @ r" "length mk = 4" "length p = n" using m p g(8) by (simp_all add: ReadFull_Inr)
  with s l g show ?r by blast
next
  assume ?r
  then obtain b0 b1 r1 n r2 mk p where s: "s = b0 # b1 # r1" and
    g: "b0 AND 0x70 = 0" "fin = (b0 AND 0x80 \<noteq> 0)" "opc = b0 AND 0x0F"
      "read_length b1 r1 = (Inr n, r2)" "\<not> (OpClose \<le> opc \<and> (125 < n \<or> \<not> fin))" "n \<le> MaxMessage" "b1 AND 0x80 \<noteq> 0"
      "data = unmask mk p" and r: "r2 = mk @ p @ r" "length mk = 4" "length p = n" by blast
  have 1: "ReadFull 2 s = (Inr [b0, b1], r1)" using s by (simp add: ReadFull_def)
  have 2: "ReadFull 4 r2 = (Inr mk, p @ r)" "ReadFull n (p @ r) = (Inr p, r)" using r by (simp_all add: ReadFull_Inr)
  show ?l using g 1 2 by (auto simp: readFrame_def Let_def)
qed

lemma readFrame_InrI:
  "b0 AND 0x70 = 0 \<Longrightarrow> (b0 AND 0x80 \<noteq> 0) = fin \<Longrightarrow> b0 AND 0x0F = opc \<Longrightarrow>
   read_length b1 r1 = (Inr (length p), mk @ p @ r) \<Longrightarrow> \<not> (OpClose \<le> opc \<and> (125 < length p \<or> \<not> fin)) \<Longrightarrow>
   length p \<le> MaxMessage \<Longrightarrow> b1 AND 0x80 \<noteq> 0 \<Longrightarrow> length mk = 4 \<Longrightarrow>
   readFrame (b0 # b1 # r1) = (Inr (fin, opc, unmask mk p), r)"
  unfolding readFrame_Inr by blast

lemma readFrame_shrinks: "readFrame s = (Inr f, r) \<Longrightarrow> length r < length s"
  by (cases f) (auto simp: readFrame_Inr dest!: read_length_shrinks)

lemma writeFrame_in: "ws_in (snd (writeFrame opc p c)) = ws_in c"
  by (simp add: writeFrame_def)

text \<open>The loop of \<open>ReadMessage\<close>: \<open>msgOp\<close> is 0 until a data frame arrives. Every round consumes
  input, so it ends.\<close>

function read_loop :: "byte \<Rightarrow> bytes \<Rightarrow> ws_conn \<Rightarrow> (ws_error + byte \<times> bytes) \<times> ws_conn" where
  "read_loop msgOp buf c =
     (case readFrame (ws_in c) of
        (Inl e, r) \<Rightarrow> (Inl e, c\<lparr>ws_in := r\<rparr>)
      | (Inr (fin, opc, data), r) \<Rightarrow>
          let c1 = c\<lparr>ws_in := r\<rparr>;
              finish = (\<lambda>mop b.
                if MaxMessage < length b then (Inl ErrMessageSize, c1)
                else if fin then (Inr (mop, b), c1)
                else read_loop mop b c1)
          in if opc = OpPing then
               (case writeFrame OpPong data c1 of
                  (Some e, c2) \<Rightarrow> (Inl e, c2)
                | (None, c2) \<Rightarrow> read_loop msgOp buf c2)
             else if opc = OpPong then read_loop msgOp buf c1
             else if opc = OpClose then (Inl ErrClosed, ws_Close (snd (writeFrame OpClose data c1)))
             else if opc = OpText \<or> opc = OpBinary then
               (if msgOp \<noteq> 0 then (Inl ErrProtocol, c1) else finish opc (buf @ data))
             else if opc = OpContinuation then
               (if msgOp = 0 then (Inl ErrProtocol, c1) else finish msgOp (buf @ data))
             else (Inl ErrProtocol, c1))"
  by pat_completeness auto
termination
  by (relation "measure (\<lambda>(mop, buf, c). length (ws_in c))") (auto dest: readFrame_shrinks [OF sym] simp: writeFrame_def split: if_splits)

declare read_loop.simps [simp del]

definition ReadMessage :: "ws_conn \<Rightarrow> (ws_error + byte \<times> bytes) \<times> ws_conn" where
  "ReadMessage c = read_loop 0 [] c"

subsection \<open>Frames against RFC 6455\<close>

text \<open>Section 5.2 of the RFC, read as a grammar: the frames a byte sequence can be. The payload of a
  masked frame is given in the clear; \<open>shortest\<close> asks for the shortest of the three length forms, as
  the RFC does of a sender.\<close>

definition len_field :: "bool \<Rightarrow> nat \<Rightarrow> nat \<Rightarrow> bytes \<Rightarrow> bool" where
  "len_field shortest n b ext \<longleftrightarrow>
     b = n \<and> n \<le> 125 \<and> ext = [] \<or>
     b = 126 \<and> length ext = 2 \<and> be_val ext = n \<and> (shortest \<longrightarrow> 125 < n) \<or>
     b = 127 \<and> length ext = 8 \<and> be_val ext = n \<and> (shortest \<longrightarrow> 65535 < n)"

definition rfc_frame :: "bool \<Rightarrow> bytes \<Rightarrow> bool \<Rightarrow> nat \<Rightarrow> bytes option \<Rightarrow> bytes \<Rightarrow> bool" where
  "rfc_frame shortest s fin opc mk payload \<longleftrightarrow>
     (\<exists>b ext. len_field shortest (length payload) b ext \<and> opc < 16 \<and>
        s = of_nat ((if fin then 128 else 0) + opc) # of_nat ((if mk = None then 0 else 128) + b) # ext @
            (case mk of None \<Rightarrow> payload | Some k \<Rightarrow> k @ unmask k payload) \<and>
        (case mk of None \<Rightarrow> True | Some k \<Rightarrow> length k = 4))"

lemma unmask_unmask [simp]: "unmask k (unmask k p) = p"
  by (rule nth_equalityI) (simp_all add: unmask_def nth_enumerate_eq xor.assoc)

lemma length_unmask [simp]: "length (unmask k p) = length p"
  by (simp add: unmask_def)

lemma head_byte:
  "b AND 0x70 = 0 \<longrightarrow> b = of_nat ((if b AND 0x80 \<noteq> 0 then 128 else 0) + unat (b AND 0x0F))" for b :: byte
  by (rule byte_cases) code_simp

lemma len_byte:
  "b = of_nat ((if b AND 0x80 \<noteq> 0 then 128 else 0) + unat (b AND 0x7F)) \<and> unat (b AND 0x7F) < 128" for b :: byte
  by (rule byte_cases [where P = "\<lambda>b. b = of_nat ((if b AND 0x80 \<noteq> 0 then 128 else 0) + unat (b AND 0x7F)) \<and> unat (b AND 0x7F) < 128"]) code_simp

lemma head_byte_of:
  assumes "opc < 16"
  shows "(of_nat ((if fin then 128 else 0) + opc) :: byte) AND 0x70 = 0"
    and "((of_nat ((if fin then 128 else 0) + opc) :: byte) AND 0x80 \<noteq> 0) = fin"
    and "(of_nat ((if fin then 128 else 0) + opc) :: byte) AND 0x0F = of_nat opc"
proof -
  have "list_all (\<lambda>opc. \<forall>fin. let b = (of_nat ((if fin then 128 else 0) + opc) :: byte) in
      b AND 0x70 = 0 \<and> (b AND 0x80 \<noteq> 0) = fin \<and> b AND 0x0F = of_nat opc) [0..<16]"
    by code_simp
  then have "\<forall>fin. let b = (of_nat ((if fin then 128 else 0) + opc) :: byte) in
      b AND 0x70 = 0 \<and> (b AND 0x80 \<noteq> 0) = fin \<and> b AND 0x0F = of_nat opc"
    using assms by (auto simp: list_all_iff)
  then show "(of_nat ((if fin then 128 else 0) + opc) :: byte) AND 0x70 = 0"
    and "((of_nat ((if fin then 128 else 0) + opc) :: byte) AND 0x80 \<noteq> 0) = fin"
    and "(of_nat ((if fin then 128 else 0) + opc) :: byte) AND 0x0F = of_nat opc"
    by (auto simp: Let_def)
qed

lemma len_byte_of:
  assumes "n < 128"
  shows "(of_nat (128 + n) :: byte) AND 0x80 \<noteq> 0" and "unat ((of_nat (128 + n) :: byte) AND 0x7F) = n"
proof -
  have "list_all (\<lambda>n. (of_nat (128 + n) :: byte) AND 0x80 \<noteq> 0 \<and> unat ((of_nat (128 + n) :: byte) AND 0x7F) = n) [0..<128]"
    by code_simp
  then show "(of_nat (128 + n) :: byte) AND 0x80 \<noteq> 0" and "unat ((of_nat (128 + n) :: byte) AND 0x7F) = n"
    using assms by (auto simp: list_all_iff)
qed

lemma or_fin_bit:
  assumes "opc < (16 :: byte)" shows "0x80 OR opc = of_nat (128 + unat opc)"
proof -
  have "list_all (\<lambda>n. (0x80 :: byte) OR of_nat n = of_nat (128 + n)) [0..<16]" by code_simp
  moreover have "unat opc \<in> set [0..<16]" using assms by (simp add: word_less_nat_alt)
  ultimately have "(0x80 :: byte) OR of_nat (unat opc) = of_nat (128 + unat opc)" unfolding list_all_iff by blast
  then show ?thesis by simp
qed

lemma read_length_Inr:
  "read_length b s = (Inr n, r) \<longleftrightarrow> (\<exists>ext. s = ext @ r \<and> len_field False n (unat (b AND 0x7F)) ext)"
proof -
  have "unat (b AND 0x7F) < 128" using len_byte [of b] by simp
  then consider "unat (b AND 0x7F) = 126" | "unat (b AND 0x7F) = 127" | "unat (b AND 0x7F) \<le> 125" by linarith
  then show ?thesis
    by cases (auto simp: read_length_def Let_def len_field_def ReadFull_def split: prod.splits sum.splits
        intro: exI [of _ "take 2 s"] exI [of _ "take 8 s"])
qed

lemma len_field_bound: "len_field m n b ext \<Longrightarrow> b < 128"
  by (auto simp: len_field_def)

text \<open>C18: \<open>readFrame\<close> returns a frame exactly when the stream starts with one: a client frame
  (masked) of RFC 6455 with no reserved bit, its payload unmasked and at most \<open>MaxMessage\<close> bytes, a
  control frame being final and at most 125 bytes; the rest of the stream is left untouched.\<close>

theorem readFrame_rfc:
  "readFrame s = (Inr (fin, opc, data), r) \<longleftrightarrow>
     (\<exists>f mk. s = f @ r \<and> rfc_frame False f fin (unat opc) (Some mk) data \<and> length data \<le> MaxMessage \<and>
        (opc < OpClose \<or> fin \<and> length data \<le> 125))"
  (is "?l \<longleftrightarrow> ?r")
proof
  assume ?l
  then obtain b0 b1 r1 n r2 mk p where s: "s = b0 # b1 # r1" and
    g: "b0 AND 0x70 = 0" "fin = (b0 AND 0x80 \<noteq> 0)" "opc = b0 AND 0x0F"
      "read_length b1 r1 = (Inr n, r2)" "\<not> (OpClose \<le> opc \<and> (125 < n \<or> \<not> fin))" "n \<le> MaxMessage" "b1 AND 0x80 \<noteq> 0"
      "data = unmask mk p" and r: "r2 = mk @ p @ r" "length mk = 4" "length p = n"
    unfolding readFrame_Inr by blast
  obtain ext where e: "r1 = ext @ r2" "len_field False n (unat (b1 AND 0x7F)) ext"
    using g(4) by (auto simp: read_length_Inr)
  have b0: "b0 = of_nat ((if fin then 128 else 0) + unat opc)" using head_byte [of b0] g(1-3) by simp
  have b1: "b1 = of_nat (128 + unat (b1 AND 0x7F))" using len_byte [of b1] g(7) by simp
  have "opc \<le> 15" using g(3) word_and_le1 [of b0 15] by (simp add: and.commute)
  then have opc: "unat opc < 16" by (simp add: word_le_nat_alt)
  have "rfc_frame False (b0 # b1 # ext @ mk @ p) fin (unat opc) (Some mk) data"
    unfolding rfc_frame_def using e(2) g(8) r(2,3) b0 b1 opc
    by (intro exI [of _ "unat (b1 AND 0x7F)"] exI [of _ ext]) simp
  then show ?r using s e(1) r g(5,6,8) by (intro exI [of _ "b0 # b1 # ext @ mk @ p"] exI [of _ mk]) auto
next
  assume ?r
  then obtain f mk b ext where s: "s = f @ r" and l: "len_field False (length data) b ext" and o: "unat opc < 16" and
    f: "f = of_nat ((if fin then 128 else 0) + unat opc) # of_nat (128 + b) # ext @ mk @ unmask mk data" and
    g: "length mk = 4" "length data \<le> MaxMessage" "opc < OpClose \<or> fin \<and> length data \<le> 125"
    by (auto simp: rfc_frame_def)
  have "read_length (of_nat (128 + b)) (ext @ mk @ unmask mk data @ r) = (Inr (length data), mk @ unmask mk data @ r)"
    unfolding read_length_Inr len_byte_of(2) [OF len_field_bound [OF l]] using l by (intro exI [of _ ext]) simp
  moreover have "\<not> (OpClose \<le> opc \<and> (125 < length data \<or> \<not> fin))" using g(3) by auto
  ultimately have "readFrame (of_nat ((if fin then 128 else 0) + unat opc) # of_nat (128 + b) # ext @ mk @ unmask mk data @ r)
      = (Inr (fin, opc, unmask mk (unmask mk data)), r)"
    using g(1,2) head_byte_of [OF o, of fin] len_byte_of(1) [OF len_field_bound [OF l]]
    by (intro readFrame_InrI) (simp_all del: of_nat_add)
  then show ?l unfolding s f by simp
qed

text \<open>Server frames are RFC 6455 frames in the shortest form: final, unmasked, with the given
  opcode and payload.\<close>

theorem frame_bytes_rfc:
  assumes "opc < 16" and "length payload < 2 ^ 64"
  shows "rfc_frame True (frame_bytes opc payload) True (unat opc) None payload"
proof -
  have o: "unat opc < 16" using assms(1) by (simp add: word_less_nat_alt)
  define n where "n = length payload"
  define b where "b = (if n \<le> 125 then n else if n \<le> 65535 then 126 else 127)"
  define ext where "ext = (if n \<le> 125 then [] else if n \<le> 65535 then be_bytes 2 n else be_bytes 8 n)"
  have "len_field True n b ext"
    using assms(2) be_val_be_bytes [of n 2] be_val_be_bytes [of n 8] by (auto simp: len_field_def b_def ext_def n_def)
  moreover have "frame_bytes opc payload = of_nat (128 + unat opc) # of_nat b # ext @ payload"
    using assms(2) by (auto simp: frame_bytes_def Let_def b_def ext_def n_def or_fin_bit [OF assms(1)])
  ultimately show ?thesis using o unfolding rfc_frame_def n_def by auto
qed

definition hello_payload :: bytes where
  "hello_payload = [0x48, 0x65, 0x6C, 0x6C, 0x6F]"

theorem frame_bytes_rfc_witness:
  "rfc_frame True (frame_bytes OpText hello_payload) True 1 None hello_payload \<and>
   frame_bytes OpText hello_payload = [0x81, 0x05, 0x48, 0x65, 0x6C, 0x6C, 0x6F]"
proof -
  have "rfc_frame True (frame_bytes OpText hello_payload) True (unat OpText) None hello_payload"
    by (rule frame_bytes_rfc) (simp_all add: op_defs hello_payload_def)
  moreover have "frame_bytes OpText hello_payload = [0x81, 0x05, 0x48, 0x65, 0x6C, 0x6C, 0x6F]"
    by code_simp
  ultimately show ?thesis by (simp add: op_defs)
qed

subsection \<open>Messages against the fragmentation rules\<close>

text \<open>Section 5.4 of the RFC as a grammar over frames: a message is one final text or binary frame,
  or a first fragment followed by continuation frames the last of which is final; pings and pongs may
  come between. \<open>reads\<close> cuts a stream into frames.\<close>

type_synonym frame = "bool \<times> byte \<times> bytes"

inductive reads :: "bytes \<Rightarrow> frame list \<Rightarrow> bytes \<Rightarrow> bool" where
  reads_none: "reads s [] s"
| reads_frame: "readFrame s = (Inr f, s1) \<Longrightarrow> reads s1 fs r \<Longrightarrow> reads s (f # fs) r"

inductive_cases reads_ConsE: "reads s (f # fs) r"
inductive_cases reads_NilE: "reads s [] r"

inductive msg_rest :: "frame list \<Rightarrow> bytes \<Rightarrow> bool" where
  last_part: "msg_rest [(True, OpContinuation, d)] d"
| more_part: "msg_rest fs d \<Longrightarrow> msg_rest ((False, OpContinuation, d0) # fs) (d0 @ d)"
| control_part: "opc \<in> {OpPing, OpPong} \<Longrightarrow> msg_rest fs d \<Longrightarrow> msg_rest ((fin, opc, x) # fs) d"

inductive message :: "frame list \<Rightarrow> byte \<Rightarrow> bytes \<Rightarrow> bool" where
  whole: "opc \<in> {OpText, OpBinary} \<Longrightarrow> message [(True, opc, d)] opc d"
| fragments: "opc \<in> {OpText, OpBinary} \<Longrightarrow> msg_rest fs d \<Longrightarrow> message ((False, opc, d0) # fs) opc (d0 @ d)"
| control_first: "ctl \<in> {OpPing, OpPong} \<Longrightarrow> message fs opc d \<Longrightarrow> message ((fin, ctl, x) # fs) opc d"

text \<open>The connection after the frames \<open>fs\<close>: their pings answered in order.\<close>

definition pongs :: "frame list \<Rightarrow> bytes" where
  "pongs fs = concat (map (\<lambda>(fin, opc, d). if opc = OpPing then frame_bytes OpPong d else []) fs)"

lemma pongs_simps [simp]:
  "pongs [] = []" "pongs ((fin, opc, d) # fs) = (if opc = OpPing then frame_bytes OpPong d else []) @ pongs fs"
  by (simp_all add: pongs_def)

definition after_frames :: "ws_conn \<Rightarrow> frame list \<Rightarrow> bytes \<Rightarrow> ws_conn" where
  "after_frames c fs r = c\<lparr>ws_in := r, ws_out := ws_out c @ pongs fs\<rparr>"

lemma ops_distinct [simp]:
  "OpPing \<noteq> OpPong" "OpPong \<noteq> OpPing" "OpText \<noteq> OpPing" "OpText \<noteq> OpPong" "OpText \<noteq> OpClose"
  "OpBinary \<noteq> OpPing" "OpBinary \<noteq> OpPong" "OpBinary \<noteq> OpClose" "OpContinuation \<noteq> OpPing" "OpContinuation \<noteq> OpPong"
  "OpContinuation \<noteq> OpClose" "OpContinuation \<noteq> OpText" "OpContinuation \<noteq> OpBinary" "OpText \<noteq> 0" "OpBinary \<noteq> 0"
  "OpText \<noteq> OpContinuation" "OpBinary \<noteq> OpContinuation"
  by (simp_all add: op_defs)

text \<open>One round of the loop, by the frame it reads.\<close>

lemma read_loop_ping:
  "readFrame (ws_in c) = (Inr (fin, OpPing, x), r) \<Longrightarrow> \<not> ws_closed c \<Longrightarrow> ws_up c \<Longrightarrow>
   read_loop mop buf c = read_loop mop buf (after_frames c [(fin, OpPing, x)] r)"
  by (subst read_loop.simps) (simp add: writeFrame_def after_frames_def)

lemma read_loop_pong:
  "readFrame (ws_in c) = (Inr (fin, OpPong, x), r) \<Longrightarrow>
   read_loop mop buf c = read_loop mop buf (after_frames c [(fin, OpPong, x)] r)"
  by (subst read_loop.simps) (simp add: after_frames_def)

lemma read_loop_data:
  assumes "readFrame (ws_in c) = (Inr (fin, opc, x), r)"
    and "opc \<in> {OpText, OpBinary} \<and> mop = 0 \<or> opc = OpContinuation \<and> mop \<noteq> 0"
  shows "read_loop mop buf c =
    (let c1 = after_frames c [(fin, opc, x)] r; mop1 = (if opc = OpContinuation then mop else opc) in
     if MaxMessage < length (buf @ x) then (Inl ErrMessageSize, c1)
     else if fin then (Inr (mop1, buf @ x), c1) else read_loop mop1 (buf @ x) c1)"
proof -
  consider "opc = OpText" "mop = 0" | "opc = OpBinary" "mop = 0" | "opc = OpContinuation" "mop \<noteq> 0" using assms(2) by blast
  then show ?thesis
    by cases (subst read_loop.simps, simp add: assms(1) after_frames_def Let_def)+
qed

lemma after_frames_simps [simp]:
  "ws_closed (after_frames c fs r) = ws_closed c" "ws_up (after_frames c fs r) = ws_up c" "ws_in (after_frames c fs r) = r"
  "after_frames (after_frames c fs r) gs r' = after_frames c (fs @ gs) r'"
  by (simp_all add: after_frames_def pongs_def)

lemma control_round:
  assumes "readFrame (ws_in c) = (Inr (fin, opc, x), r)" and "opc \<in> {OpPing, OpPong}" and "\<not> ws_closed c" "ws_up c"
  shows "read_loop mop buf c = read_loop mop buf (after_frames c [(fin, opc, x)] r)"
  using assms by (auto intro: read_loop_ping read_loop_pong)

lemma read_loop_rest:
  assumes "msg_rest fs d" and "reads (ws_in c) fs r" and "mop \<noteq> 0" and "\<not> ws_closed c" "ws_up c"
    and "length (buf @ d) \<le> MaxMessage"
  shows "read_loop mop buf c = (Inr (mop, buf @ d), after_frames c fs r)"
  using assms
proof (induction arbitrary: c buf rule: msg_rest.induct)
  case (last_part d)
  then show ?case by (auto elim!: reads_ConsE reads_NilE simp: read_loop_data)
next
  case (more_part fs d d0)
  from more_part.prems(1) obtain s1 where f: "readFrame (ws_in c) = (Inr (False, OpContinuation, d0), s1)" "reads s1 fs r"
    by (auto elim: reads_ConsE)
  let ?c = "after_frames c [(False, OpContinuation, d0)] s1"
  have "read_loop mop (buf @ d0) ?c = (Inr (mop, (buf @ d0) @ d), after_frames ?c fs r)"
    using more_part.prems f by (intro more_part.IH) simp_all
  then show ?case using f more_part.prems by (simp add: read_loop_data)
next
  case (control_part opc fs d fin x)
  from control_part.prems(1) obtain s1 where f: "readFrame (ws_in c) = (Inr (fin, opc, x), s1)" "reads s1 fs r"
    by (auto elim: reads_ConsE)
  let ?c = "after_frames c [(fin, opc, x)] s1"
  have "read_loop mop buf ?c = (Inr (mop, buf @ d), after_frames ?c fs r)"
    using control_part.prems f by (intro control_part.IH) simp_all
  then show ?case using control_round [OF f(1) control_part.hyps(1)] control_part.prems by simp
qed

lemma read_loop_message:
  assumes "message fs opc d" and "reads (ws_in c) fs r" and "\<not> ws_closed c" "ws_up c" and "length d \<le> MaxMessage"
  shows "read_loop 0 [] c = (Inr (opc, d), after_frames c fs r)"
  using assms
proof (induction arbitrary: c rule: message.induct)
  case (whole opc d)
  then show ?case by (auto elim!: reads_ConsE reads_NilE simp: read_loop_data)
next
  case (fragments opc fs d d0)
  from fragments.prems(1) obtain s1 where f: "readFrame (ws_in c) = (Inr (False, opc, d0), s1)" "reads s1 fs r"
    by (auto elim: reads_ConsE)
  let ?c = "after_frames c [(False, opc, d0)] s1"
  have "read_loop opc d0 ?c = (Inr (opc, d0 @ d), after_frames ?c fs r)"
    using fragments f by (intro read_loop_rest) auto
  moreover have "opc \<noteq> OpContinuation" using fragments.hyps by (auto simp: op_defs)
  ultimately show ?case using f fragments by (simp add: read_loop_data)
next
  case (control_first ctl fs opc d fin x)
  from control_first.prems(1) obtain s1 where f: "readFrame (ws_in c) = (Inr (fin, ctl, x), s1)" "reads s1 fs r"
    by (auto elim: reads_ConsE)
  let ?c = "after_frames c [(fin, ctl, x)] s1"
  have "read_loop 0 [] ?c = (Inr (opc, d), after_frames ?c fs r)"
    using control_first.prems f by (intro control_first.IH) simp_all
  then show ?case using control_round [OF f(1) control_first.hyps(1)] control_first.prems by simp
qed

text \<open>The other direction: what the loop returns is a message of the stream.\<close>

lemma read_loop_cases:
  assumes "read_loop mop buf c = (Inr (opc, data), c')" and "\<not> ws_closed c" "ws_up c"
  obtains (control) fin ctl x r where "readFrame (ws_in c) = (Inr (fin, ctl, x), r)" "ctl \<in> {OpPing, OpPong}"
      "read_loop mop buf (after_frames c [(fin, ctl, x)] r) = (Inr (opc, data), c')"
  | (data) fin k x r where "readFrame (ws_in c) = (Inr (fin, k, x), r)"
      "k \<in> {OpText, OpBinary} \<and> mop = 0 \<or> k = OpContinuation \<and> mop \<noteq> 0"
      "length (buf @ x) \<le> MaxMessage"
      "if fin then opc = (if k = OpContinuation then mop else k) \<and> data = buf @ x \<and> c' = after_frames c [(fin, k, x)] r
       else read_loop (if k = OpContinuation then mop else k) (buf @ x) (after_frames c [(fin, k, x)] r) = (Inr (opc, data), c')"
proof -
  from assms(1) obtain fin k x r where f: "readFrame (ws_in c) = (Inr (fin, k, x), r)"
    by (subst (asm) read_loop.simps) (auto split: prod.splits sum.splits)
  consider "k \<in> {OpPing, OpPong}" | "k \<in> {OpText, OpBinary} \<and> mop = 0 \<or> k = OpContinuation \<and> mop \<noteq> 0"
    using assms(1) f by (subst (asm) read_loop.simps) (auto simp: Let_def split: if_splits)
  then show ?thesis
  proof cases
    case 1
    then show ?thesis using control [OF f 1] assms control_round [OF f 1 assms(2,3)] by simp
  next
    case 2
    then show ?thesis using data [OF f 2] assms(1) read_loop_data [OF f 2, of buf] by (simp add: Let_def split: if_splits)
  qed
qed

lemma read_loop_is_rest:
  assumes "read_loop mop buf c = (Inr (opc, data), c')" and "mop \<noteq> 0" and "\<not> ws_closed c" "ws_up c"
  shows "\<exists>fs d r. reads (ws_in c) fs r \<and> msg_rest fs d \<and> opc = mop \<and> data = buf @ d \<and> length data \<le> MaxMessage \<and>
    c' = after_frames c fs r"
  using assms
proof (induction "length (ws_in c)" arbitrary: c buf rule: less_induct)
  case less
  from less.prems(1,3,4) show ?case
  proof (cases rule: read_loop_cases)
    case (control fin ctl x r)
    have "length (ws_in (after_frames c [(fin, ctl, x)] r)) < length (ws_in c)" using readFrame_shrinks [OF control(1)] by simp
    from less.hyps [OF this control(3) less.prems(2)] less.prems(3,4) obtain fs d r'
      where "reads r fs r'" "msg_rest fs d" "opc = mop" "data = buf @ d" "length data \<le> MaxMessage"
        "c' = after_frames c ([(fin, ctl, x)] @ fs) r'" by auto
    with control(1,2) show ?thesis
      by (intro exI [of _ "(fin, ctl, x) # fs"] exI [of _ d] exI [of _ r']) (simp add: reads_frame control_part)
  next
    case (data fin k x r)
    then have k: "k = OpContinuation" using less.prems(2) by auto
    show ?thesis
    proof (cases fin)
      case True
      then show ?thesis using data k
        by (intro exI [of _ "[(fin, k, x)]"] exI [of _ x] exI [of _ r]) (simp add: reads_frame reads_none last_part)
    next
      case False
      have "length (ws_in (after_frames c [(fin, k, x)] r)) < length (ws_in c)" using readFrame_shrinks [OF data(1)] by simp
      from less.hyps [OF this, of "buf @ x"] data(4) False k less.prems(2-4) obtain fs d r'
        where "reads r fs r'" "msg_rest fs d" "opc = mop" "data = buf @ x @ d" "length data \<le> MaxMessage"
          "c' = after_frames c ([(fin, k, x)] @ fs) r'" by auto
      with data(1) k False show ?thesis
        by (intro exI [of _ "(fin, k, x) # fs"] exI [of _ "x @ d"] exI [of _ r']) (simp add: reads_frame more_part)
    qed
  qed
qed

lemma read_loop_is_message:
  assumes "read_loop 0 [] c = (Inr (opc, data), c')" and "\<not> ws_closed c" "ws_up c"
  shows "\<exists>fs r. reads (ws_in c) fs r \<and> message fs opc data \<and> length data \<le> MaxMessage \<and> c' = after_frames c fs r"
  using assms
proof (induction "length (ws_in c)" arbitrary: c rule: less_induct)
  case less
  from less.prems show ?case
  proof (cases rule: read_loop_cases)
    case (control fin ctl x r)
    have "length (ws_in (after_frames c [(fin, ctl, x)] r)) < length (ws_in c)" using readFrame_shrinks [OF control(1)] by simp
    from less.hyps [OF this control(3)] less.prems(2,3) obtain fs r'
      where "reads r fs r'" "message fs opc data" "length data \<le> MaxMessage"
        "c' = after_frames c ([(fin, ctl, x)] @ fs) r'" by auto
    with control(1,2) show ?thesis
      by (intro exI [of _ "(fin, ctl, x) # fs"] exI [of _ r']) (simp add: reads_frame control_first)
  next
    case (data fin k x r)
    then have k: "k \<in> {OpText, OpBinary}" "k \<noteq> OpContinuation" "k \<noteq> 0" by auto
    show ?thesis
    proof (cases fin)
      case True
      then show ?thesis using data k
        by (intro exI [of _ "[(fin, k, x)]"] exI [of _ r]) (simp add: reads_frame reads_none whole)
    next
      case False
      from read_loop_is_rest [of k x "after_frames c [(fin, k, x)] r"] data(4) False k less.prems(2,3) obtain fs d r'
        where "reads r fs r'" "msg_rest fs d" "opc = k" "data = x @ d" "length data \<le> MaxMessage"
          "c' = after_frames c ([(fin, k, x)] @ fs) r'" by auto
      with data(1) k False show ?thesis
        by (intro exI [of _ "(fin, k, x) # fs"] exI [of _ r']) (simp add: reads_frame fragments)
    qed
  qed
qed

text \<open>C19: on an open connection \<open>ReadMessage\<close> returns a message exactly when the stream starts with
  the frames of one of at most \<open>MaxMessage\<close> bytes: fragments are put together in order, every ping on
  the way is answered by a pong with its payload, and nothing is read past the message.\<close>

theorem ReadMessage_correct:
  assumes "\<not> ws_closed c" and "ws_up c"
  shows "ReadMessage c = (Inr (opc, data), c') \<longleftrightarrow>
    (\<exists>fs r. reads (ws_in c) fs r \<and> message fs opc data \<and> length data \<le> MaxMessage \<and> c' = after_frames c fs r)"
  unfolding ReadMessage_def using read_loop_is_message [OF _ assms] read_loop_message [OF _ _ assms] by blast

text \<open>The text "Hello" in two fragments with a ping between, and one byte that follows.\<close>

definition hello_conn :: ws_conn where
  "hello_conn = \<lparr>ws_in = [0x01, 0x83, 0x37, 0xFA, 0x21, 0x3D, 0x7F, 0x9F, 0x4D,
      0x89, 0x81, 0, 0, 0, 0, 0x55, 0x80, 0x82, 1, 2, 3, 4, 0x6D, 0x6D, 0x81],
    ws_out = [], ws_closed = False, ws_up = True\<rparr>"

definition hello_frames :: "frame list" where
  "hello_frames = [(False, OpText, [0x48, 0x65, 0x6C]), (True, OpPing, [0x55]), (True, OpContinuation, [0x6C, 0x6F])]"

lemma hello_reads: "reads (ws_in hello_conn) hello_frames [0x81]"
proof -
  have u: "unmask [0x37, 0xFA, 0x21, 0x3D] [0x7F, 0x9F, 0x4D] = [0x48, 0x65, 0x6C]"
    "unmask [0, 0, 0, 0] [0x55] = [0x55]" "unmask [1, 2, 3, 4] [0x6D, 0x6D] = [0x6C, 0x6F]"
    by code_simp+
  have "readFrame (ws_in hello_conn) = (Inr (False, OpText, unmask [0x37, 0xFA, 0x21, 0x3D] [0x7F, 0x9F, 0x4D]),
      [0x89, 0x81, 0, 0, 0, 0, 0x55, 0x80, 0x82, 1, 2, 3, 4, 0x6D, 0x6D, 0x81])"
    unfolding hello_conn_def ws_conn.select_convs
    by (rule readFrame_InrI) (simp_all add: op_defs read_length_def MaxMessage_def word_le_nat_alt)
  moreover have "readFrame [0x89, 0x81, 0, 0, 0, 0, 0x55, 0x80, 0x82, 1, 2, 3, 4, 0x6D, 0x6D, 0x81] =
      (Inr (True, OpPing, unmask [0, 0, 0, 0] [0x55]), [0x80, 0x82, 1, 2, 3, 4, 0x6D, 0x6D, 0x81])"
    by (rule readFrame_InrI) (simp_all add: op_defs read_length_def MaxMessage_def word_le_nat_alt)
  moreover have "readFrame [0x80, 0x82, 1, 2, 3, 4, 0x6D, 0x6D, 0x81] =
      (Inr (True, OpContinuation, unmask [1, 2, 3, 4] [0x6D, 0x6D]), [0x81])"
    by (rule readFrame_InrI) (simp_all add: op_defs read_length_def MaxMessage_def word_le_nat_alt)
  ultimately show ?thesis unfolding hello_frames_def u by (auto intro: reads.intros)
qed

lemma hello_message: "message hello_frames OpText hello_payload"
  using fragments [OF _ control_part [OF _ last_part], of OpText OpPing "[0x48, 0x65, 0x6C]" True "[0x55]" "[0x6C, 0x6F]"]
  by (simp add: hello_frames_def hello_payload_def)

theorem ReadMessage_correct_witness:
  "\<not> ws_closed hello_conn \<and> ws_up hello_conn \<and>
   ReadMessage hello_conn =
     (Inr (OpText, hello_payload), hello_conn\<lparr>ws_in := [0x81], ws_out := [0x8A, 0x01, 0x55]\<rparr>)"
proof -
  have c: "\<not> ws_closed hello_conn" "ws_up hello_conn" by (simp_all add: hello_conn_def)
  have "frame_bytes OpPong [0x55] = [0x8A, 0x01, 0x55]" by code_simp
  then have "hello_conn\<lparr>ws_in := [0x81], ws_out := [0x8A, 0x01, 0x55]\<rparr> = after_frames hello_conn hello_frames [0x81]"
    by (simp add: after_frames_def hello_frames_def hello_conn_def)
  then show ?thesis using c ReadMessage_correct [OF c] hello_reads hello_message
    by (auto simp: hello_payload_def MaxMessage_def)
qed

text \<open>Once a connection is closed nothing more is written to it: every write answers
  \<open>ErrClosed\<close>, a second \<open>CloseWith\<close> does nothing, and a message read that meets a close frame
  echoes it, closes the connection and reports \<open>ErrClosed\<close>.\<close>

theorem closed_is_final:
  "(ws_closed c \<longrightarrow> writeFrame opc p c = (Some ErrClosed, c) \<and> CloseWith code reason c = c) \<and>
   ws_closed (CloseWith code reason c) \<and>
   (\<not> ws_closed c \<and> ws_up c \<and> readFrame (ws_in c) = (Inr (fin, OpClose, d), r) \<longrightarrow>
      ReadMessage c = (Inl ErrClosed, c\<lparr>ws_in := r, ws_out := ws_out c @ frame_bytes OpClose d, ws_closed := True\<rparr>))"
proof -
  have "OpClose \<noteq> OpPing" "OpClose \<noteq> OpPong" by (simp_all add: op_defs)
  then show ?thesis
    by (auto simp: writeFrame_def CloseWith_def ws_Close_def ReadMessage_def read_loop.simps [of 0 "[]" c])
qed

text \<open>A close frame with code 1000.\<close>

definition bye_conn :: ws_conn where
  "bye_conn = \<lparr>ws_in = [0x88, 0x82, 0, 0, 0, 0, 0x03, 0xE8], ws_out = [], ws_closed = False, ws_up = True\<rparr>"

lemma bye_frame: "readFrame (ws_in bye_conn) = (Inr (True, OpClose, [0x03, 0xE8]), [])"
proof -
  have "readFrame (ws_in bye_conn) = (Inr (True, OpClose, unmask [0, 0, 0, 0] [0x03, 0xE8]), [])"
    unfolding bye_conn_def ws_conn.select_convs
    by (rule readFrame_InrI) (simp_all add: op_defs read_length_def MaxMessage_def word_le_nat_alt)
  moreover have "unmask [0, 0, 0, 0] [0x03, 0xE8] = [0x03, 0xE8]" by code_simp
  ultimately show ?thesis by simp
qed

theorem closed_is_final_witness:
  "ReadMessage bye_conn = (Inl ErrClosed, bye_conn\<lparr>ws_in := [], ws_out := [0x88, 0x02, 0x03, 0xE8], ws_closed := True\<rparr>) \<and>
   writeFrame OpText hello_payload (ws_Close bye_conn) = (Some ErrClosed, ws_Close bye_conn)"
proof -
  have "frame_bytes OpClose [0x03, 0xE8] = [0x88, 0x02, 0x03, 0xE8]" by code_simp
  then show ?thesis
    using closed_is_final [of bye_conn OpText hello_payload 1000 "[]" True "[0x03, 0xE8]" "[]"] bye_frame
      closed_is_final [of "ws_Close bye_conn" OpText hello_payload 1000 "[]" True "[0x03, 0xE8]" "[]"]
    by (simp add: bye_conn_def ws_Close_def)
qed

end
