(* ===== verification/Pulse_Scan_Checks.thy ===== *)
theory Pulse_Scan_Checks
  imports Pulse_Snapshot
begin

section \<open>Package \<open>scanner\<close>: data, catalogue and the passive checks\<close>

text \<open>
  \<^verbatim>\<open>types.go\<close>, \<^verbatim>\<open>catalog.go\<close> and \<^verbatim>\<open>checks_passive.go\<close> of \<^verbatim>\<open>apps/api/internal/scanner\<close>.
  A check's run is the list of its calls of \<open>emit\<close> and \<open>log\<close> in order. Numbers of the snapshot and
  CVSS scores are exact rationals. Characters outside ASCII are their UTF-8 bytes.
\<close>

subsection \<open>Constants and data\<close>

definition SeverityCritical :: string where "SeverityCritical = ''CRITICAL''"
definition SeverityHigh :: string where "SeverityHigh = ''HIGH''"
definition SeverityMedium :: string where "SeverityMedium = ''MEDIUM''"
definition SeverityLow :: string where "SeverityLow = ''LOW''"
definition SeverityInfo :: string where "SeverityInfo = ''INFO''"

lemmas severity_defs = SeverityCritical_def SeverityHigh_def SeverityMedium_def SeverityLow_def SeverityInfo_def

definition KindPassive :: string where "KindPassive = ''passive''"
definition KindActive :: string where "KindActive = ''active''"

definition StatusPass :: string where "StatusPass = ''pass''"
definition StatusIssues :: string where "StatusIssues = ''issues''"
definition StatusError :: string where "StatusError = ''error''"
definition StatusSkipped :: string where "StatusSkipped = ''skipped''"
definition StatusNotRun :: string where "StatusNotRun = ''not_run''"

lemmas status_defs = StatusPass_def StatusIssues_def StatusError_def StatusSkipped_def StatusNotRun_def

definition ScanQueued :: string where "ScanQueued = ''queued''"
definition ScanRunning :: string where "ScanRunning = ''running''"
definition ScanDone :: string where "ScanDone = ''done''"

definition ModePassive :: string where "ModePassive = ''passive''"
definition ModeActive :: string where "ModeActive = ''active''"
definition ModeFull :: string where "ModeFull = ''full''"

definition LogInfo :: string where "LogInfo = ''info''"
definition LogWarn :: string where "LogWarn = ''warn''"
definition LogError :: string where "LogError = ''error''"
definition LogSuccess :: string where "LogSuccess = ''success''"

record category =
  cat_ID :: string
  cat_Name :: string
  cat_Description :: string
  cat_Icon :: string

record finding =
  fi_ID :: string
  fi_CheckID :: string
  fi_Category :: string
  fi_Severity :: string
  fi_Title :: string
  fi_Resource :: string
  fi_Detail :: string
  fi_Evidence :: string
  fi_Recommendation :: string
  fi_CVSS :: rat
  fi_OWASP :: string
  fi_CWE :: string
  fi_References :: "string list"

record check =
  ck_ID :: string
  ck_Category :: string
  ck_Name :: string
  ck_Description :: string
  ck_Kind :: string
  ck_OWASP :: string
  ck_Status :: string
  ck_Count :: int
  ck_Note :: string
  ck_DurationMS :: int

record log_entry =
  lg_T :: time
  lg_Level :: string
  lg_Check :: string
  lg_Msg :: string

record scan_state =
  sn_ID :: string
  sn_ServerID :: string
  sn_Status :: string
  sn_Mode :: string
  sn_Categories :: "string list"
  sn_Targets :: "string list"
  sn_Progress :: rat
  sn_Current :: string
  sn_Total :: nat
  sn_Completed :: nat
  sn_StartedAt :: time
  sn_FinishedAt :: "time option"
  sn_Checks :: "check list"
  sn_Findings :: "finding list"
  sn_Logs :: "log_entry list"

record sc_port =
  sp_Host :: int
  sp_Container :: int
  sp_Protocol :: string
  sp_Address :: string
  sp_State :: string

record sc_resource =
  sr_Type :: string
  sr_Name :: string
  sr_Status :: string
  sr_Health :: string
  sr_Attributes :: "string \<rightharpoonup> json"
  sr_Ports :: "sc_port list"

record sc_target =
  tg_URL :: string
  tg_FQDN :: string
  tg_TLS :: bool

record scan_input =
  si_ServerID :: string
  si_Hostname :: string
  si_Resources :: "sc_resource list"
  si_Targets :: "sc_target list"

subsection \<open>Reading the snapshot\<close>

definition in_resourcesOfType :: "scan_input \<Rightarrow> string list \<Rightarrow> sc_resource list" where
  "in_resourcesOfType inp types = filter (\<lambda>r. sr_Type r \<in> set types) (si_Resources inp)"

definition attrString :: "(string \<rightharpoonup> json) \<Rightarrow> string \<Rightarrow> string" where
  "attrString m k = (case m k of Some (JvStr s) \<Rightarrow> s | _ \<Rightarrow> [])"

definition attrBool :: "(string \<rightharpoonup> json) \<Rightarrow> string \<Rightarrow> bool" where
  "attrBool m k = (case m k of Some (JvBool b) \<Rightarrow> b | _ \<Rightarrow> False)"

definition attrFloat :: "(string \<rightharpoonup> json) \<Rightarrow> string \<Rightarrow> rat option" where
  "attrFloat m k = (case m k of Some (JvNum n) \<Rightarrow> Some (num_val n) | _ \<Rightarrow> None)"

definition attrStrings :: "(string \<rightharpoonup> json) \<Rightarrow> string \<Rightarrow> string list" where
  "attrStrings m k =
     (case m k of
        Some (JvArr xs) \<Rightarrow> List.map_filter (\<lambda>e. case e of JvStr s \<Rightarrow> if s \<noteq> [] then Some s else None | _ \<Rightarrow> None) xs
      | _ \<Rightarrow> [])"

definition sshdEvidence :: "(string \<rightharpoonup> json) \<Rightarrow> string \<Rightarrow> string" where
  "sshdEvidence m sourceKey = (let src = attrString m sourceKey in if src = [] then [] else ''set in '' @ src)"

subsection \<open>Catalogue\<close>

definition em_dash :: string where "em_dash = [CHR 0xE2, CHR 0x80, CHR 0x94]"
definition middle_dot :: string where "middle_dot = [CHR 0xC2, CHR 0xB7]"

definition owaspA01 :: string where "owaspA01 = ''A01:2021 Broken Access Control''"
definition owaspA02 :: string where "owaspA02 = ''A02:2021 Cryptographic Failures''"
definition owaspA03 :: string where "owaspA03 = ''A03:2021 Injection''"
definition owaspA04 :: string where "owaspA04 = ''A04:2021 Insecure Design''"
definition owaspA05 :: string where "owaspA05 = ''A05:2021 Security Misconfiguration''"
definition owaspA06 :: string where "owaspA06 = ''A06:2021 Vulnerable & Outdated Components''"
definition owaspA07 :: string where "owaspA07 = ''A07:2021 Identification & Authentication Failures''"
definition owaspA08 :: string where "owaspA08 = ''A08:2021 Software & Data Integrity Failures''"
definition owaspA09 :: string where "owaspA09 = ''A09:2021 Security Logging & Monitoring Failures''"
definition owaspA10 :: string where "owaspA10 = ''A10:2021 Server-Side Request Forgery''"

definition Categories :: "category list" where
  "Categories =
     [\<lparr>cat_ID = ''access-control'', cat_Name = ''Broken Access Control'',
       cat_Description = ''IDOR, privilege escalation and authorization bypass '' @ em_dash @
         '' exposed admin surfaces and unauthenticated management endpoints.'', cat_Icon = ''lock-open''\<rparr>,
      \<lparr>cat_ID = ''injection'', cat_Name = ''Injection'',
       cat_Description = ''SQL / NoSQL / OS-command / template injection '' @ em_dash @
         '' input that reaches an interpreter unsanitised.'', cat_Icon = ''syringe''\<rparr>,
      \<lparr>cat_ID = ''server-side'', cat_Name = ''Server-Side Vulnerabilities'',
       cat_Description = ''SSRF, XXE, insecure deserialization and RCE '' @ em_dash @
         '' the server acting on attacker-controlled data.'', cat_Icon = ''server''\<rparr>,
      \<lparr>cat_ID = ''client-side'', cat_Name = ''Client-Side Attacks'',
       cat_Description = ''XSS, CSRF, clickjacking and prototype pollution '' @ em_dash @
         '' attacks that execute in your users' browsers.'', cat_Icon = ''browser''\<rparr>,
      \<lparr>cat_ID = ''auth-session'', cat_Name = ''Authentication & Session'',
       cat_Description = ''JWT weaknesses, session fixation and cookie handling '' @ em_dash @
         '' how identity is proven and kept.'', cat_Icon = ''key''\<rparr>,
      \<lparr>cat_ID = ''crypto-transport'', cat_Name = ''Cryptography & Transport'',
       cat_Description = ''TLS validity, protocol/cipher strength, HSTS and HTTPS enforcement '' @ em_dash @
         '' data protected in transit.'', cat_Icon = ''shield''\<rparr>,
      \<lparr>cat_ID = ''infra-config'', cat_Name = ''Infrastructure & Configuration'',
       cat_Description = ''Exposed services, container privileges, resource limits and SSH hardening '' @ em_dash @
         '' the host's attack surface.'', cat_Icon = ''cog''\<rparr>,
      \<lparr>cat_ID = ''secrets-creds'', cat_Name = ''Secrets & Credentials'',
       cat_Description = ''Blank/default passwords, shared keys and exposed secret files (.env, .git) '' @ em_dash @
         '' credentials at rest.'', cat_Icon = ''vault''\<rparr>,
      \<lparr>cat_ID = ''info-disclosure'', cat_Name = ''Information Disclosure'',
       cat_Description = ''Version banners, verbose errors and directory listing '' @ em_dash @
         '' details that help an attacker target you.'', cat_Icon = ''eye''\<rparr>,
      \<lparr>cat_ID = ''api-security'', cat_Name = ''API Security'',
       cat_Description = ''CORS posture, dangerous HTTP methods, missing headers and rate limiting '' @ em_dash @
         '' the API perimeter.'', cat_Icon = ''plug''\<rparr>]"

subsection \<open>Passive checks\<close>

datatype sc_action = Emit finding | Log string string

definition no_finding :: finding where
  "no_finding = \<lparr>fi_ID = [], fi_CheckID = [], fi_Category = [], fi_Severity = [], fi_Title = [], fi_Resource = [],
     fi_Detail = [], fi_Evidence = [], fi_Recommendation = [], fi_CVSS = 0, fi_OWASP = [], fi_CWE = [], fi_References = []\<rparr>"

text \<open>A finding with the fields every check fills in.\<close>

definition new_finding :: "string \<Rightarrow> string \<Rightarrow> rat \<Rightarrow> string \<Rightarrow> string \<Rightarrow> string \<Rightarrow> string \<Rightarrow> string \<Rightarrow> finding" where
  "new_finding i sev cvss cwe title resource detail recommendation =
     no_finding\<lparr>fi_ID := i, fi_Severity := sev, fi_CVSS := cvss, fi_CWE := cwe, fi_Title := title, fi_Resource := resource,
       fi_Detail := detail, fi_Recommendation := recommendation\<rparr>"

definition run_localhost_isolation :: "scan_input \<Rightarrow> sc_action list" where
  "run_localhost_isolation inp = concat (map (\<lambda>db.
     if attrString (sr_Attributes db) ''exposure'' \<noteq> ''public'' then []
     else [Log LogWarn (sr_Name db @ '' is reachable from outside the host''),
       Emit ((new_finding (''db-public-'' @ sr_Name db) SeverityCritical 9.1 ''CWE-668''
         (sr_Name db @ '' is reachable from outside the host'') (sr_Name db)
         ''This database listens on all interfaces (0.0.0.0), so anything that can reach the host can attempt to connect.''
         (''Bind it to 127.0.0.1 or an internal Docker network and reach it through your app '' @ em_dash @ '' never publish the DB port.''))
         \<lparr>fi_References := [''https://owasp.org/Top10/A05_2021-Security_Misconfiguration/'']\<rparr>)])
     (in_resourcesOfType inp [''database'']))"

definition public_port :: "sc_resource \<Rightarrow> bool" where
  "public_port r \<longleftrightarrow> \<not> (sr_Ports r = [] \<or> attrString (sr_Attributes r) ''exposure'' \<noteq> ''public'')"

definition run_docker_exposure :: "scan_input \<Rightarrow> sc_action list" where
  "run_docker_exposure inp = concat (map (\<lambda>port.
     if \<not> public_port port then []
     else let h = sp_Host (sr_Ports port ! 0) in
       if h = 2375 \<or> h = 2376 then
         [Log LogError ''Docker daemon exposed on the network'',
          Emit ((new_finding ''docker-daemon'' SeverityCritical 9.8 ''CWE-284'' ''Docker daemon exposed on the network''
            (''tcp/'' @ Itoa h) (''The Docker API is listening publicly '' @ em_dash @ '' this is root-equivalent access to the whole host.'')
            ''Never expose the Docker socket/port. Use SSH or a read-only socket proxy.'')
            \<lparr>fi_References := [''https://docs.docker.com/engine/security/protect-access/'']\<rparr>)]
       else [])
     (in_resourcesOfType inp [''listening_port'']))"

definition run_port_exposure :: "scan_input \<Rightarrow> sc_action list" where
  "run_port_exposure inp = concat (map (\<lambda>port.
     if \<not> public_port port then []
     else let h = sp_Host (sr_Ports port ! 0) in
       if h = 80 \<or> h = 443 \<or> h = 22 \<or> h = 0 \<or> h = 2375 \<or> h = 2376 then []
       else [Emit (new_finding (''port-'' @ Itoa h) SeverityMedium 5.3 ''CWE-668'' (''Port '' @ Itoa h @ '' is exposed publicly'')
          (sr_Name port @ '' '' @ middle_dot @ '' tcp/'' @ Itoa h)
          ''This port is listening on all interfaces. If it isn't meant to be public, it widens your attack surface.''
          ''Bind it to loopback, or restrict it with a firewall / security group.'')])
     (in_resourcesOfType inp [''listening_port'']))"

definition run_tls_validity :: "scan_input \<Rightarrow> sc_action list" where
  "run_tls_validity inp = concat (map (\<lambda>cert.
     (case attrFloat (sr_Attributes cert) ''days_left'' of
        None \<Rightarrow> []
      | Some days \<Rightarrow>
          if days < 0 then
            [Emit (new_finding (''tls-expired-'' @ sr_Name cert) SeverityHigh 7.4 ''CWE-298''
               (''Expired TLS certificate: '' @ sr_Name cert) (sr_Name cert)
               ''The certificate has expired; clients will reject the connection.''
               ''Renew it (e.g. certbot renew) and reload the reverse proxy.'')]
          else if days < 30 then
            [Emit (new_finding (''tls-expiring-'' @ sr_Name cert) SeverityMedium 4 ''CWE-298''
               (''TLS certificate expiring soon: '' @ sr_Name cert) (sr_Name cert)
               (''Fewer than 30 days remain ('' @ Itoa \<lfloor>days\<rfloor> @ '').'')
               ''Confirm auto-renewal is working, or renew now.'')]
          else []))
     (in_resourcesOfType inp [''tls_certificate'']))"

definition unpinned_image :: "sc_resource \<Rightarrow> bool" where
  "unpinned_image c = (let img = attrString (sr_Attributes c) ''image'' in
     img \<noteq> [] \<and> (HasSuffix img '':latest'' \<or> \<not> Contains img '':''))"

definition run_base_image :: "scan_input \<Rightarrow> sc_action list" where
  "run_base_image inp =
     (let unpinned = filter unpinned_image (in_resourcesOfType inp [''docker_container'']) in
      map (\<lambda>c. Emit (new_finding (''img-'' @ sr_Name c) SeverityInfo 3.7 ''CWE-1104''
          (''Unpinned image: '' @ attrString (sr_Attributes c) ''image'') (sr_Name c)
          ''Using :latest (or no tag) means the image can change silently and may carry unpatched CVEs.''
          ''Pin a specific version tag and scan images (e.g. trivy) in CI.'')) (take 6 unpinned) @
      (if length unpinned > 6 then
        [Emit (new_finding ''img-more'' SeverityInfo 3.7 ''CWE-1104''
           (Itoa (int (length unpinned)) @ '' containers run unpinned images'') []
           ''Several containers use :latest or untagged images.'' ''Pin versions and add image scanning to your build.'')]
       else []))"

definition run_resource_boundaries :: "scan_input \<Rightarrow> sc_action list" where
  "run_resource_boundaries inp =
     (let noLimit = length (filter (\<lambda>c. sr_Status c = ''running'' \<and>
            (case attrFloat (sr_Attributes c) ''memory_limit'' of None \<Rightarrow> True | Some limit \<Rightarrow> limit = 0))
            (in_resourcesOfType inp [''docker_container''])) in
      if noLimit > 0 then
        [Emit (new_finding ''no-mem-limit'' SeverityInfo 3.5 ''CWE-770''
           (Itoa (int noLimit) @ '' running containers have no memory limit'') []
           ''Without a limit, one container can exhaust host memory (a noisy-neighbour / DoS risk).''
           ''Set a memory limit per service (mem_limit / deploy.resources.limits).'')]
      else [])"

definition passwords_accepted :: "(string \<rightharpoonup> json) \<Rightarrow> bool" where
  "passwords_accepted m =
     (case m ''password_login_available'' of
        Some (JvBool v) \<Rightarrow> v
      | _ \<Rightarrow> attrString m ''password_authentication'' \<noteq> ''no'')"

definition run_ssh_hardening :: "scan_input \<Rightarrow> sc_action list" where
  "run_ssh_hardening inp = concat (map (\<lambda>cfg.
     (if attrString (sr_Attributes cfg) ''permit_root_login'' = ''yes'' then
        [Emit ((new_finding ''ssh-root'' SeverityMedium 6.5 ''CWE-284'' ''Root SSH login is permitted'' ''sshd_config''
           (''PermitRootLogin is 'yes' '' @ em_dash @ '' remote root logins widen the blast radius of a compromised key or password.'')
           ''Set PermitRootLogin prohibit-password (or no) and use a sudo user. Confirm you can log in as that sudo user first.'')
           \<lparr>fi_Evidence := sshdEvidence (sr_Attributes cfg) ''permit_root_login_source''\<rparr>)]
      else []) @
     (if passwords_accepted (sr_Attributes cfg) then
        [Emit ((new_finding ''ssh-passauth'' SeverityLow 3.7 ''CWE-307'' ''SSH password authentication is enabled'' ''sshd_config''
           ''PasswordAuthentication allows brute-forceable password logins.''
           (''Prefer key-based auth. First authorise your key and confirm a fresh '' @
            ''session logs in with it, keep that session open, then set PasswordAuthentication no '' @
            ''and reload sshd '' @ em_dash @ '' verifying in a second terminal before you close the first.''))
           \<lparr>fi_Evidence := sshdEvidence (sr_Attributes cfg) ''password_authentication_source''\<rparr>)]
      else []))
     (in_resourcesOfType inp [''ssh_config'']))"

definition run_cipher_suite :: "scan_input \<Rightarrow> sc_action list" where
  "run_cipher_suite inp = concat (map (\<lambda>cfg.
     let weak = attrStrings (sr_Attributes cfg) ''weak_ciphers'' @ attrStrings (sr_Attributes cfg) ''weak_macs'' @
           attrStrings (sr_Attributes cfg) ''weak_kex'' in
     if weak \<noteq> [] then
       [Emit ((new_finding ''ssh-weakcrypto'' SeverityMedium 5.9 ''CWE-327'' ''Weak SSH ciphers/MACs/KEX enabled'' ''sshd_config''
          (''The SSH daemon offers weak algorithms: '' @ Join weak '', '' @ ''.'')
          ''Restrict Ciphers/MACs/KexAlgorithms to modern suites (chacha20-poly1305, aes-gcm, curve25519).'')
          \<lparr>fi_Evidence := Join weak '', ''\<rparr>)]
     else [])
     (in_resourcesOfType inp [''ssh_config'']))"

definition run_shared_ssh_keys :: "scan_input \<Rightarrow> sc_action list" where
  "run_shared_ssh_keys inp = concat (map (\<lambda>k.
     if attrBool (sr_Attributes k) ''shared'' then
       [Emit (new_finding ''shared-keys'' SeverityMedium 5 ''CWE-522'' ''One SSH key is authorised for multiple users'' ''authorized_keys''
          (''A shared key means access can't be attributed or revoked per-person ('' @
             Join (attrStrings (sr_Attributes k) ''shared_keys'') ''; '' @ '').'')
          ''Give each person their own key and remove shared entries.'')]
     else [])
     (in_resourcesOfType inp [''ssh_keys'']))"

definition run_privileged_flag :: "scan_input \<Rightarrow> sc_action list" where
  "run_privileged_flag inp = concat (map (\<lambda>c.
     (if attrBool (sr_Attributes c) ''privileged'' then
        [Emit (new_finding (''priv-'' @ sr_Name c) SeverityCritical 8.8 ''CWE-250'' (sr_Name c @ '' runs in privileged mode'') (sr_Name c)
           ''A privileged container can access all host devices and effectively escape isolation.''
           ''Drop --privileged; grant only the specific capabilities the container needs.'')]
      else []) @
     (if attrString (sr_Attributes c) ''ipc_mode'' = ''host'' then
        [Emit ((new_finding (''ipc-'' @ sr_Name c) SeverityMedium 5 ''CWE-668'' (sr_Name c @ '' shares the host IPC namespace'') (sr_Name c)
           ''--ipc=host exposes host shared memory to the container (and vice-versa).''
           ''Remove --ipc=host unless the workload genuinely needs host shared memory.'')\<lparr>fi_Category := ''infra-config''\<rparr>)]
      else []))
     (in_resourcesOfType inp [''docker_container'']))"

definition run_blank_passwords :: "scan_input \<Rightarrow> sc_action list" where
  "run_blank_passwords inp =
     concat (map (\<lambda>cfg.
       if attrString (sr_Attributes cfg) ''permit_empty_passwords'' = ''yes'' then
         [Emit (new_finding ''ssh-emptypass'' SeverityCritical 9.8 ''CWE-258'' ''SSH permits empty passwords'' ''sshd_config''
            ''PermitEmptyPasswords 'yes' lets accounts with no password log in.'' ''Set PermitEmptyPasswords no immediately.'')]
       else []) (in_resourcesOfType inp [''ssh_config''])) @
     concat (map (\<lambda>c.
       if attrBool (sr_Attributes c) ''blank_password'' then
         [Emit (new_finding (''blank-'' @ sr_Name c) SeverityCritical 9.1 ''CWE-258''
            (sr_Name c @ '' has a blank password in its environment'') (sr_Name c)
            (''A password environment variable is empty '' @ em_dash @ '' the service may accept no password.'')
            ''Set a strong password (and prefer secrets over env vars).'')]
       else []) (in_resourcesOfType inp [''docker_container'']))"

definition run_default_credentials :: "scan_input \<Rightarrow> sc_action list" where
  "run_default_credentials inp = concat (map (\<lambda>c.
     let creds = attrStrings (sr_Attributes c) ''weak_credentials'' in
     if creds \<noteq> [] then
       [Emit ((new_finding (''weakcred-'' @ sr_Name c) SeverityHigh 8 ''CWE-1392'' (sr_Name c @ '' uses a weak/default credential'') (sr_Name c)
          (''These password variables are set to a well-known default value: '' @ Join creds '', '' @ ''.'')
          ''Rotate to strong, unique secrets.'')\<lparr>fi_Evidence := Join creds '', ''\<rparr>)]
     else [])
     (in_resourcesOfType inp [''docker_container'']))"

definition headers_lacking :: "sc_resource \<Rightarrow> string list" where
  "headers_lacking vh =
     (if attrBool (sr_Attributes vh) ''has_hsts'' then [] else [''HSTS'']) @
     (if attrBool (sr_Attributes vh) ''has_xframe'' then [] else [''X-Frame-Options'']) @
     (if attrBool (sr_Attributes vh) ''has_csp'' then [] else [''Content-Security-Policy''])"

definition run_nginx_headers :: "scan_input \<Rightarrow> sc_action list" where
  "run_nginx_headers inp =
     map (\<lambda>vh. Emit (new_finding (''hdr-cfg-'' @ sr_Name vh) SeverityLow 3.1 ''CWE-693'' (''Missing security headers on '' @ sr_Name vh) (sr_Name vh)
          (sr_Name vh @ '' does not set: '' @ Join (headers_lacking vh) '', '' @ '' in its nginx config.'')
          ''Add the missing add_header directives (HSTS, X-Frame-Options, CSP).''))
       (take 6 (filter (\<lambda>vh. attrBool (sr_Attributes vh) ''ssl'' \<and> headers_lacking vh \<noteq> []) (in_resourcesOfType inp [''nginx_vhost''])))"

definition run_server_tokens :: "scan_input \<Rightarrow> sc_action list" where
  "run_server_tokens inp =
     (let on = length (filter (\<lambda>vh. attrBool (sr_Attributes vh) ''ssl'' \<and> \<not> attrBool (sr_Attributes vh) ''server_tokens_off'')
           (in_resourcesOfType inp [''nginx_vhost''])) in
      if on > 0 then
        [Emit (new_finding ''server-tokens'' SeverityInfo 2.5 ''CWE-200'' ''Nginx exposes its version'' []
           (Itoa (int on) @ '' vhost(s) don't set 'server_tokens off', so responses leak the nginx version.'')
           ''Add 'server_tokens off;' in the http{} block.'')]
      else [])"

definition run_rate_limiting_cfg :: "scan_input \<Rightarrow> sc_action list" where
  "run_rate_limiting_cfg inp =
     (let none = length (filter (\<lambda>vh. attrBool (sr_Attributes vh) ''ssl'' \<and> \<not> attrBool (sr_Attributes vh) ''has_rate_limit'')
           (in_resourcesOfType inp [''nginx_vhost''])) in
      if none > 0 then
        [Emit (new_finding ''no-ratelimit'' SeverityLow 3.7 ''CWE-770'' ''No rate limiting on public vhosts'' []
           (Itoa (int none) @ '' TLS vhost(s) have no limit_req '' @ em_dash @ '' login/API endpoints are open to brute-force and abuse.'')
           ''Define a limit_req zone and apply it to sensitive locations.'')]
      else [])"

text \<open>A run ends normally or by a panic with its message.\<close>

record check_def =
  cd_meta :: check
  cd_run :: "scan_input \<Rightarrow> sc_action list \<times> string option"

definition passive_def :: "string \<Rightarrow> string \<Rightarrow> string \<Rightarrow> string \<Rightarrow> string \<Rightarrow> (scan_input \<Rightarrow> sc_action list) \<Rightarrow> check_def" where
  "passive_def i c name owasp desc f =
     \<lparr>cd_meta = \<lparr>ck_ID = i, ck_Category = c, ck_Name = name, ck_Description = desc, ck_Kind = KindPassive, ck_OWASP = owasp,
        ck_Status = [], ck_Count = 0, ck_Note = [], ck_DurationMS = 0\<rparr>, cd_run = (\<lambda>inp. (f inp, None))\<rparr>"

definition passiveChecks :: "check_def list" where
  "passiveChecks =
     [passive_def ''localhost-isolation'' ''infra-config'' ''Localhost Isolation'' owaspA05
        ''Datastores should never listen on public interfaces.'' run_localhost_isolation,
      passive_def ''docker-exposure'' ''infra-config'' ''Docker Daemon Exposure'' owaspA05
        ''A network-exposed Docker API is root-equivalent access to the host.'' run_docker_exposure,
      passive_def ''port-exposure'' ''infra-config'' ''Port Exposure'' owaspA05
        ''Non-web ports on public interfaces widen the attack surface.'' run_port_exposure,
      passive_def ''tls-validity'' ''crypto-transport'' ''TLS / Certificate Validity'' owaspA02
        ''Expired or near-expiry certificates break trust and availability.'' run_tls_validity,
      passive_def ''base-image'' ''infra-config'' ''Base Image Hygiene'' owaspA06
        ''Unpinned :latest images can change silently and carry unpatched CVEs.'' run_base_image,
      passive_def ''resource-boundaries'' ''infra-config'' ''Resource Boundaries'' owaspA04
        ''Containers without limits let one workload starve the host (DoS).'' run_resource_boundaries,
      passive_def ''ssh-hardening'' ''infra-config'' ''SSH Hardening'' owaspA05
        (''sshd policy '' @ em_dash @ '' root login and password authentication.'') run_ssh_hardening,
      passive_def ''cipher-suite'' ''crypto-transport'' ''SSH Cipher Suite'' owaspA02
        ''sshd should offer only modern ciphers, MACs and key exchanges.'' run_cipher_suite,
      passive_def ''shared-ssh-keys'' ''secrets-creds'' ''Shared SSH Keys'' owaspA07
        ''A key authorized for multiple users can't be attributed or revoked cleanly.'' run_shared_ssh_keys,
      passive_def ''privileged-flag'' ''infra-config'' ''Privileged Containers'' owaspA05
        ''Privileged containers can access all host devices and escape isolation.'' run_privileged_flag,
      passive_def ''blank-passwords'' ''secrets-creds'' ''Blank Passwords'' owaspA07
        ''Empty passwords let anyone authenticate.'' run_blank_passwords,
      passive_def ''default-credentials'' ''secrets-creds'' ''Default Credentials'' owaspA07
        ''Well-known default passwords are trivially guessed.'' run_default_credentials,
      passive_def ''nginx-headers'' ''client-side'' ''Reverse-Proxy Headers (config)'' owaspA05
        ''Security headers declared in the nginx vhost configuration.'' run_nginx_headers,
      passive_def ''server-tokens'' ''info-disclosure'' ''Version Disclosure (config)'' owaspA05
        ''server_tokens should be off so responses don't leak the nginx version.'' run_server_tokens,
      passive_def ''rate-limiting-cfg'' ''api-security'' ''Rate Limiting (config)'' owaspA04
        ''Public vhosts without limit_req leave login/API endpoints open to brute-force.'' run_rate_limiting_cfg]"

subsection \<open>What the passive checks report\<close>

definition emitted :: "sc_action list \<Rightarrow> finding list" where
  "emitted as = List.map_filter (\<lambda>a. case a of Emit f \<Rightarrow> Some f | Log _ _ \<Rightarrow> None) as"

lemma emitted_simps [simp]:
  "emitted [] = []" "emitted (Emit f # as) = f # emitted as" "emitted (Log l m # as) = emitted as"
  "emitted (as @ bs) = emitted as @ emitted bs"
  by (simp_all add: emitted_def map_filter_def)

lemma emitted_map_Emit [simp]: "emitted (map (\<lambda>x. Emit (g x)) xs) = map g xs"
  by (induction xs) simp_all

lemma set_emitted_concat [simp]: "set (emitted (concat (map g xs))) = (\<Union>x\<in>set xs. set (emitted (g x)))"
  by (induction xs) auto

lemma severity_new_finding [simp]: "fi_Severity (new_finding i sev cvss cwe t r d rec) = sev"
  by (simp add: new_finding_def)

definition has_critical :: "sc_action list \<Rightarrow> bool" where
  "has_critical as \<longleftrightarrow> (\<exists>f\<in>set (emitted as). fi_Severity f = SeverityCritical)"

lemma has_critical_simps [simp]:
  "\<not> has_critical []" "has_critical (Emit f # as) \<longleftrightarrow> fi_Severity f = SeverityCritical \<or> has_critical as"
  "has_critical (Log l m # as) \<longleftrightarrow> has_critical as" "has_critical (as @ bs) \<longleftrightarrow> has_critical as \<or> has_critical bs"
  "has_critical (concat (map g xs)) \<longleftrightarrow> (\<exists>x\<in>set xs. has_critical (g x))"
  by (auto simp: has_critical_def)

lemma severities_differ [simp]:
  "SeverityHigh \<noteq> SeverityCritical" "SeverityMedium \<noteq> SeverityCritical" "SeverityLow \<noteq> SeverityCritical"
  "SeverityInfo \<noteq> SeverityCritical"
  by (simp_all add: severity_defs)

lemma critical_none:
  "\<not> has_critical (run_port_exposure inp)" "\<not> has_critical (run_tls_validity inp)" "\<not> has_critical (run_base_image inp)"
  "\<not> has_critical (run_resource_boundaries inp)" "\<not> has_critical (run_ssh_hardening inp)" "\<not> has_critical (run_cipher_suite inp)"
  "\<not> has_critical (run_shared_ssh_keys inp)" "\<not> has_critical (run_default_credentials inp)" "\<not> has_critical (run_nginx_headers inp)"
  "\<not> has_critical (run_server_tokens inp)" "\<not> has_critical (run_rate_limiting_cfg inp)"
  by (auto simp: has_critical_def run_port_exposure_def run_tls_validity_def run_base_image_def run_resource_boundaries_def
      run_ssh_hardening_def run_cipher_suite_def run_shared_ssh_keys_def run_default_credentials_def run_nginx_headers_def
      run_server_tokens_def run_rate_limiting_cfg_def Let_def split: option.splits if_splits)

lemma critical_some:
  "has_critical (run_localhost_isolation inp) \<longleftrightarrow>
     (\<exists>r\<in>set (in_resourcesOfType inp [''database'']). attrString (sr_Attributes r) ''exposure'' = ''public'')"
  "has_critical (run_docker_exposure inp) \<longleftrightarrow>
     (\<exists>r\<in>set (in_resourcesOfType inp [''listening_port'']). public_port r \<and> sp_Host (sr_Ports r ! 0) \<in> {2375, 2376})"
  "has_critical (run_privileged_flag inp) \<longleftrightarrow>
     (\<exists>r\<in>set (in_resourcesOfType inp [''docker_container'']). attrBool (sr_Attributes r) ''privileged'')"
  "has_critical (run_blank_passwords inp) \<longleftrightarrow>
     (\<exists>r\<in>set (in_resourcesOfType inp [''ssh_config'']). attrString (sr_Attributes r) ''permit_empty_passwords'' = ''yes'') \<or>
     (\<exists>r\<in>set (in_resourcesOfType inp [''docker_container'']). attrBool (sr_Attributes r) ''blank_password'')"
  by (auto simp: run_localhost_isolation_def run_docker_exposure_def run_privileged_flag_def run_blank_passwords_def Let_def
      split: if_splits)

text \<open>The dangerous states of a host: a public database, a public Docker API port, a privileged
  container, a container with a blank password, an SSH server that accepts empty passwords.\<close>

definition dangerous :: "sc_resource \<Rightarrow> bool" where
  "dangerous r \<longleftrightarrow>
     sr_Type r = ''database'' \<and> attrString (sr_Attributes r) ''exposure'' = ''public'' \<or>
     sr_Type r = ''listening_port'' \<and> public_port r \<and> sp_Host (sr_Ports r ! 0) \<in> {2375, 2376} \<or>
     sr_Type r = ''docker_container'' \<and> (attrBool (sr_Attributes r) ''privileged'' \<or> attrBool (sr_Attributes r) ''blank_password'') \<or>
     sr_Type r = ''ssh_config'' \<and> attrString (sr_Attributes r) ''permit_empty_passwords'' = ''yes''"

text \<open>The passive checks report a critical finding for a host exactly when one of its resources
  is in a dangerous state.\<close>

lemma passive_critical:
  "list_ex (\<lambda>d. has_critical (fst (cd_run d inp))) passiveChecks \<longleftrightarrow> list_ex dangerous (si_Resources inp)"
proof -
  have "list_ex (\<lambda>d. has_critical (fst (cd_run d inp))) passiveChecks \<longleftrightarrow>
      has_critical (run_localhost_isolation inp) \<or> has_critical (run_docker_exposure inp) \<or>
      has_critical (run_privileged_flag inp) \<or> has_critical (run_blank_passwords inp)"
    by (simp add: passiveChecks_def passive_def_def critical_none)
  also have "\<dots> \<longleftrightarrow> list_ex dangerous (si_Resources inp)"
    unfolding critical_some by (auto simp: in_resourcesOfType_def dangerous_def list_ex_iff)
  finally show ?thesis .
qed

end
