(* ===== verification/Pulse_Ssrf.thy ===== *)
theory Pulse_Ssrf
  imports Pulse_Http
begin

section \<open>Package \<open>ssrf\<close>: which addresses the server may fetch from\<close>

text \<open>
  \<^verbatim>\<open>apps/api/internal/ssrf/ssrf.go\<close>. A \<open>net.IP\<close> is its bytes, four or sixteen of them, \<open>[]\<close>
  being the nil address. The methods of \<open>net.IP\<close> and \<open>net.IPNet\<close> that the package calls are
  written out. The name server, which may answer differently each time it is asked, the parser of
  URLs and the network are arguments of the definitions.
\<close>

unbundle bit_operations_syntax

type_synonym ip = bytes

subsection \<open>Addresses: package \<open>net\<close>\<close>

definition mapped_prefix :: bytes where
  "mapped_prefix = replicate 10 0 @ [0xFF, 0xFF]"

text \<open>\<open>To4\<close>; \<open>None\<close> is nil.\<close>

definition To4 :: "ip \<Rightarrow> ip option" where
  "To4 ip =
     (if length ip = 4 then Some ip
      else if length ip = 16 \<and> take 12 ip = mapped_prefix then Some (drop 12 ip)
      else None)"

definition ip_Equal :: "ip \<Rightarrow> ip \<Rightarrow> bool" where
  "ip_Equal a b \<longleftrightarrow>
     (if length a = length b then a = b
      else if length a = 4 \<and> length b = 16 then take 12 b = mapped_prefix \<and> a = drop 12 b
      else if length a = 16 \<and> length b = 4 then take 12 a = mapped_prefix \<and> drop 12 a = b
      else False)"

definition IsUnspecified :: "ip \<Rightarrow> bool" where
  "IsUnspecified ip \<longleftrightarrow> ip_Equal ip (mapped_prefix @ [0, 0, 0, 0]) \<or> ip_Equal ip (replicate 16 0)"

definition IsLoopback :: "ip \<Rightarrow> bool" where
  "IsLoopback ip \<longleftrightarrow> (case To4 ip of Some v \<Rightarrow> v ! 0 = 127 | None \<Rightarrow> ip_Equal ip (replicate 15 0 @ [1]))"

definition IsPrivate :: "ip \<Rightarrow> bool" where
  "IsPrivate ip \<longleftrightarrow>
     (case To4 ip of
        Some v \<Rightarrow> v ! 0 = 10 \<or> v ! 0 = 172 \<and> v ! 1 AND 0xF0 = 16 \<or> v ! 0 = 192 \<and> v ! 1 = 168
      | None \<Rightarrow> length ip = 16 \<and> ip ! 0 AND 0xFE = 0xFC)"

definition IsMulticast :: "ip \<Rightarrow> bool" where
  "IsMulticast ip \<longleftrightarrow>
     (case To4 ip of Some v \<Rightarrow> v ! 0 AND 0xF0 = 0xE0 | None \<Rightarrow> length ip = 16 \<and> ip ! 0 = 0xFF)"

definition IsInterfaceLocalMulticast :: "ip \<Rightarrow> bool" where
  "IsInterfaceLocalMulticast ip \<longleftrightarrow> length ip = 16 \<and> ip ! 0 = 0xFF \<and> ip ! 1 AND 0x0F = 0x01"

definition IsLinkLocalMulticast :: "ip \<Rightarrow> bool" where
  "IsLinkLocalMulticast ip \<longleftrightarrow>
     (case To4 ip of
        Some v \<Rightarrow> v ! 0 = 224 \<and> v ! 1 = 0 \<and> v ! 2 = 0
      | None \<Rightarrow> length ip = 16 \<and> ip ! 0 = 0xFF \<and> ip ! 1 AND 0x0F = 0x02)"

definition IsLinkLocalUnicast :: "ip \<Rightarrow> bool" where
  "IsLinkLocalUnicast ip \<longleftrightarrow>
     (case To4 ip of
        Some v \<Rightarrow> v ! 0 = 169 \<and> v ! 1 = 254
      | None \<Rightarrow> length ip = 16 \<and> ip ! 0 = 0xFE \<and> ip ! 1 AND 0xC0 = 0x80)"

text \<open>A network is its number and its mask, of one length (\<open>net.ParseCIDR\<close> gives four bytes for an
  IPv4 network); \<open>Contains\<close> compares the masked bytes after \<open>To4\<close>.\<close>

type_synonym ipnet = "bytes \<times> bytes"

definition net_Contains :: "ipnet \<Rightarrow> ip \<Rightarrow> bool" where
  "net_Contains n ip =
     (let x = (case To4 ip of Some v \<Rightarrow> v | None \<Rightarrow> ip) in
      length x = length (fst n) \<and>
      list_all (\<lambda>i. fst n ! i AND snd n ! i = x ! i AND snd n ! i) [0..<length x])"

subsection \<open>The filter\<close>

definition extraBlocked :: "ipnet list" where
  "extraBlocked =
     [([169, 254, 0, 0], [0xFF, 0xFF, 0, 0]), ([100, 64, 0, 0], [0xFF, 0xC0, 0, 0]), ([192, 0, 0, 0], [0xFF, 0xFF, 0xFF, 0]),
      ([192, 0, 2, 0], [0xFF, 0xFF, 0xFF, 0]), ([198, 18, 0, 0], [0xFF, 0xFE, 0, 0]), ([172, 17, 0, 0], [0xFF, 0xFF, 0, 0]),
      (0xFC # replicate 15 0, 0xFE # replicate 15 0)]"

definition IPAllowed :: "ip \<Rightarrow> bool" where
  "IPAllowed ip \<longleftrightarrow>
     (if ip = [] then False
      else if IsLoopback ip \<or> IsUnspecified ip \<or> IsLinkLocalUnicast ip \<or> IsLinkLocalMulticast ip \<or> IsMulticast ip \<or>
          IsInterfaceLocalMulticast ip then False
      else if IsPrivate ip then False
      else if list_ex (\<lambda>cidr. net_Contains cidr ip) extraBlocked then False
      else case To4 ip of Some v4 \<Rightarrow> \<not> (v4 ! 0 = 0 \<or> 240 \<le> v4 ! 0) | None \<Rightarrow> True)"

definition isBlockedName :: "string \<Rightarrow> bool" where
  "isBlockedName host =
     (let h = ToLower (TrimSuffix host ''.'') in
      h = ''localhost'' \<or> h = ''metadata.google.internal'' \<or> HasSuffix h ''.localhost'' \<or> HasSuffix h ''.internal'')"

datatype ssrf_error = InvalidUrl | SchemeNotAllowed string | EmptyHost | BlockedHost string | DnsFailed | NoAddresses
  | Internal ip | BadAddr | TooManyRedirects | DialFailed | DialPanic

record url =
  u_Scheme :: string
  u_Hostname :: string
  u_Port :: string

text \<open>\<open>parse\<close> is \<open>url.Parse\<close> (with \<open>Hostname\<close> taken), \<open>lookup\<close> one answer of the resolver;
  \<open>None\<close> is an error of either.\<close>

definition Validate :: "(string \<Rightarrow> url option) \<Rightarrow> (string \<Rightarrow> ip list option) \<Rightarrow> string \<Rightarrow> ssrf_error + url" where
  "Validate parse lookup rawURL =
     (case parse (TrimSpace rawURL) of
        None \<Rightarrow> Inl InvalidUrl
      | Some u \<Rightarrow>
          if u_Scheme u \<noteq> ''http'' \<and> u_Scheme u \<noteq> ''https'' then Inl (SchemeNotAllowed (u_Scheme u))
          else if u_Hostname u = [] then Inl EmptyHost
          else if isBlockedName (u_Hostname u) then Inl (BlockedHost (u_Hostname u))
          else case lookup (u_Hostname u) of
              None \<Rightarrow> Inl DnsFailed
            | Some ips \<Rightarrow>
                if ips = [] then Inl NoAddresses
                else case find (\<lambda>ip. \<not> IPAllowed ip) ips of
                    Some ip \<Rightarrow> Inl (Internal ip)
                  | None \<Rightarrow> Inr u)"

text \<open>\<open>SafeClient\<close>: its dialer, which is given a host and port and asks the resolver again, and
  its redirect policy. \<open>ips[0]\<close> panics when the resolver gives no address and no error.\<close>

definition safe_DialContext :: "(string \<Rightarrow> ip list option) \<Rightarrow> string \<Rightarrow> ssrf_error + ip" where
  "safe_DialContext lookup addr =
     (case SplitHostPort addr of
        None \<Rightarrow> Inl BadAddr
      | Some host \<Rightarrow>
          (case lookup host of
             None \<Rightarrow> Inl DnsFailed
           | Some ips \<Rightarrow>
               (case find (\<lambda>ip. \<not> IPAllowed ip) ips of
                  Some ip \<Rightarrow> Inl (Internal ip)
                | None \<Rightarrow> (case ips of [] \<Rightarrow> Inl DialPanic | ip # _ \<Rightarrow> Inr ip))))"

definition safe_CheckRedirect ::
  "(string \<Rightarrow> url option) \<Rightarrow> (string \<Rightarrow> ip list option) \<Rightarrow> string \<Rightarrow> nat \<Rightarrow> ssrf_error option" where
  "safe_CheckRedirect parse lookup req via =
     (if 5 \<le> via then Some TooManyRedirects
      else case Validate parse lookup req of Inl e \<Rightarrow> Some e | Inr _ \<Rightarrow> None)"

text \<open>A request through that client, as \<open>http.Client.Do\<close> drives it: connect, send, and when the
  answer redirects ask the policy with the requests made so far before the next hop. \<open>lookup n\<close> is
  the resolver at hop \<open>n\<close> (its answer to the redirect check and to the dialer may differ),
  \<open>addr\<close> the host and port of a URL, \<open>answer\<close> the redirect target the peer sends, if any. The
  result lists the addresses connected to.\<close>

record world =
  w_parse :: "string \<Rightarrow> url option"
  w_check :: "nat \<Rightarrow> string \<Rightarrow> ip list option"
  w_dial :: "nat \<Rightarrow> string \<Rightarrow> ip list option"
  w_addr :: "string \<Rightarrow> string"
  w_answer :: "nat \<Rightarrow> ip \<Rightarrow> string \<Rightarrow> string option"

function client_Do :: "world \<Rightarrow> nat \<Rightarrow> string \<Rightarrow> ip list \<times> ssrf_error option" where
  "client_Do w n req =
     (case safe_DialContext (w_dial w n) (w_addr w req) of
        Inl e \<Rightarrow> ([], Some e)
      | Inr ip \<Rightarrow>
          (case w_answer w n ip req of
             None \<Rightarrow> ([ip], None)
           | Some next \<Rightarrow>
               (case safe_CheckRedirect (w_parse w) (w_check w (Suc n)) next (Suc n) of
                  Some e \<Rightarrow> ([ip], Some e)
                | None \<Rightarrow> apfst ((#) ip) (client_Do w (Suc n) next))))"
  by pat_completeness auto
termination
  by (relation "measure (\<lambda>(w, n, req). 5 - n)") (auto simp: safe_CheckRedirect_def split: if_splits)

declare client_Do.simps [simp del]

subsection \<open>The filter against the address registries\<close>

text \<open>The blocks of IPv4 space that are not public, as base address and prefix length.\<close>

definition reserved4_blocks :: "((nat \<times> nat \<times> nat \<times> nat) \<times> nat) list" where
  "reserved4_blocks =
     [((0, 0, 0, 0), 8), ((10, 0, 0, 0), 8), ((100, 64, 0, 0), 10), ((127, 0, 0, 0), 8), ((169, 254, 0, 0), 16),
      ((172, 16, 0, 0), 12), ((192, 0, 0, 0), 24), ((192, 0, 2, 0), 24), ((192, 168, 0, 0), 16), ((198, 18, 0, 0), 15),
      ((224, 0, 0, 0), 4), ((240, 0, 0, 0), 4)]"

definition addr4 :: "nat \<times> nat \<times> nat \<times> nat \<Rightarrow> nat" where
  "addr4 q = (case q of (a, b, c, d) \<Rightarrow> ((a * 256 + b) * 256 + c) * 256 + d)"

definition reserved4 :: "nat \<Rightarrow> bool" where
  "reserved4 v \<longleftrightarrow> list_ex (\<lambda>(q, k). v div 2 ^ (32 - k) = addr4 q div 2 ^ (32 - k)) reserved4_blocks"

lemma byte_masks_range:
  "((b AND 0xF0 = 16) = (16 \<le> b \<and> b < 32)) \<and> ((b AND 0xF0 = 0xE0) = (224 \<le> b \<and> b < 240)) \<and>
   ((b AND 0xC0 = 64) = (64 \<le> b \<and> b < 128)) \<and> ((b AND 0xC0 = 0x80) = (128 \<le> b \<and> b < 192)) \<and>
   ((b AND 0xFE = 18) = (18 \<le> b \<and> b < 20)) \<and> ((b AND 0xFE = 0xFC) = (252 \<le> b \<and> b < 254)) \<and> b AND 0xFF = b" for b :: byte
  by (rule byte_cases [where b = b]) code_simp

lemma div_is: "0 < k \<Longrightarrow> n div k = q \<longleftrightarrow> q * k \<le> n \<and> n < q * k + k" for n k q :: nat
  by (metis add.commute div_nat_eqI mult.commute mult_Suc div_times_less_eq_dividend dividend_less_times_div)

lemma byte_masks:
  "(b AND 0xF0 = 16) = (unat b div 16 = 1)" "(b AND 0xF0 = 0xE0) = (unat b div 16 = 14)"
  "(b AND 0xC0 = 64) = (unat b div 64 = 1)" "(64 = b AND 0xC0) = (unat b div 64 = 1)"
  "(b AND 0xC0 = 0x80) = (unat b div 64 = 2)"
  "(b AND 0xFE = 18) = (unat b div 2 = 9)" "(18 = b AND 0xFE) = (unat b div 2 = 9)"
  "(b AND 0xFE = 0xFC) = (unat b div 2 = 126)" "(0xFC = b AND 0xFE) = (unat b div 2 = 126)"
  "(240 \<le> b) = (unat b div 16 = 15)" for b :: byte
proof -
  have e: "(x = y) = (y = x)" for x y :: byte by blast
  have r: "(b AND 0xF0 = 16) = (16 \<le> b \<and> b < 32)" "(b AND 0xF0 = 0xE0) = (224 \<le> b \<and> b < 240)"
    "(b AND 0xC0 = 64) = (64 \<le> b \<and> b < 128)" "(b AND 0xC0 = 0x80) = (128 \<le> b \<and> b < 192)"
    "(b AND 0xFE = 18) = (18 \<le> b \<and> b < 20)" "(b AND 0xFE = 0xFC) = (252 \<le> b \<and> b < 254)"
    using byte_masks_range [of b] by blast+
  note s = word_le_nat_alt word_less_nat_alt div_is
  show "(b AND 0xF0 = 16) = (unat b div 16 = 1)" "(b AND 0xF0 = 0xE0) = (unat b div 16 = 14)"
    "(b AND 0xC0 = 64) = (unat b div 64 = 1)" "(b AND 0xC0 = 0x80) = (unat b div 64 = 2)"
    "(b AND 0xFE = 18) = (unat b div 2 = 9)" "(b AND 0xFE = 0xFC) = (unat b div 2 = 126)"
    unfolding r by (simp_all add: s)
  then show "(64 = b AND 0xC0) = (unat b div 64 = 1)" "(18 = b AND 0xFE) = (unat b div 2 = 9)"
    "(0xFC = b AND 0xFE) = (unat b div 2 = 126)"
    by (metis e)+
  show "(240 \<le> b) = (unat b div 16 = 15)" using unat_byte_less [of b] by (simp add: s)
qed

lemma byte_and_FF [simp]: "(b :: byte) AND 0xFF = b"
  using byte_masks_range [of b] by blast

lemma byte_eq_numeral:
  "b = numeral k \<longleftrightarrow> unat b = unat (numeral k :: byte)" "numeral k = b \<longleftrightarrow> unat b = unat (numeral k :: byte)" for b :: byte
  by (auto simp: word_unat_eq_iff)

lemma quad_div:
  assumes "a < 256" "b < 256" "c < 256" "d < (256 :: nat)"
  defines "v \<equiv> ((a * 256 + b) * 256 + c) * 256 + d"
  shows "v div 2 ^ 28 = a div 16" "v div 2 ^ 24 = a" "v div 2 ^ 22 = a * 4 + b div 64" "v div 2 ^ 20 = a * 16 + b div 16"
    "v div 2 ^ 17 = a * 128 + b div 2" "v div 2 ^ 16 = a * 256 + b" "v div 2 ^ 8 = (a * 256 + b) * 256 + c"
  using assms(1-4) unfolding v_def by simp_all

lemma pair_eq: "b < m \<Longrightarrow> d < m \<Longrightarrow> a * m + b = c * m + d \<longleftrightarrow> a = c \<and> b = d" for a b c d m :: nat
proof -
  assume "b < m" "d < m"
  then have "(a * m + b) div m = a" "(a * m + b) mod m = b" "(c * m + d) div m = c" "(c * m + d) mod m = d" by simp_all
  then show ?thesis by metis
qed

lemma reserved4_quad:
  assumes "a < 256" "b < 256" "c < 256" "d < (256 :: nat)"
  shows "reserved4 (((a * 256 + b) * 256 + c) * 256 + d) \<longleftrightarrow>
    a = 0 \<or> a = 10 \<or> a = 100 \<and> b div 64 = 1 \<or> a = 127 \<or> a = 169 \<and> b = 254 \<or> a = 172 \<and> b div 16 = 1 \<or>
    a = 192 \<and> b = 0 \<and> c = 0 \<or> a = 192 \<and> b = 0 \<and> c = 2 \<or> a = 192 \<and> b = 168 \<or> a = 198 \<and> b div 2 = 9 \<or>
    a div 16 = 14 \<or> a div 16 = 15"
proof -
  have lt: "b div 64 < 4" "b div 16 < 16" "b div 2 < 128" using assms by simp_all
  have 1: "a * 4 + b div 64 = 401 \<longleftrightarrow> a = 100 \<and> b div 64 = 1" using pair_eq [OF lt(1), of 1 a 100] by simp
  have 2: "a * 256 + b = 43518 \<longleftrightarrow> a = 169 \<and> b = 254" using pair_eq [OF assms(2), of 254 a 169] by simp
  have 3: "a * 16 + b div 16 = 2753 \<longleftrightarrow> a = 172 \<and> b div 16 = 1" using pair_eq [OF lt(2), of 1 a 172] by simp
  have 4: "(a * 256 + b) * 256 + c = 12582912 \<longleftrightarrow> a = 192 \<and> b = 0 \<and> c = 0"
    using pair_eq [OF assms(3), of 0 "a * 256 + b" 49152] pair_eq [OF assms(2), of 0 a 192] by simp
  have 5: "(a * 256 + b) * 256 + c = 12582914 \<longleftrightarrow> a = 192 \<and> b = 0 \<and> c = 2"
    using pair_eq [OF assms(3), of 2 "a * 256 + b" 49152] pair_eq [OF assms(2), of 0 a 192] by simp
  have 6: "a * 256 + b = 49320 \<longleftrightarrow> a = 192 \<and> b = 168" using pair_eq [OF assms(2), of 168 a 192] by simp
  have 7: "a * 128 + b div 2 = 25353 \<longleftrightarrow> a = 198 \<and> b div 2 = 9" using pair_eq [OF lt(3), of 9 a 198] by simp
  have n: "(2 :: nat) ^ 28 = 268435456" "(2 :: nat) ^ 24 = 16777216" "(2 :: nat) ^ 22 = 4194304" "(2 :: nat) ^ 20 = 1048576"
    "(2 :: nat) ^ 17 = 131072" "(2 :: nat) ^ 16 = 65536" "(2 :: nat) ^ 8 = 256" by simp_all
  note q = quad_div [OF assms, unfolded n]
  show ?thesis
    unfolding reserved4_def reserved4_blocks_def
    by (simp add: addr4_def q 1 2 3 4 5 6 7 del: distrib_right_numeral add_mult_distrib)
qed

lemma To4_simps:
  "length v = 4 \<Longrightarrow> To4 v = Some v" "length v = 4 \<Longrightarrow> To4 (mapped_prefix @ v) = Some v"
  by (simp_all add: To4_def mapped_prefix_def)

lemma upt4: "[0..<4] = [0, 1, 2, Suc (Suc (Suc 0))]"
  by code_simp

lemma length_mapped [simp]: "length mapped_prefix = 12"
  by (simp add: mapped_prefix_def)

lemma mapped_not_zero [simp]:
  "mapped_prefix @ v \<noteq> replicate n 0" "mapped_prefix \<noteq> replicate n 0" "replicate n 0 \<noteq> mapped_prefix"
proof -
  have "255 \<in> set mapped_prefix" by (simp add: mapped_prefix_def)
  moreover have "(255 :: byte) \<notin> set (replicate n 0)" by simp
  ultimately show "mapped_prefix @ v \<noteq> replicate n 0" "mapped_prefix \<noteq> replicate n 0" "replicate n 0 \<noteq> mapped_prefix"
    by (metis Un_iff set_append)+
qed

lemma unspecified4:
  assumes "length v = 4"
  shows "IsUnspecified v \<longleftrightarrow> v = [0, 0, 0, 0]" and "IsUnspecified (mapped_prefix @ v) \<longleftrightarrow> v = [0, 0, 0, 0]"
  using assms by (auto simp: IsUnspecified_def ip_Equal_def)

lemma if_chain:
  "(if a then False else if b then False else if c then False else if d then False else e) \<longleftrightarrow> \<not> a \<and> \<not> b \<and> \<not> c \<and> \<not> d \<and> e"
  by simp

lemma filter4:
  assumes "length v = 4" and "w = v \<or> w = mapped_prefix @ v"
  shows "IPAllowed w \<longleftrightarrow> \<not> reserved4 (be_val v)"
proof -
  obtain a b c d where v: "v = [a, b, c, d]" using assms(1) by (auto simp: length_Suc_conv numeral_eq_Suc)
  have lt: "unat a < 256" "unat b < 256" "unat c < 256" "unat d < 256" by simp_all
  have t: "To4 w = Some v" and ne: "w \<noteq> []" using assms To4_simps [of v] by (auto simp: mapped_prefix_def)
  have l16: "length w = 16 \<Longrightarrow> w ! 0 = 0" using assms by (auto simp: mapped_prefix_def numeral_eq_Suc)
  have e: "be_val v = ((unat a * 256 + unat b) * 256 + unat c) * 256 + unat d" by (simp add: v be_val_def)
  note t [simp] v [simp] byte_masks [simp] byte_eq_numeral [where b = a, simp] byte_eq_numeral [where b = b, simp]
    byte_eq_numeral [where b = c, simp]
  have x: "list_ex (\<lambda>cidr. net_Contains cidr w) extraBlocked \<longleftrightarrow>
      unat a = 169 \<and> unat b = 254 \<or> unat a = 100 \<and> unat b div 64 = 1 \<or> unat a = 192 \<and> unat b = 0 \<and> unat c = 0 \<or>
      unat a = 192 \<and> unat b = 0 \<and> unat c = 2 \<or> unat a = 198 \<and> unat b div 2 = 9 \<or> unat a = 172 \<and> unat b = 17"
    by (simp add: extraBlocked_def net_Contains_def upt4 unat_eq_0)
  have p: "IsLoopback w \<longleftrightarrow> unat a = 127" "IsLinkLocalUnicast w \<longleftrightarrow> unat a = 169 \<and> unat b = 254"
    "IsMulticast w \<longleftrightarrow> unat a div 16 = 14" "\<not> IsInterfaceLocalMulticast w"
    "IsPrivate w \<longleftrightarrow> unat a = 10 \<or> unat a = 172 \<and> unat b div 16 = 1 \<or> unat a = 192 \<and> unat b = 168"
    using l16 by (auto simp: IsLoopback_def IsLinkLocalUnicast_def IsMulticast_def IsInterfaceLocalMulticast_def IsPrivate_def)
  have m: "IsLinkLocalMulticast w \<Longrightarrow> unat a div 16 = 14" by (simp add: IsLinkLocalMulticast_def)
  have u: "IsUnspecified w \<Longrightarrow> unat a = 0"
    using assms unspecified4 [of v] by auto
  have h: "(case To4 w of Some v4 \<Rightarrow> \<not> (v4 ! 0 = 0 \<or> 240 \<le> v4 ! 0) | None \<Rightarrow> True) \<longleftrightarrow> \<not> (unat a = 0 \<or> unat a div 16 = 15)"
    by (simp add: unat_eq_0)
  have "unat b = 17 \<Longrightarrow> unat b div 16 = 1" by simp
  then have "IPAllowed w \<longleftrightarrow> \<not> (unat a = 127 \<or> unat a = 169 \<and> unat b = 254 \<or> unat a div 16 = 14 \<or> unat a = 10 \<or>
      unat a = 172 \<and> unat b div 16 = 1 \<or> unat a = 192 \<and> unat b = 168 \<or>
      unat a = 100 \<and> unat b div 64 = 1 \<or> unat a = 192 \<and> unat b = 0 \<and> unat c = 0 \<or> unat a = 192 \<and> unat b = 0 \<and> unat c = 2 \<or>
      unat a = 198 \<and> unat b div 2 = 9 \<or> unat a = 0 \<or> unat a div 16 = 15)"
    unfolding IPAllowed_def x p h if_chain using ne u m p(4) by argo
  also have "\<dots> \<longleftrightarrow> \<not> reserved4 (be_val v)"
    unfolding e reserved4_quad [OF lt] by argo
  finally show ?thesis .
qed

text \<open>The blocks of IPv6 space: unspecified, loopback, unique local \<open>fc00::/7\<close>, link local
  \<open>fe80::/10\<close>, multicast \<open>ff00::/8\<close>.\<close>

definition reserved6 :: "ip \<Rightarrow> bool" where
  "reserved6 ip \<longleftrightarrow> ip = replicate 16 0 \<or> ip = replicate 15 0 @ [1] \<or> unat (ip ! 0) div 2 = 126 \<or>
     unat (ip ! 0) = 254 \<and> unat (ip ! 1) div 64 = 2 \<or> unat (ip ! 0) = 255"

lemma reserved6_zero: "reserved6 ip \<Longrightarrow> ip ! 0 = 0 \<Longrightarrow> ip = replicate 16 0 \<or> ip = replicate 15 0 @ [1]"
  by (auto simp: reserved6_def)

lemma zeros_nth:
  "(replicate 16 0 :: ip) ! 0 = 0" "(replicate 15 0 @ [1] :: ip) ! 0 = 0" "(replicate 16 0 :: ip) ! 1 = 0"
  "(replicate 15 0 @ [1] :: ip) ! 1 = 0"
  by (simp_all add: nth_append)

lemma contains_ula:
  fixes ip :: ip
  assumes "length ip = 16"
  shows "list_all (\<lambda>i. (0xFC # replicate 15 0) ! i AND (0xFE # replicate 15 0) ! i = ip ! i AND (0xFE # replicate 15 0) ! i)
      [0..<16] \<longleftrightarrow> unat (ip ! 0) div 2 = 126"
proof -
  have "[0..<16] = 0 # [1..<16]" by (simp add: upt_conv_Cons)
  moreover have "list_all (\<lambda>i. ((0xFC # replicate 15 0) ! i :: byte) AND (0xFE # replicate 15 0) ! i = ip ! i AND (0xFE # replicate 15 0) ! i) [1..<16]"
    by (auto simp: list_all_iff nth_Cons')
  ultimately show ?thesis by (simp add: byte_masks)
qed

lemma mapped_nth:
  assumes "take 12 ip = mapped_prefix" shows "ip ! 0 = 0" "ip ! 1 = 0" "ip ! 11 = 0xFF"
proof -
  have "take 12 ip ! 0 = mapped_prefix ! 0" "take 12 ip ! 1 = mapped_prefix ! 1" "take 12 ip ! 11 = mapped_prefix ! 11"
    using assms by simp_all
  then show "ip ! 0 = 0" "ip ! 1 = 0" "ip ! 11 = 0xFF" by (simp_all add: mapped_prefix_def nth_append)
qed

lemma filter6:
  assumes "length ip = 16" and "take 12 ip \<noteq> mapped_prefix"
  shows "IPAllowed ip \<longleftrightarrow> \<not> reserved6 ip"
proof -
  have t: "To4 ip = None" using assms by (simp add: To4_def)
  have ne: "ip \<noteq> []" using assms by auto
  have x: "list_ex (\<lambda>cidr. net_Contains cidr ip) extraBlocked \<longleftrightarrow> unat (ip ! 0) div 2 = 126"
    using contains_ula [OF assms(1)] by (simp add: extraBlocked_def net_Contains_def t assms(1))
  have p: "IsLoopback ip \<longleftrightarrow> ip = replicate 15 0 @ [1]" "IsMulticast ip \<longleftrightarrow> unat (ip ! 0) = 255"
    "IsPrivate ip \<longleftrightarrow> unat (ip ! 0) div 2 = 126" "IsLinkLocalUnicast ip \<longleftrightarrow> unat (ip ! 0) = 254 \<and> unat (ip ! 1) div 64 = 2"
    using assms(1) by (simp_all add: IsLoopback_def IsMulticast_def IsPrivate_def IsLinkLocalUnicast_def t ip_Equal_def
        byte_masks byte_eq_numeral [where b = "ip ! 0"])
  have "ip \<noteq> mapped_prefix @ r" for r using assms(2) by auto
  then have u: "IsUnspecified ip \<longleftrightarrow> ip = replicate 16 0"
    using assms(1) by (simp add: IsUnspecified_def ip_Equal_def)
  have m: "IsLinkLocalMulticast ip \<Longrightarrow> unat (ip ! 0) = 255" "IsInterfaceLocalMulticast ip \<Longrightarrow> unat (ip ! 0) = 255"
    by (simp_all add: IsLinkLocalMulticast_def IsInterfaceLocalMulticast_def t)
  show ?thesis unfolding IPAllowed_def reserved6_def x p u t option.case if_chain using ne m by blast
qed

text \<open>C20: the filter is exact: an IPv4 address is allowed exactly when it lies outside the reserved
  blocks, written as four bytes or as an IPv4-mapped IPv6 address; any other IPv6 address exactly
  when it is not unspecified, loopback, unique local, link local or multicast.\<close>

theorem IPAllowed_exact:
  assumes "length v = 4" and "length ip = 16" and "take 12 ip \<noteq> mapped_prefix"
  shows "(IPAllowed v \<longleftrightarrow> \<not> reserved4 (be_val v)) \<and> (IPAllowed (mapped_prefix @ v) \<longleftrightarrow> \<not> reserved4 (be_val v)) \<and>
    (IPAllowed ip \<longleftrightarrow> \<not> reserved6 ip)"
  using filter4 [OF assms(1)] filter6 [OF assms(2,3)] by blast

definition demo_public6 :: ip where
  "demo_public6 = [0x26, 0x06, 0x28, 0, 0x02, 0x20, 0, 1, 2, 0x48, 0x18, 0x93, 0x25, 0xC8, 0x19, 0x46]"

theorem IPAllowed_exact_witness:
  "\<not> IPAllowed [169, 254, 169, 254] \<and> \<not> IPAllowed (mapped_prefix @ [169, 254, 169, 254]) \<and> IPAllowed demo_public6"
proof -
  have m: "take 12 demo_public6 \<noteq> mapped_prefix" using mapped_nth(1) [of demo_public6] by (auto simp: demo_public6_def)
  have r: "reserved4 (be_val [169, 254, 169, 254])"
    using reserved4_quad [of 169 254 169 254] by (simp add: be_val_def)
  have "demo_public6 ! 0 = 0x26" by (simp add: demo_public6_def)
  moreover have "(0x26 :: byte) \<noteq> 0" by simp
  ultimately have "demo_public6 \<noteq> replicate 16 0" "demo_public6 \<noteq> replicate 15 0 @ [1]" using zeros_nth(1,2) by metis+
  then have "\<not> reserved6 demo_public6" using \<open>demo_public6 ! 0 = 0x26\<close> by (simp add: reserved6_def)
  then show ?thesis using r IPAllowed_exact [OF _ _ m, of "[169, 254, 169, 254]"] by (simp add: demo_public6_def)
qed

lemma nat64_allowed:
  assumes "length v = 4"
  shows "IPAllowed ([0x00, 0x64, 0xFF, 0x9B] @ replicate 8 0 @ v)"
    and "1 < be_val v \<Longrightarrow> IPAllowed (replicate 12 0 @ v)"
proof -
  let ?n = "[0x00, 0x64, 0xFF, 0x9B] @ replicate 8 0 @ v"
  have n: "?n ! 0 = 0" "?n ! 1 = 0x64" by simp_all
  have "take 12 ?n \<noteq> mapped_prefix" using mapped_nth(2) [of ?n] n(2) by auto
  moreover have "\<not> reserved6 ?n"
  proof
    assume "reserved6 ?n"
    then have "?n ! 1 = 0" using reserved6_zero [OF _ n(1)] zeros_nth by metis
    then show False unfolding n(2) by simp
  qed
  ultimately show "IPAllowed ?n" using filter6 [of ?n] assms by simp
  assume "1 < be_val v"
  let ?c = "replicate 12 0 @ v"
  have c: "?c ! 0 = 0" "?c ! 11 = 0" by (simp_all add: nth_append)
  have "take 12 ?c \<noteq> mapped_prefix" using mapped_nth(3) [of ?c] c(2) by auto
  moreover have "\<not> reserved6 ?c"
  proof
    assume "reserved6 ?c"
    then have "?c = replicate 16 0 \<or> ?c = replicate 15 0 @ [1]" using c(1) by (rule reserved6_zero)
    then have "drop 12 ?c = drop 12 (replicate 16 0) \<or> drop 12 ?c = drop 12 (replicate 15 0 @ [1])" by metis
    then have "v = replicate 4 0 \<or> v = replicate 3 0 @ [1]" by simp
    then show False using \<open>1 < be_val v\<close> by (auto simp: be_val_def numeral_eq_Suc)
  qed
  ultimately show "IPAllowed ?c" using filter6 [of ?c] assms by simp
qed

text \<open>An IPv4 address embedded in a NAT64 address (\<open>64:ff9b::/96\<close>, RFC 6052) or an
  IPv4-compatible one (\<open>::a.b.c.d\<close>) is not looked at: \<open>64:ff9b::127.0.0.1\<close>, which a NAT64 gateway
  translates to the loopback address, and every other such address is allowed.\<close>

theorem nat64_not_unwrapped:
  assumes "length v = 4"
  shows "IPAllowed ([0x00, 0x64, 0xFF, 0x9B] @ replicate 8 0 @ v) \<and> (1 < be_val v \<longrightarrow> IPAllowed (replicate 12 0 @ v))"
  using nat64_allowed [OF assms] by blast

theorem nat64_not_unwrapped_witness:
  "IPAllowed ([0x00, 0x64, 0xFF, 0x9B] @ replicate 8 0 @ [127, 0, 0, 1]) \<and> IPAllowed (replicate 12 0 @ [127, 0, 0, 1])"
  using nat64_not_unwrapped [of "[127, 0, 0, 1]"] by (simp add: be_val_def)

subsection \<open>Validation and the client\<close>

lemma find_not_allowed: "find (\<lambda>ip. \<not> IPAllowed ip) ips = None \<longleftrightarrow> list_all IPAllowed ips"
  by (auto simp: find_None_iff list_all_iff)

text \<open>A URL passes \<open>Validate\<close> exactly when it parses, its scheme is \<open>http\<close> or \<open>https\<close>, its
  host is named and not one of the blocked names, and the resolver gives at least one address for it
  and only allowed ones.\<close>

theorem Validate_accepts:
  "Validate parse lookup raw = Inr u \<longleftrightarrow>
     parse (TrimSpace raw) = Some u \<and> u_Scheme u \<in> {''http'', ''https''} \<and> u_Hostname u \<noteq> [] \<and>
     \<not> isBlockedName (u_Hostname u) \<and>
     (\<exists>ips. lookup (u_Hostname u) = Some ips \<and> ips \<noteq> [] \<and> list_all IPAllowed ips)"
  by (auto simp: Validate_def simp flip: find_not_allowed split: option.splits)

lemma DialContext_allowed: "safe_DialContext lookup addr = Inr ip \<Longrightarrow> IPAllowed ip"
  by (auto simp: safe_DialContext_def find_not_allowed split: option.splits list.splits)

lemma client_Do_hops:
  "list_all IPAllowed (fst (client_Do w n req)) \<and> length (fst (client_Do w n req)) \<le> max 1 (5 - n)"
proof (induction w n req rule: client_Do.induct)
  case (1 w n req)
  show ?case
  proof (cases "safe_DialContext (w_dial w n) (w_addr w req)")
    case (Inl e)
    then show ?thesis by (simp add: client_Do.simps [of w n req])
  next
    case (Inr ip)
    note dial = this
    then have ip: "IPAllowed ip" by (rule DialContext_allowed)
    show ?thesis
    proof (cases "w_answer w n ip req")
      case None
      then show ?thesis using dial ip by (simp add: client_Do.simps [of w n req])
    next
      case (Some next_req)
      show ?thesis
      proof (cases "safe_CheckRedirect (w_parse w) (w_check w (Suc n)) next_req (Suc n)")
        case (Some e)
        then show ?thesis using dial ip \<open>w_answer w n ip req = Some next_req\<close> by (simp add: client_Do.simps [of w n req])
      next
        case None
        then have "Suc n < 5" by (auto simp: safe_CheckRedirect_def split: if_splits)
        moreover note 1 [OF dial \<open>w_answer w n ip req = Some next_req\<close> None]
        ultimately show ?thesis using dial ip \<open>w_answer w n ip req = Some next_req\<close> None
          by (simp add: client_Do.simps [of w n req]) linarith
      qed
    qed
  qed
qed

text \<open>C21: a fetch through \<open>SafeClient\<close> opens connections to allowed addresses only, whatever the
  peers redirect to and however the resolver changes its answers between a check and the dial, and
  ends after at most five connections.\<close>

theorem client_Do_safe:
  "list_all IPAllowed (fst (client_Do w 0 req)) \<and> length (fst (client_Do w 0 req)) \<le> 5"
  using client_Do_hops [of w 0 req] by simp

end
