(* ===== verification/Pulse_Scanner.thy ===== *)
theory Pulse_Scanner
  imports Pulse_Scan_Checks Pulse_Ssrf
begin

section \<open>Package \<open>scanner\<close>: the scan engine, and its handlers\<close>

text \<open>
  \<^verbatim>\<open>scanner/engine.go\<close> and \<^verbatim>\<open>httpx/handlers_security.go\<close>. The active checks
  (\<^verbatim>\<open>checks_active.go\<close>, HTTP probes) are the argument \<open>active\<close>: any list of checks. A job is its
  scan state (the mutex makes each update atomic). The clock enters as a record: the instant of the
  \<open>n\<close>-th console line, the milliseconds the \<open>i\<close>-th check took, the start and the end of the scan.
  A scan started in the background is the value \<open>scan_run\<close> gives for the queued job; the states in
  between, which a poll may see, are those of \<open>run_loop\<close> after each check.
\<close>

definition maxJobs :: nat where "maxJobs = 40"

definition registry :: "check_def list \<Rightarrow> check_def list" where
  "registry active = passiveChecks @ active"

definition severityRank :: "string \<Rightarrow> nat" where
  "severityRank s =
     (if s = SeverityCritical then 0 else if s = SeverityHigh then 1 else if s = SeverityMedium then 2
      else if s = SeverityLow then 3 else 4)"

record scan_clock =
  sk_log :: "nat \<Rightarrow> time"
  sk_dur :: "nat \<Rightarrow> int"
  sk_start :: time
  sk_finish :: time

definition job_log :: "scan_clock \<Rightarrow> string \<Rightarrow> string \<Rightarrow> string \<Rightarrow> scan_state \<Rightarrow> scan_state" where
  "job_log k level chk msg j =
     j\<lparr>sn_Logs := sn_Logs j @ [\<lparr>lg_T = sk_log k (length (sn_Logs j)), lg_Level = level, lg_Check = chk, lg_Msg = msg\<rparr>]\<rparr>"

definition selectChecks :: "check_def list \<Rightarrow> string \<Rightarrow> string list \<Rightarrow> check_def list" where
  "selectChecks active mode cats = filter (\<lambda>d.
     \<not> (mode = ModePassive \<and> ck_Kind (cd_meta d) \<noteq> KindPassive) \<and>
     \<not> (mode = ModeActive \<and> ck_Kind (cd_meta d) \<noteq> KindActive) \<and>
     \<not> (cats \<noteq> [] \<and> ck_Category (cd_meta d) \<notin> set cats)) (registry active)"

definition not_run :: "check_def \<Rightarrow> check" where
  "not_run d = (cd_meta d)\<lparr>ck_Status := StatusNotRun\<rparr>"

definition Catalogue :: "check_def list \<Rightarrow> check list" where
  "Catalogue active = map not_run (registry active)"

text \<open>The first check with the identifier is changed.\<close>

fun update_check :: "string \<Rightarrow> (check \<Rightarrow> check) \<Rightarrow> check list \<Rightarrow> check list" where
  "update_check i f [] = []"
| "update_check i f (c # cs) = (if ck_ID c = i then f c # cs else c # update_check i f cs)"

definition finishCheck :: "string \<Rightarrow> string \<Rightarrow> int \<Rightarrow> int \<Rightarrow> string \<Rightarrow> scan_state \<Rightarrow> scan_state" where
  "finishCheck i status cnt dur note j =
     j\<lparr>sn_Checks := update_check i (\<lambda>c. let c1 = c\<lparr>ck_Status := status, ck_Count := cnt, ck_DurationMS := dur\<rparr> in
        if note \<noteq> [] then c1\<lparr>ck_Note := note\<rparr> else c1) (sn_Checks j)\<rparr>"

definition setCheckError :: "string \<Rightarrow> scan_state \<Rightarrow> scan_state" where
  "setCheckError i j = j\<lparr>sn_Checks := update_check i (\<lambda>c. c\<lparr>ck_Status := StatusError\<rparr>) (sn_Checks j)\<rparr>"

definition advance :: "nat \<Rightarrow> nat \<Rightarrow> scan_state \<Rightarrow> scan_state" where
  "advance i n j =
     (let j1 = j\<lparr>sn_Completed := i + 1\<rparr> in
      if n > 0 then j1\<lparr>sn_Progress := of_nat (i + 1) / of_nat n\<rparr> else j1)"

definition stamp :: "check \<Rightarrow> finding \<Rightarrow> finding" where
  "stamp meta f =
     (let f1 = f\<lparr>fi_CheckID := ck_ID meta\<rparr>;
          f2 = (if fi_Category f1 = [] then f1\<lparr>fi_Category := ck_Category meta\<rparr> else f1)
      in if fi_OWASP f2 = [] then f2\<lparr>fi_OWASP := ck_OWASP meta\<rparr> else f2)"

fun run_actions :: "scan_clock \<Rightarrow> check \<Rightarrow> sc_action list \<Rightarrow> scan_state \<Rightarrow> scan_state" where
  "run_actions k meta [] j = j"
| "run_actions k meta (Emit f # as) j = run_actions k meta as (j\<lparr>sn_Findings := sn_Findings j @ [stamp meta f]\<rparr>)"
| "run_actions k meta (Log l m # as) j = run_actions k meta as (job_log k l (ck_ID meta) m j)"

text \<open>\<open>runOne\<close>: the count is the named result, so a panic returns the findings emitted before it.\<close>

definition runOne :: "scan_clock \<Rightarrow> check_def \<Rightarrow> scan_input \<Rightarrow> scan_state \<Rightarrow> int \<times> scan_state" where
  "runOne k d inp j =
     (let (as, panicked) = cd_run d inp;
          j1 = run_actions k (cd_meta d) as j;
          j2 = (case panicked of
              None \<Rightarrow> j1
            | Some r \<Rightarrow> setCheckError (ck_ID (cd_meta d)) (job_log k LogError (ck_ID (cd_meta d)) (''Check errored: '' @ r) j1))
      in (int (length (emitted as)), j2))"

definition run_check :: "scan_clock \<Rightarrow> scan_input \<Rightarrow> nat \<Rightarrow> nat \<Rightarrow> check_def \<Rightarrow> scan_state \<Rightarrow> scan_state" where
  "run_check k inp n i d j =
     (let m = cd_meta d; j1 = j\<lparr>sn_Current := ck_Name m\<rparr> in
      if ck_Kind m = KindActive \<and> si_Targets inp = [] then
        advance i n (job_log k LogWarn (ck_ID m) (''Skipped '' @ ck_Name m @ '' '' @ em_dash @ '' no public URL discovered for this server'')
          (finishCheck (ck_ID m) StatusSkipped 0 (sk_dur k i) ''no public targets'' j1))
      else
        let (cnt, j2) = runOne k d inp (job_log k LogInfo (ck_ID m) (''Running '' @ ck_Name m) j1);
            j3 = (if cnt > 0
                  then job_log k LogWarn (ck_ID m) (ck_Name m @ '': '' @ Itoa cnt @ '' finding(s)'') j2
                  else job_log k LogSuccess (ck_ID m) (ck_Name m @ '': clean'') j2)
        in advance i n (finishCheck (ck_ID m) (if cnt > 0 then StatusIssues else StatusPass) cnt (sk_dur k i) [] j3))"

fun run_loop :: "scan_clock \<Rightarrow> scan_input \<Rightarrow> nat \<Rightarrow> nat \<Rightarrow> check_def list \<Rightarrow> scan_state \<Rightarrow> scan_state" where
  "run_loop k inp n i [] j = j"
| "run_loop k inp n i (d # ds) j = run_loop k inp n (Suc i) ds (run_check k inp n i d j)"

text \<open>\<open>sort.SliceStable\<close> by severity is the stable \<open>sort_key\<close>.\<close>

definition scan_run :: "scan_clock \<Rightarrow> scan_input \<Rightarrow> check_def list \<Rightarrow> scan_state \<Rightarrow> scan_state" where
  "scan_run k inp defs j =
     (let j1 = job_log k LogInfo [] (''Scan started '' @ middle_dot @ '' '' @ Itoa (int (length defs)) @ '' checks '' @ middle_dot @ '' '' @
            Itoa (int (length (si_Targets inp))) @ '' target(s)'') (j\<lparr>sn_Status := ScanRunning\<rparr>);
          j2 = run_loop k inp (length defs) 0 defs j1;
          j3 = j2\<lparr>sn_Findings := sort_key (\<lambda>f. severityRank (fi_Severity f)) (sn_Findings j2), sn_FinishedAt := Some (sk_finish k),
                 sn_Status := ScanDone, sn_Current := [], sn_Progress := 1\<rparr>
      in job_log k LogSuccess [] (''Scan complete '' @ middle_dot @ '' '' @ Itoa (int (length (sn_Findings j3))) @ '' finding(s)'') j3)"

subsection \<open>Jobs\<close>

record manager =
  mg_jobs :: "string \<rightharpoonup> scan_state"
  mg_latest :: "string \<rightharpoonup> string"
  mg_order :: "string list"

definition NewManager :: manager where
  "NewManager = \<lparr>mg_jobs = Map.empty, mg_latest = Map.empty, mg_order = []\<rparr>"

definition newScanID :: "bytes \<Rightarrow> string" where
  "newScanID rnd = ''scan_'' @ hex_encode rnd"

fun prune_jobs :: "nat \<Rightarrow> manager \<Rightarrow> manager" where
  "prune_jobs 0 m = m"
| "prune_jobs (Suc n) m =
     (let old = hd (mg_order m); m1 = m\<lparr>mg_order := tl (mg_order m)\<rparr> in
      prune_jobs n (if old \<in> ran (mg_latest m) then m1 else m1\<lparr>mg_jobs := (mg_jobs m1)(old := None)\<rparr>))"

text \<open>\<open>prune\<close>: its loop runs once for each identifier above the cap.\<close>

definition prune :: "manager \<Rightarrow> manager" where
  "prune m = prune_jobs (length (mg_order m) - maxJobs) m"

definition add_job :: "string \<Rightarrow> string \<Rightarrow> scan_state \<Rightarrow> manager \<Rightarrow> manager" where
  "add_job i serverID j m =
     prune (m\<lparr>mg_jobs := (mg_jobs m)(i \<mapsto> j), mg_latest := (mg_latest m)(serverID \<mapsto> i), mg_order := mg_order m @ [i]\<rparr>)"

definition queued_job :: "scan_clock \<Rightarrow> string \<Rightarrow> scan_input \<Rightarrow> string \<Rightarrow> string list \<Rightarrow> check_def list \<Rightarrow> scan_state" where
  "queued_job k i inp mode cats defs =
     \<lparr>sn_ID = i, sn_ServerID = si_ServerID inp, sn_Status = ScanQueued, sn_Mode = mode, sn_Categories = cats,
      sn_Targets = map tg_URL (si_Targets inp), sn_Progress = 0, sn_Current = [], sn_Total = length defs, sn_Completed = 0,
      sn_StartedAt = sk_start k, sn_FinishedAt = None, sn_Checks = map not_run defs, sn_Findings = [], sn_Logs = []\<rparr>"

text \<open>\<open>StartScan\<close> registers the queued job and returns its identifier with the work the new
  goroutine does; \<open>complete\<close> is that work's effect once it has finished.\<close>

definition StartScan :: "check_def list \<Rightarrow> scan_clock \<Rightarrow> bytes \<Rightarrow> scan_input \<Rightarrow> string \<Rightarrow> string list \<Rightarrow> manager \<Rightarrow>
    string \<times> manager" where
  "StartScan active k rnd inp mode0 cats m =
     (let mode = (if mode0 = [] then ModeFull else mode0);
          i = newScanID rnd
      in (i, add_job i (si_ServerID inp) (queued_job k i inp mode cats (selectChecks active mode cats)) m))"

definition complete :: "check_def list \<Rightarrow> scan_clock \<Rightarrow> scan_input \<Rightarrow> string \<Rightarrow> manager \<Rightarrow> manager" where
  "complete active k inp i m =
     (case mg_jobs m i of
        None \<Rightarrow> m
      | Some j \<Rightarrow> m\<lparr>mg_jobs := (mg_jobs m)(i \<mapsto> scan_run k inp (selectChecks active (sn_Mode j) (sn_Categories j)) j)\<rparr>)"

definition mg_Get :: "string \<Rightarrow> manager \<Rightarrow> scan_state option" where
  "mg_Get i m = mg_jobs m i"

definition Latest :: "string \<Rightarrow> manager \<Rightarrow> scan_state option" where
  "Latest serverID m = (case mg_latest m serverID of None \<Rightarrow> None | Some i \<Rightarrow> mg_jobs m i)"

definition sync_check :: "scan_clock \<Rightarrow> scan_input \<Rightarrow> nat \<Rightarrow> nat \<Rightarrow> check_def \<Rightarrow> scan_state \<Rightarrow> scan_state" where
  "sync_check k inp n i d j =
     (let (cnt, j1) = runOne k d inp j in
      advance i n (finishCheck (ck_ID (cd_meta d)) (if cnt > 0 then StatusIssues else StatusPass) cnt (sk_dur k i) [] j1))"

fun sync_loop :: "scan_clock \<Rightarrow> scan_input \<Rightarrow> nat \<Rightarrow> nat \<Rightarrow> check_def list \<Rightarrow> scan_state \<Rightarrow> scan_state" where
  "sync_loop k inp n i [] j = j"
| "sync_loop k inp n i (d # ds) j = sync_loop k inp n (Suc i) ds (sync_check k inp n i d j)"

definition RunPassiveSync :: "check_def list \<Rightarrow> scan_clock \<Rightarrow> bytes \<Rightarrow> scan_input \<Rightarrow> manager \<Rightarrow> scan_state \<times> manager" where
  "RunPassiveSync active k rnd inp m =
     (let defs = selectChecks active ModePassive [];
          i = newScanID rnd;
          j0 = (queued_job k i inp ModePassive [] defs)\<lparr>sn_Status := ScanRunning, sn_Targets := []\<rparr>;
          j1 = sync_loop k inp (length defs) 0 defs j0;
          j2 = j1\<lparr>sn_Findings := sort_key (\<lambda>f. severityRank (fi_Severity f)) (sn_Findings j1), sn_FinishedAt := Some (sk_finish k),
                 sn_Status := ScanDone, sn_Progress := 1\<rparr>
      in (j2, add_job i (si_ServerID inp) j2 m))"

subsection \<open>Handlers\<close>

definition splitServerNames :: "string \<Rightarrow> string list" where
  "splitServerNames s = filter (\<lambda>w. w \<noteq> [])
     (Split (map (\<lambda>c. if c = CHR '' '' \<or> c = CHR 0x09 then CHR '','' else c) s) (CHR '',''))"

definition scan_resource :: "agent_resource \<Rightarrow> sc_resource" where
  "scan_resource r = \<lparr>sr_Type = res_Type r, sr_Name = res_Name r, sr_Status = res_Status r, sr_Health = res_Health r,
     sr_Attributes = res_Attributes r,
     sr_Ports = map (\<lambda>p. \<lparr>sp_Host = po_Host p, sp_Container = po_Container p, sp_Protocol = po_Protocol p,
        sp_Address = po_Address p, sp_State = po_State p\<rparr>) (res_Ports r)\<rparr>"

definition maxTargets :: nat where "maxTargets = 6"

text \<open>One name of a virtual host: \<open>certs\<close> are the certificate names, the state is the targets so
  far and the names seen.\<close>

definition add_target :: "(string \<Rightarrow> url option) \<Rightarrow> (string \<Rightarrow> ip list option) \<Rightarrow> string list \<Rightarrow> bool \<Rightarrow> string \<Rightarrow>
    sc_target list \<times> string list \<Rightarrow> sc_target list \<times> string list" where
  "add_target parse lookup certs ssl fqdn st =
     (case st of (targets, seen) \<Rightarrow>
       if maxTargets \<le> length targets then st
       else if fqdn = [] \<or> fqdn = ''_'' \<or> fqdn \<in> set seen \<or> Contains fqdn ''*'' then st
       else
         let tls = (ssl \<or> fqdn \<in> set certs);
             raw = (if tls then ''https'' else ''http'') @ ''://'' @ fqdn
         in case Validate parse lookup raw of
              Inl _ \<Rightarrow> (targets, fqdn # seen)
            | Inr _ \<Rightarrow> (targets @ [\<lparr>tg_URL = raw, tg_FQDN = fqdn, tg_TLS = tls\<rparr>], fqdn # seen))"

definition buildScanInput :: "(string \<Rightarrow> url option) \<Rightarrow> (string \<Rightarrow> ip list option) \<Rightarrow> string \<Rightarrow> agent_snapshot \<Rightarrow> scan_input" where
  "buildScanInput parse lookup serverID snap =
     (let certs = map res_Name (resourcesOfType snap [''tls_certificate'']);
          vhosts = resourcesOfType snap [''nginx_vhost'', ''caddy_site'', ''apache_vhost'', ''traefik_router''];
          (targets, _) = fold (\<lambda>vh. fold (add_target parse lookup certs (attrBool (res_Attributes vh) ''ssl''))
              (splitServerNames (res_Name vh))) vhosts ([], [])
      in \<lparr>si_ServerID = serverID, si_Hostname = snap_Hostname snap, si_Resources = map scan_resource (snap_Resources snap),
          si_Targets = targets\<rparr>)"

text \<open>What a request for the security pages depends on beyond the state: the active checks, the URL
  parser, the resolver, the clock of the scan and the random bytes of its identifier.\<close>

record scan_env =
  ev_active :: "check_def list"
  ev_parse :: "string \<Rightarrow> url option"
  ev_lookup :: "string \<Rightarrow> ip list option"
  ev_clock :: scan_clock
  ev_rnd :: bytes

record sec_audit =
  sa_Categories :: "category list"
  sa_Checks :: "check list"
  sa_Latest :: scan_state

definition handleSecurity :: "scan_env \<Rightarrow> principal \<Rightarrow> http_request \<Rightarrow> server_state \<Rightarrow> manager \<Rightarrow>
    (http_response + sec_audit) \<times> manager" where
  "handleSecurity e p r s m =
     (case GetServer (p_OrgID p) (rq_PathValue r ''id'') (ss_store s) of
        Inl _ \<Rightarrow> (Inl (Fail 404 CodeNotFound ''server not found''), m)
      | Inr srv \<Rightarrow>
          (case loadSnapshot (p_OrgID p) (rq_PathValue r ''id'') (ss_store s) of
             None \<Rightarrow> (Inl (Fail 404 CodeNotFound ''no security data yet''), m)
           | Some snap \<Rightarrow>
               let (latest, m') =
                 (case Latest (srv_ServerID srv) m of
                    Some st \<Rightarrow> (st, m)
                  | None \<Rightarrow> RunPassiveSync (ev_active e) (ev_clock e) (ev_rnd e)
                      (buildScanInput (ev_parse e) (ev_lookup e) (srv_ServerID srv) snap) m)
               in (Inr \<lparr>sa_Categories = Categories, sa_Checks = Catalogue (ev_active e), sa_Latest = latest\<rparr>, m')))"

text \<open>The body is optional: fields that are missing or of another type stay empty.\<close>

definition scanRequest :: "http_request \<Rightarrow> string \<times> string list" where
  "scanRequest r =
     (case json_Decode (bytes_str (rq_Body r)) of
        Some (JvObj ms) \<Rightarrow> (get_string ''mode'' ms, map str_of (get_list ''categories'' ms))
      | _ \<Rightarrow> ([], []))"

definition handleSecurityScanStart :: "scan_env \<Rightarrow> inputs \<Rightarrow> principal \<Rightarrow> http_request \<Rightarrow> server_state \<Rightarrow> manager \<Rightarrow>
    http_response \<times> server_state \<times> manager" where
  "handleSecurityScanStart e x p r s m =
     (case GetServer (p_OrgID p) (rq_PathValue r ''id'') (ss_store s) of
        Inl _ \<Rightarrow> (Fail 404 CodeNotFound ''server not found'', s, m)
      | Inr srv \<Rightarrow>
          (case loadSnapshot (p_OrgID p) (rq_PathValue r ''id'') (ss_store s) of
             None \<Rightarrow> (Fail 404 CodeNotFound ''no security data yet'', s, m)
           | Some snap \<Rightarrow>
               let (mode0, cats) = scanRequest r;
                   mode = (if mode0 \<in> {ModePassive, ModeActive, ModeFull} then mode0 else ModeFull);
                   (i, m') = StartScan (ev_active e) (ev_clock e) (ev_rnd e)
                     (buildScanInput (ev_parse e) (ev_lookup e) (srv_ServerID srv) snap) mode cats m;
                   s' = Record x 0 (p_OrgID p) (p_Email p) ''security.scan.start'' ''success'' (clientIP r)
                     [(''mode'', mode), (''scan_id'', i), (''server'', srv_ID srv)] s
               in (JSON 202 [(''scan_id'', JStr i)], s', m')))"

definition handleSecurityScanGet :: "principal \<Rightarrow> http_request \<Rightarrow> server_state \<Rightarrow> manager \<Rightarrow> http_response + scan_state" where
  "handleSecurityScanGet p r s m =
     (case GetServer (p_OrgID p) (rq_PathValue r ''id'') (ss_store s) of
        Inl _ \<Rightarrow> Inl (Fail 404 CodeNotFound ''server not found'')
      | Inr srv \<Rightarrow>
          (case mg_Get (rq_PathValue r ''scanId'') m of
             None \<Rightarrow> Inl (Fail 404 CodeNotFound ''scan not found'')
           | Some st \<Rightarrow>
               if sn_ServerID st \<noteq> srv_ServerID srv then Inl (Fail 404 CodeNotFound ''scan not found'') else Inr st))"

subsection \<open>What a finished scan holds\<close>

lemma job_log_simps [simp]:
  "sn_Findings (job_log k l c m j) = sn_Findings j" "sn_Checks (job_log k l c m j) = sn_Checks j"
  "sn_Completed (job_log k l c m j) = sn_Completed j" "sn_Progress (job_log k l c m j) = sn_Progress j"
  "sn_Status (job_log k l c m j) = sn_Status j" "sn_ID (job_log k l c m j) = sn_ID j"
  "sn_ServerID (job_log k l c m j) = sn_ServerID j" "sn_FinishedAt (job_log k l c m j) = sn_FinishedAt j"
  by (simp_all add: job_log_def)

lemma finish_simps [simp]:
  "sn_Findings (finishCheck i s c d n j) = sn_Findings j" "sn_Completed (finishCheck i s c d n j) = sn_Completed j"
  "sn_ID (finishCheck i s c d n j) = sn_ID j" "sn_ServerID (finishCheck i s c d n j) = sn_ServerID j"
  "sn_Findings (setCheckError i j) = sn_Findings j" "sn_Completed (setCheckError i j) = sn_Completed j"
  "sn_ID (setCheckError i j) = sn_ID j" "sn_ServerID (setCheckError i j) = sn_ServerID j"
  by (simp_all add: finishCheck_def setCheckError_def)

lemma advance_simps [simp]:
  "sn_Findings (advance i n j) = sn_Findings j" "sn_Checks (advance i n j) = sn_Checks j"
  "sn_Completed (advance i n j) = i + 1" "sn_ID (advance i n j) = sn_ID j" "sn_ServerID (advance i n j) = sn_ServerID j"
  by (simp_all add: advance_def Let_def)

lemma run_actions_simps [simp]:
  "sn_Findings (run_actions k meta as j) = sn_Findings j @ map (stamp meta) (emitted as)"
  "sn_Checks (run_actions k meta as j) = sn_Checks j"
  "sn_ID (run_actions k meta as j) = sn_ID j" "sn_ServerID (run_actions k meta as j) = sn_ServerID j"
  by (induction k meta as j rule: run_actions.induct) simp_all

lemma update_check_append:
  "i \<notin> ck_ID ` set cs \<Longrightarrow> update_check i f (cs @ ds) = cs @ update_check i f ds"
  by (induction cs) auto

lemma update_check_twice:
  "(\<And>c. ck_ID (f c) = ck_ID c) \<Longrightarrow> update_check i g (update_check i f cs) = update_check i (g \<circ> f) cs"
  by (induction cs) auto

text \<open>What a check contributes: its findings, and its outcome.\<close>

definition skipped :: "scan_input \<Rightarrow> check_def \<Rightarrow> bool" where
  "skipped inp d \<longleftrightarrow> ck_Kind (cd_meta d) = KindActive \<and> si_Targets inp = []"

definition findings_of :: "scan_input \<Rightarrow> check_def \<Rightarrow> finding list" where
  "findings_of inp d = (if skipped inp d then [] else map (stamp (cd_meta d)) (emitted (fst (cd_run d inp))))"

definition outcome_of :: "scan_input \<Rightarrow> check_def \<Rightarrow> string \<times> string \<times> int" where
  "outcome_of inp d = (ck_ID (cd_meta d),
     if skipped inp d then StatusSkipped else if findings_of inp d \<noteq> [] then StatusIssues else StatusPass,
     int (length (findings_of inp d)))"

definition outcome :: "check \<Rightarrow> string \<times> string \<times> int" where
  "outcome c = (ck_ID c, ck_Status c, ck_Count c)"

lemma runOne_effect:
  assumes "runOne k d inp j = (cnt, j')"
  shows "cnt = int (length (emitted (fst (cd_run d inp))))"
    and "sn_Findings j' = sn_Findings j @ map (stamp (cd_meta d)) (emitted (fst (cd_run d inp)))"
    and "sn_Checks j' = (if snd (cd_run d inp) = None then sn_Checks j
           else update_check (ck_ID (cd_meta d)) (\<lambda>c. c\<lparr>ck_Status := StatusError\<rparr>) (sn_Checks j))"
    and "sn_ID j' = sn_ID j" and "sn_ServerID j' = sn_ServerID j"
  using assms by (auto simp: runOne_def Let_def setCheckError_def split: prod.splits option.splits)

text \<open>One round: the check's findings are appended, and its entry, the first with its identifier,
  gets its outcome.\<close>

lemma run_check_effect:
  "sn_Findings (run_check k inp n i d j) = sn_Findings j @ findings_of inp d"
  "sn_Completed (run_check k inp n i d j) = i + 1"
  "\<exists>f. (\<forall>c. ck_ID c = ck_ID (cd_meta d) \<longrightarrow> outcome (f c) = outcome_of inp d) \<and>
     sn_Checks (run_check k inp n i d j) = update_check (ck_ID (cd_meta d)) f (sn_Checks j)"
  "sn_ID (run_check k inp n i d j) = sn_ID j" "sn_ServerID (run_check k inp n i d j) = sn_ServerID j"
proof -
  obtain cnt j2 where r: "runOne k d inp (job_log k LogInfo (ck_ID (cd_meta d)) (''Running '' @ ck_Name (cd_meta d))
      (j\<lparr>sn_Current := ck_Name (cd_meta d)\<rparr>)) = (cnt, j2)" by fastforce
  note e = runOne_effect [OF r, unfolded job_log_simps scan_state.simps]
  obtain g where g: "\<And>c. ck_ID (g c) = ck_ID c" "sn_Checks j2 = update_check (ck_ID (cd_meta d)) g (sn_Checks j)"
  proof (cases "snd (cd_run d inp) = None")
    case True
    have "update_check x (\<lambda>c. c) cs = cs" for x cs by (induction cs) auto
    then show ?thesis using that [of "\<lambda>c. c"] e(3) True by simp
  next
    case False
    show ?thesis by (rule that [of "\<lambda>c. c\<lparr>ck_Status := StatusError\<rparr>"]) (use False e(3) in auto)
  qed
  define j3 where "j3 = (if cnt > 0
      then job_log k LogWarn (ck_ID (cd_meta d)) (ck_Name (cd_meta d) @ '': '' @ Itoa cnt @ '' finding(s)'') j2
      else job_log k LogSuccess (ck_ID (cd_meta d)) (ck_Name (cd_meta d) @ '': clean'') j2)"
  have j3: "sn_Findings j3 = sn_Findings j2" "sn_Checks j3 = sn_Checks j2" "sn_ID j3 = sn_ID j2" "sn_ServerID j3 = sn_ServerID j2"
    by (simp_all add: j3_def)
  have run: "run_check k inp n i d j =
      advance i n (finishCheck (ck_ID (cd_meta d)) (if cnt > 0 then StatusIssues else StatusPass) cnt (sk_dur k i) [] j3)"
    if "\<not> skipped inp d"
    unfolding run_check_def Let_def j3_def using that [unfolded skipped_def] by (simp only: r prod.case if_False)
  have skip: "run_check k inp n i d j =
      advance i n (job_log k LogWarn (ck_ID (cd_meta d))
        (''Skipped '' @ ck_Name (cd_meta d) @ '' '' @ em_dash @ '' no public URL discovered for this server'')
        (finishCheck (ck_ID (cd_meta d)) StatusSkipped 0 (sk_dur k i) ''no public targets'' (j\<lparr>sn_Current := ck_Name (cd_meta d)\<rparr>)))"
    if "skipped inp d"
    unfolding run_check_def Let_def using that [unfolded skipped_def] by (simp only: if_True simp_thms)
  show "sn_Findings (run_check k inp n i d j) = sn_Findings j @ findings_of inp d"
    using e(2) j3 by (cases "skipped inp d") (simp_all add: run skip findings_of_def)
  show "sn_Completed (run_check k inp n i d j) = i + 1"
    by (cases "skipped inp d") (simp_all add: run skip)
  show "sn_ID (run_check k inp n i d j) = sn_ID j" "sn_ServerID (run_check k inp n i d j) = sn_ServerID j"
    using e(4,5) j3 by (cases "skipped inp d"; simp add: run skip)+
  show "\<exists>f. (\<forall>c. ck_ID c = ck_ID (cd_meta d) \<longrightarrow> outcome (f c) = outcome_of inp d) \<and>
     sn_Checks (run_check k inp n i d j) = update_check (ck_ID (cd_meta d)) f (sn_Checks j)"
  proof (cases "skipped inp d")
    case True
    show ?thesis unfolding skip [OF True] advance_simps job_log_simps finishCheck_def
      by (rule exI, rule conjI [rotated], simp) (simp add: outcome_def outcome_of_def findings_of_def True)
  next
    case False
    show ?thesis unfolding run [OF False] advance_simps finishCheck_def
      by (rule exI, rule conjI [rotated], simp add: j3 g update_check_twice)
        (simp add: outcome_def outcome_of_def findings_of_def False e(1) g(1))
  qed
qed

lemma run_loop_findings: "sn_Findings (run_loop k inp n i ds j) = sn_Findings j @ concat (map (findings_of inp) ds)"
  by (induction ds arbitrary: i j) (simp_all add: run_check_effect(1))

lemma run_loop_completed: "sn_Completed (run_loop k inp n i ds j) = (if ds = [] then sn_Completed j else i + length ds)"
  by (induction ds arbitrary: i j) (simp_all add: run_check_effect(2))

lemma run_loop_outcomes:
  "distinct (map (ck_ID \<circ> cd_meta) (ds0 @ ds)) \<Longrightarrow> sn_Checks j = cs @ map not_run ds \<Longrightarrow>
   map outcome cs = map (outcome_of inp) ds0 \<Longrightarrow>
   map outcome (sn_Checks (run_loop k inp n i ds j)) = map (outcome_of inp) (ds0 @ ds)"
proof (induction ds arbitrary: ds0 cs i j)
  case Nil
  then show ?case by simp
next
  case (Cons d ds)
  obtain f where f: "\<And>c. ck_ID c = ck_ID (cd_meta d) \<Longrightarrow> outcome (f c) = outcome_of inp d"
    "sn_Checks (run_check k inp n i d j) = update_check (ck_ID (cd_meta d)) f (sn_Checks j)"
    using run_check_effect(3) by blast
  have "map fst (map outcome cs) = map fst (map (outcome_of inp) ds0)" using Cons.prems(3) by simp
  then have "map ck_ID cs = map (ck_ID \<circ> cd_meta) ds0" by (simp add: outcome_def outcome_of_def comp_def)
  then have "ck_ID ` set cs = (ck_ID \<circ> cd_meta) ` set ds0" by (metis list.set_map)
  then have "ck_ID (cd_meta d) \<notin> ck_ID ` set cs" using Cons.prems(1) by auto
  then have "sn_Checks (run_check k inp n i d j) = (cs @ [f (not_run d)]) @ map not_run ds"
    unfolding f(2) Cons.prems(2) by (simp add: update_check_append not_run_def)
  moreover have "map outcome (cs @ [f (not_run d)]) = map (outcome_of inp) (ds0 @ [d])"
    using Cons.prems(3) f(1) [of "not_run d"] by (simp add: not_run_def)
  ultimately show ?case using Cons.IH [of "ds0 @ [d]" "run_check k inp n i d j" "cs @ [f (not_run d)]" "Suc i"] Cons.prems(1) by simp
qed

text \<open>A finished scan of checks with different identifiers is complete.\<close>

lemma scan_outcomes:
  assumes "distinct (map (ck_ID \<circ> cd_meta) defs)"
  shows "let r = scan_run k inp defs (queued_job k i inp mode cats defs) in
    sn_Status r = ScanDone \<and> sn_Progress r = 1 \<and> sn_Completed r = length defs \<and> sn_FinishedAt r \<noteq> None \<and>
    map outcome (sn_Checks r) = map (outcome_of inp) defs \<and>
    sn_Findings r = sort_key (\<lambda>f. severityRank (fi_Severity f)) (concat (map (findings_of inp) defs))"
proof -
  define q where "q = job_log k LogInfo [] (''Scan started '' @ middle_dot @ '' '' @ Itoa (int (length defs)) @ '' checks '' @
    middle_dot @ '' '' @ Itoa (int (length (si_Targets inp))) @ '' target(s)'') ((queued_job k i inp mode cats defs)\<lparr>sn_Status := ScanRunning\<rparr>)"
  have q: "sn_Findings q = []" "sn_Checks q = map not_run defs" "sn_Completed q = 0"
    by (simp_all add: q_def queued_job_def job_log_def)
  show ?thesis
    using run_loop_outcomes [of "[]" defs q "[]" inp k "length defs" 0] assms(1) q
    unfolding scan_run_def q_def [symmetric] Let_def
    by (simp add: run_loop_findings run_loop_completed)
qed

definition no_error :: "scan_state \<Rightarrow> bool" where
  "no_error j \<longleftrightarrow> (\<forall>c\<in>set (sn_Checks j). ck_Status c \<noteq> StatusError)"

lemma run_check_no_error: "no_error j \<Longrightarrow> no_error (run_check k inp n i d j)"
proof -
  assume ok: "no_error j"
  obtain f where f: "\<And>c. ck_ID c = ck_ID (cd_meta d) \<Longrightarrow> outcome (f c) = outcome_of inp d"
    "sn_Checks (run_check k inp n i d j) = update_check (ck_ID (cd_meta d)) f (sn_Checks j)"
    using run_check_effect(3) by blast
  have "ck_Status (f c) \<noteq> StatusError" if "ck_ID c = ck_ID (cd_meta d)" for c
    using f(1) [OF that] by (auto simp: outcome_def outcome_of_def status_defs split: if_splits)
  then have "\<forall>c\<in>set cs. ck_Status c \<noteq> StatusError \<Longrightarrow>
      \<forall>c\<in>set (update_check (ck_ID (cd_meta d)) f cs). ck_Status c \<noteq> StatusError" for cs
    by (induction cs) auto
  with ok show ?thesis by (simp add: no_error_def f(2))
qed

text \<open>No check of a finished scan has the status "error", also when its run panicked: the status
  \<open>setCheckError\<close> gave it is overwritten by the \<open>finishCheck\<close> that follows, with "pass" when the
  panic came before the first finding.\<close>

theorem scan_never_reports_error:
  "StatusError \<notin> set (map ck_Status (sn_Checks (scan_run k inp defs (queued_job k i inp mode cats defs))))"
proof -
  have loop: "no_error j \<Longrightarrow> no_error (run_loop k inp n m ds j)" for n m ds j
    by (induction ds arbitrary: m j) (simp_all add: run_check_no_error)
  have "no_error (job_log k l c m ((queued_job k i inp mode cats defs)\<lparr>sn_Status := ScanRunning\<rparr>))" for l c m
    by (auto simp: no_error_def queued_job_def not_run_def status_defs)
  note start = loop [OF this]
  have "no_error (scan_run k inp defs (queued_job k i inp mode cats defs))"
    unfolding scan_run_def Let_def no_error_def job_log_simps using start [unfolded no_error_def] by simp
  then show ?thesis by (auto simp: no_error_def)
qed

subsection \<open>The first page: passive checks inline\<close>

lemma sync_loop_findings:
  "sn_Findings (sync_loop k inp n i ds j) =
     sn_Findings j @ concat (map (\<lambda>d. map (stamp (cd_meta d)) (emitted (fst (cd_run d inp)))) ds)"
proof (induction ds arbitrary: i j)
  case Nil
  then show ?case by simp
next
  case (Cons d ds)
  obtain cnt j1 where "runOne k d inp j = (cnt, j1)" by fastforce
  then show ?case using Cons runOne_effect(2) [of k d inp j cnt j1] by (simp add: sync_check_def)
qed

lemma severity_stamp [simp]: "fi_Severity (stamp m f) = fi_Severity f"
  by (simp add: stamp_def Let_def)

lemma hd_sort_key_le: "x \<in> set xs \<Longrightarrow> g (hd (sort_key g xs)) \<le> g x"
proof -
  assume x: "x \<in> set xs"
  have "sorted (map g (sort_key g xs))" by simp
  moreover have "x \<in> set (sort_key g xs)" using x by simp
  ultimately show ?thesis by (cases "sort_key g xs") auto
qed

lemma severityRank_0: "severityRank s = 0 \<longleftrightarrow> s = SeverityCritical"
  by (simp add: severityRank_def)

lemma leads_with_critical:
  "(xs \<noteq> [] \<and> fi_Severity (hd (sort_key (\<lambda>f. severityRank (fi_Severity f)) xs)) = SeverityCritical) \<longleftrightarrow>
   (\<exists>f\<in>set xs. fi_Severity f = SeverityCritical)"
proof
  assume l: "xs \<noteq> [] \<and> fi_Severity (hd (sort_key (\<lambda>f. severityRank (fi_Severity f)) xs)) = SeverityCritical"
  then have "sort_key (\<lambda>f. severityRank (fi_Severity f)) xs \<noteq> []" by (metis length_0_conv length_sort)
  then have "hd (sort_key (\<lambda>f. severityRank (fi_Severity f)) xs) \<in> set xs" by (metis hd_in_set set_sort)
  with l show "\<exists>f\<in>set xs. fi_Severity f = SeverityCritical" by blast
next
  assume "\<exists>f\<in>set xs. fi_Severity f = SeverityCritical"
  then obtain f where f: "f \<in> set xs" "severityRank (fi_Severity f) = 0" by (auto simp: severityRank_0)
  then show "xs \<noteq> [] \<and> fi_Severity (hd (sort_key (\<lambda>f. severityRank (fi_Severity f)) xs)) = SeverityCritical"
    using hd_sort_key_le [of f xs "\<lambda>f. severityRank (fi_Severity f)"] severityRank_0 by (metis empty_iff le_zero_eq list.set(1))
qed

lemma passive_kind: "d \<in> set passiveChecks \<Longrightarrow> ck_Kind (cd_meta d) = KindPassive"
  by (auto simp: passiveChecks_def passive_def_def)

lemma select_passive:
  assumes "list_all (\<lambda>d. ck_Kind (cd_meta d) = KindActive) active"
  shows "selectChecks active ModePassive [] = passiveChecks"
proof -
  have "filter (\<lambda>d. ck_Kind (cd_meta d) = KindPassive) active = []"
    using assms by (auto simp: filter_empty_conv list_all_iff KindPassive_def KindActive_def)
  moreover have "filter (\<lambda>d. ck_Kind (cd_meta d) = KindPassive) passiveChecks = passiveChecks"
    by (rule filter_True) (simp add: passive_kind)
  moreover have "ModePassive \<noteq> ModeActive" by (simp add: ModePassive_def ModeActive_def)
  ultimately show ?thesis by (simp add: selectChecks_def registry_def)
qed

subsection \<open>The job table\<close>

lemma prune_jobs_frame:
  "mg_latest (prune_jobs n m) = mg_latest m" "mg_order (prune_jobs n m) = drop n (mg_order m)"
  by (induction n arbitrary: m) (simp_all add: Let_def drop_Suc)

lemma prune_jobs_cases: "mg_jobs (prune_jobs n m) i = None \<or> mg_jobs (prune_jobs n m) i = mg_jobs m i"
proof (induction n arbitrary: m)
  case (Suc n)
  let ?m = "let m1 = m\<lparr>mg_order := tl (mg_order m)\<rparr> in
    if hd (mg_order m) \<in> ran (mg_latest m) then m1 else m1\<lparr>mg_jobs := (mg_jobs m1)(hd (mg_order m) := None)\<rparr>"
  have "mg_jobs ?m i = None \<or> mg_jobs ?m i = mg_jobs m i" by (simp add: Let_def)
  then show ?case using Suc.IH [of ?m] by (auto simp: Let_def)
qed simp

lemma prune_jobs_latest: "i \<in> ran (mg_latest m) \<Longrightarrow> mg_jobs (prune_jobs n m) i = mg_jobs m i"
  by (induction n arbitrary: m) (auto simp: Let_def)

lemma prune_jobs_unordered:
  "n \<le> length (mg_order m) \<Longrightarrow> i \<notin> set (mg_order m) \<Longrightarrow> mg_jobs (prune_jobs n m) i = mg_jobs m i"
proof (induction n arbitrary: m)
  case (Suc n)
  then obtain x xs where "mg_order m = x # xs" by (cases "mg_order m") auto
  with Suc show ?case by (auto simp: Let_def)
qed simp

text \<open>The manager as a state machine: scans start, run inline, or finish in the background, in any
  order; new identifiers are fresh.\<close>

datatype mg_op =
    StartOp scan_clock bytes scan_input string "string list"
  | SyncOp scan_clock bytes scan_input
  | CompleteOp scan_clock scan_input string

fun mg_step :: "check_def list \<Rightarrow> mg_op \<Rightarrow> manager \<Rightarrow> manager" where
  "mg_step active (StartOp k rnd inp mode cats) m = snd (StartScan active k rnd inp mode cats m)"
| "mg_step active (SyncOp k rnd inp) m = snd (RunPassiveSync active k rnd inp m)"
| "mg_step active (CompleteOp k inp i) m = complete active k inp i m"

fun mg_ok :: "mg_op \<Rightarrow> manager \<Rightarrow> bool" where
  "mg_ok (StartOp k rnd inp mode cats) m \<longleftrightarrow> mg_jobs m (newScanID rnd) = None"
| "mg_ok (SyncOp k rnd inp) m \<longleftrightarrow> mg_jobs m (newScanID rnd) = None"
| "mg_ok (CompleteOp k inp i) m \<longleftrightarrow> True"

definition mg_inv :: "manager \<Rightarrow> bool" where
  "mg_inv m \<longleftrightarrow> length (mg_order m) \<le> maxJobs \<and> (\<forall>i j. mg_jobs m i = Some j \<longrightarrow> sn_ID j = i) \<and>
     (\<forall>s i. mg_latest m s = Some i \<longrightarrow> (\<exists>j. mg_jobs m i = Some j \<and> sn_ServerID j = s))"

lemma add_job_inv:
  assumes "mg_inv m" and "mg_jobs m i = None" and "sn_ID j = i" and "sn_ServerID j = srv"
  shows "mg_inv (add_job i srv j m)"
proof -
  define m1 where "m1 = m\<lparr>mg_jobs := (mg_jobs m)(i \<mapsto> j), mg_latest := (mg_latest m)(srv \<mapsto> i), mg_order := mg_order m @ [i]\<rparr>"
  have a: "add_job i srv j m = prune_jobs (length (mg_order m1) - maxJobs) m1" by (simp add: add_job_def prune_def m1_def)
  have l: "\<exists>j'. mg_jobs m1 i' = Some j' \<and> sn_ServerID j' = s" if "mg_latest m1 s = Some i'" for s i'
    using that assms by (fastforce simp: m1_def mg_inv_def split: if_splits)
  have n: "sn_ID j' = i'" if "mg_jobs m1 i' = Some j'" for i' j'
    using that assms by (auto simp: m1_def mg_inv_def split: if_splits)
  show ?thesis unfolding a mg_inv_def prune_jobs_frame
  proof (intro conjI allI impI)
    show "length (drop (length (mg_order m1) - maxJobs) (mg_order m1)) \<le> maxJobs" by simp
    fix i' j' assume "mg_jobs (prune_jobs (length (mg_order m1) - maxJobs) m1) i' = Some j'"
    then show "sn_ID j' = i'" using n [of i' j'] prune_jobs_cases [of _ m1 i'] by (metis option.distinct(1))
  next
    fix s i' assume s: "mg_latest m1 s = Some i'"
    then have "i' \<in> ran (mg_latest m1)" by (rule ranI)
    with l [OF s] show "\<exists>j. mg_jobs (prune_jobs (length (mg_order m1) - maxJobs) m1) i' = Some j \<and> sn_ServerID j = s"
      by (simp add: prune_jobs_latest)
  qed
qed

lemma run_loop_ids:
  "sn_ID (run_loop k inp n i ds j) = sn_ID j" "sn_ServerID (run_loop k inp n i ds j) = sn_ServerID j"
  by (induction ds arbitrary: i j) (simp_all add: run_check_effect)

lemma scan_run_ids: "sn_ID (scan_run k inp ds j) = sn_ID j" "sn_ServerID (scan_run k inp ds j) = sn_ServerID j"
  by (simp_all add: scan_run_def Let_def run_loop_ids)

lemma sync_loop_ids:
  "sn_ID (sync_loop k inp n i ds j) = sn_ID j \<and> sn_ServerID (sync_loop k inp n i ds j) = sn_ServerID j"
proof (induction ds arbitrary: i j)
  case (Cons d ds)
  obtain cnt j1 where "runOne k d inp j = (cnt, j1)" by fastforce
  then show ?case using Cons runOne_effect(4,5) [of k d inp j cnt j1] by (simp add: sync_check_def)
qed simp

lemma mg_inv_step: "mg_inv m \<Longrightarrow> mg_ok a m \<Longrightarrow> mg_inv (mg_step active a m)"
proof (cases a)
  case (StartOp k rnd inp mode cats)
  assume "mg_inv m" "mg_ok a m"
  then show ?thesis by (simp add: StartOp StartScan_def Let_def add_job_inv queued_job_def)
next
  case (SyncOp k rnd inp)
  assume "mg_inv m" "mg_ok a m"
  then show ?thesis by (simp add: SyncOp RunPassiveSync_def Let_def add_job_inv sync_loop_ids queued_job_def)
next
  case (CompleteOp k inp i)
  assume "mg_inv m"
  then show ?thesis
    by (fastforce simp: CompleteOp complete_def mg_inv_def scan_run_ids split: option.splits)
qed

interpretation scans: invariant_of "mg_step active" mg_ok NewManager mg_inv for active
  by unfold_locales (auto simp: mg_inv_step, simp add: mg_inv_def NewManager_def)

lemma add_job_stored:
  "mg_jobs (add_job i srv j m) i = Some j" "mg_latest (add_job i srv j m) srv = Some i"
proof -
  have "i \<in> ran (mg_latest (m\<lparr>mg_jobs := (mg_jobs m)(i \<mapsto> j), mg_latest := (mg_latest m)(srv \<mapsto> i), mg_order := mg_order m @ [i]\<rparr>))"
    by (auto simp: ran_def)
  then show "mg_jobs (add_job i srv j m) i = Some j" "mg_latest (add_job i srv j m) srv = Some i"
    by (simp_all add: add_job_def prune_def prune_jobs_frame prune_jobs_latest)
qed

lemma RunPassiveSync_stored:
  assumes "RunPassiveSync active k rnd inp m = (st, m')"
  shows "mg_jobs m' (newScanID rnd) = Some st" and "Latest (si_ServerID inp) m' = Some st" and "sn_ServerID st = si_ServerID inp"
  using assms by (auto simp: RunPassiveSync_def Let_def Latest_def add_job_stored sync_loop_ids queued_job_def)

text \<open>The scan that fills the security page on first load is finished when it is returned, is
  stored as the server's latest, and leads with a critical finding exactly when some resource of the
  host is in a dangerous state (a public database or Docker port, a privileged container, blank
  passwords).\<close>

theorem RunPassiveSync_leads_with_critical:
  assumes "list_all (\<lambda>d. ck_Kind (cd_meta d) = KindActive) active"
  shows "let (st, m') = RunPassiveSync active k rnd inp m in
    sn_Status st = ScanDone \<and> Latest (si_ServerID inp) m' = Some st \<and>
    (sn_Findings st \<noteq> [] \<and> fi_Severity (hd (sn_Findings st)) = SeverityCritical \<longleftrightarrow> list_ex dangerous (si_Resources inp))"
proof -
  let ?fs = "concat (map (\<lambda>d. map (stamp (cd_meta d)) (emitted (fst (cd_run d inp)))) passiveChecks)"
  have "(\<exists>f\<in>set ?fs. fi_Severity f = SeverityCritical) \<longleftrightarrow> list_ex dangerous (si_Resources inp)"
    unfolding passive_critical [symmetric] unfolding list_ex_iff has_critical_def by auto
  moreover have "sort_key g xs \<noteq> [] \<longleftrightarrow> xs \<noteq> []" for g :: "finding \<Rightarrow> nat" and xs by (metis length_0_conv length_sort)
  ultimately show ?thesis
    using leads_with_critical [of ?fs] RunPassiveSync_stored(2) [of active k rnd inp m]
    by (simp add: RunPassiveSync_def select_passive [OF assms] Let_def sync_loop_findings queued_job_def)
qed

text \<open>In every state the scan manager can reach, whatever scan the security handlers return
  belongs to a server of the caller's organisation, the one named in the path; a server of another
  organisation is answered with 404.\<close>

theorem security_views_scoped:
  assumes "reachable (mg_step active) mg_ok NewManager m"
  shows "(handleSecurityScanGet p r s m = Inr st \<longrightarrow>
      (\<exists>srv. GetServer (p_OrgID p) (rq_PathValue r ''id'') (ss_store s) = Inr srv \<and> sn_ServerID st = srv_ServerID srv)) \<and>
    (fst (handleSecurity e p r s m) = Inr a \<longrightarrow>
      (\<exists>srv. GetServer (p_OrgID p) (rq_PathValue r ''id'') (ss_store s) = Inr srv \<and> sn_ServerID (sa_Latest a) = srv_ServerID srv)) \<and>
    (\<forall>err. GetServer (p_OrgID p) (rq_PathValue r ''id'') (ss_store s) = Inl err \<longrightarrow>
      handleSecurityScanGet p r s m = Inl (Fail 404 CodeNotFound ''server not found'') \<and>
      handleSecurity e p r s m = (Inl (Fail 404 CodeNotFound ''server not found''), m))"
proof (intro conjI)
  have inv: "mg_inv m" using scans.inv_reachable [OF assms] .
  show "handleSecurityScanGet p r s m = Inr st \<longrightarrow>
      (\<exists>srv. GetServer (p_OrgID p) (rq_PathValue r ''id'') (ss_store s) = Inr srv \<and> sn_ServerID st = srv_ServerID srv)"
    by (auto simp: handleSecurityScanGet_def split: sum.splits option.splits if_splits)
  have latest: "sn_ServerID st = x" if "Latest x m = Some st" for x st
    using that inv by (fastforce simp: Latest_def mg_inv_def split: option.splits)
  show "fst (handleSecurity e p r s m) = Inr a \<longrightarrow>
      (\<exists>srv. GetServer (p_OrgID p) (rq_PathValue r ''id'') (ss_store s) = Inr srv \<and> sn_ServerID (sa_Latest a) = srv_ServerID srv)"
    using latest RunPassiveSync_stored(3)
    by (auto simp: handleSecurity_def buildScanInput_def Let_def split: sum.splits option.splits prod.splits)
qed (simp add: handleSecurityScanGet_def handleSecurity_def)

subsection \<open>Jobs that are never pruned\<close>

lemma add_job_unordered:
  assumes "x \<notin> set (mg_order m)" and "x \<noteq> i"
  shows "mg_jobs (add_job i srv j m) x = mg_jobs m x" and "x \<notin> set (mg_order (add_job i srv j m))"
proof -
  show "mg_jobs (add_job i srv j m) x = mg_jobs m x"
    unfolding add_job_def prune_def by (subst prune_jobs_unordered) (use assms in auto)
  show "x \<notin> set (mg_order (add_job i srv j m))"
    using assms by (auto simp: add_job_def prune_def prune_jobs_frame dest: in_set_dropD)
qed

text \<open>Once an identifier has left the pruning order while it was still some server's latest, no later
  operation removes its job, also after a newer scan of that server has replaced it.\<close>

theorem unordered_job_kept:
  assumes "mg_jobs m x \<noteq> None" and "x \<notin> set (mg_order m)" and "run_ok mg_ok (mg_step active) as m"
  shows "mg_jobs (run (mg_step active) as m) x \<noteq> None"
  using assms
proof (induction as arbitrary: m)
  case Nil
  then show ?case by simp
next
  case (Cons a as)
  have "mg_jobs (mg_step active a m) x \<noteq> None \<and> x \<notin> set (mg_order (mg_step active a m))"
  proof (cases a)
    case (StartOp k rnd inp mode cats)
    then have "x \<noteq> newScanID rnd" using Cons.prems by auto
    then show ?thesis using Cons.prems(1,2) by (simp add: StartOp StartScan_def Let_def add_job_unordered)
  next
    case (SyncOp k rnd inp)
    then have "x \<noteq> newScanID rnd" using Cons.prems by auto
    then show ?thesis using Cons.prems(1,2) by (simp add: SyncOp RunPassiveSync_def Let_def add_job_unordered)
  next
    case (CompleteOp k inp i)
    then show ?thesis using Cons.prems(1,2) by (auto simp: complete_def split: option.splits)
  qed
  then show ?case using Cons by simp
qed

subsection \<open>A concrete host\<close>

definition demo_clock :: scan_clock where
  "demo_clock = \<lparr>sk_log = int, sk_dur = (\<lambda>_. 1), sk_start = 0, sk_finish = 100\<rparr>"

definition demo_scan_input :: scan_input where
  "demo_scan_input = \<lparr>si_ServerID = ''s1'', si_Hostname = ''h'',
     si_Resources = [\<lparr>sr_Type = ''docker_container'', sr_Name = ''web'', sr_Status = ''exited'', sr_Health = [],
       sr_Attributes = [''privileged'' \<mapsto> JvBool True], sr_Ports = []\<rparr>], si_Targets = []\<rparr>"

lemma passive_ids_distinct: "distinct (map (ck_ID \<circ> cd_meta) passiveChecks)"
proof -
  have "map (ck_ID \<circ> cd_meta) passiveChecks =
    [''localhost-isolation'', ''docker-exposure'', ''port-exposure'', ''tls-validity'', ''base-image'', ''resource-boundaries'',
     ''ssh-hardening'', ''cipher-suite'', ''shared-ssh-keys'', ''privileged-flag'', ''blank-passwords'', ''default-credentials'',
     ''nginx-headers'', ''server-tokens'', ''rate-limiting-cfg'']"
    by (simp add: passiveChecks_def passive_def_def)
  then show ?thesis by simp
qed

theorem RunPassiveSync_leads_with_critical_witness:
  "fi_Severity (hd (sn_Findings (fst (RunPassiveSync [] demo_clock [7] demo_scan_input NewManager)))) = SeverityCritical"
proof -
  have "list_ex dangerous (si_Resources demo_scan_input)" by (simp add: demo_scan_input_def dangerous_def attrBool_def)
  then show ?thesis
    using RunPassiveSync_leads_with_critical [of "[]" demo_clock "[7]" demo_scan_input NewManager]
    by (auto simp: Let_def split: prod.splits)
qed

definition demo_sec_state :: server_state where
  "demo_sec_state = New (NewMemory\<lparr>m_servers := [''x'' \<mapsto> \<lparr>srv_ID = ''x'', srv_OrgID = ''o'', srv_ServerID = ''s1'', srv_Hostname = [],
     srv_Mode = [], srv_Status = [], srv_LastSeenAt = 0, srv_CreatedAt = 0\<rparr>]\<rparr>)"

definition demo_viewer :: "string \<Rightarrow> principal" where
  "demo_viewer org = \<lparr>p_UserID = ''u'', p_OrgID = org, p_Email = [], p_Role = RoleViewer, p_HasPassword = True\<rparr>"

definition demo_scan_request :: http_request where
  "demo_scan_request = demo_request\<lparr>rq_PathValue := (\<lambda>k. if k = ''id'' then ''x'' else newScanID [7])\<rparr>"

theorem security_views_scoped_witness:
  "\<exists>st. handleSecurityScanGet (demo_viewer ''o'') demo_scan_request demo_sec_state
       (mg_step [] (SyncOp demo_clock [7] demo_scan_input) NewManager) = Inr st \<and> sn_ServerID st = ''s1'' \<and>
     handleSecurityScanGet (demo_viewer ''other'') demo_scan_request demo_sec_state
       (mg_step [] (SyncOp demo_clock [7] demo_scan_input) NewManager) = Inl (Fail 404 CodeNotFound ''server not found'')"
proof -
  let ?m = "mg_step [] (SyncOp demo_clock [7] demo_scan_input) NewManager"
  have r: "reachable (mg_step []) mg_ok NewManager ?m"
    by (rule reachable_step [OF reachable_init]) (simp add: NewManager_def)
  obtain st m' where sync: "RunPassiveSync [] demo_clock [7] demo_scan_input NewManager = (st, m')" by fastforce
  have g: "handleSecurityScanGet (demo_viewer ''o'') demo_scan_request demo_sec_state ?m = Inr st"
    using RunPassiveSync_stored [OF sync] sync
    by (simp add: handleSecurityScanGet_def demo_viewer_def demo_scan_request_def demo_sec_state_def New_def GetServer_def mg_Get_def
        demo_scan_input_def)
  have f: "GetServer ''other'' ''x'' (ss_store demo_sec_state) = Inl ErrNotFound"
    by (simp add: demo_sec_state_def New_def GetServer_def)
  show ?thesis
    using g f security_views_scoped [OF r, of "demo_viewer ''o''" demo_scan_request demo_sec_state st]
      security_views_scoped [OF r, of "demo_viewer ''other''" demo_scan_request demo_sec_state]
    by (auto simp: demo_viewer_def demo_scan_request_def demo_sec_state_def New_def GetServer_def)
qed

end
