(* ===== verification/Pulse_Buffer.thy ===== *)
theory Pulse_Buffer
  imports Pulse_Prelude "HOL-Library.Multiset" "HOL-Library.Sublist"
begin

section \<open>The agent's bounded send buffer\<close>

text \<open>
  \<^verbatim>\<open>agent/internal/cache/cache.go\<close>: what the agent could not send, oldest first, at most \<open>cap\<close>
  items; a full buffer gives up its oldest item of the lowest priority.
\<close>

definition PriorityHistorical :: int where "PriorityHistorical = 0"
definition PriorityHealth :: int where "PriorityHealth = 1"
definition PriorityCritical :: int where "PriorityCritical = 2"

record item =
  it_Priority :: int
  it_Payload :: bytes

record ring_buffer =
  rb_items :: "item list"
  rb_cap :: nat

definition NewBuffer :: "int \<Rightarrow> ring_buffer" where
  "NewBuffer capacity = \<lparr>rb_items = [], rb_cap = (if capacity < 1 then 1 else nat capacity)\<rparr>"

text \<open>The loop over the items: the lowest priority so far and the index where it was first seen.\<close>

fun lowest_scan :: "nat \<Rightarrow> item list \<Rightarrow> int \<Rightarrow> nat option \<Rightarrow> int \<times> nat option" where
  "lowest_scan i [] lowest evict = (lowest, evict)"
| "lowest_scan i (x # xs) lowest evict =
     (if it_Priority x < lowest then lowest_scan (Suc i) xs (it_Priority x) (Some i)
      else lowest_scan (Suc i) xs lowest evict)"

definition Push :: "item \<Rightarrow> ring_buffer \<Rightarrow> ring_buffer" where
  "Push it r =
     (if length (rb_items r) < rb_cap r then r\<lparr>rb_items := rb_items r @ [it]\<rparr>
      else case snd (lowest_scan 0 (rb_items r) (PriorityCritical + 1) None) of
          None \<Rightarrow> r
        | Some e \<Rightarrow>
            if it_Priority (rb_items r ! e) \<le> it_Priority it
            then r\<lparr>rb_items := take e (rb_items r) @ drop (Suc e) (rb_items r) @ [it]\<rparr>
            else r)"

definition Drain :: "ring_buffer \<Rightarrow> item list \<times> ring_buffer" where
  "Drain r = (rb_items r, r\<lparr>rb_items := []\<rparr>)"

definition buffer_Len :: "ring_buffer \<Rightarrow> nat" where
  "buffer_Len r = length (rb_items r)"

subsection \<open>The eviction loop\<close>

lemma lowest_scan_acc:
  "lowest_scan i xs l e = (l, e) \<and> (\<forall>x\<in>set xs. l \<le> it_Priority x) \<or>
   (\<exists>ys x zs. xs = ys @ x # zs \<and> lowest_scan i xs l e = (it_Priority x, Some (i + length ys)) \<and> it_Priority x < l \<and>
      (\<forall>y\<in>set ys. it_Priority x < it_Priority y) \<and> (\<forall>z\<in>set zs. it_Priority x \<le> it_Priority z))"
proof (induction xs arbitrary: i l e)
  case Nil
  then show ?case by simp
next
  case (Cons a xs)
  show ?case
  proof (cases "it_Priority a < l")
    case True
    from Cons [of "Suc i" "it_Priority a" "Some i"] show ?thesis
    proof
      assume "lowest_scan (Suc i) xs (it_Priority a) (Some i) = (it_Priority a, Some i) \<and> (\<forall>x\<in>set xs. it_Priority a \<le> it_Priority x)"
      then show ?thesis using True by (intro disjI2 exI [of _ "[]"] exI [of _ a] exI [of _ xs]) simp
    next
      assume "\<exists>ys x zs. xs = ys @ x # zs \<and> lowest_scan (Suc i) xs (it_Priority a) (Some i) = (it_Priority x, Some (Suc i + length ys)) \<and>
        it_Priority x < it_Priority a \<and> (\<forall>y\<in>set ys. it_Priority x < it_Priority y) \<and> (\<forall>z\<in>set zs. it_Priority x \<le> it_Priority z)"
      then obtain ys x zs where "xs = ys @ x # zs" "lowest_scan (Suc i) xs (it_Priority a) (Some i) = (it_Priority x, Some (Suc i + length ys))"
        "it_Priority x < it_Priority a" "\<forall>y\<in>set ys. it_Priority x < it_Priority y" "\<forall>z\<in>set zs. it_Priority x \<le> it_Priority z" by blast
      then show ?thesis using True by (intro disjI2 exI [of _ "a # ys"] exI [of _ x] exI [of _ zs]) simp
    qed
  next
    case False
    from Cons [of "Suc i" l e] show ?thesis
    proof
      assume "lowest_scan (Suc i) xs l e = (l, e) \<and> (\<forall>x\<in>set xs. l \<le> it_Priority x)"
      then show ?thesis using False by simp
    next
      assume "\<exists>ys x zs. xs = ys @ x # zs \<and> lowest_scan (Suc i) xs l e = (it_Priority x, Some (Suc i + length ys)) \<and>
        it_Priority x < l \<and> (\<forall>y\<in>set ys. it_Priority x < it_Priority y) \<and> (\<forall>z\<in>set zs. it_Priority x \<le> it_Priority z)"
      then obtain ys x zs where "xs = ys @ x # zs" "lowest_scan (Suc i) xs l e = (it_Priority x, Some (Suc i + length ys))"
        "it_Priority x < l" "\<forall>y\<in>set ys. it_Priority x < it_Priority y" "\<forall>z\<in>set zs. it_Priority x \<le> it_Priority z" by blast
      then show ?thesis using False by (intro disjI2 exI [of _ "a # ys"] exI [of _ x] exI [of _ zs]) auto
    qed
  qed
qed

text \<open>The three outcomes of a push: room; the oldest item of the lowest priority gives way; the new
  item is less important than all and is dropped.\<close>

lemma Push_cases:
  assumes "\<forall>x\<in>set (rb_items r). it_Priority x \<le> PriorityCritical" and "0 < rb_cap r"
  obtains (room) "length (rb_items r) < rb_cap r" "Push it r = r\<lparr>rb_items := rb_items r @ [it]\<rparr>"
  | (evict) ys x zs where "rb_cap r \<le> length (rb_items r)" "rb_items r = ys @ x # zs"
      "\<forall>y\<in>set ys. it_Priority x < it_Priority y" "\<forall>z\<in>set zs. it_Priority x \<le> it_Priority z" "it_Priority x \<le> it_Priority it"
      "Push it r = r\<lparr>rb_items := ys @ zs @ [it]\<rparr>"
  | (refuse) "rb_cap r \<le> length (rb_items r)" "\<forall>y\<in>set (rb_items r). it_Priority it < it_Priority y" "Push it r = r"
proof (cases "length (rb_items r) < rb_cap r")
  case True
  then show ?thesis using room by (simp add: Push_def)
next
  case False
  then obtain b bs where "rb_items r = b # bs" using assms(2) by (cases "rb_items r") auto
  then have "\<not> (\<forall>x\<in>set (rb_items r). PriorityCritical + 1 \<le> it_Priority x)" using assms(1) by auto
  then obtain ys x zs where s: "rb_items r = ys @ x # zs"
    "lowest_scan 0 (rb_items r) (PriorityCritical + 1) None = (it_Priority x, Some (length ys))"
    "\<forall>y\<in>set ys. it_Priority x < it_Priority y" "\<forall>z\<in>set zs. it_Priority x \<le> it_Priority z"
    using lowest_scan_acc [of 0 "rb_items r" "PriorityCritical + 1" None] by auto
  show ?thesis
  proof (cases "it_Priority x \<le> it_Priority it")
    case True
    then show ?thesis using evict [OF _ s(1,3,4)] False s by (simp add: Push_def)
  next
    case lower: False
    have "\<forall>y\<in>set (rb_items r). it_Priority it < it_Priority y" using s lower by fastforce
    then show ?thesis using refuse False s lower by (simp add: Push_def)
  qed
qed

subsection \<open>What the buffer keeps\<close>

text \<open>The specification: of the items pushed, as many as fit are kept, in their order; none that was
  dropped is more important than one kept; of each priority the newest are kept.\<close>

definition kept_best :: "nat \<Rightarrow> item list \<Rightarrow> item list \<Rightarrow> bool" where
  "kept_best n pushed kept \<longleftrightarrow>
     length kept = min n (length pushed) \<and> subseq kept pushed \<and>
     (\<exists>D. mset pushed = mset kept + D \<and> (\<forall>d\<in>#D. \<forall>b\<in>set kept. it_Priority d \<le> it_Priority b)) \<and>
     (\<forall>p. suffix (filter (\<lambda>x. it_Priority x = p) kept) (filter (\<lambda>x. it_Priority x = p) pushed))"

lemma kept_best_room:
  assumes "kept_best n xs kept" and "length kept < n"
  shows "kept_best n (xs @ [x]) (kept @ [x])"
proof -
  have "length kept = length xs" using assms by (auto simp: kept_best_def)
  moreover have "subseq kept xs" using assms by (simp add: kept_best_def)
  ultimately have "kept = xs" using subseq_same_length by blast
  then show ?thesis using assms(2) by (auto simp: kept_best_def)
qed

lemma kept_best_evict:
  assumes k: "kept_best n xs (ys @ y # zs)" and full: "n \<le> length (ys @ y # zs)"
    and lows: "\<forall>a\<in>set ys. it_Priority y < it_Priority a" "\<forall>a\<in>set zs. it_Priority y \<le> it_Priority a" "it_Priority y \<le> it_Priority x"
  shows "kept_best n (xs @ [x]) (ys @ zs @ [x])"
proof -
  have len: "length (ys @ y # zs) = n" "n \<le> length xs" using k full by (auto simp: kept_best_def)
  have sub: "subseq (ys @ zs @ [x]) (xs @ [x])"
  proof -
    have "subseq (ys @ zs) (ys @ y # zs)" by (induction ys) auto
    then have "subseq (ys @ zs) xs" using k subseq_order.trans unfolding kept_best_def by blast
    then show ?thesis by (metis append.assoc list_emb_append_mono subseq_order.order_refl)
  qed
  obtain D where D: "mset xs = mset (ys @ y # zs) + D" "\<forall>d\<in>#D. \<forall>b\<in>set (ys @ y # zs). it_Priority d \<le> it_Priority b"
    using k by (auto simp: kept_best_def)
  have "it_Priority d \<le> it_Priority b" if "d \<in># add_mset y D" "b \<in> set (ys @ zs @ [x])" for d b
  proof -
    have "it_Priority d \<le> it_Priority y" using that(1) D(2) by auto
    also have "it_Priority y \<le> it_Priority b" using that(2) lows by fastforce
    finally show ?thesis .
  qed
  moreover have "mset (xs @ [x]) = mset (ys @ zs @ [x]) + add_mset y D" using D(1) by simp
  ultimately have dropped: "\<exists>D. mset (xs @ [x]) = mset (ys @ zs @ [x]) + D \<and>
      (\<forall>d\<in>#D. \<forall>b\<in>set (ys @ zs @ [x]). it_Priority d \<le> it_Priority b)" by blast
  have "suffix (filter (\<lambda>a. it_Priority a = p) (ys @ zs @ [x])) (filter (\<lambda>a. it_Priority a = p) (xs @ [x]))" for p
  proof -
    have "suffix (filter (\<lambda>a. it_Priority a = p) (ys @ y # zs)) (filter (\<lambda>a. it_Priority a = p) xs)"
      using k by (simp add: kept_best_def)
    moreover have "suffix (filter (\<lambda>a. it_Priority a = p) (ys @ zs)) (filter (\<lambda>a. it_Priority a = p) (ys @ y # zs))"
    proof (cases "it_Priority y = p")
      case True
      then have "filter (\<lambda>a. it_Priority a = p) ys = []" using lows(1) by (auto simp: filter_empty_conv)
      then show ?thesis by (simp add: suffix_ConsI)
    qed simp
    ultimately have "suffix (filter (\<lambda>a. it_Priority a = p) (ys @ zs)) (filter (\<lambda>a. it_Priority a = p) xs)"
      using suffix_order.trans by blast
    then show ?thesis by (auto simp: suffix_def)
  qed
  with len sub dropped show ?thesis by (simp add: kept_best_def)
qed

lemma kept_best_refuse:
  assumes k: "kept_best n xs kept" and full: "n \<le> length kept" and low: "\<forall>b\<in>set kept. it_Priority x < it_Priority b"
  shows "kept_best n (xs @ [x]) kept"
proof -
  obtain D where D: "mset xs = mset kept + D" "\<forall>d\<in>#D. \<forall>b\<in>set kept. it_Priority d \<le> it_Priority b"
    using k by (auto simp: kept_best_def)
  have "mset (xs @ [x]) = mset kept + add_mset x D \<and> (\<forall>d\<in>#add_mset x D. \<forall>b\<in>set kept. it_Priority d \<le> it_Priority b)"
    using D low by auto
  moreover have "suffix (filter (\<lambda>a. it_Priority a = p) kept) (filter (\<lambda>a. it_Priority a = p) (xs @ [x]))" for p
  proof (cases "it_Priority x = p")
    case True
    then have "filter (\<lambda>a. it_Priority a = p) kept = []" using low by (auto simp: filter_empty_conv)
    then show ?thesis by simp
  next
    case False
    then show ?thesis using k by (simp add: kept_best_def)
  qed
  ultimately show ?thesis using k full unfolding kept_best_def by (auto intro: subseq_order.trans)
qed

lemma Push_cap [simp]: "rb_cap (Push it r) = rb_cap r"
  by (auto simp: Push_def split: option.splits)

lemma fold_Push_cap [simp]: "rb_cap (fold Push xs r) = rb_cap r"
  by (induction xs arbitrary: r) simp_all

lemma kept_best_Push:
  assumes "kept_best (rb_cap r) xs (rb_items r)" and "\<forall>x\<in>set xs. it_Priority x \<le> PriorityCritical" and "0 < rb_cap r"
  shows "kept_best (rb_cap r) (xs @ [x]) (rb_items (Push x r))"
proof -
  obtain D where "mset xs = mset (rb_items r) + D" using assms(1) by (auto simp: kept_best_def)
  then have "set (rb_items r) \<subseteq> set xs" by (metis mset_subset_eq_add_left set_mset_mono set_mset_mset)
  with assms(2) have low: "\<forall>x\<in>set (rb_items r). it_Priority x \<le> PriorityCritical" by blast
  from low assms(3) show ?thesis
  proof (cases rule: Push_cases [of r x])
    case room
    then show ?thesis using kept_best_room [OF assms(1)] by simp
  next
    case (evict ys y zs)
    then show ?thesis using kept_best_evict [of "rb_cap r" xs ys y zs x] assms(1) by simp
  next
    case refuse
    then show ?thesis using kept_best_refuse [OF assms(1)] by simp
  qed
qed

lemma kept_best_fold:
  assumes "\<forall>x\<in>set xs. it_Priority x \<le> PriorityCritical"
  shows "kept_best (nat (max 1 capacity)) xs (rb_items (fold Push xs (NewBuffer capacity)))"
proof -
  have c: "rb_cap (NewBuffer capacity) = nat (max 1 capacity)" by (simp add: NewBuffer_def max_def)
  have "kept_best (rb_cap (NewBuffer capacity)) xs (rb_items (fold Push xs (NewBuffer capacity)))"
    using assms
  proof (induction xs rule: rev_induct)
    case Nil
    then show ?case by (simp add: kept_best_def NewBuffer_def)
  next
    case (snoc x xs)
    have "0 < rb_cap (fold Push xs (NewBuffer capacity))" by (simp add: c)
    with snoc kept_best_Push [of "fold Push xs (NewBuffer capacity)" xs x] show ?case by simp
  qed
  then show ?thesis unfolding c .
qed

text \<open>Items of one priority: the buffer is a queue that forgets its oldest.\<close>

lemma kept_best_same:
  assumes "kept_best n xs kept" and "\<forall>x\<in>set xs. it_Priority x = p"
  shows "kept = drop (length xs - n) xs"
proof -
  have sub: "subseq kept xs" and len: "length kept = min n (length xs)" using assms by (simp_all add: kept_best_def)
  obtain D where "mset xs = mset kept + D" using assms by (auto simp: kept_best_def)
  then have "set kept \<subseteq> set xs" by (metis mset_subset_eq_add_left set_mset_mono set_mset_mset)
  then have "filter (\<lambda>x. it_Priority x = p) kept = kept" "filter (\<lambda>x. it_Priority x = p) xs = xs"
    using assms(2) by (auto simp: filter_id_conv)
  then have "suffix kept xs" using assms(1) unfolding kept_best_def by metis
  then obtain ys where "xs = ys @ kept" by (auto simp: suffix_def)
  then show ?thesis using len by (auto simp: min_def split: if_splits)
qed

text \<open>C28: after any sequence of pushes the buffer holds as many of the items as its capacity allows, in
  the order they came, has dropped none that is more important than one it keeps, and of each
  priority has dropped the oldest.\<close>

theorem buffer_keeps_best:
  assumes "\<forall>x\<in>set xs. it_Priority x \<le> PriorityCritical"
  shows "kept_best (nat (max 1 capacity)) xs (rb_items (fold Push xs (NewBuffer capacity)))"
  using assms by (rule kept_best_fold)

theorem buffer_keeps_best_witness:
  "kept_best 2 [\<lparr>it_Priority = 0, it_Payload = [1]\<rparr>, \<lparr>it_Priority = 2, it_Payload = [2]\<rparr>, \<lparr>it_Priority = 0, it_Payload = [3]\<rparr>]
     (rb_items (fold Push [\<lparr>it_Priority = 0, it_Payload = [1]\<rparr>, \<lparr>it_Priority = 2, it_Payload = [2]\<rparr>, \<lparr>it_Priority = 0, it_Payload = [3]\<rparr>]
        (NewBuffer 2)))"
  using buffer_keeps_best [of "[\<lparr>it_Priority = 0, it_Payload = [1]\<rparr>, \<lparr>it_Priority = 2, it_Payload = [2]\<rparr>, \<lparr>it_Priority = 0, it_Payload = [3]\<rparr>]" 2]
  by (simp add: PriorityCritical_def)

end
