(* ===== verification/Go_Json_Print.thy ===== *)
theory Go_Json_Print
  imports Go_Json
begin

section \<open>Writing JSON text (\<open>json.Marshal\<close>)\<close>

text \<open>
  What the agent uses of \<open>json.Marshal\<close>: strings with the escapes of \<open>encoding/json\<close>, and
  values without white space. \<open>json_text\<close> says that a text is read back as a value wherever it
  stands in a document; the printed form of every well-formed value has it.
\<close>

subsection \<open>Strings\<close>

definition hex_escape :: "nat \<Rightarrow> string" where
  "hex_escape u = [backslash, CHR ''u'', hex_char (u div 4096 mod 16), hex_char (u div 256 mod 16),
     hex_char (u div 16 mod 16), hex_char (u mod 16)]"

definition json_escape_char :: "char \<Rightarrow> string" where
  "json_escape_char c =
     (if c = quote \<or> c = backslash then [backslash, c]
      else case map_of [(CHR 0x08, CHR ''b''), (CHR 0x0C, CHR ''f''), (CHR 0x0A, CHR ''n''), (CHR 0x0D, CHR ''r''),
                        (CHR 0x09, CHR ''t'')] c of
          Some e \<Rightarrow> [backslash, e]
        | None \<Rightarrow> if of_char c < (32 :: nat) \<or> c \<in> set ''<>&'' then hex_escape (of_char c) else [c])"

function json_escape :: "string \<Rightarrow> string" where
  "json_escape [] = []"
| "json_escape (c # s) =
     (if of_char c < (128 :: nat) then json_escape_char c @ json_escape s
      else let k = utf8_len (c # s) in
        if k = 0 then hex_escape 65533 @ json_escape s
        else if take k (c # s) = utf8_encode 8232 then hex_escape 8232 @ json_escape (drop (k - 1) s)
        else if take k (c # s) = utf8_encode 8233 then hex_escape 8233 @ json_escape (drop (k - 1) s)
        else take k (c # s) @ json_escape (drop (k - 1) s))"
  by pat_completeness auto

termination
  by (relation "measure length") (auto simp: less_Suc_eq_le)

definition json_quote :: "string \<Rightarrow> string" where
  "json_quote s = quote # json_escape s @ [quote]"

text \<open>Text made of whole UTF-8 sequences.\<close>

function utf8_valid :: "string \<Rightarrow> bool" where
  "utf8_valid [] = True"
| "utf8_valid (c # s) = (utf8_len (c # s) \<noteq> 0 \<and> utf8_valid (drop (utf8_len (c # s) - 1) s))"
  by pat_completeness auto

termination
  by (relation "measure length") (auto simp: less_Suc_eq_le)

text \<open>\<open>utf8_len\<close> on the numbers of the first four bytes.\<close>

definition utf8_head :: "nat list \<Rightarrow> nat" where
  "utf8_head l = (case l of
        [] \<Rightarrow> 0
      | a # r \<Rightarrow>
          if a < 128 then 1
          else if 194 \<le> a \<and> a < 224 then (case r of b # _ \<Rightarrow> if is_cont b then 2 else 0 | _ \<Rightarrow> 0)
          else if 224 \<le> a \<and> a < 240 then
            (case r of
               b # c # _ \<Rightarrow>
                 if is_cont b \<and> is_cont c \<and> (a = 224 \<longrightarrow> 160 \<le> b) \<and> (a = 237 \<longrightarrow> b < 160) then 3 else 0
             | _ \<Rightarrow> 0)
          else if 240 \<le> a \<and> a < 245 then
            (case r of
               [b, c, d] \<Rightarrow>
                 if is_cont b \<and> is_cont c \<and> is_cont d \<and> (a = 240 \<longrightarrow> 144 \<le> b) \<and> (a = 244 \<longrightarrow> b < 144)
                 then 4 else 0
             | _ \<Rightarrow> 0)
          else 0)"

lemma utf8_len_head: "utf8_len s = utf8_head (map of_char (take 4 s))"
  by (simp only: utf8_len_def utf8_head_def)

lemma utf8_head_le: "utf8_head l \<le> length l"
  by (auto simp: utf8_head_def split: list.split)

lemma utf8_head_prefix:
  assumes "utf8_head l = k" "k \<noteq> 0" "length l \<le> 4"
  shows "utf8_head (take 4 (take k l @ t)) = k"
proof -
  obtain a r where l: "l = a # r" using assms by (cases l) (auto simp: utf8_head_def)
  consider "r = []" | b where "r = [b]" | b c where "r = [b, c]" | b c d where "r = [b, c, d]"
    using assms(3) unfolding l by (auto simp: le_Suc_eq length_Suc_conv numeral_eq_Suc)
  then show ?thesis
    using assms(1,2) unfolding l by cases (auto simp: utf8_head_def numeral_eq_Suc split: if_splits)
qed

lemma utf8_len_le: "utf8_len s \<le> length s" "utf8_len s \<le> 4"
  using utf8_head_le [of "map of_char (take 4 s)"] by (simp_all add: utf8_len_head)

lemma utf8_len_ascii: "of_char c < (128 :: nat) \<Longrightarrow> utf8_len (c # s) = 1"
  by (simp add: utf8_len_def)

lemma utf8_valid_ascii_Cons: "of_char c < (128 :: nat) \<Longrightarrow> utf8_valid (c # s) = utf8_valid s"
  by (subst utf8_valid.simps(2)) (simp only: utf8_len_ascii, simp)

lemma utf8_valid_ascii: "list_all (\<lambda>c. of_char c < (128 :: nat)) s \<Longrightarrow> utf8_valid s"
  by (induction s) (simp_all add: utf8_valid_ascii_Cons del: utf8_valid.simps(2))

lemma utf8_len_prefix:
  assumes "utf8_len s = k" "k \<noteq> 0"
  shows "utf8_len (take k s @ t) = k"
proof -
  have "k \<le> 4" using utf8_len_le(2) [of s] assms by simp
  then have "(map of_char (take 4 (take k s @ t)) :: nat list) = take 4 (take k (map of_char (take 4 s)) @ map of_char t)"
    by (simp add: take_map [symmetric] min_def)
  moreover have "utf8_head (take 4 (take k (map of_char (take 4 s)) @ map of_char t)) = k"
    using assms unfolding utf8_len_head by (intro utf8_head_prefix) simp_all
  ultimately show ?thesis
    unfolding utf8_len_head by (simp only:)
qed

lemma hex_val_hex_char: "d < 16 \<Longrightarrow> hex_val (hex_char d) = Some d"
  by (auto simp: hex_val_def hex_char_def Let_def)

lemma hex4_hex_escape:
  assumes "u < 65536"
  shows "hex4 (tl (tl (hex_escape u)) @ t) = Some u"
proof -
  have d: "u div 256 = u div 16 div 16" "u div 4096 = u div 16 div 16 div 16" by (simp_all flip: div_mult2_eq)
  have "u div 16 div 16 div 16 < 16" using assms by linarith
  then have m: "u div 16 div 16 div 16 mod 16 = u div 16 div 16 div 16" by simp
  have "16 * (u div 16) + u mod 16 = u" "16 * (u div 16 div 16) + u div 16 mod 16 = u div 16"
    "16 * (u div 16 div 16 div 16) + u div 16 div 16 mod 16 = u div 16 div 16" by (rule mult_div_mod_eq)+
  then have "4096 * (u div 4096) + 256 * (u div 256 mod 16) + 16 * (u div 16 mod 16) + u mod 16 = u"
    unfolding d by linarith
  moreover have "u div 4096 mod 16 = u div 4096" unfolding d by (rule m)
  moreover have "hex_val (hex_char (u div 4096)) = Some (u div 4096)"
    using assms by (intro hex_val_hex_char) linarith
  ultimately show ?thesis by (simp add: hex4_def hex_escape_def hex_val_hex_char)
qed

lemma jstring_hex_escape:
  assumes "u < 55296 \<or> 57344 \<le> u \<and> u < 65536"
  shows "jstring (hex_escape u @ t) = map_option (apfst ((@) (utf8_encode u))) (jstring t)"
proof -
  have h: "hex_escape u @ t = backslash # CHR ''u'' # (tl (tl (hex_escape u)) @ t)" "drop 4 (tl (tl (hex_escape u)) @ t) = t"
    by (simp_all add: hex_escape_def)
  have "jstring (hex_escape u @ t) =
      (let t' = drop 4 (tl (tl (hex_escape u)) @ t) in map_option (apfst ((@) (utf8_encode u))) (jstring t'))"
  proof -
    have u: "hex4 (tl (tl (hex_escape u)) @ t) = Some u" using assms by (intro hex4_hex_escape) auto
    have "\<not> (55296 \<le> u \<and> u < 56320)" "\<not> (56320 \<le> u \<and> u < 57344)" using assms by auto
    then show ?thesis
      unfolding h(1) jstring.simps(2) by (simp only: u option.case list.case if_False Let_def) (simp add: quote_def backslash_def)
  qed
  then show ?thesis unfolding h(2) Let_def .
qed

lemma utf8_encode_ascii: "of_char c < (128 :: nat) \<Longrightarrow> utf8_encode (of_char c) = [c]"
  by (simp add: utf8_encode_def)

lemma apfst_Cons: "apfst ((@) [c]) = apfst ((#) c)"
  by (simp add: fun_eq_iff)

lemma jstring_plain:
  assumes "of_char c < (128 :: nat)" "\<not> of_char c < (32 :: nat)" "c \<noteq> quote" "c \<noteq> backslash"
  shows "jstring (c # t) = map_option (apfst ((#) c)) (jstring t)"
  using assms by (simp add: utf8_len_ascii Let_def apfst_Cons)

lemma simple_escape_inv:
  "map_of [(CHR 0x08, CHR ''b''), (CHR 0x0C, CHR ''f''), (CHR 0x0A, CHR ''n''), (CHR 0x0D, CHR ''r''), (CHR 0x09, CHR ''t'')] c = Some e
    \<Longrightarrow> e \<noteq> CHR ''u'' \<and> simple_escape e = Some c"
  by (auto simp: simple_escape_def quote_def backslash_def split: if_splits)

lemma jstring_escape_char:
  assumes "of_char c < (128 :: nat)"
  shows "jstring (json_escape_char c @ t) = map_option (apfst ((#) c)) (jstring t)"
proof (cases "c = quote \<or> c = backslash")
  case True
  then show ?thesis by (auto simp: json_escape_char_def simple_escape_def quote_def backslash_def)
next
  case False
  show ?thesis
  proof (cases "map_of [(CHR 0x08, CHR ''b''), (CHR 0x0C, CHR ''f''), (CHR 0x0A, CHR ''n''), (CHR 0x0D, CHR ''r''), (CHR 0x09, CHR ''t'')] c")
    case (Some e)
    then have "json_escape_char c = [backslash, e]" using False by (simp only: json_escape_char_def if_False option.case)
    then show ?thesis using simple_escape_inv [OF Some] by (simp add: quote_def backslash_def)
  next
    case None
    then have e: "json_escape_char c = (if of_char c < (32 :: nat) \<or> c \<in> set ''<>&'' then hex_escape (of_char c) else [c])"
      using False by (simp only: json_escape_char_def if_False option.case)
    have "jstring (hex_escape (of_char c) @ t) = map_option (apfst ((#) c)) (jstring t)"
      using assms by (subst jstring_hex_escape) (simp_all add: utf8_encode_ascii apfst_Cons)
    moreover have "jstring ([c] @ t) = map_option (apfst ((#) c)) (jstring t)" if "\<not> of_char c < (32 :: nat)"
      using jstring_plain [of c t] False that assms by (simp del: jstring.simps)
    ultimately show ?thesis unfolding e by (simp del: jstring.simps)
  qed
qed

lemma jstring_take:
  assumes "utf8_len (c # s) = k" "k \<noteq> 0" "\<not> of_char c < (128 :: nat)"
  shows "jstring (take k (c # s) @ t) = map_option (apfst ((@) (take k (c # s)))) (jstring t)"
proof -
  have k: "utf8_len (take k (c # s) @ t) = k" "k \<le> length (c # s)"
    using utf8_len_prefix [OF assms(1,2)] utf8_len_le(1) [of "c # s"] assms(1) by simp_all
  obtain j where j: "k = Suc j" using assms(2) by (cases k) auto
  have c: "c \<noteq> quote" "\<not> of_char c < (32 :: nat)" "c \<noteq> backslash" using assms(3) by (auto simp: quote_def backslash_def)
  have "jstring (c # take j s @ t) = map_option (apfst ((@) (take k (c # take j s @ t)))) (jstring (drop (k - 1) (take j s @ t)))"
    using k(1) assms(2) c unfolding jstring.simps(2) j by (simp add: Let_def)
  moreover have "drop (k - 1) (take j s @ t) = t" "take k (c # take j s @ t) = take k (c # s)"
    using k(2) by (simp_all add: j)
  ultimately show ?thesis by (simp only: j take_Suc_Cons append_Cons)
qed

lemma jstring_json_escape: "utf8_valid s \<Longrightarrow> jstring (json_escape s @ t) = map_option (apfst ((@) s)) (jstring t)"
proof (induction s rule: json_escape.induct)
  case 1
  then show ?case by (cases "jstring t") auto
next
  case (2 c s)
  show ?case
  proof (cases "of_char c < (128 :: nat)")
    case True
    then have "utf8_valid s" using 2(6) utf8_valid_ascii_Cons by blast
    with 2(1) True show ?thesis
      by (simp add: jstring_escape_char option.map_comp comp_def apfst_def map_prod_def split_beta del: jstring.simps)
  next
    case False
    define k where "k = utf8_len (c # s)"
    have k: "k \<noteq> 0" and v: "utf8_valid (drop (k - 1) s)" using 2(6) by (simp_all add: k_def)
    have app: "take k (c # s) @ drop (k - 1) s = c # s" using k by (cases k) simp_all
    have ih: "jstring (json_escape (drop (k - 1) s) @ t) = map_option (apfst ((@) (drop (k - 1) s))) (jstring t)"
      using 2(3-5) [OF False k_def k] v by argo
    have sur: "(8232 :: nat) < 55296 \<or> 57344 \<le> (8232 :: nat) \<and> (8232 :: nat) < 65536"
      "(8233 :: nat) < 55296 \<or> 57344 \<le> (8233 :: nat) \<and> (8233 :: nat) < 65536" by simp_all
    have "jstring (json_escape (c # s) @ t) = map_option (apfst ((@) (take k (c # s)))) (jstring (json_escape (drop (k - 1) s) @ t))"
      using False k unfolding json_escape.simps(2) k_def [symmetric] Let_def
      by (simp only: if_False append_assoc jstring_hex_escape [OF sur(1)] jstring_hex_escape [OF sur(2)]
          jstring_take [OF k_def [symmetric] k False] split: if_split) simp
    also have "\<dots> = map_option (apfst ((@) (c # s))) (jstring t)"
    proof -
      have "apfst ((@) (take k (c # s))) (apfst ((@) (drop (k - 1) s)) x) = apfst ((@) (c # s)) x" for x :: "string \<times> string"
        by (cases x) (metis app append_assoc apfst_conv)
      then show ?thesis unfolding ih option.map_comp comp_def by (simp only:)
    qed
    finally show ?thesis .
  qed
qed

lemma jstring_json_quote: "utf8_valid s \<Longrightarrow> jstring (tl (json_quote s) @ t) = Some (s, t)"
  using jstring_json_escape [of s "quote # t"] by (simp add: json_quote_def)


subsection \<open>Values\<close>

fun Join_commas :: "string list \<Rightarrow> string" where
  "Join_commas [] = []"
| "Join_commas [w] = w"
| "Join_commas (w # v # ws) = w @ CHR '','' # Join_commas (v # ws)"

definition object_text :: "(string \<times> string) list \<Rightarrow> string" where
  "object_text ms = CHR ''{'' # Join_commas (map (\<lambda>(k, t). json_quote k @ CHR '':'' # t) ms) @ ''}''"

definition array_text :: "string list \<Rightarrow> string" where
  "array_text ts = CHR ''['' # Join_commas ts @ '']''"

text \<open>What may follow a value inside a document.\<close>

definition json_delim :: "string \<Rightarrow> bool" where
  "json_delim r \<longleftrightarrow> r = [] \<or> hd r \<in> set '',}]'' \<or> hd r = CHR 0x0A"

text \<open>\<open>json_text d t v\<close>: wherever \<open>t\<close> stands at depth \<open>d\<close> of a document, the parser reads \<open>v\<close> there
  and goes on behind it.\<close>

definition json_text :: "nat \<Rightarrow> string \<Rightarrow> json \<Rightarrow> bool" where
  "json_text d t v \<longleftrightarrow> t \<noteq> [] \<and> \<not> json_ws (hd t) \<and> hd t \<noteq> CHR '']'' \<and>
     (\<forall>r n. json_delim r \<longrightarrow> 2 * length (t @ r) < n \<longrightarrow> jval n d (t @ r) = Some (v, r))"

lemma skip_ws_not: "t \<noteq> [] \<Longrightarrow> \<not> json_ws (hd t) \<Longrightarrow> skip_ws (t @ r) = t @ r"
  by (cases t) (simp_all add: skip_ws_def)

lemma skip_ws_Cons: "\<not> json_ws c \<Longrightarrow> skip_ws (c # r) = c # r"
  by (simp add: skip_ws_def)

lemma json_ws_punct [simp]: "\<not> json_ws (CHR ''{'')" "\<not> json_ws (CHR ''}'')" "\<not> json_ws (CHR ''['')" "\<not> json_ws (CHR '']'')"
  "\<not> json_ws (CHR '','')" "\<not> json_ws (CHR '':'')" "\<not> json_ws quote" "\<not> json_ws (CHR 0x22)" "quote \<noteq> CHR '']''" "quote \<noteq> CHR ''}''"
  by (simp_all add: json_ws_def quote_def)

lemma json_textD: "json_text d t v \<Longrightarrow> json_delim r \<Longrightarrow> 2 * length (t @ r) < n \<Longrightarrow> jval n d (t @ r) = Some (v, r)"
  by (simp only: json_text_def)

lemma json_text_head: "json_text d t v \<Longrightarrow> skip_ws (t @ r) = t @ r"
  unfolding json_text_def by (elim conjE) (rule skip_ws_not)

lemma json_text_Unmarshal:
  assumes "json_text 0 t v"
  shows "json_Unmarshal t = Some v" and "json_Decode t = Some v"
proof -
  have "jval (2 * length t + 2) 0 (t @ []) = Some (v, [])"
    using json_textD [OF assms, of "[]" "2 * length t + 2"] by (simp add: json_delim_def del: jval.simps)
  then show "json_Unmarshal t = Some v" by (simp add: json_Unmarshal_def skip_ws_def del: jval.simps)
  then show "json_Decode t = Some v" by (rule json_Unmarshal_Decode)
qed

lemma json_text_quote:
  assumes "utf8_valid s"
  shows "json_text d (json_quote s) (JvStr s)"
proof -
  have "jval n d (json_quote s @ r) = Some (JvStr s, r)" if l: "2 * length (json_quote s @ r) < n" for n r
  proof -
    obtain m where m: "n = Suc m" using l by (cases n) simp_all
    have q: "json_quote s @ r = quote # tl (json_quote s) @ r" by (simp add: json_quote_def)
    show ?thesis unfolding m jval.simps(2)
      by (subst q)+ (simp add: skip_ws_Cons Let_def jstring_json_quote [OF assms, of r])
  qed
  then show ?thesis by (simp add: json_text_def json_quote_def)
qed

lemma json_text_literals:
  "json_text d ''null'' JvNull" "json_text d ''true'' (JvBool True)" "json_text d ''false'' (JvBool False)"
proof -
  have "jval n d (''null'' @ r) = Some (JvNull, r)" "jval n d (''true'' @ r) = Some (JvBool True, r)"
    "jval n d (''false'' @ r) = Some (JvBool False, r)" if "0 < n" for n r
    using that by (cases n; simp add: skip_ws_def json_ws_def HasPrefix_def quote_def)+
  then show "json_text d ''null'' JvNull" "json_text d ''true'' (JvBool True)" "json_text d ''false'' (JvBool False)"
    unfolding json_text_def by (auto simp: json_ws_def)
qed


definition member_text :: "string \<times> string \<times> json \<Rightarrow> string" where
  "member_text m = (case m of (k, t, v) \<Rightarrow> json_quote k @ CHR '':'' # t)"

definition member_ok :: "nat \<Rightarrow> string \<times> string \<times> json \<Rightarrow> bool" where
  "member_ok d m = (case m of (k, t, v) \<Rightarrow> utf8_valid k \<and> json_text d t v)"

lemma jmembers_step:
  assumes "utf8_valid k" "json_text d t v" "c = CHR '','' \<or> c = CHR ''}''"
    and "2 * length (json_quote k @ CHR '':'' # t @ c # r) < n"
  shows "jmembers (Suc n) d (json_quote k @ CHR '':'' # t @ c # r) =
    (if c = CHR ''}'' then Some ([(k, t, v)], r) else map_option (apfst ((#) (k, t, v))) (jmembers n d r))"
proof -
  have j: "jval n d (t @ c # r) = Some (v, c # r)"
    using assms by (intro json_textD) (auto simp: json_delim_def)
  have q: "json_quote k @ s = quote # tl (json_quote k) @ s" for s by (simp add: json_quote_def)
  have w: "\<not> json_ws c" using assms(3) by auto
  show ?thesis
    unfolding q jmembers.simps(2)
    using assms(3) json_text_head [OF assms(2), of "c # r"] jstring_json_quote [OF assms(1), of "CHR '':'' # t @ c # r"]
    by (auto simp: skip_ws_Cons w Let_def j simp del: jval.simps jmembers.simps)
qed

lemma jmembers_object:
  assumes "ms \<noteq> []" "list_all (member_ok d) ms" "2 * length (Join_commas (map member_text ms) @ CHR ''}'' # r) < n"
  shows "jmembers (Suc n) d (Join_commas (map member_text ms) @ CHR ''}'' # r) = Some (ms, r)"
  using assms
proof (induction ms arbitrary: n)
  case (Cons m ms)
  obtain k t v where m: "m = (k, t, v)" by (cases m)
  have ok: "utf8_valid k" "json_text d t v" using Cons.prems(2) by (simp_all add: m member_ok_def)
  show ?case
  proof (cases ms)
    case Nil
    then show ?thesis
      using jmembers_step [OF ok, of "CHR ''}''" r n] Cons.prems(3) by (simp add: m member_text_def del: jmembers.simps)
  next
    case (Cons m' ms')
    define s where "s = Join_commas (map member_text ms) @ CHR ''}'' # r"
    have e: "Join_commas (map member_text (m # ms)) @ CHR ''}'' # r = json_quote k @ CHR '':'' # t @ CHR '','' # s"
      by (simp add: Cons s_def m member_text_def)
    have l: "2 * length (json_quote k @ CHR '':'' # t @ CHR '','' # s) < n" using Cons.prems(3) unfolding e .
    then obtain n' where n: "n = Suc n'" by (cases n) simp_all
    have "jmembers (Suc n') d s = Some (ms, r)"
      unfolding s_def using Cons.prems(2) l Cons by (intro Cons.IH) (simp_all add: n s_def)
    then show ?thesis unfolding e using jmembers_step [OF ok _ l] by (simp add: n m del: jmembers.simps)
  qed
qed simp

lemma jelems_array:
  assumes "ts \<noteq> []" "list_all2 (json_text d) ts vs" "2 * length (Join_commas ts @ CHR '']'' # r) < n"
  shows "jelems (Suc n) d (Join_commas ts @ CHR '']'' # r) = Some (vs, r)"
  using assms
proof (induction ts arbitrary: n vs)
  case (Cons t ts)
  obtain v vs' where vs: "vs = v # vs'" "json_text d t v" "list_all2 (json_text d) ts vs'"
    using Cons.prems(2) by (auto simp: list_all2_Cons1)
  show ?case
  proof (cases ts)
    case Nil
    have "jval n d (t @ CHR '']'' # r) = Some (v, CHR '']'' # r)"
      using Cons.prems(3) Nil by (intro json_textD [OF vs(2)]) (auto simp: json_delim_def)
    then show ?thesis using Nil vs by (simp add: skip_ws_Cons Let_def del: jval.simps)
  next
    case (Cons t' ts')
    define s where "s = Join_commas ts @ CHR '']'' # r"
    have e: "Join_commas (t # ts) @ CHR '']'' # r = t @ CHR '','' # s" by (simp add: Cons s_def)
    have l: "2 * length (t @ CHR '','' # s) < n" using Cons.prems(3) unfolding e .
    then obtain n' where n: "n = Suc n'" by (cases n) simp_all
    have "jval n d (t @ CHR '','' # s) = Some (v, CHR '','' # s)"
      using l by (intro json_textD [OF vs(2)]) (auto simp: json_delim_def)
    moreover have "jelems n d s = Some (vs', r)"
      unfolding s_def n using vs(3) l Cons by (intro Cons.IH) (simp_all add: n s_def)
    ultimately show ?thesis unfolding e by (simp add: vs skip_ws_Cons Let_def del: jval.simps)
  qed
qed simp

lemma json_text_object:
  assumes "list_all (member_ok (Suc d)) ms" "d < maxNestingDepth"
  shows "json_text d (object_text (map (\<lambda>(k, t, v). (k, t)) ms)) (JvObj ms)"
proof -
  have e: "object_text (map (\<lambda>(k, t, v). (k, t)) ms) = CHR ''{'' # Join_commas (map member_text ms) @ ''}''"
    by (auto simp: object_text_def member_text_def intro!: arg_cong [where f = Join_commas])
  have "jval n d (CHR ''{'' # (Join_commas (map member_text ms) @ ''}'') @ r) = Some (JvObj ms, r)"
    if l: "2 * length (CHR ''{'' # (Join_commas (map member_text ms) @ ''}'') @ r) < n" for n r
  proof -
    obtain m where n: "n = Suc (Suc m)" using l by (metis length_Cons less_natE mult_Suc_right add_Suc add_2_eq_Suc)
    show ?thesis
    proof (cases ms)
      case Nil
      then show ?thesis using assms(2) by (simp add: n skip_ws_Cons Let_def quote_def)
    next
      case (Cons m1 ms1)
      obtain k t v where m1: "m1 = (k, t, v)" by (cases m1)
      have h: "\<exists>q. Join_commas (map member_text ms) = quote # q"
        by (cases ms1) (simp_all add: Cons m1 member_text_def json_quote_def)
      have "jmembers (Suc m) (Suc d) (Join_commas (map member_text ms) @ CHR ''}'' # r) = Some (ms, r)"
        using assms(1) l by (intro jmembers_object) (simp_all add: n Cons)
      then show ?thesis using assms(2) h
        unfolding n jval.simps(2) [of "Suc m"]
        by (auto simp: skip_ws_Cons Let_def quote_def simp del: jmembers.simps)
    qed
  qed
  then show ?thesis by (simp add: e json_text_def)
qed


lemma json_text_array:
  assumes "list_all2 (json_text (Suc d)) ts vs" "d < maxNestingDepth"
  shows "json_text d (array_text ts) (JvArr vs)"
proof -
  have "jval n d (CHR ''['' # (Join_commas ts @ '']'') @ r) = Some (JvArr vs, r)"
    if l: "2 * length (CHR ''['' # (Join_commas ts @ '']'') @ r) < n" for n r
  proof -
    obtain m where n: "n = Suc (Suc m)" using l by (metis length_Cons less_natE mult_Suc_right add_Suc add_2_eq_Suc)
    show ?thesis
    proof (cases ts)
      case Nil
      then show ?thesis using assms by (simp add: n skip_ws_Cons Let_def quote_def)
    next
      case (Cons t ts')
      have "json_text (Suc d) t (hd vs)" using assms(1) by (auto simp: Cons list_all2_Cons1)
      then have t: "skip_ws (t @ s) = t @ s" "t \<noteq> []" "hd t \<noteq> CHR '']''" for s
        using json_text_head json_text_def [of "Suc d" t "hd vs"] by auto
      then have h: "skip_ws (Join_commas ts @ s) = Join_commas ts @ s" "hd (Join_commas ts @ s) \<noteq> CHR '']''" for s
        by (cases ts'; simp add: Cons)+
      have "jelems (Suc m) (Suc d) (Join_commas ts @ CHR '']'' # r) = Some (vs, r)"
        using assms(1) l by (intro jelems_array) (simp_all add: n Cons)
      then show ?thesis using assms(2) h [of "CHR '']'' # r"]
        unfolding n jval.simps(2) [of "Suc m"]
        by (simp add: skip_ws_Cons Let_def quote_def del: jelems.simps)
    qed
  qed
  then show ?thesis by (simp add: array_text_def json_text_def)
qed


lemma digits_app:
  assumes "json_delim r"
  shows "takeWhile is_digit (s @ r) = takeWhile is_digit s" "dropWhile is_digit (s @ r) = dropWhile is_digit s @ r"
proof -
  have "r = [] \<or> \<not> is_digit (hd r)" using assms by (auto simp: json_delim_def is_digit_def)
  then have r: "takeWhile is_digit r = []" "dropWhile is_digit r = r" by (cases r; simp)+
  show "takeWhile is_digit (s @ r) = takeWhile is_digit s" "dropWhile is_digit (s @ r) = dropWhile is_digit s @ r"
    by (induction s) (simp_all add: r)
qed

lemma jnum_exp_app: "jnum_exp s = Some (e, t) \<Longrightarrow> json_delim r \<Longrightarrow> jnum_exp (s @ r) = Some (e, t @ r)"
proof (cases s)
  case Nil
  assume "jnum_exp s = Some (e, t)" "json_delim r"
  then show ?thesis using Nil by (cases r) (auto simp: jnum_exp_def json_delim_def)
next
  case (Cons c s')
  assume j: "jnum_exp s = Some (e, t)" and r: "json_delim r"
  show ?thesis
  proof (cases s')
    case Nil
    then show ?thesis using j r Cons by (auto simp: jnum_exp_def Let_def split: if_splits)
  next
    case (Cons b q)
    then show ?thesis using j r \<open>s = c # s'\<close> digits_app [OF r, of q] digits_app [OF r, of "b # q"]
      by (auto simp: jnum_exp_def Let_def split: if_splits)
  qed
qed

lemma jnum_frac_app: "jnum_frac s = Some (e, t) \<Longrightarrow> json_delim r \<Longrightarrow> jnum_frac (s @ r) = Some (e, t @ r)"
proof (cases s)
  case Nil
  assume "jnum_frac s = Some (e, t)" "json_delim r"
  then show ?thesis using Nil by (cases r) (auto simp: jnum_frac_def json_delim_def)
next
  case (Cons c s')
  assume "jnum_frac s = Some (e, t)" and r: "json_delim r"
  then show ?thesis using Cons digits_app [OF r, of s'] by (auto simp: jnum_frac_def Let_def split: if_splits)
qed

lemma jnumber_app:
  assumes "jnumber s = Some (e, t)" and r: "json_delim r"
  shows "jnumber (s @ r) = Some (e, t @ r)"
proof -
  define sg where "sg = (if s \<noteq> [] \<and> hd s = CHR ''-'' then [hd s] else [])"
  define s1 where "s1 = drop (length sg) s"
  define ds where "ds = (if s1 \<noteq> [] \<and> hd s1 = CHR ''0'' then [hd s1] else takeWhile is_digit s1)"
  obtain fr s2 ex where j: "ds \<noteq> []" "jnum_frac (drop (length ds) s1) = Some (fr, s2)" "jnum_exp s2 = Some (ex, t)"
    "e = sg @ ds @ fr @ ex"
    using assms(1) unfolding jnumber_def Let_def sg_def [symmetric] s1_def [symmetric] ds_def [symmetric]
    by (auto split: if_splits option.splits prod.splits)
  have s1: "s1 \<noteq> []" using j(1) by (auto simp: ds_def split: if_splits)
  then have s: "s \<noteq> []" by (auto simp: s1_def)
  have a: "(if s @ r \<noteq> [] \<and> hd (s @ r) = CHR ''-'' then [hd (s @ r)] else []) = sg" using s by (simp add: sg_def)
  have l: "length sg \<le> length s" "length ds \<le> length s1"
    using s s1 by (auto simp: sg_def ds_def Suc_le_eq length_takeWhile_le)
  have b: "drop (length sg) (s @ r) = s1 @ r" using l by (simp add: s1_def)
  have c: "(if s1 @ r \<noteq> [] \<and> hd (s1 @ r) = CHR ''0'' then [hd (s1 @ r)] else takeWhile is_digit (s1 @ r)) = ds"
    using s1 by (simp add: ds_def digits_app [OF r])
  have "jnum_frac (drop (length ds) (s1 @ r)) = Some (fr, s2 @ r)"
    using jnum_frac_app [OF j(2) r] l by simp
  then show ?thesis
    unfolding jnumber_def Let_def a b c using j jnum_exp_app [OF j(3) r] by simp
qed

lemma json_text_number:
  assumes "jnumber s = Some (s, [])"
  shows "json_text d s (JvNum s)"
proof -
  have s: "s \<noteq> []" using jnumber_length [OF assms] by auto
  have "jnumber s \<noteq> None" using assms by simp
  then have h: "hd s = CHR ''-'' \<or> is_digit (hd s)"
    using s by (cases s) (auto simp: jnumber_def Let_def is_digit_def split: if_splits)
  then have c: "\<not> json_ws (hd s)" "hd s \<noteq> CHR '']''" "hd s \<noteq> quote" "hd s \<noteq> CHR ''{''" "hd s \<noteq> CHR ''[''"
    "hd s \<notin> set ''tfn''"
    by (auto simp: is_digit_def json_ws_def quote_def)
  have "jval n d (s @ r) = Some (JvNum s, r)" if "json_delim r" "0 < n" for n r
    using that jnumber_app [OF assms that(1)] c s
    by (cases n; cases s) (auto simp: skip_ws_Cons Let_def HasPrefix_def)
  then show ?thesis using s c by (simp add: json_text_def)
qed

text \<open>\<open>json.Marshal\<close> of a value, an object's members in the order given, and when a value can be
  printed at depth \<open>d\<close>: valid UTF-8, number literals, bounded nesting, and raw member texts that are
  the printed members.\<close>

function json_print :: "json \<Rightarrow> string" where
  "json_print JvNull = ''null''"
| "json_print (JvBool b) = (if b then ''true'' else ''false'')"
| "json_print (JvNum s) = s"
| "json_print (JvStr s) = json_quote s"
| "json_print (JvArr vs) = array_text (map json_print vs)"
| "json_print (JvObj ms) = object_text (map (\<lambda>m. (fst m, json_print (snd (snd m)))) ms)"
  by pat_completeness auto

termination
  by (relation "measure size")
    (auto dest: size_list_estimation' [where f = size, OF _ order_refl] json_member_size simp: less_Suc_eq_le)

function json_wf :: "nat \<Rightarrow> json \<Rightarrow> bool" where
  "json_wf d JvNull = True"
| "json_wf d (JvBool b) = True"
| "json_wf d (JvNum s) = (jnumber s = Some (s, []))"
| "json_wf d (JvStr s) = utf8_valid s"
| "json_wf d (JvArr vs) = (d < maxNestingDepth \<and> (\<forall>v \<in> set vs. json_wf (Suc d) v))"
| "json_wf d (JvObj ms) = (d < maxNestingDepth \<and>
     (\<forall>m \<in> set ms. utf8_valid (fst m) \<and> fst (snd m) = json_print (snd (snd m)) \<and> json_wf (Suc d) (snd (snd m))))"
  by pat_completeness auto

termination
  by (relation "measure (\<lambda>(d, v). size v)")
    (auto dest: size_list_estimation' [where f = size, OF _ order_refl] json_member_size simp: less_Suc_eq_le)

text \<open>Printing and parsing: every printable value is read back.\<close>

lemma json_print_text: "json_wf d v \<Longrightarrow> json_text d (json_print v) v"
proof (induction d v rule: json_wf.induct)
  case (5 d vs)
  then have "list_all2 (json_text (Suc d)) (map json_print vs) vs"
    by (auto simp: list_all2_conv_all_nth)
  with 5 show ?case using json_text_array by simp
next
  case (6 d ms)
  then have "list_all (member_ok (Suc d)) ms"
    by (auto simp: list_all_iff member_ok_def split: prod.splits)
  then have t: "json_text d (object_text (map (\<lambda>(k, t, v). (k, t)) ms)) (JvObj ms)"
    using 6 by (intro json_text_object) simp_all
  have "map (\<lambda>m. (fst m, json_print (snd (snd m)))) ms = map (\<lambda>(k, t, v). (k, t)) ms"
    using 6 by (auto split: prod.splits)
  then show ?case using t by (simp only: json_print.simps)
qed (simp_all add: json_text_literals json_text_number json_text_quote)

lemma json_wf_outer: "json_wf (Suc d) v \<Longrightarrow> json_wf d v"
  by (induction d v rule: json_wf.induct) auto

lemma json_print_Unmarshal: "json_wf 0 v \<Longrightarrow> json_Unmarshal (json_print v) = Some v"
  by (rule json_text_Unmarshal(1)) (rule json_print_text)


text \<open>A struct's value: its fields in order, each with the text of its value.\<close>

definition jobject :: "(string \<times> json) list \<Rightarrow> json" where
  "jobject fs = JvObj (map (\<lambda>(k, v). (k, json_print v, v)) fs)"

lemma json_wf_jobject:
  "json_wf d (jobject fs) \<longleftrightarrow> d < maxNestingDepth \<and> list_all (\<lambda>(k, v). utf8_valid k \<and> json_wf (Suc d) v) fs"
  by (auto simp: jobject_def list_all_iff)

subsection \<open>Embedding raw text\<close>

text \<open>A \<open>json.RawMessage\<close> is marshalled by copying it without the white space between tokens and with
  the characters that are unsafe in HTML escaped. The flag says whether the scan is inside a string.\<close>

fun compact_scan :: "bool \<Rightarrow> string \<Rightarrow> string" where
  "compact_scan q [] = []"
| "compact_scan q (c # s) =
     (if c \<in> set ''<>&'' then hex_escape (of_char c) @ compact_scan q s
      else if take 3 (c # s) = utf8_encode 8232 then hex_escape 8232 @ compact_scan q (drop 2 s)
      else if take 3 (c # s) = utf8_encode 8233 then hex_escape 8233 @ compact_scan q (drop 2 s)
      else if q then
        (if c = backslash then (case s of [] \<Rightarrow> [c] | e # s' \<Rightarrow> c # e # compact_scan True s')
         else c # compact_scan (c \<noteq> quote) s)
      else if json_ws c then compact_scan False s
      else c # compact_scan (c = quote) s)"

definition raw_Marshal :: "string \<Rightarrow> string option" where
  "raw_Marshal raw = (if raw = [] then Some ''null''
     else if json_Unmarshal raw = None then None else Some (compact_scan False raw))"

definition ascii :: "string \<Rightarrow> bool" where
  "ascii s = list_all (\<lambda>c. of_char c < (128 :: nat)) s"

lemma ascii_simps [simp]: "ascii []" "ascii (c # s) \<longleftrightarrow> of_char c < (128 :: nat) \<and> ascii s" "ascii (s @ t) \<longleftrightarrow> ascii s \<and> ascii t"
  by (simp_all add: ascii_def)

lemma ascii_valid: "ascii s \<Longrightarrow> utf8_valid s"
  unfolding ascii_def by (rule utf8_valid_ascii)

lemma json_escape_ascii: "ascii s \<Longrightarrow> json_escape s = concat (map json_escape_char s)"
  by (induction s) simp_all

lemma utf8_separators: "utf8_encode 8232 = [CHR 0xE2, CHR 0x80, CHR 0xA8]" "utf8_encode 8233 = [CHR 0xE2, CHR 0x80, CHR 0xA9]"
  by (simp_all add: utf8_encode_def char_of_def bit_0)

lemma of_char_uE2:
  assumes "of_char c < (128 :: nat)"
  shows "take 3 (c # s) \<noteq> utf8_encode 8232" "take 3 (c # s) \<noteq> utf8_encode 8233"
proof -
  have "c \<noteq> CHR 0xE2" using assms by auto
  then show "take 3 (c # s) \<noteq> utf8_encode 8232" "take 3 (c # s) \<noteq> utf8_encode 8233"
    by (simp_all add: utf8_separators numeral_3_eq_3)
qed

lemma compact_plain:
  assumes "of_char c < (128 :: nat)" "c \<notin> set ''<>&''"
  shows "compact_scan q (c # s) =
    (if q then (if c = backslash then (case s of [] \<Rightarrow> [c] | e # s' \<Rightarrow> c # e # compact_scan True s') else c # compact_scan (c \<noteq> quote) s)
     else if json_ws c then compact_scan False s else c # compact_scan (c = quote) s)"
  unfolding compact_scan.simps(2) using assms(2) by (simp only: of_char_uE2 [OF assms(1)] if_False)

lemma hex_char_safe:
  assumes "d < 16"
  shows "of_char (hex_char d) < (128 :: nat)" "hex_char d \<notin> set ''<>&''" "hex_char d \<noteq> quote" "hex_char d \<noteq> backslash"
proof -
  have n: "(of_char (hex_char d) :: nat) = (if d < 10 then 48 + d else 87 + d)" using assms by (simp add: hex_char_def)
  then show "of_char (hex_char d) < (128 :: nat)" using assms by simp
  have "hex_char d \<noteq> c" if "of_char c < (48 :: nat) \<or> of_char c \<in> {60 :: nat, 62, 92}" for c
    using n that assms by (auto split: if_splits)
  then show "hex_char d \<notin> set ''<>&''" "hex_char d \<noteq> quote" "hex_char d \<noteq> backslash"
    by (simp_all add: quote_def backslash_def)
qed

lemma compact_hex_escape: "compact_scan True (hex_escape u @ t) = hex_escape u @ compact_scan True t"
proof -
  have b: "of_char backslash < (128 :: nat)" "backslash \<notin> set ''<>&''" by (simp_all add: backslash_def)
  have h: "compact_scan True (hex_char (n mod 16) # s) = hex_char (n mod 16) # compact_scan True s" for n s
    using hex_char_safe [of "n mod 16"] by (subst compact_plain) simp_all
  show ?thesis unfolding hex_escape_def append_Cons append_Nil
    by (subst compact_plain [OF b]) (simp only: h list.case if_True simp_thms)
qed

lemma compact_escape_char:
  assumes "of_char c < (128 :: nat)"
  shows "compact_scan True (json_escape_char c @ t) = json_escape_char c @ compact_scan True t"
proof -
  have b: "of_char backslash < (128 :: nat)" "backslash \<notin> set ''<>&''" by (simp_all add: backslash_def)
  have e: "compact_scan True (backslash # e # s) = backslash # e # compact_scan True s" for e s
    by (subst compact_plain [OF b]) simp
  show ?thesis
  proof (cases "json_escape_char c = [c]")
    case True
    then have "c \<notin> set ''<>&''" "c \<noteq> quote" "c \<noteq> backslash"
      by (auto simp: json_escape_char_def hex_escape_def quote_def backslash_def split: if_splits)
    with True assms show ?thesis by (simp add: compact_plain del: compact_scan.simps)
  next
    case False
    then have "(\<exists>e. json_escape_char c = [backslash, e]) \<or> json_escape_char c = hex_escape (of_char c)"
      by (auto simp: json_escape_char_def split: option.splits if_splits)
    then show ?thesis using e compact_hex_escape by (auto simp del: compact_scan.simps)
  qed
qed

lemma compact_quote:
  assumes "ascii s"
  shows "compact_scan False (json_quote s @ t) = json_quote s @ compact_scan False t"
proof -
  have q: "of_char quote < (128 :: nat)" "quote \<notin> set ''<>&''" "quote \<noteq> backslash" by (simp_all add: quote_def backslash_def)
  have "compact_scan True (concat (map json_escape_char s) @ quote # t) = concat (map json_escape_char s) @ quote # compact_scan False t"
    using assms
  proof (induction s)
    case Nil
    then show ?case using q by (simp add: compact_plain del: compact_scan.simps)
  next
    case (Cons c s)
    then show ?case by (simp add: compact_escape_char del: compact_scan.simps)
  qed
  then show ?thesis using q
    by (simp add: json_quote_def json_escape_ascii [OF assms] compact_plain del: compact_scan.simps)
qed


definition number_char :: "char \<Rightarrow> bool" where
  "number_char c \<longleftrightarrow> is_digit c \<or> c \<in> set ''eE+-.''"

lemma digits_number: "list_all number_char (takeWhile is_digit s)"
  by (auto simp: list_all_iff number_char_def dest: set_takeWhileD)

lemma jnum_exp_chars: "jnum_exp s = Some (e, t) \<Longrightarrow> list_all number_char e"
  using digits_number by (auto simp: jnum_exp_def Let_def number_char_def split: list.splits if_splits)

lemma jnum_frac_chars: "jnum_frac s = Some (e, t) \<Longrightarrow> list_all number_char e"
  using digits_number by (auto simp: jnum_frac_def Let_def number_char_def split: list.splits if_splits)

lemma jnumber_chars:
  assumes "jnumber s = Some (e, t)"
  shows "list_all number_char e"
proof -
  define sg where "sg = (if s \<noteq> [] \<and> hd s = CHR ''-'' then [hd s] else [])"
  define s1 where "s1 = drop (length sg) s"
  define ds where "ds = (if s1 \<noteq> [] \<and> hd s1 = CHR ''0'' then [hd s1] else takeWhile is_digit s1)"
  obtain fr s2 ex where j: "jnum_frac (drop (length ds) s1) = Some (fr, s2)" "jnum_exp s2 = Some (ex, t)"
    "e = sg @ ds @ fr @ ex"
    using assms unfolding jnumber_def Let_def sg_def [symmetric] s1_def [symmetric] ds_def [symmetric]
    by (auto split: if_splits option.splits prod.splits)
  have "list_all number_char sg" by (simp add: sg_def number_char_def)
  moreover have "list_all number_char ds" using digits_number by (simp add: ds_def number_char_def is_digit_def)
  ultimately show ?thesis using jnum_frac_chars [OF j(1)] jnum_exp_chars [OF j(2)] by (simp add: j(3))
qed

lemma number_char_safe:
  assumes "number_char c"
  shows "of_char c < (128 :: nat)" "c \<notin> set ''<>&''" "c \<noteq> quote" "\<not> json_ws c"
  using assms by (auto simp: number_char_def is_digit_def quote_def json_ws_def)

lemma compact_number:
  assumes "jnumber s = Some (s, [])"
  shows "compact_scan False (s @ t) = s @ compact_scan False t"
proof -
  have "compact_scan False (u @ t) = u @ compact_scan False t" if "list_all number_char u" for u
    using that
  proof (induction u)
    case (Cons c u)
    then show ?case
      using number_char_safe [of c] by (simp add: compact_plain del: compact_scan.simps)
  qed simp
  then show ?thesis using jnumber_chars [OF assms] by blast
qed

function json_ascii :: "json \<Rightarrow> bool" where
  "json_ascii JvNull = True"
| "json_ascii (JvBool b) = True"
| "json_ascii (JvNum s) = True"
| "json_ascii (JvStr s) = ascii s"
| "json_ascii (JvArr vs) = (\<forall>v \<in> set vs. json_ascii v)"
| "json_ascii (JvObj ms) = (\<forall>m \<in> set ms. ascii (fst m) \<and> json_ascii (snd (snd m)))"
  by pat_completeness auto

termination
  by (relation "measure size")
    (auto dest: size_list_estimation' [where f = size, OF _ order_refl] json_member_size simp: less_Suc_eq_le)

text \<open>A marshalled value is already compact.\<close>

lemma compact_punct:
  "c \<in> set ''{}[],:'' \<Longrightarrow> compact_scan False (c # t) = c # compact_scan False t"
  by (auto simp: compact_plain quote_def simp del: compact_scan.simps)

lemma compact_commas:
  assumes "\<forall>w\<in>set ws. \<forall>t. compact_scan False (w @ t) = w @ compact_scan False t"
  shows "compact_scan False (Join_commas ws @ t) = Join_commas ws @ compact_scan False t"
  using assms by (induction ws rule: Join_commas.induct) (simp_all add: compact_punct del: compact_scan.simps(2))

lemma compact_print: "json_wf d v \<Longrightarrow> json_ascii v \<Longrightarrow> compact_scan False (json_print v @ t) = json_print v @ compact_scan False t"
proof (induction d v arbitrary: t rule: json_wf.induct)
  case (5 d vs)
  have "compact_scan False (Join_commas (map json_print vs) @ s) = Join_commas (map json_print vs) @ compact_scan False s" for s
    by (rule compact_commas) (use 5 in auto)
  then show ?case by (simp add: array_text_def compact_punct del: compact_scan.simps)
next
  case (6 d ms)
  have "compact_scan False (Join_commas (map (\<lambda>(k, t). json_quote k @ CHR '':'' # t) (map (\<lambda>m. (fst m, json_print (snd (snd m)))) ms)) @ s) =
      Join_commas (map (\<lambda>(k, t). json_quote k @ CHR '':'' # t) (map (\<lambda>m. (fst m, json_print (snd (snd m)))) ms)) @ compact_scan False s" for s
    by (rule compact_commas) (use 6 in \<open>auto simp: compact_quote compact_punct simp del: compact_scan.simps\<close>)
  then show ?case by (simp add: object_text_def compact_punct del: compact_scan.simps)
qed (auto simp: compact_quote compact_number compact_plain quote_def json_ws_def simp del: compact_scan.simps)

lemma raw_Marshal_print:
  assumes "json_wf 0 v" "json_ascii v"
  shows "raw_Marshal (json_print v) = Some (json_print v)"
proof -
  have "json_print v \<noteq> []" using json_print_text [OF assms(1)] by (simp add: json_text_def)
  then show ?thesis using compact_print [OF assms, of "[]"] json_print_Unmarshal [OF assms(1)] by (simp add: raw_Marshal_def)
qed

lemma b64_raw_Nil: "b64_raw al bs = [] \<longleftrightarrow> bs = []"
  by (cases "(al, bs)" rule: b64_raw.cases) (simp_all add: Let_def)

lemma b64_std_encode_Nil: "b64_std_encode bs = [] \<longleftrightarrow> bs = []"
  by (auto simp: b64_std_encode_def b64_raw_Nil)

lemma ascii_b64: "ascii (b64_raw al bs)"
proof -
  have "of_char c < (128 :: nat)" if "b64_val al c \<noteq> None" for c
    using that by (cases al) (auto simp: b64_val_def Let_def split: if_splits)
  then show ?thesis using b64_raw_chars [of al bs] by (auto simp: ascii_def b64_chars_def list_all_iff)
qed

lemma b64_raw_length: "length (b64_raw al bs) \<le> 2 * length bs"
  by (induction al bs rule: b64_raw.induct) (simp_all add: Let_def)

lemma json_quote_length: "ascii s \<Longrightarrow> length (json_quote s) \<le> 6 * length s + 2"
proof -
  have "length (json_escape_char c) \<le> 6" for c
    by (simp add: json_escape_char_def hex_escape_def split: option.split)
  then have "length (concat (map json_escape_char t)) \<le> 6 * length t" for t
    by (induction t) (simp_all add: add_mono)
  then show "ascii s \<Longrightarrow> length (json_quote s) \<le> 6 * length s + 2"
    by (simp add: json_quote_def json_escape_ascii)
qed

lemma json_quote_plain: "list_all (\<lambda>c. of_char c < (128 :: nat) \<and> json_escape_char c = [c]) s \<Longrightarrow> json_quote s = quote # s @ [quote]"
  by (simp add: json_quote_def, induction s) (simp_all add: json_escape.simps(2))

subsection \<open>Instants (\<open>time.Time\<close>)\<close>

text \<open>\<open>Time.MarshalJSON\<close> in UTC: RFC 3339 with the fraction's trailing zeros dropped; a year outside
  four digits is an error. \<open>civil\<close> is the Gregorian date of a day number counted from 1970-01-01.\<close>

definition civil :: "int \<Rightarrow> int \<times> int \<times> int" where
  "civil days =
     (let z = days + 719468; era = z div 146097; doe = z mod 146097;
          yoe = (doe - doe div 1460 + doe div 36524 - doe div 146096) div 365;
          doy = doe - (365 * yoe + yoe div 4 - yoe div 100);
          mp = (5 * doy + 2) div 153;
          d = doy - (153 * mp + 2) div 5 + 1;
          m = (if mp < 10 then mp + 3 else mp - 9);
          y = yoe + era * 400 + (if m \<le> 2 then 1 else 0)
      in (y, m, d))"

definition pad :: "nat \<Rightarrow> int \<Rightarrow> string" where
  "pad k n = (let s = show_nat (nat n) in replicate (k - length s) (CHR ''0'') @ s)"

definition time_text :: "time \<Rightarrow> string" where
  "time_text t =
     (let secs = t div 1000000000; (y, m, d) = civil (secs div 86400); sod = secs mod 86400;
          frac = rev (dropWhile (\<lambda>c. c = CHR ''0'') (rev (pad 9 (t mod 1000000000))))
      in pad 4 y @ ''-'' @ pad 2 m @ ''-'' @ pad 2 d @ ''T'' @ pad 2 (sod div 3600) @ '':'' @
         pad 2 (sod div 60 mod 60) @ '':'' @ pad 2 (sod mod 60) @ (if frac = [] then [] else CHR ''.'' # frac) @ ''Z'')"

definition time_Marshal :: "time \<Rightarrow> string option" where
  "time_Marshal t =
     (let y = fst (civil (t div 1000000000 div 86400))
      in if y < 0 \<or> 9999 < y then None else Some (json_quote (time_text t)))"

lemma ascii_pad: "ascii (pad k n)"
proof -
  have "ascii (show_nat m)" for m
    using show_nat_digits [of m] by (auto simp: ascii_def list_all_iff is_digit_def)
  then show ?thesis by (auto simp: pad_def Let_def ascii_def list_all_iff)
qed

lemma ascii_time_text: "ascii (time_text t)"
proof -
  have "ascii (rev (dropWhile P (rev (pad k n))))" for P k n
    using ascii_pad [of k n] by (auto simp: ascii_def list_all_iff dest: set_dropWhileD)
  then show ?thesis by (simp add: time_text_def Let_def ascii_pad split: prod.split)
qed

lemma time_Marshal_text: "time_Marshal t = Some s \<Longrightarrow> s = json_quote (time_text t)"
  by (simp add: time_Marshal_def Let_def split: if_splits)

declare utf8_valid.simps(2) [simp del] json_escape.simps(2) [simp del] compact_scan.simps(2) [simp del]

end
