(* ===== verification/Pulse_Agent.thy ===== *)
theory Pulse_Agent
  imports Pulse_Agents Pulse_Buffer Go_Json_Print
begin

section \<open>The agent: signed client, credential, send loop\<close>

text \<open>
  \<^verbatim>\<open>agent/internal/protocol/client.go\<close> and \<^verbatim>\<open>agent/cmd/pulse-agent/main.go\<close>. The world outside
  the process is a \<open>host\<close> over a state \<open>'w\<close>: the clock, the random source, the network, the timers
  and the identity file, each a function of that state. A context is part of the host: once it is
  cancelled or past its deadline, exchanges fail and waits report it. Log lines are left out.
\<close>

subsection \<open>The host\<close>

record out_request =
  or_URL :: string
  or_Header :: "string \<Rightarrow> string list"
  or_Body :: bytes

record reply =
  rp_StatusCode :: nat
  rp_Status :: string
  rp_Body :: bytes

record identity =
  id_InstallationID :: string
  id_ServerID :: string
  id_AgentID :: string
  id_PublicKey :: string
  id_PrivateKey :: string
  id_Enrolled :: bool

text \<open>\<open>h_do\<close> is \<open>http.Client.Do\<close> (\<open>None\<close>: a transport error); \<open>h_wait\<close> the \<open>select\<close> between a
  timer and the context (true: the context ended first); \<open>h_rand\<close> a buffer after \<open>rand.Read\<close>;
  \<open>h_url_ok\<close> whether \<open>http.NewRequest\<close> accepts a URL; \<open>h_sign\<close> is \<open>ed25519.Sign\<close>.\<close>

record 'w host =
  h_now :: "'w \<Rightarrow> time \<times> 'w"
  h_rand :: "nat \<Rightarrow> 'w \<Rightarrow> bytes \<times> 'w"
  h_do :: "out_request \<Rightarrow> 'w \<Rightarrow> reply option \<times> 'w"
  h_wait :: "duration \<Rightarrow> 'w \<Rightarrow> bool \<times> 'w"
  h_save :: "identity \<Rightarrow> 'w \<Rightarrow> bool \<times> 'w"
  h_url_ok :: "string \<Rightarrow> bool"
  h_sign :: "bytes \<Rightarrow> bytes \<Rightarrow> bytes"
  h_sha256 :: "bytes \<Rightarrow> bytes"
  h_Hostname :: string
  h_GOOS :: string
  h_GOARCH :: string

datatype send_error =
    ErrUnauthorized string
  | ErrReenrollUnsupported
  | ErrMarshal
  | ErrRequest
  | ErrTransport
  | ErrContext
  | ErrStatus nat
  | ErrEnroll string
  | ErrReenroll string
  | ErrDecode
  | ErrAttempts string nat "send_error option"

fun is_unauthorized :: "send_error \<Rightarrow> bool" where
  "is_unauthorized (ErrUnauthorized m) = True"
| "is_unauthorized (ErrAttempts t n (Some e)) = is_unauthorized e"
| "is_unauthorized _ = False"

subsection \<open>Protocol client\<close>

definition Protocol :: string where "Protocol = ''1.0''"
definition agent_Version :: string where "agent_Version = ''0.1.0-dev''"

definition UserAgent :: string where
  "UserAgent = ''pulse-agent/'' @ agent_Version @ '' (protocol '' @ Protocol @ '')''"

definition enrollPath :: string where "enrollPath = ''/api/v1/agents/enroll''"
definition client_reenrollPath :: string where "client_reenrollPath = ''/api/v1/agents/reenroll''"
definition client_ingestPath :: string where "client_ingestPath = ''/api/v1/agents/ingest''"

definition omitempty :: "string \<Rightarrow> string \<Rightarrow> (string \<times> json) list" where
  "omitempty k s = (if s = [] then [] else [(k, JvStr s)])"

text \<open>A map is marshalled with its keys sorted.\<close>

definition hostFingerprint :: "'w host \<Rightarrow> json" where
  "hostFingerprint h = jobject [(''arch'', JvStr (h_GOARCH h)), (''hostname'', JvStr (h_Hostname h)), (''os'', JvStr (h_GOOS h))]"

definition EnrollRequest :: "string \<Rightarrow> identity \<Rightarrow> json \<Rightarrow> json" where
  "EnrollRequest token i fingerprint = jobject
     [(''enrollment_token'', JvStr token), (''installation_id'', JvStr (id_InstallationID i)),
      (''public_key'', JvStr (id_PublicKey i)), (''protocol_version'', JvStr Protocol), (''fingerprint'', fingerprint)]"

definition ReenrollRequest :: "string \<Rightarrow> identity \<Rightarrow> json \<Rightarrow> json" where
  "ReenrollRequest token i fingerprint = jobject
     ([(''installation_id'', JvStr (id_InstallationID i)), (''public_key'', JvStr (id_PublicKey i))] @
      omitempty ''previous_agent_id'' (id_AgentID i) @
      [(''protocol_version'', JvStr Protocol), (''fingerprint'', fingerprint)] @
      omitempty ''enrollment_token'' token)"

record enroll_response =
  er_ServerID :: string
  er_AgentID :: string
  er_Protocol :: string

definition decode_reply :: "reply \<Rightarrow> (string \<times> field_type) list \<Rightarrow> members option" where
  "decode_reply p fs = (case json_Decode (bytes_str (rp_Body p)) of None \<Rightarrow> None | Some j \<Rightarrow> decode_struct False fs j)"

definition EnrollResponse :: "reply \<Rightarrow> send_error + enroll_response" where
  "EnrollResponse p =
     (case decode_reply p [(''server_id'', FString), (''agent_id'', FString), (''protocol'', FString)] of
        None \<Rightarrow> Inl ErrDecode
      | Some ms \<Rightarrow> Inr \<lparr>er_ServerID = get_string ''server_id'' ms, er_AgentID = get_string ''agent_id'' ms,
          er_Protocol = get_string ''protocol'' ms\<rparr>)"

definition serverMessage :: "reply \<Rightarrow> string" where
  "serverMessage p =
     (case json_Decode (bytes_str (take 8192 (rp_Body p))) of
        None \<Rightarrow> rp_Status p
      | Some j \<Rightarrow>
          (case decode_struct False [(''error'', FStruct [(''message'', FString)])] j of
             None \<Rightarrow> rp_Status p
           | Some ms \<Rightarrow>
               let m = get_string ''message'' (get_object ''error'' ms)
               in if m = [] then rp_Status p else m))"

definition newNonce :: "'w host \<Rightarrow> 'w \<Rightarrow> string \<times> 'w" where
  "newNonce h w = (let (b, w1) = h_rand h 16 w in (b64_raw B64URL b, w1))"

definition header_Set :: "string \<Rightarrow> string \<Rightarrow> (string \<Rightarrow> string list) \<Rightarrow> string \<Rightarrow> string list" where
  "header_Set k v hs = hs(k := [v])"

definition new_request :: "string \<Rightarrow> bytes \<Rightarrow> out_request" where
  "new_request url body = \<lparr>or_URL = url, or_Header = (\<lambda>_. []), or_Body = body\<rparr>"

definition signRequest :: "'w host \<Rightarrow> out_request \<Rightarrow> bytes \<Rightarrow> string \<Rightarrow> string \<Rightarrow> bytes \<Rightarrow> 'w \<Rightarrow> out_request \<times> 'w" where
  "signRequest h req signer agentID path payload w =
     (let (t, w1) = h_now h w;
          ts = Itoa (t div 1000000);
          (nonce, w2) = newNonce h w1;
          signingInput = ''POST|'' @ path @ ''|'' @ ts @ ''|'' @ nonce @ ''|'' @ hex_encode (h_sha256 h payload);
          sig = h_sign h signer (str_bytes signingInput)
      in (req\<lparr>or_Header :=
            header_Set ''X-Pulse-Signature'' (b64_std_encode sig)
           (header_Set ''X-Pulse-Nonce'' nonce
           (header_Set ''X-Pulse-Timestamp'' ts
           (header_Set ''X-Pulse-Agent-Id'' agentID
           (header_Set ''User-Agent'' UserAgent
           (header_Set ''Content-Type'' ''application/json'' (or_Header req))))))\<rparr>, w2))"

definition Enroll :: "'w host \<Rightarrow> string \<Rightarrow> json \<Rightarrow> 'w \<Rightarrow> (send_error + enroll_response) \<times> 'w" where
  "Enroll h baseURL req w =
     (let url = baseURL @ enrollPath; body = str_bytes (json_print req) in
      if \<not> h_url_ok h url then (Inl ErrRequest, w)
      else
        let r = (new_request url body)\<lparr>or_Header := header_Set ''User-Agent'' UserAgent
                   (header_Set ''Content-Type'' ''application/json'' (\<lambda>_. []))\<rparr>
        in case h_do h r w of
             (None, w1) \<Rightarrow> (Inl ErrTransport, w1)
           | (Some p, w1) \<Rightarrow>
               if 300 \<le> rp_StatusCode p then (Inl (ErrEnroll (serverMessage p)), w1)
               else (EnrollResponse p, w1))"

definition Reenroll :: "'w host \<Rightarrow> string \<Rightarrow> bytes \<Rightarrow> string \<Rightarrow> json \<Rightarrow> 'w \<Rightarrow> (send_error + enroll_response) \<times> 'w" where
  "Reenroll h baseURL signer previousAgentID req w =
     (let url = baseURL @ client_reenrollPath; payload = str_bytes (json_print req) in
      if \<not> h_url_ok h url then (Inl ErrRequest, w)
      else
        let (r, w1) = signRequest h (new_request url payload) signer previousAgentID client_reenrollPath payload w
        in case h_do h r w1 of
             (None, w2) \<Rightarrow> (Inl ErrTransport, w2)
           | (Some p, w2) \<Rightarrow>
               if rp_StatusCode p = 404 then (Inl ErrReenrollUnsupported, w2)
               else if rp_StatusCode p = 401 \<or> rp_StatusCode p = 403 then (Inl (ErrUnauthorized (serverMessage p)), w2)
               else if 300 \<le> rp_StatusCode p then (Inl (ErrReenroll (serverMessage p)), w2)
               else (EnrollResponse p, w2))"

record client =
  cl_baseURL :: string
  cl_agentID :: string
  cl_signer :: bytes

definition NewClient :: "string \<Rightarrow> string \<Rightarrow> bytes \<Rightarrow> client" where
  "NewClient baseURL agentID signer = \<lparr>cl_baseURL = baseURL, cl_agentID = agentID, cl_signer = signer\<rparr>"

definition Rebind :: "string \<Rightarrow> client \<Rightarrow> client" where
  "Rebind agentID c = c\<lparr>cl_agentID := agentID\<rparr>"

definition doSigned :: "'w host \<Rightarrow> client \<Rightarrow> string \<Rightarrow> bytes \<Rightarrow> 'w \<Rightarrow> send_error option \<times> 'w" where
  "doSigned h c path payload w =
     (let url = cl_baseURL c @ path in
      if \<not> h_url_ok h url then (Some ErrRequest, w)
      else
        let (r, w1) = signRequest h (new_request url payload) (cl_signer c) (cl_agentID c) path payload w
        in case h_do h r w1 of
             (None, w2) \<Rightarrow> (Some ErrTransport, w2)
           | (Some p, w2) \<Rightarrow>
               if rp_StatusCode p = 401 \<or> rp_StatusCode p = 403 then (Some (ErrUnauthorized (serverMessage p)), w2)
               else if 300 \<le> rp_StatusCode p then (Some (ErrStatus (rp_StatusCode p)), w2)
               else (None, w2))"

definition backoff :: "nat \<Rightarrow> byte \<Rightarrow> duration" where
  "backoff attempt jitter =
     min (30 * second) (2 ^ attempt * 250 * 1000000 + int (unat jitter) * 1000000)"

definition sleepBackoff :: "'w host \<Rightarrow> nat \<Rightarrow> 'w \<Rightarrow> send_error option \<times> 'w" where
  "sleepBackoff h attempt w =
     (let (b, w1) = h_rand h 2 w;
          (done, w2) = h_wait h (backoff attempt (hd b)) w1
      in (if done then Some ErrContext else None, w2))"

definition Envelope :: "string \<Rightarrow> string \<Rightarrow> time \<Rightarrow> string \<Rightarrow> string option" where
  "Envelope msgType agentID now raw =
     (case (time_Marshal now, raw_Marshal raw) of
        (Some ts, Some body) \<Rightarrow>
          Some (object_text [(''type'', json_quote msgType), (''agent_id'', json_quote agentID), (''protocol'', json_quote Protocol),
            (''timestamp'', ts), (''body'', body)])
      | _ \<Rightarrow> None)"

definition maxAttempts :: nat where "maxAttempts = 5"

text \<open>The attempts of \<open>Send\<close>: \<open>left\<close> of them remain, \<open>attempt\<close> were made.\<close>

fun send_attempts :: "'w host \<Rightarrow> client \<Rightarrow> string \<Rightarrow> bytes \<Rightarrow> nat \<Rightarrow> nat \<Rightarrow> send_error option \<Rightarrow> 'w \<Rightarrow> send_error option \<times> 'w" where
  "send_attempts h c msgType payload 0 attempt lastErr w = (Some (ErrAttempts msgType maxAttempts lastErr), w)"
| "send_attempts h c msgType payload (Suc left) attempt lastErr w =
     (case (if 0 < attempt then sleepBackoff h attempt w else (None, w)) of
        (Some e, w1) \<Rightarrow> (Some e, w1)
      | (None, w1) \<Rightarrow>
          (case doSigned h c client_ingestPath payload w1 of
             (None, w2) \<Rightarrow> (None, w2)
           | (Some e, w2) \<Rightarrow>
               if is_unauthorized e then (Some e, w2)
               else send_attempts h c msgType payload left (Suc attempt) (Some e) w2))"

text \<open>\<open>Send\<close>: \<open>raw\<close> is the result of marshalling the body.\<close>

definition Send :: "'w host \<Rightarrow> client \<Rightarrow> string \<Rightarrow> string option \<Rightarrow> 'w \<Rightarrow> send_error option \<times> 'w" where
  "Send h c msgType raw w =
     (case raw of
        None \<Rightarrow> (Some ErrMarshal, w)
      | Some body \<Rightarrow>
          let (now, w1) = h_now h w in
          (case Envelope msgType (cl_agentID c) now body of
             None \<Rightarrow> (Some ErrMarshal, w1)
           | Some env \<Rightarrow> send_attempts h c msgType (str_bytes env) maxAttempts 0 None w1))"

subsection \<open>The agent's credential\<close>

definition credentialRetryEvery :: duration where "credentialRetryEvery = 60 * second"
definition credentialRefusedRetryEvery :: duration where "credentialRefusedRetryEvery = 15 * 60 * second"

record enrollment =
  en_Identity :: identity
  en_APIURL :: string
  en_EnrollmentToken :: string
  en_signer :: bytes
  en_client :: client
  en_rejected :: bool
  en_refusedLogged :: bool
  en_nextAttempt :: time

definition enrol_ready :: "enrollment \<Rightarrow> bool" where
  "enrol_ready e \<longleftrightarrow> id_Enrolled (en_Identity e) \<and> \<not> en_rejected e"

definition enrol_due :: "time \<Rightarrow> enrollment \<Rightarrow> bool" where
  "enrol_due now e \<longleftrightarrow> \<not> time_Before now (en_nextAttempt e)"

definition enrol_adopt :: "'w host \<Rightarrow> enroll_response \<Rightarrow> enrollment \<Rightarrow> 'w \<Rightarrow> enrollment \<times> 'w" where
  "enrol_adopt h resp e w =
     (let i = (en_Identity e)\<lparr>id_ServerID := er_ServerID resp, id_AgentID := er_AgentID resp, id_Enrolled := True\<rparr>;
          (ok, w1) = h_save h i w
      in (e\<lparr>en_Identity := i, en_rejected := False, en_refusedLogged := False,
            en_client := Rebind (er_AgentID resp) (en_client e)\<rparr>, w1))"

definition enrol_enroll :: "'w host \<Rightarrow> enrollment \<Rightarrow> 'w \<Rightarrow> bool \<times> enrollment \<times> 'w" where
  "enrol_enroll h e w =
     (if en_EnrollmentToken e = [] then (False, e, w)
      else case Enroll h (en_APIURL e) (EnrollRequest (en_EnrollmentToken e) (en_Identity e) (hostFingerprint h)) w of
             (Inl _, w1) \<Rightarrow> (False, e, w1)
           | (Inr resp, w1) \<Rightarrow> (True, enrol_adopt h resp e w1))"

definition enrol_recover :: "'w host \<Rightarrow> enrollment \<Rightarrow> 'w \<Rightarrow> bool \<times> enrollment \<times> 'w" where
  "enrol_recover h e w =
     (case Reenroll h (en_APIURL e) (en_signer e) (id_AgentID (en_Identity e))
             (ReenrollRequest (en_EnrollmentToken e) (en_Identity e) (hostFingerprint h)) w of
        (Inr resp, w1) \<Rightarrow> (True, enrol_adopt h resp e w1)
      | (Inl err, w1) \<Rightarrow>
          if err = ErrReenrollUnsupported then enrol_enroll h e w1
          else if is_unauthorized err then
            let (now, w2) = h_now h w1
            in (False, e\<lparr>en_nextAttempt := now + credentialRefusedRetryEvery, en_refusedLogged := True\<rparr>, w2)
          else (False, e, w1))"

definition enrol_attempt :: "'w host \<Rightarrow> enrollment \<Rightarrow> 'w \<Rightarrow> bool \<times> enrollment \<times> 'w" where
  "enrol_attempt h e w =
     (let (now, w1) = h_now h w; e1 = e\<lparr>en_nextAttempt := now + credentialRetryEvery\<rparr>
      in if id_Enrolled (en_Identity e1) then enrol_recover h e1 w1 else enrol_enroll h e1 w1)"

definition enrol_send :: "'w host \<Rightarrow> string \<Rightarrow> string option \<Rightarrow> enrollment \<Rightarrow> 'w \<Rightarrow> send_error option \<times> enrollment \<times> 'w" where
  "enrol_send h msgType raw e w =
     (case Send h (en_client e) msgType raw w of
        (None, w1) \<Rightarrow> (None, e, w1)
      | (Some err, w1) \<Rightarrow>
          if \<not> is_unauthorized err then (Some err, e, w1)
          else
            let e1 = e\<lparr>en_rejected := True\<rparr>; (now, w2) = h_now h w1 in
            if \<not> enrol_due now e1 then (Some err, e1, w2)
            else (case enrol_attempt h e1 w2 of
                (False, e2, w3) \<Rightarrow> (Some err, e2, w3)
              | (True, e2, w3) \<Rightarrow>
                  let (res, w4) = Send h (en_client e2) msgType raw w3 in (res, e2, w4)))"

subsection \<open>The main loop\<close>

fun flush_items :: "'w host \<Rightarrow> item list \<Rightarrow> enrollment \<Rightarrow> ring_buffer \<Rightarrow> 'w \<Rightarrow> enrollment \<times> ring_buffer \<times> 'w" where
  "flush_items h [] e b w = (e, b, w)"
| "flush_items h (it # its) e b w =
     (case enrol_send h ''metrics'' (raw_Marshal (bytes_str (it_Payload it))) e w of
        (Some _, e1, w1) \<Rightarrow> (e1, Push it b, w1)
      | (None, e1, w1) \<Rightarrow> flush_items h its e1 b w1)"

definition flushBuffer :: "'w host \<Rightarrow> enrollment \<Rightarrow> ring_buffer \<Rightarrow> 'w \<Rightarrow> enrollment \<times> ring_buffer \<times> 'w" where
  "flushBuffer h e b w = (let (items, b1) = Drain b in flush_items h items e b1 w)"

text \<open>The tickers of the loop. A tick carries what was sampled: the marshalled sample, snapshot or log
  entries (\<open>None\<close> for log entries: there were none). \<open>enrol\<close> is \<open>None\<close> in local mode.\<close>

datatype tick =
    CredentialTick
  | DiscoveryTick "string option"
  | LogsTick "string option"
  | MetricsTick "string option"

record agent_main =
  am_enrol :: "enrollment option"
  am_buffer :: ring_buffer

definition metrics_tick :: "'w host \<Rightarrow> string option \<Rightarrow> enrollment \<Rightarrow> ring_buffer \<Rightarrow> 'w \<Rightarrow> enrollment \<times> ring_buffer \<times> 'w" where
  "metrics_tick h sample e b w =
     (case enrol_send h ''metrics'' sample e w of
        (Some _, e1, w1) \<Rightarrow>
          (e1, Push \<lparr>it_Priority = PriorityHistorical, it_Payload = (case sample of None \<Rightarrow> [] | Some t \<Rightarrow> str_bytes t)\<rparr> b, w1)
      | (None, e1, w1) \<Rightarrow> flushBuffer h e1 b w1)"

definition agent_tick :: "'w host \<Rightarrow> tick \<Rightarrow> agent_main \<times> 'w \<Rightarrow> agent_main \<times> 'w" where
  "agent_tick h k st =
     (case st of (a, w) \<Rightarrow>
        (case am_enrol a of
           None \<Rightarrow> (a, w)
         | Some e \<Rightarrow>
             (case k of
                CredentialTick \<Rightarrow>
                  if enrol_ready e then (a, w)
                  else let (now, w1) = h_now h w in
                    if enrol_due now e
                    then (case enrol_attempt h e w1 of (_, e1, w2) \<Rightarrow> (a\<lparr>am_enrol := Some e1\<rparr>, w2))
                    else (a, w1)
              | DiscoveryTick snap \<Rightarrow>
                  (case enrol_send h ''discovery'' snap e w of (_, e1, w1) \<Rightarrow> (a\<lparr>am_enrol := Some e1\<rparr>, w1))
              | LogsTick None \<Rightarrow> (a, w)
              | LogsTick (Some t) \<Rightarrow>
                  (case enrol_send h ''logs'' (Some t) e w of (_, e1, w1) \<Rightarrow> (a\<lparr>am_enrol := Some e1\<rparr>, w1))
              | MetricsTick sample \<Rightarrow>
                  (case metrics_tick h sample e (am_buffer a) w of
                     (e1, b1, w1) \<Rightarrow> (\<lparr>am_enrol = Some e1, am_buffer = b1\<rparr>, w1)))))"

text \<open>Before the loop: up to five attempts at a first credential, three seconds apart. The flag is
  false when the context ended meanwhile.\<close>

fun startup :: "'w host \<Rightarrow> nat \<Rightarrow> enrollment \<Rightarrow> 'w \<Rightarrow> bool \<times> enrollment \<times> 'w" where
  "startup h 0 e w = (True, e, w)"
| "startup h (Suc left) e w =
     (if enrol_ready e \<or> en_EnrollmentToken e = [] then (True, e, w)
      else case enrol_attempt h e w of
          (True, e1, w1) \<Rightarrow> (True, e1, w1)
        | (False, e1, w1) \<Rightarrow>
            let (done, w2) = h_wait h (3 * second) w1
            in if done then (False, e1, w2) else startup h left e1 w2)"

end
