(* ===== verification/Pulse_Agent_Props.thy ===== *)
theory Pulse_Agent_Props
  imports Pulse_Agent
begin

section \<open>The agent and the control plane together\<close>

text \<open>
  What the agent of \<open>Pulse_Agent\<close> does, alone and against the handlers of \<open>Pulse_Agents\<close>: its
  signature is what the control plane verifies, its messages reach the store, a lost credential is
  recovered, the number of requests is bounded, and what the buffer keeps while the network is away.
\<close>

subsection \<open>The request as the control plane receives it\<close>

definition received :: "string \<Rightarrow> out_request \<Rightarrow> http_request" where
  "received remote r = \<lparr>rq_Method = ''POST'', rq_Path = or_URL r, rq_Header = or_Header r, rq_RemoteAddr = remote,
     rq_Cookie = None, rq_PathValue = (\<lambda>_. []), rq_Body = or_Body r\<rparr>"

text \<open>The key pair of an agent: what \<open>h_sign\<close> makes with the private key, the control plane's
  \<open>ed25519.Verify\<close> accepts for the public key.\<close>

definition key_pair :: "crypto \<Rightarrow> 'w host \<Rightarrow> bytes \<Rightarrow> bytes \<Rightarrow> bool" where
  "key_pair c h sk pub \<longleftrightarrow> length pub = 32 \<and> h_sha256 h = c_sha256 c \<and>
     (\<forall>msg. c_ed25519 c pub msg (h_sign h sk msg) \<and> length (h_sign h sk msg) = 64)"

lemma signRequest_headers:
  assumes "h_now h w = (t, w1)" and "h_rand h 16 w1 = (b, w2)" and "signRequest h r sk aid path payload w = (r', w')"
  shows "w' = w2" "or_URL r' = or_URL r" "or_Body r' = or_Body r"
    "header_Get (received remote r') ''X-Pulse-Agent-Id'' = aid"
    "header_Get (received remote r') ''X-Pulse-Timestamp'' = Itoa (t div 1000000)"
    "header_Get (received remote r') ''X-Pulse-Nonce'' = b64_raw B64URL b"
    "header_Get (received remote r') ''X-Pulse-Signature'' = b64_std_encode (h_sign h sk (str_bytes
       (''POST|'' @ path @ ''|'' @ Itoa (t div 1000000) @ ''|'' @ b64_raw B64URL b @ ''|'' @ hex_encode (h_sha256 h payload))))"
  using assms by (auto simp: signRequest_def newNonce_def Let_def header_Get_def received_def header_Set_def)

text \<open>Clocks apart by less than the window, counting that the timestamp is cut to milliseconds.\<close>

definition clocks_close :: "time \<Rightarrow> time \<Rightarrow> bool" where
  "clocks_close agent server \<longleftrightarrow> agent - server \<le> 60 * second \<and> server - agent \<le> 60 * second - 1000000 \<and>
     \<bar>agent\<bar> < 2 ^ 63 * 1000000"

lemma clocks_close_window:
  assumes "clocks_close t t0"
  shows "ParseInt10 (Itoa (t div 1000000)) = Some (t div 1000000)"
    "absDuration (time_Sub t0 (time_UnixMilli (t div 1000000))) \<le> 60 * second"
proof -
  have d: "t div 1000000 * 1000000 \<le> t" "t < t div 1000000 * 1000000 + 1000000" by presburger+
  have "\<bar>t0 - t div 1000000 * 1000000\<bar> \<le> 60 * second" using assms d by (auto simp: clocks_close_def)
  then show "absDuration (time_Sub t0 (time_UnixMilli (t div 1000000))) \<le> 60 * second"
    unfolding timestamp_window time_UnixMilli_def by blast
  have "- (2 ^ 63) \<le> t div 1000000" "t div 1000000 \<le> 2 ^ 63 - 1" using assms d by (auto simp: clocks_close_def)
  then show "ParseInt10 (Itoa (t div 1000000)) = Some (t div 1000000)" by (rule ParseInt10_Itoa)
qed

lemma Itoa_nonempty [simp]: "Itoa i \<noteq> []"
  by (simp add: Itoa_def)

lemma signed_verifies:
  assumes k: "key_pair c h sk pub" and now: "h_now h w = (t, w1)" and rnd: "h_rand h 16 w1 = (b, w2)"
    and req: "signRequest h r sk aid path payload w = (r', w')" and clocks: "clocks_close t t0"
    and fresh: "b \<noteq> []" "seen (b64_raw B64URL b) = None"
  shows "verifySignedRequest c t0 t1 (received remote r') payload (b64_std_encode pub) path seen =
    (None, snd (checkAndStore (b64_raw B64URL b) t1 seen))"
proof -
  note hs = signRequest_headers(4-7) [OF now rnd req, of remote]
  define sig where "sig = h_sign h sk (str_bytes (signing_input c path (Itoa (t div 1000000)) (b64_raw B64URL b) payload))"
  have s: "header_Get (received remote r') ''X-Pulse-Signature'' = b64_std_encode sig"
    using k by (simp add: hs sig_def signing_input_def key_pair_def)
  have sig: "c_ed25519 c pub (str_bytes (signing_input c path (Itoa (t div 1000000)) (b64_raw B64URL b) payload)) sig" "sig \<noteq> []"
    using k by (auto simp: key_pair_def sig_def simp flip: length_0_conv)
  have cs: "checkAndStore (b64_raw B64URL b) t1 seen = (True, snd (checkAndStore (b64_raw B64URL b) t1 seen))"
    using fresh by (simp add: checkAndStore_def Let_def)
  show ?thesis
    using clocks_close_window [OF clocks] k fresh sig
    unfolding verifySignedRequest_def Let_def s hs(2,3)
    by (subst cs) (simp add: key_pair_def b64_std_roundtrip b64_raw_Nil b64_std_encode_Nil not_less)
qed

text \<open>C26: the two ends of the protocol agree. Whatever the message, a request signed by the agent with
  its key passes the control plane's check of timestamp, nonce and signature, when the two clocks are
  within the window and the nonce was not seen.\<close>

theorem signed_request_verifies:
  assumes "key_pair c h sk pub" and "h_now h w = (t, w1)" and "h_rand h 16 w1 = (b, w2)" and "b \<noteq> []"
    and "clocks_close t t0" and "seen (b64_raw B64URL b) = None"
  shows "fst (verifySignedRequest c t0 t1 (received remote (fst (signRequest h r sk aid path payload w))) payload
    (b64_std_encode pub) path seen) = None"
proof -
  obtain r' w' where r: "signRequest h r sk aid path payload w = (r', w')" by fastforce
  show ?thesis using signed_verifies [OF assms(1-3) r assms(5,4), of seen] assms(6) by (simp add: r)
qed

definition demo_host :: "unit host" where
  "demo_host = \<lparr>h_now = (\<lambda>w. (1700000000123456789, w)), h_rand = (\<lambda>n w. (replicate n 7, w)), h_do = (\<lambda>_ w. (None, w)),
     h_wait = (\<lambda>_ w. (False, w)), h_save = (\<lambda>_ w. (True, w)), h_url_ok = (\<lambda>_. True), h_sign = (\<lambda>_ _. replicate 64 1),
     h_sha256 = (\<lambda>_. [0]), h_Hostname = ''web-1'', h_GOOS = ''linux'', h_GOARCH = ''amd64''\<rparr>"

theorem signed_request_verifies_witness:
  "fst (verifySignedRequest demo_crypto 1700000030000000000 1700000030000000001
     (received ''10.0.0.1:99'' (fst (signRequest demo_host (new_request ''https://p/x'' [1, 2]) [9] ''agt_1'' ingestPath [1, 2] ())))
     [1, 2] (b64_std_encode (replicate 32 5)) ingestPath Map.empty) = None"
  by (rule signed_request_verifies [where b = "replicate 16 7" and t = 1700000000123456789 and ?w1.0 = "()" and ?w2.0 = "()"])
    (simp_all add: key_pair_def demo_crypto_def demo_host_def clocks_close_def)

subsection \<open>How many requests one message can cause\<close>

text \<open>Any host, with the requests that go out counted.\<close>

definition counting :: "'w host \<Rightarrow> ('w \<times> nat) host" where
  "counting h = \<lparr>h_now = (\<lambda>(w, n). let (t, w1) = h_now h w in (t, (w1, n))),
     h_rand = (\<lambda>k (w, n). let (b, w1) = h_rand h k w in (b, (w1, n))),
     h_do = (\<lambda>r (w, n). let (p, w1) = h_do h r w in (p, (w1, Suc n))),
     h_wait = (\<lambda>d (w, n). let (b, w1) = h_wait h d w in (b, (w1, n))),
     h_save = (\<lambda>i (w, n). let (b, w1) = h_save h i w in (b, (w1, n))),
     h_url_ok = h_url_ok h, h_sign = h_sign h, h_sha256 = h_sha256 h, h_Hostname = h_Hostname h, h_GOOS = h_GOOS h, h_GOARCH = h_GOARCH h\<rparr>"

lemma counting_simps:
  "snd (snd (h_now (counting h) wn)) = snd wn" "snd (snd (h_rand (counting h) k wn)) = snd wn"
  "snd (snd (h_do (counting h) r wn)) = Suc (snd wn)" "snd (snd (h_wait (counting h) d wn)) = snd wn"
  "snd (snd (h_save (counting h) i wn)) = snd wn"
  by (simp_all add: counting_def Let_def split: prod.split)

lemma counting_sign: "snd (snd (signRequest (counting h) r sk aid path payload wn)) = snd wn"
  by (simp add: signRequest_def newNonce_def Let_def case_prod_unfold counting_simps)

lemma counting_doSigned: "snd (snd (doSigned (counting h) c path payload wn)) \<le> Suc (snd wn)"
  by (auto simp: doSigned_def Let_def case_prod_unfold counting_simps counting_sign split: option.split)

lemma counting_sleep: "snd (snd (sleepBackoff (counting h) k wn)) = snd wn"
  by (simp add: sleepBackoff_def Let_def case_prod_unfold counting_simps)

lemma counting_attempts: "snd (snd (send_attempts (counting h) c t payload left k l wn)) \<le> left + snd wn"
proof (induction left arbitrary: k l wn)
  case (Suc left)
  define p where "p = (if 0 < k then sleepBackoff (counting h) k wn else (None, wn))"
  have p: "snd (snd p) = snd wn" by (simp add: p_def counting_sleep)
  define q where "q = doSigned (counting h) c client_ingestPath payload (snd p)"
  have "snd (snd q) \<le> Suc (snd wn)" using counting_doSigned [of h c client_ingestPath payload "snd p"] by (simp add: q_def p)
  moreover note Suc [of "Suc k" "fst q" "snd q"]
  ultimately show ?case
    unfolding send_attempts.simps p_def [symmetric]
    by (auto simp: case_prod_unfold p q_def [symmetric] split: option.split)
qed simp

lemma counting_Send: "snd (snd (Send (counting h) c t raw wn)) \<le> 5 + snd wn"
  using counting_attempts [of h c t _ maxAttempts 0 None "snd (h_now (counting h) wn)"]
  by (auto simp: Send_def Let_def case_prod_unfold counting_simps maxAttempts_def split: option.split)

lemma counting_Enroll: "snd (snd (Enroll (counting h) url req wn)) \<le> Suc (snd wn)"
  by (auto simp: Enroll_def Let_def case_prod_unfold counting_simps split: option.split)

lemma counting_Reenroll: "snd (snd (Reenroll (counting h) url sk aid req wn)) \<le> Suc (snd wn)"
  by (auto simp: Reenroll_def Let_def case_prod_unfold counting_simps counting_sign split: option.split)

lemma counting_adopt: "snd (snd (enrol_adopt (counting h) resp e wn)) = snd wn"
  by (simp add: enrol_adopt_def Let_def case_prod_unfold counting_simps)

lemma counting_enroll: "snd (snd (snd (enrol_enroll (counting h) e wn))) \<le> Suc (snd wn)"
  using counting_Enroll [of h "en_APIURL e" "EnrollRequest (en_EnrollmentToken e) (en_Identity e) (hostFingerprint (counting h))" wn]
  by (auto simp: enrol_enroll_def case_prod_unfold counting_adopt split: sum.split)

lemma counting_recover: "snd (snd (snd (enrol_recover (counting h) e wn))) \<le> 2 + snd wn"
proof -
  define q where "q = Reenroll (counting h) (en_APIURL e) (en_signer e) (id_AgentID (en_Identity e))
    (ReenrollRequest (en_EnrollmentToken e) (en_Identity e) (hostFingerprint (counting h))) wn"
  have "snd (snd q) \<le> Suc (snd wn)" unfolding q_def by (rule counting_Reenroll)
  moreover have "snd (snd (snd (enrol_enroll (counting h) e (snd q)))) \<le> Suc (snd (snd q))" by (rule counting_enroll)
  ultimately show ?thesis
    unfolding enrol_recover_def q_def [symmetric]
    by (auto simp: case_prod_unfold Let_def counting_adopt counting_simps split: sum.split)
qed

lemma counting_attempt: "snd (snd (snd (enrol_attempt (counting h) e wn))) \<le> 2 + snd wn"
  using counting_recover [of h "e\<lparr>en_nextAttempt := fst (h_now (counting h) wn) + credentialRetryEvery\<rparr>" "snd (h_now (counting h) wn)"]
    counting_enroll [of h "e\<lparr>en_nextAttempt := fst (h_now (counting h) wn) + credentialRetryEvery\<rparr>" "snd (h_now (counting h) wn)"]
  by (simp add: enrol_attempt_def Let_def case_prod_unfold counting_simps)

text \<open>One message never turns into more than twelve requests, whatever the network answers: five
  attempts, at most two calls to repair the credential, five attempts with the new one.\<close>

theorem send_request_bound:
  "snd (snd (snd (enrol_send (counting h) msgType raw e (w, n)))) \<le> n + 12"
proof -
  define p where "p = Send (counting h) (en_client e) msgType raw (w, n)"
  have p: "snd (snd p) \<le> 5 + n" using counting_Send [of h "en_client e" msgType raw "(w, n)"] by (simp add: p_def)
  define q where "q = enrol_attempt (counting h) (e\<lparr>en_rejected := True\<rparr>) (snd (h_now (counting h) (snd p)))"
  have q: "snd (snd (snd q)) \<le> 2 + snd (snd p)"
    using counting_attempt [of h "e\<lparr>en_rejected := True\<rparr>" "snd (h_now (counting h) (snd p))"] by (simp add: q_def counting_simps)
  have "snd (snd (Send (counting h) (en_client (fst (snd q))) msgType raw (snd (snd q)))) \<le> 5 + snd (snd (snd q))"
    by (rule counting_Send)
  with p q show ?thesis
    unfolding enrol_send_def p_def [symmetric]
    by (auto simp: case_prod_unfold Let_def counting_simps q_def [symmetric] split: option.split bool.split)
qed

subsection \<open>While the network is away\<close>

definition offline :: "'w host \<Rightarrow> bool" where
  "offline h \<longleftrightarrow> (\<forall>r w. fst (h_do h r w) = None)"

lemma offline_doSigned: "offline h \<Longrightarrow> \<exists>e w'. doSigned h c path payload w = (Some e, w') \<and> \<not> is_unauthorized e"
  by (auto simp: doSigned_def offline_def Let_def case_prod_unfold split: option.split)

lemma offline_attempts:
  assumes "offline h" "\<forall>e. l = Some e \<longrightarrow> \<not> is_unauthorized e"
  shows "\<exists>e w'. send_attempts h c t payload left k l w = (Some e, w') \<and> \<not> is_unauthorized e"
  using assms(2)
proof (induction left arbitrary: k l w)
  case 0
  then show ?case by (cases l) auto
next
  case (Suc left)
  obtain r w1 where p: "(if 0 < k then sleepBackoff h k w else (None, w)) = (r, w1)" by fastforce
  have r: "r = None \<or> r = Some ErrContext" using p by (auto simp: sleepBackoff_def Let_def split: prod.splits if_splits)
  obtain e w2 where "doSigned h c client_ingestPath payload w1 = (Some e, w2)" "\<not> is_unauthorized e"
    using offline_doSigned [OF assms(1)] by blast
  then show ?case using r Suc.IH [of "Some e"] by (auto simp: p)
qed

lemma offline_send: "offline h \<Longrightarrow> \<exists>err w'. enrol_send h t raw e w = (Some err, e, w')"
proof -
  assume "offline h"
  then have "\<exists>err w'. Send h (en_client e) t raw w = (Some err, w') \<and> \<not> is_unauthorized err"
    using offline_attempts [of h None]
    by (auto simp: Send_def Let_def split: option.split prod.split)
  then show ?thesis by (auto simp: enrol_send_def)
qed

text \<open>A flush that is interrupted loses what was behind the item it stopped at. The buffer is
  drained before the first send, only the item whose send failed is put back, and the function
  returns: with the network away, all items but the oldest are gone, none of them delivered.\<close>

theorem interrupted_flush_loses_rest:
  assumes "offline h" and "rb_items b = it # its" and "0 < rb_cap b"
  shows "fst (snd (flushBuffer h e b w)) = b\<lparr>rb_items := [it]\<rparr>"
proof -
  obtain err w' where "enrol_send h ''metrics'' (raw_Marshal (bytes_str (it_Payload it))) e w = (Some err, e, w')"
    using offline_send [OF assms(1)] by blast
  then show ?thesis using assms(2,3) by (simp add: flushBuffer_def Drain_def Push_def)
qed

definition demo_enrollment :: enrollment where
  "demo_enrollment = \<lparr>en_Identity = \<lparr>id_InstallationID = ''ins_1'', id_ServerID = ''srv_1'', id_AgentID = ''agt_1'',
       id_PublicKey = b64_std_encode (replicate 32 5), id_PrivateKey = b64_std_encode (replicate 64 9), id_Enrolled = True\<rparr>,
     en_APIURL = ''https://p'', en_EnrollmentToken = [], en_signer = replicate 64 9,
     en_client = NewClient ''https://p'' ''agt_1'' (replicate 64 9), en_rejected = False, en_refusedLogged = False, en_nextAttempt = 0\<rparr>"

lemma demo_offline: "offline demo_host"
  by (simp add: offline_def demo_host_def)

theorem interrupted_flush_loses_rest_witness:
  "fst (snd (flushBuffer demo_host demo_enrollment
      \<lparr>rb_items = [\<lparr>it_Priority = 0, it_Payload = [1]\<rparr>, \<lparr>it_Priority = 0, it_Payload = [2]\<rparr>], rb_cap = 4096\<rparr> ()))
     = \<lparr>rb_items = [\<lparr>it_Priority = 0, it_Payload = [1]\<rparr>], rb_cap = 4096\<rparr>"
  using interrupted_flush_loses_rest [OF demo_offline,
      of "\<lparr>rb_items = [\<lparr>it_Priority = 0, it_Payload = [1]\<rparr>, \<lparr>it_Priority = 0, it_Payload = [2]\<rparr>], rb_cap = 4096\<rparr>"]
  by simp

definition sample_item :: "string \<Rightarrow> item" where
  "sample_item t = \<lparr>it_Priority = PriorityHistorical, it_Payload = str_bytes t\<rparr>"

lemma offline_ticks:
  assumes "offline h" and "am_enrol a = Some e"
  shows "fst (fold (agent_tick h) (map (\<lambda>t. MetricsTick (Some t)) samples) (a, w)) =
    \<lparr>am_enrol = Some e, am_buffer = fold Push (map sample_item samples) (am_buffer a)\<rparr>"
  using assms(2)
proof (induction samples arbitrary: a w)
  case (Cons t ts)
  obtain err w' where "enrol_send h ''metrics'' (Some t) e w = (Some err, e, w')"
    using offline_send [OF assms(1)] by blast
  then have "agent_tick h (MetricsTick (Some t)) (a, w) =
      (\<lparr>am_enrol = Some e, am_buffer = Push (sample_item t) (am_buffer a)\<rparr>, w')"
    using Cons.prems by (simp add: agent_tick_def metrics_tick_def sample_item_def)
  then show ?case using Cons.IH [of "\<lparr>am_enrol = Some e, am_buffer = Push (sample_item t) (am_buffer a)\<rparr>" w'] by simp
qed simp

text \<open>Monitoring goes on without the control plane. While no request is answered, every metrics
  sample is buffered: after any number of ticks the buffer holds the newest 4096 samples, in order,
  and the agent still believes in the credential it had.\<close>

theorem offline_keeps_newest_samples:
  assumes "offline h" and "am_enrol a = Some e" and "am_buffer a = NewBuffer 4096"
  shows "let a' = fst (fold (agent_tick h) (map (\<lambda>t. MetricsTick (Some t)) samples) (a, w))
    in am_enrol a' = Some e \<and> map it_Payload (rb_items (am_buffer a')) = map str_bytes (drop (length samples - 4096) samples)"
proof -
  have "kept_best (nat (max 1 4096)) (map sample_item samples) (rb_items (fold Push (map sample_item samples) (NewBuffer 4096)))"
    by (rule kept_best_fold) (auto simp: sample_item_def PriorityHistorical_def PriorityCritical_def)
  then have "rb_items (fold Push (map sample_item samples) (NewBuffer 4096)) = drop (length samples - 4096) (map sample_item samples)"
    using kept_best_same [of 4096 "map sample_item samples" _ PriorityHistorical] by (simp add: sample_item_def)
  moreover have "map it_Payload (map sample_item ts) = map str_bytes ts" for ts by (simp add: sample_item_def)
  ultimately show ?thesis
    using assms(3) by (simp add: offline_ticks [OF assms(1,2)] drop_map del: map_map)
qed

theorem offline_keeps_newest_samples_witness:
  "map it_Payload (rb_items (am_buffer (fst (fold (agent_tick demo_host) (map (\<lambda>t. MetricsTick (Some t)) [''1'', ''2''])
     (\<lparr>am_enrol = Some demo_enrollment, am_buffer = NewBuffer 4096\<rparr>, ()))))) = [str_bytes ''1'', str_bytes ''2'']"
  using offline_keeps_newest_samples [OF demo_offline, of "\<lparr>am_enrol = Some demo_enrollment, am_buffer = NewBuffer 4096\<rparr>" demo_enrollment "[''1'', ''2'']" "()"]
  unfolding Let_def by simp

subsection \<open>Messages reach the store\<close>

lemma fits_raw [simp]: "fits False FRaw v"
  by (cases v) auto

lemma Envelope_read:
  assumes "Envelope msgType aid now (json_print v) = Some env"
    and "json_wf 1 v" "json_ascii v" "ascii msgType" "ascii aid"
  obtains ms where "json_Unmarshal env = Some (JvObj ms)" "decode_struct False ingestEnvelope (JvObj ms) = Some ms"
    "get_string ''type'' ms = msgType" "get_raw ''body'' ms = json_print v" "get_string ''agent_id'' ms = aid"
proof -
  have wf: "json_wf 0 v" using assms(2) json_wf_outer [of 0 v] by simp
  have raw: "raw_Marshal (json_print v) = Some (json_print v)" using wf assms(3) by (rule raw_Marshal_print)
  obtain ts where ts: "time_Marshal now = Some ts" using assms(1) raw by (auto simp: Envelope_def split: option.splits)
  define ms where "ms = [(''type'', json_quote msgType, JvStr msgType), (''agent_id'', json_quote aid, JvStr aid),
    (''protocol'', json_quote Protocol, JvStr Protocol), (''timestamp'', ts, JvStr (time_text now)), (''body'', json_print v, v)]"
  have env: "env = object_text (map (\<lambda>(k, t, v). (k, t)) ms)"
    using assms(1) raw ts by (simp add: Envelope_def ms_def)
  have "list_all (member_ok (Suc 0)) ms"
    using json_print_text [OF assms(2)] assms(4,5) time_Marshal_text [OF ts]
    by (simp add: ms_def member_ok_def json_text_quote ascii_valid ascii_time_text Protocol_def)
  then have "json_text 0 env (JvObj ms)" unfolding env by (rule json_text_object) (simp add: maxNestingDepth_def)
  then have u: "json_Unmarshal env = Some (JvObj ms)" by (rule json_text_Unmarshal)
  have d: "decode_struct False ingestEnvelope (JvObj ms) = Some ms"
    by (simp add: decode_struct_def ms_def ingestEnvelope_def field_of_def EqualFold_def ToLower_def lower_char_def)
  have "get_string ''type'' ms = msgType" "get_raw ''body'' ms = json_print v" "get_string ''agent_id'' ms = aid"
    by (simp_all add: ms_def get_string_def get_member_def get_raw_def EqualFold_def ToLower_def lower_char_def)
  with u d show ?thesis by (rule that)
qed

lemma handleIngest_accepts:
  assumes "header_Get r ''X-Pulse-Agent-Id'' \<noteq> []" "GetAgentByAgentID (header_Get r ''X-Pulse-Agent-Id'') (ss_store s) = Inr ag"
    and "length (rq_Body r) \<le> 8 * 1024 * 1024"
    and "verifySignedRequest c (in_time x 0) (in_time x 1) r (rq_Body r) (agt_PublicKey ag) ingestPath (ss_nonces s) = (None, seen)"
    and "json_Unmarshal (bytes_str (rq_Body r)) = Some j" "decode_struct False ingestEnvelope j = Some ms"
    and "ingest_store x ag (get_string ''type'' ms) (get_raw ''body'' ms) (in_time x 2) (ss_store s) = Some m"
  shows "handleIngest c x r s = (JSON 202 [(''status'', JStr ''accepted'')], s\<lparr>ss_nonces := seen, ss_store := m\<rparr>)"
proof -
  have "take (8 * 1024 * 1024) (rq_Body r) = rq_Body r" using assms(3) by (rule take_all)
  then show ?thesis using assms by (simp only: handleIngest_def Let_def) simp
qed

text \<open>The control plane as the agent's network: the three routes of the agent, with the handlers'
  inputs \<open>x k\<close>, the agent's clock \<open>t\<close> and random draws \<open>rnd k\<close>; \<open>k\<close> counts what happened.\<close>

fun str_le :: "string \<Rightarrow> string \<Rightarrow> bool" where
  "str_le [] t = True"
| "str_le (c # s) [] = False"
| "str_le (c # s) (d # t) = ((of_char c :: nat) < of_char d \<or> c = d \<and> str_le s t)"

fun key_insert :: "string \<times> 'a \<Rightarrow> (string \<times> 'a) list \<Rightarrow> (string \<times> 'a) list" where
  "key_insert x [] = [x]"
| "key_insert x (y # ys) = (if str_le (fst x) (fst y) then x # y # ys else y # key_insert x ys)"

fun value_text :: "json_value \<Rightarrow> string" where
  "value_text (JStr s) = json_quote s"
| "value_text (JBool b) = (if b then ''true'' else ''false'')"
| "value_text (JStrs ss) = array_text (map json_quote ss)"
| "value_text (JInt i) = Itoa i"

definition reply_of :: "string \<Rightarrow> http_response \<Rightarrow> reply" where
  "reply_of rid p =
     \<lparr>rp_StatusCode = rs_Status p, rp_Status = Itoa (int (rs_Status p)),
      rp_Body = str_bytes ((if rs_Code p \<noteq> [] then
          object_text [(''error'', object_text [(''code'', json_quote (rs_Code p)), (''message'', json_quote (rs_Message p)),
            (''request_id'', json_quote rid)])]
        else object_text (map (map_prod id value_text) (foldr key_insert (rs_Fields p) []))) @ [CHR 0x0A])\<rparr>"

definition route :: "crypto \<Rightarrow> inputs \<Rightarrow> handler" where
  "route c x r s =
     (if HasSuffix (rq_Path r) ingestPath then handleIngest c x r s
      else if HasSuffix (rq_Path r) enrollPath then handleEnroll c x r s
      else if HasSuffix (rq_Path r) reenrollPath then handleReenroll c x r s
      else (Fail 404 CodeNotFound ''not found'', s))"

definition plane_host :: "crypto \<Rightarrow> (nat \<Rightarrow> inputs) \<Rightarrow> time \<Rightarrow> (nat \<Rightarrow> bytes) \<Rightarrow> (bytes \<Rightarrow> bytes \<Rightarrow> bytes) \<Rightarrow> string \<Rightarrow>
    (server_state \<times> nat) host" where
  "plane_host c x t rnd signf remote =
     \<lparr>h_now = (\<lambda>w. (t, w)), h_rand = (\<lambda>n (s, k). (rnd k, (s, Suc k))),
      h_do = (\<lambda>r (s, k). let (p, s1) = route c (x k) (received remote r) s in (Some (reply_of [] p), (s1, Suc k))),
      h_wait = (\<lambda>_ w. (False, w)), h_save = (\<lambda>_ w. (True, w)), h_url_ok = (\<lambda>_. True), h_sign = signf,
      h_sha256 = c_sha256 c, h_Hostname = ''web-1'', h_GOOS = ''linux'', h_GOARCH = ''amd64''\<rparr>"

lemma plane_simps:
  "h_now (plane_host c x t rnd signf remote) w = (t, w)" "h_rand (plane_host c x t rnd signf remote) n (s, k) = (rnd k, (s, Suc k))"
  "h_url_ok (plane_host c x t rnd signf remote) u"
  "h_do (plane_host c x t rnd signf remote) r (s, k) =
     (Some (reply_of [] (fst (route c (x k) (received remote r) s))), (snd (route c (x k) (received remote r) s), Suc k))"
  by (simp_all add: plane_host_def Let_def split: prod.split)

lemma ingest_known:
  "msgType \<in> {''discovery'', ''metrics'', ''logs'', ''heartbeat'', ''hello'', ''health''} \<Longrightarrow> \<exists>m. ingest_store x ag msgType body now st = Some m"
  by (auto simp: ingest_store_def Let_def)

lemma route_ingest: "rq_Path r = u @ client_ingestPath \<Longrightarrow> route c x r s = handleIngest c x r s"
proof -
  assume "rq_Path r = u @ client_ingestPath"
  then have "HasSuffix (rq_Path r) ingestPath" by (auto simp: HasSuffix_iff client_ingestPath_def ingestPath_def)
  then show ?thesis by (simp add: route_def)
qed

text \<open>The agent \<open>ag\<close> is registered under the id its client uses and the key it signs with, and one
  exchange finds both clocks close and the nonce unused.\<close>

definition registered :: "client \<Rightarrow> bytes \<Rightarrow> agent \<Rightarrow> server_state \<Rightarrow> bool" where
  "registered cl pub ag s \<longleftrightarrow> cl_agentID cl \<noteq> [] \<and> GetAgentByAgentID (cl_agentID cl) (ss_store s) = Inr ag \<and>
     agt_PublicKey ag = b64_std_encode pub"

definition exchange_ok :: "inputs \<Rightarrow> time \<Rightarrow> bytes \<Rightarrow> server_state \<Rightarrow> bool" where
  "exchange_ok x t b s \<longleftrightarrow> clocks_close t (in_time x 0) \<and> b \<noteq> [] \<and> ss_nonces s (b64_raw B64URL b) = None"

lemma doSigned_ingest:
  fixes c x t rnd signf remote
  defines "h \<equiv> plane_host c x t rnd signf remote"
  assumes k: "key_pair c h (cl_signer cl) pub" and reg: "registered cl pub ag s" and ok: "exchange_ok (x (Suc k)) t (rnd k) s"
    and len: "length env \<le> 8 * 1024 * 1024"
    and env: "json_Unmarshal env = Some j" "decode_struct False ingestEnvelope j = Some ms"
    and st: "ingest_store (x (Suc k)) ag (get_string ''type'' ms) (get_raw ''body'' ms) (in_time (x (Suc k)) 2) (ss_store s) = Some m"
  shows "\<exists>s'. doSigned h cl client_ingestPath (str_bytes env) (s, k) = (None, s', Suc (Suc k)) \<and> ss_store s' = m"
proof -
  obtain r w where r: "signRequest h (new_request (cl_baseURL cl @ client_ingestPath) (str_bytes env)) (cl_signer cl) (cl_agentID cl)
      client_ingestPath (str_bytes env) (s, k) = (r, w)" by (rule prod.exhaust)
  have now: "h_now h (s, k) = (t, (s, k))" and rd: "h_rand h 16 (s, k) = (rnd k, (s, Suc k))" by (simp_all add: h_def plane_simps)
  note sr = signRequest_headers [OF now rd r]
  have w: "w = (s, Suc k)" using sr(1) .
  have path: "client_ingestPath = ingestPath" by (simp add: client_ingestPath_def ingestPath_def)
  have body: "rq_Body (received remote r) = str_bytes env" "rq_Path (received remote r) = cl_baseURL cl @ client_ingestPath"
    using sr(2,3) by (simp_all add: received_def new_request_def)
  define seen where "seen = snd (checkAndStore (b64_raw B64URL (rnd k)) (in_time (x (Suc k)) 1) (ss_nonces s))"
  have v: "verifySignedRequest c (in_time (x (Suc k)) 0) (in_time (x (Suc k)) 1) (received remote r) (str_bytes env)
      (agt_PublicKey ag) ingestPath (ss_nonces s) = (None, seen)"
    using signed_verifies [OF k now rd r, of "in_time (x (Suc k)) 0" "ss_nonces s" "in_time (x (Suc k)) 1" remote] ok reg
    by (simp add: exchange_ok_def registered_def path seen_def)
  have "handleIngest c (x (Suc k)) (received remote r) s =
      (JSON 202 [(''status'', JStr ''accepted'')], s\<lparr>ss_nonces := seen, ss_store := m\<rparr>)"
    using reg v env st len sr(4) [of remote]
    by (intro handleIngest_accepts [where ag = ag and j = j and ms = ms]) (simp_all add: registered_def body)
  then have "h_do h r w = (Some (reply_of [] (JSON 202 [(''status'', JStr ''accepted'')])), s\<lparr>ss_nonces := seen, ss_store := m\<rparr>, Suc (Suc k))"
    by (simp add: h_def plane_simps w route_ingest [OF body(2)])
  then show ?thesis
    using plane_simps(3) [of c x t rnd signf remote "cl_baseURL cl @ client_ingestPath"] unfolding h_def [symmetric]
    by (simp add: doSigned_def r reply_of_def http_simps)
qed

lemma Send_stores:
  assumes "key_pair c (plane_host c x t rnd signf remote) (cl_signer cl) pub" and "registered cl pub ag s"
    and "exchange_ok (x (Suc k)) t (rnd k) s"
    and "msgType \<in> {''discovery'', ''metrics'', ''logs'', ''heartbeat'', ''hello'', ''health''}"
    and "json_wf 1 v" and "json_ascii v" and "ascii (cl_agentID cl)"
    and "Envelope msgType (cl_agentID cl) t (json_print v) = Some env" and "length env \<le> 8 * 1024 * 1024"
  shows "\<exists>s'. Send (plane_host c x t rnd signf remote) cl msgType (Some (json_print v)) (s, k) = (None, s', Suc (Suc k)) \<and>
    Some (ss_store s') = ingest_store (x (Suc k)) ag msgType (json_print v) (in_time (x (Suc k)) 2) (ss_store s)"
proof -
  let ?h = "plane_host c x t rnd signf remote"
  have "ascii msgType" using assms(4) by auto
  then obtain ms where ms: "json_Unmarshal env = Some (JvObj ms)" "decode_struct False ingestEnvelope (JvObj ms) = Some ms"
    "get_string ''type'' ms = msgType" "get_raw ''body'' ms = json_print v"
    using Envelope_read [OF assms(8,5,6) _ assms(7)] by metis
  obtain m where m: "ingest_store (x (Suc k)) ag msgType (json_print v) (in_time (x (Suc k)) 2) (ss_store s) = Some m"
    using ingest_known [OF assms(4)] by blast
  obtain s' where s': "doSigned ?h cl client_ingestPath (str_bytes env) (s, k) = (None, s', Suc (Suc k))" "ss_store s' = m"
    using doSigned_ingest [OF assms(1-3,9) ms(1,2), of m] m ms(3,4) by auto
  have "send_attempts ?h cl msgType (str_bytes env) maxAttempts 0 None (s, k) = (None, s', Suc (Suc k))"
    using s' by (simp add: maxAttempts_def numeral_eq_Suc)
  then show ?thesis using s' m assms(8) by (simp add: Send_def plane_simps)
qed

text \<open>The agent and the control plane together. A message of a known type from a registered agent
  arrives: the first request is accepted, \<open>Send\<close> returns without an error, and the store is what the
  control plane stores for this agent, this type and exactly this body.\<close>

theorem Send_delivers:
  assumes "key_pair c (plane_host c x t rnd signf remote) (cl_signer cl) pub" and "registered cl pub ag s"
    and "exchange_ok (x (Suc k)) t (rnd k) s"
    and "msgType \<in> {''discovery'', ''metrics'', ''logs'', ''heartbeat'', ''hello'', ''health''}"
    and "json_wf 1 v" and "json_ascii v" and "ascii (cl_agentID cl)"
    and "Envelope msgType (cl_agentID cl) t (json_print v) = Some env" and "length env \<le> 8 * 1024 * 1024"
  shows "\<exists>s'. Send (plane_host c x t rnd signf remote) cl msgType (Some (json_print v)) (s, k) = (None, s', Suc (Suc k)) \<and>
    Some (ss_store s') = ingest_store (x (Suc k)) ag msgType (json_print v) (in_time (x (Suc k)) 2) (ss_store s)"
  using assms by (rule Send_stores)

text \<open>A control plane with one registered agent, and the instant both clocks show.\<close>

definition peer_agent :: agent where
  "peer_agent = \<lparr>agt_ID = ''1'', agt_OrgID = ''o'', agt_ServerID = ''srv_1'', agt_AgentID = ''agt_1'',
     agt_PublicKey = b64_std_encode (replicate 32 5), agt_ProtocolVersion = ''1.0'', agt_RevokedAt = None, agt_LastSeenAt = 0\<rparr>"

definition demo_plane :: server_state where
  "demo_plane = New (NewMemory\<lparr>m_agents := [''1'' \<mapsto> peer_agent], m_agentByAID := [''agt_1'' \<mapsto> ''1'']\<rparr>)"

definition peer_inputs :: "nat \<Rightarrow> inputs" where
  "peer_inputs k = \<lparr>in_time = (\<lambda>_. 0), in_rnd = (\<lambda>i. Some [of_nat k, of_nat i]), in_servers = [], in_agents = [''agt_1''], in_alerts = []\<rparr>"

abbreviation demo_net :: "(server_state \<times> nat) host" where
  "demo_net \<equiv> plane_host demo_crypto peer_inputs 0 (\<lambda>k. [of_nat k]) (\<lambda>_ _. replicate 64 1) ''10.0.0.1:99''"

definition demo_client :: client where
  "demo_client = NewClient ''https://p'' ''agt_1'' (replicate 64 9)"

lemma demo_time: "time_Marshal 0 = Some (json_quote ''1970-01-01T00:00:00Z'')"
  by code_simp

lemma demo_envelope:
  "ascii aid \<Longrightarrow> length aid \<le> 100 \<Longrightarrow> \<exists>env. Envelope ''metrics'' aid 0 (json_print JvNull) = Some env \<and> length env \<le> 8 * 1024 * 1024"
  using json_quote_length [of aid]
  by (simp add: Envelope_def demo_time raw_Marshal_print [of JvNull, simplified] Protocol_def object_text_def
      json_quote_plain json_escape_char_def quote_def backslash_def)

lemma demo_exchange: "exchange_ok (peer_inputs k) 0 [of_nat j] demo_plane"
  by (simp add: exchange_ok_def clocks_close_def peer_inputs_def demo_plane_def New_def)

lemma demo_registered: "registered demo_client (replicate 32 5) peer_agent demo_plane"
  by (simp add: registered_def demo_client_def NewClient_def demo_plane_def New_def GetAgentByAgentID_def peer_agent_def NewMemory_def)

lemma demo_key: "key_pair demo_crypto demo_net sk (replicate 32 5)"
  by (simp add: key_pair_def demo_crypto_def plane_host_def)

lemma metrics_kept: "GetMetrics o1 s1 (EnsureServer ord o1 s1 hn now st rnd (AppendMetricSample o1 s1 ts b (SaveMetrics o1 s1 b m))) = Inr b"
  by (simp add: GetMetrics_def EnsureServer_def AppendMetricSample_def SaveMetrics_def Let_def split: option.split prod.split)

theorem Send_delivers_witness:
  "\<exists>s'. Send demo_net demo_client ''metrics'' (Some ''null'') (demo_plane, 0) = (None, s', 2) \<and>
     GetMetrics ''o'' ''srv_1'' (ss_store s') = Inr ''null''"
proof -
  have "ascii (cl_agentID demo_client)" "length (cl_agentID demo_client) \<le> 100" by (simp_all add: demo_client_def NewClient_def)
  then obtain env where env: "Envelope ''metrics'' (cl_agentID demo_client) 0 (json_print JvNull) = Some env" "length env \<le> 8 * 1024 * 1024"
    using demo_envelope by blast
  have "ascii (cl_agentID demo_client)" by (simp add: demo_client_def NewClient_def)
  from Send_delivers [OF demo_key demo_registered _ _ _ _ this env, where k = 0] demo_exchange [of 1 0] show ?thesis
    by (auto simp: ingest_store_def Let_def peer_agent_def metrics_kept numeral_2_eq_2)
qed

subsection \<open>Enrollment through to a registered key\<close>

lemma ascii_NewID: "ascii p \<Longrightarrow> ascii (NewID p b)"
  by (simp add: NewID_def ascii_b64)

lemma json_wf_str: "ascii s \<Longrightarrow> json_wf d (JvStr s)"
  by (simp add: ascii_valid)

definition ascii_identity :: "identity \<Rightarrow> bool" where
  "ascii_identity i \<longleftrightarrow> ascii (id_InstallationID i) \<and> ascii (id_PublicKey i) \<and> ascii (id_AgentID i)"

lemma utf8_lit: "list_all (\<lambda>c. of_char c < (128 :: nat)) s \<Longrightarrow> utf8_valid s"
  by (rule utf8_valid_ascii)

lemma fingerprint_wf:
  assumes "ascii (h_GOARCH h)" "ascii (h_Hostname h)" "ascii (h_GOOS h)"
  shows "json_wf 1 (hostFingerprint h)"
  using assms by (simp add: hostFingerprint_def json_wf_jobject utf8_lit maxNestingDepth_def ascii_valid)

lemma EnrollRequest_wf:
  assumes "ascii token" "ascii_identity i" "json_wf 1 f"
  shows "json_wf 0 (EnrollRequest token i f)"
  using assms by (simp add: EnrollRequest_def json_wf_jobject utf8_lit maxNestingDepth_def ascii_valid ascii_identity_def Protocol_def)

lemma EnrollRequest_read:
  assumes "ascii token" "ascii_identity i" "ascii (h_GOARCH h)" "ascii (h_Hostname h)" "ascii (h_GOOS h)"
    and "rq_Body r = str_bytes (json_print (EnrollRequest token i (hostFingerprint h)))" "length (rq_Body r) \<le> 8192"
  obtains ms where "decodeJSON r enrollRequest 8192 = Some ms" "get_string ''enrollment_token'' ms = token"
    "get_string ''public_key'' ms = id_PublicKey i" "get_string ''protocol_version'' ms = Protocol"
    "get_string ''installation_id'' ms = id_InstallationID i" "get_strmap ''fingerprint'' ''hostname'' ms = h_Hostname h"
proof -
  define q where "q = EnrollRequest token i (hostFingerprint h)"
  have "json_wf 0 q" unfolding q_def using assms by (intro EnrollRequest_wf fingerprint_wf)
  then have "json_Decode (json_print q) = Some q" by (intro json_text_Unmarshal(2) json_print_text)
  moreover obtain ms where ms: "q = JvObj ms" by (simp add: q_def EnrollRequest_def jobject_def)
  ultimately have "decodeJSON r enrollRequest 8192 = decode_struct True enrollRequest (JvObj ms)"
    using assms(6,7) by (simp add: decodeJSON_def q_def [symmetric])
  moreover have "fits True (FStruct enrollRequest) (JvObj ms)"
    unfolding ms [symmetric] q_def EnrollRequest_def hostFingerprint_def jobject_def
    by (simp add: enrollRequest_def field_of_def EqualFold_def ToLower_def lower_char_def)
  ultimately have d: "decodeJSON r enrollRequest 8192 = Some ms" by (simp add: decode_struct_def)
  have m: "ms = map (\<lambda>(k, v). (k, json_print v, v)) [(''enrollment_token'', JvStr token), (''installation_id'', JvStr (id_InstallationID i)),
      (''public_key'', JvStr (id_PublicKey i)), (''protocol_version'', JvStr Protocol), (''fingerprint'', hostFingerprint h)]"
    using ms by (simp add: q_def EnrollRequest_def jobject_def)
  show ?thesis
    by (rule that [OF d]; unfold m; simp add: get_string_def get_member_def get_strmap_def hostFingerprint_def jobject_def EqualFold_def ToLower_def lower_char_def)
qed

lemma EnrollResponse_read:
  assumes "ascii sid" "ascii aid" "ascii p"
  shows "EnrollResponse (reply_of rid (JSON st [(''server_id'', JStr sid), (''agent_id'', JStr aid), (''protocol'', JStr p)])) =
    Inr \<lparr>er_ServerID = sid, er_AgentID = aid, er_Protocol = p\<rparr>"
proof -
  define ms where "ms = [(''agent_id'', json_quote aid, JvStr aid), (''protocol'', json_quote p, JvStr p), (''server_id'', json_quote sid, JvStr sid)]"
  have b: "bytes_str (rp_Body (reply_of rid (JSON st [(''server_id'', JStr sid), (''agent_id'', JStr aid), (''protocol'', JStr p)]))) =
      object_text (map (\<lambda>(k, t, v). (k, t)) ms) @ [CHR 0x0A]"
    by (simp add: reply_of_def http_simps ms_def)
  have "list_all (member_ok (Suc 0)) ms"
    using assms by (simp add: ms_def member_ok_def json_text_quote ascii_valid)
  then have "json_text 0 (object_text (map (\<lambda>(k, t, v). (k, t)) ms)) (JvObj ms)"
    by (rule json_text_object) (simp add: maxNestingDepth_def)
  then have "json_Decode (object_text (map (\<lambda>(k, t, v). (k, t)) ms) @ [CHR 0x0A]) = Some (JvObj ms)"
    unfolding json_Decode_def using json_textD [of 0 _ "JvObj ms" "[CHR 0x0A]"] by (simp add: json_delim_def del: jval.simps)
  then show ?thesis
    unfolding EnrollResponse_def decode_reply_def b
    by (simp add: decode_struct_def ms_def field_of_def get_string_def get_member_def EqualFold_def ToLower_def lower_char_def)
qed

lemma route_enroll: "rq_Path r = u @ enrollPath \<Longrightarrow> route c x r s = handleEnroll c x r s"
proof -
  assume p: "rq_Path r = u @ enrollPath"
  have "\<not> HasSuffix (u @ enrollPath) ingestPath" "HasSuffix (u @ enrollPath) enrollPath"
    by (simp_all add: HasSuffix_def enrollPath_def ingestPath_def)
  then show ?thesis by (simp add: route_def p)
qed

lemma handleEnroll_accepts:
  assumes "decodeJSON r enrollRequest 8192 = Some ms" "get_string ''enrollment_token'' ms = token" "token \<noteq> []"
    "get_string ''public_key'' ms \<noteq> []" "get_string ''protocol_version'' ms = ''1.0''"
    "ConsumeEnrollmentToken (HashToken (c_sha256 c) token) (in_time x 0) (ss_store s) = (Inr tok, m1)"
    "registerAgent x 0 (in_time x 2) (tok_OrgID tok) (get_string ''public_key'' ms) ''1.0'' (get_strmap ''fingerprint'' ''hostname'' ms) (in_time x 1) m1 =
       ((srv, ag), m2)"
  shows "\<exists>s'. handleEnroll c x r s = (JSON 201 [(''server_id'', JStr (srv_ServerID srv)), (''agent_id'', JStr (agt_AgentID ag)), (''protocol'', JStr ''1.0'')], s') \<and>
    m_agents (ss_store s') = m_agents m2 \<and> m_agentByAID (ss_store s') = m_agentByAID m2 \<and> ss_nonces s' = ss_nonces s"
  using assms by (simp add: handleEnroll_def Let_def supportedProtocols_def Record_def AppendAudit_def)

text \<open>Enrollment, end to end. An agent with a token the control plane issued, unused and not
  expired, ends up with a credential: the request it marshals is understood, the reply is read back, and
  the id its client signs with from then on is registered for its own key in the token's
  organisation, which is what delivery of its messages needs.\<close>

theorem enroll_registers_key:
  assumes "m_enrollments (ss_store s) (HashToken (c_sha256 c) (en_EnrollmentToken e)) = Some tok" and "tok_UsedAt tok = None"
    and "in_time (x k) 0 \<le> tok_ExpiresAt tok" and "en_EnrollmentToken e \<noteq> []" and "ascii (en_EnrollmentToken e)"
    and "ascii_identity (en_Identity e)" and "id_PublicKey (en_Identity e) = b64_std_encode pub" and "pub \<noteq> []"
    and "length (json_print (EnrollRequest (en_EnrollmentToken e) (en_Identity e) (hostFingerprint (plane_host c x t rnd signf remote)))) \<le> 8192"
  shows "\<exists>e' s' ag. enrol_enroll (plane_host c x t rnd signf remote) e (s, k) = (True, e', s', Suc k) \<and>
    (en_rejected e' = False \<and> id_Enrolled (en_Identity e')) \<and> registered (en_client e') pub ag s' \<and> agt_OrgID ag = tok_OrgID tok \<and>
    id_ServerID (en_Identity e') = agt_ServerID ag \<and> ss_nonces s' = ss_nonces s"
proof -
  define h where "h = plane_host c x t rnd signf remote"
  define r where "r = (new_request (en_APIURL e @ enrollPath) (str_bytes (json_print (EnrollRequest (en_EnrollmentToken e) (en_Identity e) (hostFingerprint h)))))
    \<lparr>or_Header := header_Set ''User-Agent'' UserAgent (header_Set ''Content-Type'' ''application/json'' (\<lambda>_. []))\<rparr>"
  have host: "ascii (h_GOARCH h)" "ascii (h_Hostname h)" "ascii (h_GOOS h)" by (simp_all add: h_def plane_host_def)
  obtain ms where ms: "decodeJSON (received remote r) enrollRequest 8192 = Some ms" "get_string ''enrollment_token'' ms = en_EnrollmentToken e"
    "get_string ''public_key'' ms = b64_std_encode pub" "get_string ''protocol_version'' ms = ''1.0''"
    using EnrollRequest_read [OF assms(5,6) host, of "received remote r"] assms(7,9)
    by (auto simp: received_def r_def new_request_def h_def Protocol_def)
  obtain tok1 m1 where tok: "ConsumeEnrollmentToken (HashToken (c_sha256 c) (en_EnrollmentToken e)) (in_time (x k) 0) (ss_store s) = (Inr tok1, m1)"
    "tok_OrgID tok1 = tok_OrgID tok"
    using assms(1-3) by (simp add: ConsumeEnrollmentToken_def time_After_def Let_def)
  obtain srv ag m2 where reg: "registerAgent (x k) 0 (in_time (x k) 2) (tok_OrgID tok1) (b64_std_encode pub) ''1.0''
      (get_strmap ''fingerprint'' ''hostname'' ms) (in_time (x k) 1) m1 = ((srv, ag), m2)"
    by (metis surj_pair)
  note ra = registerAgent_result [OF reg]
  have ids: "ascii (srv_ServerID srv)" "ascii (agt_AgentID ag)" "agt_AgentID ag \<noteq> []"
    using reg by (auto simp: registerAgent_def Let_def UpsertServer_def CreateAgent_def ascii_NewID NewID_def ascii_b64)
  obtain s' where s': "handleEnroll c (x k) (received remote r) s =
      (JSON 201 [(''server_id'', JStr (srv_ServerID srv)), (''agent_id'', JStr (agt_AgentID ag)), (''protocol'', JStr ''1.0'')], s')"
    "m_agents (ss_store s') = m_agents m2" "m_agentByAID (ss_store s') = m_agentByAID m2" "ss_nonces s' = ss_nonces s"
    using handleEnroll_accepts [OF ms(1,2) assms(4) _ ms(4) tok(1)] reg ms(3) assms(8) b64_std_encode_Nil [of pub] by metis
  have "rq_Path (received remote r) = en_APIURL e @ enrollPath" by (simp add: received_def r_def new_request_def)
  then have "h_do h r (s, k) = (Some (reply_of [] (JSON 201 [(''server_id'', JStr (srv_ServerID srv)), (''agent_id'', JStr (agt_AgentID ag)), (''protocol'', JStr ''1.0'')])), s', Suc k)"
    by (simp add: h_def plane_simps route_enroll s')
  then have "Enroll h (en_APIURL e) (EnrollRequest (en_EnrollmentToken e) (en_Identity e) (hostFingerprint h)) (s, k) =
      (Inr \<lparr>er_ServerID = srv_ServerID srv, er_AgentID = agt_AgentID ag, er_Protocol = ''1.0''\<rparr>, s', Suc k)"
    using EnrollResponse_read [OF ids(1,2), of "''1.0''" "[]" 201] plane_simps(3) [of c x t rnd signf remote "en_APIURL e @ enrollPath"]
    unfolding Enroll_def Let_def r_def [symmetric] h_def [symmetric] by (simp add: reply_of_def http_simps)
  then show ?thesis
    using assms(4) ra s' ids(3) tok(2)
    by (simp add: enrol_enroll_def h_def enrol_adopt_def plane_host_def registered_def Rebind_def GetAgentByAgentID_def)
qed

definition new_enrollment :: enrollment where
  "new_enrollment = \<lparr>en_Identity = \<lparr>id_InstallationID = ''ins_1'', id_ServerID = ''srv_0'', id_AgentID = ''agt_0'',
       id_PublicKey = b64_std_encode (replicate 32 5), id_PrivateKey = b64_std_encode (replicate 64 9), id_Enrolled = False\<rparr>,
     en_APIURL = ''https://p'', en_EnrollmentToken = ''pst_x'', en_signer = replicate 64 9,
     en_client = NewClient ''https://p'' ''agt_0'' (replicate 64 9), en_rejected = False, en_refusedLogged = False, en_nextAttempt = 0\<rparr>"

definition token_plane :: server_state where
  "token_plane = New (NewMemory\<lparr>m_enrollments := [''00'' \<mapsto> \<lparr>tok_ID = ''t'', tok_OrgID = ''o'', tok_TokenHash = ''00'', tok_ExpiresAt = 9,
     tok_UsedAt = None, tok_Fingerprint = [], tok_CreatedAt = 0\<rparr>]\<rparr>)"

lemma demo_key_text: "length (json_quote (b64_std_encode (replicate 32 5))) \<le> 398"
  using json_quote_length [of "b64_std_encode (replicate 32 5)"] b64_raw_length [of B64Std "replicate 32 5"]
  by (simp add: b64_std_encode_def ascii_b64)

lemma new_request_short: "length (json_print (EnrollRequest (en_EnrollmentToken new_enrollment) (en_Identity new_enrollment) (hostFingerprint demo_net))) \<le> 8192"
  using demo_key_text
    by (simp add: hostFingerprint_def plane_host_def EnrollRequest_def jobject_def object_text_def new_enrollment_def Protocol_def
        json_quote_plain json_escape_char_def quote_def backslash_def)

theorem enroll_registers_key_witness:
  "\<exists>e' s' ag. enrol_enroll demo_net new_enrollment (token_plane, 0) = (True, e', s', 1) \<and> registered (en_client e') (replicate 32 5) ag s' \<and> agt_OrgID ag = ''o''"
proof -
  define tok where "tok = \<lparr>tok_ID = ''t'', tok_OrgID = ''o'', tok_TokenHash = ''00'', tok_ExpiresAt = 9, tok_UsedAt = None, tok_Fingerprint = [], tok_CreatedAt = 0\<rparr>"
  have t: "m_enrollments (ss_store token_plane) (HashToken (c_sha256 demo_crypto) (en_EnrollmentToken new_enrollment)) = Some tok"
    by (simp add: token_plane_def New_def tok_def)
  have i: "ascii_identity (en_Identity new_enrollment)"
    by (simp add: ascii_identity_def new_enrollment_def b64_std_encode_def ascii_b64)
  have "tok_UsedAt tok = None" "in_time (peer_inputs 0) 0 \<le> tok_ExpiresAt tok" "en_EnrollmentToken new_enrollment \<noteq> []"
    "ascii (en_EnrollmentToken new_enrollment)" "id_PublicKey (en_Identity new_enrollment) = b64_std_encode (replicate 32 5)" "replicate 32 (5 :: byte) \<noteq> []"
    by (simp_all add: tok_def peer_inputs_def new_enrollment_def)
  from enroll_registers_key [OF t this(1-4) i this(5,6) new_request_short] show ?thesis
    by (auto simp: tok_def)
qed

subsection \<open>Recovering a lost credential\<close>

lemma ReenrollRequest_read:
  assumes "ascii token" "ascii_identity i" "ascii (h_GOARCH h)" "ascii (h_Hostname h)" "ascii (h_GOOS h)"
  obtains ms where "json_Unmarshal (json_print (ReenrollRequest token i (hostFingerprint h))) = Some (JvObj ms)"
    "decode_struct False reenrollRequest (JvObj ms) = Some ms"
    "get_string ''public_key'' ms = id_PublicKey i" "get_string ''protocol_version'' ms = Protocol"
proof -
  define q where "q = ReenrollRequest token i (hostFingerprint h)"
  define fs where "fs = [(''installation_id'', JvStr (id_InstallationID i)), (''public_key'', JvStr (id_PublicKey i))] @
    omitempty ''previous_agent_id'' (id_AgentID i) @ [(''protocol_version'', JvStr Protocol), (''fingerprint'', hostFingerprint h)] @
    omitempty ''enrollment_token'' token"
  have q: "q = jobject fs" by (simp add: q_def ReenrollRequest_def fs_def)
  define ms where "ms = map (\<lambda>(k, v). (k, json_print v, v)) fs"
  have m: "q = JvObj ms" by (simp add: q jobject_def ms_def)
  have "json_wf 0 q"
    using assms fingerprint_wf [of h]
    by (simp add: q fs_def json_wf_jobject omitempty_def utf8_lit maxNestingDepth_def ascii_valid ascii_identity_def Protocol_def)
  then have u: "json_Unmarshal (json_print q) = Some (JvObj ms)" unfolding m by (rule json_print_Unmarshal)
  have f: "fits False (FStruct reenrollRequest) (JvObj ms)"
    by (simp add: ms_def fs_def omitempty_def reenrollRequest_def field_of_def hostFingerprint_def jobject_def EqualFold_def ToLower_def lower_char_def)
  have "get_string ''public_key'' ms = id_PublicKey i" "get_string ''protocol_version'' ms = Protocol"
    by (simp_all add: ms_def fs_def omitempty_def get_string_def get_member_def EqualFold_def ToLower_def lower_char_def)
  then show ?thesis using that u f by (simp add: q_def decode_struct_def)
qed

lemma route_reenroll: "rq_Path r = u @ client_reenrollPath \<Longrightarrow> route c x r s = handleReenroll c x r s"
proof -
  assume p: "rq_Path r = u @ client_reenrollPath"
  have "\<not> HasSuffix (u @ client_reenrollPath) ingestPath" "\<not> HasSuffix (u @ client_reenrollPath) enrollPath" "HasSuffix (u @ client_reenrollPath) reenrollPath"
    by (auto simp: HasSuffix_def client_reenrollPath_def enrollPath_def reenrollPath_def ingestPath_def)
  then show ?thesis by (simp add: route_def p)
qed

lemma handleReenroll_rebinds:
  assumes "length (rq_Body r) \<le> 8192" "json_Unmarshal (bytes_str (rq_Body r)) = Some (JvObj ms)"
    "decode_struct False reenrollRequest (JvObj ms) = Some ms"
    "get_string ''public_key'' ms = pk" "pk \<noteq> []" "get_string ''protocol_version'' ms = ''1.0''"
    "verifySignedRequest c (in_time x 0) (in_time x 1) r (rq_Body r) pk reenrollPath (ss_nonces s) = (None, seen)"
    "GetAgentByPublicKey (in_agents x) pk (ss_store s) = Inr ag" "agt_RevokedAt ag = None"
  shows "\<exists>s'. handleReenroll c x r s = (JSON 200 [(''server_id'', JStr (agt_ServerID ag)), (''agent_id'', JStr (agt_AgentID ag)), (''protocol'', JStr ''1.0'')], s') \<and>
    m_agents (ss_store s') = m_agents (ss_store s) \<and> m_agentByAID (ss_store s') = m_agentByAID (ss_store s) \<and> ss_nonces s' = seen"
proof -
  have "take 8192 (rq_Body r) = rq_Body r" using assms(1) by (rule take_all)
  then show ?thesis using assms
    by (simp add: handleReenroll_def Let_def supportedProtocols_def reenroll_bind_def Record_def AppendAudit_def EnsureServer_def split: option.split prod.split)
qed

lemma Reenroll_rebinds:
  fixes c x t rnd signf remote
  defines "h \<equiv> plane_host c x t rnd signf remote"
  assumes k: "key_pair c h sk pub" and ok: "exchange_ok (x (Suc k)) t (rnd k) s"
    and pk: "id_PublicKey i = b64_std_encode pub" and asc: "ascii token" "ascii_identity i"
    and len: "length (json_print (ReenrollRequest token i (hostFingerprint h))) \<le> 8192"
    and ag: "GetAgentByPublicKey (in_agents (x (Suc k))) (b64_std_encode pub) (ss_store s) = Inr ag" "agt_RevokedAt ag = None"
    and ids: "ascii (agt_ServerID ag)" "ascii (agt_AgentID ag)"
  shows "\<exists>s'. Reenroll h url sk (id_AgentID i) (ReenrollRequest token i (hostFingerprint h)) (s, k) =
      (Inr \<lparr>er_ServerID = agt_ServerID ag, er_AgentID = agt_AgentID ag, er_Protocol = ''1.0''\<rparr>, s', Suc (Suc k)) \<and>
    m_agents (ss_store s') = m_agents (ss_store s) \<and> m_agentByAID (ss_store s') = m_agentByAID (ss_store s) \<and>
    ss_nonces s' = snd (checkAndStore (b64_raw B64URL (rnd k)) (in_time (x (Suc k)) 1) (ss_nonces s))"
proof -
  define body where "body = json_print (ReenrollRequest token i (hostFingerprint h))"
  obtain r w where r: "signRequest h (new_request (url @ client_reenrollPath) (str_bytes body)) sk (id_AgentID i)
      client_reenrollPath (str_bytes body) (s, k) = (r, w)" by (rule prod.exhaust)
  have now: "h_now h (s, k) = (t, (s, k))" and rd: "h_rand h 16 (s, k) = (rnd k, (s, Suc k))" by (simp_all add: h_def plane_simps)
  note sr = signRequest_headers [OF now rd r]
  have path: "client_reenrollPath = reenrollPath" by (simp add: client_reenrollPath_def reenrollPath_def)
  have rq: "rq_Body (received remote r) = str_bytes body" "rq_Path (received remote r) = url @ client_reenrollPath"
    using sr(2,3) by (simp_all add: received_def new_request_def)
  define seen where "seen = snd (checkAndStore (b64_raw B64URL (rnd k)) (in_time (x (Suc k)) 1) (ss_nonces s))"
  have v: "verifySignedRequest c (in_time (x (Suc k)) 0) (in_time (x (Suc k)) 1) (received remote r) (str_bytes body)
      (b64_std_encode pub) reenrollPath (ss_nonces s) = (None, seen)"
    using signed_verifies [OF k now rd r, of "in_time (x (Suc k)) 0" "ss_nonces s" "in_time (x (Suc k)) 1" remote] ok
    by (simp add: exchange_ok_def path seen_def)
  have host: "ascii (h_GOARCH h)" "ascii (h_Hostname h)" "ascii (h_GOOS h)" by (simp_all add: h_def plane_host_def)
  obtain ms where ms: "json_Unmarshal body = Some (JvObj ms)" "decode_struct False reenrollRequest (JvObj ms) = Some ms"
    "get_string ''public_key'' ms = b64_std_encode pub" "get_string ''protocol_version'' ms = ''1.0''"
    using ReenrollRequest_read [OF asc host] pk unfolding body_def Protocol_def by metis
  have "b64_std_encode pub \<noteq> []" using k by (auto simp: b64_std_encode_Nil key_pair_def)
  then obtain s' where s': "handleReenroll c (x (Suc k)) (received remote r) s =
      (JSON 200 [(''server_id'', JStr (agt_ServerID ag)), (''agent_id'', JStr (agt_AgentID ag)), (''protocol'', JStr ''1.0'')], s')"
    "m_agents (ss_store s') = m_agents (ss_store s)" "m_agentByAID (ss_store s') = m_agentByAID (ss_store s)" "ss_nonces s' = seen"
    using handleReenroll_rebinds [of "received remote r" ms "b64_std_encode pub" c "x (Suc k)" s seen ag] rq ms v ag len by (auto simp: body_def)
  have "h_do h r w = (Some (reply_of [] (JSON 200 [(''server_id'', JStr (agt_ServerID ag)), (''agent_id'', JStr (agt_AgentID ag)), (''protocol'', JStr ''1.0'')])), s', Suc (Suc k))"
    by (simp add: h_def plane_simps sr(1) route_reenroll [OF rq(2)] s')
  then have "Reenroll h url sk (id_AgentID i) (ReenrollRequest token i (hostFingerprint h)) (s, k) =
      (Inr \<lparr>er_ServerID = agt_ServerID ag, er_AgentID = agt_AgentID ag, er_Protocol = ''1.0''\<rparr>, s', Suc (Suc k))"
    using EnrollResponse_read [OF ids, of "''1.0''" "[]" 200] plane_simps(3) [of c x t rnd signf remote "url @ client_reenrollPath"]
    unfolding Reenroll_def Let_def h_def [symmetric] body_def [symmetric] by (simp add: r reply_of_def http_simps)
  then show ?thesis using s' by (auto simp: seen_def)
qed

lemma doSigned_unknown:
  fixes c x t rnd signf remote
  defines "h \<equiv> plane_host c x t rnd signf remote"
  assumes "cl_agentID cl \<noteq> []" "GetAgentByAgentID (cl_agentID cl) (ss_store s) = Inl ErrNotFound"
  shows "\<exists>m. doSigned h cl client_ingestPath payload (s, k) = (Some (ErrUnauthorized m), s, Suc (Suc k))"
proof -
  obtain r w where r: "signRequest h (new_request (cl_baseURL cl @ client_ingestPath) payload) (cl_signer cl) (cl_agentID cl)
      client_ingestPath payload (s, k) = (r, w)" by (rule prod.exhaust)
  have now: "h_now h (s, k) = (t, (s, k))" and rd: "h_rand h 16 (s, k) = (rnd k, (s, Suc k))" by (simp_all add: h_def plane_simps)
  note sr = signRequest_headers [OF now rd r]
  have p: "rq_Path (received remote r) = cl_baseURL cl @ client_ingestPath" using sr(2) by (simp add: received_def new_request_def)
  have "handleIngest c (x (Suc k)) (received remote r) s = (Fail 401 CodeAuth unknown_agent_message, s)"
    using assms(2,3) sr(4) [of remote] by (simp add: handleIngest_def Let_def)
  then have "h_do h r w = (Some (reply_of [] (Fail 401 CodeAuth unknown_agent_message)), s, Suc (Suc k))"
    by (simp add: h_def plane_simps sr(1) route_ingest [OF p])
  then show ?thesis
    using plane_simps(3) [of c x t rnd signf remote "cl_baseURL cl @ client_ingestPath"] unfolding h_def [symmetric]
    by (simp add: doSigned_def r reply_of_def http_simps)
qed

text \<open>What the exchanges of a recovery need: the agent's own key and id, a live registration of that key
  under another id, clocks in the window and nonces that are new.\<close>

definition recoverable :: "crypto \<Rightarrow> (nat \<Rightarrow> inputs) \<Rightarrow> time \<Rightarrow> (nat \<Rightarrow> bytes) \<Rightarrow> nat \<Rightarrow> bytes \<Rightarrow> agent \<Rightarrow> enrollment \<Rightarrow> server_state \<Rightarrow> bool" where
  "recoverable c x t rnd k pub ag e s \<longleftrightarrow>
     cl_signer (en_client e) = en_signer e \<and> id_Enrolled (en_Identity e) \<and> en_nextAttempt e \<le> t \<and>
     id_PublicKey (en_Identity e) = b64_std_encode pub \<and> ascii_identity (en_Identity e) \<and> ascii (en_EnrollmentToken e) \<and>
     cl_agentID (en_client e) \<noteq> [] \<and> GetAgentByAgentID (cl_agentID (en_client e)) (ss_store s) = Inl ErrNotFound \<and>
     GetAgentByPublicKey (in_agents (x (k + 3))) (b64_std_encode pub) (ss_store s) = Inr ag \<and>
     GetAgentByAgentID (agt_AgentID ag) (ss_store s) = Inr ag \<and> agt_AgentID ag \<noteq> [] \<and> ascii (agt_AgentID ag) \<and> ascii (agt_ServerID ag) \<and>
     exchange_ok (x (k + 3)) t (rnd (k + 2)) s \<and> exchange_ok (x (k + 5)) t (rnd (k + 4)) s \<and>
     b64_raw B64URL (rnd (k + 4)) \<noteq> b64_raw B64URL (rnd (k + 2))"

lemma GetAgent_cong:
  assumes "m_agents m = m_agents m'" "m_agentByAID m = m_agentByAID m'"
  shows "GetAgentByAgentID i m = GetAgentByAgentID i m'"
  unfolding GetAgentByAgentID_def assms ..

lemma GetAgent_live: "GetAgentByAgentID i m = Inr ag \<Longrightarrow> agt_RevokedAt ag = None"
  by (auto simp: GetAgentByAgentID_def split: option.splits if_splits)

lemma GetAgentByPublicKey_key: "GetAgentByPublicKey ord pk m = Inr ag \<Longrightarrow> agt_PublicKey ag = pk"
  by (auto simp: GetAgentByPublicKey_def split: option.splits if_splits dest: find_SomeD)

lemma recover_rebinds:
  fixes c x t rnd signf remote
  defines "h \<equiv> plane_host c x t rnd signf remote"
  assumes key: "key_pair c h (en_signer e) pub" and rec: "recoverable c x t rnd k pub ag e s"
    and len: "length (json_print (ReenrollRequest (en_EnrollmentToken e) (en_Identity e) (hostFingerprint h))) \<le> 8192"
  shows "\<exists>e' s'. enrol_attempt h (e\<lparr>en_rejected := True\<rparr>) (s, k + 2) = (True, e', s', k + 4) \<and>
    en_client e' = Rebind (agt_AgentID ag) (en_client e) \<and> \<not> en_rejected e' \<and>
    registered (en_client e') pub ag s' \<and> exchange_ok (x (k + 5)) t (rnd (k + 4)) s'"
proof -
  define e1 where "e1 = e\<lparr>en_rejected := True, en_nextAttempt := t + credentialRetryEvery\<rparr>"
  obtain s' where s': "Reenroll h (en_APIURL e) (en_signer e) (id_AgentID (en_Identity e))
      (ReenrollRequest (en_EnrollmentToken e) (en_Identity e) (hostFingerprint h)) (s, k + 2) =
      (Inr \<lparr>er_ServerID = agt_ServerID ag, er_AgentID = agt_AgentID ag, er_Protocol = ''1.0''\<rparr>, s', k + 4)"
    "m_agents (ss_store s') = m_agents (ss_store s)" "m_agentByAID (ss_store s') = m_agentByAID (ss_store s)"
    "ss_nonces s' = snd (checkAndStore (b64_raw B64URL (rnd (k + 2))) (in_time (x (k + 3)) 1) (ss_nonces s))"
    using Reenroll_rebinds [OF key [unfolded h_def], of "k + 2" s "en_Identity e" "en_EnrollmentToken e" ag "en_APIURL e"] rec len
    by (auto simp: recoverable_def h_def GetAgent_live add.commute numeral_eq_Suc)
  have "ss_nonces s' (b64_raw B64URL (rnd (k + 4))) = None"
    using rec s'(4) by (auto simp: recoverable_def exchange_ok_def checkAndStore_def Let_def split: option.splits)
  then have x: "exchange_ok (x (k + 5)) t (rnd (k + 4)) s'" using rec by (simp add: recoverable_def exchange_ok_def)
  have n: "h_now h w = (t, w)" "h_save h i w = (True, w)" for w i by (simp_all add: h_def plane_host_def)
  have "enrol_attempt h (e\<lparr>en_rejected := True\<rparr>) (s, k + 2) =
      (True, enrol_adopt h \<lparr>er_ServerID = agt_ServerID ag, er_AgentID = agt_AgentID ag, er_Protocol = ''1.0''\<rparr> e1 (s', k + 4))"
    using rec s'(1) by (simp add: enrol_attempt_def n recoverable_def enrol_recover_def e1_def)
  moreover have "registered (Rebind (agt_AgentID ag) (en_client e)) pub ag s'"
    using rec GetAgent_cong [OF s'(2,3)] by (auto simp: registered_def Rebind_def recoverable_def dest: GetAgentByPublicKey_key)
  ultimately show ?thesis using x by (auto simp: enrol_adopt_def n e1_def)
qed


text \<open>An agent whose id the control plane does not know, while its key is registered.\<close>

definition lost_enrollment :: enrollment where
  "lost_enrollment = demo_enrollment\<lparr>en_Identity := (en_Identity demo_enrollment)\<lparr>id_AgentID := ''agt_0''\<rparr>,
     en_client := NewClient ''https://p'' ''agt_0'' (replicate 64 9)\<rparr>"

definition lost_inputs :: "nat \<Rightarrow> inputs" where
  "lost_inputs k = (peer_inputs k)\<lparr>in_agents := [''1'']\<rparr>"

definition lost_rnd :: "nat \<Rightarrow> bytes" where
  "lost_rnd k = (if k = 2 then [1] else [1, 1])"

abbreviation lost_net :: "(server_state \<times> nat) host" where
  "lost_net \<equiv> plane_host demo_crypto lost_inputs 0 lost_rnd (\<lambda>_ _. replicate 64 1) ''10.0.0.1:99''"

lemma lost_recoverable: "recoverable demo_crypto lost_inputs 0 lost_rnd 0 (replicate 32 5) peer_agent lost_enrollment demo_plane"
proof -
  have "b64_raw B64URL (lost_rnd 4) \<noteq> b64_raw B64URL (lost_rnd 2)" using b64_raw_inj by (fastforce simp: lost_rnd_def)
  moreover have "GetAgentByPublicKey [''1''] (b64_std_encode (replicate 32 5)) (ss_store demo_plane) = Inr peer_agent"
    by (simp add: GetAgentByPublicKey_def demo_plane_def New_def NewMemory_def range_vals_def peer_agent_def b64_std_encode_Nil)
  ultimately show ?thesis
    by (simp add: recoverable_def lost_enrollment_def demo_enrollment_def NewClient_def lost_inputs_def peer_inputs_def ascii_identity_def
        b64_std_encode_def ascii_b64 demo_plane_def New_def NewMemory_def GetAgentByAgentID_def peer_agent_def exchange_ok_def clocks_close_def lost_rnd_def)
qed

lemma lost_request_short: "length (json_print (ReenrollRequest (en_EnrollmentToken lost_enrollment) (en_Identity lost_enrollment) (hostFingerprint lost_net))) \<le> 8192"
  using demo_key_text
    by (simp add: hostFingerprint_def plane_host_def ReenrollRequest_def omitempty_def jobject_def object_text_def lost_enrollment_def demo_enrollment_def Protocol_def
        json_quote_plain json_escape_char_def quote_def backslash_def)


end
