(* ===== verification/Pulse_Ssh.thy ===== *)
theory Pulse_Ssh
  imports Pulse_Http Pulse_Store_Props Pulse_Wsx Pulse_Systems
begin

section \<open>The SSH console: dialling, key set-up, sessions\<close>

text \<open>
  \<^verbatim>\<open>sshx/sshx.go\<close> and \<^verbatim>\<open>sshx/dial_ssh.go\<close>. The SSH library is an argument (record \<open>gossh\<close>): whether a
  key parses, what a host answers to a connection, which host key it presents, whether it accepts the
  authentication. Sessions are shared objects: the manager keeps them on a heap, a list indexed by
  address, and its table maps session ids to addresses. Terminals are numbers; \<open>mg_closed\<close> lists
  those that were closed.
\<close>

subsection \<open>Errors and credentials\<close>

datatype ssh_error =
    ErrUnsupported | ErrDisabled | ErrNoAuth | ErrBadKey string | ErrAuth string | ErrNoPasswordAuth string
  | ErrHostKeyMismatch | ErrSshNotFound | ErrAlreadyAttached | ErrTooMany | ErrSessionClosed
  | ErrReach string string | ErrRandom | ErrShell string string

fun ssh_Error :: "ssh_error \<Rightarrow> string" where
  "ssh_Error ErrUnsupported = ''the SSH console is not compiled into this build''"
| "ssh_Error ErrDisabled = ''the SSH console is disabled on this control plane''"
| "ssh_Error ErrNoAuth = ''provide a password or a private key''"
| "ssh_Error (ErrBadKey e) = ''the private key could not be parsed ('' @ e @ '')''"
| "ssh_Error (ErrAuth e) = ''the server rejected these credentials ('' @ e @ '')''"
| "ssh_Error (ErrNoPasswordAuth e) = ''this host does not offer password logins for that user ('' @ e @ '')''"
| "ssh_Error ErrHostKeyMismatch = ''the host key does not match the fingerprint this browser trusted''"
| "ssh_Error ErrSshNotFound = ''ssh session not found''"
| "ssh_Error ErrAlreadyAttached = ''this ssh session is already open in another tab''"
| "ssh_Error ErrTooMany = ''too many open ssh sessions''"
| "ssh_Error ErrSessionClosed = ''the ssh session has ended''"
| "ssh_Error (ErrReach a e) = ''could not reach '' @ a @ '': '' @ e"
| "ssh_Error ErrRandom = ''random source failed''"
| "ssh_Error (ErrShell what e) = what @ '': '' @ e"

definition maxSessionsPerUser :: nat where "maxSessionsPerUser = 4"
definition maxSessionsTotal :: nat where "maxSessionsTotal = 64"
definition attachWindow :: duration where "attachWindow = 60 * second"
definition idleLifetime :: duration where "idleLifetime = 8 * 3600 * second"

record ssh_credentials =
  cr_Host :: string
  cr_Port :: int
  cr_User :: string
  cr_Password :: string
  cr_PrivateKey :: string
  cr_Passphrase :: string
  cr_KnownFingerprint :: string

subsection \<open>String functions of the package\<close>

text \<open>\<open>strings.Index\<close> and \<open>strings.SplitN\<close> with a one-byte separator, \<open>strings.TrimRight\<close> with a
  one-byte cut set.\<close>

fun str_Index :: "string \<Rightarrow> string \<Rightarrow> nat option" where
  "str_Index [] p = (if p = [] then Some 0 else None)"
| "str_Index (c # s) p = (if HasPrefix (c # s) p then Some 0 else map_option Suc (str_Index s p))"

fun SplitN :: "nat \<Rightarrow> string \<Rightarrow> char \<Rightarrow> string list" where
  "SplitN 0 s sep = []"
| "SplitN (Suc 0) s sep = [s]"
| "SplitN (Suc (Suc n)) s sep =
     (case Cut s sep of (a, b, ok) \<Rightarrow> if ok then a # SplitN (Suc n) b sep else [s])"

definition TrimRightChar :: "string \<Rightarrow> char \<Rightarrow> string" where
  "TrimRightChar s c = rev (dropWhile (\<lambda>d. d = c) (rev s))"

definition clamp :: "int \<Rightarrow> int \<Rightarrow> int" where
  "clamp v def = (if v < 1 \<or> v > 1000 then def else v)"

text \<open>\<open>shellQuote\<close>: a quote becomes quote, backslash, quote, quote.\<close>

definition squote :: char where "squote = CHR 0x27"

definition shellQuote :: "string \<Rightarrow> string" where
  "shellQuote s = squote # concat (map (\<lambda>c. if c = squote then [squote, CHR 0x5C, squote, squote] else [c]) s) @ [squote]"

definition label_char :: "char \<Rightarrow> bool" where
  "label_char c = (let n = (of_char c :: nat) in
     97 \<le> n \<and> n \<le> 122 \<or> 65 \<le> n \<and> n \<le> 90 \<or> 48 \<le> n \<and> n \<le> 57 \<or> c \<in> set ''.-_'')"

text \<open>The loop of \<open>sanitiseLabel\<close>: kept characters so far, stopping at forty. A rune outside ASCII is
  dropped byte by byte.\<close>

fun sanitise_scan :: "string \<Rightarrow> string \<Rightarrow> string" where
  "sanitise_scan [] b = b"
| "sanitise_scan (c # s) b =
     (let b' = (if label_char c then b @ [c] else b) in if 40 \<le> length b' then b' else sanitise_scan s b')"

definition sanitiseLabel :: "string \<Rightarrow> string" where
  "sanitiseLabel label = (let b = sanitise_scan label [] in if b = [] then [] else CHR ''@'' # b)"

subsection \<open>Dialling\<close>

text \<open>What the SSH library and the network provide: parsing of a private key (an error text, or
  \<open>None\<close> for success), the TCP connection, the host key the server presents, the result of the
  authentication once the host key was accepted, and the steps of opening a shell (the error text of
  the step that fails and its message, or the terminal).\<close>

datatype auth_method = PublicKeys string | Password string | KeyboardInteractive string

record gossh =
  g_parse :: "string \<Rightarrow> string \<Rightarrow> string option"
  g_connect :: "string \<Rightarrow> string option"
  g_hostkey :: "string \<Rightarrow> bytes"
  g_auth :: "string \<Rightarrow> string \<Rightarrow> auth_method list \<Rightarrow> string option"
  g_shell :: "string \<Rightarrow> int \<Rightarrow> int \<Rightarrow> (string \<times> string) + nat"

definition authMethods :: "gossh \<Rightarrow> ssh_credentials \<Rightarrow> ssh_error + auth_method list" where
  "authMethods g c =
     (let key = TrimSpace (cr_PrivateKey c);
          pw = (if cr_Password c \<noteq> [] then [Password (cr_Password c), KeyboardInteractive (cr_Password c)] else [])
      in if key \<noteq> [] then
           (case g_parse g key (cr_Passphrase c) of
              Some e \<Rightarrow> Inl (ErrBadKey e)
            | None \<Rightarrow> Inr (PublicKeys key # pw))
         else if pw = [] then Inl ErrNoAuth else Inr pw)"

definition attemptedMethods :: "string \<Rightarrow> string list option" where
  "attemptedMethods msg =
     (case str_Index msg ''attempted methods ['' of
        None \<Rightarrow> None
      | Some i \<Rightarrow>
          let rest = drop (i + length ''attempted methods ['') msg in
          (case str_Index rest '']'' of None \<Rightarrow> None | Some j \<Rightarrow> Some (Fields (take j rest))))"

definition passwordNeverOffered :: "ssh_credentials \<Rightarrow> string \<Rightarrow> bool" where
  "passwordNeverOffered c err =
     (if cr_Password c = [] then False
      else case attemptedMethods err of
          None \<Rightarrow> False
        | Some methods \<Rightarrow> \<not> list_ex (\<lambda>m. m = ''password'' \<or> m = ''keyboard-interactive'') methods)"

definition fingerprint_of :: "(bytes \<Rightarrow> bytes) \<Rightarrow> bytes \<Rightarrow> string" where
  "fingerprint_of sha256 hk = ''SHA256:'' @ TrimRightChar (b64_std_encode (sha256 hk)) (CHR ''='')"

definition hostKey_ok :: "ssh_credentials \<Rightarrow> string \<Rightarrow> bool" where
  "hostKey_ok c fingerprint = (cr_KnownFingerprint c = [] \<or> cr_KnownFingerprint c = fingerprint)"

definition JoinHostPort :: "string \<Rightarrow> int \<Rightarrow> string" where
  "JoinHostPort host port =
     (if CHR '':'' \<in> set host then ''['' @ host @ '']:'' @ Itoa port else host @ '':'' @ Itoa port)"

text \<open>\<open>dialClient\<close>: the address of the authenticated client, and the fingerprint seen.\<close>

definition dialClient :: "(bytes \<Rightarrow> bytes) \<Rightarrow> gossh \<Rightarrow> ssh_credentials \<Rightarrow> (ssh_error + string) \<times> string" where
  "dialClient sha256 g c =
     (case authMethods g c of
        Inl e \<Rightarrow> (Inl e, [])
      | Inr auths \<Rightarrow>
          let addr = JoinHostPort (cr_Host c) (cr_Port c) in
          (case g_connect g addr of
             Some e \<Rightarrow> (Inl (ErrReach addr e), [])
           | None \<Rightarrow>
               let fingerprint = fingerprint_of sha256 (g_hostkey g addr) in
               if \<not> hostKey_ok c fingerprint then (Inl ErrHostKeyMismatch, fingerprint)
               else (case g_auth g addr (cr_User c) auths of
                   None \<Rightarrow> (Inr addr, fingerprint)
                 | Some err \<Rightarrow>
                     (Inl (if passwordNeverOffered c err then ErrNoPasswordAuth err else ErrAuth err), fingerprint))))"

definition Dial :: "(bytes \<Rightarrow> bytes) \<Rightarrow> gossh \<Rightarrow> ssh_credentials \<Rightarrow> int \<Rightarrow> int \<Rightarrow> (ssh_error + nat) \<times> string" where
  "Dial sha256 g c cols rows =
     (case dialClient sha256 g c of
        (Inl e, fp) \<Rightarrow> (Inl e, fp)
      | (Inr client, fp) \<Rightarrow>
          (case g_shell g client (clamp rows 24) (clamp cols 80) of
             Inl (what, e) \<Rightarrow> (Inl (ErrShell what e), fp)
           | Inr term \<Rightarrow> (Inr term, fp)))"

subsection \<open>Key set-up\<close>

record setup_step =
  st_Name :: string
  st_Status :: string
  st_Detail :: string

record setup_result =
  sr_Steps :: "setup_step list"
  sr_Info :: "(string \<times> string) list"
  sr_PublicKey :: string
  sr_PrivateKey :: string
  sr_Fingerprint :: string
  sr_Verified :: bool
  sr_Warnings :: "string list"

definition mk_step :: "string \<Rightarrow> string \<Rightarrow> string \<Rightarrow> setup_step" where
  "mk_step n s d = \<lparr>st_Name = n, st_Status = s, st_Detail = d\<rparr>"

definition info_set :: "string \<Rightarrow> string \<Rightarrow> (string \<times> string) list \<Rightarrow> (string \<times> string) list" where
  "info_set k v l = filter (\<lambda>(k', _). k' \<noteq> k) l @ [(k, v)]"

definition parse_setup_line :: "string \<Rightarrow> setup_result \<Rightarrow> setup_result" where
  "parse_setup_line raw res =
     (let line = TrimSpace raw in
      if HasPrefix line ''PULSE-STEP:'' then
        (case SplitN 3 (TrimPrefix line ''PULSE-STEP:'') (CHR '':'') of
           [a, b, d] \<Rightarrow>
             if a = ''done'' then res\<lparr>sr_Steps := sr_Steps res @ [mk_step ''done'' ''ok'' d]\<rparr>
             else res\<lparr>sr_Steps := sr_Steps res @ [mk_step a b d]\<rparr>
         | _ \<Rightarrow> res)
      else if HasPrefix line ''PULSE-INFO:'' then
        (case SplitN 2 (TrimPrefix line ''PULSE-INFO:'') (CHR '':'') of
           [a, b] \<Rightarrow> if b \<noteq> [] then res\<lparr>sr_Info := info_set a b (sr_Info res)\<rparr> else res
         | _ \<Rightarrow> res)
      else res)"

definition parseSetupOutput :: "string \<Rightarrow> setup_result \<Rightarrow> setup_result" where
  "parseSetupOutput out res = fold parse_setup_line (Split out (CHR 0x0A)) res"

definition hasStep :: "setup_result \<Rightarrow> string \<Rightarrow> bool" where
  "hasStep res name = list_ex (\<lambda>s. st_Name s = name) (sr_Steps res)"

definition lastLine :: "string \<Rightarrow> string" where
  "lastLine s = last (Split (TrimRightChar s (CHR 0x0A)) (CHR 0x0A))"

definition verifyHint :: "setup_result \<Rightarrow> string" where
  "verifyHint res =
     (if map_of (sr_Info res) ''pubkey_authentication'' = Some ''no'' then
        ''sshd has PubkeyAuthentication no '' @ [CHR 0xE2, CHR 0x80, CHR 0x94] @ '' key logins are switched off on this host. '' @
        ''Enable it in /etc/ssh/sshd_config and reload sshd.''
      else if map_of (sr_Info res) ''permit_root_login'' = Some ''no'' then
        ''sshd has PermitRootLogin no '' @ [CHR 0xE2, CHR 0x80, CHR 0x94] @ '' sign in as a non-root user instead.''
      else ''sshd did not accept the new key. Check the home directory permissions '' @
        ''(700 on ~/.ssh, 600 on authorized_keys) and /var/log/auth.log.'')"

text \<open>\<open>InstallKey\<close>: \<open>keys\<close> is the generated pair as its public line (without the comment) and its PEM
  text, or the error; \<open>exec\<close> runs the script with the two quoted words (\<open>Inl\<close>: no session; else the
  output and the error text of the run, if any). The result carries progress next to an error.\<close>

record key_text =
  kt_Authorized :: string
  kt_PEM :: "string \<Rightarrow> string"

definition InstallKey :: "(bytes \<Rightarrow> bytes) \<Rightarrow> gossh \<Rightarrow> (ssh_error + key_text) \<Rightarrow>
    (string \<Rightarrow> string \<Rightarrow> string \<Rightarrow> string + string \<times> string option) \<Rightarrow> ssh_credentials \<Rightarrow> string \<Rightarrow> setup_result option \<times> ssh_error option" where
  "InstallKey sha256 g keys exec c label =
     (case keys of
        Inl e \<Rightarrow> (None, Some e)
      | Inr k \<Rightarrow>
          let comment = ''pulse-console'' @ sanitiseLabel label;
              authorizedKey = TrimSpace (kt_Authorized k) @ '' '' @ comment;
              privatePEM = kt_PEM k comment
          in (case dialClient sha256 g c of
             (Inl e, _) \<Rightarrow> (None, Some e)
           | (Inr client, fingerprint) \<Rightarrow>
               (case exec client (shellQuote authorizedKey) (shellQuote comment) of
                  Inl e \<Rightarrow> (None, Some (ErrShell ''could not open a session'' e))
                | Inr (out, runErr) \<Rightarrow>
                    let res = parseSetupOutput out \<lparr>sr_Steps = [], sr_Info = [], sr_PublicKey = authorizedKey, sr_PrivateKey = privatePEM,
                                sr_Fingerprint = fingerprint, sr_Verified = False, sr_Warnings = []\<rparr>
                    in if runErr \<noteq> None \<and> \<not> hasStep res ''done'' then
                         let d0 = TrimSpace (lastLine out); detail = (if d0 = [] then the runErr else d0)
                         in (Some (res\<lparr>sr_Steps := sr_Steps res @ [mk_step ''run'' ''error'' detail]\<rparr>),
                             Some (ErrShell ''setup could not run on the host'' detail))
                       else
                         let verifyCreds = \<lparr>cr_Host = cr_Host c, cr_Port = cr_Port c, cr_User = cr_User c, cr_Password = [],
                               cr_PrivateKey = privatePEM, cr_Passphrase = [], cr_KnownFingerprint = fingerprint\<rparr>
                         in (case fst (dialClient sha256 g verifyCreds) of
                               Inr _ \<Rightarrow> (Some (res\<lparr>sr_Verified := True, sr_Steps := sr_Steps res @
                                  [mk_step ''verify'' ''ok'' (''signed in again using the new key '' @ [CHR 0xE2, CHR 0x80, CHR 0x94] @ '' no password needed'')]\<rparr>), None)
                             | Inl _ \<Rightarrow>
                                 let res1 = res\<lparr>sr_Steps := sr_Steps res @
                                       [mk_step ''verify'' ''warn'' ''the key was installed but a test login with it did not succeed'']\<rparr>
                                 in (Some (res1\<lparr>sr_Warnings := sr_Warnings res1 @ [verifyHint res1]\<rparr>), None)))))"

subsection \<open>Sessions and their manager\<close>

record ssh_session =
  sh_ID :: string
  sh_OrgID :: string
  sh_UserID :: string
  sh_ServerID :: string
  sh_Host :: string
  sh_Port :: int
  sh_User :: string
  sh_Fingerprint :: string
  sh_CreatedAt :: time
  sh_term :: "nat option"
  sh_attached :: bool
  sh_closed :: bool

record ssh_manager =
  mg_enabled :: bool
  mg_compiled :: bool
  mg_sessions :: "(string \<times> nat) list"
  mg_heap :: "ssh_session list"
  mg_closed :: "nat list"

definition NewSshManager :: "bool \<Rightarrow> bool \<Rightarrow> ssh_manager" where
  "NewSshManager compiled enabled = \<lparr>mg_enabled = enabled, mg_compiled = compiled, mg_sessions = [], mg_heap = [], mg_closed = []\<rparr>"

definition Enabled :: "ssh_manager \<Rightarrow> bool" where
  "Enabled m \<longleftrightarrow> mg_enabled m \<and> mg_compiled m"

definition Unavailable :: "ssh_manager \<Rightarrow> ssh_error option" where
  "Unavailable m = (if \<not> mg_compiled m then Some ErrUnsupported else if \<not> mg_enabled m then Some ErrDisabled else None)"

text \<open>\<open>Read\<close>, \<open>Write\<close> and \<open>Resize\<close> of a session go to its terminal, unless the session has ended.\<close>

definition session_term :: "nat \<Rightarrow> ssh_manager \<Rightarrow> ssh_error + nat" where
  "session_term a m =
     (let s = mg_heap m ! a in
      if sh_closed s then Inl ErrSessionClosed
      else case sh_term s of None \<Rightarrow> Inl ErrSessionClosed | Some t \<Rightarrow> Inr t)"

definition session_close :: "nat \<Rightarrow> ssh_manager \<Rightarrow> ssh_manager" where
  "session_close a m =
     (let s = mg_heap m ! a in
      if sh_closed s then m
      else m\<lparr>mg_heap := (mg_heap m)[a := s\<lparr>sh_closed := True, sh_term := None\<rparr>],
             mg_closed := mg_closed m @ (case sh_term s of None \<Rightarrow> [] | Some t \<Rightarrow> [t])\<rparr>)"

definition checkQuota :: "string \<Rightarrow> ssh_manager \<Rightarrow> ssh_error option" where
  "checkQuota userID m =
     (if maxSessionsTotal \<le> length (mg_sessions m) then Some ErrTooMany
      else if maxSessionsPerUser \<le> length (filter (\<lambda>(_, a). sh_UserID (mg_heap m ! a) = userID) (mg_sessions m)) then Some ErrTooMany
      else None)"

definition newID :: "bytes option \<Rightarrow> string option" where
  "newID rnd = map_option (\<lambda>b. ''ssh_'' @ hex_encode b) rnd"

text \<open>The two halves of \<open>Open\<close>, before and after the dial: other calls can run in between.\<close>

definition open_begin :: "string \<Rightarrow> ssh_manager \<Rightarrow> ssh_error option" where
  "open_begin userID m = (case Unavailable m of Some e \<Rightarrow> Some e | None \<Rightarrow> checkQuota userID m)"

definition open_finish :: "string \<Rightarrow> string \<Rightarrow> string \<Rightarrow> ssh_credentials \<Rightarrow> (ssh_error + nat) \<times> string \<Rightarrow> bytes option \<Rightarrow> time \<Rightarrow>
    ssh_manager \<Rightarrow> ((ssh_error + nat) \<times> string) \<times> ssh_manager" where
  "open_finish orgID userID serverID c dialled rnd now m =
     (case dialled of
        (Inl e, fp) \<Rightarrow> ((Inl e, fp), m)
      | (Inr term, fp) \<Rightarrow>
          (case newID rnd of
             None \<Rightarrow> ((Inl ErrRandom, fp), m\<lparr>mg_closed := mg_closed m @ [term]\<rparr>)
           | Some i \<Rightarrow>
               let s = \<lparr>sh_ID = i, sh_OrgID = orgID, sh_UserID = userID, sh_ServerID = serverID, sh_Host = cr_Host c, sh_Port = cr_Port c,
                        sh_User = cr_User c, sh_Fingerprint = fp, sh_CreatedAt = now, sh_term = Some term, sh_attached = False, sh_closed = False\<rparr>;
                   a = length (mg_heap m)
               in ((Inr a, fp), m\<lparr>mg_heap := mg_heap m @ [s], mg_sessions := (i, a) # filter (\<lambda>(k, _). k \<noteq> i) (mg_sessions m)\<rparr>)))"

definition ssh_Open :: "string \<Rightarrow> string \<Rightarrow> string \<Rightarrow> ssh_credentials \<Rightarrow> (ssh_error + nat) \<times> string \<Rightarrow> bytes option \<Rightarrow> time \<Rightarrow>
    ssh_manager \<Rightarrow> ((ssh_error + nat) \<times> string) \<times> ssh_manager" where
  "ssh_Open orgID userID serverID c dialled rnd now m =
     (case open_begin userID m of
        Some e \<Rightarrow> ((Inl e, []), m)
      | None \<Rightarrow> open_finish orgID userID serverID c dialled rnd now m)"

definition ssh_Get :: "string \<Rightarrow> string \<Rightarrow> string \<Rightarrow> ssh_manager \<Rightarrow> nat option" where
  "ssh_Get orgID userID i m =
     (case map_of (mg_sessions m) i of
        None \<Rightarrow> None
      | Some a \<Rightarrow> if sh_OrgID (mg_heap m ! a) \<noteq> orgID \<or> sh_UserID (mg_heap m ! a) \<noteq> userID then None else Some a)"

definition ssh_Attach :: "nat \<Rightarrow> ssh_manager \<Rightarrow> ssh_error option \<times> ssh_manager" where
  "ssh_Attach a m =
     (let s = mg_heap m ! a in
      if sh_closed s then (Some ErrSessionClosed, m)
      else if sh_attached s then (Some ErrAlreadyAttached, m)
      else (None, m\<lparr>mg_heap := (mg_heap m)[a := s\<lparr>sh_attached := True\<rparr>]\<rparr>))"

definition CloseSession :: "nat \<Rightarrow> ssh_manager \<Rightarrow> ssh_manager" where
  "CloseSession a m =
     session_close a (m\<lparr>mg_sessions := filter (\<lambda>(k, _). k \<noteq> sh_ID (mg_heap m ! a)) (mg_sessions m)\<rparr>)"

definition Shutdown :: "ssh_manager \<Rightarrow> ssh_manager" where
  "Shutdown m = fold session_close (map snd (mg_sessions m)) (m\<lparr>mg_sessions := []\<rparr>)"

definition ssh_stale :: "time \<Rightarrow> ssh_session \<Rightarrow> bool" where
  "ssh_stale now s \<longleftrightarrow> (\<not> sh_attached s \<and> time_Sub now (sh_CreatedAt s) > attachWindow) \<or>
     time_Sub now (sh_CreatedAt s) > idleLifetime \<or> sh_closed s"

definition reap :: "time \<Rightarrow> ssh_manager \<Rightarrow> ssh_manager" where
  "reap now m =
     (let (dead, live) = partition (\<lambda>(_, a). ssh_stale now (mg_heap m ! a)) (mg_sessions m)
      in fold session_close (map snd dead) (m\<lparr>mg_sessions := live\<rparr>))"

subsection \<open>The manager as a state machine\<close>

text \<open>Calls as they interleave. \<open>BeginOpen\<close> is the check of one \<open>Open\<close> call, \<open>FinishOpen\<close> what follows its
  dial; between the two the caller is among the pending ones. The second phase of \<open>CloseSession\<close>, \<open>reap\<close>
  and \<open>Shutdown\<close>, closing what was taken out of the table, is idempotent and part of the same step.\<close>

datatype ssh_op =
    BeginOpen string string
  | FinishOpen nat string ssh_credentials "(ssh_error + nat) \<times> string" "bytes option" time
  | OpAttach nat
  | OpClose nat
  | OpReap time
  | OpShutdown

type_synonym ssh_system = "ssh_manager \<times> (string \<times> string) list"

fun ssh_step :: "ssh_op \<Rightarrow> ssh_system \<Rightarrow> ssh_system" where
  "ssh_step (BeginOpen orgID userID) (m, ps) = (case open_begin userID m of None \<Rightarrow> (m, ps @ [(orgID, userID)]) | Some _ \<Rightarrow> (m, ps))"
| "ssh_step (FinishOpen i serverID c dialled rnd now) (m, ps) =
     (if i < length ps
      then (snd (open_finish (fst (ps ! i)) (snd (ps ! i)) serverID c dialled rnd now m), take i ps @ drop (Suc i) ps)
      else (m, ps))"
| "ssh_step (OpAttach a) (m, ps) = (snd (ssh_Attach a m), ps)"
| "ssh_step (OpClose a) (m, ps) = (CloseSession a m, ps)"
| "ssh_step (OpReap now) (m, ps) = (reap now m, ps)"
| "ssh_step OpShutdown (m, ps) = (Shutdown m, ps)"

text \<open>Handlers refer to sessions they got from the manager; a new session id was never used.\<close>

fun ssh_ok :: "ssh_op \<Rightarrow> ssh_system \<Rightarrow> bool" where
  "ssh_ok (OpAttach a) (m, ps) = (a < length (mg_heap m))"
| "ssh_ok (OpClose a) (m, ps) = (a < length (mg_heap m))"
| "ssh_ok (FinishOpen i serverID c dialled rnd now) (m, ps) =
     (case newID rnd of None \<Rightarrow> True | Some k \<Rightarrow> k \<notin> sh_ID ` set (mg_heap m))"
| "ssh_ok _ _ = True"

subsection \<open>What holds of the manager at all times\<close>

definition ssh_closed_of :: "ssh_session \<Rightarrow> ssh_session" where
  "ssh_closed_of s = s\<lparr>sh_closed := True, sh_term := None\<rparr>"

definition ssh_inv :: "ssh_manager \<Rightarrow> bool" where
  "ssh_inv m \<longleftrightarrow>
     (\<forall>p\<in>set (mg_sessions m). snd p < length (mg_heap m) \<and> sh_ID (mg_heap m ! snd p) = fst p) \<and>
     distinct (map fst (mg_sessions m)) \<and> distinct (map sh_ID (mg_heap m)) \<and>
     (\<forall>s\<in>set (mg_heap m). sh_closed s \<longleftrightarrow> sh_term s = None) \<and>
     (\<forall>a<length (mg_heap m). sh_closed (mg_heap m ! a) \<or> (sh_ID (mg_heap m ! a), a) \<in> set (mg_sessions m))"

lemma ssh_closed_of_id: "sh_closed s \<Longrightarrow> sh_term s = None \<Longrightarrow> ssh_closed_of s = s"
  by (simp add: ssh_closed_of_def)

lemma session_close_simps [simp]:
  "mg_sessions (session_close a m) = mg_sessions m" "length (mg_heap (session_close a m)) = length (mg_heap m)"
  by (simp_all add: session_close_def Let_def)

lemma ssh_invD:
  assumes "ssh_inv m"
  shows ssh_inv_entry: "p \<in> set (mg_sessions m) \<Longrightarrow> snd p < length (mg_heap m) \<and> sh_ID (mg_heap m ! snd p) = fst p"
    and ssh_inv_keys: "distinct (map fst (mg_sessions m))"
    and ssh_inv_ids: "distinct (map sh_ID (mg_heap m))"
    and ssh_inv_term: "s \<in> set (mg_heap m) \<Longrightarrow> sh_closed s \<longleftrightarrow> sh_term s = None"
    and ssh_inv_open: "a < length (mg_heap m) \<Longrightarrow> \<not> sh_closed (mg_heap m ! a) \<Longrightarrow> (sh_ID (mg_heap m ! a), a) \<in> set (mg_sessions m)"
  using assms unfolding ssh_inv_def by blast+

lemma ssh_inv_same:
  assumes "ssh_inv m" "a < length (mg_heap m)" "p \<in> set (mg_sessions m)"
  shows "fst p = sh_ID (mg_heap m ! a) \<longleftrightarrow> snd p = a"
  using ssh_inv_entry [OF assms(1,3)] ssh_inv_ids [OF assms(1)] assms(2) by (metis length_map nth_eq_iff_index_eq nth_map)

lemma session_close_heap:
  assumes "sh_closed (mg_heap m ! a) \<Longrightarrow> sh_term (mg_heap m ! a) = None"
  shows "mg_heap (session_close a m) = (mg_heap m)[a := ssh_closed_of (mg_heap m ! a)]"
proof (cases "sh_closed (mg_heap m ! a)")
  case True
  then show ?thesis using ssh_closed_of_id [OF True] assms by (simp add: session_close_def)
qed (simp add: session_close_def Let_def ssh_closed_of_def)

lemma fold_close_simps [simp]:
  "mg_sessions (fold session_close as m) = mg_sessions m" "length (mg_heap (fold session_close as m)) = length (mg_heap m)"
  by (induction as arbitrary: m) simp_all

lemma ssh_closed_of_idem [simp]: "ssh_closed_of (ssh_closed_of s) = ssh_closed_of s" "sh_ID (ssh_closed_of s) = sh_ID s"
  "sh_closed (ssh_closed_of s)" "sh_term (ssh_closed_of s) = None"
  by (simp_all add: ssh_closed_of_def)

lemma fold_close_heap:
  assumes "\<forall>a\<in>set as. a < length (mg_heap m)" "\<forall>s\<in>set (mg_heap m). sh_closed s \<longrightarrow> sh_term s = None" "b < length (mg_heap m)"
  shows "mg_heap (fold session_close as m) ! b = (if b \<in> set as then ssh_closed_of (mg_heap m ! b) else mg_heap m ! b)"
  using assms
proof (induction as arbitrary: m)
  case (Cons a as)
  have h: "mg_heap (session_close a m) = (mg_heap m)[a := ssh_closed_of (mg_heap m ! a)]"
    using Cons.prems by (intro session_close_heap) auto
  have "\<forall>s\<in>set (mg_heap (session_close a m)). sh_closed s \<longrightarrow> sh_term s = None"
    using Cons.prems(2) set_update_subset_insert [of "mg_heap m" a] unfolding h by fastforce
  then have "mg_heap (fold session_close as (session_close a m)) ! b =
      (if b \<in> set as then ssh_closed_of (mg_heap (session_close a m) ! b) else mg_heap (session_close a m) ! b)"
    using Cons.prems by (intro Cons.IH) simp_all
  then show ?case using Cons.prems(3) unfolding h by (cases "a = b") simp_all
qed simp

text \<open>Taking sessions out of the table and closing them keeps the invariant.\<close>

lemma fold_close_inv:
  assumes inv: "ssh_inv m" and as: "set as \<subseteq> snd ` set (mg_sessions m)"
    and live: "mg_sessions m' = filter (\<lambda>p. snd p \<notin> set as) (mg_sessions m)" "mg_heap m' = mg_heap m"
  shows "ssh_inv (fold session_close as m')"
proof -
  note d = ssh_invD [OF inv]
  define n where "n = fold session_close as m'"
  have asl: "\<forall>a\<in>set as. a < length (mg_heap m')" using as d(1) live(2) by fastforce
  have n: "mg_sessions n = mg_sessions m'" "length (mg_heap n) = length (mg_heap m)" by (simp_all add: n_def live)
  have heap: "mg_heap n ! b = (if b \<in> set as then ssh_closed_of (mg_heap m ! b) else mg_heap m ! b)"
    if "b < length (mg_heap m)" for b
    unfolding n_def using fold_close_heap [OF asl] d(4) that live(2) by simp
  have id: "sh_ID (mg_heap n ! b) = sh_ID (mg_heap m ! b)" if "b < length (mg_heap m)" for b using heap [OF that] by simp
  then have ids: "map sh_ID (mg_heap n) = map sh_ID (mg_heap m)" using n(2) by (intro nth_equalityI) simp_all
  have "sh_closed s \<longleftrightarrow> sh_term s = None" if s: "s \<in> set (mg_heap n)" for s
  proof -
    obtain b where "b < length (mg_heap m)" "s = mg_heap n ! b" using s n(2) by (auto simp: in_set_conv_nth)
    then show ?thesis using heap d(4) by simp
  qed
  moreover have "sh_closed (mg_heap n ! b) \<or> (sh_ID (mg_heap n ! b), b) \<in> set (mg_sessions n)" if "b < length (mg_heap n)" for b
    using heap [of b] d(5) [of b] that n live(1) by auto
  moreover have "snd p < length (mg_heap n) \<and> sh_ID (mg_heap n ! snd p) = fst p" if "p \<in> set (mg_sessions n)" for p
    using d(1) [of p] id [of "snd p"] that n live(1) by simp
  moreover have "distinct (map fst (mg_sessions n))" using d(2) live(1) n by (simp add: distinct_map_filter)
  ultimately show ?thesis using d(3) unfolding n_def [symmetric] ssh_inv_def ids by blast
qed

lemma CloseSession_inv:
  assumes "ssh_inv m" "a < length (mg_heap m)"
  shows "ssh_inv (CloseSession a m)"
proof (cases "a \<in> snd ` set (mg_sessions m)")
  case True
  have "filter (\<lambda>(k, _). k \<noteq> sh_ID (mg_heap m ! a)) (mg_sessions m) = filter (\<lambda>p. snd p \<notin> set [a]) (mg_sessions m)"
    by (rule filter_cong [OF refl]) (use ssh_inv_same [OF assms] in \<open>auto simp: case_prod_unfold\<close>)
  then show ?thesis using fold_close_inv [OF assms(1), of "[a]"] True by (simp add: CloseSession_def)
next
  case False
  then have c: "sh_closed (mg_heap m ! a)" using ssh_inv_open [OF assms] by force
  have "filter (\<lambda>(k, _). k \<noteq> sh_ID (mg_heap m ! a)) (mg_sessions m) = mg_sessions m"
    using ssh_inv_same [OF assms] False by (force simp: filter_id_conv)
  then show ?thesis using c assms(1) by (simp add: CloseSession_def session_close_def)
qed

lemma Shutdown_inv: "ssh_inv m \<Longrightarrow> ssh_inv (Shutdown m)"
  unfolding Shutdown_def by (rule fold_close_inv [of m]) (auto simp: filter_empty_conv)

lemma reap_eq:
  "reap now m = fold session_close (map snd (filter (\<lambda>p. ssh_stale now (mg_heap m ! snd p)) (mg_sessions m)))
     (m\<lparr>mg_sessions := filter (\<lambda>p. \<not> ssh_stale now (mg_heap m ! snd p)) (mg_sessions m)\<rparr>)"
  by (simp add: reap_def Let_def comp_def case_prod_unfold)

lemma reap_inv:
  assumes "ssh_inv m"
  shows "ssh_inv (reap now m)"
  unfolding reap_eq
proof (rule fold_close_inv [OF assms])
  show "mg_sessions (m\<lparr>mg_sessions := filter (\<lambda>p. \<not> ssh_stale now (mg_heap m ! snd p)) (mg_sessions m)\<rparr>) =
      filter (\<lambda>p. snd p \<notin> set (map snd (filter (\<lambda>p. ssh_stale now (mg_heap m ! snd p)) (mg_sessions m)))) (mg_sessions m)"
    by (auto intro!: filter_cong)
qed auto

lemma Attach_inv:
  assumes "ssh_inv m" "a < length (mg_heap m)"
  shows "ssh_inv (snd (ssh_Attach a m))"
proof -
  note d = ssh_invD [OF assms(1)]
  define n where "n = m\<lparr>mg_heap := (mg_heap m)[a := (mg_heap m ! a)\<lparr>sh_attached := True\<rparr>]\<rparr>"
  have heap: "sh_ID (mg_heap n ! b) = sh_ID (mg_heap m ! b) \<and> sh_closed (mg_heap n ! b) = sh_closed (mg_heap m ! b) \<and>
      sh_term (mg_heap n ! b) = sh_term (mg_heap m ! b)" for b
    using assms(2) by (cases "b = a") (simp_all add: n_def)
  have n: "mg_sessions n = mg_sessions m" "length (mg_heap n) = length (mg_heap m)" by (simp_all add: n_def)
  then have ids: "map sh_ID (mg_heap n) = map sh_ID (mg_heap m)" using heap by (intro nth_equalityI) simp_all
  have "sh_closed s \<longleftrightarrow> sh_term s = None" if s: "s \<in> set (mg_heap n)" for s
  proof -
    obtain b where "b < length (mg_heap m)" "s = mg_heap n ! b" using s n(2) by (auto simp: in_set_conv_nth)
    then show ?thesis using heap d(4) [of "mg_heap m ! b"] by simp
  qed
  then have "ssh_inv n" using d heap n unfolding ssh_inv_def ids by metis
  then show ?thesis using assms(1) by (simp add: ssh_Attach_def Let_def n_def)
qed

lemma open_finish_inv:
  assumes "ssh_inv m" "\<And>k. newID rnd = Some k \<Longrightarrow> k \<notin> sh_ID ` set (mg_heap m)"
  shows "ssh_inv (snd (open_finish o1 u sv c dialled rnd now m))"
proof (cases "(\<exists>t. fst dialled = Inr t) \<and> newID rnd \<noteq> None")
  case False
  then show ?thesis using assms(1) by (auto simp: open_finish_def ssh_inv_def split: prod.splits sum.splits option.splits)
next
  case True
  then obtain t fp i where d: "dialled = (Inr t, fp)" "newID rnd = Some i" by (cases dialled) auto
  note v = ssh_invD [OF assms(1)]
  have i: "i \<notin> sh_ID ` set (mg_heap m)" using assms(2) d(2) .
  have "i \<notin> fst ` set (mg_sessions m)" using v(1) i by (force simp: in_set_conv_nth)
  then have f: "filter (\<lambda>(k, _). k \<noteq> i) (mg_sessions m) = mg_sessions m" by (force simp: filter_id_conv)
  show ?thesis
    using v i \<open>i \<notin> fst ` set (mg_sessions m)\<close>
    by (auto simp: open_finish_def d Let_def f ssh_inv_def nth_append less_Suc_eq)
qed

interpretation console: invariant_of ssh_step ssh_ok "(NewSshManager compiled enabled, [])" "\<lambda>s. ssh_inv (fst s)" for compiled enabled
proof
  show "ssh_inv (fst (NewSshManager compiled enabled, []))" by (simp add: NewSshManager_def ssh_inv_def)
next
  fix s a
  assume "ssh_inv (fst s)" "ssh_ok a s"
  then show "ssh_inv (fst (ssh_step a s))"
    by (cases s; cases a) (auto simp: CloseSession_inv Shutdown_inv reap_inv Attach_inv split: option.splits intro!: open_finish_inv)
qed

subsection \<open>Sessions only move forward\<close>

definition session_le :: "ssh_session \<Rightarrow> ssh_session \<Rightarrow> bool" where
  "session_le s t \<longleftrightarrow> sh_ID t = sh_ID s \<and> sh_OrgID t = sh_OrgID s \<and> sh_UserID t = sh_UserID s \<and>
     (sh_attached s \<longrightarrow> sh_attached t) \<and> (sh_closed s \<longrightarrow> sh_closed t)"

definition evolves :: "ssh_manager \<Rightarrow> ssh_manager \<Rightarrow> bool" where
  "evolves m n \<longleftrightarrow> length (mg_heap m) \<le> length (mg_heap n) \<and> (\<forall>a<length (mg_heap m). session_le (mg_heap m ! a) (mg_heap n ! a))"

lemma evolves_refl [simp]: "evolves m m"
  by (simp add: evolves_def session_le_def)

lemma session_le_trans: "session_le s t \<Longrightarrow> session_le t u \<Longrightarrow> session_le s u"
  by (simp add: session_le_def)

lemma evolves_trans: "evolves m n \<Longrightarrow> evolves n k \<Longrightarrow> evolves m k"
  unfolding evolves_def by (meson order.trans less_le_trans session_le_trans)

lemma evolves_heap: "mg_heap n = mg_heap m \<Longrightarrow> evolves m n"
  by (simp add: evolves_def session_le_def)

lemma evolves_update:
  assumes "mg_heap n = (mg_heap m)[a := s]" "session_le (mg_heap m ! a) s"
  shows "evolves m n"
proof -
  have "session_le (mg_heap m ! b) (mg_heap n ! b)" if "b < length (mg_heap m)" for b
    using assms that by (cases "b = a") (simp_all add: session_le_def)
  then show ?thesis using assms(1) by (simp add: evolves_def)
qed

lemma evolves_close: "evolves m (session_close a m)"
  by (cases "sh_closed (mg_heap m ! a)") (auto simp: session_close_def Let_def session_le_def intro: evolves_update)

lemma evolves_fold_close: "evolves m (fold session_close as m)"
  by (induction as arbitrary: m) (auto intro: evolves_trans evolves_close)

lemma evolves_Attach: "evolves m (snd (ssh_Attach a m))"
  by (auto simp: ssh_Attach_def Let_def session_le_def intro: evolves_update)

lemma evolves_finish: "evolves m (snd (open_finish o1 u sv c dialled rnd now m))"
  by (auto simp: evolves_def session_le_def open_finish_def Let_def nth_append split: prod.split sum.split option.split)

lemma evolves_step: "evolves (fst st) (fst (ssh_step a st))"
proof -
  obtain m ps where st: "st = (m, ps)" by (cases st)
  have "evolves m (fold session_close as (m\<lparr>mg_sessions := l\<rparr>))" for as l
    using evolves_trans [OF evolves_heap evolves_fold_close] by simp
  moreover have "evolves m (session_close b (m\<lparr>mg_sessions := l\<rparr>))" for b l
    using evolves_trans [OF evolves_heap evolves_close] by simp
  ultimately show ?thesis
    by (cases a) (auto simp: st CloseSession_def Shutdown_def reap_eq evolves_Attach evolves_finish split: option.split)
qed

lemma evolves_run: "evolves (fst st) (fst (run ssh_step ops st))"
proof (induction ops arbitrary: st)
  case (Cons a ops)
  show ?case using evolves_trans [OF evolves_step Cons.IH [of "ssh_step a st"]] by simp
qed simp

subsection \<open>One terminal, one window\<close>

text \<open>The session an operation attaches a window to.\<close>

fun attached_by :: "ssh_op \<Rightarrow> ssh_system \<Rightarrow> nat option" where
  "attached_by (OpAttach a) (m, ps) = (if fst (ssh_Attach a m) = None then Some a else None)"
| "attached_by _ _ = None"

definition window_taken :: "ssh_system \<Rightarrow> nat \<Rightarrow> bool" where
  "window_taken st a \<longleftrightarrow> a < length (mg_heap (fst st)) \<and> sh_attached (mg_heap (fst st) ! a)"

interpretation windows: single_use ssh_step ssh_ok attached_by window_taken
proof
  fix a s k
  assume "ssh_ok a s" "attached_by a s = Some k"
  then show "\<not> window_taken s k" "window_taken (ssh_step a s) k"
    by (cases s; cases a; auto simp: window_taken_def ssh_Attach_def Let_def split: if_splits)+
next
  fix a s k
  assume "ssh_ok a s" "window_taken s k"
  then show "window_taken (ssh_step a s) k"
    using evolves_step [of s a] by (auto simp: window_taken_def evolves_def session_le_def)
qed

text \<open>C29: a console session is attached at most once, over any interleaving of opening, attaching,
  closing and reaping: no two windows ever share a terminal.\<close>

theorem session_attached_once:
  assumes "run_ok ssh_ok ssh_step ops s"
  shows "distinct (consumed attached_by ssh_step ops s)"
  using assms by (rule windows.consumed_distinct)

definition demo_creds :: ssh_credentials where
  "demo_creds = \<lparr>cr_Host = ''h'', cr_Port = 22, cr_User = ''root'', cr_Password = ''x'', cr_PrivateKey = [], cr_Passphrase = [], cr_KnownFingerprint = []\<rparr>"

definition demo_console :: ssh_system where
  "demo_console = run ssh_step [BeginOpen ''o'' ''u'', FinishOpen 0 ''s'' demo_creds (Inr 7, ''fp'') (Some [1]) 0] (NewSshManager True True, [])"

theorem session_attached_once_witness:
  "distinct (consumed attached_by ssh_step [OpAttach 0, OpAttach 0] demo_console) \<and> consumed attached_by ssh_step [OpAttach 0, OpAttach 0] demo_console = [0]"
proof -
  have "run_ok ssh_ok ssh_step [OpAttach 0, OpAttach 0] demo_console" by code_simp
  moreover have "consumed attached_by ssh_step [OpAttach 0, OpAttach 0] demo_console = [0]" by code_simp
  ultimately show ?thesis using session_attached_once by blast
qed

subsection \<open>Sessions end\<close>

lemma Shutdown_closes:
  assumes "ssh_inv m" "s \<in> set (mg_heap (Shutdown m))"
  shows "sh_closed s \<and> sh_term s = None"
proof -
  have "ssh_inv (Shutdown m)" by (rule Shutdown_inv [OF assms(1)])
  moreover have "mg_sessions (Shutdown m) = []" by (simp add: Shutdown_def)
  ultimately show ?thesis using assms(2) ssh_inv_open ssh_inv_term by (metis empty_iff empty_set in_set_conv_nth)
qed

text \<open>No console survives the API. In every reachable state a shutdown ends every session that was
  ever opened and is not ended yet: none is left with a terminal, including those whose window is
  attached.\<close>

theorem shutdown_ends_every_session:
  assumes "reachable ssh_step ssh_ok (NewSshManager compiled enabled, []) (m, ps)"
  shows "list_all (\<lambda>s. sh_closed s \<and> sh_term s = None) (mg_heap (Shutdown m))"
proof -
  have "ssh_inv m" using console.inv_reachable [OF assms] by simp
  then show ?thesis using Shutdown_closes by (auto simp: list_all_iff)
qed

lemma demo_console_reachable: "reachable ssh_step ssh_ok (NewSshManager True True, []) demo_console"
  unfolding demo_console_def by (rule reachable_run [OF reachable_init]) code_simp

theorem shutdown_ends_every_session_witness:
  "list_all (\<lambda>s. sh_closed s \<and> sh_term s = None) (mg_heap (Shutdown (fst demo_console))) \<and> mg_heap (fst demo_console) \<noteq> []"
proof -
  have "mg_heap (fst demo_console) \<noteq> []" by code_simp
  then show ?thesis using shutdown_ends_every_session [of True True "fst demo_console" "snd demo_console"] demo_console_reachable by simp
qed

text \<open>Abandoned sessions do not linger. After the reaper ran at \<open>now\<close>, every session left in the
  table is open, at most eight hours old, and attached or at most sixty seconds old.\<close>

theorem reap_leaves_fresh_sessions:
  assumes "reachable ssh_step ssh_ok (NewSshManager compiled enabled, []) (m, ps)" and "p \<in> set (mg_sessions (reap now m))"
  shows "let s = mg_heap (reap now m) ! snd p in
    \<not> sh_closed s \<and> now - sh_CreatedAt s \<le> idleLifetime \<and> (sh_attached s \<or> now - sh_CreatedAt s \<le> attachWindow)"
proof -
  have inv: "ssh_inv m" using console.inv_reachable [OF assms(1)] by simp
  have p: "p \<in> set (mg_sessions m)" "\<not> ssh_stale now (mg_heap m ! snd p)" using assms(2) by (auto simp: reap_eq)
  define dead where "dead = map snd (filter (\<lambda>p. ssh_stale now (mg_heap m ! snd p)) (mg_sessions m))"
  define m1 where "m1 = m\<lparr>mg_sessions := filter (\<lambda>p. \<not> ssh_stale now (mg_heap m ! snd p)) (mg_sessions m)\<rparr>"
  have l: "snd p < length (mg_heap m)" using ssh_inv_entry [OF inv p(1)] by simp
  have "mg_heap (fold session_close dead m1) ! snd p = mg_heap m1 ! snd p"
  proof (subst fold_close_heap)
    show "\<forall>a\<in>set dead. a < length (mg_heap m1)" using ssh_inv_entry [OF inv] by (auto simp: dead_def m1_def)
    show "\<forall>s\<in>set (mg_heap m1). sh_closed s \<longrightarrow> sh_term s = None" using ssh_inv_term [OF inv] by (simp add: m1_def)
  qed (use l p(2) in \<open>auto simp: dead_def m1_def\<close>)
  then have h: "mg_heap (reap now m) ! snd p = mg_heap m ! snd p" by (simp add: reap_eq dead_def m1_def)
  have "now - t \<le> d" if "time_Sub now t \<le> d" "0 \<le> d" "d < maxDuration" for t d
    using that sat64_le_iff [of d "now - t"] by (simp add: time_Sub_def minDuration_def)
  then show ?thesis
    using p(2) by (auto simp: h ssh_stale_def not_less attachWindow_def idleLifetime_def maxDuration_def)
qed

theorem reap_leaves_fresh_sessions_witness:
  "\<not> sh_closed (mg_heap (reap 5 (fst demo_console)) ! 0) \<and> mg_sessions (reap 5 (fst demo_console)) = [(''ssh_01'', 0)]"
proof -
  have e: "mg_sessions (reap 5 (fst demo_console)) = [(''ssh_01'', 0)]" by code_simp
  then show ?thesis
    using reap_leaves_fresh_sessions [of True True "fst demo_console" "snd demo_console" "(''ssh_01'', 0)" 5] demo_console_reachable
    by (simp add: Let_def)
qed

subsection \<open>The session quota\<close>

definition user_sessions :: "string \<Rightarrow> ssh_manager \<Rightarrow> (string \<times> nat) list" where
  "user_sessions u m = filter (\<lambda>p. sh_UserID (mg_heap m ! snd p) = u) (mg_sessions m)"

definition within_quota :: "ssh_manager \<Rightarrow> bool" where
  "within_quota m \<longleftrightarrow> ssh_inv m \<and> length (mg_sessions m) \<le> maxSessionsTotal \<and> (\<forall>u. length (user_sessions u m) \<le> maxSessionsPerUser)"

text \<open>Calls that run one after the other, each \<open>Open\<close> with its dial in one step.\<close>

datatype ssh_call =
    CallOpen string string string ssh_credentials "(ssh_error + nat) \<times> string" "bytes option" time
  | CallAttach nat
  | CallClose nat
  | CallReap time
  | CallShutdown

fun call_step :: "ssh_call \<Rightarrow> ssh_manager \<Rightarrow> ssh_manager" where
  "call_step (CallOpen orgID userID serverID c dialled rnd now) m = snd (ssh_Open orgID userID serverID c dialled rnd now m)"
| "call_step (CallAttach a) m = snd (ssh_Attach a m)"
| "call_step (CallClose a) m = CloseSession a m"
| "call_step (CallReap now) m = reap now m"
| "call_step CallShutdown m = Shutdown m"

fun call_ok :: "ssh_call \<Rightarrow> ssh_manager \<Rightarrow> bool" where
  "call_ok (CallOpen orgID userID serverID c dialled rnd now) m = (case newID rnd of None \<Rightarrow> True | Some k \<Rightarrow> k \<notin> sh_ID ` set (mg_heap m))"
| "call_ok (CallAttach a) m = (a < length (mg_heap m))"
| "call_ok (CallClose a) m = (a < length (mg_heap m))"
| "call_ok _ m = True"

lemma length_filter_mono: "(\<And>x. x \<in> set xs \<Longrightarrow> P x \<Longrightarrow> Q x) \<Longrightarrow> length (filter P xs) \<le> length (filter Q xs)"
  by (induction xs) (auto simp: le_Suc_eq)

lemma within_quota_shrink:
  assumes "within_quota m" "evolves m n" "ssh_inv n" "mg_sessions n = filter P (mg_sessions m)"
  shows "within_quota n"
proof -
  have "length (user_sessions u n) \<le> length (user_sessions u m)" for u
  proof -
    have "sh_UserID (mg_heap n ! snd p) = sh_UserID (mg_heap m ! snd p)" if "p \<in> set (mg_sessions m)" for p
      using assms(1,2) ssh_inv_entry [OF _ that] by (simp add: within_quota_def evolves_def session_le_def)
    then show ?thesis unfolding user_sessions_def assms(4) filter_filter by (intro length_filter_mono) auto
  qed
  moreover have "length (mg_sessions n) \<le> length (mg_sessions m)" by (simp add: assms(4))
  ultimately show ?thesis using assms(1,3) unfolding within_quota_def by (meson order.trans)
qed

lemma within_quota_finish:
  assumes "within_quota m" "checkQuota u m = None" "\<And>k. newID rnd = Some k \<Longrightarrow> k \<notin> sh_ID ` set (mg_heap m)"
  shows "within_quota (snd (open_finish o1 u sv c dialled rnd now m))"
proof (cases "(\<exists>t. fst dialled = Inr t) \<and> newID rnd \<noteq> None")
  case False
  then have "\<exists>cl. snd (open_finish o1 u sv c dialled rnd now m) = m\<lparr>mg_closed := cl\<rparr>"
    by (auto simp: open_finish_def split: prod.splits sum.splits option.splits intro: exI [of _ "mg_closed m"])
  then obtain cl where n: "snd (open_finish o1 u sv c dialled rnd now m) = m\<lparr>mg_closed := cl\<rparr>" ..
  then have "ssh_inv (m\<lparr>mg_closed := cl\<rparr>)" using open_finish_inv [of m rnd o1 u sv c dialled now] assms(1,3) by (simp add: within_quota_def)
  then show ?thesis using assms(1) by (simp add: n within_quota_def user_sessions_def)
next
  case True
  then obtain t fp i where d: "dialled = (Inr t, fp)" "newID rnd = Some i" by (cases dialled) auto
  define n where "n = snd (open_finish o1 u sv c dialled rnd now m)"
  have inv: "ssh_inv m" using assms(1) by (simp add: within_quota_def)
  have n: "ssh_inv n" unfolding n_def by (rule open_finish_inv [OF inv assms(3)])
  have q: "length (mg_sessions m) < maxSessionsTotal" "length (user_sessions u m) < maxSessionsPerUser"
    using assms(2) by (auto simp: checkQuota_def user_sessions_def case_prod_unfold split: if_splits)
  define l where "l = filter (\<lambda>(k, _). k \<noteq> i) (mg_sessions m)"
  have s: "mg_sessions n = (i, length (mg_heap m)) # l" by (simp add: n_def open_finish_def d Let_def l_def)
  have old: "mg_heap n ! a = mg_heap m ! a" if "a < length (mg_heap m)" for a
    using that by (simp add: n_def open_finish_def d Let_def nth_append)
  have new: "sh_UserID (mg_heap n ! length (mg_heap m)) = u" by (simp add: n_def open_finish_def d Let_def)
  have "length (filter (\<lambda>p. sh_UserID (mg_heap n ! snd p) = v) l) \<le> length (user_sessions v m)" for v
    unfolding l_def user_sessions_def filter_filter using ssh_inv_entry [OF inv] old by (intro length_filter_mono) fastforce
  then have "length (user_sessions v n) \<le> maxSessionsPerUser" for v
    using q(2) assms(1) new order.strict_trans1 [of _ "length (user_sessions u m)"]
    by (cases "v = u") (fastforce simp: user_sessions_def s Suc_le_eq within_quota_def intro: order.trans)+
  moreover have "length (mg_sessions n) \<le> maxSessionsTotal"
    using order.strict_trans1 [OF length_filter_le q(1)] by (simp add: s l_def Suc_le_eq)
  ultimately show ?thesis using n unfolding n_def [symmetric] within_quota_def by blast
qed

lemma Attach_table: "mg_sessions (snd (ssh_Attach a m)) = mg_sessions m"
  by (simp add: ssh_Attach_def Let_def)

interpretation serial: invariant_of call_step call_ok "NewSshManager compiled enabled" within_quota for compiled enabled
proof
  show "within_quota (NewSshManager compiled enabled)"
    by (simp add: within_quota_def NewSshManager_def ssh_inv_def user_sessions_def)
next
  fix m a
  assume q: "within_quota m" and ok: "call_ok a m"
  then have inv: "ssh_inv m" by (simp add: within_quota_def)
  note shrink = within_quota_shrink [OF q]
  show "within_quota (call_step a m)"
  proof (cases a)
    case (CallOpen o1 u sv c d r now)
    then have "\<And>k. newID r = Some k \<Longrightarrow> k \<notin> sh_ID ` set (mg_heap m)" using ok by simp
    then show ?thesis
      using CallOpen q within_quota_finish [OF q, of u r o1 sv c d now] by (simp add: ssh_Open_def open_begin_def split: option.split)
  next
    case (CallAttach b)
    then show ?thesis
      using ok evolves_Attach [of m b] Attach_inv [OF inv, of b] Attach_table [of b m] by (intro shrink [where P = "\<lambda>_. True"]) simp_all
  next
    case (CallClose b)
    then show ?thesis using ok CloseSession_inv [OF inv] evolves_step [of "(m, [])" "OpClose b"]
      by (intro shrink) (auto simp: CloseSession_def)
  next
    case (CallReap now)
    then show ?thesis using reap_inv [OF inv] evolves_step [of "(m, [])" "OpReap now"]
      by (intro shrink) (auto simp: reap_eq)
  next
    case CallShutdown
    then show ?thesis using Shutdown_inv [OF inv] evolves_step [of "(m, [])" OpShutdown]
      by (intro shrink [where P = "\<lambda>_. False"]) (auto simp: Shutdown_def)
  qed
qed

text \<open>Calls one after the other respect the limits: in every state reached that way there are at
  most 64 sessions, and at most 4 of one user.\<close>

theorem serial_opens_respect_quota:
  assumes "reachable call_step call_ok (NewSshManager compiled enabled) m"
  shows "length (mg_sessions m) \<le> maxSessionsTotal \<and> (\<forall>u. length (user_sessions u m) \<le> maxSessionsPerUser)"
  using serial.inv_reachable [OF assms] by (simp add: within_quota_def)

theorem serial_opens_respect_quota_witness:
  "length (mg_sessions (run call_step (map (\<lambda>i. CallOpen ''o'' ''u'' ''s'' demo_creds (Inr i, ''fp'') (Some [of_nat i]) 0) [0..<6]) (NewSshManager True True))) \<le> 64
    \<and> length (user_sessions ''u'' (run call_step (map (\<lambda>i. CallOpen ''o'' ''u'' ''s'' demo_creds (Inr i, ''fp'') (Some [of_nat i]) 0) [0..<6]) (NewSshManager True True))) = 4"
proof -
  let ?ops = "map (\<lambda>i. CallOpen ''o'' ''u'' ''s'' demo_creds (Inr i, ''fp'') (Some [of_nat i]) 0) [0..<6]"
  have "run_ok call_ok call_step ?ops (NewSshManager True True)" by code_simp
  then have "reachable call_step call_ok (NewSshManager True True) (run call_step ?ops (NewSshManager True True))"
    by (rule reachable_run [OF reachable_init])
  from serial_opens_respect_quota [OF this]
  have "length (mg_sessions (run call_step ?ops (NewSshManager True True))) \<le> 64" unfolding maxSessionsTotal_def ..
  moreover have "length (user_sessions ''u'' (run call_step ?ops (NewSshManager True True))) = 4" by code_simp
  ultimately show ?thesis ..
qed

text \<open>The check and the insertion of one \<open>Open\<close> are separate critical sections: the ids below are those
  \<open>newID\<close> makes of 18 bytes.\<close>

definition racing_id :: "nat \<Rightarrow> string" where
  "racing_id i = ''ssh_'' @ hex_encode (be_bytes 18 i)"

definition racing_finish :: "nat \<Rightarrow> ssh_op" where
  "racing_finish i = FinishOpen 0 ''srv'' demo_creds (Inr i, ''fp'') (Some (be_bytes 18 i)) 0"

lemma hex_encode_inj: "hex_encode xs = hex_encode ys \<Longrightarrow> xs = ys"
proof (induction xs arbitrary: ys)
  case Nil
  then show ?case by (cases ys) (simp_all add: hex_encode_def)
next
  case (Cons x xs)
  obtain y ys' where ys: "ys = y # ys'" using Cons.prems by (cases ys) (simp_all add: hex_encode_def)
  have e: "hex_char (unat x div 16) = hex_char (unat y div 16)" "hex_char (unat x mod 16) = hex_char (unat y mod 16)"
    "hex_encode xs = hex_encode ys'"
    using Cons.prems by (simp_all add: ys hex_encode_def)
  have v: "(of_char (hex_char k) :: nat) = (if k < 10 then 48 + k else 87 + k)" if "k < 16" for k using that by (simp add: hex_char_def)
  have inj: "a = b" if eq: "hex_char a = hex_char b" and ab: "a < 16" "b < 16" for a b
  proof -
    have "(if a < 10 then 48 + a else 87 + a) = (if b < 10 then 48 + b else 87 + b)"
      using v [OF ab(1)] v [OF ab(2)] eq by simp
    then show ?thesis by (simp split: if_splits)
  qed
  have "unat (z :: byte) div 16 < 16" for z using unat_byte_less [of z] by (intro less_mult_imp_div_less) simp
  then have "unat x div 16 = unat y div 16" "unat x mod 16 = unat y mod 16" using inj e by simp_all
  then have "unat x = unat y" by (metis mult_div_mod_eq)
  then show ?case using Cons.IH [OF e(3)] ys by (simp add: word_unat_eq_iff)
qed

lemma racing_id_inj: "i < 256 ^ 18 \<Longrightarrow> j < 256 ^ 18 \<Longrightarrow> racing_id i = racing_id j \<Longrightarrow> i = j"
  by (metis racing_id_def append_same_eq append_eq_append_conv be_val_be_bytes hex_encode_inj)

lemma newID_racing: "newID (Some (be_bytes 18 k)) = Some (racing_id k)"
  by (simp add: newID_def racing_id_def)

lemma begin_all: "run ssh_step (replicate n (BeginOpen o1 u)) (NewSshManager True True, ps) = (NewSshManager True True, ps @ replicate n (o1, u))"
proof (induction n arbitrary: ps)
  case (Suc n)
  have "open_begin u (NewSshManager True True) = None"
    by (simp add: open_begin_def Unavailable_def checkQuota_def NewSshManager_def maxSessionsTotal_def maxSessionsPerUser_def)
  then show ?case using Suc by (simp add: replicate_append_same)
qed simp

lemma finish_all:
  assumes "k \<le> n" "n < 256 ^ 18"
  shows "\<exists>m. run ssh_step (map racing_finish [0..<k]) (NewSshManager True True, replicate n (o1, u)) = (m, replicate (n - k) (o1, u)) \<and>
    length (mg_sessions m) = k \<and> length (mg_heap m) = k \<and> (\<forall>a<k. sh_UserID (mg_heap m ! a) = u) \<and>
    (\<forall>p\<in>set (mg_sessions m). fst p \<in> racing_id ` {..<k} \<and> snd p < k)"
  using assms(1)
proof (induction k)
  case 0
  then show ?case by (simp add: NewSshManager_def)
next
  case (Suc k)
  then obtain m where m: "run ssh_step (map racing_finish [0..<k]) (NewSshManager True True, replicate n (o1, u)) = (m, replicate (n - k) (o1, u))"
    "length (mg_sessions m) = k" "length (mg_heap m) = k" "\<forall>a<k. sh_UserID (mg_heap m ! a) = u"
    "\<forall>p\<in>set (mg_sessions m). fst p \<in> racing_id ` {..<k} \<and> snd p < k" by auto
  have "racing_id k \<noteq> racing_id j" if "j < k" for j using racing_id_inj [of k j] Suc.prems assms(2) that by fastforce
  then have "racing_id k \<notin> racing_id ` {..<k}" by auto
  then have f: "filter (\<lambda>(k', _). k' \<noteq> racing_id k) (mg_sessions m) = mg_sessions m" using m(5) by (force simp: filter_id_conv)
  have r: "replicate (n - k) (o1, u) = (o1, u) # replicate (n - Suc k) (o1, u)" using Suc.prems by (simp add: Suc_diff_le flip: replicate_Suc)
  define m' where "m' = snd (open_finish o1 u ''srv'' demo_creds (Inr k, ''fp'') (Some (be_bytes 18 k)) 0 m)"
  have step: "run ssh_step (map racing_finish [0..<Suc k]) (NewSshManager True True, replicate n (o1, u)) = (m', replicate (n - Suc k) (o1, u))"
  proof -
    have "ssh_step (racing_finish k) (m, (o1, u) # ps) = (m', ps)" for ps by (simp add: racing_finish_def m'_def)
    then show ?thesis using m(1) by (simp add: run_append r)
  qed
  have "mg_sessions m' = (racing_id k, k) # mg_sessions m" "\<exists>s. mg_heap m' = mg_heap m @ [s] \<and> sh_UserID s = u"
    using f m(3) newID_racing [of k] by (simp_all add: m'_def open_finish_def Let_def)
  then show ?case using m step by (auto simp: nth_append less_Suc_eq)
qed

text \<open>C30: concurrent calls break the limits. Any number of \<open>Open\<close> calls of one user can pass the quota
  check while none of them has inserted its session yet, and then all of them do.\<close>

theorem concurrent_opens_exceed_quota:
  assumes "n < 256 ^ 18"
  shows "\<exists>ops. length (user_sessions u (fst (run ssh_step ops (NewSshManager True True, [])))) = n"
proof -
  obtain m where m: "run ssh_step (map racing_finish [0..<n]) (NewSshManager True True, replicate n ([], u)) = (m, replicate (n - n) ([], u))"
    "length (mg_sessions m) = n" "\<forall>a<n. sh_UserID (mg_heap m ! a) = u" "\<forall>p\<in>set (mg_sessions m). snd p < n"
    using finish_all [OF order_refl assms, of "[]" u] by blast
  have "filter (\<lambda>p. sh_UserID (mg_heap m ! snd p) = u) (mg_sessions m) = mg_sessions m" using m(3,4) by (simp add: filter_id_conv)
  then have "length (user_sessions u (fst (run ssh_step (replicate n (BeginOpen [] u) @ map racing_finish [0..<n]) (NewSshManager True True, [])))) = n"
    using m(1,2) by (simp add: run_append begin_all user_sessions_def)
  then show ?thesis by blast
qed

theorem concurrent_opens_exceed_quota_witness:
  "\<exists>ops. length (user_sessions ''u'' (fst (run ssh_step ops (NewSshManager True True, [])))) = 100"
  by (rule concurrent_opens_exceed_quota) simp

subsection \<open>Words for the shell\<close>

text \<open>One word as a POSIX shell reads it: inside single quotes every character stands for itself up to
  the next quote; outside, a backslash quotes one character, and an unquoted special character or white
  space ends the word. The flag says whether the scan is inside quotes.\<close>

definition sh_special :: "char \<Rightarrow> bool" where
  "sh_special c \<longleftrightarrow> c \<in> set [CHR 0x20, CHR 0x09, CHR 0x0A, CHR 0x22, CHR 0x60, CHR '';'', CHR ''&'', CHR ''|'', CHR ''<'', CHR ''>'',
     CHR ''('', CHR '')'', CHR ''$'', CHR ''*'', CHR ''?'', CHR ''['', CHR ''#'', CHR ''~'']"

fun sh_word :: "bool \<Rightarrow> string \<Rightarrow> (string \<times> string) option" where
  "sh_word True [] = None"
| "sh_word True (c # r) = (if c = squote then sh_word False r else map_option (apfst ((#) c)) (sh_word True r))"
| "sh_word False [] = Some ([], [])"
| "sh_word False (c # r) =
     (if c = squote then sh_word True r
      else if c = CHR 0x5C then (case r of [] \<Rightarrow> Some ([c], []) | d # r' \<Rightarrow> map_option (apfst ((#) d)) (sh_word False r'))
      else if sh_special c then Some ([], c # r)
      else map_option (apfst ((#) c)) (sh_word False r))"

lemma sh_word_quoted:
  "sh_word True (concat (map (\<lambda>c. if c = squote then [squote, CHR 0x5C, squote, squote] else [c]) s) @ squote # r) =
    map_option (apfst ((@) s)) (sh_word False r)"
proof (induction s)
  case Nil
  then show ?case by (cases "sh_word False r") auto
next
  case (Cons c s)
  then show ?case
    by (cases "sh_word False r") (auto simp: squote_def apfst_def map_prod_def split: prod.splits)
qed

text \<open>Quoting for the shell is exact. Whatever the text, the shell reads \<open>shellQuote s\<close> followed by a
  line end as one word whose value is \<open>s\<close>, and nothing of \<open>s\<close> is left over to be executed.\<close>

theorem shellQuote_is_one_word:
  "sh_word False (shellQuote s @ CHR 0x0A # r) = Some (s, CHR 0x0A # r)"
  using sh_word_quoted [of s "CHR 0x0A # r"] by (simp add: shellQuote_def squote_def sh_special_def)

subsection \<open>Host keys\<close>

lemma dialClient_ok:
  assumes "dialClient sha256 g c = (Inr addr, fp)"
  shows "addr = JoinHostPort (cr_Host c) (cr_Port c)" "fp = fingerprint_of sha256 (g_hostkey g addr)"
    "cr_KnownFingerprint c = [] \<or> cr_KnownFingerprint c = fp"
  using assms by (auto simp: dialClient_def Let_def hostKey_ok_def split: sum.splits option.splits if_splits)

text \<open>A pinned host key is enforced. A terminal is opened for credentials that name a fingerprint only
  on a host whose key has that fingerprint, and no credential is offered to any other host: the
  authentication step is not reached.\<close>

theorem pinned_host_key_enforced:
  assumes "cr_KnownFingerprint c \<noteq> []" and "fingerprint_of sha256 (g_hostkey g (JoinHostPort (cr_Host c) (cr_Port c))) \<noteq> cr_KnownFingerprint c"
  shows "(\<forall>t fp. Dial sha256 g c cols rows \<noteq> (Inr t, fp)) \<and>
    Dial sha256 (g\<lparr>g_auth := other\<rparr>) c cols rows = Dial sha256 g c cols rows"
proof -
  have "dialClient sha256 g c \<noteq> (Inr addr, fp)" for addr fp using dialClient_ok [of sha256 g c addr fp] assms by auto
  then have "\<forall>t fp. Dial sha256 g c cols rows \<noteq> (Inr t, fp)" by (auto simp: Dial_def split: prod.splits sum.splits)
  moreover have "authMethods (g\<lparr>g_auth := other\<rparr>) c = authMethods g c" by (simp add: authMethods_def Let_def)
  ultimately show ?thesis
    using assms by (simp add: Dial_def dialClient_def hostKey_ok_def Let_def split: sum.split option.split)
qed

definition demo_gossh :: gossh where
  "demo_gossh = \<lparr>g_parse = (\<lambda>_ _. None), g_connect = (\<lambda>_. None), g_hostkey = (\<lambda>_. [1]), g_auth = (\<lambda>_ _ _. None), g_shell = (\<lambda>_ _ _. Inr 0)\<rparr>"

theorem pinned_host_key_enforced_witness:
  "Dial id (demo_gossh\<lparr>g_auth := \<lambda>_ _ _. Some ''no''\<rparr>) (demo_creds\<lparr>cr_KnownFingerprint := ''x''\<rparr>) 80 24 =
    Dial id demo_gossh (demo_creds\<lparr>cr_KnownFingerprint := ''x''\<rparr>) 80 24"
proof -
  have "fingerprint_of id (g_hostkey demo_gossh (JoinHostPort ''h'' 22)) \<noteq> ''x''" by (simp add: fingerprint_of_def)
  then show ?thesis
    using pinned_host_key_enforced [of "demo_creds\<lparr>cr_KnownFingerprint := ''x''\<rparr>" id demo_gossh] by (simp add: demo_creds_def)
qed

end
