(* ===== verification/Pulse_Console.thy ===== *)
theory Pulse_Console
  imports Pulse_Ssh Go_Json_Print
begin

section \<open>The SSH console's endpoints\<close>

text \<open>
  \<^verbatim>\<open>httpx/handlers_ssh.go\<close> and \<^verbatim>\<open>httpx/handlers_ssh_stream.go\<close>. The state is the server's, the session
  manager's and the log of what was sent to the terminals; \<open>tty\<close> says whether a terminal takes an
  action. The goroutines of an attached window are the events of its connection, in the order they
  happen; what other requests do to the session table meanwhile is in the interleavings of
  \<open>Pulse_Ssh\<close>.
\<close>

datatype tty_action = TWrite bytes | TResize int int

record console =
  co_srv :: server_state
  co_ssh :: ssh_manager
  co_tty :: "(nat \<times> tty_action) list"

definition CodeConfig :: string where "CodeConfig = ''CONFIGURATION_ERROR''"

text \<open>A body read through \<open>http.MaxBytesReader\<close> into a struct that ignores unknown fields.\<close>

definition decodeLoose :: "http_request \<Rightarrow> (string \<times> field_type) list \<Rightarrow> nat \<Rightarrow> members option" where
  "decodeLoose r fs limit = (case json_Decode (bytes_str (take limit (rq_Body r))) of None \<Rightarrow> None | Some j \<Rightarrow> decode_struct False fs j)"

definition sshOpenRequest :: "(string \<times> field_type) list" where
  "sshOpenRequest = [(''host'', FString), (''port'', FInt), (''username'', FString), (''auth_method'', FString), (''password'', FString),
     (''private_key'', FString), (''passphrase'', FString), (''known_fingerprint'', FString), (''cols'', FInt), (''rows'', FInt)]"

definition dash :: string where "dash = [CHR 0xE2, CHR 0x80, CHR 0x94]"

subsection \<open>Errors for the user\<close>

fun sshFailure :: "ssh_error \<Rightarrow> nat \<times> string" where
  "sshFailure ErrUnsupported = (501, CodeConfig)"
| "sshFailure ErrDisabled = (501, CodeConfig)"
| "sshFailure ErrHostKeyMismatch = (409, ''SSH_HOST_KEY_MISMATCH'')"
| "sshFailure (ErrNoPasswordAuth e) = (400, ''SSH_PASSWORD_AUTH_UNAVAILABLE'')"
| "sshFailure (ErrAuth e) = (400, ''SSH_AUTH_FAILED'')"
| "sshFailure ErrNoAuth = (400, ''SSH_AUTH_FAILED'')"
| "sshFailure (ErrBadKey e) = (400, ''SSH_AUTH_FAILED'')"
| "sshFailure ErrTooMany = (429, CodeRateLimited)"
| "sshFailure _ = (502, ''SSH_UNREACHABLE'')"

fun sshUserMessage :: "ssh_error \<Rightarrow> string" where
  "sshUserMessage (ErrNoPasswordAuth e) =
     ''This host never offered a password prompt '' @ dash @ '' sshd advertised publickey only, so no '' @
     ''password can work here. That is PermitRootLogin prohibit-password or '' @
     ''PasswordAuthentication no. On a cloud image it is almost always set in a drop-in '' @
     ''under /etc/ssh/sshd_config.d/ rather than in sshd_config itself, because sshd includes '' @
     ''those first and keeps the FIRST value it reads. Connect with a private key, or as a '' @
     ''non-root user the host still allows a password. '' @ [CHR 0x60] @ ''sudo sshd -T | grep -Ei '' @
     [squote] @ ''permitrootlogin|passwordauthentication'' @ [squote, CHR 0x60] @ '' on the host prints the values actually in force.''"
| "sshUserMessage (ErrAuth e) =
     ''The server rejected these credentials. Check the username and password '' @ dash @ '' '' @
     ''or use a private key, since many hosts set PasswordAuthentication no.''"
| "sshUserMessage (ErrBadKey e) =
     ''That private key could not be read. Paste the whole OpenSSH key including the '' @
     ''BEGIN and END lines, and add its passphrase if it has one.''"
| "sshUserMessage ErrNoAuth = ''Provide a password or a private key.''"
| "sshUserMessage err = ssh_Error err"

definition credentialsFrom :: "members \<Rightarrow> string + ssh_credentials" where
  "credentialsFrom req =
     (let host = TrimSpace (get_string ''host'' req); user = TrimSpace (get_string ''username'' req) in
      if host = [] then Inl ''a host or IP address is required''
      else if Contains host ''/'' \<or> Contains host '' '' then Inl ''host must be a hostname or IP address, not a URL''
      else if user = [] then Inl ''a username is required''
      else
        let port = (if get_int ''port'' req = 0 then 22 else get_int ''port'' req);
            isKey = (get_string ''auth_method'' req = ''key'')
        in if port < 1 \<or> port > 65535 then Inl ''port must be between 1 and 65535''
           else Inr \<lparr>cr_Host = host, cr_Port = port, cr_User = user,
                  cr_Password = (if isKey then [] else get_string ''password'' req),
                  cr_PrivateKey = (if isKey then get_string ''private_key'' req else []),
                  cr_Passphrase = (if isKey then get_string ''passphrase'' req else []),
                  cr_KnownFingerprint = TrimSpace (get_string ''known_fingerprint'' req)\<rparr>)"

subsection \<open>Opening and setting up\<close>

type_synonym console_handler = "http_request \<Rightarrow> console \<Rightarrow> http_response \<times> console"

definition handleSSHCapabilities :: "principal \<Rightarrow> console_handler" where
  "handleSSHCapabilities p r co =
     (let reason = (case Unavailable (co_ssh co) of
            None \<Rightarrow> []
          | Some ErrUnsupported \<Rightarrow>
              ''This API was built with -tags nosshconsole, so it contains no SSH client. '' @
              ''Rebuild it without that tag '' @ dash @ '' see docs/SSH_CONSOLE.md.''
          | Some _ \<Rightarrow>
              ''The SSH console was turned off with PULSE_SSH_CONSOLE=false. '' @
              ''Remove that setting (or set it to true) on the API and restart it.'')
      in (JSON 200 [(''enabled'', JBool (Enabled (co_ssh co))), (''reason'', JStr reason), (''default_port'', JInt 22),
            (''can_use'', JBool (Can (p_Role p) SSHExec))], co))"

text \<open>What both endpoints check before they dial: the console is available, the server is the caller's,
  the body decodes, the credentials are complete.\<close>

definition ssh_request :: "principal \<Rightarrow> http_request \<Rightarrow> console \<Rightarrow> http_response + server \<times> members \<times> ssh_credentials" where
  "ssh_request p r co =
     (case Unavailable (co_ssh co) of
        Some e \<Rightarrow> Inl (Fail 501 CodeConfig (ssh_Error e))
      | None \<Rightarrow>
          (case GetServer (p_OrgID p) (rq_PathValue r ''id'') (ss_store (co_srv co)) of
             Inl _ \<Rightarrow> Inl (Fail 404 CodeNotFound ''server not found'')
           | Inr srv \<Rightarrow>
               (case decodeLoose r sshOpenRequest 65536 of
                  None \<Rightarrow> Inl (Fail 400 CodeValidation ''invalid request body'')
                | Some req \<Rightarrow>
                    (case credentialsFrom req of
                       Inl verr \<Rightarrow> Inl (Fail 400 CodeValidation verr)
                     | Inr creds \<Rightarrow> Inr (srv, req, creds)))))"

definition target_meta :: "server \<Rightarrow> ssh_credentials \<Rightarrow> (string \<times> string) list" where
  "target_meta srv c = [(''server'', srv_ID srv), (''host'', cr_Host c), (''port'', Itoa (cr_Port c)), (''username'', cr_User c)]"

definition handleSSHOpen :: "crypto \<Rightarrow> gossh \<Rightarrow> inputs \<Rightarrow> principal \<Rightarrow> console_handler" where
  "handleSSHOpen c g x p r co =
     (case ssh_request p r co of
        Inl resp \<Rightarrow> (resp, co)
      | Inr (srv, req, creds) \<Rightarrow>
          (case ssh_Open (p_OrgID p) (p_UserID p) (srv_ServerID srv) creds
                  (Dial (c_sha256 c) g creds (get_int ''cols'' req) (get_int ''rows'' req)) (in_rnd x 0) (in_time x 0) (co_ssh co) of
             ((Inl err, fp), m) \<Rightarrow>
               let s1 = Record x 1 (p_OrgID p) (p_Email p) ''ssh.connect'' ''failure'' (clientIP r)
                          (target_meta srv creds @ [(''error'', ssh_Error err)]) (co_srv co);
                   (status, code) = sshFailure err;
                   resp = Fail status code (sshUserMessage err)
               in (if err = ErrHostKeyMismatch then resp\<lparr>rs_Fields := [(''fingerprint'', JStr fp)]\<rparr> else resp,
                   co\<lparr>co_srv := s1, co_ssh := m\<rparr>)
           | ((Inr a, fp), m) \<Rightarrow>
               let s = mg_heap m ! a;
                   s1 = Record x 1 (p_OrgID p) (p_Email p) ''ssh.connect'' ''success'' (clientIP r)
                          (target_meta srv creds @ [(''session'', sh_ID s), (''fingerprint'', fp)]) (co_srv co)
               in (JSON 201 [(''session_id'', JStr (sh_ID s)), (''host'', JStr (sh_Host s)), (''port'', JInt (sh_Port s)),
                     (''username'', JStr (sh_User s)), (''fingerprint'', JStr fp),
                     (''first_connection'', JBool (get_string ''known_fingerprint'' req = [])), (''attach_within_sec'', JInt 60)],
                   co\<lparr>co_srv := s1, co_ssh := m\<rparr>)))"

definition setup_fields :: "setup_result \<Rightarrow> (string \<times> json_value) list" where
  "setup_fields res =
     [(''steps'', JStrs (concat (map (\<lambda>s. [st_Name s, st_Status s, st_Detail s]) (sr_Steps res)))),
      (''info'', JStrs (concat (map (\<lambda>(k, v). [k, v]) (sr_Info res)))), (''public_key'', JStr (sr_PublicKey res)),
      (''private_key'', JStr (sr_PrivateKey res)), (''fingerprint'', JStr (sr_Fingerprint res)), (''verified'', JBool (sr_Verified res)),
      (''warnings'', JStrs (sr_Warnings res))]"

definition handleSSHSetup :: "crypto \<Rightarrow> gossh \<Rightarrow> (ssh_error + key_text) \<Rightarrow>
    (string \<Rightarrow> string \<Rightarrow> string \<Rightarrow> string + string \<times> string option) \<Rightarrow> inputs \<Rightarrow> principal \<Rightarrow> console_handler" where
  "handleSSHSetup c g keys exec x p r co =
     (case ssh_request p r co of
        Inl resp \<Rightarrow> (resp, co)
      | Inr (srv, req, creds) \<Rightarrow>
          (case InstallKey (c_sha256 c) g keys exec creds (srv_Hostname srv) of
             (result, Some err) \<Rightarrow>
               let s1 = Record x 0 (p_OrgID p) (p_Email p) ''ssh.setup'' ''failure'' (clientIP r)
                          (target_meta srv creds @ [(''error'', ssh_Error err)]) (co_srv co);
                   (status, code) = sshFailure err;
                   resp = Fail status code (sshUserMessage err)
               in (case result of
                     None \<Rightarrow> (resp, co\<lparr>co_srv := s1\<rparr>)
                   | Some res \<Rightarrow> (resp\<lparr>rs_Fields := take 2 (setup_fields res)\<rparr>, co\<lparr>co_srv := s1\<rparr>))
           | (Some res, None) \<Rightarrow>
               (JSON 200 (setup_fields res),
                co\<lparr>co_srv := Record x 0 (p_OrgID p) (p_Email p) ''ssh.setup'' ''success'' (clientIP r)
                     (target_meta srv creds @ [(''public_key'', sr_PublicKey res), (''verified'', if sr_Verified res then ''true'' else ''false'')]) (co_srv co)\<rparr>)
           | (None, None) \<Rightarrow> (JSON 200 [], co)))"

subsection \<open>Using a session\<close>

definition tty_send :: "(nat \<Rightarrow> tty_action \<Rightarrow> bool) \<Rightarrow> nat \<Rightarrow> tty_action \<Rightarrow> console \<Rightarrow> bool \<times> console" where
  "tty_send tty a act co =
     (case session_term a (co_ssh co) of
        Inl _ \<Rightarrow> (False, co)
      | Inr t \<Rightarrow> (tty t act, co\<lparr>co_tty := co_tty co @ [(t, act)]\<rparr>))"

definition handleSSHClose :: "principal \<Rightarrow> console_handler" where
  "handleSSHClose p r co =
     (case ssh_Get (p_OrgID p) (p_UserID p) (rq_PathValue r ''sid'') (co_ssh co) of
        None \<Rightarrow> (Fail 404 CodeNotFound ''ssh session not found'', co)
      | Some a \<Rightarrow> (JSON 200 [(''status'', JStr ''closed'')], co\<lparr>co_ssh := CloseSession a (co_ssh co)\<rparr>))"

definition ssh_input_fields :: "(string \<times> field_type) list" where
  "ssh_input_fields = [(''type'', FString), (''data'', FString), (''cols'', FInt), (''rows'', FInt)]"

definition handleSSHInput :: "(nat \<Rightarrow> tty_action \<Rightarrow> bool) \<Rightarrow> principal \<Rightarrow> console_handler" where
  "handleSSHInput tty p r co =
     (case ssh_Get (p_OrgID p) (p_UserID p) (rq_PathValue r ''sid'') (co_ssh co) of
        None \<Rightarrow> (Fail 404 CodeNotFound ''ssh session not found or already closed'', co)
      | Some a \<Rightarrow>
          (case decodeLoose r ssh_input_fields 262144 of
             None \<Rightarrow> (Fail 400 CodeValidation ''invalid request body'', co)
           | Some msg \<Rightarrow>
               let ended = Fail 410 CodeValidation ''the ssh session has ended''; fine = JSON 200 [(''status'', JStr ''ok'')] in
               if get_string ''type'' msg = ''resize'' then
                 (case tty_send tty a (TResize (get_int ''cols'' msg) (get_int ''rows'' msg)) co of
                    (False, co1) \<Rightarrow> (ended, co1) | (True, co1) \<Rightarrow> (fine, co1))
               else (case b64_std_decode (get_string ''data'' msg) of
                   None \<Rightarrow> (Fail 400 CodeValidation ''data must be base64'', co)
                 | Some raw \<Rightarrow>
                     if raw = [] then (fine, co)
                     else (case tty_send tty a (TWrite raw) co of (False, co1) \<Rightarrow> (ended, co1) | (True, co1) \<Rightarrow> (fine, co1)))))"

subsection \<open>An attached window\<close>

datatype window_event = RemoteData bytes | RemoteEnd | BrowserRead | PingTick

record window =
  wi_conn :: ws_conn
  wi_out_done :: bool
  wi_in_done :: bool

definition CloseNormal :: nat where "CloseNormal = 1000"

definition status_message :: "ssh_session \<Rightarrow> json" where
  "status_message s = jobject [(''fingerprint'', JvStr (sh_Fingerprint s)), (''host'', JvStr (sh_Host s)), (''port'', JvNum (Itoa (sh_Port s))),
     (''state'', JvStr ''connected''), (''type'', JvStr ''status''), (''username'', JvStr (sh_User s))]"

definition exit_message :: json where
  "exit_message = jobject [(''message'', JvStr ''session ended''), (''type'', JvStr ''exit'')]"

definition mustJSON :: "json \<Rightarrow> bytes" where
  "mustJSON v = str_bytes (json_print v)"

text \<open>The browser's message, in the reading loop.\<close>

definition browser_message :: "(nat \<Rightarrow> tty_action \<Rightarrow> bool) \<Rightarrow> nat \<Rightarrow> byte \<Rightarrow> bytes \<Rightarrow> window \<times> console \<Rightarrow> window \<times> console" where
  "browser_message tty a op data wc =
     (case wc of (w, co) \<Rightarrow>
        if op = OpBinary then
          (case tty_send tty a (TWrite data) co of
             (True, co1) \<Rightarrow> (w, co1)
           | (False, co1) \<Rightarrow> (w\<lparr>wi_conn := CloseWith CloseNormal ''session ended'' (wi_conn w), wi_in_done := True\<rparr>, co1))
        else if op = OpText then
          (case (case json_Unmarshal (bytes_str data) of None \<Rightarrow> None | Some j \<Rightarrow> decode_struct False ssh_input_fields j) of
             None \<Rightarrow> (w, co)
           | Some msg \<Rightarrow>
               if get_string ''type'' msg = ''resize''
               then (w, snd (tty_send tty a (TResize (get_int ''cols'' msg) (get_int ''rows'' msg)) co))
               else if get_string ''type'' msg = ''data'' \<and> get_string ''data'' msg \<noteq> []
               then (w, snd (tty_send tty a (TWrite (str_bytes (get_string ''data'' msg))) co))
               else (w, co))
        else (w, co))"

definition window_step :: "(nat \<Rightarrow> tty_action \<Rightarrow> bool) \<Rightarrow> nat \<Rightarrow> window_event \<Rightarrow> window \<times> console \<Rightarrow> window \<times> console" where
  "window_step tty a ev wc =
     (case wc of (w, co) \<Rightarrow>
        (case ev of
           RemoteData d \<Rightarrow>
             if wi_out_done w then (w, co)
             else (case WriteBinary d (wi_conn w) of
                 (Some _, c1) \<Rightarrow> (w\<lparr>wi_conn := c1, wi_out_done := True\<rparr>, co)
               | (None, c1) \<Rightarrow> (w\<lparr>wi_conn := c1\<rparr>, co))
         | RemoteEnd \<Rightarrow>
             if wi_out_done w then (w, co)
             else (w\<lparr>wi_conn := CloseWith CloseNormal ''session ended'' (snd (WriteText (mustJSON exit_message) (wi_conn w))), wi_out_done := True\<rparr>, co)
         | PingTick \<Rightarrow> if wi_out_done w then (w, co) else (w\<lparr>wi_conn := snd (WritePing (wi_conn w))\<rparr>, co)
         | BrowserRead \<Rightarrow>
             if wi_in_done w then (w, co)
             else (case ReadMessage (wi_conn w) of
                 (Inl _, c1) \<Rightarrow> (w\<lparr>wi_conn := c1, wi_in_done := True\<rparr>, co)
               | (Inr (op, data), c1) \<Rightarrow> browser_message tty a op data (w\<lparr>wi_conn := c1\<rparr>, co))))"

text \<open>\<open>handleSSHAttach\<close> and what it leaves: the events of the window run until it is done, then the
  session is closed and the disconnect recorded. Status 101 stands for the hijacked connection.\<close>

definition handleSSHAttach :: "(bytes \<Rightarrow> bytes) \<Rightarrow> (bytes \<times> bool) option \<Rightarrow> (nat \<Rightarrow> tty_action \<Rightarrow> bool) \<Rightarrow> window_event list \<Rightarrow>
    inputs \<Rightarrow> principal \<Rightarrow> console_handler" where
  "handleSSHAttach sha1 hijack tty evs x p r co =
     (case ssh_Get (p_OrgID p) (p_UserID p) (rq_PathValue r ''sid'') (co_ssh co) of
        None \<Rightarrow> (Fail 404 CodeNotFound ''ssh session not found or already closed'', co)
      | Some a \<Rightarrow>
          if \<not> IsUpgrade (rq_Method r) (rq_Header r) then (Fail 400 CodeValidation ''this endpoint expects a websocket upgrade'', co)
          else (case ssh_Attach a (co_ssh co) of
              (Some e, m) \<Rightarrow> (Fail 409 CodeValidation (ssh_Error e), co\<lparr>co_ssh := m\<rparr>)
            | (None, m) \<Rightarrow>
                let co1 = co\<lparr>co_ssh := m\<rparr>; s = mg_heap m ! a in
                (case Accept sha1 (rq_Method r) (rq_Header r) hijack of
                   Inl _ \<Rightarrow> (JSON 101 [], co1\<lparr>co_ssh := CloseSession a m\<rparr>)
                 | Inr conn \<Rightarrow>
                     let w0 = \<lparr>wi_conn = snd (WriteText (mustJSON (status_message s)) conn), wi_out_done = False, wi_in_done = False\<rparr>;
                         (w1, co2) = fold (window_step tty a) evs (w0, co1);
                         co3 = co2\<lparr>co_ssh := CloseSession a (co_ssh co2)\<rparr>
                     in (JSON 101 [], co3\<lparr>co_srv := Record x 1 (p_OrgID p) (p_Email p) ''ssh.disconnect'' ''success'' (clientIP r)
                          [(''session'', sh_ID s), (''host'', sh_Host s), (''port'', Itoa (sh_Port s)), (''username'', sh_User s),
                           (''duration_sec'', Itoa (time_Sub (in_time x 0) (sh_CreatedAt s) div second))] (co_srv co3)\<rparr>))))"

subsection \<open>The stream over server-sent events\<close>

definition writeEvent :: "string \<Rightarrow> string \<Rightarrow> string" where
  "writeEvent event payload = ''event: '' @ event @ [CHR 0x0A] @ ''data: '' @ payload @ [CHR 0x0A, CHR 0x0A]"

datatype stream_event = Chunk bytes | StreamEnd | Heartbeat

fun stream_text :: "stream_event \<Rightarrow> string" where
  "stream_text (Chunk b) = writeEvent ''data'' (b64_std_encode b)"
| "stream_text StreamEnd = writeEvent ''exit'' (object_text [(''message'', json_quote ''session ended'')])"
| "stream_text Heartbeat = '': ping'' @ [CHR 0x0A, CHR 0x0A]"

definition stream_status :: "ssh_session \<Rightarrow> json" where
  "stream_status s = jobject [(''fingerprint'', JvStr (sh_Fingerprint s)), (''host'', JvStr (sh_Host s)), (''port'', JvNum (Itoa (sh_Port s))),
     (''state'', JvStr ''connected''), (''transport'', JvStr ''http''), (''username'', JvStr (sh_User s))]"

text \<open>\<open>handleSSHStream\<close>: the events up to the one that ends it (the shell exits; the list ends where the
  browser goes away or a write fails). The text of the stream is the second part of the result.\<close>

fun stream_body :: "stream_event list \<Rightarrow> string" where
  "stream_body [] = []"
| "stream_body (e # es) = stream_text e @ (if e = StreamEnd then [] else stream_body es)"

definition handleSSHStream :: "bool \<Rightarrow> stream_event list \<Rightarrow> inputs \<Rightarrow> principal \<Rightarrow> http_request \<Rightarrow> console \<Rightarrow> (http_response \<times> string) \<times> console" where
  "handleSSHStream flusher evs x p r co =
     (case ssh_Get (p_OrgID p) (p_UserID p) (rq_PathValue r ''sid'') (co_ssh co) of
        None \<Rightarrow> ((Fail 404 CodeNotFound ''ssh session not found or already closed'', []), co)
      | Some a \<Rightarrow>
          if \<not> flusher then ((Fail 500 CodeInternal ''streaming is not supported here'', []), co)
          else (case ssh_Attach a (co_ssh co) of
              (Some e, m) \<Rightarrow> ((Fail 409 CodeValidation (ssh_Error e), []), co\<lparr>co_ssh := m\<rparr>)
            | (None, m) \<Rightarrow>
                let s = mg_heap m ! a; body = writeEvent ''status'' (json_print (stream_status s)) @ stream_body evs;
                    co1 = co\<lparr>co_ssh := CloseSession a m\<rparr>
                in ((JSON 200 [], body),
                    co1\<lparr>co_srv := Record x 1 (p_OrgID p) (p_Email p) ''ssh.disconnect'' ''success'' (clientIP r)
                      [(''session'', sh_ID s), (''host'', sh_Host s), (''port'', Itoa (sh_Port s)), (''username'', sh_User s), (''transport'', ''http''),
                       (''duration_sec'', Itoa (time_Sub (in_time x 0) (sh_CreatedAt s) div second))] (co_srv co1)\<rparr>)))"

subsection \<open>Sessions are private to their owner\<close>

lemma ssh_Get_owner:
  "ssh_Get o1 u i m = Some a \<Longrightarrow> sh_OrgID (mg_heap m ! a) = o1 \<and> sh_UserID (mg_heap m ! a) = u"
  by (auto simp: ssh_Get_def split: option.splits if_splits)

text \<open>What a window or an input request sends goes to the terminal of its session.\<close>

definition sends_to :: "nat \<Rightarrow> console \<Rightarrow> console \<Rightarrow> bool" where
  "sends_to a co co' \<longleftrightarrow> (\<exists>new. co_tty co' = co_tty co @ new \<and> list_all (\<lambda>(t, act). session_term a (co_ssh co) = Inr t) new)"

lemma sends_to_refl [simp]: "sends_to a co co"
  by (simp add: sends_to_def)

lemma sends_to_trans:
  assumes "sends_to a co co1" "sends_to a co1 co2" "co_ssh co1 = co_ssh co"
  shows "sends_to a co co2"
proof -
  obtain n1 n2 where "co_tty co1 = co_tty co @ n1" "list_all (\<lambda>(t, act). session_term a (co_ssh co) = Inr t) n1"
    "co_tty co2 = co_tty co1 @ n2" "list_all (\<lambda>(t, act). session_term a (co_ssh co) = Inr t) n2"
    using assms unfolding sends_to_def by auto
  then show ?thesis unfolding sends_to_def by (intro exI [of _ "n1 @ n2"]) simp
qed

lemma tty_send_sends: "sends_to a co (snd (tty_send tty a act co))" "co_ssh (snd (tty_send tty a act co)) = co_ssh co"
  by (auto simp: tty_send_def sends_to_def split: sum.split)

lemma browser_message_sends:
  "sends_to a co (snd (browser_message tty a op d (w, co)))" "co_ssh (snd (browser_message tty a op d (w, co))) = co_ssh co"
  using tty_send_sends [where a = a and co = co and tty = tty]
  by (auto simp: browser_message_def split: prod.split bool.split option.split) (metis snd_conv)+

lemma window_step_sends:
  "sends_to a co (snd (window_step tty a ev (w, co)))" "co_ssh (snd (window_step tty a ev (w, co))) = co_ssh co"
  using browser_message_sends [where a = a and co = co and tty = tty]
  by (auto simp: window_step_def split: window_event.split prod.split sum.split option.split)

lemma window_run_sends:
  "sends_to a co (snd (fold (window_step tty a) evs (w, co))) \<and> co_ssh (snd (fold (window_step tty a) evs (w, co))) = co_ssh co"
proof (induction evs arbitrary: w co)
  case (Cons ev evs)
  obtain w1 co1 where s: "window_step tty a ev (w, co) = (w1, co1)" by fastforce
  then have "sends_to a co co1" "co_ssh co1 = co_ssh co" using window_step_sends [where a = a and co = co and tty = tty and ev = ev and w = w] by simp_all
  then show ?case using Cons.IH [of co1 w1] sends_to_trans by (auto simp: s)
qed simp

lemma Attach_term: "session_term b (snd (ssh_Attach a m)) = session_term b m"
  by (cases "a < length (mg_heap m)"; cases "b = a") (auto simp: session_term_def ssh_Attach_def Let_def list_update_beyond)

text \<open>C31: no request types into someone else's shell. Whatever the input endpoint or an attached window
  sends to a terminal goes to the terminal of one session of the table, the one the request names,
  and that session was opened by this very user in this organisation.\<close>

theorem input_reaches_own_session_only:
  assumes "co' = snd (handleSSHInput tty p r co) \<or> co' = snd (handleSSHAttach sha1 hijack tty evs x p r co)" and "co_tty co' \<noteq> co_tty co"
  shows "\<exists>a. map_of (mg_sessions (co_ssh co)) (rq_PathValue r ''sid'') = Some a \<and>
    sh_OrgID (mg_heap (co_ssh co) ! a) = p_OrgID p \<and> sh_UserID (mg_heap (co_ssh co) ! a) = p_UserID p \<and> sends_to a co co'"
proof (cases "ssh_Get (p_OrgID p) (p_UserID p) (rq_PathValue r ''sid'') (co_ssh co)")
  case None
  then show ?thesis using assms by (auto simp: handleSSHInput_def handleSSHAttach_def)
next
  case (Some a)
  have "sends_to a co (snd (handleSSHInput tty p r co))"
    using tty_send_sends [where a = a and co = co and tty = tty]
    by (auto simp: handleSSHInput_def Some Let_def split: option.split prod.split bool.split) (metis snd_conv)+
  moreover have "sends_to a co (snd (handleSSHAttach sha1 hijack tty evs x p r co))"
  proof -
    define m where "m = snd (ssh_Attach a (co_ssh co))"
    have "sends_to a (co\<lparr>co_ssh := m\<rparr>) (snd (fold (window_step tty a) evs (w, co\<lparr>co_ssh := m\<rparr>)))" for w
      using window_run_sends by blast
    then have "sends_to a co (snd (fold (window_step tty a) evs (w, co\<lparr>co_ssh := m\<rparr>)))" for w
      by (simp add: sends_to_def m_def Attach_term)
    then show ?thesis
      unfolding handleSSHAttach_def Some option.case m_def
      by (auto simp: sends_to_def Let_def case_prod_unfold split: option.split sum.split)
  qed
  moreover have "map_of (mg_sessions (co_ssh co)) (rq_PathValue r ''sid'') = Some a"
    using Some by (auto simp: ssh_Get_def split: option.splits if_splits)
  ultimately show ?thesis using assms ssh_Get_owner [OF Some] by blast
qed

definition console_request :: "string \<Rightarrow> http_request" where
  "console_request body = \<lparr>rq_Method = ''POST'', rq_Path = ''/'', rq_Header = (\<lambda>_. []), rq_RemoteAddr = ''1.2.3.4:5'', rq_Cookie = None,
     rq_PathValue = (\<lambda>k. if k = ''sid'' then ''ssh_01'' else ''1''), rq_Body = str_bytes body\<rparr>"

definition console_user :: principal where
  "console_user = \<lparr>p_UserID = ''u'', p_OrgID = ''o'', p_Email = ''a@b.c'', p_Role = RoleOwner, p_HasPassword = True\<rparr>"

definition open_console :: console where
  "open_console = \<lparr>co_srv = New NewMemory, co_ssh = fst demo_console, co_tty = []\<rparr>"

definition resize_message :: json where
  "resize_message = jobject [(''type'', JvStr ''resize''), (''cols'', JvNum ''80''), (''rows'', JvNum ''24'')]"

lemma resize_decodes: "decodeLoose (console_request (json_print resize_message)) ssh_input_fields 262144 =
    Some [(''type'', json_print (JvStr ''resize''), JvStr ''resize''), (''cols'', ''80'', JvNum ''80''), (''rows'', ''24'', JvNum ''24'')]"
proof -
  have n: "jnumber ''80'' = Some (''80'', [])" "jnumber ''24'' = Some (''24'', [])" "ParseInt10 ''80'' \<noteq> None" "ParseInt10 ''24'' \<noteq> None" by code_simp+
  have "json_wf 0 resize_message" by (simp add: resize_message_def json_wf_jobject n utf8_valid_ascii maxNestingDepth_def)
  then have "json_Decode (json_print resize_message) = Some resize_message" by (intro json_text_Unmarshal(2) json_print_text)
  moreover have "length (json_print resize_message) \<le> 262144"
    by (simp add: resize_message_def jobject_def object_text_def json_quote_plain json_escape_char_def quote_def backslash_def)
  ultimately have "decodeLoose (console_request (json_print resize_message)) ssh_input_fields 262144 = decode_struct False ssh_input_fields resize_message"
    by (simp add: decodeLoose_def console_request_def)
  then show ?thesis
    using n by (simp add: decode_struct_def resize_message_def jobject_def ssh_input_fields_def field_of_def EqualFold_def ToLower_def lower_char_def)
qed

lemma demo_table: "mg_sessions (fst demo_console) = [(''ssh_01'', 0)]" "sh_UserID (mg_heap (fst demo_console) ! 0) = ''u''"
  "sh_OrgID (mg_heap (fst demo_console) ! 0) = ''o''" "session_term 0 (fst demo_console) = Inr 7"
  by code_simp+

theorem input_reaches_own_session_only_witness:
  "\<exists>a. map_of (mg_sessions (co_ssh open_console)) ''ssh_01'' = Some a \<and> sh_UserID (mg_heap (co_ssh open_console) ! a) = ''u'' \<and>
     sends_to a open_console (snd (handleSSHInput (\<lambda>_ _. True) console_user (console_request (json_print resize_message)) open_console))"
proof -
  let ?r = "console_request (json_print resize_message)"
  have g: "ssh_Get ''o'' ''u'' ''ssh_01'' (fst demo_console) = Some 0" by (simp add: ssh_Get_def demo_table)
  have v: "rq_PathValue ?r ''sid'' = ''ssh_01''" by (simp add: console_request_def)
  have "co_tty (snd (handleSSHInput (\<lambda>_ _. True) console_user ?r open_console)) \<noteq> co_tty open_console"
    unfolding handleSSHInput_def v resize_decodes
    by (simp add: console_user_def g Let_def get_string_def get_member_def EqualFold_def ToLower_def lower_char_def tty_send_def open_console_def demo_table)
  from input_reaches_own_session_only [OF disjI1 [OF refl] this] show ?thesis
    by (auto simp: v console_user_def)
qed

subsection \<open>Credentials leave no trace\<close>

text \<open>Two requests for the same login, up to the secrets.\<close>

definition same_login :: "principal \<Rightarrow> console \<Rightarrow> http_request \<Rightarrow> http_request \<Rightarrow> bool" where
  "same_login p co r r' \<longleftrightarrow> clientIP r = clientIP r' \<and>
     (\<exists>srv req creds req' creds'. ssh_request p r co = Inr (srv, req, creds) \<and> ssh_request p r' co = Inr (srv, req', creds') \<and>
        creds' = creds\<lparr>cr_Password := cr_Password creds', cr_PrivateKey := cr_PrivateKey creds', cr_Passphrase := cr_Passphrase creds'\<rparr> \<and>
        get_int ''cols'' req' = get_int ''cols'' req \<and> get_int ''rows'' req' = get_int ''rows'' req \<and>
        (get_string ''known_fingerprint'' req' = [] \<longleftrightarrow> get_string ''known_fingerprint'' req = []))"

definition login_outcome :: "crypto \<Rightarrow> gossh \<Rightarrow> principal \<Rightarrow> console \<Rightarrow> http_request \<Rightarrow> (ssh_error + nat) \<times> string" where
  "login_outcome c g p co r =
     (case ssh_request p r co of Inl _ \<Rightarrow> (Inl ErrNoAuth, [])
      | Inr (srv, req, creds) \<Rightarrow> Dial (c_sha256 c) g creds (get_int ''cols'' req) (get_int ''rows'' req))"

lemma open_finish_secrets:
  "open_finish o1 u sv (creds\<lparr>cr_Password := a, cr_PrivateKey := b, cr_Passphrase := d\<rparr>) dl rnd now m = open_finish o1 u sv creds dl rnd now m"
  by (simp add: open_finish_def Let_def split: prod.split sum.split option.split)

lemma target_meta_secrets: "target_meta srv (creds\<lparr>cr_Password := a, cr_PrivateKey := b, cr_Passphrase := d\<rparr>) = target_meta srv creds"
  by (simp add: target_meta_def)

text \<open>C32: credentials are not kept. If two logins differ only in the password, the private key or the
  passphrase, and the host answers both the same way, then the response, the store with its audit
  log, and the session table are the same: nothing the control plane keeps or says depends on the
  secrets beyond the host's own answer.\<close>

theorem open_keeps_no_secret:
  assumes "same_login p co r r'" and "login_outcome c g p co r = login_outcome c g p co r'"
  shows "handleSSHOpen c g x p r co = handleSSHOpen c g x p r' co"
proof -
  obtain srv req creds req' a b d where q: "ssh_request p r co = Inr (srv, req, creds)"
    "ssh_request p r' co = Inr (srv, req', creds\<lparr>cr_Password := a, cr_PrivateKey := b, cr_Passphrase := d\<rparr>)"
    "clientIP r = clientIP r'" "get_int ''cols'' req' = get_int ''cols'' req" "get_int ''rows'' req' = get_int ''rows'' req"
    "get_string ''known_fingerprint'' req' = [] \<longleftrightarrow> get_string ''known_fingerprint'' req = []"
    using assms(1) unfolding same_login_def by metis
  have "Dial (c_sha256 c) g (creds\<lparr>cr_Password := a, cr_PrivateKey := b, cr_Passphrase := d\<rparr>) (get_int ''cols'' req) (get_int ''rows'' req) =
      Dial (c_sha256 c) g creds (get_int ''cols'' req) (get_int ''rows'' req)"
    using assms(2) q by (simp add: login_outcome_def)
  then show ?thesis using q by (simp add: handleSSHOpen_def ssh_Open_def open_finish_secrets target_meta_secrets Let_def split: option.split prod.split sum.split)
qed

definition login_message :: "string \<Rightarrow> json" where
  "login_message pw = jobject [(''host'', JvStr ''h''), (''username'', JvStr ''root''), (''password'', JvStr pw)]"

definition login_console :: console where
  "login_console = \<lparr>co_srv = New (NewMemory\<lparr>m_servers := [''1'' \<mapsto> \<lparr>srv_ID = ''1'', srv_OrgID = ''o'', srv_ServerID = ''srv'', srv_Hostname = ''h'',
       srv_Mode = ''cloud'', srv_Status = HealthUnknown, srv_LastSeenAt = 0, srv_CreatedAt = 0\<rparr>]\<rparr>), co_ssh = NewSshManager True True, co_tty = []\<rparr>"

lemma login_request:
  assumes "ascii pw" "length pw \<le> 100"
  shows "\<exists>srv req. ssh_request console_user (console_request (json_print (login_message pw))) login_console = Inr (srv, req, demo_creds\<lparr>cr_Password := pw\<rparr>) \<and>
    srv_ServerID srv = ''srv'' \<and> get_int ''cols'' req = 0 \<and> get_int ''rows'' req = 0 \<and> get_string ''known_fingerprint'' req = [] \<and>
    GetServer ''o'' ''1'' (ss_store (co_srv login_console)) = Inr srv"
proof -
  have "json_wf 0 (login_message pw)" using assms(1) by (simp add: login_message_def json_wf_jobject utf8_valid_ascii ascii_valid maxNestingDepth_def)
  then have "json_Decode (json_print (login_message pw)) = Some (login_message pw)" by (intro json_text_Unmarshal(2) json_print_text)
  moreover have "length (json_print (login_message pw)) \<le> 65536"
    using json_quote_length [OF assms(1)] assms(2)
    by (simp add: login_message_def jobject_def object_text_def json_quote_plain json_escape_char_def quote_def backslash_def)
  ultimately have "decodeLoose (console_request (json_print (login_message pw))) sshOpenRequest 65536 = decode_struct False sshOpenRequest (login_message pw)"
    by (simp add: decodeLoose_def console_request_def)
  then have d: "decodeLoose (console_request (json_print (login_message pw))) sshOpenRequest 65536 =
      Some [(''host'', json_quote ''h'', JvStr ''h''), (''username'', json_quote ''root'', JvStr ''root''), (''password'', json_quote pw, JvStr pw)]"
    by (simp add: decode_struct_def login_message_def jobject_def sshOpenRequest_def field_of_def EqualFold_def ToLower_def lower_char_def)
  show ?thesis
    unfolding ssh_request_def d
    by (simp add: login_console_def Unavailable_def NewSshManager_def New_def NewMemory_def GetServer_def console_user_def console_request_def credentialsFrom_def
        get_string_def get_int_def get_member_def EqualFold_def ToLower_def lower_char_def TrimSpace_def TrimLeftSpace_def is_space_def HasPrefix_def demo_creds_def)
qed

definition console_inputs :: inputs where
  "console_inputs = \<lparr>in_time = (\<lambda>_. 0), in_rnd = (\<lambda>i. Some [of_nat i]), in_servers = [], in_agents = [], in_alerts = []\<rparr>"

lemma demo_Dial:
  assumes "pw \<noteq> []"
  shows "Dial h demo_gossh (demo_creds\<lparr>cr_Password := pw\<rparr>) cols rows = (Inr 0, fingerprint_of h [1])"
  using assms by (simp add: Dial_def dialClient_def authMethods_def demo_gossh_def demo_creds_def hostKey_ok_def TrimSpace_def TrimLeftSpace_def Let_def)

theorem open_keeps_no_secret_witness:
  "handleSSHOpen demo_crypto demo_gossh console_inputs console_user (console_request (json_print (login_message ''one''))) login_console =
   handleSSHOpen demo_crypto demo_gossh console_inputs console_user (console_request (json_print (login_message ''two''))) login_console"
proof -
  have ok: "ascii ''one''" "ascii ''two''" "length ''one'' \<le> 100" "length ''two'' \<le> 100" by (simp_all add: ascii_def)
  obtain srv r1 where r1: "ssh_request console_user (console_request (json_print (login_message ''one''))) login_console = Inr (srv, r1, demo_creds\<lparr>cr_Password := ''one''\<rparr>)"
    "get_int ''cols'' r1 = 0" "get_int ''rows'' r1 = 0" "get_string ''known_fingerprint'' r1 = []" "GetServer ''o'' ''1'' (ss_store (co_srv login_console)) = Inr srv"
    using login_request [OF ok(1,3)] by (elim exE conjE)
  obtain srv' r2 where r2: "ssh_request console_user (console_request (json_print (login_message ''two''))) login_console = Inr (srv', r2, demo_creds\<lparr>cr_Password := ''two''\<rparr>)"
    "get_int ''cols'' r2 = 0" "get_int ''rows'' r2 = 0" "get_string ''known_fingerprint'' r2 = []" "GetServer ''o'' ''1'' (ss_store (co_srv login_console)) = Inr srv'"
    using login_request [OF ok(2,4)] by (elim exE conjE)
  have e: "srv' = srv" using r1(5) r2(5) by simp
  note r = r1(1) r2(1) [unfolded e]
  have "same_login console_user login_console (console_request (json_print (login_message ''one''))) (console_request (json_print (login_message ''two'')))"
    unfolding same_login_def r by (simp add: r1 r2 clientIP_def header_Get_def console_request_def demo_creds_def Let_def split: option.split)
  moreover have "login_outcome demo_crypto demo_gossh console_user login_console (console_request (json_print (login_message ''one''))) =
      login_outcome demo_crypto demo_gossh console_user login_console (console_request (json_print (login_message ''two'')))"
    unfolding login_outcome_def r by (simp add: demo_Dial r1 r2)
  ultimately show ?thesis by (rule open_keeps_no_secret)
qed

subsection \<open>The stream can be read back\<close>

text \<open>An event source as browsers read it: lines, \<open>event\<close> and \<open>data\<close> fields, an empty line dispatches
  what was collected unless there is no data; other lines are comments.\<close>

fun sse_lines :: "string \<Rightarrow> string \<Rightarrow> string list \<Rightarrow> (string \<times> string) list" where
  "sse_lines ev d [] = []"
| "sse_lines ev d (l # ls) =
     (if l = [] then (if d = [] then sse_lines [] [] ls else (ev, d) # sse_lines [] [] ls)
      else if HasPrefix l ''event: '' then sse_lines (drop 7 l) d ls
      else if HasPrefix l ''data: '' then sse_lines ev (d @ drop 6 l) ls
      else sse_lines ev d ls)"

definition sse_parse :: "string \<Rightarrow> (string \<times> string) list" where
  "sse_parse s = sse_lines [] [] (Split s (CHR 0x0A))"

definition terminal_output :: "(string \<times> string) list \<Rightarrow> bytes" where
  "terminal_output evs = concat (map (\<lambda>(ev, d). if ev = ''data'' then (case b64_std_decode d of None \<Rightarrow> [] | Some b \<Rightarrow> b) else []) evs)"

fun shell_output :: "stream_event list \<Rightarrow> bytes" where
  "shell_output [] = []"
| "shell_output (Chunk b # es) = b @ shell_output es"
| "shell_output (StreamEnd # es) = []"
| "shell_output (Heartbeat # es) = shell_output es"

lemma b64_no_newline: "CHR 0x0A \<notin> set (b64_std_encode b)"
  using b64_chars_notin [OF b64_raw_chars b64_val_special(2), of B64Std b] by (simp add: b64_std_encode_def)

lemma sse_event:
  assumes "CHR 0x0A \<notin> set ev" "CHR 0x0A \<notin> set d" "d \<noteq> []"
  shows "sse_parse (writeEvent ev d @ r) = (ev, d) # sse_parse r"
proof -
  have e: "writeEvent ev d @ r = (''event: '' @ ev) @ CHR 0x0A # (''data: '' @ d) @ CHR 0x0A # [] @ CHR 0x0A # r" by (simp add: writeEvent_def)
  have "Split (writeEvent ev d @ r) (CHR 0x0A) = (''event: '' @ ev) # (''data: '' @ d) # [] # Split r (CHR 0x0A)"
    unfolding e using assms(1,2) by (subst Split_append, simp)+ simp
  then show ?thesis using assms(3) by (simp add: sse_parse_def HasPrefix_def)
qed

text \<open>The stream carries the terminal faithfully. Whatever bytes the shell prints, in whatever chunks and
  between whatever heartbeats, a browser's event source decodes the response body to exactly those
  bytes, in order, up to the end of the shell.\<close>

theorem stream_carries_output:
  assumes "list_all (\<lambda>e. e \<noteq> Chunk []) evs"
  shows "terminal_output (sse_parse (stream_body evs)) = shell_output evs"
  using assms
proof (induction evs rule: shell_output.induct)
  case 1
  then show ?case by (simp add: sse_parse_def terminal_output_def)
next
  case (2 b es)
  have "b64_std_encode b \<noteq> []" using 2 by (simp add: b64_std_encode_Nil)
  then show ?case
    using 2 sse_event [of "''data''" "b64_std_encode b" "stream_body es"] b64_no_newline [of b] b64_std_roundtrip [of b]
    by (simp add: terminal_output_def)
next
  case (3 es)
  have m: "object_text [(''message'', json_quote ''session ended'')] \<noteq> []" "CHR 0x0A \<notin> set (object_text [(''message'', json_quote ''session ended'')])"
    by (simp_all add: object_text_def json_quote_plain json_escape_char_def quote_def backslash_def)
  then show ?case using sse_event [of "''exit''" _ "[]"] by (simp add: terminal_output_def sse_parse_def)
next
  case (4 es)
  have "Split (('': ping'' @ CHR 0x0A # [] @ CHR 0x0A # stream_body es)) (CHR 0x0A) = '': ping'' # [] # Split (stream_body es) (CHR 0x0A)"
    by (subst Split_append, simp)+ simp
  then show ?case using 4 by (simp add: sse_parse_def HasPrefix_def)
qed

theorem stream_carries_output_witness:
  "terminal_output (sse_parse (stream_body [Chunk [104, 105], Heartbeat, Chunk [10, 0], StreamEnd, Chunk [1]])) = [104, 105, 10, 0]"
  using stream_carries_output [of "[Chunk [104, 105], Heartbeat, Chunk [10, 0], StreamEnd, Chunk [1]]"] by simp

end
