(* ===== verification/Pulse_Audit_Graph.thy ===== *)
theory Pulse_Audit_Graph
  imports Pulse_Snapshot Pulse_Alerts Go_Json_Print "HOL-Library.Product_Lexorder"
begin

section \<open>The service audit\<close>

text \<open>
  \<^verbatim>\<open>apps/api/internal/httpx/handlers_service_audit.go\<close> and \<^verbatim>\<open>service_audit_rules.go\<close>: the graph of
  services built from a discovery snapshot, and the rules that look for services nothing needs. The
  nodes are a map from identifiers to node records; reading or changing a node that is not there
  dereferences a nil pointer, which is the result \<open>None\<close>. Go visits the maps of networks and
  projects in any order: the orders are arguments. \<open>int64\<close> sums wrap; a \<open>float64\<close> outside the range
  of \<open>int64\<close> becomes the least integer, as on amd64.
\<close>

subsection \<open>Attributes\<close>

definition stringAttr :: "(string \<rightharpoonup> json) \<Rightarrow> string \<Rightarrow> string" where
  "stringAttr attrs k = (case attrs k of Some (JvStr s) \<Rightarrow> s | _ \<Rightarrow> [])"

definition floatAttr :: "(string \<rightharpoonup> json) \<Rightarrow> string \<Rightarrow> rat" where
  "floatAttr attrs k = (case attrs k of Some (JvNum n) \<Rightarrow> num_val n | _ \<Rightarrow> 0)"

definition float_int64 :: "rat \<Rightarrow> int" where
  "float_int64 q = (let t = (if q < 0 then - \<lfloor>- q\<rfloor> else \<lfloor>q\<rfloor>) in if - (2 ^ 63) \<le> t \<and> t < 2 ^ 63 then t else - (2 ^ 63))"

definition int64Attr :: "(string \<rightharpoonup> json) \<Rightarrow> string \<Rightarrow> int" where
  "int64Attr attrs k = float_int64 (floatAttr attrs k)"

definition intAttr :: "(string \<rightharpoonup> json) \<Rightarrow> string \<Rightarrow> int" where
  "intAttr attrs k = (case attrs k of Some (JvNum n) \<Rightarrow> float_int64 (num_val n) | _ \<Rightarrow> 0)"

definition toStringSlice :: "json option \<Rightarrow> string list" where
  "toStringSlice v =
     (case v of
        Some (JvArr xs) \<Rightarrow> List.map_filter (\<lambda>e. case e of JvStr s \<Rightarrow> if s \<noteq> [] then Some s else None | _ \<Rightarrow> None) xs
      | _ \<Rightarrow> [])"

definition resourcesOf :: "agent_snapshot \<Rightarrow> string list \<Rightarrow> agent_resource list" where
  "resourcesOf snap types = filter (\<lambda>r. res_Type r \<in> set types) (snap_Resources snap)"

definition appendUnique :: "'a list \<Rightarrow> 'a \<Rightarrow> 'a list" where
  "appendUnique l v = (if v \<in> set l then l else l @ [v])"

definition appendUniqueInt :: "int list \<Rightarrow> int \<Rightarrow> int list" where
  "appendUniqueInt l v = (if v \<le> 0 then l else appendUnique l v)"

subsection \<open>Nodes and edges\<close>

record service_usage =
  us_CPUPercent :: rat
  us_MemoryBytes :: int
  us_DiskBytes :: int
  us_NetRxBytes :: int
  us_NetTxBytes :: int

definition no_usage :: service_usage where
  "no_usage = \<lparr>us_CPUPercent = 0, us_MemoryBytes = 0, us_DiskBytes = 0, us_NetRxBytes = 0, us_NetTxBytes = 0\<rparr>"

record service_node =
  nd_ID :: string
  nd_Name :: string
  nd_Kind :: string
  nd_Placement :: string
  nd_Status :: string
  nd_Health :: string
  nd_Image :: string
  nd_Engine :: string
  nd_Project :: string
  nd_Ports :: "int list"
  nd_PublicPorts :: "int list"
  nd_Usage :: service_usage
  nd_InboundRoutes :: "string list"
  nd_Peers :: "string list"
  nd_Essential :: bool

definition new_node :: "string \<Rightarrow> string \<Rightarrow> string \<Rightarrow> string \<Rightarrow> service_node" where
  "new_node i name kind placement =
     \<lparr>nd_ID = i, nd_Name = name, nd_Kind = kind, nd_Placement = placement, nd_Status = [], nd_Health = [], nd_Image = [], nd_Engine = [],
      nd_Project = [], nd_Ports = [], nd_PublicPorts = [], nd_Usage = no_usage, nd_InboundRoutes = [], nd_Peers = [], nd_Essential = False\<rparr>"

record service_relation =
  rl_From :: string
  rl_To :: string
  rl_Kind :: string
  rl_Detail :: string

record service_graph =
  sg_nodes :: "string \<rightharpoonup> service_node"
  sg_order :: "string list"
  sg_relations :: "service_relation list"
  sg_byName :: "string \<rightharpoonup> string"
  sg_byPort :: "int \<rightharpoonup> string"
  sg_byContainer :: "string \<rightharpoonup> string"
  sg_sawProxy :: bool
  sg_sawStorage :: bool
  sg_unattributedPorts :: int

definition essentialNames :: "string list" where
  "essentialNames = [''sshd'', ''ssh'', ''systemd-journald'', ''systemd-logind'', ''systemd-networkd'', ''systemd-resolved'', ''systemd-udevd'',
     ''dbus'', ''cron'', ''crond'', ''rsyslog'', ''chronyd'', ''ntpd'', ''systemd-timesyncd'', ''docker'', ''containerd'',
     ''ufw'', ''firewalld'', ''fail2ban'', ''unattended-upgrades'']"

definition essentialPrefixes :: "string list" where
  "essentialPrefixes = [''pulse-'', ''systemd-'', ''getty@'', ''user@'', ''docker-'', ''containerd-'']"

definition isEssential :: "string \<Rightarrow> bool" where
  "isEssential name =
     (let n = ToLower (TrimSuffix name ''.service'') in n \<in> set essentialNames \<or> list_ex (HasPrefix n) essentialPrefixes)"

text \<open>Changing a node through a pointer that is known to be valid, and through \<open>g.nodes[id]\<close>.\<close>

definition modify :: "string \<Rightarrow> (service_node \<Rightarrow> service_node) \<Rightarrow> service_graph \<Rightarrow> service_graph" where
  "modify i f g = g\<lparr>sg_nodes := (sg_nodes g)(i := map_option f (sg_nodes g i))\<rparr>"

definition deref_modify :: "string \<Rightarrow> (service_node \<Rightarrow> service_node) \<Rightarrow> service_graph \<Rightarrow> service_graph option" where
  "deref_modify i f g = (if sg_nodes g i = None then None else Some (modify i f g))"

definition put :: "service_node \<Rightarrow> service_graph \<Rightarrow> service_graph" where
  "put n g =
     (if sg_nodes g (nd_ID n) \<noteq> None then g
      else g\<lparr>sg_nodes := (sg_nodes g)(nd_ID n \<mapsto> n\<lparr>nd_Essential := nd_Essential n \<or> isEssential (nd_Name n)\<rparr>),
             sg_order := sg_order g @ [nd_ID n],
             sg_byName := (sg_byName g)(ToLower (nd_Name n) \<mapsto> nd_ID n)\<rparr>)"

definition add_peer :: "string \<Rightarrow> service_node \<Rightarrow> service_node" where
  "add_peer i n = n\<lparr>nd_Peers := appendUnique (nd_Peers n) i\<rparr>"

definition relate :: "string \<Rightarrow> string \<Rightarrow> string \<Rightarrow> string \<Rightarrow> service_graph \<Rightarrow> service_graph" where
  "relate from to kind detail g =
     (if from = [] \<or> to = [] \<or> from = to then g
      else modify to (add_peer from) (modify from (add_peer to)
             (g\<lparr>sg_relations := sg_relations g @ [\<lparr>rl_From = from, rl_To = to, rl_Kind = kind, rl_Detail = detail\<rparr>]\<rparr>)))"

fun foldO :: "('a \<Rightarrow> 's \<Rightarrow> 's option) \<Rightarrow> 'a list \<Rightarrow> 's \<Rightarrow> 's option" where
  "foldO f [] s = Some s"
| "foldO f (x # xs) s = (case f x s of None \<Rightarrow> None | Some s1 \<Rightarrow> foldO f xs s1)"

subsection \<open>Building the graph\<close>

definition container_port :: "string \<Rightarrow> agent_port \<Rightarrow> service_graph \<Rightarrow> service_graph" where
  "container_port i port g =
     (let g1 = (if 0 < po_Host port
                then (modify i (\<lambda>n. n\<lparr>nd_Ports := appendUniqueInt (nd_Ports n) (po_Host port)\<rparr>) g)
                       \<lparr>sg_byPort := (sg_byPort g)(po_Host port \<mapsto> i)\<rparr>
                else g)
      in if 0 < po_Container port then modify i (\<lambda>n. n\<lparr>nd_Ports := appendUniqueInt (nd_Ports n) (po_Container port)\<rparr>) g1 else g1)"

definition add_container :: "agent_resource \<Rightarrow> service_graph \<Rightarrow> service_graph" where
  "add_container c g =
     (let cid = TrimPrefix (res_ID c) ''container:''; attrs = res_Attributes c;
          g1 = put ((new_node (res_ID c) (res_Name c) ''container'' ''container'')
                 \<lparr>nd_Status := res_Status c, nd_Health := res_Health c, nd_Image := stringAttr attrs ''image'', nd_Project := stringAttr attrs ''compose_project'',
                  nd_Usage := no_usage\<lparr>us_CPUPercent := floatAttr attrs ''cpu_percent'', us_MemoryBytes := int64Attr attrs ''memory_bytes'',
                     us_NetRxBytes := int64Attr attrs ''net_rx_bytes'', us_NetTxBytes := int64Attr attrs ''net_tx_bytes''\<rparr>\<rparr>) g;
          g2 = fold (container_port (res_ID c)) (res_Ports c) g1
      in g2\<lparr>sg_byContainer := (sg_byContainer g2)(cid \<mapsto> res_ID c)\<rparr>)"

definition addContainers :: "agent_snapshot \<Rightarrow> service_graph \<Rightarrow> service_graph" where
  "addContainers snap = fold add_container (resourcesOf snap [''docker_container''])"

definition addHostServices :: "agent_snapshot \<Rightarrow> service_graph \<Rightarrow> service_graph" where
  "addHostServices snap = fold (\<lambda>u g. if res_Status u \<noteq> ''running'' then g
       else put ((new_node (res_ID u) (res_Name u) ''service'' ''host'')\<lparr>nd_Status := res_Status u, nd_Health := res_Health u\<rparr>) g)
     (resourcesOf snap [''systemd_unit'', ''initd_service''])"

definition database_port :: "string \<Rightarrow> agent_port \<Rightarrow> service_graph \<Rightarrow> service_graph" where
  "database_port i port g =
     (if 0 < po_Host port
      then (modify i (\<lambda>n. n\<lparr>nd_Ports := appendUniqueInt (nd_Ports n) (po_Host port)\<rparr>) g)
             \<lparr>sg_byPort := (if sg_byPort g (po_Host port) \<noteq> None then sg_byPort g else (sg_byPort g)(po_Host port \<mapsto> i))\<rparr>
      else g)"

definition add_database :: "agent_resource \<Rightarrow> service_graph \<Rightarrow> service_graph option" where
  "add_database db g =
     (let attrs = res_Attributes db; cid = stringAttr attrs ''container_id'';
          fresh = fold (database_port (res_ID db)) (res_Ports db)
                    (put ((new_node (res_ID db) (res_Name db) ''database'' ''host'')
                       \<lparr>nd_Status := res_Status db, nd_Health := res_Health db, nd_Engine := stringAttr attrs ''engine''\<rparr>) g)
      in if cid = [] then Some fresh
         else case sg_byContainer g cid of
             None \<Rightarrow> Some fresh
           | Some i \<Rightarrow> deref_modify i (\<lambda>n. if nd_Engine n = [] then n\<lparr>nd_Engine := stringAttr attrs ''engine''\<rparr> else n) g)"

definition addDatabases :: "agent_snapshot \<Rightarrow> service_graph \<Rightarrow> service_graph option" where
  "addDatabases snap = foldO add_database (resourcesOf snap [''database''])"

definition add_proxy :: "agent_resource \<Rightarrow> service_graph \<Rightarrow> service_graph" where
  "add_proxy rp g =
     modify (res_ID rp) (\<lambda>n. n\<lparr>nd_Essential := True\<rparr>)
       (put ((new_node (res_ID rp) (res_Name rp) ''proxy'' ''host'')
          \<lparr>nd_Health := res_Health rp, nd_Engine := stringAttr (res_Attributes rp) ''engine''\<rparr>) (g\<lparr>sg_sawProxy := True\<rparr>))"

definition addProxies :: "agent_snapshot \<Rightarrow> service_graph \<Rightarrow> service_graph" where
  "addProxies snap = fold add_proxy (resourcesOf snap [''reverse_proxy''])"

definition attach_storage :: "agent_resource \<Rightarrow> service_graph \<Rightarrow> service_graph option" where
  "attach_storage cs g =
     (let g1 = g\<lparr>sg_sawStorage := True\<rparr> in
      case sg_byName g (ToLower (res_Name cs)) of
        None \<Rightarrow> Some g1
      | Some i \<Rightarrow> deref_modify i (\<lambda>n. n\<lparr>nd_Usage := (nd_Usage n)\<lparr>us_DiskBytes := int64Attr (res_Attributes cs) ''writable_bytes''\<rparr>\<rparr>) g1)"

definition attachStorage :: "agent_snapshot \<Rightarrow> service_graph \<Rightarrow> service_graph option" where
  "attachStorage snap g =
     map_option (\<lambda>g1. if resourcesOf snap [''docker_storage''] \<noteq> [] then g1\<lparr>sg_sawStorage := True\<rparr> else g1)
       (foldO attach_storage (resourcesOf snap [''container_storage'']) g)"

text \<open>A missing key of a Go map reads as the empty string.\<close>

definition index_string :: "(string \<rightharpoonup> string) \<Rightarrow> string \<Rightarrow> string" where
  "index_string m k = (case m k of None \<Rightarrow> [] | Some v \<Rightarrow> v)"

definition port_owner :: "agent_resource \<Rightarrow> service_graph \<Rightarrow> string" where
  "port_owner lp g =
     (let attrs = res_Attributes lp; cid = stringAttr attrs ''container_id''; unit = stringAttr attrs ''unit''; proc = stringAttr attrs ''process'';
          id0 = (if cid \<noteq> [] then index_string (sg_byContainer g) cid else []);
          id1 = (if id0 = [] \<and> unit \<noteq> [] then index_string (sg_byName g) (ToLower unit) else id0)
      in if id1 = [] \<and> proc \<noteq> [] then index_string (sg_byName g) (ToLower proc) else id1)"

definition claim_port :: "string \<Rightarrow> int \<Rightarrow> service_node \<Rightarrow> service_node" where
  "claim_port exposure p n =
     (let n1 = n\<lparr>nd_Ports := appendUniqueInt (nd_Ports n) p\<rparr> in
      if exposure = ''public'' then n1\<lparr>nd_PublicPorts := appendUniqueInt (nd_PublicPorts n1) p\<rparr> else n1)"

definition attach_port :: "agent_resource \<Rightarrow> service_graph \<Rightarrow> service_graph option" where
  "attach_port lp g =
     (case res_Ports lp of
        [] \<Rightarrow> Some g
      | port # _ \<Rightarrow>
          let i = port_owner lp g; exposure = stringAttr (res_Attributes lp) ''exposure'' in
          if i = [] then
            Some (if stringAttr (res_Attributes lp) ''process'' = [] then g\<lparr>sg_unattributedPorts := sg_unattributedPorts g + 1\<rparr> else g)
          else map_option (\<lambda>g1. g1\<lparr>sg_byPort := (if sg_byPort g1 (po_Host port) \<noteq> None then sg_byPort g1 else (sg_byPort g1)(po_Host port \<mapsto> i))\<rparr>)
            (deref_modify i (claim_port exposure (po_Host port)) g))"

definition attachPorts :: "agent_snapshot \<Rightarrow> service_graph \<Rightarrow> service_graph option" where
  "attachPorts snap = foldO attach_port (resourcesOf snap [''listening_port''])"

definition resolveUpstream :: "service_graph \<Rightarrow> string \<Rightarrow> string" where
  "resolveUpstream g upstream =
     (let u0 = TrimPrefix (TrimPrefix (TrimSpace upstream) ''http://'') ''https://'';
          u = takeWhile (\<lambda>c. c \<noteq> CHR ''/'') u0;
          (host, portStr, hasPort) = Cut u (CHR '':'');
          byPort = (if hasPort then (case ParseInt10 portStr of None \<Rightarrow> [] | Some port \<Rightarrow> (case sg_byPort g port of None \<Rightarrow> [] | Some i \<Rightarrow> i)) else [])
      in if host \<noteq> [] \<and> host \<noteq> ''127.0.0.1'' \<and> host \<noteq> ''localhost'' \<and> host \<noteq> ''0.0.0.0''
         then (case sg_byName g (ToLower host) of Some i \<Rightarrow> i | None \<Rightarrow> byPort)
         else byPort)"

definition arrow :: string where "arrow = [CHR '' '', CHR 0xE2, CHR 0x86, CHR 0x92, CHR '' '']"

definition add_route :: "string \<Rightarrow> service_node \<Rightarrow> service_node" where
  "add_route name n = n\<lparr>nd_InboundRoutes := appendUnique (nd_InboundRoutes n) name\<rparr>"

definition link_upstream :: "agent_resource \<Rightarrow> string \<Rightarrow> service_graph \<Rightarrow> service_graph option" where
  "link_upstream vh up g =
     (let target = resolveUpstream g up in
      if target = [] then Some g
      else map_option (\<lambda>g1.
          let e0 = stringAttr (res_Attributes vh) ''engine'';
              engine = (if e0 = [] then TrimSuffix (res_Type vh) ''_vhost'' else e0)
          in case sg_nodes g1 (''reverse_proxy:'' @ engine) of
               None \<Rightarrow> g1
             | Some proxy \<Rightarrow> relate (nd_ID proxy) target ''proxy_route'' (res_Name vh @ arrow @ up) g1)
        (deref_modify target (add_route (res_Name vh)) g))"

definition vhost_types :: "string list" where
  "vhost_types = [''nginx_vhost'', ''apache_vhost'', ''caddy_site'', ''traefik_router'', ''haproxy_frontend'']"

definition linkProxyRoutes :: "agent_snapshot \<Rightarrow> service_graph \<Rightarrow> service_graph option" where
  "linkProxyRoutes snap = foldO (\<lambda>vh g. foldO (link_upstream vh) (toStringSlice (res_Attributes vh ''upstreams'')) (g\<lparr>sg_sawProxy := True\<rparr>))
     (resourcesOf snap vhost_types)"

definition maxGroup :: nat where "maxGroup = 24"

text \<open>The pairs \<open>i < j\<close> of a list, in the order of the two loops.\<close>

fun pairs_of :: "'a list \<Rightarrow> ('a \<times> 'a) list" where
  "pairs_of [] = []"
| "pairs_of (x # xs) = map (Pair x) xs @ pairs_of xs"

definition linkAll :: "string list \<Rightarrow> string \<Rightarrow> string \<Rightarrow> service_graph \<Rightarrow> service_graph" where
  "linkAll ids kind detail g =
     (if length ids < 2 \<or> maxGroup < length ids then g
      else fold (\<lambda>(a, b). relate a b kind detail) (pairs_of ids) g)"

definition add_to_group :: "string \<Rightarrow> string \<Rightarrow> (string \<rightharpoonup> string list) \<Rightarrow> (string \<rightharpoonup> string list)" where
  "add_to_group k i m = m(k \<mapsto> (case m k of None \<Rightarrow> [] | Some l \<Rightarrow> l) @ [i])"

definition default_networks :: "string list" where
  "default_networks = [''bridge'', ''host'', ''none'']"

definition network_groups :: "agent_snapshot \<Rightarrow> (string \<rightharpoonup> string list)" where
  "network_groups snap =
     fold (\<lambda>c. fold (\<lambda>net m. if net \<in> set default_networks then m else add_to_group net (res_ID c) m) (res_Networks c))
       (resourcesOf snap [''docker_container'']) Map.empty"

definition project_groups :: "agent_snapshot \<Rightarrow> (string \<rightharpoonup> string list)" where
  "project_groups snap =
     fold (\<lambda>c m. let proj = stringAttr (res_Attributes c) ''compose_project'' in if proj \<noteq> [] then add_to_group proj (res_ID c) m else m)
       (resourcesOf snap [''docker_container'']) Map.empty"

definition link_dependencies :: "agent_resource \<Rightarrow> service_graph \<Rightarrow> service_graph" where
  "link_dependencies c = fold (\<lambda>dep g. case sg_byName g (ToLower dep) of None \<Rightarrow> g
       | Some target \<Rightarrow> relate (res_ID c) target ''depends_on'' ''compose depends_on'' g) (res_DependsOn c)"

definition link_groups :: "string \<Rightarrow> string \<Rightarrow> (string \<rightharpoonup> string list) \<Rightarrow> string list \<Rightarrow> service_graph \<Rightarrow> service_graph" where
  "link_groups kind detail m ord =
     fold (\<lambda>k g. case m k of None \<Rightarrow> g | Some ids \<Rightarrow> linkAll ids kind (detail @ k) g) ord"

definition linkContainers :: "string list \<Rightarrow> string list \<Rightarrow> agent_snapshot \<Rightarrow> service_graph \<Rightarrow> service_graph" where
  "linkContainers nets projs snap g =
     link_groups ''compose'' ''compose project '' (project_groups snap) projs
       (link_groups ''docker_network'' ''shares network '' (network_groups snap) nets
         (fold link_dependencies (resourcesOf snap [''docker_container'']) g))"

definition relation_key :: "service_relation \<Rightarrow> string" where
  "relation_key r = rl_From r @ ''|'' @ rl_To r @ ''|'' @ rl_Kind r"

fun dedupe_scan :: "string set \<Rightarrow> service_relation list \<Rightarrow> service_relation list" where
  "dedupe_scan seen [] = []"
| "dedupe_scan seen (r # rs) =
     (if relation_key r \<in> seen then dedupe_scan seen rs else r # dedupe_scan (insert (relation_key r) seen) rs)"

definition dedupeRelations :: "service_graph \<Rightarrow> service_graph" where
  "dedupeRelations g = g\<lparr>sg_relations := sort_key (\<lambda>r. (rl_From r, rl_To r)) (dedupe_scan {} (sg_relations g))\<rparr>"

definition empty_graph :: service_graph where
  "empty_graph = \<lparr>sg_nodes = Map.empty, sg_order = [], sg_relations = [], sg_byName = Map.empty, sg_byPort = Map.empty,
     sg_byContainer = Map.empty, sg_sawProxy = False, sg_sawStorage = False, sg_unattributedPorts = 0\<rparr>"

definition service_nodes_graph :: "agent_snapshot \<Rightarrow> service_graph option" where
  "service_nodes_graph snap =
     (case addDatabases snap (addHostServices snap (addContainers snap empty_graph)) of
        None \<Rightarrow> None
      | Some g1 \<Rightarrow>
          (case attachStorage snap (addProxies snap g1) of
             None \<Rightarrow> None
           | Some g2 \<Rightarrow> (case attachPorts snap g2 of None \<Rightarrow> None | Some g3 \<Rightarrow> linkProxyRoutes snap g3)))"

definition newServiceGraph :: "string list \<Rightarrow> string list \<Rightarrow> agent_snapshot \<Rightarrow> service_graph option" where
  "newServiceGraph nets projs snap =
     map_option (\<lambda>g. dedupeRelations (linkContainers nets projs snap g)) (service_nodes_graph snap)"

end
