(* ===== verification/Pulse_Audit_Rules.thy ===== *)
theory Pulse_Audit_Rules
  imports Pulse_Audit_Graph
begin

section \<open>The rules of the service audit\<close>

text \<open>
  \<^verbatim>\<open>apps/api/internal/httpx/service_audit_rules.go\<close>, and \<open>buildServiceAudit\<close>, \<open>limitations\<close> and
  \<open>handleServiceAudit\<close> of \<^verbatim>\<open>handlers_service_audit.go\<close>. Each rule is a function on the nodes in the
  order they were found. \<open>sort.SliceStable\<close> on lexicographic comparisons is \<open>sort_key\<close> with a tuple.
\<close>

subsection \<open>Texts\<close>

definition dashes :: string where "dashes = [CHR 0xE2, CHR 0x80, CHR 0x94]"

text \<open>The verb \<open>%q\<close> on ASCII; longer UTF-8 sequences are kept.\<close>

definition quote_char :: "char \<Rightarrow> string" where
  "quote_char c =
     (if c = CHR 0x22 \<or> c = CHR 0x5C then [CHR 0x5C, c]
      else if c = CHR 0x07 then [CHR 0x5C, CHR ''a''] else if c = CHR 0x08 then [CHR 0x5C, CHR ''b'']
      else if c = CHR 0x0C then [CHR 0x5C, CHR ''f''] else if c = CHR 0x0A then [CHR 0x5C, CHR ''n'']
      else if c = CHR 0x0D then [CHR 0x5C, CHR ''r''] else if c = CHR 0x09 then [CHR 0x5C, CHR ''t'']
      else if c = CHR 0x0B then [CHR 0x5C, CHR ''v'']
      else if of_char c < (32 :: nat) \<or> c = CHR 0x7F
        then [CHR 0x5C, CHR ''x'', hex_char (of_char c div 16), hex_char (of_char c mod 16)]
      else [c])"

definition fmt_q :: "string \<Rightarrow> string" where
  "fmt_q s = [CHR 0x22] @ concat (map quote_char s) @ [CHR 0x22]"

definition portList :: "int list \<Rightarrow> string" where
  "portList ports = (if ports = [] then ''no port'' else ''port '' @ Join (map Itoa (sort ports)) '', '')"

function human_loop :: "int \<Rightarrow> int \<Rightarrow> nat \<Rightarrow> int \<times> nat" where
  "human_loop n d e = (if 1024 \<le> n \<and> e < 4 then human_loop (n div 1024) (d * 1024) (e + 1) else (d, e))"
  by pat_completeness auto
termination
  by (relation "measure (\<lambda>(n, d, e). 4 - e)") auto

declare human_loop.simps [simp del]

definition humanBytes :: "int \<Rightarrow> string" where
  "humanBytes b =
     (if b < 1024 then Itoa b @ '' B''
      else let (d, e) = human_loop (b div 1024) 1024 0
           in fmt_fixed 1 (of_int b / of_int d) @ '' '' @ [''KMGTP'' ! e] @ ''iB'')"

subsection \<open>Findings\<close>

record audit_finding =
  af_ID :: string
  af_Subject :: string
  af_SubjectName :: string
  af_Category :: string
  af_Severity :: string
  af_Confidence :: string
  af_Title :: string
  af_Detail :: string
  af_Evidence :: "string list"
  af_Reclaimable :: service_usage
  af_Recommendation :: string

definition idleCPUPercent :: rat where "idleCPUPercent = 5 / 10"
definition idleTrafficBytes :: int where "idleTrafficBytes = 4194304"
definition residentMemoryFloor :: int where "residentMemoryFloor = 33554432"
definition notableDiskBytes :: int where "notableDiskBytes = 67108864"

definition audit_severityRank :: "string \<Rightarrow> int" where
  "audit_severityRank s = (if s = ''medium'' then 3 else if s = ''low'' then 2 else 1)"

definition stopped_container :: "service_node \<Rightarrow> bool" where
  "stopped_container n \<longleftrightarrow> \<not> (nd_Kind n \<noteq> ''container'' \<or> nd_Essential n) \<and>
     \<not> (nd_Status n = ''running'' \<or> nd_Status n = ''restarting'' \<or> nd_Status n = [])"

definition stopped_finding :: "service_node \<Rightarrow> audit_finding" where
  "stopped_finding n =
     \<lparr>af_ID = ''stopped:'' @ nd_ID n, af_Subject = nd_ID n, af_SubjectName = nd_Name n, af_Category = ''stopped'', af_Severity = ''low'',
      af_Confidence = ''high'', af_Title = nd_Name n @ '' is not running but still occupies disk'',
      af_Detail = ''The container is stopped. It uses no CPU or memory, but its writable layer '' @
        ''(and any named volumes) stay on disk until someone removes them.'',
      af_Evidence = [''Container state is '' @ fmt_q (nd_Status n) @ '', not running.''] @
        (if 0 < us_DiskBytes (nd_Usage n) then [''Its writable layer holds '' @ humanBytes (us_DiskBytes (nd_Usage n)) @ ''.''] else []) @
        (if nd_Image n \<noteq> [] then [''Image: '' @ nd_Image n @ ''.''] else []) @
        (if nd_InboundRoutes n \<noteq> []
         then [''A reverse proxy still routes '' @ Join (nd_InboundRoutes n) '', '' @ '' here, so that route is currently broken.''] else []),
      af_Reclaimable = no_usage\<lparr>us_DiskBytes := us_DiskBytes (nd_Usage n)\<rparr>,
      af_Recommendation = ''Check whether this was stopped deliberately. If it is finished with, its disk is yours to reclaim; if it should be running, that is the real problem here.''\<rparr>"

definition ruleStoppedContainers :: "service_node list \<Rightarrow> audit_finding list" where
  "ruleStoppedContainers ns = map stopped_finding (filter stopped_container ns)"

definition unrouted :: "service_node \<Rightarrow> bool" where
  "unrouted n \<longleftrightarrow> \<not> (nd_Essential n \<or> nd_Kind n = ''proxy'' \<or> nd_Status n \<noteq> ''running'') \<and>
     \<not> (nd_Ports n = [] \<or> nd_InboundRoutes n \<noteq> [] \<or> nd_Peers n \<noteq> [])"

definition unrouted_finding :: "service_node \<Rightarrow> audit_finding" where
  "unrouted_finding n =
     \<lparr>af_ID = ''unrouted:'' @ nd_ID n, af_Subject = nd_ID n, af_SubjectName = nd_Name n, af_Category = ''unrouted'', af_Severity = ''medium'',
      af_Confidence = ''medium'', af_Title = ''Nothing observed routes to '' @ nd_Name n,
      af_Detail = ''This service is running and listening, but no proxy route and no other service '' @
        ''connects to it. It may be reached directly by an external client or by something '' @
        ''Pulse cannot see, so this is a lead rather than a verdict.'',
      af_Evidence = [''Listening on '' @ portList (nd_Ports n) @ '', but no reverse-proxy vhost points at it.'',
          ''No other discovered service shares a network, Compose project or dependency with it.''] @
        (if nd_PublicPorts n \<noteq> []
         then [''Bound to all interfaces on '' @ portList (nd_PublicPorts n) @ '', so it is reachable from outside without going through the proxy.''] else []),
      af_Reclaimable = (nd_Usage n)\<lparr>us_NetRxBytes := 0, us_NetTxBytes := 0\<rparr>,
      af_Recommendation = ''Confirm who talks to this port before doing anything. If the answer is nobody, it is a candidate for removal.''\<rparr>"

definition ruleUnrouted :: "bool \<Rightarrow> service_node list \<Rightarrow> audit_finding list" where
  "ruleUnrouted sawProxy ns = (if \<not> sawProxy then [] else map unrouted_finding (filter unrouted ns))"

definition idle_traffic :: "service_node \<Rightarrow> int" where
  "idle_traffic n = wrap64 (us_NetRxBytes (nd_Usage n) + us_NetTxBytes (nd_Usage n))"

definition idle :: "service_node \<Rightarrow> bool" where
  "idle n \<longleftrightarrow> \<not> (nd_Essential n \<or> nd_Kind n = ''proxy'' \<or> nd_Status n \<noteq> ''running'') \<and>
     \<not> us_MemoryBytes (nd_Usage n) < residentMemoryFloor \<and>
     \<not> (idleCPUPercent \<le> us_CPUPercent (nd_Usage n) \<or> idleTrafficBytes \<le> idle_traffic n)"

definition idle_finding :: "service_node \<Rightarrow> audit_finding" where
  "idle_finding n =
     (let unconnected = (nd_InboundRoutes n = [] \<and> nd_Peers n = []) in
      \<lparr>af_ID = ''idle:'' @ nd_ID n, af_Subject = nd_ID n, af_SubjectName = nd_Name n, af_Category = ''idle'', af_Severity = ''medium'',
       af_Confidence = (if unconnected then ''medium'' else ''low''), af_Title = nd_Name n @ '' is running but shows no activity'',
       af_Detail = ''Near-zero CPU and almost no network traffic since it started, while holding '' @
         ''memory. That fits an abandoned service '' @ dashes @ '' and equally fits a worker that only wakes '' @
         ''on a schedule, so treat it as a question, not an answer.'',
       af_Evidence = [''CPU was '' @ fmt_fixed 2 (us_CPUPercent (nd_Usage n)) @ ''% at the last sample.'',
           ''Total network traffic since it started is '' @ humanBytes (idle_traffic n) @ ''.'',
           ''It is holding '' @ humanBytes (us_MemoryBytes (nd_Usage n)) @ '' of memory.''] @
         (if unconnected then [''Nothing routes to it and no other service is connected to it.'']
          else if nd_InboundRoutes n \<noteq> []
          then [''A proxy does route '' @ Join (nd_InboundRoutes n) '', '' @ '' here, so it is wired up '' @ dashes @ '' just unused so far.''] else []),
       af_Reclaimable = (nd_Usage n)\<lparr>us_NetRxBytes := 0, us_NetTxBytes := 0\<rparr>,
       af_Recommendation = ''Watch it over a longer window, or check its logs for the last time it did real work, before concluding it is unused.''\<rparr>)"

definition ruleIdle :: "service_node list \<Rightarrow> audit_finding list" where
  "ruleIdle ns = map idle_finding (filter idle ns)"

definition unreferenced :: "service_node \<Rightarrow> bool" where
  "unreferenced n \<longleftrightarrow> \<not> (nd_Essential n \<or> nd_Engine n = []) \<and> \<not> (nd_Kind n \<noteq> ''database'' \<and> nd_Kind n \<noteq> ''container'') \<and>
     \<not> (nd_Peers n \<noteq> [] \<or> nd_InboundRoutes n \<noteq> [])"

definition unreferenced_finding :: "service_node \<Rightarrow> audit_finding" where
  "unreferenced_finding n =
     \<lparr>af_ID = ''unreferenced-db:'' @ nd_ID n, af_Subject = nd_ID n, af_SubjectName = nd_Name n, af_Category = ''unreferenced'', af_Severity = ''info'',
      af_Confidence = ''low'', af_Title = ''No service was observed connecting to '' @ nd_Name n,
      af_Detail = ''This '' @ nd_Engine n @ '' instance has no discovered consumer. Application clients '' @
        ''connect over ordinary sockets that Pulse does not trace, so a busy database can '' @ ''legitimately appear here.'',
      af_Evidence = [''Engine: '' @ nd_Engine n @ ''.'', ''No Compose project, shared network or proxy route ties it to another service.''],
      af_Reclaimable = no_usage\<lparr>us_MemoryBytes := us_MemoryBytes (nd_Usage n), us_DiskBytes := us_DiskBytes (nd_Usage n)\<rparr>,
      af_Recommendation = ''Check the database's own connection list or its clients' configuration before treating it as unused. Never remove a database on this signal alone.''\<rparr>"

definition ruleUnreferencedDatabases :: "service_node list \<Rightarrow> audit_finding list" where
  "ruleUnreferencedDatabases ns = map unreferenced_finding (filter unreferenced ns)"

definition engine_group :: "service_node list \<Rightarrow> string \<Rightarrow> service_node list" where
  "engine_group ns engine = filter (\<lambda>n. \<not> (nd_Engine n = [] \<or> nd_Status n = ''exited'') \<and> nd_Engine n = engine) ns"

definition engines_of :: "service_node list \<Rightarrow> string list" where
  "engines_of ns = sort (remdups (map nd_Engine (filter (\<lambda>n. \<not> (nd_Engine n = [] \<or> nd_Status n = ''exited'')) ns)))"

definition duplicate_finding :: "string \<Rightarrow> service_node list \<Rightarrow> audit_finding" where
  "duplicate_finding engine grp =
     (let names = Join (sort (map nd_Name grp)) '', ''; proxies = nd_Kind (hd grp) = ''proxy'' in
      \<lparr>af_ID = ''duplicate:'' @ engine, af_Subject = nd_ID (hd grp), af_SubjectName = names, af_Category = ''duplicate'',
       af_Severity = (if proxies then ''low'' else ''info''), af_Confidence = ''medium'',
       af_Title = Itoa (int (length grp)) @ '' '' @ engine @ '' '' @ (if proxies then ''reverse proxies'' else ''instances'') @ '' are running'',
       af_Detail = ''More than one '' @ engine @ '' is present on this host. That is deliberate in some '' @
         ''setups and a leftover from a migration in many others.'',
       af_Evidence = [''Instances: '' @ names @ ''.'', ''Pulse cannot tell which one your applications actually use.''],
       af_Reclaimable = no_usage\<lparr>us_MemoryBytes := fold (\<lambda>n a. wrap64 (a + us_MemoryBytes (nd_Usage n))) grp 0,
         us_DiskBytes := fold (\<lambda>n a. wrap64 (a + us_DiskBytes (nd_Usage n))) grp 0\<rparr>,
       af_Recommendation = ''Confirm which instance is live before retiring the other. The reclaimable figure above is the total across all of them, not what one removal would free.''\<rparr>)"

definition ruleDuplicateEngines :: "service_node list \<Rightarrow> audit_finding list" where
  "ruleDuplicateEngines ns =
     concat (map (\<lambda>e. let grp = engine_group ns e in if length grp < 2 then [] else [duplicate_finding e grp]) (engines_of ns))"

definition orphan_finding :: "agent_resource \<Rightarrow> audit_finding" where
  "orphan_finding sg =
     (let volumes = intAttr (res_Attributes sg) ''volume_count''; b = int64Attr (res_Attributes sg) ''total_bytes'' in
      \<lparr>af_ID = ''orphan-storage:'' @ res_Name sg, af_Subject = res_ID sg, af_SubjectName = res_Name sg, af_Category = ''orphaned'',
       af_Severity = ''low'', af_Confidence = ''medium'',
       af_Title = res_Name sg @ '' holds '' @ humanBytes b @ '' of volumes with no containers left'',
       af_Detail = ''Every container in this project is gone, but its named volumes are still on '' @
         ''disk. Docker keeps them on purpose '' @ dashes @ '' they usually hold the data the project was for.'',
       af_Evidence = [Itoa volumes @ '' volume(s), '' @ humanBytes b @ '' total.'', ''No container in this project is present.''],
       af_Reclaimable = no_usage\<lparr>us_DiskBytes := b\<rparr>,
       af_Recommendation = ''This is the project's data, not scratch space. Back it up or confirm it is genuinely finished with before reclaiming the disk.''\<rparr>)"

definition ruleOrphanedStorage :: "agent_snapshot \<Rightarrow> audit_finding list" where
  "ruleOrphanedStorage snap = map orphan_finding (filter (\<lambda>sg. let attrs = res_Attributes sg in
       \<not> (intAttr attrs ''volume_count'' = 0 \<or> 0 < intAttr attrs ''container_count'' \<or> int64Attr attrs ''total_bytes'' < notableDiskBytes))
     (resourcesOf snap [''storage_group'']))"

definition finding_weight :: "audit_finding \<Rightarrow> int" where
  "finding_weight f = wrap64 (us_DiskBytes (af_Reclaimable f) + us_MemoryBytes (af_Reclaimable f))"

definition audit_findings :: "agent_snapshot \<Rightarrow> bool \<Rightarrow> service_node list \<Rightarrow> audit_finding list" where
  "audit_findings snap sawProxy ns =
     sort_key (\<lambda>f. (- audit_severityRank (af_Severity f), - finding_weight f, af_SubjectName f))
       (ruleStoppedContainers ns @ ruleUnrouted sawProxy ns @ ruleIdle ns @ ruleUnreferencedDatabases ns @
        ruleDuplicateEngines ns @ ruleOrphanedStorage snap)"

subsection \<open>The response\<close>

record audit_totals =
  to_Services :: int
  to_Relations :: int
  to_Flagged :: int
  to_ReclaimableMemory :: int
  to_ReclaimableDisk :: int
  to_UnroutedServices :: int
  to_StoppedWithDiskUsed :: int

record service_audit =
  sa_Hostname :: string
  sa_GeneratedAt :: string
  sa_Nodes :: "service_node list"
  sa_Relations :: "service_relation list"
  sa_Findings :: "audit_finding list"
  sa_Totals :: audit_totals
  sa_Limitations :: "string list"

definition limitations :: "service_graph \<Rightarrow> string list" where
  \<open>limitations g =
     [''CPU is a single sample from the last discovery run, not an average '' @ dashes @ '' a service busy between polls looks idle here.'',
      ''Container network counters are cumulative since the container started, so a long-running service with brief real use can still look quiet.'',
      ''Traffic that never crosses a socket Pulse can see (unix sockets, shared volumes, host-network peers) produces no relationship.''] @
     (if \<not> sg_sawProxy g then [''No reverse proxy was discovered, so "nothing routes to this" carries little weight on this host.''] else []) @
     (if 0 < sg_unattributedPorts g
      then [Itoa (sg_unattributedPorts g) @ '' listening socket(s) could not be attributed to a process, so their owners may look less connected than they are.''] else []) @
     (if \<not> sg_sawStorage g then [''Docker storage data was unavailable, so disk figures are missing and nothing is ranked by reclaimable disk.''] else [])\<close>

definition audit_totals_of :: "service_graph \<Rightarrow> audit_finding list \<Rightarrow> audit_totals" where
  "audit_totals_of g fs =
     \<lparr>to_Services = int (length (sg_order g)), to_Relations = int (length (sg_relations g)), to_Flagged = int (length fs),
      to_ReclaimableMemory = fold (\<lambda>f a. wrap64 (a + us_MemoryBytes (af_Reclaimable f))) fs 0,
      to_ReclaimableDisk = fold (\<lambda>f a. wrap64 (a + us_DiskBytes (af_Reclaimable f))) fs 0,
      to_UnroutedServices = int (length (filter (\<lambda>f. af_Category f = ''unrouted'') fs)),
      to_StoppedWithDiskUsed = int (length (filter (\<lambda>f. af_Category f = ''stopped'') fs))\<rparr>"

text \<open>The nodes in the order they were found; \<open>None\<close> when one is missing.\<close>

definition ordered_nodes :: "service_graph \<Rightarrow> service_node list option" where
  "ordered_nodes g = those (map (sg_nodes g) (sg_order g))"

definition sort_lists :: "service_node \<Rightarrow> service_node" where
  "sort_lists n = n\<lparr>nd_Peers := sort (nd_Peers n), nd_InboundRoutes := sort (nd_InboundRoutes n)\<rparr>"

text \<open>\<open>GeneratedAt\<close> is kept as the text the agent sent; \<open>utc\<close> puts it in the zone and form of the
  response.\<close>

definition rfc3339_seconds :: "string \<Rightarrow> int" where
  "rfc3339_seconds s =
     (let num = (\<lambda>k n. int (digits_val (take n (drop k s)))); y = num 0 4; m = num 5 2; d = num 8 2;
          y1 = (if m \<le> 2 then y - 1 else y); era = y1 div 400; yoe = y1 mod 400;
          doy = (153 * (if 2 < m then m - 3 else m + 9) + 2) div 5 + d - 1; doe = yoe * 365 + yoe div 4 - yoe div 100 + doy;
          days = era * 146097 + doe - 719468;
          z = (let r = drop 19 s in if r \<noteq> [] \<and> hd r = CHR ''.'' then dropWhile is_digit (tl r) else r);
          off = (if z = ''Z'' then 0 else (int (digits_val (take 2 (drop 1 z))) * 3600 + int (digits_val (drop 4 z)) * 60) * (if hd z = CHR ''-'' then -1 else 1))
      in days * 86400 + num 11 2 * 3600 + num 14 2 * 60 + num 17 2 - off)"

definition utc :: "string \<Rightarrow> string" where
  "utc s = time_text ((if s = [] then - 62135596800 else rfc3339_seconds s) * 1000000000)"

definition buildServiceAudit :: "string list \<Rightarrow> string list \<Rightarrow> agent_snapshot \<Rightarrow> service_audit option" where
  "buildServiceAudit nets projs snap =
     (case newServiceGraph nets projs snap of
        None \<Rightarrow> None
      | Some g \<Rightarrow>
          (case ordered_nodes g of
             None \<Rightarrow> None
           | Some ns \<Rightarrow>
               let fs = audit_findings snap (sg_sawProxy g) ns in
               Some \<lparr>sa_Hostname = snap_Hostname snap, sa_GeneratedAt = utc (snap_GeneratedAt snap),
                 sa_Nodes = sort_key (\<lambda>n. (nd_Kind n, nd_Name n)) (map sort_lists ns),
                 sa_Relations = sg_relations g, sa_Findings = fs, sa_Totals = audit_totals_of g fs, sa_Limitations = limitations g\<rparr>))"

definition handleServiceAudit :: "string list \<Rightarrow> string list \<Rightarrow> principal \<Rightarrow> http_request \<Rightarrow> server_state \<Rightarrow> http_response + service_audit" where
  "handleServiceAudit nets projs p r s =
     (case loadSnapshot (p_OrgID p) (rq_PathValue r ''id'') (ss_store s) of
        None \<Rightarrow> Inl (Fail 404 CodeNotFound ''no discovery data for this server yet'')
      | Some snap \<Rightarrow> (case buildServiceAudit nets projs snap of None \<Rightarrow> Inl Recover_response | Some a \<Rightarrow> Inr a))"

end
