(* ===== verification/Pulse_Audit_Props.thy ===== *)
theory Pulse_Audit_Props
  imports Pulse_Audit_Rules
begin

section \<open>What the service audit promises\<close>

text \<open>
  The graph is well formed for every snapshot: no nil pointer is followed, every edge joins two
  existing services, and the peers of a service are the ends of its edges. The findings respect the
  graph: what is flagged as unconnected has no edge and no route, essential services are spared, and
  the order in which Go visits its maps does not matter.
\<close>

subsection \<open>The invariant of the graph\<close>

definition relation_kinds :: "string list" where
  "relation_kinds = [''proxy_route'', ''docker_network'', ''compose'', ''depends_on'']"

definition edge_ok :: "service_graph \<Rightarrow> service_relation \<Rightarrow> bool" where
  "edge_ok g r \<longleftrightarrow> rl_From r \<in> dom (sg_nodes g) \<and> rl_To r \<in> dom (sg_nodes g) \<and> rl_From r \<noteq> rl_To r \<and> rl_Kind r \<in> set relation_kinds"

definition node_ok :: "string \<Rightarrow> service_node \<Rightarrow> bool" where
  "node_ok i n \<longleftrightarrow> nd_ID n = i \<and> (isEssential (nd_Name n) \<or> nd_Kind n = ''proxy'' \<longrightarrow> nd_Essential n)"

definition graph_ok :: "service_graph \<Rightarrow> bool" where
  "graph_ok g \<longleftrightarrow> distinct (sg_order g) \<and> set (sg_order g) = dom (sg_nodes g) \<and>
     (\<forall>i n. sg_nodes g i = Some n \<longrightarrow> node_ok i n) \<and>
     ran (sg_byName g) \<subseteq> dom (sg_nodes g) \<and> ran (sg_byPort g) \<subseteq> dom (sg_nodes g) \<and> ran (sg_byContainer g) \<subseteq> dom (sg_nodes g) \<and>
     (\<forall>r\<in>set (sg_relations g). edge_ok g r)"

definition neighbours :: "service_relation list \<Rightarrow> string \<Rightarrow> string set" where
  "neighbours rs i = {j. \<exists>r\<in>set rs. rl_From r = i \<and> rl_To r = j \<or> rl_From r = j \<and> rl_To r = i}"

definition peers_ok :: "service_graph \<Rightarrow> bool" where
  "peers_ok g \<longleftrightarrow> (\<forall>i n. sg_nodes g i = Some n \<longrightarrow> distinct (nd_Peers n) \<and> set (nd_Peers n) = neighbours (sg_relations g) i)"

definition peers_cover :: "service_graph \<Rightarrow> bool" where
  "peers_cover g \<longleftrightarrow> (\<forall>i n. sg_nodes g i = Some n \<longrightarrow> neighbours (sg_relations g) i \<subseteq> set (nd_Peers n))"

definition graph_inv :: "string set \<Rightarrow> service_graph \<Rightarrow> bool" where
  "graph_inv ids g \<longleftrightarrow> graph_ok g \<and> peers_ok g \<and> ids \<subseteq> dom (sg_nodes g)"

lemma graph_invD:
  assumes "graph_inv ids g"
  shows "distinct (sg_order g)" "set (sg_order g) = dom (sg_nodes g)" "sg_nodes g i = Some n \<Longrightarrow> node_ok i n"
    "sg_byName g k = Some i \<Longrightarrow> i \<in> dom (sg_nodes g)" "sg_byPort g p = Some i \<Longrightarrow> i \<in> dom (sg_nodes g)"
    "sg_byContainer g k = Some i \<Longrightarrow> i \<in> dom (sg_nodes g)" "r \<in> set (sg_relations g) \<Longrightarrow> edge_ok g r"
    "i \<in> ids \<Longrightarrow> i \<in> dom (sg_nodes g)" "sg_nodes g i = Some n \<Longrightarrow> set (nd_Peers n) = neighbours (sg_relations g) i"
  using assms by (auto simp: graph_inv_def graph_ok_def peers_ok_def intro: ranI)

text \<open>Changes of a node that leave its identity, its peers and its exemption alone.\<close>

definition harmless :: "(service_node \<Rightarrow> service_node) \<Rightarrow> bool" where
  "harmless f \<longleftrightarrow> (\<forall>n. nd_ID (f n) = nd_ID n \<and> nd_Name (f n) = nd_Name n \<and> nd_Kind (f n) = nd_Kind n \<and> nd_Peers (f n) = nd_Peers n \<and>
     (nd_Essential n \<longrightarrow> nd_Essential (f n)))"

lemma harmless_updates [simp]:
  "harmless (\<lambda>n. n\<lparr>nd_Ports := h1 n\<rparr>)" "harmless (\<lambda>n. n\<lparr>nd_PublicPorts := h1 n\<rparr>)" "harmless (\<lambda>n. n\<lparr>nd_Usage := h2 n\<rparr>)"
  "harmless (\<lambda>n. n\<lparr>nd_InboundRoutes := h3 n\<rparr>)" "harmless (\<lambda>n. n\<lparr>nd_Essential := True\<rparr>)"
  "harmless (\<lambda>n. if b n then n\<lparr>nd_Engine := e n\<rparr> else n)"
  "harmless (claim_port ex p)" "harmless (add_route nm)"
  by (simp_all add: harmless_def Let_def claim_port_def add_route_def)

lemma dom_modify [simp]: "dom (sg_nodes (modify i f g)) = dom (sg_nodes g)"
  by (auto simp: modify_def dom_def)

lemma modify_frame [simp]:
  "sg_order (modify i f g) = sg_order g" "sg_relations (modify i f g) = sg_relations g" "sg_byName (modify i f g) = sg_byName g"
  "sg_byPort (modify i f g) = sg_byPort g" "sg_byContainer (modify i f g) = sg_byContainer g" "sg_sawProxy (modify i f g) = sg_sawProxy g"
  "sg_sawStorage (modify i f g) = sg_sawStorage g" "sg_unattributedPorts (modify i f g) = sg_unattributedPorts g"
  by (simp_all add: modify_def)

lemma modify_same_index [simp]: "(modify i f g)\<lparr>sg_byPort := sg_byPort g\<rparr> = modify i f g"
  by (simp add: modify_def)

lemma modify_nodes: "sg_nodes (modify i f g) j = (if j = i then map_option f (sg_nodes g i) else sg_nodes g j)"
  by (simp add: modify_def)

lemma edge_ok_dom: "dom (sg_nodes g') = dom (sg_nodes g) \<Longrightarrow> edge_ok g' r = edge_ok g r"
  by (simp add: edge_ok_def)

lemma modify_inv:
  assumes "graph_inv ids g" "harmless f"
  shows "graph_inv ids (modify i f g)"
  using assms by (auto simp: graph_inv_def graph_ok_def peers_ok_def modify_nodes node_ok_def harmless_def edge_ok_def split: if_splits)

lemma index_inv:
  assumes "graph_inv ids g" "i \<in> dom (sg_nodes g)"
  shows "graph_inv ids (g\<lparr>sg_byPort := (sg_byPort g)(p \<mapsto> i)\<rparr>)" "graph_inv ids (g\<lparr>sg_byContainer := (sg_byContainer g)(c \<mapsto> i)\<rparr>)"
  using assms by (auto simp: graph_inv_def graph_ok_def peers_ok_def edge_ok_def ran_def)

lemma flags_inv [simp]:
  "graph_inv ids (g\<lparr>sg_sawProxy := b\<rparr>) = graph_inv ids g" "graph_inv ids (g\<lparr>sg_sawStorage := b\<rparr>) = graph_inv ids g"
  "graph_inv ids (g\<lparr>sg_unattributedPorts := k\<rparr>) = graph_inv ids g"
  by (simp_all add: graph_inv_def graph_ok_def peers_ok_def edge_ok_def)

lemma put_dom [simp]: "dom (sg_nodes (put n g)) = insert (nd_ID n) (dom (sg_nodes g))"
  by (auto simp: put_def)

lemma graph_put_inv:
  assumes "graph_inv ids g" "nd_Kind n \<noteq> ''proxy'' \<or> nd_Essential n" "nd_Peers n = []"
  shows "graph_inv (insert (nd_ID n) ids) (put n g)"
proof (cases "sg_nodes g (nd_ID n)")
  case None
  have "neighbours (sg_relations g) (nd_ID n) = {}"
    using assms(1) None by (fastforce simp: neighbours_def graph_inv_def graph_ok_def edge_ok_def)
  moreover have "edge_ok (put n g) r" if "edge_ok g r" for r using that by (auto simp: edge_ok_def)
  ultimately show ?thesis
    using assms None by (auto simp: graph_inv_def graph_ok_def peers_ok_def put_def node_ok_def edge_ok_def ran_def)
next
  case (Some m)
  then show ?thesis using assms by (auto simp: put_def graph_inv_def)
qed

lemma graph_put_inv':
  assumes "graph_inv ids g" "nd_Kind n \<noteq> ''proxy'' \<or> nd_Essential n" "nd_Peers n = []"
  shows "graph_inv ids (put n g)"
  using graph_put_inv [OF assms] by (auto simp: graph_inv_def)

lemma neighbours_snoc:
  "neighbours (rs @ [r]) i = neighbours rs i \<union> (if rl_From r = i then {rl_To r} else {}) \<union> (if rl_To r = i then {rl_From r} else {})"
  by (auto simp: neighbours_def)

lemma relate_frame [simp]:
  "dom (sg_nodes (relate a b k d g)) = dom (sg_nodes g)" "sg_order (relate a b k d g) = sg_order g" "sg_byName (relate a b k d g) = sg_byName g"
  "sg_byPort (relate a b k d g) = sg_byPort g" "sg_byContainer (relate a b k d g) = sg_byContainer g" "sg_sawProxy (relate a b k d g) = sg_sawProxy g"
  "sg_sawStorage (relate a b k d g) = sg_sawStorage g" "sg_unattributedPorts (relate a b k d g) = sg_unattributedPorts g"
  by (simp_all add: relate_def)

lemma relate_relations:
  "sg_relations (relate a b k d g) = sg_relations g @
     (if a = [] \<or> b = [] \<or> a = b then [] else [\<lparr>rl_From = a, rl_To = b, rl_Kind = k, rl_Detail = d\<rparr>])"
  by (simp add: relate_def)

lemma relate_nodes:
  "sg_nodes (relate a b k d g) j =
     (if a = [] \<or> b = [] \<or> a = b then sg_nodes g j
      else if j = a then map_option (add_peer b) (sg_nodes g a) else if j = b then map_option (add_peer a) (sg_nodes g b) else sg_nodes g j)"
  by (auto simp: relate_def modify_nodes)

lemma add_peer_simps [simp]:
  "nd_ID (add_peer i n) = nd_ID n" "nd_Name (add_peer i n) = nd_Name n" "nd_Kind (add_peer i n) = nd_Kind n" "nd_Essential (add_peer i n) = nd_Essential n"
  "set (nd_Peers (add_peer i n)) = insert i (set (nd_Peers n))" "distinct (nd_Peers (add_peer i n)) = distinct (nd_Peers n)"
  by (auto simp: add_peer_def appendUnique_def)

lemma relate_inv:
  assumes "graph_inv ids g" "a \<in> dom (sg_nodes g)" "b \<in> dom (sg_nodes g)" "k \<in> set relation_kinds"
  shows "graph_inv ids (relate a b k d g)"
proof (cases "a = [] \<or> b = [] \<or> a = b")
  case True
  then show ?thesis using assms(1) by (simp add: relate_def)
next
  case False
  have "graph_ok (relate a b k d g)"
    using assms by (auto simp: graph_inv_def graph_ok_def relate_relations relate_nodes node_ok_def edge_ok_def split: if_splits)
  moreover have "peers_ok (relate a b k d g)"
    using assms(1) False by (auto simp: graph_inv_def peers_ok_def relate_relations relate_nodes neighbours_snoc split: if_splits)
  ultimately show ?thesis using assms(1) by (simp add: graph_inv_def)
qed

subsection \<open>Every step of the construction keeps it\<close>

lemma fold_inv: "(\<And>x s. x \<in> set xs \<Longrightarrow> P s \<Longrightarrow> P (f x s)) \<Longrightarrow> P s \<Longrightarrow> P (fold f xs s)"
  by (induction xs arbitrary: s) auto

lemma foldO_inv: "(\<And>x s. x \<in> set xs \<Longrightarrow> P s \<Longrightarrow> \<exists>s'. f x s = Some s' \<and> P s') \<Longrightarrow> P s \<Longrightarrow> \<exists>s'. foldO f xs s = Some s' \<and> P s'"
proof (induction xs arbitrary: s)
  case (Cons x xs)
  obtain s1 where "f x s = Some s1" "P s1" using Cons.prems by force
  moreover have "\<exists>s'. foldO f xs s1 = Some s' \<and> P s'" using Cons.prems(1) \<open>P s1\<close> by (intro Cons.IH) auto
  ultimately show ?case by simp
qed simp

lemma new_node_simps [simp]:
  "nd_ID (new_node i nm k p) = i" "nd_Name (new_node i nm k p) = nm" "nd_Kind (new_node i nm k p) = k" "nd_Peers (new_node i nm k p) = []"
  "nd_Essential (new_node i nm k p) = False" "nd_Engine (new_node i nm k p) = []"
  by (simp_all add: new_node_def)

lemma container_port_inv: "graph_inv ids g \<Longrightarrow> i \<in> ids \<Longrightarrow> graph_inv ids (container_port i port g)"
  unfolding container_port_def Let_def
  by (auto intro!: modify_inv index_inv(1) [where g = "modify _ _ _", simplified] dest: graph_invD(8))

lemma add_container_inv:
  assumes "graph_inv ids g"
  shows "graph_inv (insert (res_ID c) ids) (add_container c g)"
proof -
  let ?ids = "insert (res_ID c) ids"
  have "graph_inv ?ids (fold (container_port (res_ID c)) (res_Ports c) g1)" if "graph_inv ?ids g1" for g1
    using that by (intro fold_inv [where P = "graph_inv ?ids"]) (auto intro: container_port_inv)
  then have "graph_inv ?ids (fold (container_port (res_ID c)) (res_Ports c) (put n g))"
    if "nd_ID n = res_ID c" "nd_Kind n = ''container''" "nd_Peers n = []" for n
    using graph_put_inv [OF assms, of n] that by simp
  then show ?thesis unfolding add_container_def Let_def by (intro index_inv(2) graph_invD(8) [where ids = ?ids]) simp_all
qed

lemma addContainers_inv:
  "graph_inv ids g \<Longrightarrow> graph_inv (ids \<union> res_ID ` set (resourcesOf snap [''docker_container''])) (addContainers snap g)"
proof -
  have "graph_inv (ids \<union> res_ID ` set cs) (fold add_container cs g)" if "graph_inv ids g" for cs ids g
    using that
  proof (induction cs arbitrary: ids g)
    case (Cons c cs)
    have "graph_inv (insert (res_ID c) ids \<union> res_ID ` set cs) (fold add_container cs (add_container c g))"
      using add_container_inv [OF Cons.prems] by (rule Cons.IH)
    then show ?case by simp
  qed simp
  then show "graph_inv ids g \<Longrightarrow> ?thesis" by (simp add: addContainers_def)
qed

lemma addHostServices_inv: "graph_inv ids g \<Longrightarrow> graph_inv ids (addHostServices snap g)"
  unfolding addHostServices_def by (rule fold_inv [where P = "graph_inv ids"]) (auto intro!: graph_put_inv')

lemma database_port_inv: "graph_inv ids g \<Longrightarrow> i \<in> ids \<Longrightarrow> graph_inv ids (database_port i port g)"
  unfolding database_port_def Let_def
  by (auto intro!: modify_inv index_inv(1) [where g = "modify _ _ _", simplified] dest: graph_invD(8))

lemma deref_modify_inv:
  assumes "graph_inv ids g" "i \<in> dom (sg_nodes g)" "harmless f"
  shows "\<exists>g'. deref_modify i f g = Some g' \<and> graph_inv ids g'"
  using assms modify_inv by (auto simp: deref_modify_def)

lemma graph_inv_mono: "graph_inv ids g \<Longrightarrow> ids' \<subseteq> ids \<Longrightarrow> graph_inv ids' g"
  by (auto simp: graph_inv_def)

lemma add_database_inv:
  assumes "graph_inv ids g"
  shows "\<exists>g'. add_database db g = Some g' \<and> graph_inv ids g'"
proof -
  let ?ids = "insert (res_ID db) ids"
  have "graph_inv ids (fold (database_port (res_ID db)) (res_Ports db) (put n g))"
    if "nd_ID n = res_ID db" "nd_Kind n = ''database''" "nd_Peers n = []" for n
  proof -
    have "graph_inv ?ids (fold (database_port (res_ID db)) (res_Ports db) (put n g))"
      using graph_put_inv [OF assms, of n] that by (intro fold_inv [where P = "graph_inv ?ids"]) (auto intro: database_port_inv)
    then show ?thesis by (rule graph_inv_mono) auto
  qed
  then show ?thesis
    using assms by (auto simp: add_database_def Let_def intro!: deref_modify_inv dest: graph_invD(6) split: option.split)
qed

lemma add_proxy_inv:
  assumes "graph_inv ids g"
  shows "graph_inv ids (add_proxy rp g)"
proof (cases "sg_nodes g (res_ID rp)")
  case None
  define n where "n = (new_node (res_ID rp) (res_Name rp) ''proxy'' ''host'')
    \<lparr>nd_Health := res_Health rp, nd_Engine := stringAttr (res_Attributes rp) ''engine''\<rparr>"
  have "sg_nodes (put n (g\<lparr>sg_sawProxy := True\<rparr>)) = (sg_nodes g)(res_ID rp \<mapsto> n\<lparr>nd_Essential := isEssential (res_Name rp)\<rparr>)"
    "sg_nodes (put (n\<lparr>nd_Essential := True\<rparr>) (g\<lparr>sg_sawProxy := True\<rparr>)) = (sg_nodes g)(res_ID rp \<mapsto> n\<lparr>nd_Essential := True\<rparr>)"
    using None by (simp_all add: put_def n_def)
  then have "modify (res_ID rp) (\<lambda>n. n\<lparr>nd_Essential := True\<rparr>) (put n (g\<lparr>sg_sawProxy := True\<rparr>)) = put (n\<lparr>nd_Essential := True\<rparr>) (g\<lparr>sg_sawProxy := True\<rparr>)"
    using None by (simp add: modify_def put_def n_def)
  then show ?thesis using assms by (auto simp: add_proxy_def n_def intro!: graph_put_inv')
next
  case (Some m)
  then have "add_proxy rp g = modify (res_ID rp) (\<lambda>n. n\<lparr>nd_Essential := True\<rparr>) (g\<lparr>sg_sawProxy := True\<rparr>)" by (simp add: add_proxy_def put_def)
  then show ?thesis using assms by (auto intro!: modify_inv)
qed

lemma attach_storage_inv: "graph_inv ids g \<Longrightarrow> \<exists>g'. attach_storage cs g = Some g' \<and> graph_inv ids g'"
  by (auto simp: attach_storage_def Let_def intro!: deref_modify_inv dest: graph_invD(4) split: option.split)

lemma port_owner_dom: "graph_inv ids g \<Longrightarrow> port_owner lp g \<noteq> [] \<Longrightarrow> port_owner lp g \<in> dom (sg_nodes g)"
  by (auto simp: port_owner_def Let_def index_string_def dest: graph_invD(4,6) split: if_splits option.splits)

lemma attach_port_inv:
  assumes "graph_inv ids g"
  shows "\<exists>g'. attach_port lp g = Some g' \<and> graph_inv ids g'"
proof -
  have "\<exists>g'. map_option (\<lambda>g1. g1\<lparr>sg_byPort := (if sg_byPort g1 p \<noteq> None then sg_byPort g1 else (sg_byPort g1)(p \<mapsto> i))\<rparr>) (deref_modify i f g) = Some g' \<and>
      graph_inv ids g'" if "i \<in> dom (sg_nodes g)" "harmless f" for i f p
    using assms that modify_inv [OF assms that(2), of i] index_inv(1) [OF modify_inv [OF assms that(2), of i], of i p]
    by (auto simp: deref_modify_def)
  note claimed = this [OF _ harmless_updates(7)]
  then show ?thesis
    using assms port_owner_dom [OF assms, of lp] by (cases "res_Ports lp"; cases "port_owner lp g = []") (simp_all add: attach_port_def Let_def)
qed

lemma resolveUpstream_dom: "graph_inv ids g \<Longrightarrow> resolveUpstream g up \<noteq> [] \<Longrightarrow> resolveUpstream g up \<in> dom (sg_nodes g)"
  by (auto simp: resolveUpstream_def Let_def dest: graph_invD(4,5) split: if_splits option.splits prod.splits)

lemma link_upstream_inv:
  assumes "graph_inv ids g"
  shows "\<exists>g'. link_upstream vh up g = Some g' \<and> graph_inv ids g'"
proof (cases "resolveUpstream g up = []")
  case False
  then have d: "resolveUpstream g up \<in> dom (sg_nodes g)" using resolveUpstream_dom [OF assms] by blast
  then obtain g1 where g1: "deref_modify (resolveUpstream g up) (add_route (res_Name vh)) g = Some g1"
    "graph_inv ids g1" using deref_modify_inv [OF assms d harmless_updates(8)] by blast
  moreover have "dom (sg_nodes g1) = dom (sg_nodes g)" using g1(1) by (simp add: deref_modify_def split: if_splits) (metis dom_modify)
  ultimately show ?thesis
    using False d graph_invD(3) [OF g1(2)] by (auto simp: link_upstream_def Let_def node_ok_def relation_kinds_def intro!: relate_inv split: option.split)
qed (simp add: link_upstream_def assms)

lemma service_nodes_graph_inv:
  "\<exists>g. service_nodes_graph snap = Some g \<and> graph_inv (res_ID ` set (resourcesOf snap [''docker_container''])) g"
proof -
  let ?I = "graph_inv (res_ID ` set (resourcesOf snap [''docker_container'']))"
  have "graph_inv {} empty_graph" by (simp add: graph_inv_def graph_ok_def peers_ok_def empty_graph_def)
  from addContainers_inv [OF this, of snap] have "?I (addHostServices snap (addContainers snap empty_graph))"
    by (intro addHostServices_inv) simp
  then obtain g1 where g1: "addDatabases snap (addHostServices snap (addContainers snap empty_graph)) = Some g1" "?I g1"
    using foldO_inv [of _ ?I add_database] add_database_inv unfolding addDatabases_def by meson
  have "?I (addProxies snap g1)" unfolding addProxies_def using g1(2) by (intro fold_inv [where P = ?I]) (auto intro: add_proxy_inv)
  then obtain g2 where g2: "foldO attach_storage (resourcesOf snap [''container_storage'']) (addProxies snap g1) = Some g2" "?I g2"
    using foldO_inv [of _ ?I attach_storage] attach_storage_inv by meson
  then obtain g2' where g2': "attachStorage snap (addProxies snap g1) = Some g2'" "?I g2'"
    by (simp add: attachStorage_def split: if_splits)
  obtain g3 where g3: "attachPorts snap g2' = Some g3" "?I g3"
    using foldO_inv [of _ ?I attach_port] attach_port_inv g2'(2) unfolding attachPorts_def by meson
  have "\<exists>g'. foldO (link_upstream vh) ups (g\<lparr>sg_sawProxy := True\<rparr>) = Some g' \<and> ?I g'" if "?I g" for vh ups g
    using that by (intro foldO_inv) (simp_all add: link_upstream_inv)
  then obtain g4 where "linkProxyRoutes snap g3 = Some g4" "?I g4"
    using foldO_inv [of _ ?I "\<lambda>vh g. foldO (link_upstream vh) (toStringSlice (res_Attributes vh ''upstreams'')) (g\<lparr>sg_sawProxy := True\<rparr>)"] g3(2)
    unfolding linkProxyRoutes_def by meson
  then show ?thesis by (simp add: service_nodes_graph_def g1 g2' g3)
qed

lemma pairs_of_set: "(a, b) \<in> set (pairs_of xs) \<Longrightarrow> a \<in> set xs \<and> b \<in> set xs"
  by (induction xs) auto

lemma linkAll_inv: "graph_inv ids g \<Longrightarrow> set xs \<subseteq> ids \<Longrightarrow> k \<in> set relation_kinds \<Longrightarrow> graph_inv ids (linkAll xs k d g)"
  unfolding linkAll_def
  by (auto intro!: fold_inv [where P = "graph_inv ids"] relate_inv dest: pairs_of_set graph_invD(8))

lemma link_groups_inv:
  assumes "graph_inv ids g" "\<And>k xs. m k = Some xs \<Longrightarrow> set xs \<subseteq> ids" "kind \<in> set relation_kinds"
  shows "graph_inv ids (link_groups kind d m ord g)"
  unfolding link_groups_def using assms
  by (intro fold_inv [where P = "graph_inv ids"]) (auto intro: linkAll_inv split: option.split)

lemma link_dependencies_inv: "graph_inv ids g \<Longrightarrow> res_ID c \<in> ids \<Longrightarrow> graph_inv ids (link_dependencies c g)"
  unfolding link_dependencies_def
  by (rule fold_inv [where P = "graph_inv ids"])
    (auto intro!: relate_inv simp: relation_kinds_def dest: graph_invD(4,8) split: option.split)

definition groups_in :: "string set \<Rightarrow> (string \<rightharpoonup> string list) \<Rightarrow> bool" where
  "groups_in ids m \<longleftrightarrow> (\<forall>k xs. m k = Some xs \<longrightarrow> set xs \<subseteq> ids)"

lemma add_to_group_in: "groups_in ids m \<Longrightarrow> i \<in> ids \<Longrightarrow> groups_in ids (add_to_group k i m)"
  by (cases "m k") (auto simp: groups_in_def add_to_group_def split: if_splits)

lemma groups_of_containers:
  "groups_in (res_ID ` set (resourcesOf snap [''docker_container''])) (network_groups snap)"
  "groups_in (res_ID ` set (resourcesOf snap [''docker_container''])) (project_groups snap)"
  unfolding network_groups_def project_groups_def
  by (auto intro!: fold_inv [where P = "groups_in _"] add_to_group_in simp: groups_in_def [of _ Map.empty] Let_def)

lemma linkContainers_inv:
  assumes "graph_inv (res_ID ` set (resourcesOf snap [''docker_container''])) g"
  shows "graph_inv (res_ID ` set (resourcesOf snap [''docker_container''])) (linkContainers nets projs snap g)"
  unfolding linkContainers_def using assms groups_of_containers [of snap]
  by (intro link_groups_inv fold_inv [where P = "graph_inv (res_ID ` set (resourcesOf snap [''docker_container'']))"])
    (auto intro: link_dependencies_inv simp: groups_in_def relation_kinds_def)

lemma dedupe_scan_set: "set (dedupe_scan seen rs) \<subseteq> set rs"
  by (induction rs arbitrary: seen) auto

lemma dedupe_scan_distinct: "distinct (map relation_key (dedupe_scan seen rs)) \<and> relation_key ` set (dedupe_scan seen rs) \<inter> seen = {}"
  by (induction rs arbitrary: seen) auto

lemma dedupeRelations_ok:
  assumes "graph_inv ids g"
  shows "graph_ok (dedupeRelations g)" "distinct (map relation_key (sg_relations (dedupeRelations g)))"
    "sg_nodes (dedupeRelations g) i = Some n \<Longrightarrow> neighbours (sg_relations (dedupeRelations g)) i \<subseteq> set (nd_Peers n)"
proof -
  have s: "set (sg_relations (dedupeRelations g)) \<subseteq> set (sg_relations g)" using dedupe_scan_set by (auto simp: dedupeRelations_def)
  show "graph_ok (dedupeRelations g)"
    using assms s by (auto simp: graph_inv_def graph_ok_def dedupeRelations_def edge_ok_def)
  have "distinct (map relation_key (sort_key f (dedupe_scan {} rs)))" for f :: "service_relation \<Rightarrow> string \<times> string" and rs
    using dedupe_scan_distinct [of "{}" rs] by (simp add: distinct_map)
  then show "distinct (map relation_key (sg_relations (dedupeRelations g)))" by (simp add: dedupeRelations_def)
  show "neighbours (sg_relations (dedupeRelations g)) i \<subseteq> set (nd_Peers n)" if "sg_nodes (dedupeRelations g) i = Some n"
    using graph_invD(9) [OF assms, of i n] that s by (auto simp: dedupeRelations_def neighbours_def)
qed

text \<open>C35: the service graph is well formed for every snapshot an agent can send, and building it never
  follows a nil pointer. Each service is listed once under its own identifier; the name, port and
  container indexes lead to existing services; every edge joins two different existing services by
  one of the four kinds of evidence, is listed once, and makes its ends peers of each other; the
  machine's own plumbing and every proxy are marked essential.\<close>

theorem service_graph_well_formed:
  "\<exists>g. newServiceGraph nets projs snap = Some g \<and> graph_ok g \<and> distinct (map relation_key (sg_relations g)) \<and>
     sorted (map (\<lambda>r. (rl_From r, rl_To r)) (sg_relations g)) \<and>
     peers_cover g"
proof -
  obtain g where g: "service_nodes_graph snap = Some g" "graph_inv (res_ID ` set (resourcesOf snap [''docker_container''])) g"
    using service_nodes_graph_inv by blast
  have "sorted (map (\<lambda>r. (rl_From r, rl_To r)) (sg_relations (dedupeRelations h)))" for h by (simp add: dedupeRelations_def)
  then show ?thesis
    using g(1) dedupeRelations_ok [OF linkContainers_inv [OF g(2), of nets projs]] by (auto simp: newServiceGraph_def peers_cover_def)
qed

subsection \<open>The parts of a response\<close>

lemma those_Some: "those (map f xs) = Some (map (the \<circ> f) xs)" if "\<And>x. x \<in> set xs \<Longrightarrow> f x \<noteq> None"
  using that
proof (induction xs)
  case (Cons x xs)
  obtain y where "f x = Some y" using Cons.prems [of x] by auto
  then show ?case using Cons by simp
qed simp

lemma newServiceGraph_ok:
  assumes "newServiceGraph nets projs snap = Some g"
  obtains g0 where "service_nodes_graph snap = Some g0" "graph_inv (res_ID ` set (resourcesOf snap [''docker_container''])) (linkContainers nets projs snap g0)"
    "g = dedupeRelations (linkContainers nets projs snap g0)" "graph_ok g" "peers_cover g"
proof -
  obtain g0 where g0: "service_nodes_graph snap = Some g0" "graph_inv (res_ID ` set (resourcesOf snap [''docker_container''])) g0"
    using service_nodes_graph_inv by blast
  note inv = linkContainers_inv [OF g0(2), of nets projs]
  have "g = dedupeRelations (linkContainers nets projs snap g0)" using assms g0(1) by (simp add: newServiceGraph_def)
  then show thesis using that g0(1) inv dedupeRelations_ok [OF inv] unfolding peers_cover_def by blast
qed

lemma ordered_nodes_ok: "graph_ok g \<Longrightarrow> ordered_nodes g = Some (map (the \<circ> sg_nodes g) (sg_order g))"
  unfolding ordered_nodes_def by (rule those_Some) (auto simp: graph_ok_def)

lemma buildServiceAudit_parts:
  assumes "buildServiceAudit nets projs snap = Some a"
  obtains g ns where "newServiceGraph nets projs snap = Some g" "ns = map (the \<circ> sg_nodes g) (sg_order g)"
    "sa_Nodes a = sort_key (\<lambda>n. (nd_Kind n, nd_Name n)) (map sort_lists ns)" "sa_Relations a = sg_relations g"
    "sa_Findings a = audit_findings snap (sg_sawProxy g) ns" "sa_Totals a = audit_totals_of g (sa_Findings a)" "sa_Limitations a = limitations g"
    "\<forall>n\<in>set ns. sg_nodes g (nd_ID n) = Some n"
proof -
  obtain g where g: "newServiceGraph nets projs snap = Some g" using assms by (auto simp: buildServiceAudit_def split: option.splits)
  then have ok: "graph_ok g" by (rule newServiceGraph_ok)
  have "sg_nodes g (nd_ID n) = Some n" if "n \<in> set (map (the \<circ> sg_nodes g) (sg_order g))" for n
    using that ok by (auto simp: graph_ok_def node_ok_def)
  then show thesis using that [OF g refl] assms g ordered_nodes_ok [OF ok] by (auto simp: buildServiceAudit_def Let_def)
qed

lemma sort_lists_simps [simp]:
  "nd_ID (sort_lists n) = nd_ID n" "nd_Name (sort_lists n) = nd_Name n" "nd_Kind (sort_lists n) = nd_Kind n" "nd_Essential (sort_lists n) = nd_Essential n"
  by (simp_all add: sort_lists_def)

subsection \<open>Essential services are spared\<close>

lemma finding_cases:
  assumes "f \<in> set (audit_findings snap sp ns)"
  obtains (stopped) n where "n \<in> set ns" "stopped_container n" "f = stopped_finding n"
    | (unrouted) n where "n \<in> set ns" "unrouted n" "f = unrouted_finding n"
    | (idle) n where "n \<in> set ns" "idle n" "f = idle_finding n"
    | (unreferenced) n where "n \<in> set ns" "unreferenced n" "f = unreferenced_finding n"
    | (duplicate) e where "f = duplicate_finding e (engine_group ns e)"
    | (orphaned) r where "f = orphan_finding r"
  using assms
  by (auto simp: audit_findings_def ruleStoppedContainers_def ruleUnrouted_def ruleIdle_def ruleUnreferencedDatabases_def
      ruleDuplicateEngines_def ruleOrphanedStorage_def Let_def split: if_splits)

lemma flagged_not_essential:
  assumes "f \<in> set (audit_findings snap sp ns)" "af_Category f \<noteq> ''duplicate''" "af_Category f \<noteq> ''orphaned''"
  shows "\<exists>n\<in>set ns. nd_ID n = af_Subject f \<and> nd_Name n = af_SubjectName f \<and> \<not> nd_Essential n"
  using assms(1)
proof (cases rule: finding_cases)
  case (duplicate e)
  then show ?thesis using assms(2) by (simp add: duplicate_finding_def Let_def)
next
  case (orphaned r)
  then show ?thesis using assms(3) by (simp add: orphan_finding_def Let_def)
qed (auto simp: stopped_finding_def stopped_container_def unrouted_finding_def unrouted_def idle_finding_def idle_def unreferenced_finding_def
    unreferenced_def Let_def)

text \<open>C36: the machine's own plumbing is never called unnecessary. Every finding of the stopped, unrouted,
  idle and unreferenced rules is about a listed service that is not marked essential, so never about
  a proxy and never about one of the names or prefixes that are exempt, Pulse's own services
  included.\<close>

theorem essential_services_spared:
  assumes "buildServiceAudit nets projs snap = Some a" "f \<in> set (sa_Findings a)" "af_Category f \<notin> {''duplicate'', ''orphaned''}"
  shows "\<exists>n\<in>set (sa_Nodes a). nd_ID n = af_Subject f \<and> nd_Name n = af_SubjectName f \<and> \<not> nd_Essential n \<and>
    \<not> isEssential (nd_Name n) \<and> nd_Kind n \<noteq> ''proxy''"
proof -
  obtain g ns where p: "newServiceGraph nets projs snap = Some g" "sa_Nodes a = sort_key (\<lambda>n. (nd_Kind n, nd_Name n)) (map sort_lists ns)"
    "sa_Findings a = audit_findings snap (sg_sawProxy g) ns" "\<forall>n\<in>set ns. sg_nodes g (nd_ID n) = Some n"
    using assms(1) by (rule buildServiceAudit_parts)
  obtain n where n: "n \<in> set ns" "nd_ID n = af_Subject f" "nd_Name n = af_SubjectName f" "\<not> nd_Essential n"
    using flagged_not_essential [of f snap "sg_sawProxy g" ns] assms(2,3) p(3) by auto
  have "graph_ok g" using p(1) by (rule newServiceGraph_ok)
  then have "node_ok (nd_ID n) n" using p(4) n(1) by (simp add: graph_ok_def)
  then show ?thesis using n p(2) by (auto simp: node_ok_def intro: bexI [of _ n])
qed

subsection \<open>What is flagged as unconnected is unconnected\<close>

definition routes :: "service_graph \<Rightarrow> string \<Rightarrow> string set" where
  "routes g i = (case sg_nodes g i of None \<Rightarrow> {} | Some n \<Rightarrow> set (nd_InboundRoutes n))"

definition later :: "service_graph \<Rightarrow> service_graph \<Rightarrow> bool" where
  "later g g' \<longleftrightarrow> sg_byName g' = sg_byName g \<and> sg_byPort g' = sg_byPort g \<and> (\<forall>i. routes g i \<subseteq> routes g' i)"

lemma later_refl [simp]: "later g g"
  by (simp add: later_def)

lemma later_trans: "later g g1 \<Longrightarrow> later g1 g2 \<Longrightarrow> later g g2"
  by (auto simp: later_def)

lemma later_relate: "later g (relate a b k d g)"
  by (auto simp: later_def routes_def relate_nodes add_peer_def split: option.split)

lemma later_fold: "(\<And>x g. later g (f x g)) \<Longrightarrow> later g (fold f xs g)"
  by (rule fold_inv [where P = "later g"]) (auto intro: later_trans)

lemma later_linkContainers: "later g (dedupeRelations (linkContainers nets projs snap g))"
proof -
  have d: "later h (dedupeRelations h)" for h by (simp add: later_def dedupeRelations_def routes_def)
  have "later h (linkAll ids k e h)" for ids k e h
    by (auto simp: linkAll_def intro!: later_fold later_relate)
  then have l: "later h (link_groups k e m ord h)" for k e m ord h
    by (auto simp: link_groups_def intro!: later_fold split: option.split)
  have "later h (link_dependencies c h)" for c h
    by (auto simp: link_dependencies_def intro!: later_fold later_relate split: option.split)
  then have "later g (fold link_dependencies cs g)" for cs by (rule later_fold)
  then show ?thesis unfolding linkContainers_def using d l by (meson later_trans)
qed

lemma resolveUpstream_later: "later g g' \<Longrightarrow> resolveUpstream g' up = resolveUpstream g up"
  unfolding later_def resolveUpstream_def by (elim conjE) (simp only:)

lemma link_upstream_routes:
  assumes "link_upstream vh up g = Some g'"
  shows "later g g'" "resolveUpstream g up \<noteq> [] \<Longrightarrow> res_Name vh \<in> routes g' (resolveUpstream g up)"
proof -
  let ?t = "resolveUpstream g up" and ?g1 = "modify (resolveUpstream g up) (add_route (res_Name vh)) g"
  have l: "later g ?g1" by (auto simp: later_def routes_def modify_nodes add_route_def appendUnique_def split: option.split)
  have r: "\<exists>h. g' = h \<and> later ?g1 h" if "?t \<noteq> []"
    using assms that by (auto simp: link_upstream_def Let_def deref_modify_def later_relate split: if_splits option.splits)
  show "later g g'" using assms r later_trans [OF l] by (cases "?t = []") (auto simp: link_upstream_def)
  have "res_Name vh \<in> routes ?g1 ?t" if "?t \<noteq> []"
    using assms that by (auto simp: link_upstream_def Let_def deref_modify_def routes_def modify_nodes add_route_def appendUnique_def split: if_splits)
  then show "?t \<noteq> [] \<Longrightarrow> res_Name vh \<in> routes g' ?t" using r by (auto simp: later_def)
qed

lemma foldO_later:
  assumes "foldO f xs g = Some g'" "\<And>x g g'. f x g = Some g' \<Longrightarrow> later g g' \<and> Q x g'" "\<And>x g g'. Q x g \<Longrightarrow> later g g' \<Longrightarrow> Q x g'"
  shows "later g g' \<and> (\<forall>x\<in>set xs. Q x g')"
  using assms(1)
proof (induction xs arbitrary: g)
  case (Cons x xs)
  then obtain g1 where g1: "f x g = Some g1" "foldO f xs g1 = Some g'" by (auto split: option.splits)
  then show ?case using Cons.IH [OF g1(2)] assms(2) [OF g1(1)] assms(3) later_trans by auto
qed simp

text \<open>The routes of a snapshot, resolved in a graph.\<close>

definition route_target :: "agent_snapshot \<Rightarrow> service_graph \<Rightarrow> string \<Rightarrow> bool" where
  "route_target snap g i \<longleftrightarrow> i \<noteq> [] \<and>
     (\<exists>vh\<in>set (resourcesOf snap vhost_types). \<exists>up\<in>set (toStringSlice (res_Attributes vh ''upstreams'')). resolveUpstream g up = i)"

definition recorded :: "agent_resource \<Rightarrow> string \<Rightarrow> service_graph \<Rightarrow> bool" where
  "recorded vh up g \<longleftrightarrow> resolveUpstream g up = [] \<or> res_Name vh \<in> routes g (resolveUpstream g up)"

lemma recorded_later: "recorded vh up g \<Longrightarrow> later g g' \<Longrightarrow> recorded vh up g'"
  by (auto simp: recorded_def resolveUpstream_later) (auto simp: later_def)

lemma linkProxyRoutes_recorded:
  assumes "linkProxyRoutes snap g = Some g'"
  shows "\<forall>vh\<in>set (resourcesOf snap vhost_types). \<forall>up\<in>set (toStringSlice (res_Attributes vh ''upstreams'')). recorded vh up g'"
proof -
  have one: "later h h' \<and> (\<forall>up\<in>set ups. recorded vh up h')" if "foldO (link_upstream vh) ups (h\<lparr>sg_sawProxy := True\<rparr>) = Some h'" for vh ups h h'
  proof -
    have "later (h\<lparr>sg_sawProxy := True\<rparr>) h' \<and> (\<forall>up\<in>set ups. recorded vh up h')"
    proof (rule foldO_later [OF that])
      show "later k k' \<and> recorded vh up k'" if "link_upstream vh up k = Some k'" for up k k'
        using link_upstream_routes [OF that] by (auto simp: recorded_def resolveUpstream_later)
    qed (rule recorded_later)
    then show ?thesis by (auto simp: later_def routes_def)
  qed
  show ?thesis
    using foldO_later [where Q = "\<lambda>vh g. \<forall>up\<in>set (toStringSlice (res_Attributes vh ''upstreams'')). recorded vh up g", OF assms [unfolded linkProxyRoutes_def]]
      one recorded_later by blast
qed

lemma unconnected_no_routes:
  assumes "newServiceGraph nets projs snap = Some g" "sg_nodes g i = Some n" "nd_InboundRoutes n = []"
  shows "\<not> route_target snap g i"
proof -
  obtain g0 where g0: "service_nodes_graph snap = Some g0" "g = dedupeRelations (linkContainers nets projs snap g0)"
    using assms(1) by (rule newServiceGraph_ok)
  then obtain g3 where "linkProxyRoutes snap g3 = Some g0" by (auto simp: service_nodes_graph_def split: option.splits)
  from linkProxyRoutes_recorded [OF this] have "\<forall>vh\<in>set (resourcesOf snap vhost_types). \<forall>up\<in>set (toStringSlice (res_Attributes vh ''upstreams'')). recorded vh up g"
    using recorded_later [OF _ later_linkContainers [of g0 nets projs snap]] g0(2) by blast
  then show ?thesis using assms(2,3) by (fastforce simp: route_target_def recorded_def routes_def)
qed

text \<open>A service is reported as unrouted or unreferenced only when the graph shows no connection. No
  listed relation has it as an end, and no upstream of any proxy host resolves to it, by name or by
  port.\<close>

theorem flagged_services_unconnected:
  assumes "buildServiceAudit nets projs snap = Some a" "newServiceGraph nets projs snap = Some g"
    "f \<in> set (sa_Findings a)" "af_Category f \<in> {''unrouted'', ''unreferenced''}"
  shows "(\<forall>r\<in>set (sa_Relations a). rl_From r \<noteq> af_Subject f \<and> rl_To r \<noteq> af_Subject f) \<and> \<not> route_target snap g (af_Subject f)"
proof -
  obtain g' ns where "newServiceGraph nets projs snap = Some g'" "sa_Relations a = sg_relations g'" "sa_Findings a = audit_findings snap (sg_sawProxy g') ns"
    "\<forall>n\<in>set ns. sg_nodes g' (nd_ID n) = Some n"
    using assms(1) by (rule buildServiceAudit_parts)
  then have p: "sa_Relations a = sg_relations g" "sa_Findings a = audit_findings snap (sg_sawProxy g) ns" "\<forall>n\<in>set ns. sg_nodes g (nd_ID n) = Some n"
    using assms(2) by simp_all
  have "f \<in> set (audit_findings snap (sg_sawProxy g) ns)" using assms(3) p(2) by simp
  then obtain n where n: "n \<in> set ns" "nd_ID n = af_Subject f" "nd_Peers n = []" "nd_InboundRoutes n = []"
    by (cases rule: finding_cases) (use assms(4) in \<open>auto simp: stopped_finding_def unrouted_finding_def unrouted_def idle_finding_def
        unreferenced_finding_def unreferenced_def duplicate_finding_def orphan_finding_def Let_def\<close>)
  have s: "sg_nodes g (af_Subject f) = Some n" using p(3) n(1,2) by auto
  have "peers_cover g" using assms(2) by (rule newServiceGraph_ok)
  then have "neighbours (sg_relations g) (af_Subject f) = {}" using s n(3) unfolding peers_cover_def by (metis empty_set subset_empty)
  then show ?thesis using unconnected_no_routes [OF assms(2) s n(4)] p(1) by (auto simp: neighbours_def)
qed

subsection \<open>The order of map iteration does not matter\<close>

definition edges :: "service_graph \<Rightarrow> (string \<times> string \<times> string) set" where
  "edges g = (\<lambda>r. (rl_From r, rl_To r, rl_Kind r)) ` set (sg_relations g)"

definition bare :: "service_node \<Rightarrow> service_node" where
  "bare n = n\<lparr>nd_Peers := []\<rparr>"

text \<open>A graph without what the edges determine.\<close>

definition skeleton :: "service_graph \<Rightarrow> service_graph" where
  "skeleton g = g\<lparr>sg_nodes := (\<lambda>i. map_option bare (sg_nodes g i)), sg_relations := []\<rparr>"

definition edge_set :: "(string \<times> string) list \<Rightarrow> string \<Rightarrow> (string \<times> string \<times> string) set" where
  "edge_set ps k = {(a, b, k) | a b. (a, b) \<in> set ps \<and> a \<noteq> [] \<and> b \<noteq> [] \<and> a \<noteq> b}"

lemma bare_add_peer [simp]: "bare (add_peer i n) = bare n"
  by (simp add: bare_def add_peer_def)

lemma skeleton_modify_peer [simp]: "skeleton (modify i (add_peer j) g) = skeleton g"
proof -
  have "(\<lambda>x. map_option bare (((sg_nodes g)(i := map_option (add_peer j) (sg_nodes g i))) x)) = (\<lambda>x. map_option bare (sg_nodes g x))"
    by (auto simp: fun_eq_iff option.map_comp comp_def)
  then show ?thesis by (simp add: skeleton_def modify_def)
qed

lemma skeleton_relate [simp]: "skeleton (relate a b k d g) = skeleton g"
proof -
  have "skeleton (g\<lparr>sg_relations := rs\<rparr>) = skeleton g" for rs by (simp add: skeleton_def)
  then show ?thesis by (simp add: relate_def)
qed

lemma edges_relate: "edges (relate a b k d g) = edges g \<union> edge_set [(a, b)] k"
  by (auto simp: edges_def relate_relations edge_set_def)

lemma relate_pairs:
  "skeleton (fold (\<lambda>(a, b). relate a b k d) ps g) = skeleton g \<and> edges (fold (\<lambda>(a, b). relate a b k d) ps g) = edges g \<union> edge_set ps k"
proof (induction ps arbitrary: g)
  case (Cons p ps)
  obtain a b where p: "p = (a, b)" by (rule prod.exhaust)
  show ?case using Cons.IH [of "relate a b k d g"] by (auto simp: p edges_relate edge_set_def)
qed (simp add: edge_set_def)

definition group_edges :: "string \<Rightarrow> (string \<rightharpoonup> string list) \<Rightarrow> string \<Rightarrow> (string \<times> string \<times> string) set" where
  "group_edges k m x = (case m x of None \<Rightarrow> {} | Some ids \<Rightarrow> if length ids < 2 \<or> maxGroup < length ids then {} else edge_set (pairs_of ids) k)"

lemma link_groups_edges:
  "skeleton (link_groups k d m ord g) = skeleton g \<and> edges (link_groups k d m ord g) = edges g \<union> (\<Union>x\<in>set ord. group_edges k m x)"
proof (induction ord arbitrary: g)
  case (Cons x xs)
  let ?g1 = "case m x of None \<Rightarrow> g | Some ids \<Rightarrow> linkAll ids k (d @ x) g"
  have "skeleton ?g1 = skeleton g \<and> edges ?g1 = edges g \<union> group_edges k m x"
    using relate_pairs [of k "d @ x"] by (simp add: group_edges_def linkAll_def split: option.split)
  then show ?case using Cons.IH [of ?g1] by (auto simp: link_groups_def)
qed (simp add: link_groups_def)

lemma linkContainers_order:
  assumes "set nets = set nets'" "set projs = set projs'"
  shows "skeleton (linkContainers nets projs snap g) = skeleton (linkContainers nets' projs' snap g)"
    "edges (linkContainers nets projs snap g) = edges (linkContainers nets' projs' snap g)"
  using assms by (simp_all add: linkContainers_def link_groups_edges)

lemma neighbours_edges: "edges g = edges g' \<Longrightarrow> neighbours (sg_relations g) i = neighbours (sg_relations g') i"
proof -
  have "j \<in> neighbours (sg_relations h) i \<longleftrightarrow> (\<exists>k. (i, j, k) \<in> edges h \<or> (j, i, k) \<in> edges h)" for h j
    unfolding neighbours_def edges_def image_iff by auto
  then show "edges g = edges g' \<Longrightarrow> ?thesis" by (simp add: set_eq_iff)
qed

definition canon :: "service_node \<Rightarrow> service_node" where
  "canon n = n\<lparr>nd_Peers := sort (nd_Peers n)\<rparr>"

lemma canon_eq:
  assumes "bare n = bare n'" "set (nd_Peers n) = set (nd_Peers n')" "distinct (nd_Peers n)" "distinct (nd_Peers n')"
  shows "canon n = canon n'"
proof -
  have "sort (nd_Peers n) = sort (nd_Peers n')" using assms(2-4) by (intro sorted_distinct_set_unique) simp_all
  then have "canon n = (bare n)\<lparr>nd_Peers := sort (nd_Peers n')\<rparr>" by (simp add: canon_def bare_def)
  also have "\<dots> = canon n'" unfolding assms(1) by (simp add: canon_def bare_def)
  finally show ?thesis .
qed

lemma canon_nodes:
  assumes "graph_inv ids g" "graph_inv ids g'" "skeleton g = skeleton g'" "edges g = edges g'"
  shows "map_option canon (sg_nodes g i) = map_option canon (sg_nodes g' i)"
proof -
  have b: "map_option bare (sg_nodes g i) = map_option bare (sg_nodes g' i)"
    using fun_cong [OF arg_cong [OF assms(3), of sg_nodes], of i] by (simp add: skeleton_def)
  show ?thesis
  proof (cases "sg_nodes g i")
    case (Some n)
    then obtain n' where n': "sg_nodes g' i = Some n'" "bare n = bare n'" using b by (cases "sg_nodes g' i") auto
    have "set (nd_Peers n) = set (nd_Peers n')"
      using graph_invD(9) [OF assms(1) Some] graph_invD(9) [OF assms(2) n'(1)] neighbours_edges [OF assms(4)] by simp
    moreover have "distinct (nd_Peers n)" "distinct (nd_Peers n')" using assms(1,2) Some n'(1) by (simp_all add: graph_inv_def peers_ok_def)
    ultimately have "canon n = canon n'" by (intro canon_eq n'(2))
    then show ?thesis by (simp add: Some n'(1))
  qed (use b in simp)
qed

lemma canon_simps [simp]:
  "nd_ID (canon n) = nd_ID n" "nd_Name (canon n) = nd_Name n" "nd_Kind (canon n) = nd_Kind n" "nd_Status (canon n) = nd_Status n"
  "nd_Image (canon n) = nd_Image n" "nd_Engine (canon n) = nd_Engine n" "nd_Ports (canon n) = nd_Ports n" "nd_PublicPorts (canon n) = nd_PublicPorts n"
  "nd_Usage (canon n) = nd_Usage n" "nd_InboundRoutes (canon n) = nd_InboundRoutes n" "nd_Essential (canon n) = nd_Essential n"
  "nd_Peers (canon n) = [] \<longleftrightarrow> nd_Peers n = []" "sort_lists (canon n) = sort_lists n"
  by (simp_all add: canon_def sort_lists_def sort_key_id_if_sorted) (metis length_0_conv length_sort)

lemma engine_group_canon: "engine_group (map canon ns) e = map canon (engine_group ns e)"
  by (simp add: engine_group_def filter_map comp_def)

lemma duplicate_finding_canon: "ns \<noteq> [] \<Longrightarrow> duplicate_finding e (map canon ns) = duplicate_finding e ns"
  by (simp add: duplicate_finding_def hd_map comp_def fold_map Let_def)

lemma audit_findings_canon: "audit_findings snap sp (map canon ns) = audit_findings snap sp ns"
proof -
  have p: "stopped_container \<circ> canon = stopped_container" "unrouted \<circ> canon = unrouted" "idle \<circ> canon = idle" "unreferenced \<circ> canon = unreferenced"
    by (auto simp: fun_eq_iff stopped_container_def unrouted_def idle_def idle_traffic_def unreferenced_def)
  have q: "stopped_finding \<circ> canon = stopped_finding" "unrouted_finding \<circ> canon = unrouted_finding" "idle_finding \<circ> canon = idle_finding"
    "unreferenced_finding \<circ> canon = unreferenced_finding"
    by (auto simp: fun_eq_iff stopped_finding_def unrouted_finding_def idle_finding_def idle_traffic_def unreferenced_finding_def Let_def)
  have "ruleDuplicateEngines (map canon ns) = ruleDuplicateEngines ns"
    unfolding ruleDuplicateEngines_def engines_of_def
    by (auto simp: filter_map comp_def engine_group_canon duplicate_finding_canon Let_def intro!: arg_cong [where f = concat])
      (metis One_nat_def Suc_1 duplicate_finding_canon leI length_0_conv not_less_zero zero_less_Suc)
  then show ?thesis
    by (simp add: audit_findings_def ruleStoppedContainers_def ruleUnrouted_def ruleIdle_def ruleUnreferencedDatabases_def filter_map p q)
qed

lemma buildServiceAudit_total: "\<exists>a. buildServiceAudit nets projs snap = Some a"
proof -
  obtain g where g: "newServiceGraph nets projs snap = Some g" using service_nodes_graph_inv [of snap] by (auto simp: newServiceGraph_def)
  then have "graph_ok g" by (rule newServiceGraph_ok)
  then show ?thesis using g by (simp add: buildServiceAudit_def ordered_nodes_ok Let_def)
qed

lemma dedupe_scan_keys: "relation_key ` set (dedupe_scan seen rs) = relation_key ` set rs - seen"
  by (induction rs arbitrary: seen) auto

lemma dedupe_keys:
  "relation_key ` set (sg_relations (dedupeRelations h)) = (\<lambda>(a, b, k). a @ ''|'' @ b @ ''|'' @ k) ` edges h"
  "length (sg_relations (dedupeRelations h)) = card ((\<lambda>(a, b, k). a @ ''|'' @ b @ ''|'' @ k) ` edges h)"
proof -
  have e: "relation_key ` set (sg_relations h) = (\<lambda>(a, b, k). a @ ''|'' @ b @ ''|'' @ k) ` edges h"
    by (simp add: edges_def image_image relation_key_def)
  then show s: "relation_key ` set (sg_relations (dedupeRelations h)) = (\<lambda>(a, b, k). a @ ''|'' @ b @ ''|'' @ k) ` edges h"
    by (simp add: dedupeRelations_def dedupe_scan_keys)
  have "distinct (map relation_key (dedupe_scan {} (sg_relations h)))" using dedupe_scan_distinct by blast
  then have "length (dedupe_scan {} (sg_relations h)) = card (relation_key ` set (dedupe_scan {} (sg_relations h)))"
    using distinct_card by fastforce
  then show "length (sg_relations (dedupeRelations h)) = card ((\<lambda>(a, b, k). a @ ''|'' @ b @ ''|'' @ k) ` edges h)"
    using e by (simp add: dedupeRelations_def dedupe_scan_keys)
qed

lemma audit_fields:
  assumes "newServiceGraph nets projs snap = Some g" "buildServiceAudit nets projs snap = Some a"
  shows "sa_Nodes a = sort_key (\<lambda>n. (nd_Kind n, nd_Name n)) (map sort_lists (map (the \<circ> sg_nodes g) (sg_order g)))"
    "sa_Relations a = sg_relations g" "sa_Findings a = audit_findings snap (sg_sawProxy g) (map (the \<circ> sg_nodes g) (sg_order g))"
    "sa_Totals a = audit_totals_of g (sa_Findings a)" "sa_Limitations a = limitations g"
proof -
  have "graph_ok g" using assms(1) by (rule newServiceGraph_ok)
  then have "ordered_nodes g = Some (map (the \<circ> sg_nodes g) (sg_order g))" by (rule ordered_nodes_ok)
  then show "sa_Nodes a = sort_key (\<lambda>n. (nd_Kind n, nd_Name n)) (map sort_lists (map (the \<circ> sg_nodes g) (sg_order g)))"
    "sa_Relations a = sg_relations g" "sa_Findings a = audit_findings snap (sg_sawProxy g) (map (the \<circ> sg_nodes g) (sg_order g))"
    "sa_Totals a = audit_totals_of g (sa_Findings a)" "sa_Limitations a = limitations g"
    using assms by (auto simp: buildServiceAudit_def Let_def)
qed

lemma audit_of_equivalent_graphs:
  assumes "newServiceGraph nets projs snap = Some (dedupeRelations h)" "newServiceGraph nets' projs' snap = Some (dedupeRelations h')"
    "graph_inv ids h" "graph_inv ids h'" "skeleton h = skeleton h'" "edges h = edges h'"
    "buildServiceAudit nets projs snap = Some a" "buildServiceAudit nets' projs' snap = Some a'"
  shows "sa_Nodes a = sa_Nodes a' \<and> sa_Findings a = sa_Findings a' \<and> sa_Totals a = sa_Totals a' \<and> sa_Limitations a = sa_Limitations a' \<and>
    relation_key ` set (sa_Relations a) = relation_key ` set (sa_Relations a')"
proof -
  have same: "sg_order h = sg_order h'" "sg_sawProxy h = sg_sawProxy h'" "sg_sawStorage h = sg_sawStorage h'" "sg_unattributedPorts h = sg_unattributedPorts h'"
    using arg_cong [OF assms(5), of sg_order] arg_cong [OF assms(5), of sg_sawProxy] arg_cong [OF assms(5), of sg_sawStorage]
      arg_cong [OF assms(5), of sg_unattributedPorts] by (simp_all add: skeleton_def)
  have d: "sg_nodes (dedupeRelations k) = sg_nodes k" "sg_order (dedupeRelations k) = sg_order k" "sg_sawProxy (dedupeRelations k) = sg_sawProxy k"
    "limitations (dedupeRelations k) = limitations k" for k by (simp_all add: dedupeRelations_def limitations_def)
  define ns where "ns = map (the \<circ> sg_nodes h) (sg_order h)"
  define ns' where "ns' = map (the \<circ> sg_nodes h') (sg_order h')"
  have "canon (the (sg_nodes h i)) = canon (the (sg_nodes h' i))" if "i \<in> set (sg_order h)" for i
    using canon_nodes [OF assms(3-6), of i] graph_invD(2) [OF assms(3)] graph_invD(2) [OF assms(4)] that same(1)
    by (cases "sg_nodes h i"; cases "sg_nodes h' i") auto
  then have c: "map canon ns = map canon ns'" by (simp add: ns_def ns'_def same(1))
  have p: "sa_Nodes a = sort_key (\<lambda>n. (nd_Kind n, nd_Name n)) (map sort_lists ns)" "sa_Relations a = sg_relations (dedupeRelations h)"
    "sa_Findings a = audit_findings snap (sg_sawProxy h) ns" "sa_Totals a = audit_totals_of (dedupeRelations h) (sa_Findings a)" "sa_Limitations a = limitations h"
    using audit_fields [OF assms(1,7)] by (simp_all add: ns_def d)
  have p': "sa_Nodes a' = sort_key (\<lambda>n. (nd_Kind n, nd_Name n)) (map sort_lists ns')" "sa_Relations a' = sg_relations (dedupeRelations h')"
    "sa_Findings a' = audit_findings snap (sg_sawProxy h') ns'" "sa_Totals a' = audit_totals_of (dedupeRelations h') (sa_Findings a')" "sa_Limitations a' = limitations h'"
    using audit_fields [OF assms(2,8)] by (simp_all add: ns'_def d)
  have "map sort_lists ns = map sort_lists (map canon ns)" "map sort_lists ns' = map sort_lists (map canon ns')" by simp_all
  then have "map sort_lists ns = map sort_lists ns'" using c by metis
  then have nodes: "sa_Nodes a = sa_Nodes a'" using p(1) p'(1) by simp
  have fs: "sa_Findings a = sa_Findings a'"
  proof -
    have "audit_findings snap b ns = audit_findings snap b ns'" for b using c audit_findings_canon [of snap b ns] audit_findings_canon [of snap b ns'] by simp
    then show ?thesis by (simp only: p(3) p'(3) same(2))
  qed
  have "length (sg_relations (dedupeRelations h)) = length (sg_relations (dedupeRelations h'))"
    "relation_key ` set (sa_Relations a) = relation_key ` set (sa_Relations a')" by (simp_all only: p(2) p'(2) dedupe_keys assms(6))
  moreover have "sa_Limitations a = sa_Limitations a'" using p(5) p'(5) same by (simp add: limitations_def)
  ultimately show ?thesis using nodes fs p(4) p'(4) same(1) by (simp add: audit_totals_of_def d)
qed

text \<open>C37: the audit does not depend on the order in which Go happens to visit its maps. For any two orders of
  the networks and of the Compose projects the services with their sorted peers, the findings and
  their order, the totals and the stated limitations are the same, and so are the keys of the
  relations.\<close>

theorem audit_order_irrelevant:
  assumes "visits (network_groups snap) nets" "visits (network_groups snap) nets'"
    "visits (project_groups snap) projs" "visits (project_groups snap) projs'"
  shows "\<exists>a a'. buildServiceAudit nets projs snap = Some a \<and> buildServiceAudit nets' projs' snap = Some a' \<and>
    sa_Nodes a = sa_Nodes a' \<and> sa_Findings a = sa_Findings a' \<and> sa_Totals a = sa_Totals a' \<and> sa_Limitations a = sa_Limitations a' \<and>
    relation_key ` set (sa_Relations a) = relation_key ` set (sa_Relations a')"
proof -
  obtain a a' where a: "buildServiceAudit nets projs snap = Some a" "buildServiceAudit nets' projs' snap = Some a'"
    using buildServiceAudit_total by meson
  obtain g0 where g0: "service_nodes_graph snap = Some g0" "graph_inv (res_ID ` set (resourcesOf snap [''docker_container''])) g0"
    using service_nodes_graph_inv by blast
  have sets: "set nets = set nets'" "set projs = set projs'" using assms by (simp_all add: visits_def)
  have "newServiceGraph nets projs snap = Some (dedupeRelations (linkContainers nets projs snap g0))"
    "newServiceGraph nets' projs' snap = Some (dedupeRelations (linkContainers nets' projs' snap g0))" using g0(1) by (simp_all add: newServiceGraph_def)
  from audit_of_equivalent_graphs [OF this linkContainers_inv [OF g0(2)] linkContainers_inv [OF g0(2)] linkContainers_order [OF sets] a]
  show ?thesis using a by blast
qed

subsection \<open>A small host\<close>

definition host_resource :: "string \<Rightarrow> string \<Rightarrow> string \<Rightarrow> (string \<rightharpoonup> json) \<Rightarrow> int \<Rightarrow> string list \<Rightarrow> agent_resource" where
  "host_resource ty i name attrs port nets =
     \<lparr>res_Type = ty, res_ID = i, res_Name = name, res_Status = ''running'', res_Health = ''HEALTHY'', res_Labels = Map.empty, res_Attributes = attrs,
      res_Ports = [\<lparr>po_Host = port, po_Container = 0, po_Protocol = ''tcp'', po_Address = [], po_State = []\<rparr>], res_Networks = nets,
      res_Volumes = [], res_DependsOn = [], res_DetectedBy = []\<rparr>"

definition host_snapshot :: agent_snapshot where
  "host_snapshot =
     \<lparr>snap_InstallationID = [], snap_ServerID = [], snap_Hostname = ''h'', snap_GeneratedAt = [], snap_DurationMS = 0,
      snap_Resources = [host_resource ''docker_container'' ''a'' ''web'' Map.empty 80 [''x'', ''y''],
        host_resource ''docker_container'' ''b'' ''db'' Map.empty 81 [''x'', ''y''],
        host_resource ''docker_container'' ''c'' ''old'' Map.empty 82 [],
        host_resource ''nginx_vhost'' ''v'' ''site'' [''upstreams'' \<mapsto> JvArr [JvStr ''web:80'']] 0 []],
      snap_Topology = None\<rparr>"

abbreviation host_audit :: service_audit where
  "host_audit \<equiv> the (buildServiceAudit [''x'', ''y''] [] host_snapshot)"

abbreviation host_graph :: service_graph where
  "host_graph \<equiv> the (newServiceGraph [''x'', ''y''] [] host_snapshot)"

lemma host_built: "buildServiceAudit [''x'', ''y''] [] host_snapshot = Some host_audit" "newServiceGraph [''x'', ''y''] [] host_snapshot = Some host_graph"
proof -
  show "buildServiceAudit [''x'', ''y''] [] host_snapshot = Some host_audit" using buildServiceAudit_total by force
  then show "newServiceGraph [''x'', ''y''] [] host_snapshot = Some host_graph" by (auto simp: buildServiceAudit_def split: option.splits)
qed

lemma host_finding: "\<exists>f\<in>set (sa_Findings host_audit). af_Category f = ''unrouted'' \<and> af_Subject f = ''c''"
proof -
  have "map (\<lambda>f. (af_Category f, af_Subject f)) (sa_Findings host_audit) = [(''unrouted'', ''c'')]" by code_simp
  then show ?thesis by (cases "sa_Findings host_audit") auto
qed

theorem essential_services_spared_witness:
  "\<exists>n\<in>set (sa_Nodes host_audit). nd_ID n = ''c'' \<and> \<not> nd_Essential n \<and> \<not> isEssential (nd_Name n) \<and> nd_Kind n \<noteq> ''proxy''"
proof -
  obtain f where "f \<in> set (sa_Findings host_audit)" "af_Category f = ''unrouted''" "af_Subject f = ''c''" using host_finding by blast
  then show ?thesis using essential_services_spared [OF host_built(1), of f] by auto
qed

theorem flagged_services_unconnected_witness: "\<not> route_target host_snapshot host_graph ''c''"
proof -
  obtain f where "f \<in> set (sa_Findings host_audit)" "af_Category f = ''unrouted''" "af_Subject f = ''c''" using host_finding by blast
  then show ?thesis using flagged_services_unconnected [OF host_built, of f] by auto
qed

lemma host_groups: "dom (network_groups host_snapshot) = {''x'', ''y''}" "dom (project_groups host_snapshot) = {}"
  by (auto simp: network_groups_def project_groups_def host_snapshot_def host_resource_def resourcesOf_def default_networks_def add_to_group_def
      stringAttr_def split: if_splits)

theorem audit_order_irrelevant_witness:
  "sa_Nodes host_audit = sa_Nodes (the (buildServiceAudit [''y'', ''x''] [] host_snapshot))"
proof -
  have "visits (network_groups host_snapshot) [''x'', ''y'']" "visits (network_groups host_snapshot) [''y'', ''x'']" "visits (project_groups host_snapshot) []"
    by (auto simp: visits_def host_groups)
  from audit_order_irrelevant [OF this(1,2) this(3,3)] show ?thesis by auto
qed

text \<open>The rule on duplicate engines does not look at the mark: two running databases of one engine are
  reported together, Pulse's own included, with the memory of both as reclaimable.\<close>

lemma duplicate_rule_flags_essential:
  "map (\<lambda>f. (af_Category f, af_SubjectName f)) (audit_findings host_snapshot False
     (map (\<lambda>i. (new_node i (''pulse-db'' @ i) ''container'' ''container'')\<lparr>nd_Status := ''running'', nd_Engine := ''postgres'', nd_Essential := True\<rparr>) [''1'', ''2''])) =
   [(''duplicate'', ''pulse-db1, pulse-db2'')]"
  by code_simp

end
