(* ===== verification/Pulse_Inventory.thy ===== *)
theory Pulse_Inventory
  imports Pulse_Audit_Rules
begin

section \<open>The inventory\<close>

text \<open>
  \<^verbatim>\<open>apps/api/internal/httpx/handlers_inventory.go\<close>: one list of workloads correlated from the
  snapshot, with each listening socket attached to its owner. The items are a map from identifiers;
  the indexes by container and by unit hold the identifier of the item they point to. \<open>sort.Slice\<close>
  is not stable, so the function that sorts the ports is an argument.
\<close>

record inventory_port =
  ip_Port :: int
  ip_Protocol :: string
  ip_Address :: string
  ip_Exposure :: string

record inventory_item =
  iv_ID :: string
  iv_Name :: string
  iv_Kind :: string
  iv_Placement :: string
  iv_Status :: string
  iv_Health :: string
  iv_Engine :: string
  iv_Image :: string
  iv_Unit :: string
  iv_PID :: int
  iv_ContainerID :: string
  iv_Ports :: "inventory_port list"
  iv_DetectedBy :: string

record inventory_totals =
  it_HostWorkloads :: int
  it_ContainerWorkloads :: int
  it_ListeningPorts :: int
  it_PublicPorts :: int
  it_Databases :: int
  it_Unattributed :: int

record inventory =
  in_Hostname :: string
  in_GeneratedAt :: string
  in_Totals :: inventory_totals
  in_Items :: "inventory_item list"
  in_Unattributed :: "inventory_port list"

definition new_item :: "string \<Rightarrow> string \<Rightarrow> string \<Rightarrow> string \<Rightarrow> string \<Rightarrow> inventory_item" where
  "new_item i name kind placement detected =
     \<lparr>iv_ID = i, iv_Name = name, iv_Kind = kind, iv_Placement = placement, iv_Status = [], iv_Health = [], iv_Engine = [], iv_Image = [],
      iv_Unit = [], iv_PID = 0, iv_ContainerID = [], iv_Ports = [], iv_DetectedBy = detected\<rparr>"

subsection \<open>Collecting the items\<close>

record inventory_state =
  is_items :: "string \<rightharpoonup> inventory_item"
  is_order :: "string list"
  is_byContainerID :: "string \<rightharpoonup> string"
  is_byUnit :: "string \<rightharpoonup> string"

definition inventory_put :: "inventory_item \<Rightarrow> inventory_state \<Rightarrow> inventory_state" where
  "inventory_put it s =
     (if is_items s (iv_ID it) \<noteq> None then s
      else s\<lparr>is_items := (is_items s)(iv_ID it \<mapsto> it), is_order := is_order s @ [iv_ID it]\<rparr>)"

definition change_item :: "string \<Rightarrow> (inventory_item \<Rightarrow> inventory_item) \<Rightarrow> inventory_state \<Rightarrow> inventory_state" where
  "change_item i f s = s\<lparr>is_items := (is_items s)(i := map_option f (is_items s i))\<rparr>"

definition add_ports :: "inventory_port list \<Rightarrow> inventory_item \<Rightarrow> inventory_item" where
  "add_ports ps it = it\<lparr>iv_Ports := iv_Ports it @ ps\<rparr>"

definition appendUniquePort :: "inventory_port list \<Rightarrow> inventory_port \<Rightarrow> inventory_port list" where
  "appendUniquePort ports p =
     (if list_ex (\<lambda>e. ip_Port e = ip_Port p \<and> ip_Protocol e = ip_Protocol p) ports then ports else ports @ [p])"

definition attach_socket :: "inventory_port \<Rightarrow> inventory_item \<Rightarrow> inventory_item" where
  "attach_socket p it = it\<lparr>iv_Ports := appendUniquePort (iv_Ports it) p\<rparr>"

definition inventory_container :: "agent_resource \<Rightarrow> inventory_state \<Rightarrow> inventory_state" where
  "inventory_container c s =
     (let cid = TrimPrefix (res_ID c) ''container:'';
          s1 = inventory_put ((new_item (res_ID c) (res_Name c) ''container'' ''container'' (res_DetectedBy c))
                 \<lparr>iv_Status := res_Status c, iv_Health := res_Health c, iv_Image := stringAttr (res_Attributes c) ''image'', iv_ContainerID := cid\<rparr>) s;
          ps = map (\<lambda>p. \<lparr>ip_Port = po_Host p, ip_Protocol = po_Protocol p, ip_Address = po_Address p, ip_Exposure = []\<rparr>)
                 (filter (\<lambda>p. 0 < po_Host p) (res_Ports c));
          s2 = change_item (res_ID c) (add_ports ps) s1
      in s2\<lparr>is_byContainerID := (is_byContainerID s2)(cid \<mapsto> res_ID c)\<rparr>)"

definition inventory_unit :: "agent_resource \<Rightarrow> inventory_state \<Rightarrow> inventory_state" where
  "inventory_unit u s =
     (if res_Status u \<noteq> ''running'' \<and> res_Status u \<noteq> ''failed'' then s
      else let s1 = inventory_put ((new_item (res_ID u) (res_Name u) ''service'' ''host'' (res_DetectedBy u))
                 \<lparr>iv_Status := res_Status u, iv_Health := res_Health u, iv_PID := intAttr (res_Attributes u) ''pid'', iv_Unit := res_Name u\<rparr>) s
           in s1\<lparr>is_byUnit := (is_byUnit s1)(res_Name u \<mapsto> res_ID u)\<rparr>)"

definition inventory_proxy :: "agent_resource \<Rightarrow> inventory_state \<Rightarrow> inventory_state" where
  "inventory_proxy rp = inventory_put ((new_item (res_ID rp) (res_Name rp) ''proxy'' ''host'' (res_DetectedBy rp))
     \<lparr>iv_Health := res_Health rp, iv_Engine := stringAttr (res_Attributes rp) ''engine''\<rparr>)"

definition inventory_database :: "agent_resource \<Rightarrow> inventory_state \<Rightarrow> inventory_state" where
  "inventory_database db s =
     (let attrs = res_Attributes db; cid = stringAttr attrs ''container_id'';
          placement = (if stringAttr attrs ''workload'' = ''container'' then ''container'' else ''host'');
          ps = map (\<lambda>p. \<lparr>ip_Port = po_Host p, ip_Protocol = po_Protocol p, ip_Address = [], ip_Exposure = []\<rparr>) (filter (\<lambda>p. 0 < po_Host p) (res_Ports db));
          own = change_item (res_ID db) (add_ports ps)
                  (inventory_put ((new_item (res_ID db) (res_Name db) ''database'' placement (res_DetectedBy db))
                     \<lparr>iv_Status := res_Status db, iv_Health := res_Health db, iv_Engine := stringAttr attrs ''engine'', iv_Unit := stringAttr attrs ''unit'',
                      iv_PID := intAttr attrs ''pid'', iv_ContainerID := cid\<rparr>) s)
      in case is_byContainerID s cid of
           None \<Rightarrow> own
         | Some i \<Rightarrow>
             if cid \<noteq> [] then change_item i (\<lambda>it. if iv_Engine it = [] then it\<lparr>iv_Engine := stringAttr attrs ''engine''\<rparr> else it) s
             else own)"

subsection \<open>Sockets\<close>

definition socket_of :: "agent_resource \<Rightarrow> agent_port \<Rightarrow> inventory_port" where
  "socket_of lp port = \<lparr>ip_Port = po_Host port, ip_Protocol = po_Protocol port, ip_Address = po_Address port,
     ip_Exposure = stringAttr (res_Attributes lp) ''exposure''\<rparr>"

definition lookup_owner :: "(string \<rightharpoonup> string) \<Rightarrow> string \<Rightarrow> string option" where
  "lookup_owner m k = (if k = [] then None else m k)"

definition inventory_socket :: "agent_resource \<Rightarrow> inventory_state \<times> inventory_port list \<Rightarrow> inventory_state \<times> inventory_port list" where
  "inventory_socket lp su =
     (case su of (s, un) \<Rightarrow>
        (case res_Ports lp of
           [] \<Rightarrow> (s, un)
         | port # _ \<Rightarrow>
             let attrs = res_Attributes lp; ip = socket_of lp port; proc = stringAttr attrs ''process'' in
             (case lookup_owner (is_byContainerID s) (stringAttr attrs ''container_id'') of
                Some i \<Rightarrow> (change_item i (attach_socket ip) s, un)
              | None \<Rightarrow>
                  (case lookup_owner (is_byUnit s) (stringAttr attrs ''unit'') of
                     Some i \<Rightarrow> (change_item i (attach_socket ip) s, un)
                   | None \<Rightarrow>
                       if proc \<noteq> [] then
                         (change_item (''process:'' @ proc) (attach_socket ip)
                            (inventory_put ((new_item (''process:'' @ proc) proc ''service'' ''host'' (res_DetectedBy lp))
                               \<lparr>iv_Status := ''running'', iv_Health := ''HEALTHY'', iv_PID := intAttr attrs ''pid''\<rparr>) s), un)
                       else (s, un @ [ip])))))"

definition sockets :: "agent_snapshot \<Rightarrow> agent_resource list" where
  "sockets snap = filter (\<lambda>lp. res_Ports lp \<noteq> []) (resourcesOf snap [''listening_port''])"

definition inventory_items :: "agent_snapshot \<Rightarrow> inventory_state" where
  "inventory_items snap =
     fold inventory_database (resourcesOf snap [''database''])
       (fold inventory_proxy (resourcesOf snap [''reverse_proxy''])
         (fold inventory_unit (resourcesOf snap [''systemd_unit'', ''initd_service''])
           (fold inventory_container (resourcesOf snap [''docker_container''])
             \<lparr>is_items = Map.empty, is_order = [], is_byContainerID = Map.empty, is_byUnit = Map.empty\<rparr>)))"

definition buildInventory :: "(inventory_port list \<Rightarrow> inventory_port list) \<Rightarrow> agent_snapshot \<Rightarrow> inventory" where
  "buildInventory srt snap =
     (let (s, un) = fold inventory_socket (resourcesOf snap [''listening_port'']) (inventory_items snap, []);
          items = map (\<lambda>i. (\<lambda>it. it\<lparr>iv_Ports := srt (iv_Ports it)\<rparr>) (the (is_items s i))) (is_order s)
      in \<lparr>in_Hostname = snap_Hostname snap, in_GeneratedAt = utc (snap_GeneratedAt snap),
          in_Totals = \<lparr>it_HostWorkloads = int (length (filter (\<lambda>it. iv_Placement it \<noteq> ''container'') items)),
            it_ContainerWorkloads = int (length (filter (\<lambda>it. iv_Placement it = ''container'') items)),
            it_ListeningPorts = int (length (sockets snap)),
            it_PublicPorts = int (length (filter (\<lambda>lp. stringAttr (res_Attributes lp) ''exposure'' = ''public'') (sockets snap))),
            it_Databases = int (length (resourcesOf snap [''database''])), it_Unattributed = int (length un)\<rparr>,
          in_Items = sort_key (\<lambda>it. (iv_Placement it \<noteq> ''container'', iv_Kind it, iv_Name it)) items, in_Unattributed = un\<rparr>)"

definition handleInventory :: "(inventory_port list \<Rightarrow> inventory_port list) \<Rightarrow> principal \<Rightarrow> http_request \<Rightarrow> server_state \<Rightarrow> http_response + inventory" where
  "handleInventory srt = snapshot_view ''no inventory data for this server yet'' (buildInventory srt)"

subsection \<open>Nothing observed is lost\<close>

definition inventory_ok :: "inventory_state \<Rightarrow> bool" where
  "inventory_ok s \<longleftrightarrow> distinct (is_order s) \<and> set (is_order s) = dom (is_items s) \<and> (\<forall>i it. is_items s i = Some it \<longrightarrow> iv_ID it = i) \<and>
     ran (is_byContainerID s) \<subseteq> dom (is_items s) \<and> ran (is_byUnit s) \<subseteq> dom (is_items s)"

definition listens :: "inventory_port \<Rightarrow> inventory_item \<Rightarrow> bool" where
  "listens p it \<longleftrightarrow> (\<exists>q\<in>set (iv_Ports it). ip_Port q = ip_Port p \<and> ip_Protocol q = ip_Protocol p)"

definition placed :: "inventory_state \<Rightarrow> inventory_port \<Rightarrow> bool" where
  "placed s p \<longleftrightarrow> (\<exists>i it. is_items s i = Some it \<and> listens p it)"

text \<open>A step keeps the invariant, the items and the sockets already placed.\<close>

definition grows :: "inventory_state \<Rightarrow> inventory_state \<Rightarrow> bool" where
  "grows s s' \<longleftrightarrow> (inventory_ok s \<longrightarrow> inventory_ok s') \<and> dom (is_items s) \<subseteq> dom (is_items s') \<and> (\<forall>p. placed s p \<longrightarrow> placed s' p)"

lemma grows_refl [simp]: "grows s s"
  by (simp add: grows_def)

lemma grows_trans: "grows s s1 \<Longrightarrow> grows s1 s2 \<Longrightarrow> grows s s2"
  unfolding grows_def by blast

lemma placed_index [simp]: "placed (s\<lparr>is_byContainerID := m\<rparr>) p = placed s p" "placed (s\<lparr>is_byUnit := m\<rparr>) p = placed s p"
  by (simp_all add: placed_def)

lemma inventory_put_dom [simp]: "dom (is_items (inventory_put it s)) = insert (iv_ID it) (dom (is_items s))"
  by (auto simp: inventory_put_def)

lemma put_Some: "iv_ID it = i \<Longrightarrow> \<exists>y. is_items (inventory_put it s) i = Some y"
  by (auto simp: inventory_put_def)

lemma grows_put: "grows s (inventory_put it s)"
proof -
  have "inventory_ok s \<longrightarrow> inventory_ok (inventory_put it s)" by (auto simp: inventory_put_def inventory_ok_def)
  moreover have "placed (inventory_put it s) p" if pl: "placed s p" for p
  proof -
    obtain j jt where j: "is_items s j = Some jt" "listens p jt" using pl by (auto simp: placed_def)
    then have "is_items (inventory_put it s) j = Some jt" by (auto simp: inventory_put_def)
    then show ?thesis using j(2) by (auto simp: placed_def)
  qed
  ultimately show ?thesis by (simp add: grows_def inventory_put_dom) blast
qed

lemma grows_change:
  assumes "\<And>it. iv_ID (f it) = iv_ID it" "\<And>it. set (iv_Ports it) \<subseteq> set (iv_Ports (f it))"
  shows "grows s (change_item i f s)"
proof -
  have "inventory_ok s \<longrightarrow> inventory_ok (change_item i f s)"
    by (auto simp: inventory_ok_def change_item_def assms(1) split: if_splits)
  moreover have "placed (change_item i f s) p" if pl: "placed s p" for p
  proof -
    obtain j it where j: "is_items s j = Some it" "listens p it" using pl by (auto simp: placed_def)
    then have "listens p (f it)" using assms(2) by (auto simp: listens_def)
    then show ?thesis using j by (cases "j = i") (force simp: placed_def change_item_def)+
  qed
  ultimately show ?thesis by (auto simp: grows_def change_item_def)
qed

lemma grows_add_ports [simp]: "grows s (change_item i (add_ports ps) s)"
  by (rule grows_change) (auto simp: add_ports_def)

lemma grows_attach [simp]: "grows s (change_item i (attach_socket p) s)"
  by (rule grows_change) (auto simp: attach_socket_def appendUniquePort_def)

lemma attach_placed: "is_items s i \<noteq> None \<Longrightarrow> placed (change_item i (attach_socket p) s) p"
proof -
  assume "is_items s i \<noteq> None"
  then obtain it where "is_items s i = Some it" by blast
  then have "is_items (change_item i (attach_socket p) s) i = Some (attach_socket p it)" by (simp add: change_item_def)
  moreover have "listens p (attach_socket p it)" by (auto simp: listens_def attach_socket_def appendUniquePort_def list_ex_iff)
  ultimately show ?thesis by (auto simp: placed_def)
qed

lemma grows_index:
  assumes "grows s s'" "i \<in> dom (is_items s')"
  shows "grows s (s'\<lparr>is_byContainerID := (is_byContainerID s')(k \<mapsto> i)\<rparr>)" "grows s (s'\<lparr>is_byUnit := (is_byUnit s')(k \<mapsto> i)\<rparr>)"
proof -
  have "inventory_ok s' \<Longrightarrow> inventory_ok (s'\<lparr>is_byContainerID := (is_byContainerID s')(k \<mapsto> i)\<rparr>)"
    "inventory_ok s' \<Longrightarrow> inventory_ok (s'\<lparr>is_byUnit := (is_byUnit s')(k \<mapsto> i)\<rparr>)"
    using assms(2) by (auto simp: inventory_ok_def ran_def)
  then show "grows s (s'\<lparr>is_byContainerID := (is_byContainerID s')(k \<mapsto> i)\<rparr>)" "grows s (s'\<lparr>is_byUnit := (is_byUnit s')(k \<mapsto> i)\<rparr>)"
    using assms(1) by (simp_all add: grows_def)
qed

lemma dom_change [simp]: "dom (is_items (change_item i f s)) = dom (is_items s)"
  by (auto simp: change_item_def dom_def)

lemma new_item_ID [simp]: "iv_ID (new_item i nm k pl d) = i"
  by (simp add: new_item_def)

lemma container_grows: "grows s (inventory_container c s)" "res_ID c \<in> dom (is_items (inventory_container c s))"
proof -
  show "grows s (inventory_container c s)" unfolding inventory_container_def Let_def
    by (intro grows_index(1) grows_trans [OF grows_put grows_add_ports]) simp
  have "dom (is_items (s\<lparr>is_byContainerID := m\<rparr>)) = dom (is_items s)" for s m by simp
  then show "res_ID c \<in> dom (is_items (inventory_container c s))" unfolding inventory_container_def Let_def by (simp del: domIff)
qed

lemma unit_grows:
  "grows s (inventory_unit u s)" "res_Status u = ''running'' \<or> res_Status u = ''failed'' \<Longrightarrow> res_ID u \<in> dom (is_items (inventory_unit u s))"
proof -
  show "grows s (inventory_unit u s)" by (auto simp: inventory_unit_def Let_def put_Some intro!: grows_index(2) grows_put)
  show "res_Status u = ''running'' \<or> res_Status u = ''failed'' \<Longrightarrow> res_ID u \<in> dom (is_items (inventory_unit u s))"
    by (elim disjE) (simp_all add: inventory_unit_def Let_def put_Some)
qed

lemma proxy_grows: "grows s (inventory_proxy rp s)" "res_ID rp \<in> dom (is_items (inventory_proxy rp s))"
  by (simp_all del: domIff add: inventory_proxy_def grows_put)

lemma database_grows: "grows s (inventory_database db s)"
proof -
  have "grows s (change_item i (\<lambda>it. if iv_Engine it = [] then it\<lparr>iv_Engine := e\<rparr> else it) s)" for i e by (rule grows_change) auto
  then show ?thesis by (auto simp: inventory_database_def Let_def intro!: grows_trans [OF grows_put grows_add_ports] split: option.split)
qed

lemma grows_fold: "(\<And>x s. grows s (f x s)) \<Longrightarrow> grows s (fold f xs s)"
proof (induction xs arbitrary: s)
  case (Cons x xs)
  then show ?case using grows_trans [of s "f x s"] by simp
qed simp

lemma fold_listed:
  assumes "\<And>x s. grows s (f x s)" "\<And>x s. P x \<Longrightarrow> g x \<in> dom (is_items (f x s))" "x \<in> set xs" "P x"
  shows "g x \<in> dom (is_items (fold f xs s))"
  using assms(3)
proof (induction xs arbitrary: s)
  case (Cons y ys)
  have "dom (is_items (f y s)) \<subseteq> dom (is_items (fold f ys (f y s)))" using grows_fold [where f = f, OF assms(1)] by (simp add: grows_def)
  then have "g y \<in> dom (is_items (fold f ys (f y s)))" if "P y" using assms(2) [OF that] by blast
  then show ?case using Cons assms(4) by (cases "x = y") (simp_all del: domIff)
qed simp

lemma inventory_items_listed:
  "inventory_ok (inventory_items snap)"
  "r \<in> set (resourcesOf snap [''docker_container'']) \<Longrightarrow> res_ID r \<in> dom (is_items (inventory_items snap))"
  "r \<in> set (resourcesOf snap [''reverse_proxy'']) \<Longrightarrow> res_ID r \<in> dom (is_items (inventory_items snap))"
  "r \<in> set (resourcesOf snap [''systemd_unit'', ''initd_service'']) \<Longrightarrow> res_Status r = ''running'' \<or> res_Status r = ''failed'' \<Longrightarrow>
     res_ID r \<in> dom (is_items (inventory_items snap))"
proof -
  let ?s0 = "\<lparr>is_items = Map.empty, is_order = [], is_byContainerID = Map.empty, is_byUnit = Map.empty\<rparr>"
  define s1 where "s1 = fold inventory_container (resourcesOf snap [''docker_container'']) ?s0"
  define s2 where "s2 = fold inventory_unit (resourcesOf snap [''systemd_unit'', ''initd_service'']) s1"
  define s3 where "s3 = fold inventory_proxy (resourcesOf snap [''reverse_proxy'']) s2"
  have e: "inventory_items snap = fold inventory_database (resourcesOf snap [''database'']) s3" by (simp add: inventory_items_def s1_def s2_def s3_def)
  have g: "grows ?s0 s1" "grows s1 s2" "grows s2 s3" "grows s3 (inventory_items snap)"
    unfolding e s1_def s2_def s3_def by (auto intro: grows_fold container_grows unit_grows proxy_grows database_grows)
  have "inventory_ok ?s0" by (simp add: inventory_ok_def)
  then show "inventory_ok (inventory_items snap)" using g by (simp add: grows_def)
  have dm: "grows a b \<Longrightarrow> dom (is_items a) \<subseteq> dom (is_items b)" for a b by (simp add: grows_def)
  note d = dm [OF grows_trans [OF grows_trans [OF g(2,3)] g(4)]] dm [OF grows_trans [OF g(3,4)]] dm [OF g(4)]
  show "res_ID r \<in> dom (is_items (inventory_items snap))" if "r \<in> set (resourcesOf snap [''docker_container''])"
    using d(1) fold_listed [where P = "\<lambda>_. True" and f = inventory_container and g = res_ID, OF container_grows that] unfolding s1_def by blast
  show "res_ID r \<in> dom (is_items (inventory_items snap))" if "r \<in> set (resourcesOf snap [''reverse_proxy''])"
    using d(3) fold_listed [where P = "\<lambda>_. True" and f = inventory_proxy and g = res_ID, OF proxy_grows that] unfolding s3_def by blast
  show "res_ID r \<in> dom (is_items (inventory_items snap))"
    if "r \<in> set (resourcesOf snap [''systemd_unit'', ''initd_service''])" "res_Status r = ''running'' \<or> res_Status r = ''failed''"
    using d(2) fold_listed [where P = "\<lambda>u. res_Status u = ''running'' \<or> res_Status u = ''failed''" and f = inventory_unit and g = res_ID, OF unit_grows that] unfolding s2_def by blast
qed

lemma owner_dom: "inventory_ok s \<Longrightarrow> lookup_owner (is_byContainerID s) k = Some i \<or> lookup_owner (is_byUnit s) k = Some i \<Longrightarrow> i \<in> dom (is_items s)"
  by (auto simp del: domIff simp: inventory_ok_def lookup_owner_def ran_def split: if_splits)

lemma socket_step:
  assumes "inventory_ok s" "inventory_socket lp (s, un) = (s', un')"
  shows "grows s s' \<and> set un \<subseteq> set un' \<and> (res_Ports lp \<noteq> [] \<longrightarrow> placed s' (socket_of lp (hd (res_Ports lp))) \<or> socket_of lp (hd (res_Ports lp)) \<in> set un')"
proof (cases "res_Ports lp")
  case (Cons port rest)
  have gp: "grows s (change_item i (attach_socket p) (inventory_put it s))" for i p it by (rule grows_trans [OF grows_put grows_attach])
  have at: "placed (change_item i (attach_socket p) r) p" if "i \<in> dom (is_items r)" for i p r using attach_placed that by blast
  have pr: "placed (change_item i (attach_socket p) (inventory_put it s)) p" if "iv_ID it = i" for i p it using at that by (simp del: domIff)
  show ?thesis
    using assms at [OF owner_dom [OF assms(1), OF disjI1]] at [OF owner_dom [OF assms(1), OF disjI2]] gp pr
    by (auto simp del: domIff simp: inventory_socket_def Cons Let_def split: option.splits if_splits)
qed (use assms in \<open>simp add: inventory_socket_def\<close>)

lemma sockets_run:
  assumes "inventory_ok s" "fold inventory_socket lps (s, un) = (s', un')"
  shows "grows s s' \<and> set un \<subseteq> set un' \<and>
    (\<forall>lp\<in>set lps. res_Ports lp \<noteq> [] \<longrightarrow> placed s' (socket_of lp (hd (res_Ports lp))) \<or> socket_of lp (hd (res_Ports lp)) \<in> set un')"
  using assms
proof (induction lps arbitrary: s un)
  case (Cons lp lps)
  obtain s1 un1 where s1: "inventory_socket lp (s, un) = (s1, un1)" by (rule prod.exhaust)
  note one = socket_step [OF Cons.prems(1) s1]
  then have "inventory_ok s1" using Cons.prems(1) by (simp add: grows_def)
  note rest = Cons.IH [OF this, of un1]
  have r: "grows s1 s' \<and> set un1 \<subseteq> set un' \<and> (\<forall>lp\<in>set lps. res_Ports lp \<noteq> [] \<longrightarrow> placed s' (socket_of lp (hd (res_Ports lp))) \<or> socket_of lp (hd (res_Ports lp)) \<in> set un')"
    using rest Cons.prems(2) by (simp add: s1)
  have "grows s s'" using one r grows_trans by blast
  moreover have "placed s' p" if "placed s1 p" for p using r that by (simp add: grows_def)
  ultimately show ?case using one r by auto
qed simp

text \<open>What \<open>sort.Slice\<close> promises of the ports of an item.\<close>

definition sorts_ports :: "(inventory_port list \<Rightarrow> inventory_port list) \<Rightarrow> bool" where
  "sorts_ports srt \<longleftrightarrow> (\<forall>ps. sorted (map ip_Port (srt ps)) \<and> set (srt ps) = set ps \<and> length (srt ps) = length ps)"


definition inventory_snapshot :: agent_snapshot where
  "inventory_snapshot =
     \<lparr>snap_InstallationID = [], snap_ServerID = [], snap_Hostname = ''h'', snap_GeneratedAt = [], snap_DurationMS = 0,
      snap_Resources = map (\<lambda>(ty, i, name, attrs, port). \<lparr>res_Type = ty, res_ID = i, res_Name = name, res_Status = ''running'', res_Health = [],
          res_Labels = Map.empty, res_Attributes = attrs,
          res_Ports = [\<lparr>po_Host = port, po_Container = 0, po_Protocol = ''tcp'', po_Address = [], po_State = []\<rparr>], res_Networks = [],
          res_Volumes = [], res_DependsOn = [], res_DetectedBy = []\<rparr>)
        [(''docker_container'', ''container:a'', ''web'', Map.empty, 80), (''listening_port'', ''p1'', [], [''container_id'' \<mapsto> JvStr ''a''], 443),
         (''listening_port'', ''p2'', [], Map.empty, 9)],
      snap_Topology = None\<rparr>"

lemma sort_key_sorts_ports: "sorts_ports (sort_key ip_Port)"
  by (simp add: sorts_ports_def)


end
