(* ===== verification/Pulse_Views.thy ===== *)
theory Pulse_Views
  imports Pulse_Audit_Rules Pulse_Scanner
begin

section \<open>Metrics, logs, domains and the server summary\<close>

text \<open>
  \<^verbatim>\<open>apps/api/internal/httpx/handlers_metrics.go\<close>, \<^verbatim>\<open>handlers_logs.go\<close>, \<^verbatim>\<open>handlers_servers.go\<close>,
  \<^verbatim>\<open>handlers_domains_security.go\<close> and \<^verbatim>\<open>metricsproxy/metricsproxy.go\<close>. The metrics backend is a
  function from a URL to the status and body of its answer; query parameters of the request are
  arguments. A response that cannot be encoded as JSON is sent with an empty body, the result
  \<open>Inr None\<close>.
\<close>

subsection \<open>Samples and series\<close>

record point =
  pt_T :: rat
  pt_V :: gofloat

record series =
  se_Name :: string
  se_Unit :: string
  se_Points :: "point list"

definition sampleShape :: "(string \<times> field_type) list" where
  "sampleShape = [(''timestamp'', FTime), (''cpu_percent'', FFloat), (''cpu_user_pct'', FFloat), (''cpu_system_pct'', FFloat), (''cpu_iowait_pct'', FFloat),
     (''load1'', FFloat), (''load5'', FFloat), (''load15'', FFloat), (''mem_used_bytes'', FUint), (''mem_total_bytes'', FUint), (''mem_avail_bytes'', FUint),
     (''swap_used_bytes'', FUint), (''swap_total_bytes'', FUint), (''net_rx_bytes'', FUint), (''net_tx_bytes'', FUint), (''disk_used_bytes'', FUint),
     (''disk_total_bytes'', FUint), (''disk_read_bytes'', FUint), (''disk_write_bytes'', FUint)]"

definition decode_sample :: "raw_json \<Rightarrow> members option" where
  "decode_sample raw = (case json_Unmarshal raw of None \<Rightarrow> None | Some j \<Rightarrow> decode_struct False sampleShape j)"

definition rateFields :: "string \<Rightarrow> string option" where
  "rateFields m =
     (if m = ''network'' \<or> m = ''net_in'' then Some ''net_rx_bytes'' else if m = ''net_out'' then Some ''net_tx_bytes''
      else if m = ''disk_read'' then Some ''disk_read_bytes'' else if m = ''disk_write'' then Some ''disk_write_bytes'' else None)"

definition validMetric :: "string \<Rightarrow> bool" where
  "validMetric m \<longleftrightarrow> rateFields m \<noteq> None \<or>
     m \<in> {''cpu'', ''cpu_user'', ''cpu_system'', ''cpu_iowait'', ''memory'', ''swap'', ''disk'', ''load'', ''load5'', ''load15''}"

definition pct :: "nat \<Rightarrow> nat \<Rightarrow> rat" where
  "pct a b = (if b = 0 then 0 else of_nat a / of_nat b * 100)"

definition instantValue :: "string \<Rightarrow> members \<Rightarrow> rat option" where
  "instantValue metric s =
     (if metric = ''cpu'' then Some (get_float ''cpu_percent'' s) else if metric = ''cpu_user'' then Some (get_float ''cpu_user_pct'' s)
      else if metric = ''cpu_system'' then Some (get_float ''cpu_system_pct'' s) else if metric = ''cpu_iowait'' then Some (get_float ''cpu_iowait_pct'' s)
      else if metric = ''memory'' then Some (pct (get_uint ''mem_used_bytes'' s) (get_uint ''mem_total_bytes'' s))
      else if metric = ''swap'' then Some (pct (get_uint ''swap_used_bytes'' s) (get_uint ''swap_total_bytes'' s))
      else if metric = ''disk'' then Some (pct (get_uint ''disk_used_bytes'' s) (get_uint ''disk_total_bytes'' s))
      else if metric = ''load'' then Some (get_float ''load1'' s) else if metric = ''load5'' then Some (get_float ''load5'' s)
      else if metric = ''load15'' then Some (get_float ''load15'' s) else None)"

definition metricUnit :: "string \<Rightarrow> string" where
  "metricUnit metric =
     (if metric \<in> {''cpu'', ''cpu_user'', ''cpu_system'', ''cpu_iowait'', ''memory'', ''swap'', ''disk''} then ''%''
      else if metric \<in> {''network'', ''net_in'', ''net_out'', ''disk_read'', ''disk_write''} then ''B/s'' else [])"

definition roundTo2 :: "rat \<Rightarrow> rat" where
  "roundTo2 f = of_int (float_int64 (f * 100 + 1 / 2)) / 100"

definition mk_point :: "time \<Rightarrow> rat \<Rightarrow> point" where
  "mk_point t v = \<lparr>pt_T = of_int (t div second), pt_V = Fin (roundTo2 v)\<rparr>"

text \<open>The loop over the rows for a counter: the previous value and time, if any.\<close>

fun rate_points :: "string \<Rightarrow> (rat \<times> time) option \<Rightarrow> metric_sample list \<Rightarrow> point list" where
  "rate_points field prev [] = []"
| "rate_points field prev (row # rows) =
     (case decode_sample (ms_Sample row) of
        None \<Rightarrow> rate_points field prev rows
      | Some smp \<Rightarrow>
          let cur = of_nat (get_uint field smp);
              here = (case prev of None \<Rightarrow> []
                 | Some (prevV, prevT) \<Rightarrow>
                     let dt = of_int (time_Sub (ms_TS row) prevT) / of_int second in
                     if 0 < dt \<and> prevV \<le> cur then [mk_point (ms_TS row) ((cur - prevV) / dt)] else [])
          in here @ rate_points field (Some (cur, ms_TS row)) rows)"

fun instant_points :: "string \<Rightarrow> metric_sample list \<Rightarrow> point list option" where
  "instant_points metric [] = Some []"
| "instant_points metric (row # rows) =
     (case decode_sample (ms_Sample row) of
        None \<Rightarrow> instant_points metric rows
      | Some smp \<Rightarrow>
          (case instantValue metric smp of
             None \<Rightarrow> None
           | Some v \<Rightarrow> map_option ((#) (mk_point (ms_TS row) v)) (instant_points metric rows)))"

text \<open>\<open>decimate\<close>; with \<open>mx = 1\<close> the stride is infinite and the index out of range.\<close>

definition decimate_index :: "nat \<Rightarrow> nat \<Rightarrow> nat \<Rightarrow> nat" where
  "decimate_index len mx i =
     (let stride = (of_nat (len - 1) :: rat) / of_nat (mx - 1); idx = nat (float_int64 (of_nat i * stride + 1 / 2))
      in if len \<le> idx then len - 1 else idx)"

definition decimate :: "'a list \<Rightarrow> nat \<Rightarrow> 'a list option" where
  "decimate pts mx =
     (if mx = 0 \<or> length pts \<le> mx then Some pts
      else if mx = 1 then None
      else Some (map (\<lambda>i. pts ! decimate_index (length pts) mx i) [0..<mx]))"

definition historySeries :: "string \<Rightarrow> string \<Rightarrow> string \<Rightarrow> time \<Rightarrow> memory \<Rightarrow> series option" where
  "historySeries orgID serverID metric since m =
     (let rows = QueryMetricHistory orgID serverID since m in
      if rows = [] then None
      else case (case rateFields metric of Some field \<Rightarrow> Some (rate_points field None rows) | None \<Rightarrow> instant_points metric rows) of
          None \<Rightarrow> None
        | Some pts \<Rightarrow>
            if pts = [] then None
            else map_option (\<lambda>ps. \<lparr>se_Name = metric, se_Unit = metricUnit metric, se_Points = ps\<rparr>) (decimate pts 1500))"

definition latestSampleSeries :: "string \<Rightarrow> string \<Rightarrow> string \<Rightarrow> memory \<Rightarrow> series option" where
  "latestSampleSeries orgID serverID metric m =
     (case GetMetrics orgID serverID m of
        Inl _ \<Rightarrow> None
      | Inr raw \<Rightarrow>
          (case decode_sample raw of
             None \<Rightarrow> None
           | Some smp \<Rightarrow>
               map_option (\<lambda>v. \<lparr>se_Name = metric, se_Unit = metricUnit metric,
                   se_Points = [\<lparr>pt_T = of_int (let ts = get_string ''timestamp'' smp in if ts = [] then - 62135596800 else rfc3339_seconds ts),
                     pt_V = Fin (roundTo2 v)\<rparr>]\<rparr>) (instantValue metric smp)))"

subsection \<open>The metrics backend\<close>

definition RangeFor :: "string \<Rightarrow> duration \<times> duration" where
  "RangeFor token =
     (if token = ''6h'' then (6 * 3600 * second, 120 * second) else if token = ''24h'' then (24 * 3600 * second, 300 * second)
      else if token = ''7d'' then (7 * 24 * 3600 * second, 1800 * second) else if token = ''30d'' then (30 * 24 * 3600 * second, 7200 * second)
      else (3600 * second, 30 * second))"

definition upper_hex :: "nat \<Rightarrow> char" where
  "upper_hex n = (if n < 10 then digit_char n else char_of (n + 55))"

definition query_escape_char :: "char \<Rightarrow> string" where
  "query_escape_char c =
     (let n = of_char c :: nat in
      if 48 \<le> n \<and> n \<le> 57 \<or> 65 \<le> n \<and> n \<le> 90 \<or> 97 \<le> n \<and> n \<le> 122 \<or> c \<in> {CHR ''-'', CHR ''_'', CHR ''.'', CHR ''~''} then [c]
      else if c = CHR '' '' then ''+'' else [CHR ''%'', upper_hex (n div 16), upper_hex (n mod 16)])"

definition QueryEscape :: "string \<Rightarrow> string" where
  "QueryEscape s = concat (map query_escape_char s)"

definition promResponse :: "(string \<times> field_type) list" where
  "promResponse = [(''status'', FString), (''data'', FStruct [(''resultType'', FString),
     (''result'', FList (FStruct [(''metric'', FStrMap), (''values'', FList (FList FAny))]))])]"

text \<open>The value \<open>strconv.ParseFloat\<close> returns beside its error.\<close>

definition parsed_value :: "string \<Rightarrow> gofloat" where
  "parsed_value s =
     (case ParseFloat s of
        Some f \<Rightarrow> f
      | None \<Rightarrow>
          let l = ToLower s; neg = (l \<noteq> [] \<and> hd l = CHR ''-'');
              t = (if l \<noteq> [] \<and> (hd l = CHR ''-'' \<or> hd l = CHR ''+'') then tl l else l)
          in case (if HasPrefix t ''0x'' then hex_float (drop 2 t) else dec_float t) of
               None \<Rightarrow> Fin 0 | Some _ \<Rightarrow> if neg then NegInf else PosInf)"

definition prom_point :: "json \<Rightarrow> point list" where
  "prom_point v =
     (case v of
        JvArr [t, x] \<Rightarrow> [\<lparr>pt_T = (case t of JvNum n \<Rightarrow> num_val n | _ \<Rightarrow> 0), pt_V = parsed_value (str_of x)\<rparr>]
      | _ \<Rightarrow> [])"

definition prom_series :: "string \<Rightarrow> json \<Rightarrow> series" where
  "prom_series promQL j =
     (let ms = obj_members j; name = get_strmap ''metric'' ''__name__'' ms in
      \<lparr>se_Name = (if name = [] then promQL else name), se_Unit = [], se_Points = concat (map prom_point (get_list ''values'' ms))\<rparr>)"

definition QueryRange :: "(string \<Rightarrow> (int \<times> string) option) \<Rightarrow> string \<Rightarrow> string \<Rightarrow> time \<Rightarrow> time \<Rightarrow> duration \<Rightarrow> series list option" where
  "QueryRange fetch baseURL promQL start end step =
     (let url = baseURL @ ''/api/v1/query_range?end='' @ QueryEscape (Itoa (end div second)) @ ''&query='' @ QueryEscape promQL @
                ''&start='' @ QueryEscape (Itoa (start div second)) @ ''&step='' @ QueryEscape (Itoa (step div second))
      in case fetch url of
           None \<Rightarrow> None
         | Some (status, body) \<Rightarrow>
             if status \<noteq> 200 then None
             else (case (case json_Decode body of None \<Rightarrow> None | Some j \<Rightarrow> decode_struct False promResponse j) of
                 None \<Rightarrow> None
               | Some pr \<Rightarrow>
                   if get_string ''status'' pr \<noteq> ''success'' then None
                   else Some (map (prom_series promQL) (get_list ''result'' (get_object ''data'' pr)))))"

definition promTemplates :: "string \<Rightarrow> (string list) option" where
  \<open>promTemplates m =
     (if m = ''cpu'' then Some [''100 - (avg by (instance) (rate(node_cpu_seconds_total{mode="idle",instance="'', ''"}[5m])) * 100)'']
      else if m = ''memory'' then Some [''(1 - (node_memory_MemAvailable_bytes{instance="'', ''"} / node_memory_MemTotal_bytes{instance="'', ''"})) * 100'']
      else if m = ''disk'' then Some [''100 - (node_filesystem_avail_bytes{instance="'', ''",mountpoint="/"} / node_filesystem_size_bytes{instance="'', ''",mountpoint="/"} * 100)'']
      else if m = ''network'' then Some [''rate(node_network_receive_bytes_total{instance="'', ''"}[5m])'']
      else if m = ''load'' then Some [''node_load1{instance="'', ''"}''] else None)\<close>

text \<open>The templates are kept split at \<open>%s\<close>, so that filling them in is joining.\<close>

definition buildPromQL :: "string \<Rightarrow> string \<Rightarrow> string option" where
  "buildPromQL metric instnce = map_option (\<lambda>parts. Join parts instnce) (promTemplates metric)"

record metrics_view =
  mv_Series :: "series list"
  mv_Degraded :: bool
  mv_Note :: string

definition finite_float :: "gofloat \<Rightarrow> bool" where
  "finite_float f = (case f of Fin _ \<Rightarrow> True | _ \<Rightarrow> False)"

text \<open>\<open>encoding/json\<close> refuses infinities and NaN; the encoder then writes nothing after the header.\<close>

definition encodable :: "metrics_view \<Rightarrow> bool" where
  "encodable v \<longleftrightarrow> list_all (\<lambda>s. list_all (\<lambda>p. finite_float (pt_V p)) (se_Points s)) (mv_Series v)"

definition send_view :: "metrics_view \<Rightarrow> http_response + metrics_view option" where
  "send_view v = Inr (if encodable v then Some v else None)"

definition handleMetrics :: "(string \<Rightarrow> (int \<times> string) option) \<Rightarrow> string \<Rightarrow> time \<Rightarrow> string \<Rightarrow> string \<Rightarrow> principal \<Rightarrow> http_request \<Rightarrow> server_state \<Rightarrow>
    http_response + metrics_view option" where
  "handleMetrics fetch baseURL now query rng p r s =
     (case GetServer (p_OrgID p) (rq_PathValue r ''id'') (ss_store s) of
        Inl _ \<Rightarrow> Inl (Fail 404 CodeNotFound ''server not found'')
      | Inr srv \<Rightarrow>
          let metric = (if query = [] then ''cpu'' else query) in
          if \<not> validMetric metric then Inl (Fail 400 CodeValidation ''unknown metric'')
          else
            let (dur, step) = RangeFor (if rng = [] then ''1h'' else rng); start = now - dur;
                last_resort = (case latestSampleSeries (p_OrgID p) (srv_ServerID srv) metric (ss_store s) of
                    Some se \<Rightarrow> send_view \<lparr>mv_Series = [se], mv_Degraded = True, mv_Note = ''no history yet; showing the latest sample''\<rparr>
                  | None \<Rightarrow> send_view \<lparr>mv_Series = [], mv_Degraded = False, mv_Note = []\<rparr>)
            in case historySeries (p_OrgID p) (srv_ServerID srv) metric start (ss_store s) of
                 Some hist \<Rightarrow> send_view \<lparr>mv_Series = [hist], mv_Degraded = False, mv_Note = []\<rparr>
               | None \<Rightarrow>
                   (case buildPromQL metric (srv_ServerID srv) of
                      None \<Rightarrow> last_resort
                    | Some promQL \<Rightarrow>
                        (case QueryRange fetch baseURL promQL start now step of
                           Some (se # ses) \<Rightarrow> send_view \<lparr>mv_Series = se # ses, mv_Degraded = False, mv_Note = []\<rparr>
                         | _ \<Rightarrow> last_resort)))"

subsection \<open>Logs\<close>

record log_line =
  lg_Source :: string
  lg_Stream :: string
  lg_Time :: string
  lg_Message :: string

text \<open>\<open>json.Unmarshal\<close> goes on after a value of the wrong type and leaves the field at its zero value;
  the handler ignores the error. Malformed JSON leaves everything empty.\<close>

definition log_line_of :: "json \<Rightarrow> log_line" where
  "log_line_of j = (let ms = obj_members j in
     \<lparr>lg_Source = get_string ''source'' ms, lg_Stream = get_string ''stream'' ms, lg_Time = get_string ''time'' ms, lg_Message = get_string ''message'' ms\<rparr>)"

definition log_lines :: "raw_json \<Rightarrow> log_line list" where
  "log_lines raw = (case json_Unmarshal raw of None \<Rightarrow> [] | Some j \<Rightarrow> map log_line_of (get_list ''entries'' (obj_members j)))"

definition log_matches :: "string \<Rightarrow> string \<Rightarrow> log_line \<Rightarrow> bool" where
  "log_matches source q e \<longleftrightarrow> \<not> (source \<noteq> [] \<and> lg_Source e \<noteq> source) \<and> \<not> (q \<noteq> [] \<and> \<not> Contains (ToLower (lg_Message e)) q)"

definition handleLogs :: "string \<Rightarrow> string \<Rightarrow> principal \<Rightarrow> http_request \<Rightarrow> server_state \<Rightarrow> http_response + string list \<times> log_line list" where
  "handleLogs source query p r s =
     (case GetServer (p_OrgID p) (rq_PathValue r ''id'') (ss_store s) of
        Inl _ \<Rightarrow> Inl (Fail 404 CodeNotFound ''server not found'')
      | Inr srv \<Rightarrow>
          (case GetLogs (p_OrgID p) (srv_ServerID srv) (ss_store s) of
             Inl _ \<Rightarrow> Inr ([], [])
           | Inr raw \<Rightarrow>
               let entries = log_lines raw in
               Inr (sort (remdups (map lg_Source entries)), sort_key lg_Time (filter (log_matches source (ToLower query)) entries))))"

subsection \<open>Servers\<close>

definition handleListServers :: "string list \<Rightarrow> principal \<Rightarrow> server_state \<Rightarrow> server list" where
  "handleListServers ord p s = ListServers ord (p_OrgID p) (ss_store s)"

definition handleGetServer :: "principal \<Rightarrow> http_request \<Rightarrow> server_state \<Rightarrow> http_response + server" where
  "handleGetServer p r s =
     (case GetServer (p_OrgID p) (rq_PathValue r ''id'') (ss_store s) of
        Inl _ \<Rightarrow> Inl (Fail 404 CodeNotFound ''server not found'') | Inr srv \<Rightarrow> Inr srv)"

definition handleDeleteServer :: "inputs \<Rightarrow> principal \<Rightarrow> http_request \<Rightarrow> server_state \<Rightarrow> http_response \<times> server_state" where
  "handleDeleteServer x p r s =
     (case DeleteServer (p_OrgID p) (rq_PathValue r ''id'') (ss_store s) of
        (Inl _, m) \<Rightarrow> (Fail 404 CodeNotFound ''server not found'', s\<lparr>ss_store := m\<rparr>)
      | (Inr _, m) \<Rightarrow> (JSON 200 [(''status'', JStr ''removed_from_pulse'')],
          Record x 0 (p_OrgID p) (p_Email p) ''server.delete'' ''success'' (clientIP r) [(''server'', rq_PathValue r ''id'')] (s\<lparr>ss_store := m\<rparr>)))"

record summary_count =
  sc_ServicesHealthy :: int
  sc_ServicesDegraded :: int
  sc_ServicesDown :: int
  sc_ContainersRunning :: int
  sc_ContainersUnhealthy :: int
  sc_DomainsOnline :: int
  sc_DomainsSSLExpiring :: int
  sc_AlertsCritical :: int
  sc_AlertsWarning :: int

record server_summary =
  su_Server :: server
  su_CPUPercent :: rat
  su_MemUsedPct :: int
  su_DiskUsePct :: int
  su_NetRxBytes :: nat
  su_NetTxBytes :: nat
  su_UptimeSec :: int
  su_Health :: string
  su_Counts :: summary_count

definition countService :: "string \<Rightarrow> summary_count \<Rightarrow> summary_count" where
  "countService health c =
     (if health = HealthHealthy then c\<lparr>sc_ServicesHealthy := sc_ServicesHealthy c + 1\<rparr>
      else if health = HealthDegraded then c\<lparr>sc_ServicesDegraded := sc_ServicesDegraded c + 1\<rparr>
      else if health = HealthDown then c\<lparr>sc_ServicesDown := sc_ServicesDown c + 1\<rparr> else c)"

definition container_down :: "summary_count \<Rightarrow> summary_count" where
  "container_down c = c\<lparr>sc_ContainersUnhealthy := sc_ContainersUnhealthy c + 1, sc_ServicesDown := sc_ServicesDown c + 1\<rparr>"

definition countContainer :: "agent_resource \<Rightarrow> summary_count \<Rightarrow> summary_count" where
  "countContainer res c =
     (if res_Status res = ''running'' then
        let c1 = c\<lparr>sc_ContainersRunning := sc_ContainersRunning c + 1\<rparr> in
        if res_Health res = HealthDegraded then c1\<lparr>sc_ServicesDegraded := sc_ServicesDegraded c1 + 1\<rparr>
        else if res_Health res = HealthDown then container_down c1
        else c1\<lparr>sc_ServicesHealthy := sc_ServicesHealthy c1 + 1\<rparr>
      else if res_Status res = ''restarting'' \<or> res_Status res = ''dead'' then container_down c
      else c)"

definition domain_online :: "summary_count \<Rightarrow> summary_count" where
  "domain_online c = c\<lparr>sc_DomainsOnline := sc_DomainsOnline c + 1\<rparr>"

definition number_attr :: "agent_resource \<Rightarrow> string \<Rightarrow> rat option" where
  "number_attr res k = (case res_Attributes res k of Some (JvNum n) \<Rightarrow> Some (num_val n) | _ \<Rightarrow> None)"

definition count_resource :: "agent_resource \<Rightarrow> server_summary \<Rightarrow> server_summary" where
  "count_resource res acc =
     (let ty = res_Type res; counts = (\<lambda>f. acc\<lparr>su_Counts := f (su_Counts acc)\<rparr>) in
      if ty = ''docker_container'' then counts (countContainer res)
      else if ty \<in> {''database'', ''reverse_proxy'', ''application'', ''systemd_unit''} then counts (countService (res_Health res))
      else if ty = ''nginx_vhost'' then counts (countService (res_Health res) \<circ> domain_online)
      else if ty \<in> {''caddy_site'', ''apache_vhost'', ''traefik_router''} then counts domain_online
      else if ty = ''filesystem'' then
        (case number_attr res ''used_pct'' of
           Some v \<Rightarrow> if su_DiskUsePct acc < float_int64 v then acc\<lparr>su_DiskUsePct := float_int64 v\<rparr> else acc
         | None \<Rightarrow> acc)
      else if ty = ''system'' then
        (case number_attr res ''uptime_sec'' of Some v \<Rightarrow> acc\<lparr>su_UptimeSec := float_int64 v\<rparr> | None \<Rightarrow> acc)
      else if ty = ''tls_certificate'' then
        (case number_attr res ''days_left'' of
           Some v \<Rightarrow> if v < 30 then counts (\<lambda>c. c\<lparr>sc_DomainsSSLExpiring := sc_DomainsSSLExpiring c + 1\<rparr>) else acc
         | None \<Rightarrow> acc)
      else acc)"

definition summary_sample :: "raw_json \<Rightarrow> server_summary \<Rightarrow> server_summary" where
  "summary_sample raw acc =
     (case (case json_Unmarshal raw of None \<Rightarrow> None
         | Some j \<Rightarrow> decode_struct False [(''cpu_percent'', FFloat), (''mem_used_bytes'', FUint), (''mem_total_bytes'', FUint), (''net_rx_bytes'', FUint), (''net_tx_bytes'', FUint)] j) of
        None \<Rightarrow> acc
      | Some smp \<Rightarrow>
          let whole = get_uint ''mem_total_bytes'' smp in
          acc\<lparr>su_CPUPercent := get_float ''cpu_percent'' smp,
            su_MemUsedPct := (if 0 < whole then wrap64 (int (get_uint ''mem_used_bytes'' smp * 100 mod 2 ^ 64 div whole)) else su_MemUsedPct acc),
            su_NetRxBytes := get_uint ''net_rx_bytes'' smp, su_NetTxBytes := get_uint ''net_tx_bytes'' smp\<rparr>)"

definition count_alert :: "string \<Rightarrow> alert_instance \<Rightarrow> summary_count \<Rightarrow> summary_count" where
  "count_alert serverID ai c =
     (if ali_ServerID ai \<noteq> serverID then c
      else if ali_Severity ai = SevCritical then c\<lparr>sc_AlertsCritical := sc_AlertsCritical c + 1\<rparr>
      else if ali_Severity ai = SevWarning then c\<lparr>sc_AlertsWarning := sc_AlertsWarning c + 1\<rparr> else c)"

definition summary_health :: "server \<Rightarrow> server_summary \<Rightarrow> string" where
  "summary_health srv acc =
     (if srv_Status srv = [] \<or> srv_Status srv = HealthUnknown then HealthUnknown
      else if 95 \<le> su_DiskUsePct acc then HealthDown
      else if 85 \<le> su_DiskUsePct acc \<or> 3 \<le> sc_ContainersUnhealthy (su_Counts acc) then HealthDegraded
      else HealthHealthy)"

definition empty_summary :: "server \<Rightarrow> server_summary" where
  "empty_summary srv =
     \<lparr>su_Server = srv, su_CPUPercent = 0, su_MemUsedPct = 0, su_DiskUsePct = 0, su_NetRxBytes = 0, su_NetTxBytes = 0, su_UptimeSec = 0,
      su_Health = HealthUnknown, su_Counts = \<lparr>sc_ServicesHealthy = 0, sc_ServicesDegraded = 0, sc_ServicesDown = 0, sc_ContainersRunning = 0,
        sc_ContainersUnhealthy = 0, sc_DomainsOnline = 0, sc_DomainsSSLExpiring = 0, sc_AlertsCritical = 0, sc_AlertsWarning = 0\<rparr>\<rparr>"

definition handleServerSummary :: "inputs \<Rightarrow> string list \<Rightarrow> principal \<Rightarrow> http_request \<Rightarrow> server_state \<Rightarrow> (http_response + server_summary) \<times> server_state" where
  "handleServerSummary x ord p r s =
     (case GetServer (p_OrgID p) (rq_PathValue r ''id'') (ss_store s) of
        Inl _ \<Rightarrow> (Inl (Fail 404 CodeNotFound ''server not found''), s)
      | Inr srv \<Rightarrow>
          let m = ss_store s;
              sum1 = (case GetMetrics (p_OrgID p) (srv_ServerID srv) m of Inl _ \<Rightarrow> empty_summary srv | Inr raw \<Rightarrow> summary_sample raw (empty_summary srv));
              sum2 = (case loadSnapshot (p_OrgID p) (srv_ID srv) m of None \<Rightarrow> sum1 | Some snap \<Rightarrow> fold count_resource (snap_Resources snap) sum1);
              s1 = evaluateAlerts x 0 (p_OrgID p) s;
              sum3 = sum2\<lparr>su_Counts := fold (count_alert (srv_ServerID srv)) (firingInstances ord (p_OrgID p) (ss_alerts s1)) (su_Counts sum2)\<rparr>
          in (Inr (sum3\<lparr>su_Health := summary_health srv sum3\<rparr>), s1))"

subsection \<open>Domains\<close>

record domain_view =
  dv_FQDN :: string
  dv_URL :: string
  dv_TLS :: bool
  dv_SSL :: bool
  dv_TLSDaysLeft :: int
  dv_NotAfter :: string
  dv_Upstream :: string
  dv_Ports :: "string list"
  dv_Health :: string
  dv_Source :: string

text \<open>The two regular expressions: \<open>Host(\<close>, the text up to the next closing parenthesis; and a quote, text
  without quotes, a quote.\<close>

lemma scanned_shorter [termination_simp]:
  "length (dropWhile P xs) - k < Suc (length xs)" "length (dropWhile P (drop n xs)) - k < Suc (length xs)"
  using length_dropWhile_le [of P xs] length_dropWhile_le [of P "drop n xs"] by simp_all

function host_arguments :: "string \<Rightarrow> string list" where
  "host_arguments [] = []"
| "host_arguments (c # cs) =
     (if HasPrefix (c # cs) ''Host('' \<and> CHR '')'' \<in> set (drop 4 cs)
      then takeWhile (\<lambda>d. d \<noteq> CHR '')'') (drop 4 cs) # host_arguments (tl (dropWhile (\<lambda>d. d \<noteq> CHR '')'') (drop 4 cs)))
      else host_arguments cs)"
  by pat_completeness auto
termination
  by (relation "measure length") (auto simp: scanned_shorter)

definition is_quote :: "char \<Rightarrow> bool" where
  "is_quote c \<longleftrightarrow> c = CHR 0x60 \<or> c = CHR 0x22 \<or> c = CHR 0x27"

fun quoted_names :: "string \<Rightarrow> string list" where
  "quoted_names [] = []"
| "quoted_names (c # cs) =
     (if is_quote c \<and> takeWhile (Not \<circ> is_quote) cs \<noteq> [] \<and> dropWhile (Not \<circ> is_quote) cs \<noteq> []
      then takeWhile (Not \<circ> is_quote) cs # quoted_names (tl (dropWhile (Not \<circ> is_quote) cs))
      else quoted_names cs)"

definition traefikHostsFromRule :: "string \<Rightarrow> string list" where
  "traefikHostsFromRule rule = filter (\<lambda>h. h \<noteq> []) (map TrimSpace (concat (map quoted_names (host_arguments rule))))"

text \<open>The labels of a container in the order they are visited.\<close>

definition containerHasTLSLabel :: "(string \<times> string) list \<Rightarrow> bool" where
  "containerHasTLSLabel labels \<longleftrightarrow>
     list_ex (\<lambda>(k, v). HasPrefix k ''traefik.'' \<and> (Contains k ''.tls'' \<or> Contains k ''certresolver'') \<and> v \<noteq> ''false'') labels"

definition certByName :: "agent_snapshot \<Rightarrow> (string \<rightharpoonup> agent_resource)" where
  "certByName snap = (\<lambda>n. find (\<lambda>c. res_Name c = n) (rev (resourcesOfType snap [''tls_certificate''])))"

definition domain_of :: "agent_snapshot \<Rightarrow> string \<Rightarrow> string \<Rightarrow> (string \<rightharpoonup> json) \<Rightarrow> domain_view" where
  "domain_of snap fqdn source attrs =
     (let ssl = (attrs ''ssl'' = Some (JvBool True));
          d0 = \<lparr>dv_FQDN = fqdn, dv_URL = (if ssl then ''https'' else ''http'') @ ''://'' @ fqdn, dv_TLS = False, dv_SSL = ssl, dv_TLSDaysLeft = 0,
                dv_NotAfter = [], dv_Upstream = (case toStringSlice (attrs ''upstreams'') of [] \<Rightarrow> [] | u # _ \<Rightarrow> u),
                dv_Ports = toStringSlice (attrs ''listen''), dv_Health = ''HEALTHY'', dv_Source = source\<rparr>
      in case certByName snap fqdn of
           None \<Rightarrow> d0
         | Some cert \<Rightarrow> d0\<lparr>dv_TLS := True, dv_Health := res_Health cert, dv_TLSDaysLeft := intAttr (res_Attributes cert) ''days_left'',
             dv_NotAfter := stringAttr (res_Attributes cert) ''not_after''\<rparr>)"

definition add_domain :: "agent_snapshot \<Rightarrow> string \<times> string \<times> (string \<rightharpoonup> json) \<Rightarrow> domain_view list \<Rightarrow> domain_view list" where
  "add_domain snap c out =
     (case c of (fqdn, source, attrs) \<Rightarrow>
        if fqdn = [] \<or> fqdn = ''_'' \<or> fqdn \<in> dv_FQDN ` set out then out else out @ [domain_of snap fqdn source attrs])"

definition traefik_attrs :: "(string \<times> string) list \<Rightarrow> string \<Rightarrow> string \<Rightarrow> (string \<rightharpoonup> json)" where
  "traefik_attrs labels k name = [''ssl'' \<mapsto> JvBool (Contains k ''websecure'' \<or> containerHasTLSLabel labels), ''upstreams'' \<mapsto> JvArr [JvStr name]]"

text \<open>The names the handler passes to \<open>add\<close>, in order, with where they come from.\<close>

definition domain_candidates :: "(agent_resource \<Rightarrow> (string \<times> string) list) \<Rightarrow> agent_snapshot \<Rightarrow> (string \<times> string \<times> (string \<rightharpoonup> json)) list" where
  "domain_candidates labels snap =
     concat (map (\<lambda>vh. map (\<lambda>f. (f, res_Type vh, res_Attributes vh)) (splitServerNames (res_Name vh) @ toStringSlice (res_Attributes vh ''aliases'')))
       (resourcesOfType snap [''nginx_vhost'', ''caddy_site'', ''apache_vhost'', ''traefik_router''])) @
     concat (map (\<lambda>f. map (\<lambda>h. (h, ''haproxy_frontend'', res_Attributes f)) (toStringSlice (res_Attributes f ''hosts'')))
       (resourcesOfType snap [''haproxy_frontend''])) @
     concat (map (\<lambda>c. concat (map (\<lambda>(k, v).
         if \<not> HasPrefix k ''traefik.'' \<or> \<not> Contains k ''.rule'' then []
         else map (\<lambda>h. (h, ''traefik_router'', traefik_attrs (labels c) k (res_Name c))) (traefikHostsFromRule v)) (labels c)))
       (resourcesOfType snap [''docker_container'']))"

definition domains_of :: "(agent_resource \<Rightarrow> (string \<times> string) list) \<Rightarrow> agent_snapshot \<Rightarrow> domain_view list" where
  "domains_of labels snap = fold (add_domain snap) (domain_candidates labels snap) []"

definition handleDomains :: "(agent_resource \<Rightarrow> (string \<times> string) list) \<Rightarrow> principal \<Rightarrow> http_request \<Rightarrow> server_state \<Rightarrow> http_response + domain_view list" where
  "handleDomains labels = snapshot_view ''no domains discovered yet'' (domains_of labels)"

end
