(* ===== verification/Pulse_Views_Props.thy ===== *)
theory Pulse_Views_Props
  imports Pulse_Views
begin

section \<open>What the metrics and domain views promise\<close>

text \<open>
  Thinning a series keeps its ends and its order; stored history always gives a response that can be
  encoded, while a value that is not a number from the metrics backend empties it; the domain view
  lists every published name once.
\<close>

subsection \<open>Thinning\<close>

lemma float_int64_floor: "0 \<le> q \<Longrightarrow> q < 2 ^ 63 \<Longrightarrow> float_int64 q = \<lfloor>q\<rfloor>"
  by (auto simp: float_int64_def Let_def floor_less_iff)

lemma decimate_index_floor:
  assumes "2 \<le> mx" "mx < len" "len < 2 ^ 62" "i < mx"
  shows "decimate_index len mx i = nat \<lfloor>of_nat i * ((of_nat (len - 1) :: rat) / of_nat (mx - 1)) + 1 / 2\<rfloor>"
    "of_nat i * ((of_nat (len - 1) :: rat) / of_nat (mx - 1)) \<le> of_nat (len - 1)"
proof -
  let ?x = "of_nat i * ((of_nat (len - 1) :: rat) / of_nat (mx - 1))"
  have "of_nat i \<le> (of_nat (mx - 1) :: rat)" using assms(4) by simp
  then have "of_nat i * (of_nat (len - 1) :: rat) \<le> of_nat (mx - 1) * of_nat (len - 1)" by (rule mult_right_mono) simp
  then show le: "?x \<le> of_nat (len - 1)" using assms(1) by (simp add: divide_simps mult.commute)
  have "(of_nat (len - 1) :: rat) < of_nat (2 ^ 62)" unfolding of_nat_less_iff using assms(3) by simp
  then have lt: "?x + 1 / 2 < 2 ^ 63" using le by simp
  have "0 \<le> ?x" by simp
  then have f: "float_int64 (?x + 1 / 2) = \<lfloor>?x + 1 / 2\<rfloor>" using lt by (intro float_int64_floor) simp_all
  have "?x + 1 / 2 < of_nat (len - 1) + 1" using le by simp
  then have "?x + 1 / 2 < of_int (int (len - 1) + 1)" by (simp only: of_int_add of_int_of_nat_eq of_int_1)
  then have "\<lfloor>?x + 1 / 2\<rfloor> < int (len - 1) + 1" by (simp only: floor_less_iff)
  then have "nat \<lfloor>?x + 1 / 2\<rfloor> < len" using assms(2) by simp
  then show "decimate_index len mx i = nat \<lfloor>?x + 1 / 2\<rfloor>" unfolding decimate_index_def Let_def f by (simp only: not_le [symmetric] if_False)
qed

lemma stride_step:
  fixes s :: rat
  assumes "1 \<le> s"
  shows "\<lfloor>of_nat i * s + 1 / 2\<rfloor> < \<lfloor>of_nat (Suc i) * s + 1 / 2\<rfloor>"
proof -
  have "of_nat i * s + 1 / 2 + 1 \<le> of_nat (Suc i) * s + 1 / 2" using assms by (simp add: algebra_simps)
  then have "\<lfloor>of_nat i * s + 1 / 2 + 1\<rfloor> \<le> \<lfloor>of_nat (Suc i) * s + 1 / 2\<rfloor>" by (rule floor_mono)
  moreover have "\<lfloor>of_nat i * s + 1 / 2 + 1\<rfloor> = \<lfloor>of_nat i * s + 1 / 2\<rfloor> + 1" by (metis floor_add_int of_int_1)
  ultimately show ?thesis by simp
qed

lemma decimate_index_step:
  assumes "2 \<le> mx" "mx < len" "len < 2 ^ 62" "Suc i < mx"
  shows "decimate_index len mx i < decimate_index len mx (Suc i)"
proof -
  let ?s = "(of_nat (len - 1) :: rat) / of_nat (mx - 1)"
  have "(of_nat (mx - 1) :: rat) \<le> of_nat (len - 1)" using assms(2) by simp
  then have "1 \<le> ?s" using assms(1) by (simp add: divide_simps)
  then have "\<lfloor>of_nat i * ?s + 1 / 2\<rfloor> < \<lfloor>of_nat (Suc i) * ?s + 1 / 2\<rfloor>" by (rule stride_step)
  moreover have "0 \<le> \<lfloor>of_nat i * ?s + 1 / 2\<rfloor>" by simp
  ultimately have "nat \<lfloor>of_nat i * ?s + 1 / 2\<rfloor> < nat \<lfloor>of_nat (Suc i) * ?s + 1 / 2\<rfloor>" by (simp only: nat_less_eq_zless)
  then show ?thesis using assms(4) by (simp only: decimate_index_floor(1) [OF assms(1-3)] Suc_lessD)
qed

lemma decimate_index_ends:
  assumes "2 \<le> mx" "mx < len" "len < 2 ^ 62"
  shows "decimate_index len mx 0 = 0" "decimate_index len mx (mx - 1) = len - 1"
proof -
  show "decimate_index len mx 0 = 0" using decimate_index_floor(1) [OF assms, of 0] assms(1) by simp
  have "of_nat (mx - 1) * ((of_nat (len - 1) :: rat) / of_nat (mx - 1)) = of_nat (len - 1)" using assms(1) by simp
  moreover have "\<lfloor>(of_nat (len - 1) :: rat) + 1 / 2\<rfloor> = int (len - 1)" by (simp add: floor_eq_iff)
  ultimately show "decimate_index len mx (mx - 1) = len - 1" using decimate_index_floor(1) [OF assms, of "mx - 1"] assms(1) by simp
qed

text \<open>Thinning a series keeps its shape. A list longer than the limit becomes exactly the limit many of its
  own points, at strictly increasing positions that start with the first and end with the last, so
  the newest sample is always shown.\<close>

theorem decimate_keeps_ends:
  assumes "2 \<le> mx" "mx < length pts" "length pts < 2 ^ 62"
  shows "\<exists>ks. decimate pts mx = Some (map ((!) pts) ks) \<and> length ks = mx \<and> sorted_wrt (<) ks \<and> hd ks = 0 \<and> last ks = length pts - 1"
proof (intro exI conjI)
  let ?ks = "map (decimate_index (length pts) mx) [0..<mx]"
  show "decimate pts mx = Some (map ((!) pts) ?ks)" using assms by (simp add: decimate_def comp_def)
  show "length ?ks = mx" by simp
  show "sorted_wrt (<) ?ks"
    unfolding sorted_wrt_iff_nth_Suc_transp [OF transp_on_less] using decimate_index_step [OF assms] by simp
  show "hd ?ks = 0" "last ?ks = length pts - 1" using decimate_index_ends [OF assms] assms(1) by (simp_all add: hd_map last_map)
qed

theorem decimate_keeps_ends_witness:
  "\<exists>ks. decimate [10, 20, 30, 40, 50 :: nat] 3 = Some (map ((!) [10, 20, 30, 40, 50]) ks) \<and> length ks = 3 \<and> hd ks = 0 \<and> last ks = 4"
  using decimate_keeps_ends [of 3 "[10, 20, 30, 40, 50 :: nat]"] by auto

subsection \<open>Responses that can be encoded\<close>

lemma rate_points_finite: "list_all (\<lambda>p. finite_float (pt_V p)) (rate_points field prev rows)"
  by (induction field prev rows rule: rate_points.induct)
    (auto simp: Let_def mk_point_def finite_float_def split: option.split)

lemma instant_points_finite: "instant_points metric rows = Some ps \<Longrightarrow> list_all (\<lambda>p. finite_float (pt_V p)) ps"
  by (induction metric rows arbitrary: ps rule: instant_points.induct)
    (auto simp: mk_point_def finite_float_def split: option.splits)

lemma decimate_all: "decimate pts mx = Some ps \<Longrightarrow> list_all P pts \<Longrightarrow> list_all P ps"
proof -
  have "decimate_index (length pts) mx i < length pts" if "mx < length pts" for i
    using that by (auto simp: decimate_index_def Let_def)
  then show "decimate pts mx = Some ps \<Longrightarrow> list_all P pts \<Longrightarrow> ?thesis"
    by (auto simp: decimate_def list_all_length split: if_splits)
qed

lemma historySeries_finite:
  assumes "historySeries orgID serverID metric since m = Some se"
  shows "list_all (\<lambda>p. finite_float (pt_V p)) (se_Points se)" "se_Points se \<noteq> []" "length (se_Points se) \<le> 1500"
proof -
  obtain pts where p: "pts \<noteq> []" "list_all (\<lambda>p. finite_float (pt_V p)) pts" "decimate pts 1500 = Some (se_Points se)"
    using assms rate_points_finite instant_points_finite
    by (fastforce simp: historySeries_def Let_def split: if_splits option.splits)
  then show "list_all (\<lambda>p. finite_float (pt_V p)) (se_Points se)" using decimate_all by blast
  show "se_Points se \<noteq> []" "length (se_Points se) \<le> 1500" using p(1,3) by (auto simp: decimate_def dest: arg_cong [where f = length] split: if_splits)
qed

text \<open>Stored history always reaches the browser. When an agent has reported samples the metric needs, the
  response is one series of at most 1500 points, all of them numbers, and is encoded.\<close>

lemma history_response_encodable:
  assumes "GetServer (p_OrgID p) (rq_PathValue r ''id'') (ss_store s) = Inr srv" "validMetric query" "query \<noteq> []"
    "historySeries (p_OrgID p) (srv_ServerID srv) query (now - fst (RangeFor rng)) (ss_store s) = Some hist" "rng \<noteq> []"
  shows "\<exists>v. handleMetrics fetch url now query rng p r s = Inr (Some v) \<and> mv_Series v = [hist] \<and> length (se_Points hist) \<le> 1500"
  using assms historySeries_finite [OF assms(4)]
  by (auto simp: handleMetrics_def Let_def send_view_def encodable_def split: prod.split)

text \<open>One value that is not a number from the metrics backend empties the response. Without stored history,
  a backend answer with a NaN or an infinity in any series is parsed as such, cannot be encoded, and
  the browser gets status 200 with no body, although the handler has a fallback for a failing
  backend.\<close>

theorem backend_nan_empties_response:
  assumes "GetServer (p_OrgID p) (rq_PathValue r ''id'') (ss_store s) = Inr srv" "validMetric query" "query \<noteq> []" "rng \<noteq> []"
    "historySeries (p_OrgID p) (srv_ServerID srv) query (now - fst (RangeFor rng)) (ss_store s) = None"
    "buildPromQL query (srv_ServerID srv) = Some promQL"
    "QueryRange fetch url promQL (now - fst (RangeFor rng)) now (snd (RangeFor rng)) = Some ses"
    "\<not> list_all (\<lambda>s. list_all (\<lambda>p. finite_float (pt_V p)) (se_Points s)) ses"
  shows "handleMetrics fetch url now query rng p r s = Inr None"
proof -
  obtain se rest where "ses = se # rest" using assms(8) by (cases ses) auto
  then show ?thesis
    using assms by (cases "RangeFor rng") (simp add: handleMetrics_def Let_def send_view_def encodable_def)
qed

definition demo_backend :: "string \<Rightarrow> (int \<times> string) option" where
  \<open>demo_backend url = Some (200, ''{"status":"success","data":{"result":[{"values":[[1,"NaN"]]}]}}'')\<close>

lemma demo_backend_decoded:
  \<open>(case json_Decode ''{"status":"success","data":{"result":[{"values":[[1,"NaN"]]}]}}'' of None \<Rightarrow> None
      | Some j \<Rightarrow> map_option (\<lambda>pr. (get_string ''status'' pr = ''success'', get_list ''result'' (get_object ''data'' pr))) (decode_struct False promResponse j))
    = Some (True, [JvObj [(''values'', ''[[1,"NaN"]]'', JvArr [JvArr [JvNum ''1'', JvStr ''NaN'']])]])\<close>
  by code_simp

lemma demo_backend_series:
  "QueryRange demo_backend url promQL start end step = Some [\<lparr>se_Name = promQL, se_Unit = [], se_Points = [\<lparr>pt_T = num_val ''1'', pt_V = NaN\<rparr>]\<rparr>]"
proof -
  have l: "ToLower ''NaN'' = ''nan''" "EqualFold ''values'' ''values''" "\<not> EqualFold ''values'' ''metric''" by code_simp+
  then have "parsed_value ''NaN'' = NaN" by (simp add: parsed_value_def ParseFloat_def)
  then have "prom_series promQL (JvObj [(''values'', r, JvArr [JvArr [JvNum ''1'', JvStr ''NaN'']])]) =
      \<lparr>se_Name = promQL, se_Unit = [], se_Points = [\<lparr>pt_T = num_val ''1'', pt_V = NaN\<rparr>]\<rparr>" for r
    using l by (simp add: prom_series_def obj_members_def get_strmap_def get_list_def get_member_def prom_point_def str_of_def)
  then show ?thesis
    using demo_backend_decoded by (auto simp: QueryRange_def Let_def demo_backend_def split: option.splits)
qed

theorem backend_nan_empties_response_witness:
  "handleMetrics demo_backend ''http://prom'' 5 ''load'' ''1h'' (demo_viewer ''o'') demo_scan_request demo_sec_state = Inr None"
proof (rule backend_nan_empties_response)
  show "GetServer (p_OrgID (demo_viewer ''o'')) (rq_PathValue demo_scan_request ''id'') (ss_store demo_sec_state) =
    Inr \<lparr>srv_ID = ''x'', srv_OrgID = ''o'', srv_ServerID = ''s1'', srv_Hostname = [], srv_Mode = [], srv_Status = [], srv_LastSeenAt = 0, srv_CreatedAt = 0\<rparr>"
    by (simp add: GetServer_def demo_viewer_def demo_scan_request_def demo_sec_state_def New_def)
  show "validMetric ''load''" by (simp add: validMetric_def)
qed (simp add: historySeries_def QueryMetricHistory_def demo_sec_state_def New_def NewMemory_def hist_of_def buildPromQL_def promTemplates_def
    demo_backend_series finite_float_def)+

subsection \<open>Domains\<close>

lemma domain_of_FQDN [simp]: "dv_FQDN (domain_of snap fqdn source attrs) = fqdn"
  by (auto simp: domain_of_def Let_def split: option.split)

definition first_candidate :: "agent_snapshot \<Rightarrow> (string \<times> string \<times> (string \<rightharpoonup> json)) list \<Rightarrow> domain_view \<Rightarrow> bool" where
  "first_candidate snap cs d \<longleftrightarrow> (case find (\<lambda>c. fst c = dv_FQDN d) cs of None \<Rightarrow> False | Some (f, source, attrs) \<Rightarrow> d = domain_of snap (dv_FQDN d) source attrs)"

lemma find_append: "find P (xs @ ys) = (case find P xs of None \<Rightarrow> find P ys | Some x \<Rightarrow> Some x)"
  by (induction xs) auto

lemma first_candidate_append: "first_candidate snap cs d \<Longrightarrow> first_candidate snap (cs @ cs') d"
  by (auto simp: first_candidate_def find_append split: option.splits)

lemma domains_fold:
  assumes "distinct (map dv_FQDN out)" "dv_FQDN ` set out = fst ` set done - {[], ''_''}" "list_all (first_candidate snap done) out"
  shows "distinct (map dv_FQDN (fold (add_domain snap) cs out)) \<and>
    dv_FQDN ` set (fold (add_domain snap) cs out) = fst ` set (done @ cs) - {[], ''_''} \<and>
    list_all (first_candidate snap (done @ cs)) (fold (add_domain snap) cs out)"
  using assms
proof (induction cs arbitrary: out "done")
  case (Cons c cs)
  obtain f source attrs where c: "c = (f, source, attrs)" by (cases c) auto
  let ?out = "add_domain snap c out"
  have "list_all (first_candidate snap (done @ [c])) out" using Cons.prems(3) first_candidate_append by (auto simp: list_all_iff)
  moreover have "first_candidate snap (done @ [c]) (domain_of snap f source attrs)" if "f \<notin> dv_FQDN ` set out" "f \<noteq> []" "f \<noteq> ''_''"
  proof -
    have "f \<notin> fst ` set done" using that Cons.prems(2) by auto
    then have "find (\<lambda>c. fst c = f) done = None" by (force simp: find_None_iff)
    then show ?thesis by (simp add: first_candidate_def find_append c)
  qed
  ultimately have "list_all (first_candidate snap (done @ [c])) ?out" by (auto simp: add_domain_def c)
  moreover have "distinct (map dv_FQDN ?out)" using Cons.prems(1) by (auto simp: add_domain_def c)
  moreover have "dv_FQDN ` set ?out = fst ` set (done @ [c]) - {[], ''_''}"
    using Cons.prems(2) by (cases "f = [] \<or> f = ''_'' \<or> f \<in> dv_FQDN ` set out") (auto simp: add_domain_def c)
  ultimately show ?case using Cons.IH [of ?out "done @ [c]"] by simp
qed simp

text \<open>The domain view lists every published name exactly once. The names are those of the virtual hosts,
  their aliases, the HAProxy host rules and the Traefik rules, without the empty and the catch-all
  name; each entry is built from the first source that publishes the name, and says TLS exactly when
  the snapshot has a certificate of that name.\<close>

theorem domains_view_correct:
  "distinct (map dv_FQDN (domains_of labels snap)) \<and>
    set (map dv_FQDN (domains_of labels snap)) = fst ` set (domain_candidates labels snap) - {[], ''_''} \<and>
    list_all (\<lambda>d. first_candidate snap (domain_candidates labels snap) d \<and>
       (dv_TLS d \<longleftrightarrow> dv_FQDN d \<in> res_Name ` set (resourcesOfType snap [''tls_certificate'']))) (domains_of labels snap)"
proof -
  let ?out = "domains_of labels snap"
  have r: "distinct (map dv_FQDN ?out) \<and> dv_FQDN ` set ?out = fst ` set (domain_candidates labels snap) - {[], ''_''} \<and>
      list_all (first_candidate snap (domain_candidates labels snap)) ?out"
    using domains_fold [of "[]" "[]" snap "domain_candidates labels snap"] by (simp add: domains_of_def)
  have "dv_TLS (domain_of snap f source attrs) \<longleftrightarrow> f \<in> res_Name ` set (resourcesOfType snap [''tls_certificate''])" for f source attrs
  proof (cases "certByName snap f")
    case None
    then have "f \<notin> res_Name ` set (resourcesOfType snap [''tls_certificate''])"
      using find_None_iff [of "\<lambda>c. res_Name c = f" "rev (resourcesOfType snap [''tls_certificate''])"] by (auto simp: certByName_def)
    then show ?thesis by (simp add: domain_of_def Let_def None)
  next
    case (Some cert)
    then have "cert \<in> set (resourcesOfType snap [''tls_certificate''])" "res_Name cert = f"
      unfolding certByName_def by (auto dest: find_SomeD)
    then show ?thesis using Some by (auto simp: domain_of_def Let_def)
  qed
  then have "dv_TLS d \<longleftrightarrow> dv_FQDN d \<in> res_Name ` set (resourcesOfType snap [''tls_certificate''])"
    if "first_candidate snap (domain_candidates labels snap) d" for d
    using that by (auto simp: first_candidate_def split: option.splits) (metis domain_of_FQDN)+
  then show ?thesis using r by (auto simp: list_all_iff)
qed

end
