(* ===== verification/Go_Regexp.thy ===== *)
theory Go_Regexp
  imports Pulse_Prelude
begin

section \<open>Regular expressions\<close>

text \<open>
  The part of Go's \<^verbatim>\<open>regexp\<close> the agent uses: classes, sequences, alternatives in order of preference,
  greedy and reluctant repetition, groups, word boundaries and anchors. The matcher backtracks in
  order of preference, which gives the leftmost-first match of the package; it is equivalent to a
  declarative relation on the text before, in and after the match. Classes are sets of bytes and case
  folding is that of ASCII.
\<close>

datatype regex =
    Cls "char \<Rightarrow> bool"
  | Empty
  | Seqn regex regex
  | Altn regex regex
  | Greedy regex
  | Reluctant regex
  | Group nat regex
  | WordBoundary
  | TextStart
  | TextEnd

text \<open>A position: the text before it in reverse, the text after it, and the groups.\<close>

type_synonym position = "string \<times> string \<times> (nat \<Rightarrow> string)"

definition is_word :: "char \<Rightarrow> bool" where
  "is_word c = (let n = of_char c :: nat in 48 \<le> n \<and> n \<le> 57 \<or> 65 \<le> n \<and> n \<le> 90 \<or> 97 \<le> n \<and> n \<le> 122 \<or> n = 95)"

definition word_at :: "string \<Rightarrow> bool" where
  "word_at s \<longleftrightarrow> s \<noteq> [] \<and> is_word (hd s)"

text \<open>Repetition: another round must make progress; \<open>n\<close> bounds the rounds by the text that is left.\<close>

fun greedy :: "((position \<Rightarrow> position option) \<Rightarrow> position \<Rightarrow> position option) \<Rightarrow> nat \<Rightarrow> (position \<Rightarrow> position option) \<Rightarrow> position \<Rightarrow> position option" where
  "greedy f 0 k st = k st"
| "greedy f (Suc n) k st =
     (case f (\<lambda>st'. if length (fst (snd st')) < length (fst (snd st)) then greedy f n k st' else None) st of
        Some r \<Rightarrow> Some r | None \<Rightarrow> k st)"

fun reluctant :: "((position \<Rightarrow> position option) \<Rightarrow> position \<Rightarrow> position option) \<Rightarrow> nat \<Rightarrow> (position \<Rightarrow> position option) \<Rightarrow> position \<Rightarrow> position option" where
  "reluctant f 0 k st = k st"
| "reluctant f (Suc n) k st =
     (case k st of
        Some r \<Rightarrow> Some r
      | None \<Rightarrow> f (\<lambda>st'. if length (fst (snd st')) < length (fst (snd st)) then reluctant f n k st' else None) st)"

text \<open>\<open>run r k st\<close>: the first way, in order of preference, to match \<open>r\<close> at \<open>st\<close> such that the rest \<open>k\<close> succeeds.\<close>

primrec run :: "regex \<Rightarrow> (position \<Rightarrow> position option) \<Rightarrow> position \<Rightarrow> position option" where
  "run (Cls P) k st = (case st of (pre, c # cs, g) \<Rightarrow> if P c then k (c # pre, cs, g) else None | _ \<Rightarrow> None)"
| "run Empty k st = k st"
| "run (Seqn a b) k st = run a (run b k) st"
| "run (Altn a b) k st = (case run a k st of Some r \<Rightarrow> Some r | None \<Rightarrow> run b k st)"
| "run (Greedy a) k st = greedy (run a) (length (fst (snd st))) k st"
| "run (Reluctant a) k st = reluctant (run a) (length (fst (snd st))) k st"
| "run (Group n a) k st =
     run a (\<lambda>(pre', rest', g'). k (pre', rest', g'(n := take (length (fst (snd st)) - length rest') (fst (snd st))))) st"
| "run WordBoundary k st = (if word_at (fst st) \<noteq> word_at (fst (snd st)) then k st else None)"
| "run TextStart k st = (if fst st = [] then k st else None)"
| "run TextEnd k st = (if fst (snd st) = [] then k st else None)"

fun matches_somewhere :: "regex \<Rightarrow> string \<Rightarrow> string \<Rightarrow> bool" where
  "matches_somewhere r pre s \<longleftrightarrow>
     run r Some (pre, s, \<lambda>_. []) \<noteq> None \<or> (case s of [] \<Rightarrow> False | c # cs \<Rightarrow> matches_somewhere r (c # pre) cs)"

definition MatchString :: "regex \<Rightarrow> string \<Rightarrow> bool" where
  "MatchString r s = matches_somewhere r [] s"

text \<open>\<open>ReplaceAllString\<close>: each match from the left is replaced and matching goes on after it. None of
  the expressions matches the empty text.\<close>

function replace_from :: "regex \<Rightarrow> ((nat \<Rightarrow> string) \<Rightarrow> string) \<Rightarrow> string \<Rightarrow> string \<Rightarrow> string" where
  "replace_from r f pre s =
     (case run r Some (pre, s, \<lambda>_. []) of
        Some (pre', s', g) \<Rightarrow>
          if length s' < length s then f g @ replace_from r f pre' s'
          else (case s of [] \<Rightarrow> [] | c # cs \<Rightarrow> c # replace_from r f (c # pre) cs)
      | None \<Rightarrow> (case s of [] \<Rightarrow> [] | c # cs \<Rightarrow> c # replace_from r f (c # pre) cs))"
  by pat_completeness auto
termination
  by (relation "measure (\<lambda>(r, f, pre, s). length s)") auto

definition ReplaceAll :: "regex \<Rightarrow> ((nat \<Rightarrow> string) \<Rightarrow> string) \<Rightarrow> string \<Rightarrow> string" where
  "ReplaceAll r f s = replace_from r f [] s"

declare matches_somewhere.simps [simp del] replace_from.simps [simp del]

subsection \<open>Building expressions\<close>

definition Lit :: "string \<Rightarrow> regex" where
  "Lit w = foldr (\<lambda>c. Seqn (Cls (\<lambda>d. d = c))) w Empty"

definition LitFold :: "string \<Rightarrow> regex" where
  "LitFold w = foldr (\<lambda>c. Seqn (Cls (\<lambda>d. lower_char d = lower_char c))) w Empty"

definition OneOf :: "regex list \<Rightarrow> regex" where
  "OneOf rs = (case rs of [] \<Rightarrow> Cls (\<lambda>_. False) | r # rs' \<Rightarrow> foldl Altn r rs')"

definition Seqs :: "regex list \<Rightarrow> regex" where
  "Seqs rs = foldr Seqn rs Empty"

definition Plus :: "regex \<Rightarrow> regex" where
  "Plus r = Seqn r (Greedy r)"

definition AtLeast :: "nat \<Rightarrow> regex \<Rightarrow> regex" where
  "AtLeast n r = foldr Seqn (replicate n r) (Greedy r)"

definition Times :: "nat \<Rightarrow> regex \<Rightarrow> regex" where
  "Times n r = foldr Seqn (replicate n r) Empty"

definition Opt :: "regex \<Rightarrow> regex" where
  "Opt r = Altn r Empty"

subsection \<open>What the matcher finds\<close>

text \<open>\<open>accepts r pre w post\<close>: \<open>r\<close> matches \<open>w\<close> between \<open>pre\<close>, in reverse, and \<open>post\<close>.\<close>

inductive accepts :: "regex \<Rightarrow> string \<Rightarrow> string \<Rightarrow> string \<Rightarrow> bool" where
  cls: "P c \<Longrightarrow> accepts (Cls P) pre [c] post"
| empty: "accepts Empty pre [] post"
| seqn: "accepts a pre u (v @ post) \<Longrightarrow> accepts b (rev u @ pre) v post \<Longrightarrow> accepts (Seqn a b) pre (u @ v) post"
| alt_left: "accepts a pre w post \<Longrightarrow> accepts (Altn a b) pre w post"
| alt_right: "accepts b pre w post \<Longrightarrow> accepts (Altn a b) pre w post"
| greedy_stop: "accepts (Greedy a) pre [] post"
| greedy_more: "accepts a pre u (v @ post) \<Longrightarrow> accepts (Greedy a) (rev u @ pre) v post \<Longrightarrow> accepts (Greedy a) pre (u @ v) post"
| reluctant_stop: "accepts (Reluctant a) pre [] post"
| reluctant_more: "accepts a pre u (v @ post) \<Longrightarrow> accepts (Reluctant a) (rev u @ pre) v post \<Longrightarrow> accepts (Reluctant a) pre (u @ v) post"
| group: "accepts a pre w post \<Longrightarrow> accepts (Group n a) pre w post"
| word_boundary: "word_at pre \<noteq> word_at post \<Longrightarrow> accepts WordBoundary pre [] post"
| text_start: "accepts TextStart [] [] post"
| text_end: "accepts TextEnd pre [] []"

inductive_simps accepts_simps [simp]:
  "accepts (Cls P) pre w post" "accepts Empty pre w post" "accepts (Altn a b) pre w post"
  "accepts (Group n a) pre w post" "accepts WordBoundary pre w post" "accepts TextStart pre w post" "accepts TextEnd pre w post"

inductive_simps accepts_Seqn: "accepts (Seqn a b) pre w post"

definition sound_for :: "regex \<Rightarrow> ((position \<Rightarrow> position option) \<Rightarrow> position \<Rightarrow> position option) \<Rightarrow> bool" where
  "sound_for r f \<longleftrightarrow> (\<forall>k pre s g x. f k (pre, s, g) = Some x \<longrightarrow>
     (\<exists>w post g'. s = w @ post \<and> accepts r pre w post \<and> k (rev w @ pre, post, g') = Some x))"

lemma sound_forD:
  assumes "sound_for r f" "f k (pre, s, g) = Some x"
  obtains w post g' where "s = w @ post" "accepts r pre w post" "k (rev w @ pre, post, g') = Some x"
  using assms(1) [unfolded sound_for_def, rule_format, OF assms(2)] that by blast

lemma greedy_sound:
  assumes "sound_for r f" "greedy f n k (pre, s, g) = Some x"
  shows "\<exists>w post g'. s = w @ post \<and> accepts (Greedy r) pre w post \<and> k (rev w @ pre, post, g') = Some x"
  using assms(2)
proof (induction n arbitrary: pre s g)
  case 0
  then show ?case using accepts.greedy_stop [of r pre s] by (intro exI [of _ "[]"] exI [of _ s] exI [of _ g]) simp
next
  case (Suc n)
  let ?k = "\<lambda>st'. if length (fst (snd st')) < length s then greedy f n k st' else None"
  show ?case
  proof (cases "f ?k (pre, s, g)")
    case None
    then show ?thesis using Suc.prems accepts.greedy_stop [of r pre s]
      by (intro exI [of _ "[]"] exI [of _ s] exI [of _ g]) simp
  next
    case (Some y)
    then have "f ?k (pre, s, g) = Some x" using Suc.prems by simp
    from sound_forD [OF assms(1) this] obtain u post g' where u: "s = u @ post" "accepts r pre u post" "?k (rev u @ pre, post, g') = Some x" .
    then have "greedy f n k (rev u @ pre, post, g') = Some x" by (simp split: if_splits)
    from Suc.IH [OF this] obtain v rest h where v: "post = v @ rest" "accepts (Greedy r) (rev u @ pre) v rest" "k (rev v @ rev u @ pre, rest, h) = Some x" by blast
    then show ?thesis using u accepts.greedy_more [of r pre u v rest] by (intro exI [of _ "u @ v"] exI [of _ rest] exI [of _ h]) simp
  qed
qed

lemma reluctant_sound:
  assumes "sound_for r f" "reluctant f n k (pre, s, g) = Some x"
  shows "\<exists>w post g'. s = w @ post \<and> accepts (Reluctant r) pre w post \<and> k (rev w @ pre, post, g') = Some x"
  using assms(2)
proof (induction n arbitrary: pre s g)
  case 0
  then show ?case using accepts.reluctant_stop [of r pre s] by (intro exI [of _ "[]"] exI [of _ s] exI [of _ g]) simp
next
  case (Suc n)
  let ?k = "\<lambda>st'. if length (fst (snd st')) < length s then reluctant f n k st' else None"
  show ?case
  proof (cases "k (pre, s, g)")
    case (Some y)
    then show ?thesis using Suc.prems accepts.reluctant_stop [of r pre s]
      by (intro exI [of _ "[]"] exI [of _ s] exI [of _ g]) simp
  next
    case None
    then have "f ?k (pre, s, g) = Some x" using Suc.prems by simp
    from sound_forD [OF assms(1) this] obtain u post g' where u: "s = u @ post" "accepts r pre u post" "?k (rev u @ pre, post, g') = Some x" .
    then have "reluctant f n k (rev u @ pre, post, g') = Some x" by (simp split: if_splits)
    from Suc.IH [OF this] obtain v rest h where v: "post = v @ rest" "accepts (Reluctant r) (rev u @ pre) v rest" "k (rev v @ rev u @ pre, rest, h) = Some x" by blast
    then show ?thesis using u accepts.reluctant_more [of r pre u v rest] by (intro exI [of _ "u @ v"] exI [of _ rest] exI [of _ h]) simp
  qed
qed

lemma run_sound: "sound_for r (run r)"
proof (induction r)
  case (Seqn a b)
  show ?case unfolding sound_for_def
  proof (intro allI impI)
    fix k pre s g x assume "run (Seqn a b) k (pre, s, g) = Some x"
    then have "run a (run b k) (pre, s, g) = Some x" by simp
    from sound_forD [OF Seqn.IH(1) this] obtain u post g' where u: "s = u @ post" "accepts a pre u post" "run b k (rev u @ pre, post, g') = Some x" .
    from sound_forD [OF Seqn.IH(2) u(3)] obtain v rest h where v: "post = v @ rest" "accepts b (rev u @ pre) v rest" "k (rev v @ rev u @ pre, rest, h) = Some x" .
    show "\<exists>w post g'. s = w @ post \<and> accepts (Seqn a b) pre w post \<and> k (rev w @ pre, post, g') = Some x"
      using u v by (intro exI [of _ "u @ v"] exI [of _ rest] exI [of _ h]) (auto simp: accepts_Seqn)
  qed
next
  case (Altn a b)
  then show ?case unfolding sound_for_def by (fastforce split: option.splits)
next
  case (Greedy a)
  then show ?case unfolding sound_for_def [of "Greedy a"] using greedy_sound by fastforce
next
  case (Reluctant a)
  then show ?case unfolding sound_for_def [of "Reluctant a"] using reluctant_sound by fastforce
next
  case (Group n a)
  then show ?case unfolding sound_for_def by (fastforce split: prod.splits)
next
  case (Cls P)
  show ?case unfolding sound_for_def
  proof (intro allI impI)
    fix k pre s g x assume "run (Cls P) k (pre, s, g) = Some x"
    then obtain c cs where "s = c # cs" "P c" "k (c # pre, cs, g) = Some x" by (cases s) (auto split: if_splits)
    then show "\<exists>w post g'. s = w @ post \<and> accepts (Cls P) pre w post \<and> k (rev w @ pre, post, g') = Some x"
      by (intro exI [of _ "[c]"] exI [of _ cs] exI [of _ g]) simp
  qed
qed (auto simp: sound_for_def split: if_splits)

text \<open>Conversely, whatever is accepted is tried, so a match is found when one is accepted and the rest goes on
  from there.\<close>

definition complete_for :: "regex \<Rightarrow> ((position \<Rightarrow> position option) \<Rightarrow> position \<Rightarrow> position option) \<Rightarrow> bool" where
  "complete_for r f \<longleftrightarrow> (\<forall>k pre w post g. accepts r pre w post \<longrightarrow> (\<forall>g'. k (rev w @ pre, post, g') \<noteq> None) \<longrightarrow> f k (pre, w @ post, g) \<noteq> None)"

lemma complete_forD:
  "complete_for r f \<Longrightarrow> accepts r pre w post \<Longrightarrow> (\<And>g'. k (rev w @ pre, post, g') \<noteq> None) \<Longrightarrow> f k (pre, w @ post, g) \<noteq> None"
  unfolding complete_for_def by blast

lemma greedy_complete:
  assumes "complete_for r f" "accepts (Greedy r) pre w post" "length (w @ post) \<le> n" "\<And>g'. k (rev w @ pre, post, g') \<noteq> None"
  shows "greedy f n k (pre, w @ post, g) \<noteq> None"
  using assms(2-4)
proof (induction "Greedy r" pre w post arbitrary: n g rule: accepts.induct)
  case (greedy_stop pre post)
  then show ?case by (cases n) (auto split: option.split)
next
  case (greedy_more pre u v post)
  show ?case
  proof (cases "u = []")
    case True
    then show ?thesis using greedy_more by simp
  next
    case False
    then obtain m where n: "n = Suc m" "length (v @ post) \<le> m" using greedy_more.prems(1) by (cases n; cases u) auto
    let ?k = "\<lambda>st'. if length (fst (snd st')) < length ((u @ v) @ post) then greedy f m k st' else None"
    have "?k (rev u @ pre, v @ post, g') \<noteq> None" for g'
      using greedy_more.hyps(4) [OF n(2), of g'] greedy_more.prems(2) False by simp
    then have "f ?k (pre, u @ (v @ post), g) \<noteq> None" by (rule complete_forD [OF assms(1) greedy_more.hyps(1)])
    then show ?thesis by (auto simp: n(1) split: option.split)
  qed
qed

lemma reluctant_complete:
  assumes "complete_for r f" "accepts (Reluctant r) pre w post" "length (w @ post) \<le> n" "\<And>g'. k (rev w @ pre, post, g') \<noteq> None"
  shows "reluctant f n k (pre, w @ post, g) \<noteq> None"
  using assms(2-4)
proof (induction "Reluctant r" pre w post arbitrary: n g rule: accepts.induct)
  case (reluctant_stop pre post)
  then obtain y where "k (pre, post, g) = Some y" by (metis append_Nil not_None_eq rev.simps(1))
  then show ?case by (cases n) simp_all
next
  case (reluctant_more pre u v post)
  show ?case
  proof (cases "u = []")
    case True
    then show ?thesis using reluctant_more by simp
  next
    case False
    then obtain m where n: "n = Suc m" "length (v @ post) \<le> m" using reluctant_more.prems(1) by (cases n; cases u) auto
    let ?k = "\<lambda>st'. if length (fst (snd st')) < length ((u @ v) @ post) then reluctant f m k st' else None"
    have "?k (rev u @ pre, v @ post, g') \<noteq> None" for g'
      using reluctant_more.hyps(4) [OF n(2), of g'] reluctant_more.prems(2) False by simp
    then have "f ?k (pre, u @ (v @ post), g) \<noteq> None" by (rule complete_forD [OF assms(1) reluctant_more.hyps(1)])
    then show ?thesis by (auto simp: n(1) split: option.split)
  qed
qed

lemma run_complete: "complete_for r (run r)"
proof (induction r)
  case (Seqn a b)
  show ?case unfolding complete_for_def
  proof (intro allI impI)
    fix k :: "position \<Rightarrow> position option" and pre w post g
    assume "accepts (Seqn a b) pre w post" and k: "\<forall>g'. k (rev w @ pre, post, g') \<noteq> None"
    then obtain u v where w: "w = u @ v" "accepts a pre u (v @ post)" "accepts b (rev u @ pre) v post" by (auto simp: accepts_Seqn)
    have "run b k (rev u @ pre, v @ post, g') \<noteq> None" for g' using complete_forD [OF Seqn.IH(2) w(3)] k w(1) by simp
    then show "run (Seqn a b) k (pre, w @ post, g) \<noteq> None" using complete_forD [OF Seqn.IH(1) w(2)] w(1) by simp
  qed
next
  case (Altn a b)
  show ?case unfolding complete_for_def
  proof (intro allI impI)
    fix k :: "position \<Rightarrow> position option" and pre w post g
    assume "accepts (Altn a b) pre w post" and k: "\<forall>g'. k (rev w @ pre, post, g') \<noteq> None"
    then have "run a k (pre, w @ post, g) \<noteq> None \<or> run b k (pre, w @ post, g) \<noteq> None"
      using complete_forD [OF Altn.IH(1), of pre w post k g] complete_forD [OF Altn.IH(2), of pre w post k g] by auto
    then show "run (Altn a b) k (pre, w @ post, g) \<noteq> None" by (auto split: option.split)
  qed
next
  case (Greedy a)
  then show ?case unfolding complete_for_def [of "Greedy a"] using greedy_complete [OF Greedy.IH _ order_refl] by simp
next
  case (Reluctant a)
  then show ?case unfolding complete_for_def [of "Reluctant a"] using reluctant_complete [OF Reluctant.IH _ order_refl] by simp
next
  case (Group n a)
  show ?case unfolding complete_for_def
  proof (intro allI impI)
    fix k :: "position \<Rightarrow> position option" and pre w post g
    assume a: "accepts (Group n a) pre w post" and k: "\<forall>g'. k (rev w @ pre, post, g') \<noteq> None"
    show "run (Group n a) k (pre, w @ post, g) \<noteq> None"
      unfolding run.simps by (rule complete_forD [OF Group.IH]) (use a k in simp_all)
  qed
qed (auto simp: complete_for_def)

text \<open>The matcher finds a match at a position exactly when the expression accepts a text that starts
  there.\<close>

lemma run_accepts: "run r Some (pre, s, g) \<noteq> None \<longleftrightarrow> (\<exists>w post. s = w @ post \<and> accepts r pre w post)"
proof
  assume "run r Some (pre, s, g) \<noteq> None"
  then obtain x where "run r Some (pre, s, g) = Some x" by blast
  from sound_forD [OF run_sound this] show "\<exists>w post. s = w @ post \<and> accepts r pre w post" by blast
next
  assume "\<exists>w post. s = w @ post \<and> accepts r pre w post"
  then show "run r Some (pre, s, g) \<noteq> None" using complete_forD [OF run_complete] by blast
qed

lemma matches_somewhere_accepts:
  "matches_somewhere r pre s \<longleftrightarrow> (\<exists>u w post. s = u @ w @ post \<and> accepts r (rev u @ pre) w post)"
proof (induction r pre s rule: matches_somewhere.induct)
  case (1 r pre s)
  have tail: "(\<exists>u w post. s = u @ w @ post \<and> accepts r (rev u @ pre) w post) \<longleftrightarrow>
      (\<exists>w post. s = w @ post \<and> accepts r pre w post) \<or> (\<exists>c cs. s = c # cs \<and> (\<exists>u w post. cs = u @ w @ post \<and> accepts r (rev u @ c # pre) w post))" (is "?l \<longleftrightarrow> ?r")
  proof
    assume ?l
    then obtain u w post where u: "s = u @ w @ post" "accepts r (rev u @ pre) w post" by blast
    then show ?r by (cases u) auto
  next
    assume ?r
    then show ?l
    proof
      assume "\<exists>w post. s = w @ post \<and> accepts r pre w post"
      then show ?l by (metis append_Nil rev.simps(1))
    next
      assume "\<exists>c cs. s = c # cs \<and> (\<exists>u w post. cs = u @ w @ post \<and> accepts r (rev u @ c # pre) w post)"
      then obtain c u w post where "s = (c # u) @ w @ post" "accepts r (rev (c # u) @ pre) w post" by auto
      then show ?l by blast
    qed
  qed
  show ?case unfolding tail matches_somewhere.simps [of r pre s] run_accepts using 1 by (cases s) auto
qed

text \<open>\<open>MatchString\<close> decides whether some part of the text is accepted in its context.\<close>

theorem MatchString_accepts: "MatchString r s \<longleftrightarrow> (\<exists>u w post. s = u @ w @ post \<and> accepts r (rev u) w post)"
  by (simp add: MatchString_def matches_somewhere_accepts)

text \<open>Without a match, replacing changes nothing.\<close>

lemma replace_from_none: "\<not> matches_somewhere r pre s \<Longrightarrow> replace_from r f pre s = s"
proof (induction s arbitrary: pre)
  case Nil
  then have "run r Some (pre, [], \<lambda>_. []) = None" by (simp add: matches_somewhere.simps [of r pre "[]"] del: not_None_eq)
  then show ?case by (subst replace_from.simps) simp
next
  case (Cons c cs)
  then have "run r Some (pre, c # cs, \<lambda>_. []) = None" "\<not> matches_somewhere r (c # pre) cs"
    by (simp_all add: matches_somewhere.simps [of r pre "c # cs"] del: not_None_eq)
  then show ?case using Cons.IH [of "c # pre"] by (subst replace_from.simps) simp
qed

lemma ReplaceAll_none: "\<not> MatchString r s \<Longrightarrow> ReplaceAll r f s = s"
  by (simp add: MatchString_def ReplaceAll_def replace_from_none)

subsection \<open>Literals\<close>

lemma accepts_Cls_Seqn [simp]: "accepts (Seqn (Cls P) r) pre w post \<longleftrightarrow> (\<exists>c v. w = c # v \<and> P c \<and> accepts r (c # pre) v post)"
  unfolding accepts_Seqn by (auto intro: exI [of _ "[c]" for c])

lemma accepts_Lit [simp]: "accepts (Lit w) pre u post \<longleftrightarrow> u = w"
  by (induction w arbitrary: pre u) (auto simp: Lit_def)

lemma accepts_LitFold [simp]: "accepts (LitFold w) pre u post \<longleftrightarrow> ToLower u = ToLower w"
  by (induction w arbitrary: pre u) (auto simp: LitFold_def ToLower_def map_eq_Cons_conv)

lemma accepts_foldl_Altn: "accepts (foldl Altn r rs) pre w post \<longleftrightarrow> (\<exists>q\<in>set (r # rs). accepts q pre w post)"
  by (induction rs arbitrary: r) auto

lemma accepts_OneOf [simp]: "accepts (OneOf rs) pre w post \<longleftrightarrow> (\<exists>q\<in>set rs. accepts q pre w post)"
  by (cases rs) (simp_all add: OneOf_def accepts_foldl_Altn)

lemma accepts_Seqs [simp]:
  "accepts (Seqs []) pre w post \<longleftrightarrow> w = []"
  "accepts (Seqs (r # rs)) pre w post \<longleftrightarrow> accepts (Seqn r (Seqs rs)) pre w post"
  by (simp_all add: Seqs_def)

subsection \<open>Runs that are determined\<close>

lemma run_Seqs [simp]: "run (Seqs []) k = k" "run (Seqs (r # rs)) k = run r (run (Seqs rs) k)"
  by (simp_all add: Seqs_def fun_eq_iff)

lemma run_Lit [simp]: "run (Lit w) k (pre, w @ s, g) = k (rev w @ pre, s, g)"
  by (induction w arbitrary: pre) (simp_all add: Lit_def)

lemma run_Lit_other: "w \<noteq> [] \<Longrightarrow> c \<noteq> hd w \<Longrightarrow> run (Lit w) k (pre, c # s, g) = None"
  by (cases w) (simp_all add: Lit_def)

text \<open>A greedy class takes all it can when nothing in the class lets the rest go on.\<close>

lemma run_Greedy_Cls:
  assumes "list_all P xs" "\<And>pre c s g. P c \<Longrightarrow> k (pre, c # s, g) = None" "rest = [] \<or> \<not> P (hd rest)"
  shows "run (Greedy (Cls P)) k (pre, xs @ rest, g) = k (rev xs @ pre, rest, g)"
proof -
  have "greedy (run (Cls P)) n k (pre, xs @ rest, g) = k (rev xs @ pre, rest, g)" if "length (xs @ rest) \<le> n" for n
    using assms(1) that
  proof (induction xs arbitrary: pre n)
    case Nil
    then show ?case using assms(3) by (cases n; cases rest) simp_all
  next
    case (Cons x xs)
    then obtain m where "n = Suc m" by (cases n) simp_all
    then show ?case using Cons.prems Cons.IH [of m "x # pre"] assms(2) by (auto split: option.split)
  qed
  then show ?thesis by simp
qed

lemma run_Plus_Cls:
  assumes "list_all P xs" "xs \<noteq> []" "\<And>pre c s g. P c \<Longrightarrow> k (pre, c # s, g) = None" "rest = [] \<or> \<not> P (hd rest)"
  shows "run (Plus (Cls P)) k (pre, xs @ rest, g) = k (rev xs @ pre, rest, g)"
proof -
  obtain x ys where "xs = x # ys" using assms(2) by (cases xs) auto
  then show ?thesis using assms(1) run_Greedy_Cls [where P = P and xs = ys and k = k and rest = rest and pre = "x # pre" and g = g] assms(3,4) by (simp add: Plus_def del: run.simps(5))
qed

lemma accepts_Greedy_Cls [simp]: "accepts (Greedy (Cls P)) pre w post \<longleftrightarrow> list_all P w"
proof
  show "accepts (Greedy (Cls P)) pre w post \<Longrightarrow> list_all P w"
    by (induction "Greedy (Cls P)" pre w post rule: accepts.induct) auto
  show "list_all P w \<Longrightarrow> accepts (Greedy (Cls P)) pre w post"
  proof (induction w arbitrary: pre)
    case (Cons c w)
    then show ?case using accepts.greedy_more [of "Cls P" pre "[c]" w post] by simp
  qed (simp add: accepts.greedy_stop)
qed

lemma accepts_Plus_Cls [simp]: "accepts (Plus (Cls P)) pre w post \<longleftrightarrow> w \<noteq> [] \<and> list_all P w"
  by (cases w) (simp_all add: Plus_def)

lemma replace_from_match:
  "run r Some (pre, s, \<lambda>_. []) = Some (pre', s', g) \<Longrightarrow> length s' < length s \<Longrightarrow> replace_from r f pre s = f g @ replace_from r f pre' s'"
  by (subst replace_from.simps) simp

lemma replace_from_skip:
  "run r Some (pre, c # cs, \<lambda>_. []) = None \<Longrightarrow> replace_from r f pre (c # cs) = c # replace_from r f (c # pre) cs"
  by (subst replace_from.simps) simp

subsection \<open>Expressions that do not look back\<close>

fun looks_back :: "regex \<Rightarrow> bool" where
  "looks_back (Seqn a b) \<longleftrightarrow> looks_back a \<or> looks_back b"
| "looks_back (Altn a b) \<longleftrightarrow> looks_back a \<or> looks_back b"
| "looks_back (Greedy a) \<longleftrightarrow> looks_back a"
| "looks_back (Reluctant a) \<longleftrightarrow> looks_back a"
| "looks_back (Group n a) \<longleftrightarrow> looks_back a"
| "looks_back WordBoundary \<longleftrightarrow> True"
| "looks_back TextStart \<longleftrightarrow> True"
| "looks_back r \<longleftrightarrow> False"

text \<open>Two continuations, or two runs, that give the same result whatever stands before.\<close>

definition same_after :: "(position \<Rightarrow> position option) \<Rightarrow> (position \<Rightarrow> position option) \<Rightarrow> bool" where
  "same_after k l \<longleftrightarrow> (\<forall>p q s g. map_option snd (k (p, s, g)) = map_option snd (l (q, s, g)))"

lemma same_afterD: "same_after k l \<Longrightarrow> map_option snd (k (p, s, g)) = map_option snd (l (q, s, g))"
  by (simp add: same_after_def)

lemma same_after_orelse:
  "map_option snd x = map_option snd x' \<Longrightarrow> map_option snd y = map_option snd y' \<Longrightarrow>
   map_option snd (case x of Some r \<Rightarrow> Some r | None \<Rightarrow> y) = map_option snd (case x' of Some r \<Rightarrow> Some r | None \<Rightarrow> y')"
  by (cases x; cases x') auto

lemma same_after_greedy:
  assumes "\<And>k l. same_after k l \<Longrightarrow> same_after (f k) (f l)" "same_after k l"
  shows "same_after (greedy f n k) (greedy f n l)"
proof (induction n)
  case (Suc n)
  have "same_after (\<lambda>st'. if length (fst (snd st')) < m then greedy f n k st' else None) (\<lambda>st'. if length (fst (snd st')) < m then greedy f n l st' else None)" for m
    using Suc by (auto simp: same_after_def)
  from assms(1) [OF this] show ?case unfolding same_after_def greedy.simps
    by (intro allI same_after_orelse) (use assms(2) in \<open>auto simp: same_after_def\<close>)
qed (use assms(2) in simp)

lemma same_after_reluctant:
  assumes "\<And>k l. same_after k l \<Longrightarrow> same_after (f k) (f l)" "same_after k l"
  shows "same_after (reluctant f n k) (reluctant f n l)"
proof (induction n)
  case (Suc n)
  have "same_after (\<lambda>st'. if length (fst (snd st')) < m then reluctant f n k st' else None) (\<lambda>st'. if length (fst (snd st')) < m then reluctant f n l st' else None)" for m
    using Suc by (auto simp: same_after_def)
  from assms(1) [OF this] show ?case unfolding same_after_def reluctant.simps
    by (intro allI same_after_orelse) (use assms(2) in \<open>auto simp: same_after_def\<close>)
qed (use assms(2) in simp)

lemma run_same_after: "\<not> looks_back r \<Longrightarrow> same_after k l \<Longrightarrow> same_after (run r k) (run r l)"
proof (induction r arbitrary: k l)
  case (Seqn a b)
  then have "same_after (run a (run b k)) (run a (run b l))" by simp
  then show ?case by (simp add: same_after_def)
next
  case (Altn a b)
  then have "same_after (run a k) (run a l)" "same_after (run b k) (run b l)" by simp_all
  then show ?case unfolding same_after_def run.simps by (intro allI same_after_orelse) auto
next
  case (Greedy a)
  then have "same_after (greedy (run a) n k) (greedy (run a) n l)" for n by (intro same_after_greedy) simp_all
  then show ?case by (simp add: same_after_def)
next
  case (Reluctant a)
  then have "same_after (reluctant (run a) n k) (reluctant (run a) n l)" for n by (intro same_after_reluctant) simp_all
  then show ?case by (simp add: same_after_def)
next
  case (Group n a)
  have "same_after (\<lambda>(p, s', g'). k (p, s', g'(n := take (length s - length s') s))) (\<lambda>(p, s', g'). l (p, s', g'(n := take (length s - length s') s)))" for s
    using Group.prems(2) by (simp add: same_after_def)
  from Group.IH [OF _ this] Group.prems(1) show ?case by (simp add: same_after_def)
qed (auto simp: same_after_def split: list.split)

lemma replace_from_before: "\<not> looks_back r \<Longrightarrow> replace_from r f p s = replace_from r f q s"
proof (induction "length s" arbitrary: p q s rule: less_induct)
  case less
  have "same_after (run r Some) (run r Some)" using less.prems by (intro run_same_after) (simp_all add: same_after_def)
  then have e: "map_option snd (run r Some (p, s, \<lambda>_. [])) = map_option snd (run r Some (q, s, \<lambda>_. []))" by (rule same_afterD)
  have "c # replace_from r f (c # p) cs = c # replace_from r f (c # q) cs" if "s = c # cs" for c cs
    using less.hyps [of cs "c # p" "c # q"] less.prems that by simp
  moreover have "replace_from r f p' s' = replace_from r f q' s'" if "length s' < length s" for p' q' s'
    using less.hyps that less.prems by blast
  ultimately show ?case using e
    by (subst (1 2) replace_from.simps) (cases "run r Some (p, s, \<lambda>_. [])"; cases "run r Some (q, s, \<lambda>_. [])"; cases s; auto)
qed

end
