(* ===== verification/Pulse_Redact.thy ===== *)
theory Pulse_Redact
  imports Complex_Main Go_Regexp Go_Encoding "HOL-Library.Product_Lexorder" "HOL-Library.List_Lexorder" "HOL-Library.Char_ord"
begin

section \<open>What leaves the agent: redaction, snapshots, logs\<close>

text \<open>
  \<^verbatim>\<open>agent/internal/redact/redact.go\<close>, \<^verbatim>\<open>agent/internal/model/model.go\<close>, and of
  \<^verbatim>\<open>agent/internal/discovery\<close> the files \<^verbatim>\<open>engine.go\<close>, \<^verbatim>\<open>topology.go\<close> and \<^verbatim>\<open>logs.go\<close>. A detector is what
  its interface says: names, an availability, and what its run gives; a panic is a value. A Go map
  is a list of entries, a nil map the empty one.
\<close>

subsection \<open>The model\<close>

datatype attr = AStr string | AStrs "string list" | ABool bool | AInt int | AFloat rat | ANil | AArr "attr list" | AMap "(string \<times> attr) list"

record mport =
  mp_Host :: int
  mp_Container :: int
  mp_Protocol :: string
  mp_Address :: string
  mp_State :: string

record mresource =
  mr_Type :: string
  mr_ID :: string
  mr_Name :: string
  mr_Status :: string
  mr_Health :: string
  mr_Labels :: "(string \<times> string) list"
  mr_Attributes :: "(string \<times> attr) list"
  mr_Ports :: "mport list"
  mr_Networks :: "string list"
  mr_Volumes :: "string list"
  mr_DependsOn :: "string list"
  mr_DetectedBy :: string
  mr_DetectedAt :: time

record availability =
  av_Available :: bool
  av_Reason :: string

record health_check =
  hc_Name :: string
  hc_Status :: string
  hc_Detail :: string

record health_report =
  hr_Status :: string
  hr_Checks :: "health_check list"

record detector_result =
  dr_ID :: string
  dr_Name :: string
  dr_Version :: string
  dr_Available :: bool
  dr_Reason :: string
  dr_Count :: nat
  dr_DurationMS :: int
  dr_Error :: string
  dr_Health :: health_report

record topo_node =
  tn_ID :: string
  tn_Label :: string
  tn_Type :: string
  tn_Health :: string

record topo_edge =
  te_From :: string
  te_To :: string
  te_Source :: string

record topology =
  tp_Nodes :: "topo_node list"
  tp_Edges :: "topo_edge list"

record msnapshot =
  hs_InstallationID :: string
  hs_SrvID :: string
  hs_Hostname :: string
  hs_GeneratedAt :: time
  hs_DurationMS :: int
  hs_Detectors :: "detector_result list"
  hs_Resources :: "mresource list"
  hs_Topology :: "topology option"

subsection \<open>Redaction\<close>

definition Placeholder :: string where
  "Placeholder = ''***REDACTED***''"

definition re_space :: "char \<Rightarrow> bool" where
  "re_space c \<longleftrightarrow> c \<in> set [CHR 0x09, CHR 0x0A, CHR 0x0C, CHR 0x0D, CHR '' '']"

definition in_range :: "char \<Rightarrow> char \<Rightarrow> char \<Rightarrow> bool" where
  "in_range a b c \<longleftrightarrow> (of_char a :: nat) \<le> of_char c \<and> (of_char c :: nat) \<le> of_char b"

definition is_upper :: "char \<Rightarrow> bool" where "is_upper c = in_range (CHR ''A'') (CHR ''Z'') c"
definition is_alpha :: "char \<Rightarrow> bool" where "is_alpha c \<longleftrightarrow> is_upper c \<or> in_range (CHR ''a'') (CHR ''z'') c"
definition is_alnum :: "char \<Rightarrow> bool" where "is_alnum c \<longleftrightarrow> is_alpha c \<or> in_range (CHR ''0'') (CHR ''9'') c"

definition secretKey :: regex where
  "secretKey = OneOf (map LitFold [''pass'', ''password'', ''passwd'', ''secret'', ''token'', ''apikey'', ''api_key'', ''access_key'', ''accesskey'', ''private'',
     ''credential'', ''auth'', ''session'', ''salt'', ''passphrase'', ''dsn'', ''connection_string'', ''conn_str'', ''client_secret'', ''encryption'', ''signing'',
     ''jwt'', ''bearer'', ''cookie''])"

definition nonSecretAllow :: regex where
  "nonSecretAllow = Seqs [TextStart, OneOf (map LitFold [''author'', ''authority'', ''auth_method'', ''auth_type'', ''token_type'', ''tokenizer'',
     ''session_timeout'', ''session_name'', ''public_key'', ''keycloak_realm'']), TextEnd]"

definition scheme_char :: "char \<Rightarrow> bool" where "scheme_char c \<longleftrightarrow> is_alnum c \<or> c \<in> set ''+.-''"
definition user_char :: "char \<Rightarrow> bool" where "user_char c \<longleftrightarrow> c \<notin> set '':@/'' \<and> \<not> re_space c"
definition password_char :: "char \<Rightarrow> bool" where "password_char c \<longleftrightarrow> c \<notin> set ''@/'' \<and> \<not> re_space c"

definition urlCreds :: regex where
  "urlCreds = Seqs [Group 1 (Seqs [Cls is_alpha, Greedy (Cls scheme_char), Lit ''://'', Plus (Cls user_char), Lit '':'']),
     Group 2 (Plus (Cls password_char)), Group 3 (Lit ''@'')]"

definition jwt_char :: "char \<Rightarrow> bool" where "jwt_char c \<longleftrightarrow> is_alnum c \<or> c \<in> set ''_-''"

definition jwt :: regex where
  "jwt = Seqs [Lit ''eyJ'', AtLeast 5 (Cls jwt_char), Lit ''.'', AtLeast 5 (Cls jwt_char), Lit ''.'', AtLeast 5 (Cls jwt_char)]"

definition pem_type :: regex where "pem_type = Greedy (Cls (\<lambda>c. is_upper c \<or> c = CHR '' ''))"

definition pemBlock :: regex where
  "pemBlock = Seqs [Lit ''-----BEGIN '', pem_type, Lit ''PRIVATE KEY-----'', Reluctant (Cls (\<lambda>_. True)),
     Lit ''-----END '', pem_type, Lit ''PRIVATE KEY-----'']"

definition knownTokens :: regex where
  "knownTokens = Seqs [WordBoundary, Group 1 (OneOf
     [Seqs [LitFold ''sk-'', AtLeast 16 (Cls is_alnum)],
      Seqs [LitFold ''xox'', Cls (\<lambda>c. lower_char c \<in> set ''baprs''), Lit ''-'', AtLeast 10 (Cls (\<lambda>c. is_alnum c \<or> c = CHR ''-''))],
      Seqs [LitFold ''ghp_'', AtLeast 20 (Cls is_alnum)],
      Seqs [LitFold ''gho_'', AtLeast 20 (Cls is_alnum)],
      Seqs [LitFold ''github_pat_'', AtLeast 20 (Cls is_word)],
      Seqs [LitFold ''AKIA'', Times 16 (Cls is_alnum)],
      Seqs [LitFold ''ASIA'', Times 16 (Cls is_alnum)],
      Seqs [LitFold ''AIza'', AtLeast 20 (Cls jwt_char)],
      Seqs [LitFold ''glpat-'', AtLeast 16 (Cls jwt_char)]]), WordBoundary]"

definition value_char :: "char \<Rightarrow> bool" where "value_char c \<longleftrightarrow> \<not> re_space c \<and> c \<noteq> CHR 0x22 \<and> c \<noteq> CHR 0x27"

definition inlineAssign :: regex where
  "inlineAssign = Seqs [WordBoundary,
     Group 1 (Seqs [Greedy (Cls is_word), OneOf (map LitFold [''pass'', ''password'', ''secret'', ''token'', ''apikey'', ''api_key'', ''access_key'', ''private_key'',
       ''credential'', ''passphrase'', ''client_secret'']), Greedy (Cls is_word)]),
     Group 2 (Seqs [Greedy (Cls re_space), Cls (\<lambda>c. c \<in> set '':=''), Greedy (Cls re_space)]),
     Group 3 (Opt (Cls (\<lambda>c. c = CHR 0x22))), Group 4 (Plus (Cls value_char)), Group 5 (Opt (Cls (\<lambda>c. c = CHR 0x22)))]"

definition redact_String :: "string \<Rightarrow> string" where
  "redact_String s =
     (if s = [] then s
      else let s1 = ReplaceAll pemBlock (\<lambda>_. Placeholder) s;
               s2 = ReplaceAll urlCreds (\<lambda>g. g 1 @ Placeholder @ g 3) s1;
               s3 = ReplaceAll jwt (\<lambda>_. Placeholder) s2;
               s4 = ReplaceAll knownTokens (\<lambda>_. Placeholder) s3
           in ReplaceAll inlineAssign (\<lambda>g. g 1 @ g 2 @ g 3 @ Placeholder @ g 5) s4)"

definition secret_name :: "string \<Rightarrow> bool" where
  "secret_name key = (let k = TrimSpace key in MatchString secretKey k \<and> \<not> MatchString nonSecretAllow k)"

definition KeyValue :: "string \<Rightarrow> string \<Rightarrow> string" where
  "KeyValue key value = (if secret_name key then Placeholder else redact_String value)"

definition EnvSlice :: "string list \<Rightarrow> string list" where
  "EnvSlice env = map (\<lambda>e. case Cut e (CHR ''='') of
     (k, v, True) \<Rightarrow> k @ ''='' @ KeyValue k v | _ \<Rightarrow> redact_String e) env"

definition redact_Map :: "(string \<times> string) list \<Rightarrow> (string \<times> string) list" where
  "redact_Map m = map (\<lambda>(k, v). (k, KeyValue k v)) m"

fun redact_Any :: "attr \<Rightarrow> attr" where
  "redact_Any (AStr s) = AStr (redact_String s)"
| "redact_Any (AMap m) = AMap (map (\<lambda>(k, v). (k, case v of AStr s \<Rightarrow> AStr (KeyValue k s) | _ \<Rightarrow> redact_Any v)) m)"
| "redact_Any (AArr xs) = AArr (map redact_Any xs)"
| "redact_Any (AStrs ss) = AStrs (map redact_String ss)"
| "redact_Any v = v"

definition redact_entry :: "string \<times> attr \<Rightarrow> string \<times> attr" where
  "redact_entry e = (case e of (k, v) \<Rightarrow> (k, case v of AStr s \<Rightarrow> AStr (KeyValue k s) | _ \<Rightarrow> redact_Any v))"

definition redact_Resource :: "mresource \<Rightarrow> mresource" where
  "redact_Resource r = r\<lparr>mr_Name := redact_String (mr_Name r), mr_Labels := redact_Map (mr_Labels r),
     mr_Attributes := map redact_entry (mr_Attributes r), mr_Volumes := map redact_String (mr_Volumes r)\<rparr>"

definition redact_Snapshot :: "msnapshot \<Rightarrow> msnapshot" where
  "redact_Snapshot s = s\<lparr>hs_Resources := map redact_Resource (hs_Resources s)\<rparr>"

subsection \<open>The topology\<close>

definition addNode :: "string \<Rightarrow> string \<Rightarrow> string \<Rightarrow> string \<Rightarrow> topology \<Rightarrow> topology" where
  "addNode nid label typ health t =
     (if nid = [] \<or> nid \<in> tn_ID ` set (tp_Nodes t) then t
      else t\<lparr>tp_Nodes := tp_Nodes t @ [\<lparr>tn_ID = nid, tn_Label = label, tn_Type = typ, tn_Health = health\<rparr>]\<rparr>)"

definition addEdge :: "string \<Rightarrow> string \<Rightarrow> string \<Rightarrow> topology \<Rightarrow> topology" where
  "addEdge frm to source t =
     (if frm = [] \<or> to = [] \<or> frm = to then t
      else t\<lparr>tp_Edges := tp_Edges t @ [\<lparr>te_From = frm, te_To = to, te_Source = source\<rparr>]\<rparr>)"

definition proxy_types :: "string list" where
  "proxy_types = [''nginx_vhost'', ''apache_vhost'', ''caddy_site'', ''traefik_router'', ''reverse_proxy'']"

definition attr_of :: "string \<Rightarrow> (string \<times> attr) list \<Rightarrow> attr" where
  "attr_of k m = (case map_of m k of None \<Rightarrow> ANil | Some v \<Rightarrow> v)"

definition strings_of :: "attr \<Rightarrow> string list" where
  "strings_of v = (case v of AStrs ss \<Rightarrow> ss | _ \<Rightarrow> [])"

definition add_upstream :: "string \<Rightarrow> string \<Rightarrow> topology \<Rightarrow> topology" where
  "add_upstream node u t = addEdge node (''upstream:'' @ u) ''nginx_upstream'' (addNode (''upstream:'' @ u) u ''upstream'' [] t)"

definition add_network :: "string \<Rightarrow> string \<Rightarrow> topology \<Rightarrow> topology" where
  "add_network node n t = addEdge node (''network:'' @ n) ''docker_network'' (addNode (''network:'' @ n) n ''network'' [] t)"

definition add_dependency :: "string \<Rightarrow> string \<Rightarrow> topology \<Rightarrow> topology" where
  "add_dependency node dep t = addEdge node (''container:'' @ dep) ''compose'' t"

definition add_resource :: "mresource \<Rightarrow> topology \<Rightarrow> topology" where
  "add_resource r t =
     (if mr_Type r \<in> set proxy_types then
        let node = ''proxy:'' @ mr_Name r;
            t1 = addEdge ''internet'' node ''reverse_proxy'' (addNode node (mr_Name r) ''reverse_proxy'' (mr_Health r) t)
        in fold (add_upstream node) (strings_of (attr_of ''upstreams'' (mr_Attributes r))) t1
      else if mr_Type r = ''docker_container'' then
        let node = ''container:'' @ mr_Name r; t1 = addNode node (mr_Name r) ''container'' (mr_Health r) t
        in fold (add_dependency node) (mr_DependsOn r) (fold (add_network node) (mr_Networks r) t1)
      else if mr_Type r = ''database'' then addNode (''db:'' @ mr_Name r) (mr_Name r) ''database'' (mr_Health r) t
      else t)"

definition BuildTopology :: "mresource list \<Rightarrow> topology option" where
  "BuildTopology resources =
     (let t0 = \<lparr>tp_Nodes = [], tp_Edges = []\<rparr>;
          t1 = (if list_ex (\<lambda>r. mr_Type r \<in> set proxy_types) resources then addNode ''internet'' ''Internet'' ''internet'' [] t0 else t0);
          t2 = fold add_resource resources t1;
          t3 = \<lparr>tp_Nodes = sort_key tn_ID (tp_Nodes t2), tp_Edges = sort_key (\<lambda>e. (te_From e, te_To e)) (tp_Edges t2)\<rparr>
      in if tp_Nodes t3 = [] then None else Some t3)"

subsection \<open>The engine\<close>

datatype 'a outcome = Returned 'a | Panicked string

record detector =
  det_ID :: string
  det_Name :: string
  det_Version :: string
  det_Available :: "availability outcome"
  det_Detect :: "(mresource list \<times> string option) outcome"
  det_Health :: "health_report outcome"

abbreviation unknown_health :: health_report where
  "unknown_health \<equiv> \<lparr>hr_Status = ''UNKNOWN'', hr_Checks = []\<rparr>"

definition recovered :: "string \<Rightarrow> int \<Rightarrow> detector_result \<Rightarrow> detector_result" where
  "recovered msg dur res = res\<lparr>dr_Error := ''panic: '' @ msg, dr_Available := False, dr_Health := unknown_health, dr_DurationMS := dur\<rparr>"

definition runDetector :: "int \<Rightarrow> detector \<Rightarrow> detector_result \<times> mresource list" where
  "runDetector dur d =
     (let res = \<lparr>dr_ID = det_ID d, dr_Name = det_Name d, dr_Version = det_Version d, dr_Available = False, dr_Reason = [], dr_Count = 0,
          dr_DurationMS = 0, dr_Error = [], dr_Health = \<lparr>hr_Status = [], hr_Checks = []\<rparr>\<rparr>
      in case det_Available d of
           Panicked msg \<Rightarrow> (recovered msg dur res, [])
         | Returned av \<Rightarrow>
             let res1 = res\<lparr>dr_Available := av_Available av, dr_Reason := av_Reason av\<rparr> in
             if \<not> av_Available av then (res1\<lparr>dr_Health := unknown_health, dr_DurationMS := dur\<rparr>, [])
             else (case det_Detect d of
                 Panicked msg \<Rightarrow> (recovered msg dur res1, [])
               | Returned (resources, err) \<Rightarrow>
                   let res2 = res1\<lparr>dr_Error := (case err of None \<Rightarrow> [] | Some e \<Rightarrow> e), dr_Count := length resources\<rparr> in
                   (case det_Health d of
                      Panicked msg \<Rightarrow> (recovered msg dur res2, [])
                    | Returned h \<Rightarrow> (res2\<lparr>dr_Health := h, dr_DurationMS := dur\<rparr>, resources))))"

text \<open>\<open>dur\<close> gives the milliseconds each detector took, \<open>took\<close> those of the whole run.\<close>

record engine =
  en_detectors :: "detector list"
  en_installationID :: string
  en_serverID :: string

definition engine_Run :: "string \<Rightarrow> time \<Rightarrow> (nat \<Rightarrow> int) \<Rightarrow> int \<Rightarrow> engine \<Rightarrow> msnapshot" where
  "engine_Run hostname now dur took e =
     (let results = map (\<lambda>(i, d). runDetector (dur i) d) (enumerate 0 (en_detectors e));
          resources = sort_key (\<lambda>r. (mr_Type r, mr_Name r)) (concat (map snd results))
      in redact_Snapshot \<lparr>hs_InstallationID = en_installationID e, hs_SrvID = en_serverID e, hs_Hostname = hostname, hs_GeneratedAt = now,
           hs_DurationMS = took, hs_Detectors = sort_key dr_ID (map fst results), hs_Resources = resources, hs_Topology = BuildTopology resources\<rparr>)"

subsection \<open>Container logs\<close>

record agent_log =
  al_Source :: string
  al_Stream :: string
  al_Time :: string
  al_Message :: string

definition containerName :: "string list \<Rightarrow> string" where
  "containerName names = (case names of [] \<Rightarrow> ''unknown'' | n # _ \<Rightarrow> TrimPrefix n ''/'')"

definition byte_at :: "string \<Rightarrow> nat \<Rightarrow> nat" where
  "byte_at s i = of_char (s ! i)"

definition uint32_at :: "string \<Rightarrow> nat \<Rightarrow> nat" where
  "uint32_at s i = ((byte_at s i * 256 + byte_at s (i + 1)) * 256 + byte_at s (i + 2)) * 256 + byte_at s (i + 3)"

definition payload_lines :: "string \<Rightarrow> string list" where
  "payload_lines s = filter (\<lambda>l. l \<noteq> []) (Split (rev (dropWhile (\<lambda>c. c = CHR 0x0A) (rev s))) (CHR 0x0A))"

definition frame_header :: "string \<Rightarrow> bool" where
  "frame_header s \<longleftrightarrow> 8 \<le> length s \<and> (byte_at s 0 = 1 \<or> byte_at s 0 = 2) \<and> byte_at s 1 = 0 \<and> byte_at s 2 = 0 \<and> byte_at s 3 = 0"

text \<open>The frames at the start of the data; the loop stops at the first that is not whole.\<close>

function demux_frames :: "string \<Rightarrow> (string \<times> string) list" where
  "demux_frames s =
     (if \<not> frame_header s then []
      else let size = uint32_at s 4 in
        if size = 0 \<or> length s < 8 + size then []
        else map (\<lambda>l. (if byte_at s 0 = 2 then ''stderr'' else ''stdout'', l)) (payload_lines (take size (drop 8 s))) @ demux_frames (drop (8 + size) s))"
  by pat_completeness auto
termination
  by (relation "measure length") (auto simp: frame_header_def)

declare demux_frames.simps [simp del]

definition demuxDockerLog :: "string \<Rightarrow> (string \<times> string) list" where
  "demuxDockerLog s = (if frame_header s then demux_frames s else map (\<lambda>l. (''stdout'', l)) (payload_lines s))"

definition count_char :: "char \<Rightarrow> string \<Rightarrow> nat" where
  "count_char c s = length (filter (\<lambda>d. d = c) s)"

definition splitLogTimestamp :: "string \<Rightarrow> string \<times> string" where
  "splitLogTimestamp line =
     (case Cut line (CHR '' '') of
        (cand, rest, ok) \<Rightarrow>
          if ok \<and> cand \<noteq> [] \<and> CHR ''T'' \<in> set cand \<and> (HasSuffix cand ''Z'' \<or> CHR ''+'' \<in> set cand \<or> 2 \<le> count_char (CHR '':'') cand)
          then (cand, rest) else ([], line))"

text \<open>The Docker client is two functions: the containers with their state, names and identifier, and the
  log bytes of one of them.\<close>

definition container_logs :: "(string \<Rightarrow> string option) \<Rightarrow> string \<times> string list \<times> string \<Rightarrow> agent_log list" where
  "container_logs logs ct =
     (case ct of (state, names, cid) \<Rightarrow>
        if state \<noteq> ''running'' then []
        else case logs cid of
            None \<Rightarrow> []
          | Some raw \<Rightarrow> map (\<lambda>(stream, text). case splitLogTimestamp text of (ts, msg) \<Rightarrow>
              \<lparr>al_Source = containerName names, al_Stream = stream, al_Time = ts, al_Message = msg\<rparr>) (demuxDockerLog raw))"

definition CollectContainerLogs :: "(string \<times> string list \<times> string) list option \<Rightarrow> (string \<Rightarrow> string option) \<Rightarrow> agent_log list" where
  "CollectContainerLogs containers logs = (case containers of None \<Rightarrow> [] | Some cs \<Rightarrow> concat (map (container_logs logs) cs))"

end
