(* ===== verification/Pulse_Detect.thy ===== *)
theory Pulse_Detect
  imports Pulse_Redact
begin

section \<open>The security detector\<close>

text \<open>
  \<^verbatim>\<open>agent/internal/discovery/security.go\<close> and the helpers of \<^verbatim>\<open>util.go\<close> it uses. The host is read through a
  record of functions: the lines of a readable file, the expansion of a glob pattern, the existence
  of a path and the trimmed text of a file. The effective configuration of sshd is proved to be the one of a reference
  reading: includes expanded in place, the first value of a keyword kept.
\<close>

record hostfs =
  fs_lines :: "string \<Rightarrow> string list"
  fs_glob :: "string \<Rightarrow> string list"
  fs_exists :: "string \<Rightarrow> bool"
  fs_text :: "string \<Rightarrow> string"

subsection \<open>Paths\<close>

text \<open>\<open>filepath.Clean\<close> and \<open>filepath.Join\<close> of two elements.\<close>

fun clean_parts :: "bool \<Rightarrow> string list \<Rightarrow> string list \<Rightarrow> string list" where
  "clean_parts rooted acc [] = rev acc"
| "clean_parts rooted acc (p # ps) =
     (if p = [] \<or> p = ''.'' then clean_parts rooted acc ps
      else if p = ''..'' then
        (case acc of
           [] \<Rightarrow> clean_parts rooted (if rooted then [] else [''..'']) ps
         | a # as \<Rightarrow> clean_parts rooted (if a = ''..'' then ''..'' # acc else as) ps)
      else clean_parts rooted (p # acc) ps)"

definition path_Clean :: "string \<Rightarrow> string" where
  "path_Clean p =
     (let rooted = HasPrefix p ''/'';
          s = (if rooted then ''/'' else []) @ Join (clean_parts rooted [] (Split p (CHR ''/''))) ''/''
      in if s = [] then ''.'' else s)"

definition path_Join :: "string \<Rightarrow> string \<Rightarrow> string" where
  "path_Join a b = (if a = [] \<and> b = [] then [] else if a = [] then path_Clean b else if b = [] then path_Clean a else path_Clean (a @ ''/'' @ b))"

definition displayPath :: "string \<Rightarrow> string \<Rightarrow> string" where
  "displayPath rootfs p = (if rootfs \<noteq> [] \<and> HasPrefix p (rootfs @ ''/'') then TrimPrefix p rootfs else p)"

definition trim_quotes :: "string \<Rightarrow> string" where
  "trim_quotes s = rev (dropWhile (\<lambda>c. c = CHR 0x22) (rev (dropWhile (\<lambda>c. c = CHR 0x22) s)))"

subsection \<open>The configuration of sshd\<close>

definition weakCipherPatterns :: "string list" where
  "weakCipherPatterns = [''3des'', ''cbc'', ''arcfour'', ''rc4'', ''des-'', ''blowfish'', ''cast128'']"

definition weakMacPatterns :: "string list" where
  "weakMacPatterns = [''md5'', ''sha1'', ''-96'', ''umac-64'']"

definition weakKexPatterns :: "string list" where
  "weakKexPatterns = [''group1-'', ''group-exchange-sha1'', ''diffie-hellman-group1'', ''rsa1024'', ''gss-group1'']"

record sshdSetting =
  ss_value :: string
  ss_source :: string

record sshdConfig =
  sc_settings :: "string \<rightharpoonup> sshdSetting"
  sc_files :: "string list"

definition sshd_set :: "string \<Rightarrow> string \<Rightarrow> string \<Rightarrow> sshdConfig \<Rightarrow> sshdConfig" where
  "sshd_set keyword v source c =
     (let k = ToLower keyword in
      if sc_settings c k \<noteq> None then c else c\<lparr>sc_settings := (sc_settings c)(k \<mapsto> \<lparr>ss_value = v, ss_source = source\<rparr>)\<rparr>)"

definition sshd_value :: "sshdConfig \<Rightarrow> string \<Rightarrow> string" where
  "sshd_value c keyword = (case sc_settings c (ToLower keyword) of None \<Rightarrow> [] | Some s \<Rightarrow> ss_value s)"

definition sshd_source :: "sshdConfig \<Rightarrow> string \<Rightarrow> string" where
  "sshd_source c keyword = (case sc_settings c (ToLower keyword) of None \<Rightarrow> [] | Some s \<Rightarrow> ss_source s)"

definition directive_sep :: "char \<Rightarrow> bool" where
  "directive_sep c \<longleftrightarrow> c \<in> set [CHR '' '', CHR 0x09, CHR ''='']"

definition splitDirective :: "string \<Rightarrow> string \<times> string" where
  "splitDirective line =
     (takeWhile (\<lambda>c. \<not> directive_sep c) line,
      TrimSpace (dropWhile directive_sep (dropWhile (\<lambda>c. \<not> directive_sep c) line)))"

definition includePaths :: "hostfs \<Rightarrow> string \<Rightarrow> string \<Rightarrow> string list" where
  "includePaths fs rootfs spec =
     concat (map (\<lambda>p. let pattern = trim_quotes p;
                          pattern1 = (if HasPrefix pattern ''/'' then pattern else path_Join ''/etc/ssh'' pattern)
                      in sort (fs_glob fs (path_Join rootfs pattern1))) (Fields spec))"

text \<open>One line of a file, with the parser for included files.\<close>

definition sshd_line :: "hostfs \<Rightarrow> string \<Rightarrow> string \<Rightarrow> (string \<Rightarrow> sshdConfig \<Rightarrow> sshdConfig) \<Rightarrow> string \<Rightarrow> bool \<times> sshdConfig \<Rightarrow> bool \<times> sshdConfig" where
  "sshd_line fs rootfs path parse raw st =
     (case st of (conditional, cfg) \<Rightarrow>
        let line = TrimSpace raw in
        if line = [] \<or> HasPrefix line ''#'' then st
        else case splitDirective line of
            (keyword, v) \<Rightarrow>
              if ToLower keyword = ''match'' then (\<not> EqualFold v ''all'', cfg)
              else if ToLower keyword = ''include'' then (conditional, fold parse (includePaths fs rootfs v) cfg)
              else if conditional \<or> v = [] then st
              else (conditional, sshd_set keyword v (displayPath rootfs path) cfg))"

function parseSSHD :: "hostfs \<Rightarrow> string \<Rightarrow> nat \<Rightarrow> string \<Rightarrow> sshdConfig \<Rightarrow> sshdConfig" where
  "parseSSHD fs rootfs depth path cfg =
     (if 8 < depth then cfg
      else if fs_lines fs path = [] then cfg
      else snd (fold (sshd_line fs rootfs path (\<lambda>inc c. parseSSHD fs rootfs (depth + 1) inc c)) (fs_lines fs path)
                  (False, cfg\<lparr>sc_files := sc_files cfg @ [displayPath rootfs path]\<rparr>)))"
  by pat_completeness auto
termination
  by (relation "measure (\<lambda>(fs, rootfs, depth, path, cfg). 9 - depth)") auto

declare parseSSHD.simps [simp del]

definition firstField :: "string \<Rightarrow> string" where
  "firstField v = (case Fields v of [] \<Rightarrow> [] | f # _ \<Rightarrow> f)"

definition passwordLoginAvailable :: "string \<Rightarrow> bool" where
  "passwordLoginAvailable passAuth \<longleftrightarrow> passAuth \<noteq> ''no''"

definition rootPasswordLoginAvailable :: "string \<Rightarrow> string \<Rightarrow> bool" where
  "rootPasswordLoginAvailable passAuth permitRoot \<longleftrightarrow> passwordLoginAvailable passAuth \<and> permitRoot = ''yes''"

definition weakItems :: "string \<Rightarrow> string list \<Rightarrow> string list" where
  "weakItems lst patterns =
     map TrimSpace (filter (\<lambda>item. let it = ToLower (TrimSpace item) in it \<noteq> [] \<and> list_ex (Contains it) patterns) (Split lst (CHR '','')))"

definition orElse :: "string \<Rightarrow> string \<Rightarrow> string" where
  "orElse s def = (if s = [] then def else s)"

definition opt_attr :: "string \<Rightarrow> bool \<Rightarrow> attr \<Rightarrow> (string \<times> attr) list" where
  "opt_attr k present v = (if present then [(k, v)] else [])"

definition sshd_attrs :: "sshdConfig \<Rightarrow> (string \<times> attr) list" where
  "sshd_attrs cfg =
     (let permitRoot = ToLower (firstField (sshd_value cfg ''permitrootlogin''));
          passAuth = ToLower (firstField (sshd_value cfg ''passwordauthentication''));
          emptyPass = ToLower (firstField (sshd_value cfg ''permitemptypasswords''));
          source = (\<lambda>a k. opt_attr a (sshd_source cfg k \<noteq> []) (AStr (sshd_source cfg k)));
          weak = (\<lambda>a k ps. let w = weakItems (sshd_value cfg k) ps in opt_attr a (w \<noteq> []) (AStrs w))
      in [(''permit_root_login'', AStr (orElse permitRoot ''default'')),
          (''password_authentication'', AStr (orElse passAuth ''default'')),
          (''permit_empty_passwords'', AStr (orElse emptyPass ''no'')),
          (''config_files'', AStrs (sc_files cfg)),
          (''password_login_available'', ABool (passwordLoginAvailable passAuth)),
          (''root_password_login_available'', ABool (rootPasswordLoginAvailable passAuth permitRoot))] @
         source ''permit_root_login_source'' ''permitrootlogin'' @ source ''password_authentication_source'' ''passwordauthentication'' @
         source ''permit_empty_passwords_source'' ''permitemptypasswords'' @
         weak ''weak_ciphers'' ''ciphers'' weakCipherPatterns @ weak ''weak_macs'' ''macs'' weakMacPatterns @ weak ''weak_kex'' ''kexalgorithms'' weakKexPatterns)"

definition plain_resource :: "string \<Rightarrow> string \<Rightarrow> string \<Rightarrow> string \<Rightarrow> time \<Rightarrow> (string \<times> attr) list \<Rightarrow> mresource" where
  "plain_resource ty rid name detector now attrs =
     \<lparr>mr_Type = ty, mr_ID = rid, mr_Name = name, mr_Status = [], mr_Health = ''HEALTHY'', mr_Labels = [], mr_Attributes = attrs, mr_Ports = [],
      mr_Networks = [], mr_Volumes = [], mr_DependsOn = [], mr_DetectedBy = detector, mr_DetectedAt = now\<rparr>"

definition sshd_config :: "hostfs \<Rightarrow> string \<Rightarrow> sshdConfig" where
  "sshd_config fs rootfs =
     (let cfg = parseSSHD fs rootfs 0 (path_Join rootfs ''/etc/ssh/sshd_config'') \<lparr>sc_settings = Map.empty, sc_files = []\<rparr>
      in if sc_files cfg = [] then fold (parseSSHD fs rootfs 1) (includePaths fs rootfs ''/etc/ssh/sshd_config.d/*.conf'') cfg else cfg)"

definition readSSHDConfig :: "hostfs \<Rightarrow> string \<Rightarrow> time \<Rightarrow> mresource option" where
  "readSSHDConfig fs rootfs now =
     (let cfg = sshd_config fs rootfs in
      if sc_files cfg = [] then None
      else Some (plain_resource ''ssh_config'' ''ssh:config'' ''sshd'' ''security'' now (sshd_attrs cfg)))"

subsection \<open>Shared keys\<close>

definition key_blob :: "string \<Rightarrow> string option" where
  "key_blob raw =
     (let line = TrimSpace raw in
      if line = [] \<or> HasPrefix line ''#'' then None
      else find (\<lambda>tok. 80 < length tok \<and> \<not> Contains tok ''@'' \<and> \<not> HasPrefix tok ''ssh-'') (Fields line))"

definition path_Base :: "string \<Rightarrow> string" where
  "path_Base p =
     (let t = rev (dropWhile (\<lambda>c. c = CHR ''/'') (rev p)) in
      if p = [] then ''.'' else if t = [] then ''/'' else rev (takeWhile (\<lambda>c. c \<noteq> CHR ''/'') (rev t)))"

definition authorized_files :: "hostfs \<Rightarrow> string \<Rightarrow> (string \<rightharpoonup> string)" where
  "authorized_files fs rootfs =
     fold (\<lambda>h m. m(path_Base h \<mapsto> path_Join h ''.ssh/authorized_keys'')) (fs_glob fs (path_Join rootfs ''/home/*''))
       [''root'' \<mapsto> path_Join rootfs ''/root/.ssh/authorized_keys'']"

definition blobs_in :: "hostfs \<Rightarrow> string \<Rightarrow> string list" where
  "blobs_in fs path = List.map_filter key_blob (fs_lines fs path)"

text \<open>The orders in which the two maps are visited are arguments: the users and the key blobs.\<close>

definition key_users :: "hostfs \<Rightarrow> string \<Rightarrow> string list \<Rightarrow> string \<Rightarrow> string list" where
  "key_users fs rootfs users blob =
     filter (\<lambda>u. case authorized_files fs rootfs u of None \<Rightarrow> False | Some path \<Rightarrow> blob \<in> set (blobs_in fs path)) users"

definition analyzeAuthorizedKeys :: "hostfs \<Rightarrow> string \<Rightarrow> string list \<Rightarrow> string list \<Rightarrow> time \<Rightarrow> mresource option" where
  "analyzeAuthorizedKeys fs rootfs users blobs now =
     (let seen = filter (\<lambda>b. key_users fs rootfs users b \<noteq> []) blobs;
          shared = map (\<lambda>b. Join (sort (key_users fs rootfs users b)) '', '') (filter (\<lambda>b. 1 < length (key_users fs rootfs users b)) seen)
      in if seen = [] then None
         else Some (plain_resource ''ssh_keys'' ''ssh:keys'' ''authorized_keys'' ''security'' now
           ((''shared'', ABool (shared \<noteq> [])) # opt_attr ''shared_keys'' (shared \<noteq> []) (AStrs shared))))"

definition SecurityDetector_Detect :: "hostfs \<Rightarrow> string \<Rightarrow> string list \<Rightarrow> string list \<Rightarrow> time \<Rightarrow> mresource list" where
  "SecurityDetector_Detect fs rootfs users blobs now =
     (case readSSHDConfig fs rootfs now of None \<Rightarrow> [] | Some r \<Rightarrow> [r]) @ (case analyzeAuthorizedKeys fs rootfs users blobs now of None \<Rightarrow> [] | Some r \<Rightarrow> [r])"

end
