(* ===== verification/Pulse_Redact_Props.thy ===== *)
theory Pulse_Redact_Props
  imports Pulse_Redact "HOL-Library.Multiset"
begin

section \<open>What the agent keeps to itself\<close>

text \<open>
  A secret that stands under a secret-looking name has no influence on the snapshot that is sent; the
  password of a connection string has none on the redacted text. A failing detector loses its own
  resources only; the topology has exactly the edges the resources back. Container log lines are
  sent as they are.
\<close>

subsection \<open>Secret names\<close>

text \<open>Every string under a secret name is emptied, at every depth.\<close>

definition erase_value :: "string \<Rightarrow> string \<Rightarrow> string" where
  "erase_value k v = (if secret_name k then [] else v)"

fun erase_any :: "attr \<Rightarrow> attr" where
  "erase_any (AMap m) = AMap (map (\<lambda>(k, v). (k, case v of AStr s \<Rightarrow> AStr (erase_value k s) | _ \<Rightarrow> erase_any v)) m)"
| "erase_any (AArr xs) = AArr (map erase_any xs)"
| "erase_any v = v"

definition erase_entry :: "string \<times> attr \<Rightarrow> string \<times> attr" where
  "erase_entry e = (case e of (k, v) \<Rightarrow> (k, case v of AStr s \<Rightarrow> AStr (erase_value k s) | _ \<Rightarrow> erase_any v))"

definition erase_resource :: "mresource \<Rightarrow> mresource" where
  "erase_resource r = r\<lparr>mr_Labels := map (\<lambda>(k, v). (k, erase_value k v)) (mr_Labels r), mr_Attributes := map erase_entry (mr_Attributes r)\<rparr>"

definition erase_detector :: "detector \<Rightarrow> detector" where
  "erase_detector d = d\<lparr>det_Detect := (case det_Detect d of Returned (rs, err) \<Rightarrow> Returned (map erase_resource rs, err) | Panicked m \<Rightarrow> Panicked m)\<rparr>"

lemma KeyValue_erase [simp]: "KeyValue k (erase_value k v) = KeyValue k v"
  by (simp add: KeyValue_def erase_value_def)

lemma redact_Any_erase [simp]: "redact_Any (erase_any v) = redact_Any v"
proof (induction v rule: erase_any.induct)
  case (1 m)
  have "(case (case v of AStr s \<Rightarrow> AStr (erase_value k s) | _ \<Rightarrow> erase_any v) of AStr s \<Rightarrow> AStr (KeyValue k s) | _ \<Rightarrow> redact_Any (case v of AStr s \<Rightarrow> AStr (erase_value k s) | _ \<Rightarrow> erase_any v)) =
      (case v of AStr s \<Rightarrow> AStr (KeyValue k s) | _ \<Rightarrow> redact_Any v)" if "(k, v) \<in> set m" for k v
    using 1 [OF that refl] by (cases v) simp_all
  then show ?case by (auto simp: comp_def split: prod.split)
qed simp_all

lemma redact_entry_erase [simp]: "redact_entry (erase_entry e) = redact_entry e"
proof (cases e)
  case (Pair k v)
  then show ?thesis using redact_Any_erase [of v] by (cases v) (simp_all add: redact_entry_def erase_entry_def)
qed

lemma redact_Resource_erase [simp]: "redact_Resource (erase_resource r) = redact_Resource r"
  by (simp add: redact_Resource_def erase_resource_def redact_Map_def comp_def case_prod_beta)

lemma erase_resource_simps [simp]:
  "mr_Type (erase_resource r) = mr_Type r" "mr_Name (erase_resource r) = mr_Name r" "mr_Health (erase_resource r) = mr_Health r"
  "mr_Networks (erase_resource r) = mr_Networks r" "mr_DependsOn (erase_resource r) = mr_DependsOn r"
  by (simp_all add: erase_resource_def)

lemma fst_erase_entry [simp]: "fst (erase_entry e) = fst e"
  by (simp add: erase_entry_def case_prod_beta)

lemma strings_erase_entry [simp]: "strings_of (snd (erase_entry e)) = strings_of (snd e)"
  by (cases e; cases "snd e") (simp_all add: erase_entry_def strings_of_def)

lemma strings_of_erase [simp]: "strings_of (attr_of k (mr_Attributes (erase_resource r))) = strings_of (attr_of k (mr_Attributes r))"
proof -
  have "strings_of (attr_of k (map erase_entry m)) = strings_of (attr_of k m)" for m
    by (induction m) (auto simp: attr_of_def case_prod_beta map_of_Cons_code split: prod.split)
  then show ?thesis by (simp add: erase_resource_def)
qed

lemma sort_key_map: "(\<And>x. f (g x) = f x) \<Longrightarrow> sort_key f (map g xs) = map g (sort_key f xs)"
proof (induction xs)
  case (Cons x xs)
  have "insort_key f (g x) (map g ys) = map g (insort_key f x ys)" for ys by (induction ys) (simp_all add: Cons.prems)
  then show ?case using Cons by simp
qed simp

lemma sort_key_Nil: "sort_key f xs = [] \<longleftrightarrow> xs = []"
  by (metis length_0_conv length_sort)

lemma add_resource_erase [simp]: "add_resource (erase_resource r) = add_resource r"
  by (simp add: add_resource_def fun_eq_iff)

lemma BuildTopology_erase: "BuildTopology (map erase_resource rs) = BuildTopology rs"
  by (simp add: BuildTopology_def fold_map comp_def list_ex_iff)

lemma runDetector_erase: "runDetector dur (erase_detector d) = (case runDetector dur d of (res, rs) \<Rightarrow> (res, map erase_resource rs))"
  by (cases "det_Available d"; cases "det_Detect d"; cases "det_Health d")
    (auto simp: runDetector_def erase_detector_def Let_def split: prod.split)


subsection \<open>Connection strings\<close>

lemma scheme_char_not_colon: "scheme_char c \<Longrightarrow> c \<noteq> CHR '':''" "is_alpha c \<Longrightarrow> scheme_char c"
  by (auto simp: scheme_char_def is_alnum_def is_alpha_def is_upper_def in_range_def)

lemma take_before: "take (length (a @ b) - length b) (a @ b) = a"
  by simp

lemma run_urlCreds:
  assumes "is_alpha c" "list_all scheme_char sc" "list_all user_char user" "user \<noteq> []" "list_all password_char pw" "pw \<noteq> []"
  shows "\<exists>pre' g. run urlCreds Some (pre, (c # sc) @ ''://'' @ user @ '':'' @ pw @ ''@'' @ rest, \<lambda>_. []) = Some (pre', rest, g) \<and>
    pre' = rev ((c # sc) @ ''://'' @ user @ '':'' @ pw @ ''@'') @ pre \<and> g 1 = (c # sc) @ ''://'' @ user @ '':'' \<and> g 3 = ''@''"
proof -
  let ?tail = "''@'' @ rest"
  define K3 where "K3 = (run (Seqs [Group 3 (Lit ''@'')]) Some)"
  define K2 where "K2 = run (Seqs [Group 2 (Plus (Cls password_char)), Group 3 (Lit ''@'')]) Some"
  let ?all = "(c # sc) @ ''://'' @ user @ '':'' @ pw @ ?tail"
  let ?K1 = "\<lambda>(pre', rest', g'). K2 (pre', rest', g'(1 := take (length ?all - length rest') ?all))"
  have k3: "K3 (p, d # s, g) = None" if "d \<noteq> CHR ''@''" for p d s g using that by (simp add: K3_def run_Lit_other)
  have "run urlCreds Some (pre, ?all, \<lambda>_. []) =
      run (Cls is_alpha) (run (Greedy (Cls scheme_char)) (run (Lit ''://'') (run (Plus (Cls user_char)) (run (Lit '':'') ?K1)))) (pre, ?all, \<lambda>_. [])"
    by (simp add: urlCreds_def K2_def del: run.simps(1,5))
  also have "\<dots> = run (Greedy (Cls scheme_char)) (run (Lit ''://'') (run (Plus (Cls user_char)) (run (Lit '':'') ?K1))) (c # pre, sc @ ''://'' @ user @ '':'' @ pw @ ?tail, \<lambda>_. [])"
    using assms(1) by (simp del: run.simps(5))
  also have "\<dots> = run (Lit ''://'') (run (Plus (Cls user_char)) (run (Lit '':'') ?K1)) (rev sc @ c # pre, ''://'' @ user @ '':'' @ pw @ ?tail, \<lambda>_. [])"
    by (rule run_Greedy_Cls [OF assms(2)]) (auto simp: run_Lit_other dest: scheme_char_not_colon(1))
  also have "\<dots> = run (Plus (Cls user_char)) (run (Lit '':'') ?K1) (rev ''://'' @ rev sc @ c # pre, user @ '':'' @ pw @ ?tail, \<lambda>_. [])" by (rule run_Lit)
  also have "\<dots> = run (Lit '':'') ?K1 (rev user @ rev ''://'' @ rev sc @ c # pre, '':'' @ pw @ ?tail, \<lambda>_. [])"
    by (rule run_Plus_Cls [OF assms(3,4)]) (auto simp: run_Lit_other user_char_def)
  also have "\<dots> = ?K1 (rev '':'' @ rev user @ rev ''://'' @ rev sc @ c # pre, pw @ ?tail, \<lambda>_. [])" by (rule run_Lit)
  also have "\<dots> = K2 (rev ((c # sc) @ ''://'' @ user @ '':'') @ pre, pw @ ?tail, (\<lambda>_. [])(1 := (c # sc) @ ''://'' @ user @ '':''))"
    using take_before [of "(c # sc) @ ''://'' @ user @ '':''" "pw @ ?tail"] by simp
  finally have 1: "run urlCreds Some (pre, ?all, \<lambda>_. []) = K2 (rev ((c # sc) @ ''://'' @ user @ '':'') @ pre, pw @ ?tail, (\<lambda>_. [])(1 := (c # sc) @ ''://'' @ user @ '':''))" .
  have "K2 (p, pw @ ?tail, g) = Some (rev ''@'' @ rev pw @ p, rest, g(2 := pw, 3 := ''@''))" for p g
  proof -
    let ?k = "\<lambda>(pre', rest', g'). K3 (pre', rest', g'(2 := take (length (pw @ ?tail) - length rest') (pw @ ?tail)))"
    have "K2 (p, pw @ ?tail, g) = run (Plus (Cls password_char)) ?k (p, pw @ ?tail, g)" by (simp add: K2_def K3_def)
    also have "\<dots> = ?k (rev pw @ p, ?tail, g)" by (rule run_Plus_Cls [OF assms(5,6)]) (auto simp: k3 password_char_def)
    finally show ?thesis by (simp add: K3_def run_Lit [of "''@''", simplified])
  qed
  then show ?thesis unfolding 1 by simp
qed

lemma run_urlCreds_scheme:
  assumes "CHR '':'' \<notin> set l" "run urlCreds Some (pre, l @ CHR '':'' # s, g) \<noteq> None"
  shows "l \<noteq> [] \<and> is_alpha (hd l) \<and> list_all scheme_char (tl l)"
proof -
  obtain w post where w: "l @ CHR '':'' # s = w @ post" "accepts urlCreds pre w post" using assms(2) unfolding run_accepts by blast
  then obtain c sc v where v: "w = c # sc @ CHR '':'' # v" "is_alpha c" "list_all scheme_char sc"
    by (auto simp: urlCreds_def accepts_Seqn)
  have "CHR '':'' \<notin> set (c # sc)" using v(2,3) scheme_char_not_colon by (auto simp: list_all_iff)
  moreover have "l @ CHR '':'' # s = (c # sc) @ CHR '':'' # (v @ post)" using w(1) v(1) by simp
  ultimately have "l = c # sc" using assms(1) by (metis Cut_append fst_conv)
  then show ?thesis using v by simp
qed

lemma run_urlCreds_none:
  "CHR '':'' \<notin> set l \<Longrightarrow> \<not> (l \<noteq> [] \<and> is_alpha (hd l) \<and> list_all scheme_char (tl l)) \<Longrightarrow> run urlCreds Some (pre, l @ CHR '':'' # s, g) = None"
  using run_urlCreds_scheme [of l pre s g] by argo

abbreviation hide_password :: "string \<Rightarrow> string \<Rightarrow> string" where
  "hide_password \<equiv> replace_from urlCreds (\<lambda>g. g 1 @ Placeholder @ g 3)"

lemma replace_urlCreds_here:
  assumes "is_alpha c" "list_all scheme_char sc" "list_all user_char user" "user \<noteq> []" "list_all password_char pw" "pw \<noteq> []"
  shows "hide_password pre ((c # sc) @ ''://'' @ user @ '':'' @ pw @ ''@'' @ rest) =
    (c # sc) @ ''://'' @ user @ '':'' @ Placeholder @ ''@'' @ hide_password [] rest"
proof -
  from run_urlCreds [OF assms, of pre rest] obtain pre' g where
    g: "run urlCreds Some (pre, (c # sc) @ ''://'' @ user @ '':'' @ pw @ ''@'' @ rest, \<lambda>_. []) = Some (pre', rest, g)"
      "g 1 = (c # sc) @ ''://'' @ user @ '':''" "g 3 = ''@''" by (elim exE conjE)
  have "\<not> looks_back urlCreds" by (simp add: urlCreds_def Seqs_def Lit_def Plus_def)
  then have "hide_password pre' rest = hide_password [] rest" by (rule replace_from_before)
  moreover have "length rest < length ((c # sc) @ ''://'' @ user @ '':'' @ pw @ ''@'' @ rest)" by simp
  ultimately show ?thesis using replace_from_match [OF g(1)] g(2,3) by simp
qed

text \<open>Whatever stands before the scheme, as long as it has no colon, the password is the part that is
  replaced.\<close>

lemma replace_urlCreds:
  assumes "list_all user_char user" "user \<noteq> []" "list_all password_char pw" "pw \<noteq> []"
    "CHR '':'' \<notin> set l" "is_alpha c" "list_all scheme_char sc"
  shows "hide_password pre (l @ (c # sc) @ ''://'' @ user @ '':'' @ pw @ ''@'' @ rest) =
    l @ (c # sc) @ ''://'' @ user @ '':'' @ Placeholder @ ''@'' @ hide_password [] rest"
  using assms(5)
proof (induction l arbitrary: pre)
  case Nil
  then show ?case using replace_urlCreds_here [OF assms(6,7,1-4)] by simp
next
  case (Cons d l)
  let ?s = "l @ (c # sc) @ ''://'' @ user @ '':'' @ pw @ ''@'' @ rest"
  show ?case
  proof (cases "is_alpha d \<and> list_all scheme_char (l @ c # sc)")
    case True
    then show ?thesis using replace_urlCreds_here [OF _ _ assms(1-4), of d "l @ c # sc" pre rest] by simp
  next
    case False
    have "CHR '':'' \<notin> set (d # l @ c # sc)" using Cons.prems assms(6,7) scheme_char_not_colon by (auto simp: list_all_iff)
    then have "run urlCreds Some (pre, d # ?s, \<lambda>_. []) = None"
      using run_urlCreds_none [of "d # l @ c # sc" pre "''//'' @ user @ '':'' @ pw @ ''@'' @ rest" "\<lambda>_. []"] False by auto
    then show ?thesis using Cons.IH [of "d # pre"] Cons.prems by (simp add: replace_from_skip)
  qed
qed

text \<open>A text without a PEM header passes the first replacement unchanged.\<close>

lemma Contains_iff: "Contains s w \<longleftrightarrow> (\<exists>u v. s = u @ w @ v)"
proof (induction s)
  case (Cons c s)
  have "(\<exists>u v. c # s = u @ w @ v) \<longleftrightarrow> (\<exists>v. c # s = w @ v) \<or> (\<exists>u v. s = u @ w @ v)"
    by (metis append_Cons append_Nil list.exhaust list.inject)
  then show ?case using Cons by (simp add: HasPrefix_iff)
qed auto

lemma no_pem_header: "\<not> Contains s ''-----BEGIN '' \<Longrightarrow> ReplaceAll pemBlock f s = s"
proof (rule ReplaceAll_none)
  assume n: "\<not> Contains s ''-----BEGIN ''"
  show "\<not> MatchString pemBlock s"
  proof
    assume "MatchString pemBlock s"
    then obtain u w post where "s = u @ w @ post" "accepts pemBlock (rev u) w post" unfolding MatchString_accepts by blast
    then have "\<exists>v. s = u @ ''-----BEGIN '' @ v" by (auto simp: pemBlock_def accepts_Seqn)
    then show False using n by (auto simp: Contains_iff)
  qed
qed

definition conn :: "string \<Rightarrow> string \<Rightarrow> string \<Rightarrow> string \<Rightarrow> string \<Rightarrow> string" where
  "conn before scheme user rest pw = before @ scheme @ ''://'' @ user @ '':'' @ pw @ ''@'' @ rest"

definition is_scheme :: "string \<Rightarrow> bool" where
  "is_scheme s \<longleftrightarrow> s \<noteq> [] \<and> is_alpha (hd s) \<and> list_all scheme_char (tl s)"



subsection \<open>The topology\<close>

definition edge :: "string \<Rightarrow> string \<Rightarrow> string \<Rightarrow> topo_edge" where
  "edge a b source = \<lparr>te_From = a, te_To = b, te_Source = source\<rparr>"

definition upstreams_of :: "mresource \<Rightarrow> string set" where
  "upstreams_of r = set (strings_of (attr_of ''upstreams'' (mr_Attributes r)))"

text \<open>The edges a resource backs, and the nodes it brings.\<close>

definition edges_of :: "mresource \<Rightarrow> topo_edge set" where
  "edges_of r =
     (if mr_Type r \<in> set proxy_types then
        insert (edge ''internet'' (''proxy:'' @ mr_Name r) ''reverse_proxy'') ((\<lambda>u. edge (''proxy:'' @ mr_Name r) (''upstream:'' @ u) ''nginx_upstream'') ` upstreams_of r)
      else if mr_Type r = ''docker_container'' then
        (\<lambda>n. edge (''container:'' @ mr_Name r) (''network:'' @ n) ''docker_network'') ` set (mr_Networks r) \<union>
        (\<lambda>d. edge (''container:'' @ mr_Name r) (''container:'' @ d) ''compose'') ` (set (mr_DependsOn r) - {mr_Name r})
      else {})"

definition ids_of :: "mresource \<Rightarrow> string set" where
  "ids_of r =
     (if mr_Type r \<in> set proxy_types then insert (''proxy:'' @ mr_Name r) ((@) ''upstream:'' ` upstreams_of r)
      else if mr_Type r = ''docker_container'' then insert (''container:'' @ mr_Name r) ((@) ''network:'' ` set (mr_Networks r))
      else if mr_Type r = ''database'' then {''db:'' @ mr_Name r} else {})"

abbreviation node_ids :: "topology \<Rightarrow> string set" where
  "node_ids t \<equiv> tn_ID ` set (tp_Nodes t)"

lemma addNode_simps [simp]:
  "node_ids (addNode nid label typ health t) = (if nid = [] then node_ids t else insert nid (node_ids t))"
  "tp_Edges (addNode nid label typ health t) = tp_Edges t"
  "distinct (map tn_ID (tp_Nodes t)) \<Longrightarrow> distinct (map tn_ID (tp_Nodes (addNode nid label typ health t)))"
  by (auto simp: addNode_def)

lemma addEdge_simps [simp]:
  "tp_Nodes (addEdge a b source t) = tp_Nodes t"
  "set (tp_Edges (addEdge a b source t)) = (if a = [] \<or> b = [] \<or> a = b then set (tp_Edges t) else insert (edge a b source) (set (tp_Edges t)))"
  by (auto simp: addEdge_def edge_def)

lemma fold_topology:
  assumes "\<And>x t. node_ids (f x t) = I x \<union> node_ids t" "\<And>x t. set (tp_Edges (f x t)) = E x \<union> set (tp_Edges t)"
    "\<And>x t. distinct (map tn_ID (tp_Nodes t)) \<Longrightarrow> distinct (map tn_ID (tp_Nodes (f x t)))"
  shows "node_ids (fold f xs t) = \<Union> (I ` set xs) \<union> node_ids t \<and> set (tp_Edges (fold f xs t)) = \<Union> (E ` set xs) \<union> set (tp_Edges t) \<and>
    (distinct (map tn_ID (tp_Nodes t)) \<longrightarrow> distinct (map tn_ID (tp_Nodes (fold f xs t))))"
  using assms by (induction xs arbitrary: t) auto

lemma fold_upstream:
  assumes "node \<noteq> []" "\<And>u. node \<noteq> ''upstream:'' @ u"
  shows "node_ids (fold (add_upstream node) us t) = (@) ''upstream:'' ` set us \<union> node_ids t"
    "set (tp_Edges (fold (add_upstream node) us t)) = (\<lambda>u. edge node (''upstream:'' @ u) ''nginx_upstream'') ` set us \<union> set (tp_Edges t)"
    "distinct (map tn_ID (tp_Nodes t)) \<Longrightarrow> distinct (map tn_ID (tp_Nodes (fold (add_upstream node) us t)))"
  using fold_topology [of "add_upstream node" "\<lambda>u. {''upstream:'' @ u}" "\<lambda>u. {edge node (''upstream:'' @ u) ''nginx_upstream''}" us t] assms
  by (auto simp: add_upstream_def)

lemma fold_network:
  assumes "node \<noteq> []" "\<And>u. node \<noteq> ''network:'' @ u"
  shows "node_ids (fold (add_network node) us t) = (@) ''network:'' ` set us \<union> node_ids t"
    "set (tp_Edges (fold (add_network node) us t)) = (\<lambda>u. edge node (''network:'' @ u) ''docker_network'') ` set us \<union> set (tp_Edges t)"
    "distinct (map tn_ID (tp_Nodes t)) \<Longrightarrow> distinct (map tn_ID (tp_Nodes (fold (add_network node) us t)))"
  using fold_topology [of "add_network node" "\<lambda>u. {''network:'' @ u}" "\<lambda>u. {edge node (''network:'' @ u) ''docker_network''}" us t] assms
  by (auto simp: add_network_def)

lemma fold_dependency:
  assumes "node \<noteq> []"
  shows "node_ids (fold (add_dependency node) us t) = node_ids t"
    "set (tp_Edges (fold (add_dependency node) us t)) = (\<lambda>u. edge node (''container:'' @ u) ''compose'') ` {u \<in> set us. ''container:'' @ u \<noteq> node} \<union> set (tp_Edges t)"
    "distinct (map tn_ID (tp_Nodes t)) \<Longrightarrow> distinct (map tn_ID (tp_Nodes (fold (add_dependency node) us t)))"
  using fold_topology [of "add_dependency node" "\<lambda>u. {}" "\<lambda>u. if ''container:'' @ u = node then {} else {edge node (''container:'' @ u) ''compose''}" us t] assms
  by (auto simp: add_dependency_def)

lemma add_proxy_simps:
  assumes "mr_Type r \<in> set proxy_types"
  shows "node_ids (add_resource r t) = ids_of r \<union> node_ids t" "set (tp_Edges (add_resource r t)) = edges_of r \<union> set (tp_Edges t)"
    "distinct (map tn_ID (tp_Nodes t)) \<Longrightarrow> distinct (map tn_ID (tp_Nodes (add_resource r t)))"
proof -
  define node where "node = ''proxy:'' @ mr_Name r"
  have n: "node \<noteq> []" "''internet'' \<noteq> node" "\<And>u. node \<noteq> ''upstream:'' @ u" by (simp_all add: node_def)
  have u: "upstreams_of r = set (strings_of (attr_of ''upstreams'' (mr_Attributes r)))" by (rule upstreams_of_def)
  have ids: "ids_of r = insert node ((@) ''upstream:'' ` upstreams_of r)" using assms by (simp only: ids_of_def if_True node_def)
  have es: "edges_of r = insert (edge ''internet'' node ''reverse_proxy'') ((\<lambda>u. edge node (''upstream:'' @ u) ''nginx_upstream'') ` upstreams_of r)"
    using assms by (simp only: edges_of_def if_True node_def)
  have a: "add_resource r t = fold (add_upstream node) (strings_of (attr_of ''upstreams'' (mr_Attributes r)))
      (addEdge ''internet'' node ''reverse_proxy'' (addNode node (mr_Name r) ''reverse_proxy'' (mr_Health r) t))"
    using assms by (simp only: add_resource_def if_True Let_def node_def)
  show "node_ids (add_resource r t) = ids_of r \<union> node_ids t" "set (tp_Edges (add_resource r t)) = edges_of r \<union> set (tp_Edges t)"
    unfolding a ids es u fold_upstream [OF n(1,3)] using n by auto
  show "distinct (map tn_ID (tp_Nodes t)) \<Longrightarrow> distinct (map tn_ID (tp_Nodes (add_resource r t)))"
    unfolding a by (intro fold_upstream(3) [OF n(1,3)]) simp
qed

lemma add_container_simps:
  assumes "mr_Type r = ''docker_container''"
  shows "node_ids (add_resource r t) = ids_of r \<union> node_ids t" "set (tp_Edges (add_resource r t)) = edges_of r \<union> set (tp_Edges t)"
    "distinct (map tn_ID (tp_Nodes t)) \<Longrightarrow> distinct (map tn_ID (tp_Nodes (add_resource r t)))"
proof -
  define node where "node = ''container:'' @ mr_Name r"
  have n: "node \<noteq> []" "\<And>u. node \<noteq> ''network:'' @ u" by (simp_all add: node_def)
  have x: "mr_Type r \<notin> set proxy_types" by (simp add: assms proxy_types_def)
  have ids: "ids_of r = insert node ((@) ''network:'' ` set (mr_Networks r))" using x assms by (simp only: ids_of_def if_True if_False node_def refl)
  have es: "edges_of r = (\<lambda>n. edge node (''network:'' @ n) ''docker_network'') ` set (mr_Networks r) \<union>
      (\<lambda>d. edge node (''container:'' @ d) ''compose'') ` {d \<in> set (mr_DependsOn r). ''container:'' @ d \<noteq> node}"
    using x assms by (simp only: edges_of_def if_True if_False node_def refl) auto
  have a: "add_resource r t = fold (add_dependency node) (mr_DependsOn r) (fold (add_network node) (mr_Networks r) (addNode node (mr_Name r) ''container'' (mr_Health r) t))"
    using x assms by (simp only: add_resource_def if_True if_False Let_def node_def refl)
  show "node_ids (add_resource r t) = ids_of r \<union> node_ids t" "set (tp_Edges (add_resource r t)) = edges_of r \<union> set (tp_Edges t)"
    unfolding a ids es fold_dependency [OF n(1)] fold_network [OF n] using n by auto
  show "distinct (map tn_ID (tp_Nodes t)) \<Longrightarrow> distinct (map tn_ID (tp_Nodes (add_resource r t)))"
    unfolding a by (intro fold_dependency(3) [OF n(1)] fold_network(3) [OF n]) simp
qed

lemma add_resource_simps:
  "node_ids (add_resource r t) = ids_of r \<union> node_ids t"
  "set (tp_Edges (add_resource r t)) = edges_of r \<union> set (tp_Edges t)"
  "distinct (map tn_ID (tp_Nodes t)) \<Longrightarrow> distinct (map tn_ID (tp_Nodes (add_resource r t)))"
proof -
  have other: "node_ids (add_resource r t) = ids_of r \<union> node_ids t \<and> set (tp_Edges (add_resource r t)) = edges_of r \<union> set (tp_Edges t) \<and>
      (distinct (map tn_ID (tp_Nodes t)) \<longrightarrow> distinct (map tn_ID (tp_Nodes (add_resource r t))))"
    if "mr_Type r \<notin> set proxy_types" "mr_Type r \<noteq> ''docker_container''"
    using that by (simp add: add_resource_def ids_of_def edges_of_def)
  show "node_ids (add_resource r t) = ids_of r \<union> node_ids t" "set (tp_Edges (add_resource r t)) = edges_of r \<union> set (tp_Edges t)"
    "distinct (map tn_ID (tp_Nodes t)) \<Longrightarrow> distinct (map tn_ID (tp_Nodes (add_resource r t)))"
    using other add_proxy_simps [of r t] add_container_simps [of r t] by blast+
qed

definition topology_of :: "mresource list \<Rightarrow> topology \<Rightarrow> bool" where
  "topology_of rs t \<longleftrightarrow> distinct (map tn_ID (tp_Nodes t)) \<and> sorted (map tn_ID (tp_Nodes t)) \<and>
     node_ids t = \<Union> (ids_of ` set rs) \<union> (if \<exists>r\<in>set rs. mr_Type r \<in> set proxy_types then {''internet''} else {}) \<and>
     set (tp_Edges t) = \<Union> (edges_of ` set rs) \<and>
     (\<forall>e\<in>set (tp_Edges t). te_From e \<noteq> te_To e \<and> te_From e \<in> node_ids t \<and> (te_Source e = ''compose'' \<or> te_To e \<in> node_ids t))"

text \<open>The topology says what the resources say. Nodes are the proxies, upstreams, containers, networks
  and databases of the resources, each once and sorted, with the internet in front of proxies; the
  edges are exactly the relations the resources back, between different nodes; only the target of a
  compose dependency may be missing. Without such resources there is no topology.\<close>

theorem topology_exact:
  "case BuildTopology rs of None \<Rightarrow> \<Union> (ids_of ` set rs) = {} | Some t \<Rightarrow> topology_of rs t"
proof -
  let ?t0 = "\<lparr>tp_Nodes = [], tp_Edges = []\<rparr>"
  let ?proxies = "\<exists>r\<in>set rs. mr_Type r \<in> set proxy_types"
  let ?t1 = "if ?proxies then addNode ''internet'' ''Internet'' ''internet'' [] ?t0 else ?t0"
  let ?t2 = "fold add_resource rs ?t1"
  have t2: "node_ids ?t2 = \<Union> (ids_of ` set rs) \<union> (if ?proxies then {''internet''} else {})" "set (tp_Edges ?t2) = \<Union> (edges_of ` set rs)"
    "distinct (map tn_ID (tp_Nodes ?t2))"
    using fold_topology [of add_resource ids_of edges_of rs ?t1, OF add_resource_simps] by (auto split: if_splits)
  have ends: "te_From e \<noteq> te_To e \<and> te_From e \<in> node_ids ?t2 \<and> (te_Source e = ''compose'' \<or> te_To e \<in> node_ids ?t2)" if e: "e \<in> set (tp_Edges ?t2)" for e
  proof -
    obtain r where r: "r \<in> set rs" "e \<in> edges_of r" using e t2(2) by auto
    then have "te_From e \<noteq> te_To e \<and> (te_From e \<in> ids_of r \<or> te_From e = ''internet'' \<and> ?proxies) \<and> (te_Source e = ''compose'' \<or> te_To e \<in> ids_of r)"
      by (auto simp: edges_of_def ids_of_def edge_def split: if_splits)
    then show ?thesis unfolding t2(1) using r(1) by auto
  qed
  have sets: "set (sort_key tn_ID (tp_Nodes ?t2)) = set (tp_Nodes ?t2)" "distinct (map tn_ID (sort_key tn_ID (tp_Nodes ?t2)))"
    using t2(3) by (simp_all add: distinct_map)
  show ?thesis
  proof (cases "tp_Nodes ?t2 = []")
    case True
    then have "BuildTopology rs = None" by (simp add: BuildTopology_def Let_def list_ex_iff)
    moreover have "\<Union> (ids_of ` set rs) = {}" using t2(1) unfolding True by (simp split: if_splits)
    ultimately show ?thesis by simp
  next
    case False
    then have "sort_key tn_ID (tp_Nodes ?t2) \<noteq> []" by (simp only: sort_key_Nil not_False_eq_True)
    then have "BuildTopology rs = Some \<lparr>tp_Nodes = sort_key tn_ID (tp_Nodes ?t2), tp_Edges = sort_key (\<lambda>e. (te_From e, te_To e)) (tp_Edges ?t2)\<rparr>"
      by (simp add: BuildTopology_def Let_def list_ex_iff)
    then show ?thesis using sets t2 ends by (simp add: topology_of_def)
  qed
qed

subsection \<open>The engine\<close>

text \<open>What a detector contributes: its resources, if it is available and none of its calls panics.\<close>

definition detected :: "detector \<Rightarrow> mresource list" where
  "detected d =
     (case (det_Available d, det_Detect d, det_Health d) of
        (Returned av, Returned (rs, err), Returned h) \<Rightarrow> if av_Available av then rs else []
      | _ \<Rightarrow> [])"

lemma snd_runDetector: "snd (runDetector dur d) = detected d"
  by (cases "det_Available d"; cases "det_Detect d"; cases "det_Health d") (auto simp: runDetector_def detected_def Let_def split: prod.split)

lemma ID_runDetector: "dr_ID (fst (runDetector dur d)) = det_ID d"
  by (cases "det_Available d"; cases "det_Detect d"; cases "det_Health d")
    (auto simp: runDetector_def recovered_def Let_def split: prod.split)

text \<open>One failing detector never fails the run. Every detector has its result in the snapshot, and the
  resources are the redacted ones of all detectors that are available and do not panic, nothing lost
  and nothing twice, whatever the others do.\<close>

theorem engine_isolates_failures:
  "mset (hs_Resources (engine_Run hostname now dur took e)) = mset (map redact_Resource (concat (map detected (en_detectors e)))) \<and>
   mset (map dr_ID (hs_Detectors (engine_Run hostname now dur took e))) = mset (map det_ID (en_detectors e))"
proof -
  let ?res = "map (\<lambda>(i, d). runDetector (dur i) d) (enumerate 0 (en_detectors e))"
  have "map snd ?res = map detected (en_detectors e)" "map (dr_ID \<circ> fst) ?res = map det_ID (en_detectors e)"
    by (rule nth_equalityI; simp add: nth_enumerate_eq snd_runDetector ID_runDetector)+
  moreover have "mset (map dr_ID (sort_key dr_ID (map fst ?res))) = mset (map (dr_ID \<circ> fst) ?res)"
    unfolding mset_map mset_sort by (simp add: image_mset.compositionality comp_assoc)
  moreover have "mset (map redact_Resource (sort_key f xs)) = mset (map redact_Resource xs)" for f :: "mresource \<Rightarrow> string \<times> string" and xs by simp
  ultimately show ?thesis by (simp add: engine_Run_def redact_Snapshot_def Let_def del: mset_map map_map)
qed

subsection \<open>Container logs\<close>

text \<open>One line of a container as Docker multiplexes it: stream, length, and the timestamped line.\<close>

definition docker_frame :: "nat \<times> string \<times> string \<Rightarrow> string" where
  "docker_frame f = (case f of (st, ts, msg) \<Rightarrow>
     let payload = ts @ '' '' @ msg @ [CHR 0x0A]; n = length payload in
     [char_of st, CHR 0x00, CHR 0x00, CHR 0x00, char_of (n div 2 ^ 24), char_of (n div 2 ^ 16), char_of (n div 2 ^ 8), char_of n] @ payload)"

definition log_frame_ok :: "nat \<times> string \<times> string \<Rightarrow> bool" where
  "log_frame_ok f = (case f of (st, ts, msg) \<Rightarrow>
     (st = 1 \<or> st = 2) \<and> CHR ''T'' \<in> set ts \<and> HasSuffix ts ''Z'' \<and> CHR '' '' \<notin> set ts \<and> CHR 0x0A \<notin> set (ts @ msg) \<and> length (ts @ msg) + 2 < 2 ^ 32)"

lemma payload_lines_one: "CHR 0x0A \<notin> set l \<Longrightarrow> l \<noteq> [] \<Longrightarrow> payload_lines (l @ [CHR 0x0A]) = [l]"
proof -
  assume l: "CHR 0x0A \<notin> set l" "l \<noteq> []"
  then have "dropWhile (\<lambda>c. c = CHR 0x0A) (rev l) = rev l" by (cases l rule: rev_cases) auto
  then show ?thesis using l by (simp add: payload_lines_def)
qed

lemma uint32_bytes:
  assumes "n < 2 ^ 32"
  shows "(((n div 2 ^ 24 mod 256) * 256 + n div 2 ^ 16 mod 256) * 256 + n div 2 ^ 8 mod 256) * 256 + n mod 256 = (n :: nat)"
proof -
  have up: "m div 256 * 256 + m mod 256 = m" for m :: nat by (rule div_mult_mod_eq)
  have "n div 2 ^ 24 mod 256 = n div 2 ^ 24" using assms by simp
  moreover have "n div 2 ^ 16 div 256 = n div 2 ^ 24" "n div 2 ^ 8 div 256 = n div 2 ^ 16" "n div 256 = n div 2 ^ 8"
    by (simp_all flip: div_mult2_eq)
  ultimately show ?thesis using up [of "n div 2 ^ 16"] up [of "n div 2 ^ 8"] up [of n] by metis
qed

lemma splitLogTimestamp_line: "CHR ''T'' \<in> set ts \<Longrightarrow> HasSuffix ts ''Z'' \<Longrightarrow> CHR '' '' \<notin> set ts \<Longrightarrow> splitLogTimestamp (ts @ '' '' @ msg) = (ts, msg)"
  using Cut_append [of "CHR '' ''" ts msg] by (auto simp: splitLogTimestamp_def)

lemma demux_frame:
  assumes "log_frame_ok (st, ts, msg)"
  shows "frame_header (docker_frame (st, ts, msg) @ rest)"
    "demux_frames (docker_frame (st, ts, msg) @ rest) = (if st = 2 then ''stderr'' else ''stdout'', ts @ '' '' @ msg) # demux_frames rest"
proof -
  define payload where "payload = ts @ '' '' @ msg @ [CHR 0x0A]"
  define n where "n = length payload"
  let ?h = "[char_of st, CHR 0x00, CHR 0x00, CHR 0x00, char_of (n div 2 ^ 24), char_of (n div 2 ^ 16), char_of (n div 2 ^ 8), char_of n]"
  let ?s = "?h @ payload @ rest"
  have f: "docker_frame (st, ts, msg) @ rest = ?s" unfolding docker_frame_def payload_def n_def Let_def by simp
  have st: "(of_char (char_of st :: char) :: nat) = st" "st = 1 \<or> st = 2" using assms by (auto simp: log_frame_ok_def)
  show fh: "frame_header (docker_frame (st, ts, msg) @ rest)" unfolding f using st by (auto simp: frame_header_def byte_at_def)
  have n: "0 < n" "n < 2 ^ 32" using assms by (simp_all add: n_def payload_def log_frame_ok_def)
  have "n div 16777216 < 256" using n(2) by simp
  then have size: "uint32_at ?s 4 = n" using uint32_bytes [OF n(2)] by (simp add: uint32_at_def byte_at_def)
  have "payload_lines payload = [ts @ '' '' @ msg]"
    using payload_lines_one [of "ts @ '' '' @ msg"] assms unfolding payload_def by (simp add: log_frame_ok_def)
  moreover have "byte_at ?s 0 = st" using st(1) by (simp add: byte_at_def)
  moreover have "take n (drop 8 ?s) = payload" "\<not> length ?s < 8 + n" by (simp_all add: n_def)
  moreover have "drop n (drop 8 ?s) = rest" by (simp add: n_def)
  then have "drop (8 + n) ?s = rest" by (simp only: drop_drop add.commute)
  ultimately show "demux_frames (docker_frame (st, ts, msg) @ rest) = (if st = 2 then ''stderr'' else ''stdout'', ts @ '' '' @ msg) # demux_frames rest"
    unfolding f demux_frames.simps [of ?s] using fh [unfolded f] size n(1) by (simp only: Let_def if_False if_True not_False_eq_True) simp
qed

lemma demux_all: "list_all log_frame_ok fs \<Longrightarrow> demux_frames (concat (map docker_frame fs)) = map (\<lambda>(st, ts, msg). (if st = 2 then ''stderr'' else ''stdout'', ts @ '' '' @ msg)) fs"
proof (induction fs)
  case Nil
  then show ?case by (simp add: demux_frames.simps [of "[]"] frame_header_def)
next
  case (Cons f fs)
  obtain st ts msg where "f = (st, ts, msg)" by (cases f) auto
  then show ?case using Cons demux_frame(2) [of st ts msg "concat (map docker_frame fs)"] by simp
qed



end
