(* ===== verification/Pulse_Detect_Props.thy ===== *)
theory Pulse_Detect_Props
  imports Pulse_Detect Pulse_Redact_Props Pulse_Scan_Checks
begin

section \<open>What the security detector reports\<close>

text \<open>
  The settings of sshd the agent reports are those of the reference reading, and what the snapshot
  still says of them after redaction decides what the scanner of the control plane can see.
\<close>

subsection \<open>The effective configuration\<close>

text \<open>The reference: the directives of a file in order, with those of included files in place of the
  \<open>Include\<close>, and without those under a \<open>Match\<close> header.\<close>

fun walk :: "hostfs \<Rightarrow> string \<Rightarrow> string \<Rightarrow> (string \<Rightarrow> (string \<times> sshdSetting) list) \<Rightarrow> bool \<Rightarrow> string list \<Rightarrow> (string \<times> sshdSetting) list" where
  "walk fs rootfs path included conditional [] = []"
| "walk fs rootfs path included conditional (raw # lines) =
     (let line = TrimSpace raw; (keyword, v) = splitDirective line; go = (\<lambda>c. walk fs rootfs path included c lines) in
      if line = [] \<or> HasPrefix line ''#'' then go conditional
      else if ToLower keyword = ''match'' then go (\<not> EqualFold v ''all'')
      else if ToLower keyword = ''include'' then concat (map included (includePaths fs rootfs v)) @ go conditional
      else if conditional \<or> v = [] then go conditional
      else (ToLower keyword, \<lparr>ss_value = v, ss_source = displayPath rootfs path\<rparr>) # go conditional)"

function directives :: "hostfs \<Rightarrow> string \<Rightarrow> nat \<Rightarrow> string \<Rightarrow> (string \<times> sshdSetting) list" where
  "directives fs rootfs depth path =
     (if 8 < depth then [] else walk fs rootfs path (\<lambda>inc. directives fs rootfs (depth + 1) inc) False (fs_lines fs path))"
  by pat_completeness auto
termination
  by (relation "measure (\<lambda>(fs, rootfs, depth, path). 9 - depth)") auto

declare directives.simps [simp del]

definition sshd_reading :: "hostfs \<Rightarrow> string \<Rightarrow> (string \<times> sshdSetting) list" where
  "sshd_reading fs rootfs =
     (let main = path_Join rootfs ''/etc/ssh/sshd_config'' in
      if fs_lines fs main = [] then concat (map (directives fs rootfs 1) (includePaths fs rootfs ''/etc/ssh/sshd_config.d/*.conf''))
      else directives fs rootfs 0 main)"

text \<open>Recording directives keeps the first of each keyword.\<close>

definition settled :: "(string \<times> sshdSetting) list \<Rightarrow> (string \<rightharpoonup> sshdSetting) \<Rightarrow> (string \<rightharpoonup> sshdSetting)" where
  "settled ds m = map_of ds ++ m"

lemma settled_simps [simp]: "settled [] m = m" "settled (xs @ ys) m = settled ys (settled xs m)"
  by (simp_all add: settled_def)

lemma settled_set: "settled [(ToLower k, \<lparr>ss_value = v, ss_source = src\<rparr>)] (sc_settings c) = sc_settings (sshd_set k v src c)"
  by (auto simp: settled_def sshd_set_def Let_def map_add_def fun_eq_iff split: option.split)

lemma settled_fold:
  assumes "\<And>inc c. sc_settings (parse inc c) = settled (included inc) (sc_settings c)"
  shows "sc_settings (fold parse incs c) = settled (concat (map included incs)) (sc_settings c)"
  by (induction incs arbitrary: c) (simp_all add: assms)

lemma sshd_lines_settled:
  assumes "\<And>inc c. sc_settings (parse inc c) = settled (included inc) (sc_settings c)"
  shows "sc_settings (snd (fold (sshd_line fs rootfs path parse) lines (conditional, c))) = settled (walk fs rootfs path included conditional lines) (sc_settings c)"
proof (induction lines arbitrary: conditional c)
  case (Cons raw lines)
  obtain keyword v where d: "splitDirective (TrimSpace raw) = (keyword, v)" by (cases "splitDirective (TrimSpace raw)")
  have "settled ((ToLower keyword, \<lparr>ss_value = v, ss_source = displayPath rootfs path\<rparr>) # ds) (sc_settings c) =
      settled ds (sc_settings (sshd_set keyword v (displayPath rootfs path) c))" for ds
    unfolding settled_set [symmetric] using settled_simps(2) [of "[(ToLower keyword, \<lparr>ss_value = v, ss_source = displayPath rootfs path\<rparr>)]" ds] by simp
  then show ?case using settled_fold [OF assms, where c = c and incs = "includePaths fs rootfs v"] Cons.IH
    by (simp add: sshd_line_def Let_def d)
qed simp

lemma parseSSHD_settled: "sc_settings (parseSSHD fs rootfs depth path c) = settled (directives fs rootfs depth path) (sc_settings c)"
proof (induction fs rootfs depth path c rule: parseSSHD.induct)
  case (1 fs rootfs depth path c)
  show ?case
  proof (cases "8 < depth")
    case True
    then show ?thesis by (simp add: parseSSHD.simps [of fs rootfs depth] directives.simps [of fs rootfs depth])
  next
    case False
    then have ih: "sc_settings (parseSSHD fs rootfs (depth + 1) inc c') = settled (directives fs rootfs (depth + 1) inc) (sc_settings c')" if "fs_lines fs path \<noteq> []" for inc c'
      using 1 [OF _ that hd_in_set [OF that]] by simp
    show ?thesis using False sshd_lines_settled [OF ih]
      by (cases "fs_lines fs path = []") (simp_all add: parseSSHD.simps [of fs rootfs depth] directives.simps [of fs rootfs depth])
  qed
qed

lemma files_line:
  assumes "\<And>inc c. \<exists>xs. sc_files (parse inc c) = sc_files c @ xs"
  shows "\<exists>xs. sc_files (snd (fold (sshd_line fs rootfs path parse) lines (conditional, c))) = sc_files c @ xs"
proof (induction lines arbitrary: conditional c)
  case (Cons raw lines)
  obtain conditional' c' where l: "sshd_line fs rootfs path parse raw (conditional, c) = (conditional', c')" by fastforce
  have "\<exists>xs. sc_files (fold parse incs c) = sc_files c @ xs" for incs
  proof (induction incs arbitrary: c)
    case (Cons i incs)
    then show ?case using assms [of i c] by (metis append.assoc fold_simps(2))
  qed simp
  then have "\<exists>xs. sc_files c' = sc_files c @ xs"
    using l by (auto simp: sshd_line_def sshd_set_def Let_def split: if_splits prod.splits)
  then show ?case using Cons.IH [of conditional' c'] l by (auto simp del: split_paired_Ex)
qed simp

lemma files_grow: "\<exists>xs. sc_files (parseSSHD fs rootfs depth path c) = sc_files c @ xs"
proof (induction fs rootfs depth path c rule: parseSSHD.induct)
  case (1 fs rootfs depth path c)
  show ?case
  proof (cases "8 < depth \<or> fs_lines fs path = []")
    case True
    then show ?thesis by (auto simp: parseSSHD.simps [of fs rootfs depth path])
  next
    case False
    then have "\<exists>xs. sc_files (parseSSHD fs rootfs (depth + 1) inc c') = sc_files c' @ xs" for inc c'
      using 1 [OF _ _ hd_in_set] by blast
    then have "\<exists>xs. sc_files (snd (fold (sshd_line fs rootfs path (parseSSHD fs rootfs (depth + 1))) (fs_lines fs path)
        (False, c\<lparr>sc_files := sc_files c @ [displayPath rootfs path]\<rparr>))) = sc_files (c\<lparr>sc_files := sc_files c @ [displayPath rootfs path]\<rparr>) @ xs" by (rule files_line)
    then show ?thesis using False by (auto simp: parseSSHD.simps [of fs rootfs depth path])
  qed
qed

lemma files_of_readable: "fs_lines fs path \<noteq> [] \<Longrightarrow> sc_files (parseSSHD fs rootfs 0 path c) \<noteq> []"
  using files_line [of "parseSSHD fs rootfs 1" fs rootfs path "fs_lines fs path" False "c\<lparr>sc_files := sc_files c @ [displayPath rootfs path]\<rparr>", OF files_grow]
  by (fastforce simp: parseSSHD.simps [of fs rootfs 0 path])

lemma parseSSHD_unreadable: "fs_lines fs path = [] \<Longrightarrow> parseSSHD fs rootfs depth path c = c"
  by (simp add: parseSSHD.simps [of fs rootfs depth path])


text \<open>An \<open>Include\<close> below a \<open>Match\<close> header is read as if it stood above it.\<close>

lemma conditional_include_counts:
  assumes "splitDirective (TrimSpace m) = (''Match'', ''User x'')" "splitDirective (TrimSpace i) = (''Include'', ''y'')"
    "TrimSpace m \<noteq> []" "\<not> HasPrefix (TrimSpace m) ''#''" "TrimSpace i \<noteq> []" "\<not> HasPrefix (TrimSpace i) ''#''"
  shows "walk fs rootfs path included False [m, i] = concat (map included (includePaths fs rootfs ''y''))"
proof -
  have "ToLower ''Match'' = ''match''" "ToLower ''Include'' = ''include''" by code_simp+
  then show ?thesis using assms by simp
qed

subsection \<open>Include cycles\<close>

definition included_by :: "hostfs \<Rightarrow> string \<Rightarrow> string \<Rightarrow> string list" where
  "included_by fs rootfs raw =
     (let line = TrimSpace raw; (keyword, v) = splitDirective line in
      if line = [] \<or> HasPrefix line ''#'' \<or> ToLower keyword \<noteq> ''include'' then [] else includePaths fs rootfs v)"

definition includes_of :: "hostfs \<Rightarrow> string \<Rightarrow> string \<Rightarrow> nat" where
  "includes_of fs rootfs path = length (concat (map (included_by fs rootfs) (fs_lines fs path)))"

lemma files_fold:
  assumes "\<And>inc c. length (sc_files (parse inc c)) \<le> length (sc_files c) + n"
  shows "length (sc_files (fold parse incs c)) \<le> length (sc_files c) + length incs * n"
proof (induction incs arbitrary: c)
  case (Cons i incs)
  have "length (sc_files (fold parse incs (parse i c))) \<le> length (sc_files (parse i c)) + length incs * n" by (rule Cons.IH)
  then show ?case using assms [of i c] by simp
qed simp

lemma files_lines:
  assumes "\<And>inc c. length (sc_files (parse inc c)) \<le> length (sc_files c) + n"
  shows "length (sc_files (snd (fold (sshd_line fs rootfs path parse) lines (conditional, c)))) \<le>
    length (sc_files c) + length (concat (map (included_by fs rootfs) lines)) * n"
proof (induction lines arbitrary: conditional c)
  case (Cons raw lines)
  obtain conditional' c' where l: "sshd_line fs rootfs path parse raw (conditional, c) = (conditional', c')" by fastforce
  have "length (sc_files c') \<le> length (sc_files c) + length (included_by fs rootfs raw) * n"
    using l files_fold [OF assms, where c = c and incs = "includePaths fs rootfs (snd (splitDirective (TrimSpace raw)))"]
    by (auto simp: sshd_line_def sshd_set_def included_by_def Let_def split: if_splits prod.splits)
  then show ?case using Cons.IH [of conditional' c'] l by (simp add: algebra_simps)
qed simp

lemma files_bounded:
  assumes "\<And>path. includes_of fs rootfs path \<le> b"
  shows "length (sc_files (parseSSHD fs rootfs (9 - n) path c)) \<le> length (sc_files c) + (\<Sum>i<n. b ^ i)"
proof (induction n arbitrary: path c)
  case 0
  then show ?case by (simp add: parseSSHD.simps)
next
  case (Suc n)
  show ?case
  proof (cases "8 < 9 - Suc n \<or> fs_lines fs path = []")
    case True
    then have "parseSSHD fs rootfs (9 - Suc n) path c = c" by (subst parseSSHD.simps) auto
    then show ?thesis by simp
  next
    case False
    show ?thesis
    proof (cases "n < 9")
      case True
      then have d: "8 - n + 1 = 9 - n" by simp
      have "length (sc_files (parseSSHD fs rootfs (9 - Suc n) path c)) \<le> length (sc_files c) + 1 + includes_of fs rootfs path * (\<Sum>i<n. b ^ i)"
        using files_lines [where parse = "parseSSHD fs rootfs (9 - n)", OF Suc.IH, of fs rootfs path "fs_lines fs path" False "c\<lparr>sc_files := sc_files c @ [displayPath rootfs path]\<rparr>"] False
        unfolding includes_of_def by (subst parseSSHD.simps) (simp add: d del: One_nat_def)
      also have "\<dots> \<le> length (sc_files c) + 1 + b * (\<Sum>i<n. b ^ i)" using assms [of path] by (simp add: mult_right_mono)
      finally have "length (sc_files (parseSSHD fs rootfs (9 - Suc n) path c)) \<le> length (sc_files c) + 1 + b * (\<Sum>i<n. b ^ i)" .
      moreover have "1 + b * (\<Sum>i<n. b ^ i) = (\<Sum>i<Suc n. b ^ i)" by (simp add: sum.lessThan_Suc_shift sum_distrib_left del: sum.lessThan_Suc)
      ultimately show ?thesis by linarith
    next
      case n: False
      then have "9 - Suc n = 9 - n" by simp
      moreover have "(\<Sum>i<n. b ^ i) \<le> (\<Sum>i<Suc n. b ^ i)" by simp
      ultimately show ?thesis using Suc.IH [of path c] by simp
    qed
  qed
qed

text \<open>C39: reading the configuration ends, even when files include each other in a cycle. If no file includes
  more than \<open>b\<close> others, at most \<open>1 + b + \<dots> + b ^ 8\<close> files are read.\<close>

theorem sshd_include_cycles_end:
  assumes "\<And>path. includes_of fs rootfs path \<le> b"
  shows "length (sc_files (parseSSHD fs rootfs 0 path \<lparr>sc_settings = Map.empty, sc_files = []\<rparr>)) \<le> (\<Sum>i<9. b ^ i)"
  using files_bounded [OF assms, of 9 path "\<lparr>sc_settings = Map.empty, sc_files = []\<rparr>"] by simp

definition demo_cycle :: hostfs where
  "demo_cycle = \<lparr>fs_lines = (\<lambda>p. [''Include /a'']), fs_glob = (\<lambda>p. [p]), fs_exists = (\<lambda>_. True), fs_text = (\<lambda>_. [])\<rparr>"

theorem sshd_include_cycles_end_witness:
  "length (sc_files (parseSSHD demo_cycle [] 0 ''/a'' \<lparr>sc_settings = Map.empty, sc_files = []\<rparr>)) \<le> 9"
proof -
  have "includes_of demo_cycle [] path \<le> 1" for path
  proof -
    have "includes_of demo_cycle [] path = length (included_by demo_cycle [] ''Include /a'')" by (simp add: includes_of_def demo_cycle_def)
    moreover have "length (included_by demo_cycle [] ''Include /a'') = 1" by code_simp
    ultimately show ?thesis by simp
  qed
  from sshd_include_cycles_end [OF this, of "''/a''"] show ?thesis by simp
qed

subsection \<open>What the scanner sees\<close>

text \<open>A resource of the control plane's scanner input that carries the strings of a reported one.\<close>

definition reported_as :: "mresource \<Rightarrow> sc_resource \<Rightarrow> bool" where
  "reported_as r cfg \<longleftrightarrow> sr_Type cfg = mr_Type r \<and> (\<forall>k s. map_of (mr_Attributes r) k = Some (AStr s) \<longrightarrow> sr_Attributes cfg k = Some (JvStr s))"

lemma MatchString_secretKey: "MatchString secretKey k \<longleftrightarrow> (\<exists>u w v. k = u @ w @ v \<and> ToLower w \<in> set (map ToLower [''pass'', ''password'', ''passwd'', ''secret'', ''token'', ''apikey'', ''api_key'', ''access_key'', ''accesskey'', ''private'',
     ''credential'', ''auth'', ''session'', ''salt'', ''passphrase'', ''dsn'', ''connection_string'', ''conn_str'', ''client_secret'', ''encryption'', ''signing'',
     ''jwt'', ''bearer'', ''cookie'']))"
  unfolding MatchString_accepts secretKey_def by simp

lemma secret_permit_empty: "secret_name ''permit_empty_passwords''"
proof -
  have t: "TrimSpace ''permit_empty_passwords'' = ''permit_empty_passwords''" "ToLower ''permit_empty_passwords'' = ''permit_empty_passwords''" by code_simp+
  have "MatchString secretKey ''permit_empty_passwords''"
    unfolding MatchString_secretKey by (intro exI [of _ "''permit_empty_''"] exI [of _ "''pass''"] exI [of _ "''words''"]) simp
  moreover have "\<not> MatchString nonSecretAllow ''permit_empty_passwords''"
  proof
    assume "MatchString nonSecretAllow ''permit_empty_passwords''"
    then have "ToLower ''permit_empty_passwords'' \<in> ToLower ` {''author'', ''authority'', ''auth_method'', ''auth_type'', ''token_type'', ''tokenizer'',
        ''session_timeout'', ''session_name'', ''public_key'', ''keycloak_realm''}"
      unfolding MatchString_accepts nonSecretAllow_def by (auto simp: accepts_Seqn)
    then show False unfolding t by (auto simp: ToLower_def lower_char_def)
  qed
  ultimately show ?thesis by (simp add: secret_name_def t)
qed

lemma map_of_redact_entry: "map_of (map redact_entry m) k = map_option (\<lambda>v. snd (redact_entry (k, v))) (map_of m k)"
  by (induction m) (auto simp: redact_entry_def split: attr.split)

text \<open>C25: the scanner never learns that sshd permits empty passwords. Whatever the configuration, the attribute
  that says so has a secret-looking name, so redaction replaces its value in the snapshot; the
  scanner, which looks for the value yes, reports nothing about sshd.\<close>

theorem empty_passwords_never_reported:
  assumes "readSSHDConfig fs rootfs now = Some r" "reported_as (redact_Resource r) cfg" "si_Resources inp = [cfg]"
  shows "run_blank_passwords inp = []"
proof -
  obtain v where "map_of (mr_Attributes r) ''permit_empty_passwords'' = Some (AStr v)" "mr_Type r = ''ssh_config''"
    using assms(1) by (auto simp: readSSHDConfig_def Let_def plain_resource_def sshd_attrs_def split: if_splits)
  then have a: "map_of (mr_Attributes (redact_Resource r)) ''permit_empty_passwords'' = Some (AStr Placeholder)" "mr_Type (redact_Resource r) = ''ssh_config''"
    by (simp_all add: redact_Resource_def map_of_redact_entry) (simp add: redact_entry_def KeyValue_def secret_permit_empty)
  then have "sr_Attributes cfg ''permit_empty_passwords'' = Some (JvStr Placeholder)" "sr_Type cfg = ''ssh_config''"
    using assms(2) by (auto simp: reported_as_def)
  then show ?thesis by (simp add: run_blank_passwords_def in_resourcesOfType_def assms(3) attrString_def Placeholder_def)
qed

definition demo_sshd :: hostfs where
  "demo_sshd = \<lparr>fs_lines = (\<lambda>p. if p = ''/etc/ssh/sshd_config'' then [''PermitEmptyPasswords yes''] else []), fs_glob = (\<lambda>_. []), fs_exists = (\<lambda>_. False), fs_text = (\<lambda>_. [])\<rparr>"

definition demo_cfg :: "mresource \<Rightarrow> sc_resource" where
  "demo_cfg r = \<lparr>sr_Type = mr_Type r, sr_Name = mr_Name r, sr_Status = [], sr_Health = mr_Health r,
     sr_Attributes = (\<lambda>k. case map_of (mr_Attributes r) k of Some (AStr s) \<Rightarrow> Some (JvStr s) | _ \<Rightarrow> None), sr_Ports = []\<rparr>"

lemma demo_sshd_permits: "sshd_value (sshd_config demo_sshd []) ''permitemptypasswords'' = ''yes''" "readSSHDConfig demo_sshd [] 0 \<noteq> None"
proof -
  show v: "sshd_value (sshd_config demo_sshd []) ''permitemptypasswords'' = ''yes''" by code_simp
  have "path_Join [] ''/etc/ssh/sshd_config'' = ''/etc/ssh/sshd_config''" by code_simp
  then have "fs_lines demo_sshd (path_Join [] ''/etc/ssh/sshd_config'') \<noteq> []" by (simp add: demo_sshd_def)
  from files_of_readable [OF this] show "readSSHDConfig demo_sshd [] 0 \<noteq> None" by (simp add: readSSHDConfig_def sshd_config_def Let_def)
qed

theorem empty_passwords_never_reported_witness:
  "\<exists>r. readSSHDConfig demo_sshd [] 0 = Some r \<and> sshd_value (sshd_config demo_sshd []) ''permitemptypasswords'' = ''yes'' \<and>
     run_blank_passwords \<lparr>si_ServerID = ''s'', si_Hostname = ''h'', si_Resources = [demo_cfg (redact_Resource r)], si_Targets = []\<rparr> = []"
proof -
  obtain r where r: "readSSHDConfig demo_sshd [] 0 = Some r" using demo_sshd_permits(2) by blast
  have "reported_as (redact_Resource r) (demo_cfg (redact_Resource r))" by (simp add: reported_as_def demo_cfg_def)
  from empty_passwords_never_reported [OF r this] show ?thesis using r demo_sshd_permits(1) by simp
qed

end
