(* ===== verification/Pulse_Proxies.thy ===== *)
theory Pulse_Proxies
  imports Pulse_Detect Pulse_Views
begin

section \<open>Reverse proxies\<close>

text \<open>
  \<^verbatim>\<open>agent/internal/discovery/proxies.go\<close> and \<^verbatim>\<open>nginx.go\<close>: the parsers for the configurations of Apache,
  Caddy, Traefik, HAProxy and Nginx and for \<^verbatim>\<open>/etc/hosts\<close>, and the resources made of what they find.
  A parser goes through the lines, or tokens, with the block it is in as its state. The orders in
  which Go visits the sets of files are an argument, a function that arranges the files.
\<close>

subsection \<open>Text helpers\<close>

definition stripApacheComment :: "string \<Rightarrow> string" where
  "stripApacheComment line = takeWhile (\<lambda>c. c \<noteq> CHR ''#'') line"

definition config_line :: "string \<Rightarrow> string" where
  "config_line raw = TrimSpace (stripApacheComment raw)"

definition trim_semicolons :: "string \<Rightarrow> string" where
  "trim_semicolons s = rev (dropWhile (\<lambda>c. c = CHR '';'') (rev s))"

definition cleanUpstream :: "string \<Rightarrow> string" where
  "cleanUpstream s = TrimPrefix (TrimPrefix (trim_semicolons s) ''http://'') ''https://''"

fun CutString :: "string \<Rightarrow> string \<Rightarrow> string \<times> string \<times> bool" where
  "CutString [] sep = (if sep = [] then ([], [], True) else ([], [], False))"
| "CutString (c # s) sep =
     (if HasPrefix (c # s) sep then ([], drop (length sep) (c # s), True) else let (a, b, ok) = CutString s sep in (if ok then (c # a, b, True) else (c # s, [], False)))"

definition hostPath :: "string \<Rightarrow> string \<Rightarrow> string" where
  "hostPath rootfs p = rootfs @ p"

definition hostGlob :: "hostfs \<Rightarrow> string \<Rightarrow> string \<Rightarrow> string list" where
  "hostGlob fs rootfs pattern = fs_glob fs (hostPath rootfs pattern)"

definition hostFileExists :: "hostfs \<Rightarrow> string \<Rightarrow> string \<Rightarrow> bool" where
  "hostFileExists fs rootfs p = fs_exists fs (hostPath rootfs p)"

definition proxyRoot :: "string \<Rightarrow> nat \<Rightarrow> time \<Rightarrow> mresource" where
  "proxyRoot eng vhosts now =
     plain_resource ''reverse_proxy'' (''reverse_proxy:'' @ eng) eng ''proxies'' now [(''engine'', AStr eng), (''vhosts'', AInt (int vhosts))]"

definition countOfType :: "mresource list \<Rightarrow> string \<Rightarrow> nat" where
  "countOfType rs typ = length (filter (\<lambda>r. mr_Type r = typ) rs)"

subsection \<open>Apache\<close>

definition apacheDirs :: "string list" where
  "apacheDirs = [''/etc/apache2/sites-enabled'', ''/etc/apache2/sites-available'', ''/etc/apache2/conf.d'', ''/etc/httpd/conf.d'',
     ''/etc/httpd/sites-enabled'', ''/etc/httpd/vhosts.d'']"

definition apacheRootConfigs :: "string list" where
  "apacheRootConfigs = [''/etc/apache2/apache2.conf'', ''/etc/apache2/httpd.conf'', ''/etc/httpd/conf/httpd.conf'']"

record apacheVHost =
  av_ServerName :: string
  av_Aliases :: "string list"
  av_Listen :: "string list"
  av_SSL :: bool
  av_Certificate :: string
  av_Upstreams :: "string list"
  av_DocumentRoot :: string

definition empty_vhost :: apacheVHost where
  "empty_vhost = \<lparr>av_ServerName = [], av_Aliases = [], av_Listen = [], av_SSL = False, av_Certificate = [], av_Upstreams = [], av_DocumentRoot = []\<rparr>"

definition url_field :: "string \<Rightarrow> bool" where
  "url_field f \<longleftrightarrow> HasPrefix f ''http://'' \<or> HasPrefix f ''https://'' \<or> HasPrefix f ''unix:'' \<or> HasPrefix f ''fcgi://''"

definition lastURLField :: "string list \<Rightarrow> string" where
  "lastURLField flds = (case find url_field (rev (tl flds)) of None \<Rightarrow> [] | Some f \<Rightarrow> f)"

definition open_vhost :: "string \<Rightarrow> apacheVHost" where
  "open_vhost line =
     (let addrs = map (\<lambda>f. TrimSuffix f ''>'') (tl (Fields (TrimSuffix (TrimPrefix line ''<'') ''>'')))
      in empty_vhost\<lparr>av_Listen := addrs, av_SSL := list_ex (\<lambda>a. HasSuffix a '':443'') addrs\<rparr>)"

definition apache_directive :: "string list \<Rightarrow> apacheVHost \<Rightarrow> apacheVHost" where
  "apache_directive flds cur =
     (let d = ToLower (flds ! 0); arg = flds ! 1 in
      if d = ''servername'' then cur\<lparr>av_ServerName := TrimSuffix arg '':443''\<rparr>
      else if d = ''serveralias'' then cur\<lparr>av_Aliases := av_Aliases cur @ tl flds\<rparr>
      else if d = ''documentroot'' then cur\<lparr>av_DocumentRoot := trim_quotes arg\<rparr>
      else if d = ''sslengine'' then (if EqualFold arg ''on'' then cur\<lparr>av_SSL := True\<rparr> else cur)
      else if d = ''sslcertificatefile'' then cur\<lparr>av_Certificate := trim_quotes arg, av_SSL := True\<rparr>
      else if d = ''proxypass'' then
        (let u = lastURLField flds in if u \<noteq> [] then cur\<lparr>av_Upstreams := av_Upstreams cur @ [cleanUpstream u]\<rparr> else cur)
      else cur)"

definition apache_line :: "string \<Rightarrow> apacheVHost list \<times> apacheVHost option \<Rightarrow> apacheVHost list \<times> apacheVHost option" where
  "apache_line raw st =
     (case st of (out, cur) \<Rightarrow>
        let line = config_line raw; lower = ToLower line; flds = Fields line in
        if line = [] then st
        else if HasPrefix lower ''<virtualhost'' then (out, Some (open_vhost line))
        else if HasPrefix lower ''</virtualhost'' then (case cur of None \<Rightarrow> st | Some v \<Rightarrow> (out @ [v], None))
        else (case cur of
            None \<Rightarrow> st
          | Some v \<Rightarrow> if length flds < 2 then st else (out, Some (apache_directive flds v))))"

definition parseApacheVHosts :: "string \<Rightarrow> apacheVHost list" where
  "parseApacheVHosts content =
     (if content = [] then []
      else case fold apache_line (Split content (CHR 0x0A)) ([], None) of (out, cur) \<Rightarrow> (case cur of None \<Rightarrow> out | Some v \<Rightarrow> out @ [v]))"

definition apache_name :: "apacheVHost \<Rightarrow> string" where
  "apache_name vh = (if av_ServerName vh = [] \<and> av_Aliases vh \<noteq> [] then av_Aliases vh ! 0 else av_ServerName vh)"

definition apache_resource :: "string \<Rightarrow> time \<Rightarrow> string \<Rightarrow> apacheVHost \<Rightarrow> mresource" where
  "apache_resource rootfs now file vh =
     plain_resource ''apache_vhost'' (''apache:'' @ apache_name vh) (apache_name vh) ''proxies'' now
       ([(''config_file'', AStr (displayPath rootfs file)), (''listen'', AStrs (av_Listen vh)), (''ssl'', ABool (av_SSL vh)), (''engine'', AStr ''apache'')] @
        opt_attr ''aliases'' (av_Aliases vh \<noteq> []) (AStrs (av_Aliases vh)) @ opt_attr ''ssl_certificate'' (av_Certificate vh \<noteq> []) (AStr (av_Certificate vh)) @
        opt_attr ''upstreams'' (av_Upstreams vh \<noteq> []) (AStrs (av_Upstreams vh)) @ opt_attr ''document_root'' (av_DocumentRoot vh \<noteq> []) (AStr (av_DocumentRoot vh)))"

text \<open>One resource per name: an entry whose name is empty or already there is left out.\<close>

definition add_named :: "mresource \<Rightarrow> mresource list \<Rightarrow> mresource list" where
  "add_named r out = (if mr_Name r = [] \<or> mr_Name r \<in> mr_Name ` set out then out else out @ [r])"

definition detectApache :: "hostfs \<Rightarrow> string \<Rightarrow> (string list \<Rightarrow> string list) \<Rightarrow> time \<Rightarrow> mresource list" where
  "detectApache fs rootfs arrange now =
     (let files = remdups (concat (map (\<lambda>dir. hostGlob fs rootfs (dir @ ''/*'')) apacheDirs) @
            map (hostPath rootfs) (filter (hostFileExists fs rootfs) apacheRootConfigs))
      in fold add_named (concat (map (\<lambda>file. map (apache_resource rootfs now file) (parseApacheVHosts (fs_text fs file))) (arrange files))) [])"

subsection \<open>Caddy\<close>

record caddySite =
  cs_Addresses :: "string list"
  cs_Upstreams :: "string list"
  cs_Root :: string

definition looksLikeCaddyAddress :: "string \<Rightarrow> bool" where
  "looksLikeCaddyAddress s \<longleftrightarrow> \<not> (s = [] \<or> HasPrefix s ''('' \<or> HasPrefix s ''{'') \<and>
     (Contains s ''.'' \<or> HasPrefix s '':'' \<or> HasPrefix s ''http://'' \<or> HasPrefix s ''https://'' \<or> s = ''localhost'')"

definition splitCaddyAddresses :: "string \<Rightarrow> string list" where
  "splitCaddyAddresses header = filter looksLikeCaddyAddress (concat (map Fields (Split header (CHR '',''))))"

definition splitCaddyAddress :: "string \<Rightarrow> string \<times> string" where
  "splitCaddyAddress addr =
     (case CutString addr ''://'' of
        (s, rest, ok) \<Rightarrow>
          let scheme = (if ok then s else []); addr1 = (if ok then rest else addr); addr2 = takeWhile (\<lambda>c. c \<noteq> CHR ''/'') addr1 in
          if HasPrefix addr2 '':'' then ([], scheme) else (takeWhile (\<lambda>c. c \<noteq> CHR '':'') addr2, scheme))"

definition caddy_directive :: "string list \<Rightarrow> caddySite \<Rightarrow> caddySite" where
  "caddy_directive flds cur =
     (let d = ToLower (flds ! 0) in
      if d = ''reverse_proxy'' then cur\<lparr>cs_Upstreams := cs_Upstreams cur @ map cleanUpstream (takeWhile (\<lambda>f. \<not> HasPrefix f ''{'') (tl flds))\<rparr>
      else if d = ''root'' then cur\<lparr>cs_Root := last flds\<rparr> else cur)"

text \<open>State: the sites so far, the site of the open block if it is one, and the depth of braces.\<close>

definition caddy_line :: "string \<Rightarrow> caddySite list \<times> caddySite option \<times> int \<Rightarrow> caddySite list \<times> caddySite option \<times> int" where
  "caddy_line raw st =
     (case st of (out, cur, depth) \<Rightarrow>
        let line = config_line raw; flds = Fields line in
        if line = [] then st
        else if depth = 0 \<and> HasSuffix line ''{'' then
          let header = TrimSpace (TrimSuffix line ''{'') in
          if header = [] \<or> HasPrefix header ''('' then (out, None, 1)
          else (out, Some \<lparr>cs_Addresses = splitCaddyAddresses header, cs_Upstreams = [], cs_Root = []\<rparr>, 1)
        else if 0 < depth then
          let depth1 = depth + int (count_char (CHR ''{'') line) - int (count_char (CHR ''}'') line) in
          if depth1 \<le> 0 then (case cur of None \<Rightarrow> (out, None, 0) | Some s \<Rightarrow> (out @ [s], None, 0))
          else (case cur of
              None \<Rightarrow> (out, None, depth1)
            | Some s \<Rightarrow> (out, Some (if length flds < 2 then s else caddy_directive flds s), depth1))
        else if 2 \<le> length flds \<and> looksLikeCaddyAddress (flds ! 0) then
          (out @ [\<lparr>cs_Addresses = splitCaddyAddresses (flds ! 0),
             cs_Upstreams = (if EqualFold (flds ! 1) ''reverse_proxy'' \<and> 2 < length flds then [cleanUpstream (flds ! 2)] else []), cs_Root = []\<rparr>], cur, depth)
        else st)"

definition parseCaddyfile :: "string \<Rightarrow> caddySite list" where
  "parseCaddyfile content =
     (if content = [] then []
      else case fold caddy_line (Split content (CHR 0x0A)) ([], None, 0) of (out, cur, _) \<Rightarrow> (case cur of None \<Rightarrow> out | Some s \<Rightarrow> out @ [s]))"

definition caddy_resource :: "string \<Rightarrow> time \<Rightarrow> string \<Rightarrow> caddySite \<Rightarrow> string \<Rightarrow> mresource" where
  "caddy_resource rootfs now file site addr =
     (case splitCaddyAddress addr of (host, scheme) \<Rightarrow>
        plain_resource ''caddy_site'' (''caddy:'' @ host) host ''proxies'' now
          ([(''config_file'', AStr (displayPath rootfs file)), (''engine'', AStr ''caddy''), (''ssl'', ABool (scheme \<noteq> ''http''))] @
           opt_attr ''upstreams'' (cs_Upstreams site \<noteq> []) (AStrs (cs_Upstreams site)) @ opt_attr ''document_root'' (cs_Root site \<noteq> []) (AStr (cs_Root site))))"

definition detectCaddy :: "hostfs \<Rightarrow> string \<Rightarrow> time \<Rightarrow> mresource list" where
  "detectCaddy fs rootfs now =
     (let files = (if hostFileExists fs rootfs ''/etc/caddy/Caddyfile'' then [hostPath rootfs ''/etc/caddy/Caddyfile''] else []) @
            hostGlob fs rootfs ''/etc/caddy/conf.d/*'' @ hostGlob fs rootfs ''/etc/caddy/sites-enabled/*''
      in fold add_named (concat (map (\<lambda>file. concat (map (\<lambda>site. map (caddy_resource rootfs now file site) (cs_Addresses site)) (parseCaddyfile (fs_text fs file)))) files)) [])"

subsection \<open>Traefik\<close>

text \<open>The expressions are those of the control plane, \<open>host_arguments\<close> and \<open>quoted_names\<close>.\<close>

definition TraefikHostsFromRules :: "string \<Rightarrow> string list" where
  "TraefikHostsFromRules s =
     fold (\<lambda>h out. if h = [] \<or> h \<in> set out then out else out @ [h]) (map TrimSpace (concat (map quoted_names (host_arguments s)))) []"

definition traefik_files :: "hostfs \<Rightarrow> string \<Rightarrow> string list" where
  "traefik_files fs rootfs =
     concat (map (hostGlob fs rootfs) [''/etc/traefik/*.yml'', ''/etc/traefik/*.yaml'', ''/etc/traefik/*.toml'', ''/etc/traefik/dynamic/*'', ''/etc/traefik/conf.d/*''])"

definition traefik_resource :: "string \<Rightarrow> time \<Rightarrow> string \<Rightarrow> string \<Rightarrow> string \<Rightarrow> mresource" where
  "traefik_resource rootfs now file content host =
     plain_resource ''traefik_router'' (''traefik:'' @ host) host ''proxies'' now
       [(''config_file'', AStr (displayPath rootfs file)), (''engine'', AStr ''traefik''), (''ssl'', ABool (Contains content ''certresolver'' \<or> Contains content ''tls''))]"

definition detectTraefik :: "hostfs \<Rightarrow> string \<Rightarrow> time \<Rightarrow> mresource list" where
  "detectTraefik fs rootfs now =
     fold add_named (concat (map (\<lambda>file. map (traefik_resource rootfs now file (fs_text fs file)) (TraefikHostsFromRules (fs_text fs file))) (traefik_files fs rootfs))) []"

subsection \<open>HAProxy\<close>

record haproxyFrontend =
  hf_Name :: string
  hf_Binds :: "string list"
  hf_SSL :: bool
  hf_Hosts :: "string list"
  hf_Backends :: "string list"

record haproxy_state =
  hp_fronts :: "haproxyFrontend list"
  hp_cur :: "haproxyFrontend option"
  hp_curBackend :: string
  hp_backends :: "string \<Rightarrow> string list"

definition haproxy_flush :: "haproxy_state \<Rightarrow> haproxy_state" where
  "haproxy_flush s = (case hp_cur s of None \<Rightarrow> s | Some f \<Rightarrow> s\<lparr>hp_fronts := hp_fronts s @ [f], hp_cur := None\<rparr>)"

definition haproxy_directive :: "string \<Rightarrow> string list \<Rightarrow> haproxyFrontend \<Rightarrow> haproxyFrontend" where
  "haproxy_directive line flds f =
     (let d = ToLower (flds ! 0) in
      if d = ''bind'' then
        f\<lparr>hf_Binds := (if 1 < length flds then hf_Binds f @ [flds ! 1] else hf_Binds f), hf_SSL := hf_SSL f \<or> Contains (ToLower line) '' ssl''\<rparr>
      else if d = ''acl'' then
        (if Contains (ToLower line) ''hdr(host)'' \<and> 3 < length flds
         then f\<lparr>hf_Hosts := hf_Hosts f @ filter (\<lambda>x. Contains x ''.'' \<and> \<not> HasPrefix x ''-'') (drop 3 flds)\<rparr> else f)
      else if d = ''use_backend'' \<or> d = ''default_backend'' then (if 1 < length flds then f\<lparr>hf_Backends := hf_Backends f @ [flds ! 1]\<rparr> else f)
      else f)"

definition haproxy_line :: "string \<Rightarrow> haproxy_state \<Rightarrow> haproxy_state" where
  "haproxy_line raw s =
     (let line = config_line raw; flds = Fields line; d = ToLower (flds ! 0) in
      if line = [] then s
      else if d = ''frontend'' \<or> d = ''listen'' then
        let s1 = (haproxy_flush s)\<lparr>hp_curBackend := []\<rparr> in
        if 1 < length flds then s1\<lparr>hp_cur := Some \<lparr>hf_Name = flds ! 1, hf_Binds = [], hf_SSL = False, hf_Hosts = [], hf_Backends = []\<rparr>\<rparr> else s1
      else if d = ''backend'' then
        let s1 = haproxy_flush s in if 1 < length flds then s1\<lparr>hp_curBackend := flds ! 1\<rparr> else s1
      else if d \<in> {''global'', ''defaults'', ''resolvers'', ''peers'', ''userlist''} then (haproxy_flush s)\<lparr>hp_curBackend := []\<rparr>
      else if hp_curBackend s \<noteq> [] \<and> EqualFold (flds ! 0) ''server'' \<and> 2 < length flds then
        s\<lparr>hp_backends := (hp_backends s)(hp_curBackend s := hp_backends s (hp_curBackend s) @ [flds ! 2])\<rparr>
      else (case hp_cur s of None \<Rightarrow> s | Some f \<Rightarrow> s\<lparr>hp_cur := Some (haproxy_directive line flds f)\<rparr>))"

definition parseHAProxy :: "string \<Rightarrow> haproxyFrontend list \<times> (string \<Rightarrow> string list)" where
  "parseHAProxy content =
     (if content = [] then ([], \<lambda>_. [])
      else let s = haproxy_flush (fold haproxy_line (Split content (CHR 0x0A)) \<lparr>hp_fronts = [], hp_cur = None, hp_curBackend = [], hp_backends = (\<lambda>_. [])\<rparr>)
           in (hp_fronts s, hp_backends s))"

definition haproxy_resource :: "string \<Rightarrow> time \<Rightarrow> string \<Rightarrow> (string \<Rightarrow> string list) \<Rightarrow> haproxyFrontend \<Rightarrow> mresource" where
  "haproxy_resource rootfs now file backends f =
     (let ups = concat (map backends (hf_Backends f)) in
      plain_resource ''haproxy_frontend'' (''haproxy:'' @ hf_Name f) (hf_Name f) ''proxies'' now
        ([(''config_file'', AStr (displayPath rootfs file)), (''engine'', AStr ''haproxy''), (''ssl'', ABool (hf_SSL f))] @
         opt_attr ''listen'' (hf_Binds f \<noteq> []) (AStrs (hf_Binds f)) @ opt_attr ''hosts'' (hf_Hosts f \<noteq> []) (AStrs (hf_Hosts f)) @
         opt_attr ''backends'' (hf_Backends f \<noteq> []) (AStrs (hf_Backends f)) @ opt_attr ''upstreams'' (ups \<noteq> []) (AStrs ups)))"

definition detectHAProxy :: "hostfs \<Rightarrow> string \<Rightarrow> time \<Rightarrow> mresource list" where
  "detectHAProxy fs rootfs now =
     (let files = (if hostFileExists fs rootfs ''/etc/haproxy/haproxy.cfg'' then [hostPath rootfs ''/etc/haproxy/haproxy.cfg''] else []) @ hostGlob fs rootfs ''/etc/haproxy/conf.d/*''
      in concat (map (\<lambda>file. case parseHAProxy (fs_text fs file) of (fronts, backends) \<Rightarrow> map (haproxy_resource rootfs now file backends) fronts) files))"

subsection \<open>The hosts file\<close>

definition hostsIgnore :: "string list" where
  "hostsIgnore = [''localhost'', ''localhost.localdomain'', ''ip6-localhost'', ''ip6-loopback'', ''ip6-localnet'', ''ip6-mcastprefix'', ''ip6-allnodes'', ''ip6-allrouters'']"

definition hosts_line :: "time \<Rightarrow> string \<Rightarrow> mresource list" where
  "hosts_line now raw =
     (let flds = Fields (config_line raw) in
      if length flds < 2 then []
      else map (\<lambda>name. plain_resource ''hosts_entry'' (''hosts:'' @ name) name ''proxies'' now [(''address'', AStr (flds ! 0)), (''source'', AStr ''/etc/hosts'')])
             (filter (\<lambda>name. ToLower name \<notin> set hostsIgnore) (tl flds)))"

definition detectHostsFile :: "hostfs \<Rightarrow> string \<Rightarrow> time \<Rightarrow> mresource list" where
  "detectHostsFile fs rootfs now = fold add_named (concat (map (hosts_line now) (fs_lines fs (hostPath rootfs ''/etc/hosts'')))) []"

subsection \<open>The detector\<close>

definition proxyEngines :: "string list" where
  "proxyEngines = [''/etc/apache2'', ''/etc/httpd'', ''/etc/caddy/Caddyfile'', ''/etc/caddy'', ''/etc/traefik'', ''/etc/haproxy/haproxy.cfg'', ''/etc/haproxy'']"

definition ProxyDetector_Available :: "hostfs \<Rightarrow> string \<Rightarrow> availability" where
  "ProxyDetector_Available fs rootfs =
     (if list_ex (hostFileExists fs rootfs) proxyEngines \<or> hostFileExists fs rootfs ''/etc/hosts'' then \<lparr>av_Available = True, av_Reason = []\<rparr>
      else \<lparr>av_Available = False, av_Reason = ''no apache/caddy/traefik/haproxy config found''\<rparr>)"

definition with_root :: "string \<Rightarrow> string \<Rightarrow> time \<Rightarrow> mresource list \<Rightarrow> mresource list" where
  "with_root eng typ now rs = (if rs = [] then [] else rs @ [proxyRoot eng (countOfType rs typ) now])"

definition ProxyDetector_Detect :: "hostfs \<Rightarrow> string \<Rightarrow> (string list \<Rightarrow> string list) \<Rightarrow> time \<Rightarrow> mresource list" where
  "ProxyDetector_Detect fs rootfs arrange now =
     with_root ''apache'' ''apache_vhost'' now (detectApache fs rootfs arrange now) @
     with_root ''caddy'' ''caddy_site'' now (detectCaddy fs rootfs now) @
     (if detectTraefik fs rootfs now \<noteq> [] then with_root ''traefik'' ''traefik_router'' now (detectTraefik fs rootfs now)
      else if hostFileExists fs rootfs ''/etc/traefik'' then [proxyRoot ''traefik'' 0 now] else []) @
     with_root ''haproxy'' ''haproxy_frontend'' now (detectHAProxy fs rootfs now) @
     detectHostsFile fs rootfs now"

subsection \<open>Nginx\<close>

definition nginxDirs :: "string list" where
  "nginxDirs = [''/etc/nginx/sites-enabled'', ''/etc/nginx/conf.d'', ''/etc/nginx/sites-available'']"

record nginxVHost =
  nx_ServerName :: string
  nx_Listen :: "string list"
  nx_SSL :: bool
  nx_Certificate :: string
  nx_Upstreams :: "string list"
  nx_Headers :: "string list"
  nx_HasRateLimit :: bool
  nx_ServerTokensOff :: bool

definition empty_nginx :: nginxVHost where
  "empty_nginx = \<lparr>nx_ServerName = [], nx_Listen = [], nx_SSL = False, nx_Certificate = [], nx_Upstreams = [], nx_Headers = [], nx_HasRateLimit = False, nx_ServerTokensOff = False\<rparr>"

definition spaced :: "char \<Rightarrow> string" where
  "spaced c = (if c = CHR ''{'' \<or> c = CHR ''}'' \<or> c = CHR '';'' then [CHR '' '', c, CHR '' ''] else [c])"

definition tokenizeNginx :: "string \<Rightarrow> string list" where
  "tokenizeNginx content = concat (map (\<lambda>l. Fields (concat (map spaced (stripApacheComment l)))) (Split content (CHR 0x0A)))"

definition collectUntilSemicolon :: "string list \<Rightarrow> string list" where
  "collectUntilSemicolon toks = takeWhile (\<lambda>t. t \<noteq> '';'') toks"

record nginx_state =
  ng_hosts :: "nginxVHost list"
  ng_depth :: int
  ng_inServer :: bool
  ng_serverDepth :: int
  ng_cur :: nginxVHost

definition nginx_flush :: "nginx_state \<Rightarrow> nginx_state" where
  "nginx_flush s = (if ng_inServer s then s\<lparr>ng_hosts := ng_hosts s @ [ng_cur s], ng_cur := empty_nginx, ng_inServer := False\<rparr> else s)"

text \<open>A directive inside a server block; \<open>rest\<close> are the tokens after its name.\<close>

definition nginx_directive :: "string \<Rightarrow> string list \<Rightarrow> nginxVHost \<Rightarrow> nginxVHost" where
  "nginx_directive t rest v =
     (if t = ''limit_req'' then v\<lparr>nx_HasRateLimit := True\<rparr>
      else case rest of
          [] \<Rightarrow> v
        | arg # _ \<Rightarrow>
            if t = ''server_name'' then v\<lparr>nx_ServerName := trim_semicolons arg\<rparr>
            else if t = ''listen'' then
              v\<lparr>nx_Listen := nx_Listen v @ [arg], nx_SSL := nx_SSL v \<or> Contains (Join (collectUntilSemicolon rest) '' '') ''ssl''\<rparr>
            else if t = ''ssl_certificate'' then v\<lparr>nx_Certificate := trim_semicolons arg, nx_SSL := True\<rparr>
            else if t = ''proxy_pass'' then v\<lparr>nx_Upstreams := nx_Upstreams v @ [cleanUpstream arg]\<rparr>
            else if t = ''add_header'' then v\<lparr>nx_Headers := nx_Headers v @ [trim_semicolons arg]\<rparr>
            else if t = ''server_tokens'' \<and> trim_semicolons arg = ''off'' then v\<lparr>nx_ServerTokensOff := True\<rparr>
            else v)"

definition nginx_token :: "string \<Rightarrow> string list \<Rightarrow> nginx_state \<Rightarrow> nginx_state" where
  "nginx_token t rest s =
     (if t = ''{'' then s\<lparr>ng_depth := ng_depth s + 1\<rparr>
      else if t = ''}'' then
        let s1 = (if ng_inServer s \<and> ng_depth s = ng_serverDepth s then nginx_flush s else s) in s1\<lparr>ng_depth := ng_depth s - 1\<rparr>
      else if t = ''server'' then
        (if \<not> ng_inServer s \<and> rest \<noteq> [] \<and> hd rest = ''{'' then s\<lparr>ng_inServer := True, ng_serverDepth := ng_depth s + 1\<rparr> else s)
      else if ng_inServer s then s\<lparr>ng_cur := nginx_directive t rest (ng_cur s)\<rparr> else s)"

fun nginx_tokens :: "string list \<Rightarrow> nginx_state \<Rightarrow> nginx_state" where
  "nginx_tokens [] s = s"
| "nginx_tokens (t # rest) s = nginx_tokens rest (nginx_token t rest s)"

definition parseNginxServers :: "string \<Rightarrow> nginxVHost list" where
  "parseNginxServers content =
     (if content = [] then []
      else ng_hosts (nginx_flush (nginx_tokens (tokenizeNginx content)
             \<lparr>ng_hosts = [], ng_depth = 0, ng_inServer = False, ng_serverDepth = 0, ng_cur = empty_nginx\<rparr>)))"

definition trim_header :: "string \<Rightarrow> string" where
  "trim_header s = (let q = (\<lambda>c. c = CHR 0x22 \<or> c = CHR 0x27) in rev (dropWhile q (rev (dropWhile q s))))"

definition hasHeader :: "string list \<Rightarrow> string \<Rightarrow> bool" where
  "hasHeader headers name \<longleftrightarrow> list_ex (\<lambda>h. EqualFold (trim_header h) name) headers"

definition nginx_resource :: "string \<Rightarrow> time \<Rightarrow> string \<Rightarrow> nginxVHost \<Rightarrow> mresource" where
  "nginx_resource rootfs now file v =
     plain_resource ''nginx_vhost'' (''nginx:'' @ nx_ServerName v) (nx_ServerName v) ''nginx'' now
       ([(''config_file'', AStr (displayPath rootfs file)), (''listen'', AStrs (nx_Listen v)), (''ssl'', ABool (nx_SSL v))] @
        opt_attr ''ssl_certificate'' (nx_Certificate v \<noteq> []) (AStr (nx_Certificate v)) @ opt_attr ''upstreams'' (nx_Upstreams v \<noteq> []) (AStrs (nx_Upstreams v)) @
        opt_attr ''headers'' (nx_Headers v \<noteq> []) (AStrs (nx_Headers v)) @
        [(''has_hsts'', ABool (hasHeader (nx_Headers v) ''Strict-Transport-Security'')), (''has_xframe'', ABool (hasHeader (nx_Headers v) ''X-Frame-Options'')),
         (''has_csp'', ABool (hasHeader (nx_Headers v) ''Content-Security-Policy'')), (''has_xcto'', ABool (hasHeader (nx_Headers v) ''X-Content-Type-Options'')),
         (''has_rate_limit'', ABool (nx_HasRateLimit v)), (''server_tokens_off'', ABool (nx_ServerTokensOff v))])"

definition nginx_vhosts :: "hostfs \<Rightarrow> string \<Rightarrow> (string list \<Rightarrow> string list) \<Rightarrow> time \<Rightarrow> mresource list" where
  "nginx_vhosts fs rootfs arrange now =
     fold add_named (concat (map (\<lambda>file. map (nginx_resource rootfs now file) (parseNginxServers (fs_text fs file)))
       (arrange (remdups (concat (map (\<lambda>dir. hostGlob fs rootfs (dir @ ''/*'')) nginxDirs)))))) []"

definition NginxDetector_Available :: "hostfs \<Rightarrow> string \<Rightarrow> (string \<Rightarrow> bool) \<Rightarrow> availability" where
  "NginxDetector_Available fs rootfs has =
     (if hostFileExists fs rootfs ''/etc/nginx/nginx.conf'' \<or> has ''nginx'' then \<lparr>av_Available = True, av_Reason = []\<rparr>
      else \<lparr>av_Available = False, av_Reason = ''nginx not detected''\<rparr>)"

definition NginxDetector_Detect :: "hostfs \<Rightarrow> string \<Rightarrow> (string list \<Rightarrow> string list) \<Rightarrow> time \<Rightarrow> mresource list" where
  "NginxDetector_Detect fs rootfs arrange now =
     nginx_vhosts fs rootfs arrange now @
     [plain_resource ''reverse_proxy'' ''reverse_proxy:nginx'' ''nginx'' ''nginx'' now
        [(''engine'', AStr ''nginx''), (''vhosts'', AInt (int (length (nginx_vhosts fs rootfs arrange now))))]]"

subsection \<open>Names\<close>

lemma add_named_names: "distinct (map mr_Name out) \<Longrightarrow> [] \<notin> mr_Name ` set out \<Longrightarrow>
   distinct (map mr_Name (fold add_named rs out)) \<and> mr_Name ` set (fold add_named rs out) = (mr_Name ` set rs \<union> mr_Name ` set out) - {[]}"
proof (induction rs arbitrary: out)
  case (Cons r rs)
  have "distinct (map mr_Name (add_named r out))" "[] \<notin> mr_Name ` set (add_named r out)" using Cons.prems by (auto simp: add_named_def)
  moreover have "(mr_Name ` set rs \<union> mr_Name ` set (add_named r out)) - {[]} = (mr_Name ` set (r # rs) \<union> mr_Name ` set out) - {[]}"
    by (auto simp: add_named_def)
  ultimately show ?case using Cons.IH [of "add_named r out"] by simp
qed auto

definition nginx_files :: "hostfs \<Rightarrow> string \<Rightarrow> string set" where
  "nginx_files fs rootfs = \<Union> ((\<lambda>dir. set (hostGlob fs rootfs (dir @ ''/*''))) ` set nginxDirs)"

definition demo_site :: string where
  "demo_site = ''server { server_name a.b; } server { server_name a.b; } server { }''"

definition demo_fs :: hostfs where
  "demo_fs = \<lparr>fs_lines = (\<lambda>_. []), fs_glob = (\<lambda>p. if p = ''/etc/nginx/conf.d/*'' then [''/etc/nginx/conf.d/a''] else []), fs_exists = (\<lambda>_. True),
     fs_text = (\<lambda>_. demo_site)\<rparr>"

lemma demo_servers: "nx_ServerName ` set (parseNginxServers demo_site) = {''a.b'', []}"
proof -
  have "map nx_ServerName (parseNginxServers demo_site) = [''a.b'', ''a.b'', []]" by code_simp
  from arg_cong [OF this, of set] show ?thesis by simp
qed

text \<open>Every server name written in some Nginx file is reported exactly once, whatever the order in which
  the files are visited.\<close>

lemma nginx_names_once:
  assumes "\<And>xs. set (arrange xs) = set xs"
  shows "distinct (map mr_Name (nginx_vhosts fs rootfs arrange now)) \<and>
    mr_Name ` set (nginx_vhosts fs rootfs arrange now) = (\<Union>file\<in>nginx_files fs rootfs. nx_ServerName ` set (parseNginxServers (fs_text fs file))) - {[]}"
proof -
  have n: "mr_Name (nginx_resource rootfs now fl v) = nx_ServerName v" for fl v by (simp add: nginx_resource_def plain_resource_def)
  have "mr_Name ` set (concat (map (\<lambda>file. map (nginx_resource rootfs now file) (parseNginxServers (fs_text fs file)))
       (arrange (remdups (concat (map (\<lambda>dir. hostGlob fs rootfs (dir @ ''/*'')) nginxDirs)))))) =
      (\<Union>file\<in>nginx_files fs rootfs. nx_ServerName ` set (parseNginxServers (fs_text fs file)))"
    by (force simp: assms nginx_files_def n)
  then show ?thesis unfolding nginx_vhosts_def using add_named_names [of "[]"] by simp
qed

theorem nginx_names_once_witness:
  "distinct (map mr_Name (nginx_vhosts demo_fs [] (\<lambda>xs. xs) 0)) \<and> mr_Name ` set (nginx_vhosts demo_fs [] (\<lambda>xs. xs) 0) = {''a.b''}"
  using nginx_names_once [of "\<lambda>xs. xs" demo_fs "[]" 0] demo_servers
  by (auto simp: demo_fs_def nginx_files_def nginxDirs_def hostGlob_def hostPath_def)

text \<open>The agent and the control plane read the same names out of a Traefik rule.\<close>

lemma TraefikHosts_agree: "set (TraefikHostsFromRules s) = set (traefikHostsFromRule s)" "distinct (TraefikHostsFromRules s)"
proof -
  have "distinct out \<Longrightarrow> [] \<notin> set out \<Longrightarrow> set (fold (\<lambda>h out. if h = [] \<or> h \<in> set out then out else out @ [h]) hs out) = (set hs \<union> set out) - {[]} \<and>
      distinct (fold (\<lambda>h out. if h = [] \<or> h \<in> set out then out else out @ [h]) hs out)" for hs out :: "string list"
  proof (induction hs arbitrary: out)
    case (Cons h hs)
    show ?case
    proof (cases "h = [] \<or> h \<in> set out")
      case True
      then show ?thesis using Cons.IH [of out] Cons.prems by auto
    next
      case False
      then show ?thesis using Cons.IH [of "out @ [h]"] Cons.prems by auto
    qed
  qed auto
  from this [of "[]"] show "set (TraefikHostsFromRules s) = set (traefikHostsFromRule s)" "distinct (TraefikHostsFromRules s)"
    by (auto simp: TraefikHostsFromRules_def traefikHostsFromRule_def)
qed

end
