(* ===== verification/Pulse_Sockets.thy ===== *)
theory Pulse_Sockets
  imports Pulse_Redact Go_Json
begin

section \<open>Processes, sockets and containers\<close>

text \<open>
  \<^verbatim>\<open>agent/internal/discovery/procscan.go\<close>, \<^verbatim>\<open>ports.go\<close>, \<^verbatim>\<open>privileged.go\<close>, \<^verbatim>\<open>docker.go\<close> and
  \<^verbatim>\<open>agent/internal/health/health.go\<close>. The files of \<^verbatim>\<open>/proc\<close> are a record of functions; the output of
  \<^verbatim>\<open>ss\<close> and the answers of the Docker API are arguments.
\<close>

record procfs =
  pf_entries :: "string list"
  pf_stat :: "string \<Rightarrow> string"
  pf_cgroup :: "string \<Rightarrow> string"
  pf_fds :: "string \<Rightarrow> string option list option"
  pf_readable :: "string \<Rightarrow> bool"
  pf_lines :: "string \<Rightarrow> string list"

subsection \<open>Numbers\<close>

text \<open>\<open>strconv.ParseUint\<close> reads from left to right: a character that is no digit gives 0 and a value of
  more than 64 bits the largest one, whichever comes first. Both are errors the callers ignore.\<close>

definition dec_digit :: "char \<Rightarrow> nat option" where
  "dec_digit c = (if is_digit c then Some (of_char c - 48) else None)"

definition hex_digit :: "char \<Rightarrow> nat option" where
  "hex_digit c =
     (let n = of_char c :: nat in
      if 48 \<le> n \<and> n \<le> 57 then Some (n - 48) else if 97 \<le> n \<and> n \<le> 102 then Some (n - 87) else if 65 \<le> n \<and> n \<le> 70 then Some (n - 55) else None)"

fun scan_uint :: "(char \<Rightarrow> nat option) \<Rightarrow> nat \<Rightarrow> nat \<Rightarrow> string \<Rightarrow> nat option" where
  "scan_uint digit b acc [] = Some acc"
| "scan_uint digit b acc (c # s) =
     (case digit c of None \<Rightarrow> None
      | Some d \<Rightarrow> if 2 ^ 64 \<le> b * acc + d then Some (2 ^ 64 - 1) else scan_uint digit b (b * acc + d) s)"

definition uint_value :: "string \<Rightarrow> nat" where
  "uint_value t = (if t = [] then 0 else case scan_uint dec_digit 10 0 t of None \<Rightarrow> 0 | Some n \<Rightarrow> n)"

definition atoiDec :: "string \<Rightarrow> nat" where
  "atoiDec s = uint_value (TrimSpace s)"

definition atoiHex :: "string \<Rightarrow> int" where
  "atoiHex s =
     (let t = TrimSpace s; neg = (t \<noteq> [] \<and> hd t = CHR ''-''); ds = (if t \<noteq> [] \<and> (hd t = CHR ''-'' \<or> hd t = CHR ''+'') then tl t else t) in
      if ds = [] then 0
      else case scan_uint hex_digit 16 0 ds of None \<Rightarrow> 0 | Some n \<Rightarrow> (if neg then max (- int n) (- (2 ^ 63)) else min (int n) (2 ^ 63 - 1)))"

subsection \<open>Processes\<close>

record procInfo =
  pi_PID :: int
  pi_Comm :: string
  pi_State :: string
  pi_RSSKiB :: nat
  pi_Unit :: string
  pi_ContainerID :: string

definition isHexID :: "string \<Rightarrow> bool" where
  "isHexID s \<longleftrightarrow> length s = 64 \<and> list_all (\<lambda>c. let n = of_char c :: nat in 48 \<le> n \<and> n \<le> 57 \<or> 97 \<le> n \<and> n \<le> 102) s"

definition shortContainerID :: "string \<Rightarrow> string" where
  "shortContainerID cid = take 12 cid"

definition cgroup_path :: "string \<Rightarrow> string" where
  "cgroup_path line =
     (case Cut line (CHR '':'') of (_, r, ok) \<Rightarrow>
        if \<not> ok then line else case Cut r (CHR '':'') of (_, p, ok2) \<Rightarrow> if ok2 then p else line)"

definition cgroup_segment :: "string \<Rightarrow> string \<times> string \<Rightarrow> string \<times> string" where
  "cgroup_segment seg st =
     (case st of (unit, cid) \<Rightarrow>
        if HasSuffix seg ''.service'' then (seg, cid)
        else if HasPrefix seg ''docker-'' \<and> HasSuffix seg ''.scope'' then (unit, shortContainerID (TrimSuffix (TrimPrefix seg ''docker-'') ''.scope''))
        else if HasPrefix seg ''cri-containerd-'' \<and> HasSuffix seg ''.scope'' then (unit, shortContainerID (TrimSuffix (TrimPrefix seg ''cri-containerd-'') ''.scope''))
        else if isHexID seg then (unit, shortContainerID seg)
        else st)"

definition parseCgroup :: "string \<Rightarrow> string \<times> string" where
  "parseCgroup content =
     (case fold cgroup_segment (concat (map (\<lambda>line. Split (cgroup_path line) (CHR ''/'')) (Split content (CHR 0x0A)))) ([], []) of
        (unit, cid) \<Rightarrow> (if cid \<noteq> [] \<and> HasPrefix unit ''docker-'' then [] else unit, cid))"

text \<open>The name in parentheses, from the first to the last one, and what follows it.\<close>

definition stat_parts :: "string \<Rightarrow> (string \<times> string) option" where
  "stat_parts stat =
     (if CHR ''('' \<notin> set stat \<or> CHR '')'' \<notin> set stat then None
      else let open_i = length (takeWhile (\<lambda>c. c \<noteq> CHR ''('') stat); close_i = length stat - 1 - length (takeWhile (\<lambda>c. c \<noteq> CHR '')'') (rev stat)) in
        if close_i < open_i then None else Some (take (close_i - open_i - 1) (drop (open_i + 1) stat), drop (close_i + 1) stat))"

definition proc_info :: "procfs \<Rightarrow> string \<Rightarrow> procInfo option" where
  "proc_info pf name =
     (case ParseInt10 name of
        None \<Rightarrow> None
      | Some pid \<Rightarrow>
          if pf_stat pf name = [] then None
          else case stat_parts (pf_stat pf name) of
              None \<Rightarrow> None
            | Some (comm, after) \<Rightarrow>
                let rest = Fields after in
                if length rest < 22 then None
                else case parseCgroup (pf_cgroup pf name) of (unit, cid) \<Rightarrow>
                  Some \<lparr>pi_PID = pid, pi_Comm = comm, pi_State = rest ! 0, pi_RSSKiB = (uint_value (rest ! 21) * 4096 mod 2 ^ 64) div 1024,
                    pi_Unit = unit, pi_ContainerID = cid\<rparr>)"

definition ScanProcesses :: "procfs \<Rightarrow> procInfo list" where
  "ScanProcesses pf = List.map_filter (proc_info pf) (pf_entries pf)"

definition IndexProcesses :: "procInfo list \<Rightarrow> (int \<rightharpoonup> procInfo)" where
  "IndexProcesses procs = fold (\<lambda>p idx. idx(pi_PID p \<mapsto> p)) procs Map.empty"

definition maxFDScan :: nat where
  "maxFDScan = 200000"

text \<open>The descriptors the walk looks at, with the process that holds them.\<close>

definition open_fds :: "procfs \<Rightarrow> (int \<times> string option) list" where
  "open_fds pf = take maxFDScan (concat (map (\<lambda>name. case ParseInt10 name of
       None \<Rightarrow> [] | Some pid \<Rightarrow> (case pf_fds pf name of None \<Rightarrow> [] | Some fds \<Rightarrow> map (Pair pid) fds)) (pf_entries pf)))"

definition socket_inode :: "string option \<Rightarrow> nat option" where
  "socket_inode link =
     (case link of None \<Rightarrow> None
      | Some l \<Rightarrow> if HasPrefix l ''socket:['' then ParseUint10 (TrimSuffix (TrimPrefix l ''socket:['') '']'') else None)"

definition own_socket :: "int \<times> string option \<Rightarrow> (nat \<rightharpoonup> int) \<Rightarrow> (nat \<rightharpoonup> int)" where
  "own_socket fd owners =
     (case fd of (pid, link) \<Rightarrow>
        case socket_inode link of None \<Rightarrow> owners | Some inode \<Rightarrow> if owners inode = None then owners(inode \<mapsto> pid) else owners)"

definition SocketOwners :: "procfs \<Rightarrow> (nat \<rightharpoonup> int)" where
  "SocketOwners pf = fold own_socket (open_fds pf) Map.empty"

definition note_file :: "(string \<Rightarrow> bool) \<Rightarrow> int \<Rightarrow> int \<times> string option \<Rightarrow> (string \<times> int list) list \<Rightarrow> (string \<times> int list) list" where
  "note_file matches limit fd found =
     (case fd of
        (pid, Some link) \<Rightarrow>
          if \<not> HasPrefix link ''/'' \<or> HasSuffix link '' (deleted)'' \<or> \<not> matches link then found
          else (case map_of found link of
              None \<Rightarrow> if 0 < limit \<and> limit \<le> int (length found) then found else found @ [(link, [pid])]
            | Some pids \<Rightarrow> map (\<lambda>(l, ps). (l, if l = link then ps @ [pid] else ps)) found)
      | (pid, None) \<Rightarrow> found)"

definition ScanOpenFiles :: "procfs \<Rightarrow> (string \<Rightarrow> bool) \<Rightarrow> int \<Rightarrow> (string \<times> int list) list" where
  "ScanOpenFiles pf matches limit = fold (note_file matches limit) (open_fds pf) []"

subsection \<open>Listening sockets\<close>

record listener =
  li_Address :: string
  li_Port :: int
  li_Protocol :: string
  li_Inode :: nat
  li_PID :: int
  li_Process :: string
  li_Unit :: string
  li_ContainerID :: string

definition Exposure :: "listener \<Rightarrow> string" where
  "Exposure l =
     (if li_Address l \<in> {''127.0.0.1'', ''::1''} then ''loopback'' else if li_Address l \<in> {''0.0.0.0'', ''::'', ''*''} then ''public'' else ''bound'')"

definition upper_hex_char :: "char \<Rightarrow> char" where
  "upper_hex_char c = (let n = of_char c :: nat in if 97 \<le> n \<and> n \<le> 122 then char_of (n - 32) else c)"

definition hexToIP :: "string \<Rightarrow> string" where
  "hexToIP h =
     (if length h = 8 then
        Itoa (atoiHex (take 2 (drop 6 h))) @ ''.'' @ Itoa (atoiHex (take 2 (drop 4 h))) @ ''.'' @ Itoa (atoiHex (take 2 (drop 2 h))) @ ''.'' @ Itoa (atoiHex (take 2 h))
      else if length h = 32 then
        (let up = map upper_hex_char h in
         if up = replicate 32 (CHR ''0'') then ''::''
         else if up = ''00000000000000000000000001000000'' then ''::1'' else ''::'')
      else ''0.0.0.0'')"

definition procnet_row :: "string \<Rightarrow> bool \<Rightarrow> string \<Rightarrow> listener option" where
  "procnet_row proto listenOnly line =
     (let flds = Fields line in
      if length flds < 4 then None
      else if listenOnly \<and> flds ! 3 \<noteq> ''0A'' then None
      else case Cut (flds ! 1) (CHR '':'') of (addrHex, portHex, ok) \<Rightarrow>
        if \<not> ok then None
        else Some \<lparr>li_Address = hexToIP addrHex, li_Port = atoiHex portHex, li_Protocol = proto,
          li_Inode = (if 9 < length flds then atoiDec (flds ! 9) else 0), li_PID = 0, li_Process = [], li_Unit = [], li_ContainerID = []\<rparr>)"

definition listener_key :: "listener \<Rightarrow> string" where
  "listener_key l = li_Address l @ '':'' @ Itoa (li_Port l) @ ''/'' @ li_Protocol l"

definition add_listener :: "listener \<Rightarrow> listener list \<Rightarrow> listener list" where
  "add_listener l out = (if listener_key l \<in> listener_key ` set out then out else out @ [l])"

definition parseProcNet :: "string list \<Rightarrow> string \<Rightarrow> bool \<Rightarrow> listener list" where
  "parseProcNet lines proto listenOnly = fold add_listener (List.map_filter (procnet_row proto listenOnly) (tl lines)) []"

definition procNetFile :: "procfs \<Rightarrow> string \<Rightarrow> string" where
  "procNetFile pf name = (if pf_readable pf (''/proc/1/net/'' @ name) then ''/proc/1/net/'' @ name else ''/proc/net/'' @ name)"

definition ListeningPorts :: "procfs \<Rightarrow> listener list" where
  "ListeningPorts pf =
     parseProcNet (pf_lines pf (procNetFile pf ''tcp'')) ''tcp'' True @ parseProcNet (pf_lines pf (procNetFile pf ''tcp6'')) ''tcp'' True @
     parseProcNet (pf_lines pf (procNetFile pf ''udp'')) ''udp'' False @ parseProcNet (pf_lines pf (procNetFile pf ''udp6'')) ''udp'' False"

definition applyOwner :: "(int \<rightharpoonup> procInfo) \<Rightarrow> int \<Rightarrow> string \<Rightarrow> listener \<Rightarrow> listener" where
  "applyOwner procs pid fallbackName l =
     (case procs pid of
        Some p \<Rightarrow> l\<lparr>li_PID := pid, li_Process := pi_Comm p, li_Unit := pi_Unit p, li_ContainerID := pi_ContainerID p\<rparr>
      | None \<Rightarrow> l\<lparr>li_PID := pid, li_Process := fallbackName\<rparr>)"

subsection \<open>The output of ss\<close>

fun find_submatch :: "regex \<Rightarrow> string \<Rightarrow> string \<Rightarrow> (nat \<Rightarrow> string) option" where
  "find_submatch r pre s =
     (case run r Some (pre, s, \<lambda>_. []) of
        Some (_, _, g) \<Rightarrow> Some g
      | None \<Rightarrow> (case s of [] \<Rightarrow> None | c # cs \<Rightarrow> find_submatch r (c # pre) cs))"

declare find_submatch.simps [simp del]

definition ssUsers :: regex where
  "ssUsers = Seqs [Cls (\<lambda>c. c = CHR ''(''), Cls (\<lambda>c. c = CHR ''(''), Cls (\<lambda>c. c = CHR 0x22), Group 1 (Plus (Cls (\<lambda>c. c \<noteq> CHR 0x22))),
     Cls (\<lambda>c. c = CHR 0x22), Lit '',pid='', Group 2 (Plus (Cls is_digit))]"

definition portFromSSAddress :: "string \<Rightarrow> int" where
  "portFromSSAddress addr =
     (let port = rev (takeWhile (\<lambda>c. c \<noteq> CHR '':'') (rev addr)) in
      if CHR '':'' \<notin> set addr \<or> port = [] then 0 else case ParseInt10 port of None \<Rightarrow> 0 | Some p \<Rightarrow> p)"

definition ss_line :: "string \<Rightarrow> (string \<rightharpoonup> int \<times> string) \<Rightarrow> (string \<rightharpoonup> int \<times> string)" where
  "ss_line line owners =
     (let flds = Fields line; proto = ToLower (flds ! 0); port = portFromSSAddress (flds ! 4) in
      if length flds < 5 then owners
      else if proto \<noteq> ''tcp'' \<and> proto \<noteq> ''udp'' then owners
      else if port = 0 then owners
      else case find_submatch ssUsers [] line of
          None \<Rightarrow> owners
        | Some g \<Rightarrow>
            (case ParseInt10 (g 2) of
               None \<Rightarrow> owners
             | Some pid \<Rightarrow> (let k = proto @ '':'' @ Itoa port in if owners k = None then owners(k \<mapsto> (pid, g 1)) else owners)))"

definition sudoEnabled :: "string \<Rightarrow> bool" where
  "sudoEnabled v \<longleftrightarrow> ToLower (TrimSpace v) \<in> {''1'', ''true'', ''yes'', ''on''}"

text \<open>\<open>exec\<close> runs a program with its arguments and gives the output, or \<open>Inl\<close> the output beside an error.\<close>

definition runFixedPrivileged :: "(string \<Rightarrow> string list \<Rightarrow> string + string) \<Rightarrow> (string \<Rightarrow> bool) \<Rightarrow> string \<Rightarrow> string \<Rightarrow> string list \<Rightarrow> string + string" where
  "runFixedPrivileged exec has useSudo name args =
     (case exec name args of
        Inr out \<Rightarrow> Inr out
      | Inl out \<Rightarrow> if \<not> sudoEnabled useSudo \<or> \<not> has ''sudo'' then Inl out else exec ''sudo'' (''-n'' # name # args))"

definition ssListenerOwners :: "(string \<Rightarrow> string list \<Rightarrow> string + string) \<Rightarrow> (string \<Rightarrow> bool) \<Rightarrow> string \<Rightarrow> (string \<rightharpoonup> int \<times> string)" where
  "ssListenerOwners exec has useSudo =
     (if \<not> has ''ss'' then Map.empty
      else case runFixedPrivileged exec has useSudo ''ss'' [''-tulpnH''] of
          Inl _ \<Rightarrow> Map.empty
        | Inr out \<Rightarrow> fold ss_line (Split out (CHR 0x0A)) Map.empty)"

definition attribute_by_inode :: "(int \<rightharpoonup> procInfo) \<Rightarrow> (nat \<rightharpoonup> int) \<Rightarrow> listener \<Rightarrow> listener" where
  "attribute_by_inode procs owners l = (case owners (li_Inode l) of None \<Rightarrow> l | Some pid \<Rightarrow> applyOwner procs pid [] l)"

definition attribute_by_ss :: "(int \<rightharpoonup> procInfo) \<Rightarrow> (string \<rightharpoonup> int \<times> string) \<Rightarrow> listener \<Rightarrow> listener" where
  "attribute_by_ss procs owners l =
     (if li_PID l \<noteq> 0 then l
      else case owners (li_Protocol l @ '':'' @ Itoa (li_Port l)) of None \<Rightarrow> l | Some (pid, name) \<Rightarrow> applyOwner procs pid name l)"

definition anyUnattributed :: "listener list \<Rightarrow> bool" where
  "anyUnattributed ls = list_ex (\<lambda>l. li_PID l = 0) ls"

text \<open>\<open>ss_owners\<close> is the result of \<open>ssListenerOwners\<close>.\<close>

definition ListeningPortsWithOwners :: "procfs \<Rightarrow> (string \<rightharpoonup> int \<times> string) \<Rightarrow> listener list" where
  "ListeningPortsWithOwners pf ss_owners =
     (let procs = IndexProcesses (ScanProcesses pf); ls = map (attribute_by_inode procs (SocketOwners pf)) (ListeningPorts pf) in
      if \<not> anyUnattributed ls then ls else map (attribute_by_ss procs ss_owners) ls)"

definition port_resource :: "time \<Rightarrow> listener \<Rightarrow> mresource" where
  "port_resource now l =
     (let base = Itoa (li_Port l) @ ''/'' @ li_Protocol l in
      \<lparr>mr_Type = ''listening_port'', mr_ID = ''port:'' @ li_Address l @ '':'' @ base,
       mr_Name = (if li_Process l = [] then base else base @ '' ('' @ li_Process l @ '')''), mr_Status = [], mr_Health = ''HEALTHY'', mr_Labels = [],
       mr_Attributes = (''exposure'', AStr (Exposure l)) #
         (if 0 < li_PID l then
            [(''pid'', AInt (li_PID l)), (''process'', AStr (li_Process l)), (''workload'', AStr (if li_ContainerID l \<noteq> [] then ''container'' else ''host''))] @
            (if li_Unit l \<noteq> [] then [(''unit'', AStr (li_Unit l))] else []) @ (if li_ContainerID l \<noteq> [] then [(''container_id'', AStr (li_ContainerID l))] else [])
          else []),
       mr_Ports = [\<lparr>mp_Host = li_Port l, mp_Container = 0, mp_Protocol = li_Protocol l, mp_Address = li_Address l, mp_State = ''LISTEN''\<rparr>],
       mr_Networks = [], mr_Volumes = [], mr_DependsOn = [], mr_DetectedBy = ''ports'', mr_DetectedAt = now\<rparr>)"

definition PortDetector_Available :: "(string \<Rightarrow> bool) \<Rightarrow> availability" where
  "PortDetector_Available exists =
     (if exists ''/proc/net/tcp'' then \<lparr>av_Available = True, av_Reason = []\<rparr> else \<lparr>av_Available = False, av_Reason = ''/proc/net/tcp not present''\<rparr>)"

definition PortDetector_Detect :: "procfs \<Rightarrow> (string \<Rightarrow> string list \<Rightarrow> string + string) \<Rightarrow> (string \<Rightarrow> bool) \<Rightarrow> string \<Rightarrow> time \<Rightarrow> mresource list" where
  "PortDetector_Detect pf exec has useSudo now = map (port_resource now) (ListeningPortsWithOwners pf (ssListenerOwners exec has useSudo))"

subsection \<open>Docker containers\<close>

text \<open>The answers of the Docker API, with the members the detector reads. Percentages are exact.\<close>

record docker_port =
  dp_PrivatePort :: int
  dp_PublicPort :: int
  dp_Type :: string
  dp_IP :: string

record dockerContainer =
  dc_ID :: string
  dc_Names :: "string list"
  dc_Image :: string
  dc_State :: string
  dc_Status :: string
  dc_Ports :: "docker_port list"
  dc_Labels :: "(string \<times> string) list"
  dc_Networks :: "string list"
  dc_Mounts :: "(string \<times> string) list"

record dockerStats =
  ds_TotalUsage :: nat
  ds_SystemCPUUsage :: nat
  ds_OnlineCPUs :: nat
  ds_PreTotalUsage :: nat
  ds_PreSystemCPUUsage :: nat
  ds_MemUsage :: nat
  ds_MemLimit :: nat
  ds_Networks :: "(nat \<times> nat) list"

record dockerInspect =
  di_Env :: "string list"
  di_Privileged :: bool
  di_IpcMode :: string

definition shortID :: "string \<Rightarrow> string" where
  "shortID cid = take 12 cid"

definition dockerHealth :: "string \<Rightarrow> string \<Rightarrow> string" where
  "dockerHealth state status =
     (if Contains status ''unhealthy'' then ''DOWN'' else if Contains status ''health: starting'' then ''DEGRADED''
      else if state = ''running'' then ''HEALTHY'' else if state = ''restarting'' \<or> state = ''paused'' then ''DEGRADED''
      else if state = ''exited'' \<or> state = ''dead'' then ''DOWN'' else ''UNKNOWN'')"

text \<open>\<open>int64(f)\<close> truncates toward zero.\<close>

definition round2 :: "rat \<Rightarrow> rat" where
  "round2 f = (let x = f * 100 + 1 / 2; n = (if 0 \<le> x then \<lfloor>x\<rfloor> else \<lceil>x\<rceil>) in of_int (if - (2 ^ 63) \<le> n \<and> n < 2 ^ 63 then n else - (2 ^ 63)) / 100)"

definition cpuPercent :: "dockerStats \<Rightarrow> rat" where
  "cpuPercent s =
     (let cpuDelta = of_nat (ds_TotalUsage s) - of_nat (ds_PreTotalUsage s) :: rat; sysDelta = of_nat (ds_SystemCPUUsage s) - of_nat (ds_PreSystemCPUUsage s);
          cpus = (if ds_OnlineCPUs s = 0 then 1 else of_nat (ds_OnlineCPUs s))
      in if sysDelta \<le> 0 \<or> cpuDelta < 0 then 0 else (cpuDelta / sysDelta) * cpus * 100)"

definition upper_char :: "char \<Rightarrow> char" where
  "upper_char c = (let n = of_char c :: nat in if 97 \<le> n \<and> n \<le> 122 then char_of (n - 32) else c)"

definition weakVals :: "string list" where
  "weakVals = [''postgres'', ''root'', ''password'', ''admin'', ''changeme'', ''secret'', ''123456'', ''toor'', ''mysql'', ''test'', ''guest'', ''default'', ''pass'', ''12345678'']"

definition password_variable :: "string \<Rightarrow> bool" where
  "password_variable k \<longleftrightarrow> (let ku = map upper_char k in Contains ku ''PASSWORD'' \<or> Contains ku ''PASSWD'' \<or> Contains ku ''PWD'')"

definition scan_env_entry :: "string \<Rightarrow> string list \<times> bool \<Rightarrow> string list \<times> bool" where
  "scan_env_entry e st =
     (case st of (weak, blank) \<Rightarrow>
        case Cut e (CHR ''='') of (k, v, ok) \<Rightarrow>
          if \<not> ok \<or> \<not> password_variable k then st
          else if TrimSpace v = [] then (weak, True)
          else if ToLower (TrimSpace v) \<in> set weakVals then (weak @ [k], blank) else st)"

definition scanEnvCreds :: "string list \<Rightarrow> string list \<times> bool" where
  "scanEnvCreds env = fold scan_env_entry env ([], False)"

definition label_of :: "string \<Rightarrow> (string \<times> string) list \<Rightarrow> string" where
  "label_of k ls = (case map_of ls k of None \<Rightarrow> [] | Some v \<Rightarrow> v)"

definition stats_attrs :: "dockerStats \<Rightarrow> (string \<times> attr) list" where
  "stats_attrs st =
     [(''cpu_percent'', AFloat (round2 (cpuPercent st))), (''memory_bytes'', AInt (int (ds_MemUsage st))), (''memory_limit'', AInt (int (ds_MemLimit st))),
      (''net_rx_bytes'', AInt (int (sum_list (map fst (ds_Networks st)) mod 2 ^ 64))), (''net_tx_bytes'', AInt (int (sum_list (map snd (ds_Networks st)) mod 2 ^ 64)))]"

definition inspect_attrs :: "dockerInspect \<Rightarrow> (string \<times> attr) list" where
  "inspect_attrs di =
     (case scanEnvCreds (di_Env di) of (weak, blank) \<Rightarrow>
        [(''privileged'', ABool (di_Privileged di))] @ (if di_IpcMode di \<noteq> [] then [(''ipc_mode'', AStr (di_IpcMode di))] else []) @
        (if weak \<noteq> [] then [(''weak_credentials'', AStrs weak)] else []) @ (if blank then [(''blank_password'', ABool True)] else []))"

definition container_resource :: "(string \<Rightarrow> dockerStats option) \<Rightarrow> (string \<Rightarrow> dockerInspect option) \<Rightarrow> time \<Rightarrow> dockerContainer \<Rightarrow> mresource" where
  "container_resource stats inspect now ct =
     \<lparr>mr_Type = ''docker_container'', mr_ID = ''container:'' @ shortID (dc_ID ct), mr_Name = containerName (dc_Names ct), mr_Status = dc_State ct,
      mr_Health = dockerHealth (dc_State ct) (dc_Status ct), mr_Labels = dc_Labels ct,
      mr_Attributes =
        [(''image'', AStr (dc_Image ct)), (''state'', AStr (dc_State ct)), (''status'', AStr (dc_Status ct))] @
        (let proj = label_of ''com.docker.compose.project'' (dc_Labels ct) in if proj \<noteq> [] then [(''compose_project'', AStr proj)] else []) @
        (let svc = label_of ''com.docker.compose.service'' (dc_Labels ct) in if svc \<noteq> [] then [(''compose_service'', AStr svc)] else []) @
        (if dc_State ct = ''running'' then (case stats (dc_ID ct) of None \<Rightarrow> [] | Some st \<Rightarrow> stats_attrs st) else []) @
        (case inspect (dc_ID ct) of None \<Rightarrow> [] | Some di \<Rightarrow> inspect_attrs di),
      mr_Ports = map (\<lambda>p. \<lparr>mp_Host = dp_PublicPort p, mp_Container = dp_PrivatePort p, mp_Protocol = dp_Type p, mp_Address = dp_IP p, mp_State = []\<rparr>) (dc_Ports ct),
      mr_Networks = dc_Networks ct, mr_Volumes = map (\<lambda>(src, dst). src @ '':'' @ dst) (filter (\<lambda>(src, dst). src \<noteq> []) (dc_Mounts ct)),
      mr_DependsOn = [], mr_DetectedBy = ''docker'', mr_DetectedAt = now\<rparr>"

definition DockerDetector_Detect :: "dockerContainer list option \<Rightarrow> (string \<Rightarrow> dockerStats option) \<Rightarrow> (string \<Rightarrow> dockerInspect option) \<Rightarrow> time \<Rightarrow> mresource list option" where
  "DockerDetector_Detect containers stats inspect now = map_option (map (container_resource stats inspect now)) containers"

definition docker_socket :: "string \<Rightarrow> string" where
  "docker_socket path = (if path \<noteq> [] then path else ''/var/run/docker.sock'')"

text \<open>\<open>version_err\<close> is the error of the request for the version.\<close>

definition DockerDetector_Available :: "(string \<Rightarrow> bool) \<Rightarrow> string option \<Rightarrow> string \<Rightarrow> availability" where
  "DockerDetector_Available exists version_err path =
     (if \<not> exists (docker_socket path) then \<lparr>av_Available = False, av_Reason = ''docker socket not found at '' @ docker_socket path\<rparr>
      else case version_err of
          Some e \<Rightarrow> \<lparr>av_Available = False, av_Reason = ''docker api unreachable: '' @ e\<rparr>
        | None \<Rightarrow> \<lparr>av_Available = True, av_Reason = []\<rparr>)"

definition DockerDetector_Health :: "string option \<Rightarrow> health_report" where
  "DockerDetector_Health version_err =
     (case version_err of
        Some e \<Rightarrow> \<lparr>hr_Status = ''UNKNOWN'', hr_Checks = [\<lparr>hc_Name = ''docker_api'', hc_Status = ''UNKNOWN'', hc_Detail = e\<rparr>]\<rparr>
      | None \<Rightarrow> \<lparr>hr_Status = ''HEALTHY'', hr_Checks = [\<lparr>hc_Name = ''docker_api'', hc_Status = ''HEALTHY'', hc_Detail = []\<rparr>]\<rparr>)"

subsection \<open>Health checks\<close>

definition health_rank :: "string \<Rightarrow> nat" where
  "health_rank s = (if s = ''DEGRADED'' then 1 else if s = ''UNKNOWN'' then 2 else if s = ''DOWN'' then 3 else 0)"

definition Aggregate :: "health_check list \<Rightarrow> health_report" where
  "Aggregate checks =
     \<lparr>hr_Status = fold (\<lambda>c overall. if health_rank overall < health_rank (hc_Status c) then hc_Status c else overall) checks ''HEALTHY'', hr_Checks = checks\<rparr>"

definition CheckTCP :: "string option \<Rightarrow> string \<Rightarrow> health_check" where
  "CheckTCP err address =
     (case err of Some e \<Rightarrow> \<lparr>hc_Name = ''tcp:'' @ address, hc_Status = ''DOWN'', hc_Detail = e\<rparr>
      | None \<Rightarrow> \<lparr>hc_Name = ''tcp:'' @ address, hc_Status = ''HEALTHY'', hc_Detail = []\<rparr>)"

definition CheckHTTP :: "string + int \<times> string \<Rightarrow> string \<Rightarrow> health_check" where
  "CheckHTTP resp url =
     (case resp of
        Inl e \<Rightarrow> \<lparr>hc_Name = ''http:'' @ url, hc_Status = ''DOWN'', hc_Detail = e\<rparr>
      | Inr (code, status) \<Rightarrow>
          if code < 400 then \<lparr>hc_Name = ''http:'' @ url, hc_Status = ''HEALTHY'', hc_Detail = []\<rparr>
          else \<lparr>hc_Name = ''http:'' @ url, hc_Status = (if code < 500 then ''DEGRADED'' else ''DOWN''), hc_Detail = status\<rparr>)"

subsection \<open>Addresses of sockets\<close>

text \<open>The kernel writes an IPv4 address as its bytes in reverse, two upper-case digits each.\<close>

definition hex2 :: "nat \<Rightarrow> string" where
  "hex2 n = [''0123456789ABCDEF'' ! (n div 16), ''0123456789ABCDEF'' ! (n mod 16)]"

lemma hex_digit_nth:
  assumes "n < 16"
  shows "hex_digit (''0123456789ABCDEF'' ! n) = Some n" "\<not> is_space (''0123456789ABCDEF'' ! n)"
    "''0123456789ABCDEF'' ! n \<noteq> CHR ''-''" "''0123456789ABCDEF'' ! n \<noteq> CHR ''+''"
proof -
  have "list_all (\<lambda>n. hex_digit (''0123456789ABCDEF'' ! n) = Some n \<and> \<not> is_space (''0123456789ABCDEF'' ! n) \<and>
      ''0123456789ABCDEF'' ! n \<noteq> CHR ''-'' \<and> ''0123456789ABCDEF'' ! n \<noteq> CHR ''+'') [0..<16]" by code_simp
  from bspec [OF this [unfolded list_all_iff], of n] assms
  have h: "hex_digit (''0123456789ABCDEF'' ! n) = Some n \<and> \<not> is_space (''0123456789ABCDEF'' ! n) \<and>
      ''0123456789ABCDEF'' ! n \<noteq> CHR ''-'' \<and> ''0123456789ABCDEF'' ! n \<noteq> CHR ''+''" by (simp only: set_upt atLeastLessThan_iff zero_le simp_thms)
  then show "hex_digit (''0123456789ABCDEF'' ! n) = Some n" by (rule conjunct1)
  show "\<not> is_space (''0123456789ABCDEF'' ! n)" by (rule h [THEN conjunct2, THEN conjunct1])
  show "''0123456789ABCDEF'' ! n \<noteq> CHR ''-''" by (rule h [THEN conjunct2, THEN conjunct2, THEN conjunct1])
  show "''0123456789ABCDEF'' ! n \<noteq> CHR ''+''" by (rule h [THEN conjunct2, THEN conjunct2, THEN conjunct2])
qed

lemma atoiHex_hex2: "n < 256 \<Longrightarrow> atoiHex (hex2 n) = int n"
proof -
  assume n: "n < 256"
  define x y where "x = ''0123456789ABCDEF'' ! (n div 16)" and "y = ''0123456789ABCDEF'' ! (n mod 16)"
  have d: "n div 16 < 16" "n mod 16 < 16" using n by simp_all
  have x: "hex_digit x = Some (n div 16)" "\<not> is_space x" "x \<noteq> CHR ''-''" "x \<noteq> CHR ''+''" unfolding x_def by (rule hex_digit_nth [OF d(1)])+
  have y: "hex_digit y = Some (n mod 16)" "\<not> is_space y" unfolding y_def by (rule hex_digit_nth [OF d(2)])+
  have "hex2 n = [x, y]" by (simp only: hex2_def x_def y_def)
  moreover have "TrimSpace [x, y] = [x, y]" using x(2) y(2) by (simp add: TrimSpace_def TrimLeftSpace_def)
  ultimately show ?thesis using x y n by (simp add: atoiHex_def)
qed

text \<open>The address reported for an IPv4 socket is the one the kernel means.\<close>

lemma hexToIP_dotted:
  assumes "a < 256" "b < 256" "c < 256" "d < 256"
  shows "hexToIP (hex2 d @ hex2 c @ hex2 b @ hex2 a) = Itoa (int a) @ ''.'' @ Itoa (int b) @ ''.'' @ Itoa (int c) @ ''.'' @ Itoa (int d)"
proof -
  have l: "length (hex2 n) = 2" for n by (simp add: hex2_def)
  have "take 2 (drop 6 (hex2 d @ hex2 c @ hex2 b @ hex2 a)) = hex2 a" "take 2 (drop 4 (hex2 d @ hex2 c @ hex2 b @ hex2 a)) = hex2 b"
    "take 2 (drop 2 (hex2 d @ hex2 c @ hex2 b @ hex2 a)) = hex2 c" "take 2 (hex2 d @ hex2 c @ hex2 b @ hex2 a) = hex2 d"
    by (simp_all add: hex2_def)
  then show ?thesis using assms by (simp add: hexToIP_def l atoiHex_hex2)
qed

text \<open>No host program is run with more rights than the operator allows: with \<open>PULSE_USE_SUDO\<close> off the
  owners are what \<^verbatim>\<open>ss\<close> itself reports, whatever \<^verbatim>\<open>sudo\<close> would answer.\<close>

lemma no_escalation_by_default:
  assumes "\<not> sudoEnabled useSudo" and "\<And>args. exec1 ''ss'' args = exec2 ''ss'' args"
  shows "ssListenerOwners exec1 has useSudo = ssListenerOwners exec2 has useSudo"
  using assms by (simp add: ssListenerOwners_def runFixedPrivileged_def split: sum.split)

text \<open>Every IPv6 socket but one on the loopback address is reported as bound to all addresses.\<close>

lemma ipv6_reported_public:
  "length h = 32 \<Longrightarrow> map upper_hex_char h \<noteq> ''00000000000000000000000001000000'' \<Longrightarrow> hexToIP h = ''::''"
  by (simp add: hexToIP_def Let_def)

subsection \<open>Owners of sockets\<close>

lemma own_socket_fold: "fold own_socket fds owners inode =
   (case owners inode of Some pid \<Rightarrow> Some pid | None \<Rightarrow> map_option fst (find (\<lambda>(pid, link). socket_inode link = Some inode) fds))"
proof (induction fds arbitrary: owners)
  case (Cons fd fds)
  obtain pid link where fd: "fd = (pid, link)" by (cases fd)
  show ?case using Cons.IH [of "own_socket fd owners"] by (cases "socket_inode link") (auto simp: fd own_socket_def split: option.split)
qed (simp split: option.split)

text \<open>The process a socket is attributed to holds it: it is the first, in the order of the walk, with a
  descriptor of that inode, and there is an owner whenever some readable process has one.\<close>

lemma socket_owner_exact:
  "SocketOwners pf inode = map_option fst (find (\<lambda>(pid, link). socket_inode link = Some inode) (open_fds pf))"
  by (simp add: SocketOwners_def own_socket_fold)

text \<open>The aggregated status is the worst of the checks.\<close>

lemma health_rank_fold: "health_rank (fold (\<lambda>c overall. if health_rank overall < health_rank (hc_Status c) then hc_Status c else overall) cs s) =
    fold max (map (health_rank \<circ> hc_Status) cs) (health_rank s)"
  by (induction cs arbitrary: s) (simp_all add: max_def)

lemma Aggregate_worst: "health_rank (hr_Status (Aggregate cs)) = fold max (map (health_rank \<circ> hc_Status) cs) 0"
  using health_rank_fold [of cs "''HEALTHY''"] by (simp add: Aggregate_def health_rank_def)

end
