(* ===== verification/Pulse_Oidc.thy ===== *)
theory Pulse_Oidc
  imports Pulse_Accounts Pulse_Config Pulse_Views
begin

section \<open>Single sign-on\<close>

text \<open>
  \<^verbatim>\<open>apps/api/internal/oidc/oidc.go\<close> and \<^verbatim>\<open>httpx/handlers_oidc.go\<close>: the authorization code flow with
  PKCE. The identity provider is three functions: what it answers to a GET, to a form posted to it
  and to a GET with an access token. Random bytes and the clock are arguments; SHA-256 is that of the
  record \<open>crypto\<close>. The issuer is taken to be a URL a request can be made for.
\<close>

subsection \<open>Providers and pending states\<close>

record provider_config =
  pc_Name :: string
  pc_Display :: string
  pc_Issuer :: string
  pc_ClientID :: string
  pc_ClientSecret :: string
  pc_Scopes :: "string list"
  pc_RedirectURI :: string

record claims =
  cl_Provider :: string
  cl_Subject :: string
  cl_Email :: string
  cl_EmailVerified :: bool
  cl_Name :: string

record discovery =
  di_Issuer :: string
  di_AuthorizationEndpoint :: string
  di_TokenEndpoint :: string
  di_UserinfoEndpoint :: string
  di_ScopesSupported :: "string list"

text \<open>\<open>pv_once\<close>: the result of the discovery once it has been made, \<open>None\<close> inside for an error.\<close>

record oidc_prov =
  pv_cfg :: provider_config
  pv_once :: "discovery option option"

record stateData =
  sd_Provider :: string
  sd_Verifier :: string
  sd_Nonce :: string
  sd_Created :: time

record oidc_manager =
  om_providers :: "string \<rightharpoonup> oidc_prov"
  om_states :: "string \<rightharpoonup> stateData"

record network =
  nw_get :: "string \<Rightarrow> (int \<times> string) option"
  nw_post :: "string \<Rightarrow> string \<Rightarrow> (int \<times> string) option"
  nw_bearer :: "string \<Rightarrow> string \<Rightarrow> (int \<times> string) option"

definition oidc_NewManager :: "provider_config list \<Rightarrow> oidc_manager" where
  "oidc_NewManager cfgs = \<lparr>om_providers = fold (\<lambda>c ps. ps(pc_Name c \<mapsto> \<lparr>pv_cfg = c, pv_once = None\<rparr>)) cfgs Map.empty, om_states = Map.empty\<rparr>"

definition oidc_Has :: "oidc_manager \<Rightarrow> string \<Rightarrow> bool" where
  "oidc_Has m name \<longleftrightarrow> om_providers m name \<noteq> None"

definition stateTTL :: duration where
  "stateTTL = 600 * second"

definition state_fresh :: "time \<Rightarrow> stateData \<Rightarrow> bool" where
  "state_fresh now d \<longleftrightarrow> time_Sub now (sd_Created d) \<le> stateTTL"

definition states_put :: "time \<Rightarrow> string \<Rightarrow> stateData \<Rightarrow> (string \<rightharpoonup> stateData) \<Rightarrow> (string \<rightharpoonup> stateData)" where
  "states_put now state d m = (\<lambda>k. case m k of None \<Rightarrow> None | Some v \<Rightarrow> if state_fresh now v then Some v else None)(state \<mapsto> d)"

definition states_take :: "time \<Rightarrow> string \<Rightarrow> (string \<rightharpoonup> stateData) \<Rightarrow> stateData option \<times> (string \<rightharpoonup> stateData)" where
  "states_take now state m =
     (case m state of None \<Rightarrow> (None, m) | Some d \<Rightarrow> (if state_fresh now d then Some d else None, m(state := None)))"

definition randToken :: "bytes \<Rightarrow> string" where
  "randToken b = b64_raw B64URL b"

definition s256 :: "crypto \<Rightarrow> string \<Rightarrow> string" where
  "s256 c verifier = b64_raw B64URL (c_sha256 c (str_bytes verifier))"

definition chooseScopes :: "string list \<Rightarrow> string list \<Rightarrow> string list" where
  "chooseScopes desired supported =
     (if supported = [] then desired
      else let out = filter (\<lambda>s. s = ''openid'' \<or> s \<in> set supported) desired in if out = [] then [''openid''] else out)"

subsection \<open>The flow\<close>

definition discoveryShape :: "(string \<times> field_type) list" where
  "discoveryShape = [(''issuer'', FString), (''authorization_endpoint'', FString), (''token_endpoint'', FString), (''userinfo_endpoint'', FString),
     (''scopes_supported'', FList FString)]"

definition discovery_of :: "members \<Rightarrow> discovery" where
  "discovery_of ms = \<lparr>di_Issuer = get_string ''issuer'' ms, di_AuthorizationEndpoint = get_string ''authorization_endpoint'' ms, di_TokenEndpoint = get_string ''token_endpoint'' ms,
     di_UserinfoEndpoint = get_string ''userinfo_endpoint'' ms, di_ScopesSupported = map str_of (get_list ''scopes_supported'' ms)\<rparr>"

definition fetch_discovery :: "network \<Rightarrow> provider_config \<Rightarrow> discovery option" where
  "fetch_discovery net cfg =
     (case nw_get net (rev (dropWhile (\<lambda>c. c = CHR ''/'') (rev (pc_Issuer cfg))) @ ''/.well-known/openid-configuration'') of
        None \<Rightarrow> None
      | Some (status, body) \<Rightarrow>
          if status \<noteq> 200 then None
          else (case json_Decode body of None \<Rightarrow> None | Some j \<Rightarrow> map_option discovery_of (decode_struct False discoveryShape j)))"

text \<open>\<open>sync.Once\<close>: the first call fetches, later calls return what it found, an error included.\<close>

definition discover :: "network \<Rightarrow> string \<Rightarrow> oidc_manager \<Rightarrow> discovery option \<times> oidc_manager" where
  "discover net name m =
     (case om_providers m name of
        None \<Rightarrow> (None, m)
      | Some p \<Rightarrow>
          (case pv_once p of
             Some r \<Rightarrow> (r, m)
           | None \<Rightarrow> let r = fetch_discovery net (pv_cfg p) in (r, m\<lparr>om_providers := (om_providers m)(name \<mapsto> p\<lparr>pv_once := Some r\<rparr>)\<rparr>)))"

definition values_Encode :: "(string \<times> string) list \<Rightarrow> string" where
  "values_Encode kvs = Join (map (\<lambda>(k, v). QueryEscape k @ ''='' @ QueryEscape v) kvs) ''&''"

definition authorization_url :: "crypto \<Rightarrow> discovery \<Rightarrow> provider_config \<Rightarrow> string \<Rightarrow> string \<Rightarrow> string \<Rightarrow> string" where
  "authorization_url c d cfg verifier state nonce =
     di_AuthorizationEndpoint d @ ''?'' @ values_Encode
       [(''client_id'', pc_ClientID cfg), (''code_challenge'', s256 c verifier), (''code_challenge_method'', ''S256''), (''nonce'', nonce),
        (''redirect_uri'', pc_RedirectURI cfg), (''response_type'', ''code''), (''scope'', Join (chooseScopes (pc_Scopes cfg) (di_ScopesSupported d)) '' ''), (''state'', state)]"

definition oidc_Start :: "crypto \<Rightarrow> network \<Rightarrow> bytes \<Rightarrow> bytes \<Rightarrow> bytes \<Rightarrow> time \<Rightarrow> string \<Rightarrow> oidc_manager \<Rightarrow> string option \<times> oidc_manager" where
  "oidc_Start c net rv rs rn now name m =
     (case om_providers m name of
        None \<Rightarrow> (None, m)
      | Some p \<Rightarrow>
          (case discover net name m of
             (None, m1) \<Rightarrow> (None, m1)
           | (Some d, m1) \<Rightarrow>
               let verifier = randToken rv; state = randToken rs; nonce = randToken rn in
               (Some (authorization_url c d (pv_cfg p) verifier state nonce),
                m1\<lparr>om_states := states_put now state \<lparr>sd_Provider = name, sd_Verifier = verifier, sd_Nonce = nonce, sd_Created = now\<rparr> (om_states m1)\<rparr>)))"

definition idClaims :: "(string \<times> field_type) list" where
  "idClaims = [(''sub'', FString), (''email'', FString), (''email_verified'', FBool), (''name'', FString), (''preferred_username'', FString)]"

definition parseIDTokenClaims :: "string \<Rightarrow> members option" where
  "parseIDTokenClaims idToken =
     (case Split idToken (CHR ''.'') of
        [h, p, sig] \<Rightarrow>
          (case b64_raw_decode B64URL p of
             None \<Rightarrow> None
           | Some payload \<Rightarrow> (case json_Unmarshal (bytes_str payload) of None \<Rightarrow> None | Some j \<Rightarrow> decode_struct False idClaims j))
      | _ \<Rightarrow> None)"

definition userinfo :: "network \<Rightarrow> string \<Rightarrow> string \<Rightarrow> members option" where
  "userinfo net endpoint accessToken =
     (case nw_bearer net endpoint accessToken of
        None \<Rightarrow> None
      | Some (status, body) \<Rightarrow> if status \<noteq> 200 then None else (case json_Decode body of None \<Rightarrow> None | Some j \<Rightarrow> decode_struct False idClaims j))"

definition claims_of_token :: "string \<Rightarrow> members option \<Rightarrow> claims" where
  "claims_of_token name cs =
     (case cs of
        None \<Rightarrow> \<lparr>cl_Provider = name, cl_Subject = [], cl_Email = [], cl_EmailVerified = False, cl_Name = []\<rparr>
      | Some ms \<Rightarrow> \<lparr>cl_Provider = name, cl_Subject = get_string ''sub'' ms, cl_Email = get_string ''email'' ms, cl_EmailVerified = get_bool ''email_verified'' ms,
          cl_Name = firstNonEmpty [get_string ''name'' ms, get_string ''preferred_username'' ms]\<rparr>)"

definition add_userinfo :: "members \<Rightarrow> claims \<Rightarrow> claims" where
  "add_userinfo ui cl =
     (let c1 = (if cl_Subject cl = [] then cl\<lparr>cl_Subject := get_string ''sub'' ui\<rparr> else cl);
          c2 = (if cl_Email c1 = [] then c1\<lparr>cl_Email := get_string ''email'' ui, cl_EmailVerified := get_bool ''email_verified'' ui\<rparr> else c1)
      in if cl_Name c2 = [] then c2\<lparr>cl_Name := firstNonEmpty [get_string ''name'' ui, get_string ''preferred_username'' ui]\<rparr> else c2)"

definition token_form :: "provider_config \<Rightarrow> string \<Rightarrow> string \<Rightarrow> string" where
  "token_form cfg code verifier =
     values_Encode [(''client_id'', pc_ClientID cfg), (''client_secret'', pc_ClientSecret cfg), (''code'', code), (''code_verifier'', verifier),
       (''grant_type'', ''authorization_code''), (''redirect_uri'', pc_RedirectURI cfg)]"

definition exchange :: "network \<Rightarrow> string \<Rightarrow> discovery \<Rightarrow> provider_config \<Rightarrow> string \<Rightarrow> string \<Rightarrow> claims option" where
  "exchange net name d cfg code verifier =
     (case nw_post net (di_TokenEndpoint d) (token_form cfg code verifier) of
        None \<Rightarrow> None
      | Some (status, body) \<Rightarrow>
          if status \<noteq> 200 then None
          else (case (case json_Unmarshal (take (2 ^ 20) body) of None \<Rightarrow> None | Some j \<Rightarrow> decode_struct False [(''id_token'', FString), (''access_token'', FString)] j) of
              None \<Rightarrow> None
            | Some tok \<Rightarrow>
                let cl = claims_of_token name (if get_string ''id_token'' tok \<noteq> [] then parseIDTokenClaims (get_string ''id_token'' tok) else None);
                    access = get_string ''access_token'' tok;
                    cl1 = (if (cl_Subject cl = [] \<or> cl_Email cl = []) \<and> di_UserinfoEndpoint d \<noteq> [] \<and> access \<noteq> []
                           then (case userinfo net (di_UserinfoEndpoint d) access of None \<Rightarrow> cl | Some ui \<Rightarrow> add_userinfo ui cl) else cl)
                in if cl_Subject cl1 = [] then None else Some cl1))"

definition oidc_Callback :: "network \<Rightarrow> time \<Rightarrow> string \<Rightarrow> string \<Rightarrow> string \<Rightarrow> oidc_manager \<Rightarrow> claims option \<times> oidc_manager" where
  "oidc_Callback net now name code state m =
     (case om_providers m name of
        None \<Rightarrow> (None, m)
      | Some p \<Rightarrow>
          (case states_take now state (om_states m) of
             (sd, states) \<Rightarrow>
               let m1 = m\<lparr>om_states := states\<rparr> in
               case sd of
                 None \<Rightarrow> (None, m1)
               | Some d \<Rightarrow>
                   if sd_Provider d \<noteq> name then (None, m1)
                   else (case discover net name m1 of
                       (None, m2) \<Rightarrow> (None, m2)
                     | (Some disc, m2) \<Rightarrow> (exchange net name disc (pv_cfg p) code (sd_Verifier d), m2))))"

subsection \<open>Handlers\<close>

definition Redirect :: "string \<Rightarrow> http_response" where
  "Redirect url = \<lparr>rs_Status = 302, rs_Code = [], rs_Message = url, rs_Fields = [], rs_Cookie = None\<rparr>"

definition handleAuthProviders :: "string list \<Rightarrow> (string \<times> string) list" where
  "handleAuthProviders names = map (\<lambda>n. (n, ''/api/v1/auth/'' @ n @ ''/start'')) names"

definition handleOIDCStart :: "crypto \<Rightarrow> network \<Rightarrow> bytes \<Rightarrow> bytes \<Rightarrow> bytes \<Rightarrow> time \<Rightarrow> http_request \<Rightarrow> oidc_manager \<Rightarrow> http_response \<times> oidc_manager" where
  "handleOIDCStart c net rv rs rn now r m =
     (let name = rq_PathValue r ''provider'' in
      if \<not> oidc_Has m name then (Redirect ''/login?error=provider_not_configured'', m)
      else case oidc_Start c net rv rs rn now name m of
          (None, m1) \<Rightarrow> (Redirect ''/login?error=oidc_unavailable'', m1)
        | (Some url, m1) \<Rightarrow> (Redirect url, m1))"

text \<open>The query parameters \<open>error\<close>, \<open>code\<close> and \<open>state\<close> are arguments.\<close>

definition handleOIDCCallback :: "crypto \<Rightarrow> inputs \<Rightarrow> network \<Rightarrow> string \<Rightarrow> string \<Rightarrow> string \<Rightarrow> http_request \<Rightarrow> server_state \<times> oidc_manager \<Rightarrow>
    http_response \<times> server_state \<times> oidc_manager" where
  "handleOIDCCallback c x net e code state r st =
     (case st of (s, m) \<Rightarrow>
        let name = rq_PathValue r ''provider'' in
        if \<not> oidc_Has m name then (Redirect ''/login?error=provider_not_configured'', s, m)
        else if e \<noteq> [] then (Redirect (''/login?error='' @ QueryEscape e), s, m)
        else if code = [] \<or> state = [] then (Redirect ''/login?error=missing_code'', s, m)
        else case oidc_Callback net (in_time x 0) name code state m of
            (None, m1) \<Rightarrow> (Redirect ''/login?error=oidc_failed'', s, m1)
          | (Some cl, m1) \<Rightarrow>
              (case UpsertOIDCUser (cl_Provider cl) (cl_Subject cl) (cl_Email cl) (cl_Name cl) (id_rnd x 0) (id_rnd x 1) (in_time x 1) (ss_store s) of
                 ((Some user, Some mem), store1) \<Rightarrow>
                   (case issueSession c x 2 (mem_OrgID mem) (usr_ID user) (s\<lparr>ss_store := store1\<rparr>) of
                      (None, s1) \<Rightarrow> (Redirect ''/login?error=session_error'', s1, m1)
                    | (Some cookie, s1) \<Rightarrow>
                        let actor = (if usr_Email user \<noteq> [] then usr_Email user else if usr_Name user \<noteq> [] then usr_Name user else usr_ID user) in
                        (with_cookie cookie (Redirect ''/app''),
                         Record x 4 (mem_OrgID mem) actor ''auth.login.oidc'' ''success'' (clientIP r) [(''provider'', name)] s1, m1))
               | (_, store1) \<Rightarrow> (Redirect ''/login?error=account_error'', s\<lparr>ss_store := store1\<rparr>, m1)))"

definition oidc_providers :: "config \<Rightarrow> provider_config list" where
  "oidc_providers cfg = map (\<lambda>p. \<lparr>pc_Name = op_Name p, pc_Display = op_Display p, pc_Issuer = op_Issuer p, pc_ClientID = op_ClientID p, pc_ClientSecret = op_ClientSecret p,
     pc_Scopes = op_Scopes p, pc_RedirectURI = cfg_PublicURL cfg @ ''/api/v1/auth/'' @ op_Name p @ ''/callback''\<rparr>) (cfg_OIDC cfg)"

end
