(* ===== verification/Pulse_Oidc_Props.thy ===== *)
theory Pulse_Oidc_Props
  imports Pulse_Oidc Pulse_Systems
begin

section \<open>Properties of single sign-on\<close>

text \<open>
  The flow as a state machine: starts and callbacks in any order, with any answers of the identity
  provider. Beside the manager the state keeps, for the statements only, what was ever issued under
  each state token. A login consumes a state token issued for the same provider at most ten minutes
  before, and no token serves twice (\<open>single_use\<close>). A failed discovery stays (\<open>invariant_of\<close>).
\<close>

subsection \<open>Starts and callbacks\<close>

datatype sso_op =
    SsoStart crypto network bytes bytes bytes time string
  | SsoCallback network time string string string

type_synonym sso_state = "oidc_manager \<times> (string \<rightharpoonup> stateData)"

fun sso_step :: "sso_op \<Rightarrow> sso_state \<Rightarrow> sso_state" where
  "sso_step (SsoStart c net rv rs rn now name) (m, issued) =
     (let m1 = snd (oidc_Start c net rv rs rn now name m) in
      (m1, if fst (oidc_Start c net rv rs rn now name m) = None then issued else issued(randToken rs := om_states m1 (randToken rs))))"
| "sso_step (SsoCallback net now name code state) (m, issued) = (snd (oidc_Callback net now name code state m), issued)"

text \<open>The token drawn at random was not drawn before.\<close>

fun sso_ok :: "sso_op \<Rightarrow> sso_state \<Rightarrow> bool" where
  "sso_ok (SsoStart c net rv rs rn now name) (m, issued) \<longleftrightarrow> issued (randToken rs) = None"
| "sso_ok (SsoCallback net now name code state) (m, issued) \<longleftrightarrow> True"

text \<open>The state token of a callback that yields an identity.\<close>

fun sso_login :: "sso_op \<Rightarrow> sso_state \<Rightarrow> string option" where
  "sso_login (SsoStart c net rv rs rn now name) (m, issued) = None"
| "sso_login (SsoCallback net now name code state) (m, issued) =
     (if fst (oidc_Callback net now name code state m) = None then None else Some state)"

definition sso_spent :: "sso_state \<Rightarrow> string \<Rightarrow> bool" where
  "sso_spent s k \<longleftrightarrow> snd s k \<noteq> None \<and> om_states (fst s) k = None"

definition sso_inv :: "sso_state \<Rightarrow> bool" where
  "sso_inv s \<longleftrightarrow> (\<forall>k d. om_states (fst s) k = Some d \<longrightarrow> snd s k = Some d)"

text \<open>What a successful callback rests on.\<close>

fun sso_bound :: "sso_op \<Rightarrow> sso_state \<Rightarrow> bool" where
  "sso_bound (SsoStart c net rv rs rn now name) (m, issued) = True"
| "sso_bound (SsoCallback net now name code state) (m, issued) \<longleftrightarrow>
     (fst (oidc_Callback net now name code state m) = None \<or>
      (case issued state of None \<Rightarrow> False | Some d \<Rightarrow> sd_Provider d = name \<and> time_Sub now (sd_Created d) \<le> 600 * second))"

lemma discover_states: "om_states (snd (discover net name m)) = om_states m"
  by (simp add: discover_def Let_def split: option.split)

lemma start_states:
  "om_states (snd (oidc_Start c net rv rs rn now name m)) =
     (if fst (oidc_Start c net rv rs rn now name m) = None then om_states m
      else states_put now (randToken rs) \<lparr>sd_Provider = name, sd_Verifier = randToken rv, sd_Nonce = randToken rn, sd_Created = now\<rparr> (om_states m))"
  using discover_states [of net name m] by (auto simp: oidc_Start_def Let_def split: option.split prod.split)

lemma callback_states:
  "om_states (snd (oidc_Callback net now name code state m)) =
     (if om_providers m name = None then om_states m else (om_states m)(state := None))"
  using discover_states [of net name]
  by (auto simp: oidc_Callback_def states_take_def Let_def split: option.split prod.split)
    (metis option.distinct(1) snd_conv oidc_manager.select_convs(2) oidc_manager.surjective oidc_manager.update_convs(2) fun_upd_triv)+

lemma callback_accepts:
  assumes "fst (oidc_Callback net now name code state m) \<noteq> None"
  shows "\<exists>d. om_states m state = Some d \<and> sd_Provider d = name \<and> state_fresh now d \<and> om_providers m name \<noteq> None"
  using assms by (auto simp: oidc_Callback_def states_take_def Let_def split: option.splits prod.splits if_splits)

lemma states_put_other: "k \<noteq> state \<Longrightarrow> states_put now state d m k = Some v \<Longrightarrow> m k = Some v"
  by (simp add: states_put_def split: option.splits if_splits)

lemma states_put_same: "states_put now state d m state = Some d"
  by (simp add: states_put_def)

lemma sso_inv_step: "sso_inv s \<Longrightarrow> sso_ok a s \<Longrightarrow> sso_inv (sso_step a s)"
proof (cases s; cases a)
  fix m issued c net rv rs rn now name
  assume "sso_inv s" and "s = (m, issued)" and "a = SsoStart c net rv rs rn now name"
  then show "sso_inv (sso_step a s)"
    by (auto simp: sso_inv_def Let_def start_states dest: states_put_other)
next
  fix m issued net now name code state
  assume "sso_inv s" and "s = (m, issued)" and "a = SsoCallback net now name code state"
  then show "sso_inv (sso_step a s)"
    by (auto simp: sso_inv_def callback_states)
qed

interpretation sso: invariant_of sso_step sso_ok "(oidc_NewManager cfgs, Map.empty)" sso_inv for cfgs
  by unfold_locales (simp_all add: sso_inv_step, simp add: sso_inv_def oidc_NewManager_def)

lemma sso_login_spends:
  assumes "sso_inv s" and "sso_login a s = Some k"
  shows "\<not> sso_spent s k \<and> sso_spent (sso_step a s) k"
proof (cases a)
  case (SsoCallback net now name code state)
  obtain m issued where s: "s = (m, issued)" by (cases s)
  have k: "k = state" and f: "fst (oidc_Callback net now name code state m) \<noteq> None"
    using assms(2) by (simp_all add: SsoCallback s split: if_splits)
  from callback_accepts [OF f] obtain d where d: "om_states m state = Some d" "om_providers m name \<noteq> None" by blast
  then have "issued state = Some d" using assms(1) by (auto simp: sso_inv_def s)
  then show ?thesis using d by (simp add: sso_spent_def s k SsoCallback callback_states del: not_None_eq)
qed (use assms in \<open>cases s, simp\<close>)

lemma sso_spent_step:
  assumes "sso_ok a s" and "sso_spent s k"
  shows "sso_spent (sso_step a s) k"
proof (cases s; cases a)
  fix m issued c net rv rs rn now name
  assume e: "s = (m, issued)" "a = SsoStart c net rv rs rn now name"
  then have "k \<noteq> randToken rs" using assms by (auto simp: sso_spent_def)
  then show ?thesis using assms e by (auto simp: sso_spent_def Let_def start_states states_put_def)
next
  fix m issued net now name code state
  assume "s = (m, issued)" "a = SsoCallback net now name code state"
  then show ?thesis using assms by (simp add: sso_spent_def callback_states)
qed

interpretation sso_tokens: single_use sso_step "\<lambda>a s. sso_ok a s \<and> sso_inv s" sso_login sso_spent
  by unfold_locales (simp_all add: sso_login_spends sso_spent_step)

lemma sso_bound_inv: "sso_inv s \<Longrightarrow> sso_bound a s"
proof (cases s; cases a)
  fix m issued net now name code state
  assume i: "sso_inv s" and e: "s = (m, issued)" "a = SsoCallback net now name code state"
  show "sso_bound a s"
  proof (cases "fst (oidc_Callback net now name code state m) = None")
    case False
    from callback_accepts [OF this] i show ?thesis
      by (auto simp: e sso_inv_def state_fresh_def stateTTL_def)
  qed (simp add: e)
qed simp

lemma sso_run_inv: "run_ok sso_ok sso_step ops s \<Longrightarrow> sso_inv s \<Longrightarrow>
    run_ok (\<lambda>a s. sso_ok a s \<and> sso_inv s) sso_step ops s \<and> run_ok sso_bound sso_step ops s"
  by (induction ops arbitrary: s) (simp_all add: sso_inv_step sso_bound_inv)

text \<open>C14: A login through an identity provider rests on one start. In every sequence of starts and
  callbacks of a new manager, whatever the identity provider answers, each callback that yields an
  identity presents a state token that was issued for the same provider at most ten minutes
  before, and no token serves two logins. The hypothesis is that the 24 random bytes of a start do not
  repeat those of an earlier one.\<close>

theorem sso_state_single_use:
  assumes "run_ok sso_ok sso_step ops (oidc_NewManager cfgs, Map.empty)"
  shows "distinct (consumed sso_login sso_step ops (oidc_NewManager cfgs, Map.empty)) \<and>
    run_ok sso_bound sso_step ops (oidc_NewManager cfgs, Map.empty)"
  using sso_run_inv [OF assms sso.inv_init] sso_tokens.consumed_distinct by blast

subsection \<open>A failed discovery\<close>

definition discovery_failed :: "string \<Rightarrow> oidc_manager \<Rightarrow> bool" where
  "discovery_failed name m \<longleftrightarrow> (case om_providers m name of None \<Rightarrow> False | Some p \<Rightarrow> pv_once p = Some None)"

lemma discover_failed:
  "discover net name m = (r, m1) \<Longrightarrow> discovery_failed name m \<Longrightarrow> r = None"
  "discover net other m = (r, m1) \<Longrightarrow> discovery_failed name m \<Longrightarrow> discovery_failed name m1"
  by (auto simp: discovery_failed_def discover_def Let_def split: option.splits if_splits)

lemma discovery_failed_states [simp]: "discovery_failed name (m\<lparr>om_states := t\<rparr>) = discovery_failed name m"
  by (simp add: discovery_failed_def)

lemma start_failed:
  assumes "discovery_failed name m"
  shows "fst (oidc_Start c net rv rs rn now name m) = None" "discovery_failed name (snd (oidc_Start c net rv rs rn now other m))"
  using assms by (auto simp: oidc_Start_def Let_def split: option.split prod.split dest: discover_failed)

lemma discover_failed_states:
  "discover net name (m\<lparr>om_states := t\<rparr>) = (r, m1) \<Longrightarrow> discovery_failed name m \<Longrightarrow> r = None"
  "discover net other (m\<lparr>om_states := t\<rparr>) = (r, m1) \<Longrightarrow> discovery_failed name m \<Longrightarrow> discovery_failed name m1"
  using discover_failed [of net _ "m\<lparr>om_states := t\<rparr>"] by (metis discovery_failed_states)+

lemma callback_failed:
  assumes "discovery_failed name m"
  shows "fst (oidc_Callback net now name code state m) = None" "discovery_failed name (snd (oidc_Callback net now other code state m))"
  using assms by (auto simp: oidc_Callback_def states_take_def Let_def split: option.split prod.split dest: discover_failed_states)

lemma sso_step_failed: "discovery_failed name (fst s) \<Longrightarrow> discovery_failed name (fst (sso_step a s))"
  by (cases s; cases a) (simp_all add: start_failed callback_failed Let_def)

lemma sso_run_failed: "discovery_failed name (fst s) \<Longrightarrow> discovery_failed name (fst (run sso_step ops s))"
  by (induction ops arbitrary: s) (simp_all add: sso_step_failed)

text \<open>C16: A discovery that fails once is never made again: if the identity provider cannot be reached
  at the first start, every later start and callback of that provider fails, whatever happens
  in between and whatever the identity provider answers by then.\<close>

theorem discovery_failure_permanent:
  assumes "om_providers m name = Some p" and "pv_once p = None" and "fetch_discovery net (pv_cfg p) = None"
    and "m' = fst (run sso_step (SsoStart c net rv rs rn now name # ops) (m, issued))"
  shows "fst (oidc_Start c2 net2 rv2 rs2 rn2 now2 name m') = None \<and> fst (oidc_Callback net2 now2 name code state m') = None"
proof -
  have "discovery_failed name (snd (oidc_Start c net rv rs rn now name m))"
    using assms(1-3) by (simp add: oidc_Start_def discover_def discovery_failed_def Let_def)
  then have "discovery_failed name m'" using sso_run_failed by (simp add: assms(4) Let_def)
  then show ?thesis by (simp add: start_failed callback_failed)
qed

subsection \<open>Identities and accounts\<close>

text \<open>C15: An identity whose e-mail address the provider does not vouch for takes over the account with
  that address: if no account is linked to the identity and an account has the address, the callback
  sets a cookie that authenticates as that account, in its organisation and with its role.\<close>

theorem oidc_links_unverified_email:
  assumes "store_reachable (ss_store s)"
    and "oidc_Callback net (in_time x 0) (rq_PathValue r ''provider'') code state m = (Some cl, m1)"
    and "\<not> cl_EmailVerified cl" and "cl_Email cl \<noteq> []"
    and "m_oidcByKey (ss_store s) (cl_Provider cl @ '':'' @ cl_Subject cl) = None"
    and "FindLoginByEmail (ToLower (cl_Email cl)) (ss_store s) = Inr (Some user, Some mem)"
    and "code \<noteq> []" and "state \<noteq> []" and "in_rnd x 2 = Some b"
    and "handleOIDCCallback c x net [] code state r (s, m) = (rsp, s', m')"
  shows "\<exists>cookie. rs_Cookie rsp = Some cookie \<and>
     (\<forall>r2 now. rq_Cookie r2 = Some cookie \<and> now \<le> in_time x 3 + sessionTTL \<longrightarrow>
        Authenticate c now r2 (ss_store s') =
          Some \<lparr>p_UserID = usr_ID user, p_OrgID = mem_OrgID mem, p_Email = usr_Email user, p_Role = roleOf (Some mem),
            p_HasPassword = (usr_PasswordHash user \<noteq> [])\<rparr>)"
proof -
  from assms(6) obtain uid where u: "m_usersByMail (ss_store s) (ToLower (cl_Email cl)) = Some uid"
      "m_users (ss_store s) uid = Some user" "m_memberships (ss_store s) uid = Some mem"
    by (auto simp: FindLoginByEmail_def split: option.splits)
  then have i: "usr_ID user = uid" using accounts.inv_reachable [OF assms(1)] by (auto simp: ids_ok_def)
  have h: "oidc_Has m (rq_PathValue r ''provider'')"
    using callback_accepts [of net "in_time x 0" "rq_PathValue r ''provider''" code state m] assms(2) by (auto simp: oidc_Has_def)
  define store1 where "store1 = (ss_store s)\<lparr>m_oidcByKey := (m_oidcByKey (ss_store s))(cl_Provider cl @ '':'' @ cl_Subject cl \<mapsto> uid)\<rparr>"
  have up: "UpsertOIDCUser (cl_Provider cl) (cl_Subject cl) (cl_Email cl) (cl_Name cl) ro ru t (ss_store s) = ((Some user, Some mem), store1)" for ro ru t
    using assms(4,5) u by (simp add: UpsertOIDCUser_def store1_def)
  obtain cookie s1 where c: "issueSession c x 2 (mem_OrgID mem) uid (s\<lparr>ss_store := store1\<rparr>) = (Some cookie, s1)"
    using assms(9) by (simp add: issueSession_def GenerateToken_def Let_def)
  obtain actor where r: "rs_Cookie rsp = Some cookie"
    "s' = Record x 4 (mem_OrgID mem) actor ''auth.login.oidc'' ''success'' (clientIP r) [(''provider'', rq_PathValue r ''provider'')] s1"
    using assms(10) h assms(2,7,8) up c i by (auto simp: handleOIDCCallback_def Let_def with_cookie_def)
  have "m_users (ss_store (s\<lparr>ss_store := store1\<rparr>)) uid = Some user" "m_memberships (ss_store (s\<lparr>ss_store := store1\<rparr>)) uid = Some mem"
    using u by (simp_all add: store1_def)
  from issued_cookie_authenticates [OF c this(1) i this(2) refl] show ?thesis using r i by auto
qed

subsection \<open>Witnesses\<close>

text \<open>An identity provider that answers every exchange with the address of the seeded account and no
  \<open>email_verified\<close>, one that is down, and the manager that knows it.\<close>

definition demo_idp :: network where
  \<open>demo_idp = \<lparr>nw_get = (\<lambda>_. Some (200, ''{"token_endpoint":"t","userinfo_endpoint":"u"}'')),
     nw_post = (\<lambda>_ _. Some (200, ''{"access_token":"k"}'')), nw_bearer = (\<lambda>_ _. Some (200, ''{"sub":"s","email":"a@b.c"}''))\<rparr>\<close>

definition demo_down :: network where
  "demo_down = \<lparr>nw_get = (\<lambda>_. None), nw_post = (\<lambda>_ _. None), nw_bearer = (\<lambda>_ _. None)\<rparr>"

definition demo_cfg :: provider_config where
  "demo_cfg = \<lparr>pc_Name = ''google'', pc_Display = ''Google'', pc_Issuer = ''i'', pc_ClientID = ''c'', pc_ClientSecret = ''s'',
     pc_Scopes = [''openid''], pc_RedirectURI = ''r''\<rparr>"

definition demo_discovery :: discovery where
  "demo_discovery = \<lparr>di_Issuer = [], di_AuthorizationEndpoint = [], di_TokenEndpoint = ''t'', di_UserinfoEndpoint = ''u'', di_ScopesSupported = []\<rparr>"

definition demo_claims :: claims where
  "demo_claims = \<lparr>cl_Provider = ''google'', cl_Subject = ''s'', cl_Email = ''a@b.c'', cl_EmailVerified = False, cl_Name = []\<rparr>"

lemma demo_fetch: "fetch_discovery demo_idp demo_cfg = Some demo_discovery"
  by code_simp

lemma demo_token:
  \<open>json_Unmarshal ''{"access_token":"k"}'' = Some (JvObj [(''access_token'', ''"k"'', JvStr ''k'')])\<close>
  by code_simp

lemma demo_userinfo:
  \<open>json_Decode ''{"sub":"s","email":"a@b.c"}'' = Some (JvObj [(''sub'', ''"s"'', JvStr ''s''), (''email'', ''"a@b.c"'', JvStr ''a@b.c'')])\<close>
  by code_simp

lemma demo_sso_exchange: "exchange demo_idp ''google'' demo_discovery demo_cfg code verifier = Some demo_claims"
proof -
  have t: \<open>take 1048576 ''{"access_token":"k"}'' = ''{"access_token":"k"}''\<close> by (rule take_all) simp
  have u: \<open>userinfo demo_idp ''u'' ''k'' = Some [(''sub'', ''"s"'', JvStr ''s''), (''email'', ''"a@b.c"'', JvStr ''a@b.c'')]\<close>
    by (simp add: userinfo_def demo_idp_def demo_userinfo decode_struct_def field_of_def idClaims_def EqualFold_def ToLower_def lower_char_def)
  have p: \<open>nw_post demo_idp url form = Some (200, ''{"access_token":"k"}'')\<close> for url form by (simp add: demo_idp_def)
  have d: "di_UserinfoEndpoint demo_discovery = ''u''" by (simp add: demo_discovery_def)
  show ?thesis
    by (simp add: exchange_def p t demo_token d u decode_struct_def field_of_def get_string_def get_member_def get_bool_def
        EqualFold_def ToLower_def lower_char_def claims_of_token_def add_userinfo_def demo_claims_def Let_def del: take_Cons_numeral take_Cons')
qed

definition demo_pending :: stateData where
  "demo_pending = \<lparr>sd_Provider = ''google'', sd_Verifier = randToken [1], sd_Nonce = randToken [3], sd_Created = 0\<rparr>"

definition demo_found :: "string \<rightharpoonup> oidc_prov" where
  "demo_found = [''google'' \<mapsto> \<lparr>pv_cfg = demo_cfg, pv_once = Some (Some demo_discovery)\<rparr>]"

lemma demo_new: "oidc_NewManager [demo_cfg] = \<lparr>om_providers = [''google'' \<mapsto> \<lparr>pv_cfg = demo_cfg, pv_once = None\<rparr>], om_states = Map.empty\<rparr>"
  by (simp add: oidc_NewManager_def demo_cfg_def)

lemma demo_sso_start: "snd (oidc_Start c demo_idp [1] rs [3] 0 ''google'' (oidc_NewManager [demo_cfg])) =
    \<lparr>om_providers = demo_found, om_states = [randToken rs \<mapsto> demo_pending]\<rparr>"
    "fst (oidc_Start c demo_idp [1] rs [3] 0 ''google'' (oidc_NewManager [demo_cfg])) \<noteq> None"
  by (simp_all add: demo_new oidc_Start_def discover_def demo_fetch states_put_def demo_pending_def demo_found_def Let_def)

lemma demo_callback: "oidc_Callback demo_idp 0 ''google'' code state \<lparr>om_providers = demo_found, om_states = [state \<mapsto> demo_pending]\<rparr> =
    (Some demo_claims, \<lparr>om_providers = demo_found, om_states = Map.empty\<rparr>)"
  by (simp add: oidc_Callback_def demo_found_def states_take_def state_fresh_def time_Sub_def sat64_def minDuration_def maxDuration_def demo_pending_def stateTTL_def
      discover_def demo_sso_exchange Let_def)

lemma demo_replay: "fst (oidc_Callback net now name code state \<lparr>om_providers = ps, om_states = Map.empty\<rparr>) = None"
  by (simp add: oidc_Callback_def states_take_def split: option.split)

definition demo_flow :: "sso_op list" where
  "demo_flow = [SsoStart demo_crypto demo_idp [1] [2] [3] 0 ''google'', SsoCallback demo_idp 0 ''google'' ''code'' (randToken [2]),
     SsoCallback demo_idp 0 ''google'' ''code'' (randToken [2])]"

theorem sso_state_single_use_witness:
  "distinct (consumed sso_login sso_step demo_flow (oidc_NewManager [demo_cfg], Map.empty)) \<and>
   consumed sso_login sso_step demo_flow (oidc_NewManager [demo_cfg], Map.empty) = [randToken [2]]"
proof -
  have "run_ok sso_ok sso_step demo_flow (oidc_NewManager [demo_cfg], Map.empty)"
    by (simp add: demo_flow_def Let_def)
  then show ?thesis
    using sso_state_single_use [of demo_flow "[demo_cfg]"] by (simp add: demo_flow_def demo_sso_start demo_callback demo_replay Let_def)
qed

theorem discovery_failure_permanent_witness:
  "fst (oidc_Start demo_crypto demo_idp [1] [2] [3] 60 ''google''
     (fst (run sso_step [SsoStart demo_crypto demo_down [1] [2] [3] 0 ''google''] (oidc_NewManager [demo_cfg], Map.empty)))) = None"
  using discovery_failure_permanent [OF _ _ _ refl, where m = "oidc_NewManager [demo_cfg]" and name = "''google''" and net = demo_down
      and ops = "[]" and issued = Map.empty and p = "\<lparr>pv_cfg = demo_cfg, pv_once = None\<rparr>"]
  by (simp add: demo_new fetch_discovery_def demo_down_def)

definition demo_return :: http_request where
  "demo_return = demo_request\<lparr>rq_PathValue := (\<lambda>_. ''google'')\<rparr>"

theorem oidc_links_unverified_email_witness:
  "\<exists>cookie. rs_Cookie (fst (handleOIDCCallback demo_crypto demo_in demo_idp [] ''code'' ''state'' demo_return
     (New seeded, \<lparr>om_providers = demo_found, om_states = [''state'' \<mapsto> demo_pending]\<rparr>))) = Some cookie"
proof -
  have n: "ss_store (New seeded) = seeded" by (simp add: New_def)
  have "FindLoginByEmail (ToLower (cl_Email demo_claims)) seeded =
      Inr (Some demo_user, Some \<lparr>mem_OrgID = demo_org, mem_UserID = demo_uid, mem_Role = RoleOwner\<rparr>)"
    by (simp add: FindLoginByEmail_def seeded_simps demo_lower demo_claims_def)
  moreover have "m_oidcByKey seeded k = None" for k by (simp add: seeded_def SeedOrgOwner_def NewMemory_def Let_def)
  moreover obtain rsp s' m' where h: "handleOIDCCallback demo_crypto demo_in demo_idp [] ''code'' ''state'' demo_return
     (New seeded, \<lparr>om_providers = demo_found, om_states = [''state'' \<mapsto> demo_pending]\<rparr>) = (rsp, s', m')" by (rule prod_cases3)
  moreover have "cl_Email demo_claims \<noteq> []" "\<not> cl_EmailVerified demo_claims" by (simp_all add: demo_claims_def)
  ultimately show ?thesis
    using oidc_links_unverified_email [OF _ _ _ _ _ _ _ _ _ h, where b = "[2]" and user = demo_user and cl = demo_claims
        and ?m1.0 = "\<lparr>om_providers = demo_found, om_states = Map.empty\<rparr>"]
    by (auto simp: n seeded_reachable demo_in_def demo_return_def demo_callback)
qed

end
