(* ===== verification/Pulse_Scan_Active.thy ===== *)
theory Pulse_Scan_Active
  imports Pulse_Scanner Pulse_Config Pulse_Views
begin

section \<open>The active checks of the scanner\<close>

text \<open>
  \<^verbatim>\<open>apps/api/internal/scanner/checks_active.go\<close>: the probes of the public names of a server, as
  members of the registry of \<open>Pulse_Scanner\<close>. What the guarded client answers is a function of the
  check that asks, the method, the URL and the headers; the root pages, which the scan keeps after the
  first request, are asked under the name \<open>root\<close>. The host part of a URL and the random bytes of the
  markers are further members of that record.
\<close>

subsection \<open>Requests\<close>

definition maxBody :: nat where
  "maxBody = 131072"

datatype same_site = SameSiteUnset | SameSiteDefaultMode | SameSiteLaxMode | SameSiteStrictMode | SameSiteNoneMode

record cookie =
  co_Name :: string
  co_Secure :: bool
  co_HttpOnly :: bool
  co_SameSite :: same_site

record httpResult =
  ht_Status :: int
  ht_Header :: "string \<Rightarrow> string"
  ht_Body :: string
  ht_Cookies :: "cookie list"
  ht_FinalURL :: string

record prober =
  pb_do :: "string \<Rightarrow> string \<Rightarrow> string \<Rightarrow> (string \<times> string) list \<Rightarrow> string + httpResult"
  pb_host :: "string \<Rightarrow> string option"
  pb_random :: "string \<Rightarrow> string \<Rightarrow> bytes"

definition doReq :: "prober \<Rightarrow> string \<Rightarrow> string \<Rightarrow> string \<Rightarrow> (string \<times> string) list \<Rightarrow> string + httpResult" where
  "doReq pb chk meth rawURL headers =
     (case pb_do pb chk meth rawURL ([(''User-Agent'', ''PulseFrix-SecurityScanner/1.0 (+non-destructive)''), (''Accept'', ''*/*'')] @ headers) of
        Inl e \<Rightarrow> Inl e
      | Inr r \<Rightarrow> Inr (r\<lparr>ht_Body := take maxBody (ht_Body r)\<rparr>))"

definition getRoot :: "prober \<Rightarrow> sc_target \<Rightarrow> string + httpResult" where
  "getRoot pb t = doReq pb ''root'' ''GET'' (tg_URL t) []"

text \<open>The marker of a check for a target.\<close>

definition marker :: "prober \<Rightarrow> string \<Rightarrow> sc_target \<Rightarrow> string" where
  "marker pb chk t = ''pulse'' @ hex_encode (pb_random pb chk (tg_URL t))"

definition hostOf :: "prober \<Rightarrow> string \<Rightarrow> string" where
  "hostOf pb rawURL = (case pb_host pb rawURL of None \<Rightarrow> rawURL | Some h \<Rightarrow> h)"

definition right_arrow :: string where "right_arrow = [CHR 0xE2, CHR 0x86, CHR 0x92]"
definition in_quotes :: "string \<Rightarrow> string" where "in_quotes s = [CHR 0x27] @ s @ [CHR 0x27]"

text \<open>What is done for the answer of a request that does not fail.\<close>

definition on_answer :: "string + httpResult \<Rightarrow> (httpResult \<Rightarrow> sc_action list) \<Rightarrow> sc_action list" where
  "on_answer r f = (case r of Inl _ \<Rightarrow> [] | Inr a \<Rightarrow> f a)"

definition each_target :: "(sc_target \<Rightarrow> sc_action list) \<Rightarrow> scan_input \<Rightarrow> sc_action list" where
  "each_target f inp = concat (map f (si_Targets inp))"

subsection \<open>Headers and cookies\<close>

definition wanted_headers :: "(string \<times> string \<times> string) list" where
  "wanted_headers =
     [(''Strict-Transport-Security'', ''HSTS'', ''Add '' @ in_quotes ''Strict-Transport-Security: max-age=63072000; includeSubDomains; preload'' @ ''.''),
      (''Content-Security-Policy'', ''Content-Security-Policy'', ''Define a CSP that restricts script/style/connect sources.''),
      (''X-Content-Type-Options'', ''X-Content-Type-Options'', ''Add '' @ in_quotes ''X-Content-Type-Options: nosniff'' @ ''.''),
      (''Referrer-Policy'', ''Referrer-Policy'', ''Add '' @ in_quotes ''Referrer-Policy: strict-origin-when-cross-origin'' @ ''.''),
      (''Permissions-Policy'', ''Permissions-Policy'', ''Add a Permissions-Policy to disable unused browser features.'')]"

definition missing_header :: "sc_target \<Rightarrow> string \<times> string \<times> string \<Rightarrow> finding" where
  "missing_header t w =
     (case w of (header, label, recommend) \<Rightarrow>
        (new_finding (''hdr-'' @ header @ ''-'' @ tg_FQDN t) SeverityLow 3.1 ''CWE-693'' (''Missing '' @ label @ '' header'') (tg_URL t)
          (tg_FQDN t @ '' responds without the '' @ label @ '' header.'') recommend)\<lparr>fi_References := [''https://owasp.org/www-project-secure-headers/'']\<rparr>)"

definition run_http_security_headers :: "prober \<Rightarrow> scan_input \<Rightarrow> sc_action list" where
  "run_http_security_headers pb = each_target (\<lambda>t.
     case getRoot pb t of
       Inl e \<Rightarrow> [Log LogWarn (hostOf pb (tg_URL t) @ '' unreachable: '' @ e)]
     | Inr r \<Rightarrow>
         let missing = filter (\<lambda>(header, _, _). ht_Header r header = []) wanted_headers in
         Log LogInfo (hostOf pb (tg_URL t) @ '' '' @ right_arrow @ '' '' @ Itoa (ht_Status r) @ '', inspecting headers'') #
         map (\<lambda>w. Emit (missing_header t w)) missing @
         (if missing = [] then [Log LogSuccess (hostOf pb (tg_URL t) @ '' sets all core security headers'')] else []))"

definition run_https_enforcement :: "prober \<Rightarrow> scan_input \<Rightarrow> sc_action list" where
  "run_https_enforcement pb = each_target (\<lambda>t.
     let httpURL = ''http://'' @ tg_FQDN t @ ''/'' in
     case doReq pb ''https-enforcement'' ''GET'' httpURL [] of
       Inl e \<Rightarrow> [Log LogInfo (tg_FQDN t @ '' has no reachable plain-HTTP listener: '' @ e)]
     | Inr r \<Rightarrow>
         if HasPrefix (ToLower (ht_FinalURL r)) ''https://'' then [Log LogSuccess (tg_FQDN t @ '' redirects HTTP '' @ right_arrow @ '' HTTPS'')]
         else if ht_Status r = 200 then
           [Emit ((new_finding (''http-no-redirect-'' @ tg_FQDN t) SeverityMedium 5.9 ''CWE-319'' ''Plain HTTP is served without redirect to HTTPS'' httpURL
              (tg_FQDN t @ '' answers on http:// with 200 and never lands on https://. Traffic (and cookies) can be sent in cleartext.'')
              ''Return a 301 to the https:// URL for all plain-HTTP requests, then enable HSTS.'')
              \<lparr>fi_Evidence := ''GET '' @ httpURL @ '' '' @ right_arrow @ '' '' @ Itoa (ht_Status r) @ '' (final: '' @ ht_FinalURL r @ '')'',
               fi_References := [''https://owasp.org/Top10/A02_2021-Cryptographic_Failures/'']\<rparr>)]
         else [])"

definition cookie_flags :: "cookie \<Rightarrow> string list" where
  "cookie_flags c =
     (if co_Secure c then [] else [''Secure'']) @ (if co_HttpOnly c then [] else [''HttpOnly'']) @
     (if co_SameSite c = SameSiteNoneMode \<or> co_SameSite c = SameSiteDefaultMode then [''SameSite''] else [])"

definition cookie_finding :: "sc_target \<Rightarrow> cookie \<Rightarrow> finding" where
  "cookie_finding t c =
     (new_finding (''cookie-'' @ tg_FQDN t @ ''-'' @ co_Name c) SeverityMedium 5.4 ''CWE-1004''
       (''Cookie '' @ in_quotes (co_Name c) @ '' missing '' @ Join (cookie_flags c) ''/'') (tg_URL t)
       (''The cookie '' @ in_quotes (co_Name c) @ '' is set without '' @ Join (cookie_flags c) '', '' @ ''. This exposes it to theft (no Secure/HttpOnly) or CSRF (weak SameSite).'')
       ''Set the Secure and HttpOnly flags and SameSite=Lax (or Strict) on session cookies.'')
       \<lparr>fi_Evidence := ''Set-Cookie: '' @ co_Name c, fi_References := [''https://owasp.org/www-community/controls/SecureCookieAttribute'']\<rparr>"

definition run_cookie_security :: "prober \<Rightarrow> scan_input \<Rightarrow> sc_action list" where
  "run_cookie_security pb = each_target (\<lambda>t. on_answer (getRoot pb t) (\<lambda>r.
     map (\<lambda>c. Emit (cookie_finding t c)) (filter (\<lambda>c. cookie_flags c \<noteq> []) (ht_Cookies r))))"

definition evil_origin :: string where "evil_origin = ''https://pulse-scanner.example''"

definition run_cors_policy :: "prober \<Rightarrow> scan_input \<Rightarrow> sc_action list" where
  "run_cors_policy pb = each_target (\<lambda>t. on_answer (doReq pb ''cors-policy'' ''GET'' (tg_URL t) [(''Origin'', evil_origin)]) (\<lambda>r.
     let acao = ht_Header r ''Access-Control-Allow-Origin''; acac = EqualFold (ht_Header r ''Access-Control-Allow-Credentials'') ''true'' in
     if acao = evil_origin \<and> acac then
       [Emit ((new_finding (''cors-reflect-'' @ tg_FQDN t) SeverityHigh 7.5 ''CWE-942'' ''CORS reflects arbitrary Origin with credentials'' (tg_URL t)
          (tg_FQDN t @ '' reflects any Origin in Access-Control-Allow-Origin while also allowing credentials '' @ em_dash @ '' any site can read authenticated responses.'')
          ''Never reflect Origin blindly. Allow-list exact origins and only send Allow-Credentials to trusted ones.'')
          \<lparr>fi_Evidence := ''Origin: '' @ evil_origin @ '' '' @ right_arrow @ '' Access-Control-Allow-Origin: '' @ acao @ ''; Allow-Credentials: true'',
           fi_References := [''https://portswigger.net/web-security/cors'']\<rparr>)]
     else if acao = ''*'' \<and> acac then
       [Emit (new_finding (''cors-wildcard-'' @ tg_FQDN t) SeverityMedium 5.3 ''CWE-942'' ''CORS wildcard with credentials'' (tg_URL t)
          (tg_FQDN t @ '' combines Access-Control-Allow-Origin: * with credentials (browsers block this, but it signals a misconfigured policy).'')
          (''Use an explicit origin allow-list instead of '' @ in_quotes ''*'' @ '' when credentials are involved.''))]
     else []))"

definition run_clickjacking :: "prober \<Rightarrow> scan_input \<Rightarrow> sc_action list" where
  "run_clickjacking pb = each_target (\<lambda>t. on_answer (getRoot pb t) (\<lambda>r.
     if ht_Header r ''X-Frame-Options'' = [] \<and> \<not> Contains (ToLower (ht_Header r ''Content-Security-Policy'')) ''frame-ancestors'' then
       [Emit ((new_finding (''clickjack-'' @ tg_FQDN t) SeverityMedium 4.3 ''CWE-1021'' ''Page can be framed (clickjacking)'' (tg_URL t)
          (tg_FQDN t @ '' sets neither X-Frame-Options nor a CSP frame-ancestors directive, so it can be embedded in a hostile iframe.'')
          (''Add '' @ in_quotes ''X-Frame-Options: DENY'' @ '' (or SAMEORIGIN) and a CSP '' @ in_quotes ''frame-ancestors'' @ '' directive.''))
          \<lparr>fi_References := [''https://owasp.org/www-community/attacks/Clickjacking'']\<rparr>)]
     else []))"

definition ToUpper :: "string \<Rightarrow> string" where
  "ToUpper s = map (\<lambda>c. let n = of_char c :: nat in if 97 \<le> n \<and> n \<le> 122 then char_of (n - 32) else c) s"

definition risky_methods :: "string list" where
  "risky_methods = [''TRACE'', ''TRACK'', ''PUT'', ''DELETE'', ''CONNECT'']"

definition run_http_methods :: "prober \<Rightarrow> scan_input \<Rightarrow> sc_action list" where
  "run_http_methods pb = each_target (\<lambda>t. on_answer (doReq pb ''http-methods'' ''OPTIONS'' (tg_URL t) []) (\<lambda>r.
     let allow = ht_Header r ''Allow''; found = filter (\<lambda>m. m \<in> set risky_methods) (map (\<lambda>m. ToUpper (TrimSpace m)) (Split allow (CHR '',''))) in
     if allow = [] then []
     else if found \<noteq> [] then
       [Emit ((new_finding (''methods-'' @ tg_FQDN t) SeverityLow 4 ''CWE-650'' (''Risky HTTP methods enabled: '' @ Join found '', '') (tg_URL t)
          (tg_FQDN t @ '' advertises '' @ Join found '', '' @ '' via OPTIONS. TRACE enables cross-site tracing; PUT/DELETE may allow unintended writes.'')
          (''Disable methods the app doesn't use (e.g. limit_except in nginx) '' @ em_dash @ '' especially TRACE.''))
          \<lparr>fi_Evidence := ''Allow: '' @ allow\<rparr>)]
     else []))"

definition hasVersionDigits :: "string \<Rightarrow> bool" where
  "hasVersionDigits s = list_ex is_digit s"

definition run_server_banner :: "prober \<Rightarrow> scan_input \<Rightarrow> sc_action list" where
  "run_server_banner pb = each_target (\<lambda>t. on_answer (getRoot pb t) (\<lambda>r.
     let server = ht_Header r ''Server''; powered = ht_Header r ''X-Powered-By'' in
     if hasVersionDigits server \<or> powered \<noteq> [] then
       [Emit ((new_finding (''banner-'' @ tg_FQDN t) SeverityInfo 2.5 ''CWE-200'' ''Software version disclosed in headers'' (tg_URL t)
          (tg_FQDN t @ '' leaks software details:'' @ (if server \<noteq> [] then '' Server: '' @ server @ ''.'' else []) @
           (if powered \<noteq> [] then '' X-Powered-By: '' @ powered @ ''.'' else []))
          ''Suppress version banners (server_tokens off; remove X-Powered-By).'')
          \<lparr>fi_Evidence := TrimSpace (''Server: '' @ server @ ''  X-Powered-By: '' @ powered)\<rparr>)]
     else []))"

subsection \<open>Probes\<close>

definition severityCVSS :: "string \<Rightarrow> rat" where
  "severityCVSS sev =
     (if sev = SeverityCritical then 9.1 else if sev = SeverityHigh then 7.5 else if sev = SeverityMedium then 5.3
      else if sev = SeverityLow then 3.1 else 0)"

definition sensitive_paths :: "(string \<times> string \<times> string \<times> string) list" where
  "sensitive_paths =
     [(''/.env'', ''environment file'', SeverityCritical, ''A .env file typically holds secrets, DB passwords and API keys.''),
      (''/.git/config'', ''Git repository'', SeverityHigh, ''An exposed .git directory can leak your full source history.''),
      (''/.git/HEAD'', ''Git repository'', SeverityHigh, ''An exposed .git directory can leak your full source history.''),
      (''/.svn/entries'', ''SVN metadata'', SeverityMedium, ''Exposed version-control metadata can leak source and structure.''),
      (''/.aws/credentials'', ''AWS credentials'', SeverityCritical, ''Cloud credentials grant direct access to your AWS account.''),
      (''/.htpasswd'', ''htpasswd file'', SeverityHigh, ''Contains hashed HTTP basic-auth credentials.''),
      (''/config.php.bak'', ''config backup'', SeverityHigh, ''Backup config files often expose credentials in plaintext.''),
      (''/docker-compose.yml'', ''compose file'', SeverityMedium, ''May reveal service topology and embedded secrets.''),
      (''/wp-config.php.bak'', ''WordPress config backup'', SeverityCritical, ''A WordPress config backup exposes database credentials.''),
      (''/phpinfo.php'', ''phpinfo'', SeverityMedium, ''phpinfo() dumps environment, paths and module details.''),
      (''/server-status'', ''Apache status'', SeverityMedium, ''mod_status exposes live request and client information.''),
      (''/actuator/env'', ''Spring actuator'', SeverityHigh, ''Spring Boot actuator endpoints can leak env vars and secrets.''),
      (''/.DS_Store'', ''macOS metadata'', SeverityLow, ''A .DS_Store file leaks directory/file names.''),
      (''/backup.zip'', ''backup archive'', SeverityHigh, ''A public backup archive can expose source and data.''),
      (''/.well-known/security.txt'', ''security.txt'', SeverityInfo, ''Present (good practice) '' @ em_dash @ '' no action required beyond keeping it current.'')]"

definition bool_text :: "bool \<Rightarrow> string" where
  "bool_text b = (if b then ''true'' else ''false'')"

text \<open>The answer to one sensitive path; \<open>soft404\<close> and \<open>fpLen\<close> describe the answer to a random path.\<close>

definition exposed_answer :: "sc_target \<Rightarrow> string \<Rightarrow> bool \<Rightarrow> nat \<Rightarrow> string \<times> string \<times> string \<times> string \<Rightarrow> httpResult \<Rightarrow> sc_action list" where
  "exposed_answer t base soft404 fpLen pr r =
     (case pr of (path, label, sev, detail) \<Rightarrow>
        if ht_Status r \<noteq> 200 \<or> ht_Body r = [] then []
        else if soft404 \<and> \<bar>int (length (ht_Body r)) - int fpLen\<bar> < 32 then []
        else if sev = SeverityInfo then [Log LogSuccess (tg_FQDN t @ '' publishes security.txt'')]
        else [Emit ((new_finding (''exposed-'' @ tg_FQDN t @ path) sev (severityCVSS sev) ''CWE-538'' (''Exposed '' @ label @ '' at '' @ path) (base @ path)
                (detail @ '' It responded 200 at '' @ path @ ''.'') ''Block this path at the reverse proxy and remove the file from the web root.'')
                \<lparr>fi_Evidence := ''GET '' @ base @ path @ '' '' @ right_arrow @ '' 200 ('' @ Itoa (int (length (ht_Body r))) @ '' bytes)'',
                 fi_References := [''https://owasp.org/Top10/A05_2021-Security_Misconfiguration/'']\<rparr>)])"

definition runExposedFiles :: "prober \<Rightarrow> scan_input \<Rightarrow> sc_action list" where
  "runExposedFiles pb = each_target (\<lambda>t.
     let base = TrimRightSlash (tg_URL t);
         fp = doReq pb ''exposed-files'' ''GET'' (base @ ''/'' @ marker pb ''exposed-files'' t @ ''-notfound'') [];
         soft404 = (case fp of Inl _ \<Rightarrow> False | Inr r \<Rightarrow> ht_Status r = 200);
         fpLen = (case fp of Inl _ \<Rightarrow> 0 | Inr r \<Rightarrow> length (ht_Body r))
     in Log LogInfo (hostOf pb (tg_URL t) @ '' probing '' @ Itoa (int (length sensitive_paths)) @ '' sensitive paths (soft-404='' @ bool_text soft404 @ '')'') #
        concat (map (\<lambda>pr. on_answer (doReq pb ''exposed-files'' ''GET'' (base @ fst pr) []) (exposed_answer t base soft404 fpLen pr)) sensitive_paths))"

definition listing_paths :: "string list" where
  "listing_paths = [''/'', ''/uploads/'', ''/files/'', ''/backup/'', ''/static/'', ''/assets/'']"

definition run_directory_listing :: "prober \<Rightarrow> scan_input \<Rightarrow> sc_action list" where
  "run_directory_listing pb = each_target (\<lambda>t. concat (map (\<lambda>p.
     on_answer (doReq pb ''directory-listing'' ''GET'' (TrimRightSlash (tg_URL t) @ p) []) (\<lambda>r.
       if ht_Status r \<noteq> 200 then []
       else if Contains (ht_Body r) ''<title>Index of /'' \<or> Contains (ht_Body r) ''Directory listing for'' then
         [Emit (new_finding (''dirlist-'' @ tg_FQDN t @ p) SeverityMedium 5.3 ''CWE-548'' (''Directory listing enabled at '' @ p) (tg_URL t @ p)
            (''The server returns an auto-generated file index at '' @ p @ '', exposing the directory's contents.'')
            (''Disable autoindex (nginx: '' @ in_quotes ''autoindex off;'' @ '') and serve an explicit index file.''))]
       else [])) listing_paths))"

definition run_reflected_input :: "prober \<Rightarrow> scan_input \<Rightarrow> sc_action list" where
  "run_reflected_input pb = each_target (\<lambda>t.
     let m = marker pb ''reflected-input'' t; probe = tg_URL t @ ''/?q='' @ m @ ''&search='' @ m in
     on_answer (doReq pb ''reflected-input'' ''GET'' probe []) (\<lambda>r.
       let ct = ht_Header r ''Content-Type'' in
       if Contains (ht_Body r) m then
         [Emit ((new_finding (''reflect-'' @ tg_FQDN t) (if Contains ct ''text/html'' then SeverityMedium else SeverityLow) 4.7 ''CWE-79''
            ''Query parameter reflected in the response'' probe
            (''A unique marker sent in a query string was reflected back in an HTML response. This is a potential reflected-XSS sink '' @ em_dash @
             '' it needs manual confirmation of the output context and encoding.'')
            ''Context-encode all user input on output and apply a strict CSP. Confirm whether the reflection is exploitable.'')
            \<lparr>fi_Evidence := ''reflected marker: '' @ m @ '' (Content-Type: '' @ ct @ '')'', fi_References := [''https://owasp.org/www-community/attacks/xss/'']\<rparr>)]
       else []))"

definition sql_signatures :: "string list" where
  "sql_signatures =
     [''SQL syntax'', ''mysql_fetch'', ''MySQLSyntaxErrorException'', ''You have an error in your SQL syntax'',
      ''ORA-01756'', ''ORA-00933'', ''PostgreSQL query failed'', ''pg_query'', ''SQLite3::SQLException'',
      ''sqlite3.OperationalError'', ''Unclosed quotation mark'', ''Microsoft OLE DB Provider for SQL Server'',
      ''SQLServer JDBC Driver'', ''System.Data.SqlClient'', ''Npgsql.'']"

definition sqlErrorSignature :: "string \<Rightarrow> string" where
  "sqlErrorSignature body = (case find (Contains body) sql_signatures of None \<Rightarrow> [] | Some s \<Rightarrow> s)"

definition run_sql_error :: "prober \<Rightarrow> scan_input \<Rightarrow> sc_action list" where
  "run_sql_error pb = each_target (\<lambda>t.
     let probe = tg_URL t @ ''/?id=1%27'' in
     on_answer (doReq pb ''sql-error'' ''GET'' probe []) (\<lambda>r.
       let sig = sqlErrorSignature (ht_Body r) in
       if sig \<noteq> [] then
         [Emit ((new_finding (''sqlerr-'' @ tg_FQDN t) SeverityMedium 6.5 ''CWE-89'' ''Database error triggered by a quote (potential SQL injection)'' probe
            (''Adding a single quote to a parameter produced a database error message ('' @ sig @ ''). This is a strong indicator of unsanitised SQL '' @ em_dash @
             '' it requires manual confirmation.'')
            ''Use parameterised queries / prepared statements and never build SQL by string concatenation. Validate exploitability manually.'')
            \<lparr>fi_Evidence := ''signature: '' @ sig, fi_References := [''https://owasp.org/Top10/A03_2021-Injection/'']\<rparr>)]
       else []))"

definition redirect_params :: "string list" where
  "redirect_params = [''next'', ''url'', ''redirect'', ''return'', ''returnUrl'', ''r'']"

definition redirect_probe :: "sc_target \<Rightarrow> string \<Rightarrow> string" where
  "redirect_probe t p = tg_URL t @ ''/?'' @ p @ ''='' @ QueryEscape ''https://example.com/''"

text \<open>The parameters are tried in order up to the first that lands on the foreign host.\<close>

fun try_redirects :: "prober \<Rightarrow> sc_target \<Rightarrow> string list \<Rightarrow> sc_action list" where
  "try_redirects pb t [] = []"
| "try_redirects pb t (p # ps) =
     (case doReq pb ''open-redirect'' ''GET'' (redirect_probe t p) [] of
        Inl _ \<Rightarrow> try_redirects pb t ps
      | Inr r \<Rightarrow>
          if hostOf pb (ht_FinalURL r) = ''example.com'' then
            [Emit ((new_finding (''openredir-'' @ tg_FQDN t @ ''-'' @ p) SeverityMedium 6.1 ''CWE-601'' (''Open redirect via '' @ in_quotes p @ '' parameter'') (redirect_probe t p)
               (tg_FQDN t @ '' redirects to an attacker-controlled external URL supplied in the '' @ in_quotes p @ '' parameter. This aids phishing and can chain into SSRF/OAuth theft.'')
               ''Only redirect to allow-listed relative paths; reject absolute external URLs.'')
               \<lparr>fi_Evidence := ''final URL: '' @ ht_FinalURL r, fi_References := [''https://owasp.org/www-community/attacks/Open_redirect'']\<rparr>)]
          else try_redirects pb t ps)"

definition run_open_redirect :: "prober \<Rightarrow> scan_input \<Rightarrow> sc_action list" where
  "run_open_redirect pb = each_target (\<lambda>t. try_redirects pb t redirect_params)"

subsection \<open>The list of checks\<close>

definition active_def :: "string \<Rightarrow> string \<Rightarrow> string \<Rightarrow> string \<Rightarrow> string \<Rightarrow> (scan_input \<Rightarrow> sc_action list) \<Rightarrow> check_def" where
  "active_def i c name owasp desc f =
     \<lparr>cd_meta = \<lparr>ck_ID = i, ck_Category = c, ck_Name = name, ck_Description = desc, ck_Kind = KindActive, ck_OWASP = owasp,
        ck_Status = [], ck_Count = 0, ck_Note = [], ck_DurationMS = 0\<rparr>, cd_run = (\<lambda>inp. (f inp, None))\<rparr>"

definition activeChecks :: "prober \<Rightarrow> check_def list" where
  "activeChecks pb =
     [active_def ''http-security-headers'' ''api-security'' ''HTTP Security Headers'' owaspA05
        ''Live check of response headers: HSTS, CSP, X-Content-Type-Options, Referrer-Policy, Permissions-Policy.'' (run_http_security_headers pb),
      active_def ''https-enforcement'' ''crypto-transport'' ''HTTPS Enforcement'' owaspA02
        ''Confirms plain HTTP redirects to HTTPS and that HSTS is present.'' (run_https_enforcement pb),
      active_def ''cookie-security'' ''auth-session'' ''Cookie Security Flags'' owaspA05
        ''Checks Set-Cookie for Secure, HttpOnly and SameSite.'' (run_cookie_security pb),
      active_def ''cors-policy'' ''api-security'' ''CORS Misconfiguration'' owaspA05
        ''Sends a foreign Origin and checks whether it is reflected with credentials.'' (run_cors_policy pb),
      active_def ''clickjacking'' ''client-side'' ''Clickjacking Protection'' owaspA05
        ''Flags pages framable due to missing X-Frame-Options and CSP frame-ancestors.'' (run_clickjacking pb),
      active_def ''http-methods'' ''api-security'' ''Dangerous HTTP Methods'' owaspA05
        ''Uses OPTIONS to detect TRACE / PUT / DELETE being advertised.'' (run_http_methods pb),
      active_def ''server-banner'' ''info-disclosure'' ''Version / Banner Disclosure'' owaspA05
        ''Reads Server and X-Powered-By headers for leaked software versions.'' (run_server_banner pb),
      active_def ''exposed-files'' ''secrets-creds'' ''Exposed Sensitive Files'' owaspA05
        ''Probes for public .env, .git, backups and admin/debug endpoints (GET only).'' (runExposedFiles pb),
      active_def ''directory-listing'' ''info-disclosure'' ''Directory Listing'' owaspA05
        (''Detects autoindex '' @ in_quotes ''Index of /'' @ '' pages that leak file structure.'') (run_directory_listing pb),
      active_def ''reflected-input'' ''client-side'' ''Reflected Input (potential XSS)'' owaspA03
        ''Sends a unique benign marker in a query parameter and checks for unescaped reflection.'' (run_reflected_input pb),
      active_def ''sql-error'' ''injection'' ''SQL Error Signature (potential SQLi)'' owaspA03
        ''Appends a single quote to a parameter and looks for database error strings.'' (run_sql_error pb),
      active_def ''open-redirect'' ''server-side'' ''Open Redirect'' owaspA01
        ''Checks common redirect parameters for redirection to an external host.'' (run_open_redirect pb)]"

subsection \<open>What the probes reach\<close>

text \<open>The URLs of a target: below its own address, or the plain one of its name.\<close>

definition own_endpoint :: "sc_target \<Rightarrow> string \<Rightarrow> bool" where
  "own_endpoint t u \<longleftrightarrow> HasPrefix u (TrimRightSlash (tg_URL t)) \<or> u = ''http://'' @ tg_FQDN t @ ''/''"

definition agree_on_own :: "scan_input \<Rightarrow> prober \<Rightarrow> prober \<Rightarrow> bool" where
  "agree_on_own inp pb1 pb2 \<longleftrightarrow> pb_host pb1 = pb_host pb2 \<and> pb_random pb1 = pb_random pb2 \<and>
     (\<forall>chk meth u hs. (meth = ''GET'' \<or> meth = ''OPTIONS'') \<and> list_ex (\<lambda>t. own_endpoint t u) (si_Targets inp) \<longrightarrow>
        pb_do pb1 chk meth u hs = pb_do pb2 chk meth u hs)"

lemma TrimRightSlash_prefix: "HasPrefix (u @ v) (TrimRightSlash u)"
proof -
  have "u = TrimRightSlash u @ rev (takeWhile (\<lambda>c. c = CHR ''/'') (rev u))"
    unfolding TrimRightSlash_def by (metis rev_append rev_rev_ident takeWhile_dropWhile_id)
  then show ?thesis unfolding HasPrefix_iff by (metis append.assoc)
qed

lemma own_urls: "own_endpoint t (tg_URL t @ v)" "own_endpoint t (tg_URL t)" "own_endpoint t (TrimRightSlash (tg_URL t) @ v)"
    "own_endpoint t (''http://'' @ tg_FQDN t @ ''/'')"
  using TrimRightSlash_prefix [of "tg_URL t"] TrimRightSlash_prefix [of "tg_URL t" "[]"]
  by (simp_all add: own_endpoint_def HasPrefix_iff)

lemma doReq_agree:
  assumes "agree_on_own inp pb1 pb2" and "t \<in> set (si_Targets inp)" and "own_endpoint t u"
  shows "doReq pb1 chk ''GET'' u hs = doReq pb2 chk ''GET'' u hs" "doReq pb1 chk ''OPTIONS'' u hs = doReq pb2 chk ''OPTIONS'' u hs"
proof -
  have "list_ex (\<lambda>t. own_endpoint t u) (si_Targets inp)" using assms(2,3) by (auto simp: list_ex_iff)
  then have "pb_do pb1 chk ''GET'' u l = pb_do pb2 chk ''GET'' u l" "pb_do pb1 chk ''OPTIONS'' u l = pb_do pb2 chk ''OPTIONS'' u l" for l
    using assms(1) by (auto simp: agree_on_own_def)
  then show "doReq pb1 chk ''GET'' u hs = doReq pb2 chk ''GET'' u hs" "doReq pb1 chk ''OPTIONS'' u hs = doReq pb2 chk ''OPTIONS'' u hs"
    unfolding doReq_def by simp_all
qed

lemma each_target_cong: "(\<And>t. t \<in> set (si_Targets inp) \<Longrightarrow> f t = g t) \<Longrightarrow> each_target f inp = each_target g inp"
  by (simp add: each_target_def cong: map_cong)

lemma run_names_agree:
  assumes "agree_on_own inp pb1 pb2"
  shows "hostOf pb1 = hostOf pb2" "marker pb1 = marker pb2"
  using assms by (simp_all add: agree_on_own_def hostOf_def marker_def fun_eq_iff)

lemma try_redirects_agree:
  assumes "agree_on_own inp pb1 pb2" and "t \<in> set (si_Targets inp)"
  shows "try_redirects pb1 t ps = try_redirects pb2 t ps"
proof (induction ps)
  case (Cons p ps)
  have "doReq pb1 c ''GET'' (redirect_probe t p) [] = doReq pb2 c ''GET'' (redirect_probe t p) []" for c
    unfolding redirect_probe_def by (rule doReq_agree [OF assms own_urls(1)])
  then show ?case unfolding try_redirects.simps run_names_agree [OF assms(1)] Cons.IH by simp
qed simp

lemma run_agree:
  assumes a: "agree_on_own inp pb1 pb2"
  shows "run_http_security_headers pb1 inp = run_http_security_headers pb2 inp"
    "run_https_enforcement pb1 inp = run_https_enforcement pb2 inp"
    "run_cookie_security pb1 inp = run_cookie_security pb2 inp"
    "run_cors_policy pb1 inp = run_cors_policy pb2 inp"
    "run_clickjacking pb1 inp = run_clickjacking pb2 inp"
    "run_http_methods pb1 inp = run_http_methods pb2 inp"
    "run_server_banner pb1 inp = run_server_banner pb2 inp"
    "runExposedFiles pb1 inp = runExposedFiles pb2 inp"
    "run_directory_listing pb1 inp = run_directory_listing pb2 inp"
    "run_reflected_input pb1 inp = run_reflected_input pb2 inp"
    "run_sql_error pb1 inp = run_sql_error pb2 inp"
    "run_open_redirect pb1 inp = run_open_redirect pb2 inp"
proof -
  note [simp] = doReq_agree [OF a] own_urls run_names_agree [OF a] getRoot_def
  show "run_http_security_headers pb1 inp = run_http_security_headers pb2 inp"
    unfolding run_http_security_headers_def run_names_agree [OF a] by (rule each_target_cong) simp
  show "run_https_enforcement pb1 inp = run_https_enforcement pb2 inp"
    unfolding run_https_enforcement_def Let_def by (rule each_target_cong) (simp only: doReq_agree [OF a] own_urls)
  show "run_cookie_security pb1 inp = run_cookie_security pb2 inp"
    unfolding run_cookie_security_def by (rule each_target_cong) simp
  show "run_cors_policy pb1 inp = run_cors_policy pb2 inp"
    unfolding run_cors_policy_def by (rule each_target_cong) simp
  show "run_clickjacking pb1 inp = run_clickjacking pb2 inp"
    unfolding run_clickjacking_def by (rule each_target_cong) simp
  show "run_http_methods pb1 inp = run_http_methods pb2 inp"
    unfolding run_http_methods_def by (rule each_target_cong) simp
  show "run_server_banner pb1 inp = run_server_banner pb2 inp"
    unfolding run_server_banner_def by (rule each_target_cong) simp
  show "runExposedFiles pb1 inp = runExposedFiles pb2 inp"
    unfolding runExposedFiles_def Let_def by (rule each_target_cong) (simp only: doReq_agree [OF a] own_urls run_names_agree [OF a])
  show "run_directory_listing pb1 inp = run_directory_listing pb2 inp"
    unfolding run_directory_listing_def by (rule each_target_cong) (simp only: doReq_agree [OF a] own_urls)
  show "run_reflected_input pb1 inp = run_reflected_input pb2 inp"
    unfolding run_reflected_input_def Let_def by (rule each_target_cong) (simp only: doReq_agree [OF a] own_urls run_names_agree [OF a])
  show "run_sql_error pb1 inp = run_sql_error pb2 inp"
    unfolding run_sql_error_def Let_def by (rule each_target_cong) (simp only: doReq_agree [OF a] own_urls)
  show "run_open_redirect pb1 inp = run_open_redirect pb2 inp"
    unfolding run_open_redirect_def by (rule each_target_cong) (rule try_redirects_agree [OF a])
qed


definition demo_target :: sc_target where
  "demo_target = \<lparr>tg_URL = ''https://a.b'', tg_FQDN = ''a.b'', tg_TLS = True\<rparr>"

definition demo_page :: httpResult where
  "demo_page = \<lparr>ht_Status = 200, ht_Header = (\<lambda>_. []), ht_Body = ''x'', ht_Cookies = [], ht_FinalURL = ''https://a.b''\<rparr>"

text \<open>A server that answers every request below its address, and a world in which POST and foreign names
  answer too.\<close>

definition demo_prober :: "bool \<Rightarrow> prober" where
  "demo_prober wide = \<lparr>pb_do = (\<lambda>chk meth u hs. if wide \<or> meth \<noteq> ''POST'' \<and> HasPrefix u ''https://a.b'' then Inr demo_page else Inl ''refused''),
     pb_host = (\<lambda>_. None), pb_random = (\<lambda>_ _. [0])\<rparr>"

definition demo_probed :: scan_input where
  "demo_probed = \<lparr>si_ServerID = ''s'', si_Hostname = [], si_Resources = [], si_Targets = [demo_target]\<rparr>"


subsection \<open>A whole scan\<close>

lemma active_meta: "map (ck_ID \<circ> cd_meta) (activeChecks pb) =
    [''http-security-headers'', ''https-enforcement'', ''cookie-security'', ''cors-policy'', ''clickjacking'', ''http-methods'', ''server-banner'',
     ''exposed-files'', ''directory-listing'', ''reflected-input'', ''sql-error'', ''open-redirect'']"
    "list_all (\<lambda>d. ck_Kind (cd_meta d) = KindActive) (activeChecks pb)"
  by (simp_all add: activeChecks_def active_def_def)

lemma registry_ids_distinct: "distinct (map (ck_ID \<circ> cd_meta) (registry (activeChecks pb)))"
proof -
  have "map (ck_ID \<circ> cd_meta) passiveChecks =
    [''localhost-isolation'', ''docker-exposure'', ''port-exposure'', ''tls-validity'', ''base-image'', ''resource-boundaries'',
     ''ssh-hardening'', ''cipher-suite'', ''shared-ssh-keys'', ''privileged-flag'', ''blank-passwords'', ''default-credentials'',
     ''nginx-headers'', ''server-tokens'', ''rate-limiting-cfg'']"
    by (simp add: passiveChecks_def passive_def_def)
  then show ?thesis by (simp add: registry_def active_meta(1))
qed

lemma selected_ids_distinct: "distinct (map (ck_ID \<circ> cd_meta) (selectChecks (activeChecks pb) mode cats))"
  unfolding selectChecks_def by (rule distinct_map_filter [OF registry_ids_distinct])

text \<open>C22: A finished scan is complete, whatever the mode, the categories and the answers of the network: every
  selected check has its entry, in order, with its outcome (skipped, issues or pass) and its
  number of findings; the findings are all those the checks emitted, stamped with their check, most
  serious first and otherwise in the order emitted.\<close>

theorem full_scan_result:
  "let defs = selectChecks (activeChecks pb) mode cats; r = scan_run k inp defs (queued_job k i inp mode cats defs) in
    sn_Status r = ScanDone \<and> sn_Progress r = 1 \<and> sn_Completed r = length defs \<and> sn_FinishedAt r \<noteq> None \<and>
    map outcome (sn_Checks r) = map (outcome_of inp) defs \<and>
    sn_Findings r = sort_key (\<lambda>f. severityRank (fi_Severity f)) (concat (map (findings_of inp) defs))"
  using scan_outcomes [OF selected_ids_distinct] by (simp only: Let_def simp_thms)

text \<open>No finding without an answer: when no request succeeds the active checks emit nothing.\<close>

lemma emitted_each_target: "emitted (each_target f inp) = concat (map (\<lambda>t. emitted (f t)) (si_Targets inp))"
proof -
  have "emitted (concat xss) = concat (map emitted xss)" for xss by (induction xss) simp_all
  then show ?thesis by (simp add: each_target_def comp_def)
qed

lemma redirects_unreachable: "(\<And>chk m u hs. doReq pb chk m u hs = Inl e) \<Longrightarrow> try_redirects pb t ps = []"
  by (induction ps) simp_all

lemma concat_Nil: "concat (map (\<lambda>x. []) xs) = []"
  by (induction xs) simp_all

lemma unreachable_is_clean:
  assumes "\<And>chk m u hs. pb_do pb chk m u hs = Inl e"
  shows "concat (map (\<lambda>d. emitted (fst (cd_run d inp))) (activeChecks pb)) = []"
proof -
  have "doReq pb chk m u hs = Inl e" for chk m u hs by (simp add: doReq_def assms)
  then show ?thesis
    by (simp add: activeChecks_def active_def_def run_http_security_headers_def run_https_enforcement_def run_cookie_security_def run_cors_policy_def
        run_clickjacking_def run_http_methods_def run_server_banner_def runExposedFiles_def run_directory_listing_def run_reflected_input_def
        run_sql_error_def run_open_redirect_def emitted_each_target getRoot_def on_answer_def redirects_unreachable concat_Nil Let_def)
qed

text \<open>A cookie that has no \<open>SameSite\<close> attribute at all is not reported for it.\<close>

lemma samesite_absent_not_reported: "co_SameSite c = SameSiteUnset \<Longrightarrow> ''SameSite'' \<notin> set (cookie_flags c)"
  by (simp add: cookie_flags_def)

end
