(* ===== verification/Pulse_Collect.thy ===== *)
theory Pulse_Collect
  imports Pulse_Sockets Pulse_Detect Pulse_Views
begin

section \<open>Metrics of the host\<close>

text \<open>
  \<^verbatim>\<open>agent/internal/metrics/collector.go\<close>, \<^verbatim>\<open>disk_linux.go\<close> and the detectors
  \<^verbatim>\<open>discovery/filesystem.go\<close>, \<^verbatim>\<open>fsstat_linux.go\<close>, \<^verbatim>\<open>network.go\<close> and \<^verbatim>\<open>os.go\<close>. Counters are words of 64 bits,
  so sums and differences wrap as they do in Go; percentages are exact rationals. The files are those of
  \<open>hostfs\<close>, and \<open>statfs\<close> a function from paths to the answer of the system call.
\<close>

type_synonym u64 = "64 word"

definition ParseUint_value :: "string \<Rightarrow> u64" where
  "ParseUint_value s = of_nat (uint_value s)"

definition float64_of :: "u64 \<Rightarrow> rat" where
  "float64_of w = of_nat (unat w)"

subsection \<open>Processor time\<close>

record cpuTimes =
  ct_user :: u64
  ct_system :: u64
  ct_iowait :: u64
  ct_idle :: u64
  ct_total :: u64

definition cpu_times :: "u64 list \<Rightarrow> cpuTimes" where
  "cpu_times vals =
     \<lparr>ct_user = (if 1 < length vals then vals ! 0 + vals ! 1 else 0),
      ct_system = (if 2 < length vals then vals ! 2 else 0) + (if 6 < length vals then vals ! 5 + vals ! 6 else 0),
      ct_iowait = (if 4 < length vals then vals ! 4 else 0),
      ct_idle = (if 3 < length vals then vals ! 3 else 0) + (if 4 < length vals then vals ! 4 else 0),
      ct_total = sum_list vals\<rparr>"

definition readCPUTimes :: "hostfs \<Rightarrow> cpuTimes option" where
  "readCPUTimes fs =
     (case find (\<lambda>line. HasPrefix line ''cpu '') (fs_lines fs ''/proc/stat'') of
        None \<Rightarrow> None
      | Some line \<Rightarrow> Some (cpu_times (map ParseUint_value (tl (Fields line)))))"

record collector =
  cl_prev :: "cpuTimes option"
  cl_rootfs :: string

definition NewCollector :: "string \<Rightarrow> collector" where
  "NewCollector rootfs = \<lparr>cl_prev = None, cl_rootfs = (if rootfs = [] then ''/'' else rootfs)\<rparr>"

text \<open>The shares of the time between two readings: all that is not idle, user, system and waiting.\<close>

definition cpu_shares :: "cpuTimes \<Rightarrow> cpuTimes \<Rightarrow> rat \<times> rat \<times> rat \<times> rat" where
  "cpu_shares prev cur =
     (let td = float64_of (ct_total cur - ct_total prev); idleD = float64_of (ct_idle cur - ct_idle prev) in
      if td \<le> 0 then (0, 0, 0, 0)
      else (round2 ((1 - idleD / td) * 100), round2 (float64_of (ct_user cur - ct_user prev) / td * 100),
            round2 (float64_of (ct_system cur - ct_system prev) / td * 100), round2 (float64_of (ct_iowait cur - ct_iowait prev) / td * 100)))"

definition cpuBreakdown :: "hostfs \<Rightarrow> collector \<Rightarrow> (rat \<times> rat \<times> rat \<times> rat) \<times> collector" where
  "cpuBreakdown fs c =
     (case readCPUTimes fs of
        None \<Rightarrow> ((0, 0, 0, 0), c)
      | Some cur \<Rightarrow>
          (case cl_prev c of None \<Rightarrow> (0, 0, 0, 0) | Some prev \<Rightarrow> cpu_shares prev cur, c\<lparr>cl_prev := Some cur\<rparr>))"

subsection \<open>Load, memory, network and disks\<close>

definition loadAvg :: "hostfs \<Rightarrow> gofloat \<times> gofloat \<times> gofloat" where
  "loadAvg fs =
     (let f = Fields (fs_text fs ''/proc/loadavg'') in
      if length f < 3 then (Fin 0, Fin 0, Fin 0) else (parsed_value (f ! 0), parsed_value (f ! 1), parsed_value (f ! 2)))"

definition meminfo_line :: "string \<Rightarrow> (string \<Rightarrow> u64) \<Rightarrow> (string \<Rightarrow> u64)" where
  "meminfo_line line m =
     (case Cut line (CHR '':'') of (k, val, ok) \<Rightarrow>
        let flds = Fields val in if \<not> ok \<or> flds = [] then m else m(k := ParseUint_value (flds ! 0) * 1024))"

definition memInfo :: "hostfs \<Rightarrow> u64 \<times> u64 \<times> u64 \<times> u64 \<times> u64" where
  "memInfo fs =
     (let m = fold meminfo_line (fs_lines fs ''/proc/meminfo'') (\<lambda>_. 0);
          t = m ''MemTotal''; avail = m ''MemAvailable''; swapTotal = m ''SwapTotal''; swapFree = m ''SwapFree''
      in (t, if avail \<le> t then t - avail else 0, avail, swapTotal, if swapFree \<le> swapTotal then swapTotal - swapFree else 0))"

definition net_line :: "string \<Rightarrow> u64 \<times> u64 \<Rightarrow> u64 \<times> u64" where
  "net_line line acc =
     (case acc of (rx, tx) \<Rightarrow> case Cut line (CHR '':'') of (name, rest, ok) \<Rightarrow>
        let flds = Fields rest in
        if \<not> ok \<or> TrimSpace name = ''lo'' \<or> length flds < 16 then acc else (rx + ParseUint_value (flds ! 0), tx + ParseUint_value (flds ! 8)))"

definition netTotals :: "hostfs \<Rightarrow> u64 \<times> u64" where
  "netTotals fs = fold net_line (drop 2 (fs_lines fs ''/proc/net/dev'')) (0, 0)"

definition isWholeDisk :: "string \<Rightarrow> bool" where
  "isWholeDisk name =
     (if list_ex (HasPrefix name) [''loop'', ''ram'', ''dm-'', ''sr'', ''fd'', ''md''] then False
      else if HasPrefix name ''nvme'' then \<not> Contains name ''p''
      else if list_ex (HasPrefix name) [''sd'', ''vd'', ''xvd'', ''hd''] then \<not> is_digit (last name)
      else False)"

definition disk_line :: "string \<Rightarrow> u64 \<times> u64 \<Rightarrow> u64 \<times> u64" where
  "disk_line line acc =
     (case acc of (rd, wr) \<Rightarrow> let flds = Fields line in
        if length flds < 10 \<or> \<not> isWholeDisk (flds ! 2) then acc else (rd + ParseUint_value (flds ! 5) * 512, wr + ParseUint_value (flds ! 9) * 512))"

definition diskIO :: "hostfs \<Rightarrow> u64 \<times> u64" where
  "diskIO fs = fold disk_line (fs_lines fs ''/proc/diskstats'') (0, 0)"

record statfs_t =
  sf_Bsize :: u64
  sf_Blocks :: u64
  sf_Bfree :: u64
  sf_Bavail :: u64
  sf_Files :: u64
  sf_Ffree :: u64

definition diskUsage :: "(string \<Rightarrow> statfs_t option) \<Rightarrow> string \<Rightarrow> u64 \<times> u64" where
  "diskUsage stat path =
     (case stat (if path = [] then ''/'' else path) of
        None \<Rightarrow> (0, 0)
      | Some st \<Rightarrow>
          let t = sf_Blocks st * sf_Bsize st; free = sf_Bavail st * sf_Bsize st in (t, if free \<le> t then t - free else 0))"

record host_sample =
  hs_Timestamp :: time
  hs_CPUPercent :: rat
  hs_CPUUserPct :: rat
  hs_CPUSystemPct :: rat
  hs_CPUIowaitPct :: rat
  hs_Load1 :: gofloat
  hs_Load5 :: gofloat
  hs_Load15 :: gofloat
  hs_MemTotalBytes :: u64
  hs_MemUsedBytes :: u64
  hs_MemAvailBytes :: u64
  hs_SwapTotal :: u64
  hs_SwapUsed :: u64
  hs_NetRxBytes :: u64
  hs_NetTxBytes :: u64
  hs_DiskTotalBytes :: u64
  hs_DiskUsedBytes :: u64
  hs_DiskReadBytes :: u64
  hs_DiskWriteBytes :: u64

definition collector_Sample :: "hostfs \<Rightarrow> (string \<Rightarrow> statfs_t option) \<Rightarrow> time \<Rightarrow> collector \<Rightarrow> host_sample \<times> collector" where
  "collector_Sample fs stat now c =
     (case cpuBreakdown fs c of ((cpu, user, system, iowait), c1) \<Rightarrow>
      case loadAvg fs of (l1, l5, l15) \<Rightarrow>
      case memInfo fs of (memTotal, memUsed, memAvail, swapTotal, swapUsed) \<Rightarrow>
      case netTotals fs of (rx, tx) \<Rightarrow>
      case diskUsage stat (cl_rootfs c) of (diskTotal, diskUsed) \<Rightarrow>
      case diskIO fs of (diskRead, diskWrite) \<Rightarrow>
        (\<lparr>hs_Timestamp = now, hs_CPUPercent = cpu, hs_CPUUserPct = user, hs_CPUSystemPct = system, hs_CPUIowaitPct = iowait,
          hs_Load1 = l1, hs_Load5 = l5, hs_Load15 = l15, hs_MemTotalBytes = memTotal, hs_MemUsedBytes = memUsed, hs_MemAvailBytes = memAvail,
          hs_SwapTotal = swapTotal, hs_SwapUsed = swapUsed, hs_NetRxBytes = rx, hs_NetTxBytes = tx, hs_DiskTotalBytes = diskTotal,
          hs_DiskUsedBytes = diskUsed, hs_DiskReadBytes = diskRead, hs_DiskWriteBytes = diskWrite\<rparr>, c1))"

subsection \<open>Filesystems\<close>

record fsStat =
  ft_TotalBytes :: u64
  ft_FreeBytes :: u64
  ft_UsedBytes :: u64
  ft_TotalInode :: u64
  ft_FreeInode :: u64
  ft_UsedInode :: u64

definition statfs_of :: "statfs_t \<Rightarrow> fsStat" where
  "statfs_of s =
     \<lparr>ft_TotalBytes = sf_Blocks s * sf_Bsize s, ft_FreeBytes = sf_Bavail s * sf_Bsize s, ft_UsedBytes = sf_Blocks s * sf_Bsize s - sf_Bfree s * sf_Bsize s,
      ft_TotalInode = sf_Files s, ft_FreeInode = sf_Ffree s, ft_UsedInode = sf_Files s - sf_Ffree s\<rparr>"

definition realFSTypes :: "string list" where
  "realFSTypes = [''ext2'', ''ext3'', ''ext4'', ''xfs'', ''btrfs'', ''zfs'', ''f2fs'', ''reiserfs'', ''jfs'', ''vfat'', ''ntfs'']"

definition skipMountPrefixes :: "string list" where
  "skipMountPrefixes = [''/proc'', ''/sys'', ''/dev'', ''/run'', ''/var/lib/docker/'', ''/var/lib/kubelet/'', ''/var/lib/containers/'',
     ''/snap/'', ''/host/proc'', ''/host/sys'', ''/host/dev'', ''/host/run'']"

definition skipMount :: "string \<Rightarrow> bool" where
  "skipMount mount = list_ex (\<lambda>p. mount = p \<or> HasPrefix mount p) skipMountPrefixes"

text \<open>\<open>int(...)\<close> of a word of 64 bits is its signed value.\<close>

definition usage_pct :: "u64 \<Rightarrow> u64 \<Rightarrow> int" where
  "usage_pct used cap = (if cap = 0 then 0 else sint (used * 100 div cap))"

definition usage_health :: "int \<Rightarrow> int \<Rightarrow> string" where
  "usage_health usedPct inodePct =
     (if 95 \<le> usedPct \<or> 95 \<le> inodePct then ''DOWN'' else if 85 \<le> usedPct \<or> 85 \<le> inodePct then ''DEGRADED'' else ''HEALTHY'')"

definition mount_resource :: "time \<Rightarrow> string \<Rightarrow> string \<Rightarrow> string \<Rightarrow> fsStat \<Rightarrow> mresource" where
  "mount_resource now device mount fstype st =
     (let usedPct = usage_pct (ft_UsedBytes st) (ft_TotalBytes st); inodePct = usage_pct (ft_UsedInode st) (ft_TotalInode st) in
      (plain_resource ''filesystem'' (''mount:'' @ mount) mount ''filesystem'' now
        [(''device'', AStr device), (''fstype'', AStr fstype), (''total_bytes'', AInt (uint (ft_TotalBytes st))), (''free_bytes'', AInt (uint (ft_FreeBytes st))),
         (''used_bytes'', AInt (uint (ft_UsedBytes st))), (''used_pct'', AInt usedPct), (''inode_total'', AInt (uint (ft_TotalInode st))),
         (''inode_used'', AInt (uint (ft_UsedInode st))), (''inode_pct'', AInt inodePct)])\<lparr>mr_Health := usage_health usedPct inodePct\<rparr>)"

text \<open>State: the resources so far, the mount points and the devices seen.\<close>

definition mount_line :: "(string \<Rightarrow> statfs_t option) \<Rightarrow> string \<Rightarrow> time \<Rightarrow> string \<Rightarrow> mresource list \<times> string set \<times> string set \<Rightarrow>
    mresource list \<times> string set \<times> string set" where
  "mount_line stat rootfs now line acc =
     (case acc of (out, mounts, devices) \<Rightarrow>
        let flds = Fields line; device = flds ! 0; mount = flds ! 1; fstype = flds ! 2; dev = HasPrefix device ''/dev/'' in
        if length flds < 3 then acc
        else if fstype \<notin> set realFSTypes \<or> skipMount mount then acc
        else if mount \<in> mounts \<or> dev \<and> device \<in> devices then acc
        else case stat (if rootfs \<noteq> [] then path_Join rootfs mount else mount) of
            None \<Rightarrow> acc
          | Some s \<Rightarrow>
              if ft_TotalBytes (statfs_of s) = 0 then acc
              else (out @ [mount_resource now device mount fstype (statfs_of s)], insert mount mounts, if dev then insert device devices else devices))"

definition FilesystemDetector_Available :: "hostfs \<Rightarrow> availability" where
  "FilesystemDetector_Available fs =
     (if \<not> fs_exists fs ''/proc/mounts'' then \<lparr>av_Available = False, av_Reason = ''/proc/mounts not present''\<rparr> else \<lparr>av_Available = True, av_Reason = []\<rparr>)"

definition FilesystemDetector_Detect :: "hostfs \<Rightarrow> (string \<Rightarrow> statfs_t option) \<Rightarrow> string \<Rightarrow> time \<Rightarrow> mresource list" where
  "FilesystemDetector_Detect fs stat rootfs now =
     (let mountsFile = (if rootfs \<noteq> [] \<and> fs_exists fs (rootfs @ ''/proc/mounts'') then rootfs @ ''/proc/mounts'' else ''/proc/mounts'')
      in fst (fold (mount_line stat rootfs now) (fs_lines fs mountsFile) ([], {}, {})))"

subsection \<open>Interfaces and the system\<close>

definition uatoi :: "string \<Rightarrow> u64" where
  "uatoi s = fold (\<lambda>c n. n * 10 + of_nat (of_char c - 48)) (takeWhile is_digit (TrimSpace s)) 0"

record iface =
  if_Name :: string
  if_RxBytes :: u64
  if_RxPackets :: u64
  if_RxErrors :: u64
  if_RxDrops :: u64
  if_TxBytes :: u64
  if_TxPackets :: u64
  if_TxErrors :: u64
  if_TxDrops :: u64

definition netdev_row :: "string \<Rightarrow> iface option" where
  "netdev_row line =
     (case Cut line (CHR '':'') of (name, rest, ok) \<Rightarrow>
        let f = Fields rest in
        if \<not> ok \<or> length f < 16 then None
        else Some \<lparr>if_Name = TrimSpace name, if_RxBytes = uatoi (f ! 0), if_RxPackets = uatoi (f ! 1), if_RxErrors = uatoi (f ! 2), if_RxDrops = uatoi (f ! 3),
          if_TxBytes = uatoi (f ! 8), if_TxPackets = uatoi (f ! 9), if_TxErrors = uatoi (f ! 10), if_TxDrops = uatoi (f ! 11)\<rparr>)"

definition parseNetDev :: "hostfs \<Rightarrow> iface list" where
  "parseNetDev fs = List.map_filter netdev_row (drop 2 (fs_lines fs ''/proc/net/dev''))"

definition iface_resource :: "hostfs \<Rightarrow> time \<Rightarrow> iface \<Rightarrow> mresource" where
  "iface_resource fs now i =
     (let operstate = fs_text fs (''/sys/class/net/'' @ if_Name i @ ''/operstate'') in
      (plain_resource ''network_interface'' (''iface:'' @ if_Name i) (if_Name i) ''network'' now
        [(''rx_bytes'', AInt (uint (if_RxBytes i))), (''tx_bytes'', AInt (uint (if_TxBytes i))), (''rx_packets'', AInt (uint (if_RxPackets i))),
         (''tx_packets'', AInt (uint (if_TxPackets i))), (''rx_errors'', AInt (uint (if_RxErrors i))), (''tx_errors'', AInt (uint (if_TxErrors i))),
         (''rx_drops'', AInt (uint (if_RxDrops i))), (''tx_drops'', AInt (uint (if_TxDrops i))), (''operstate'', AStr operstate)])
        \<lparr>mr_Health := (if operstate = ''down'' then ''DOWN'' else ''HEALTHY'')\<rparr>)"

definition NetworkDetector_Available :: "hostfs \<Rightarrow> availability" where
  "NetworkDetector_Available fs =
     (if fs_exists fs ''/proc/net/dev'' then \<lparr>av_Available = True, av_Reason = []\<rparr> else \<lparr>av_Available = False, av_Reason = ''/proc/net/dev not present''\<rparr>)"

definition NetworkDetector_Detect :: "hostfs \<Rightarrow> time \<Rightarrow> mresource list" where
  "NetworkDetector_Detect fs now = map (iface_resource fs now) (filter (\<lambda>i. if_Name i \<noteq> ''lo'') (parseNetDev fs))"

definition os_release_line :: "string \<Rightarrow> string \<times> string \<Rightarrow> string \<times> string" where
  "os_release_line line acc =
     (case acc of (name, version) \<Rightarrow> case Cut line (CHR ''='') of (k, v0, ok) \<Rightarrow>
        let v = trim_quotes v0 in
        if \<not> ok then acc
        else if k = ''NAME'' then (v, version) else if k = ''VERSION'' then (name, v)
        else if k = ''PRETTY_NAME'' \<and> name = [] then (v, version) else acc)"

definition parseOSRelease :: "hostfs \<Rightarrow> string \<Rightarrow> string \<times> string" where
  "parseOSRelease fs goos =
     (case fold os_release_line (fs_lines fs ''/etc/os-release'') ([], []) of (name, version) \<Rightarrow> (if name = [] then goos else name, version))"

text \<open>\<open>int64(f)\<close> truncates; what does not fit is the least value, as on amd64.\<close>

definition int64_of_float :: "gofloat \<Rightarrow> int" where
  "int64_of_float f =
     (case f of
        Fin x \<Rightarrow> (let n = (if 0 \<le> x then \<lfloor>x\<rfloor> else \<lceil>x\<rceil>) in if - (2 ^ 63) \<le> n \<and> n < 2 ^ 63 then n else - (2 ^ 63))
      | _ \<Rightarrow> - (2 ^ 63))"

definition parseUptime :: "hostfs \<Rightarrow> int" where
  "parseUptime fs = (let flds = Fields (fs_text fs ''/proc/uptime'') in if flds = [] then 0 else int64_of_float (parsed_value (flds ! 0)))"

definition OSDetector_Detect :: "hostfs \<Rightarrow> string \<Rightarrow> string \<Rightarrow> string \<Rightarrow> int \<Rightarrow> time \<Rightarrow> mresource list" where
  "OSDetector_Detect fs hostname goos goarch cores now =
     (case parseOSRelease fs goos of (osName, osVersion) \<Rightarrow>
        let kernel0 = fs_text fs ''/proc/sys/kernel/osrelease''; kernel = (if kernel0 = [] then goos else kernel0) in
        [plain_resource ''system'' (''system:'' @ hostname) hostname ''os'' now
          [(''os'', AStr osName), (''os_version'', AStr osVersion), (''kernel'', AStr kernel), (''architecture'', AStr goarch), (''hostname'', AStr hostname),
           (''cpu_cores'', AInt cores), (''uptime_sec'', AInt (parseUptime fs))]])"

subsection \<open>Percentages\<close>

text \<open>Counters that only grow, whose sum fits: the growth of some of them is part of the growth of all.\<close>

definition grew :: "u64 list \<Rightarrow> u64 list \<Rightarrow> bool" where
  "grew vs0 vs1 \<longleftrightarrow> list_all2 (\<le>) vs0 vs1 \<and> sum_list (map unat vs1) < 2 ^ 64"

lemma grew_part:
  assumes "grew vs0 vs1" and "I \<subseteq> {..<length vs1}"
  shows "unat ((\<Sum>i\<in>I. vs1 ! i) - (\<Sum>i\<in>I. vs0 ! i)) = (\<Sum>i\<in>I. unat (vs1 ! i) - unat (vs0 ! i))"
    and "(\<Sum>i\<in>I. unat (vs1 ! i) - unat (vs0 ! i)) \<le> (\<Sum>i<length vs1. unat (vs1 ! i) - unat (vs0 ! i))"
proof -
  have le: "vs0 ! i \<le> vs1 ! i" if "i \<in> I" for i
    using assms that by (auto simp: grew_def list_all2_conv_all_nth)
  have "(\<Sum>i\<in>I. vs1 ! i) - (\<Sum>i\<in>I. vs0 ! i) = (\<Sum>i\<in>I. vs1 ! i - vs0 ! i)" by (rule sum_subtractf [symmetric])
  also have "\<dots> = (\<Sum>i\<in>I. of_nat (unat (vs1 ! i) - unat (vs0 ! i)))"
    by (rule sum.cong) (simp_all add: le of_nat_diff word_le_nat_alt [symmetric])
  also have "\<dots> = of_nat (\<Sum>i\<in>I. unat (vs1 ! i) - unat (vs0 ! i))" by simp
  finally have w: "(\<Sum>i\<in>I. vs1 ! i) - (\<Sum>i\<in>I. vs0 ! i) = of_nat (\<Sum>i\<in>I. unat (vs1 ! i) - unat (vs0 ! i))" .
  show part: "(\<Sum>i\<in>I. unat (vs1 ! i) - unat (vs0 ! i)) \<le> (\<Sum>i<length vs1. unat (vs1 ! i) - unat (vs0 ! i))"
    by (rule sum_mono2) (use assms(2) in auto)
  have "(\<Sum>i<length vs1. unat (vs1 ! i) - unat (vs0 ! i)) \<le> (\<Sum>i<length vs1. unat (vs1 ! i))" by (rule sum_mono) simp
  also have "\<dots> = sum_list (map unat vs1)" by (simp add: sum_list_sum_nth atLeast0LessThan)
  finally have "(\<Sum>i\<in>I. unat (vs1 ! i) - unat (vs0 ! i)) < 2 ^ 64" using part assms(1) by (simp add: grew_def)
  then show "unat ((\<Sum>i\<in>I. vs1 ! i) - (\<Sum>i\<in>I. vs0 ! i)) = (\<Sum>i\<in>I. unat (vs1 ! i) - unat (vs0 ! i))"
    unfolding w by (subst unat_of_nat) (simp add: take_bit_eq_mod del: of_nat_sum)
qed

lemma sum_list_upt: "sum_list vs = (\<Sum>i<length vs. vs ! i)" for vs :: "u64 list"
  by (simp add: sum_list_sum_nth atLeast0LessThan)

lemma share_le_total:
  assumes "grew vs0 vs1" and "I \<subseteq> {..<length vs1}"
  shows "float64_of ((\<Sum>i\<in>I. vs1 ! i) - (\<Sum>i\<in>I. vs0 ! i)) \<le> float64_of (sum_list vs1 - sum_list vs0)"
proof -
  have "length vs0 = length vs1" using assms(1) by (auto simp: grew_def dest: list_all2_lengthD)
  then have "sum_list vs1 - sum_list vs0 = (\<Sum>i<length vs1. vs1 ! i) - (\<Sum>i<length vs1. vs0 ! i)" by (simp add: sum_list_upt)
  then have "unat (sum_list vs1 - sum_list vs0) = (\<Sum>i<length vs1. unat (vs1 ! i) - unat (vs0 ! i))"
    using grew_part(1) [OF assms(1), of "{..<length vs1}"] by simp
  then show ?thesis unfolding float64_of_def of_nat_le_iff using grew_part [OF assms] by simp
qed

lemma float64_of_nonneg: "0 \<le> float64_of w"
  unfolding float64_of_def by (rule of_nat_0_le_iff)

lemma round2_percent: "0 \<le> x \<Longrightarrow> x \<le> 100 \<Longrightarrow> 0 \<le> round2 x \<and> round2 x \<le> 100"
proof -
  assume x: "0 \<le> x" "x \<le> 100"
  define n where "n = \<lfloor>x * 100 + 1 / 2\<rfloor>"
  have n: "0 \<le> n" "n \<le> 10000" using x by (simp_all add: n_def floor_le_iff)
  then have "round2 x = of_int n / 100" using x by (simp add: round2_def Let_def n_def)
  moreover have "(of_int n :: rat) \<le> of_int 10000" using n(2) by (simp only: of_int_le_iff)
  ultimately show ?thesis using n(1) by simp
qed

lemma percent_range: "0 \<le> part \<Longrightarrow> part \<le> td \<Longrightarrow> 0 < td \<Longrightarrow> 0 \<le> part / td * 100 \<and> part / td * 100 \<le> 100" for part td :: rat
  by (simp add: divide_simps)

lemma cpu_times_shares:
  "\<exists>I. I \<subseteq> {..<n} \<and> (\<forall>vs. length vs = n \<longrightarrow> ct_user (cpu_times vs) = (\<Sum>i\<in>I. vs ! i))"
  "\<exists>I. I \<subseteq> {..<n} \<and> (\<forall>vs. length vs = n \<longrightarrow> ct_system (cpu_times vs) = (\<Sum>i\<in>I. vs ! i))"
  "\<exists>I. I \<subseteq> {..<n} \<and> (\<forall>vs. length vs = n \<longrightarrow> ct_iowait (cpu_times vs) = (\<Sum>i\<in>I. vs ! i))"
  "\<exists>I. I \<subseteq> {..<n} \<and> (\<forall>vs. length vs = n \<longrightarrow> ct_idle (cpu_times vs) = (\<Sum>i\<in>I. vs ! i))"
proof -
  show "\<exists>I. I \<subseteq> {..<n} \<and> (\<forall>vs. length vs = n \<longrightarrow> ct_user (cpu_times vs) = (\<Sum>i\<in>I. vs ! i))"
    by (rule exI [of _ "if 1 < n then {0, 1} else {}"]) (auto simp: cpu_times_def)
  show "\<exists>I. I \<subseteq> {..<n} \<and> (\<forall>vs. length vs = n \<longrightarrow> ct_system (cpu_times vs) = (\<Sum>i\<in>I. vs ! i))"
    by (rule exI [of _ "if 6 < n then {2, 5, 6} else if 2 < n then {2} else {}"]) (auto simp: cpu_times_def)
  show "\<exists>I. I \<subseteq> {..<n} \<and> (\<forall>vs. length vs = n \<longrightarrow> ct_iowait (cpu_times vs) = (\<Sum>i\<in>I. vs ! i))"
    by (rule exI [of _ "if 4 < n then {4} else {}"]) (auto simp: cpu_times_def)
  show "\<exists>I. I \<subseteq> {..<n} \<and> (\<forall>vs. length vs = n \<longrightarrow> ct_idle (cpu_times vs) = (\<Sum>i\<in>I. vs ! i))"
    by (rule exI [of _ "if 4 < n then {3, 4} else if 3 < n then {3} else {}"]) (auto simp: cpu_times_def)
qed

definition percentage :: "rat \<Rightarrow> bool" where
  "percentage x \<longleftrightarrow> 0 \<le> x \<and> x \<le> 100"

lemma part_percentage:
  assumes "grew vs0 vs1" and "\<exists>I. I \<subseteq> {..<length vs1} \<and> (\<forall>vs. length vs = length vs1 \<longrightarrow> f (cpu_times vs) = (\<Sum>i\<in>I. vs ! i))"
    and "0 < float64_of (sum_list vs1 - sum_list vs0)"
  shows "percentage (round2 (float64_of (f (cpu_times vs1) - f (cpu_times vs0)) / float64_of (sum_list vs1 - sum_list vs0) * 100))"
    and "percentage (round2 ((1 - float64_of (f (cpu_times vs1) - f (cpu_times vs0)) / float64_of (sum_list vs1 - sum_list vs0)) * 100))"
proof -
  have l: "length vs0 = length vs1" using assms(1) by (auto simp: grew_def dest: list_all2_lengthD)
  obtain I where I: "I \<subseteq> {..<length vs1}" "f (cpu_times vs1) = (\<Sum>i\<in>I. vs1 ! i)" "f (cpu_times vs0) = (\<Sum>i\<in>I. vs0 ! i)"
    using assms(2) l by auto
  define part td where "part = float64_of (f (cpu_times vs1) - f (cpu_times vs0))" and "td = float64_of (sum_list vs1 - sum_list vs0)"
  have p: "0 \<le> part" "part \<le> td" "0 < td"
    using share_le_total [OF assms(1) I(1)] assms(3) by (simp_all add: part_def td_def I(2,3) float64_of_nonneg)
  have q: "0 \<le> part / td * 100" "part / td * 100 \<le> 100" using percent_range [OF p] by simp_all
  then show "percentage (round2 (float64_of (f (cpu_times vs1) - f (cpu_times vs0)) / float64_of (sum_list vs1 - sum_list vs0) * 100))"
    using round2_percent [of "part / td * 100"] by (simp add: percentage_def part_def td_def)
  have "0 \<le> (1 - part / td) * 100" "(1 - part / td) * 100 \<le> 100" using q by (simp_all add: left_diff_distrib)
  then show "percentage (round2 ((1 - float64_of (f (cpu_times vs1) - f (cpu_times vs0)) / float64_of (sum_list vs1 - sum_list vs0)) * 100))"
    using round2_percent [of "(1 - part / td) * 100"] by (simp add: percentage_def part_def td_def)
qed

text \<open>C33: Between two readings of counters that only grow, the four shares of processor time are percentages.\<close>

theorem cpu_shares_are_percentages:
  assumes "grew vs0 vs1" and "cpu_shares (cpu_times vs0) (cpu_times vs1) = (busy, user, system, iowait)"
  shows "percentage busy \<and> percentage user \<and> percentage system \<and> percentage iowait"
proof (cases "float64_of (sum_list vs1 - sum_list vs0) \<le> 0")
  case True
  then show ?thesis using assms(2) by (auto simp: cpu_shares_def percentage_def cpu_times_def Let_def)
next
  case False
  have t: "ct_total (cpu_times vs) = sum_list vs" for vs by (simp add: cpu_times_def)
  from False have td: "0 < float64_of (sum_list vs1 - sum_list vs0)" by simp
  show ?thesis using assms(2) False
      part_percentage(2) [OF assms(1) cpu_times_shares(4) td] part_percentage(1) [OF assms(1) cpu_times_shares(1) td]
      part_percentage(1) [OF assms(1) cpu_times_shares(2) td] part_percentage(1) [OF assms(1) cpu_times_shares(3) td]
    by (auto simp: cpu_shares_def t Let_def)
qed

theorem cpu_shares_are_percentages_witness:
  "percentage (fst (cpu_shares (cpu_times [1, 0, 2, 9, 1]) (cpu_times [3, 0, 3, 14, 1]))) \<and>
   fst (cpu_shares (cpu_times [1, 0, 2, 9, 1]) (cpu_times [3, 0, 3, 14, 1])) \<noteq> 0"
proof -
  have g: "grew [1, 0, 2, 9, 1] [3, 0, 3, 14, 1]" by (simp add: grew_def)
  obtain a b c d where e: "cpu_shares (cpu_times [1, 0, 2, 9, 1]) (cpu_times [3, 0, 3, 14, 1]) = (a, b, c, d)" by (rule prod_cases4)
  moreover have "\<lfloor>7501 / 2 :: rat\<rfloor> = 3750" by (simp add: floor_eq_iff)
  then have "fst (cpu_shares (cpu_times [1, 0, 2, 9, 1]) (cpu_times [3, 0, 3, 14, 1])) = 37.5"
    by (simp add: cpu_shares_def cpu_times_def float64_of_def round2_def Let_def)
  ultimately show ?thesis using cpu_shares_are_percentages [OF g e] by simp
qed

lemma unat_wrapped_diff:
  fixes a b :: u64
  assumes "unat a < unat b" and "unat b \<le> 2 ^ 63"
  shows "2 ^ 63 \<le> unat (a - b)"
proof -
  have "unat (a - b) = unat a + 2 ^ 64 - unat b" using assms(1) by (simp add: unat_sub_if_size word_size)
  then show ?thesis using assms by simp
qed

lemma round2_negative: "x \<le> - 100 \<Longrightarrow> round2 x < 0"
proof -
  assume x: "x \<le> - 100"
  define n where "n = \<lceil>x * 100 + 1 / 2\<rceil>"
  have n: "n < 0" using x by (simp add: n_def ceiling_less_iff)
  have "\<not> 0 \<le> x * 100 + 1 / 2" using x by simp
  then have "round2 x = of_int (if - (2 ^ 63) \<le> n \<and> n < 2 ^ 63 then n else - (2 ^ 63)) / 100" by (simp add: round2_def Let_def n_def)
  then show ?thesis using n by (simp split: if_splits)
qed

text \<open>C34: The kernel may lower the counter of time spent waiting, which is part of the idle time here. When the
  idle time goes back between two readings the difference wraps, and the processor usage reported
  is negative.\<close>

theorem idle_decrease_reports_negative_cpu:
  assumes "unat (ct_idle cur) < unat (ct_idle prev)" and "unat (ct_idle prev) \<le> 2 ^ 63"
    and "0 < unat (ct_total cur - ct_total prev)" and "unat (ct_total cur - ct_total prev) \<le> 2 ^ 62"
  shows "fst (cpu_shares prev cur) < 0"
proof -
  define td idleD where "td = float64_of (ct_total cur - ct_total prev)" and "idleD = float64_of (ct_idle cur - ct_idle prev)"
  have "0 < td" "td \<le> of_nat (2 ^ 62)" unfolding td_def float64_of_def using assms(3,4) by (simp_all only: of_nat_le_iff of_nat_0_less_iff)
  moreover have "of_nat (2 ^ 63) \<le> idleD" unfolding idleD_def float64_of_def of_nat_le_iff by (rule unat_wrapped_diff [OF assms(1,2)])
  ultimately have "2 \<le> idleD / td" "0 < td" by (simp_all add: le_divide_eq)
  moreover have "(1 - q) * 100 \<le> - 100" if "2 \<le> q" for q :: rat using that by simp
  from round2_negative [OF this] calculation(1) have "round2 ((1 - idleD / td) * 100) < 0" by blast
  ultimately show ?thesis unfolding cpu_shares_def Let_def td_def [symmetric] idleD_def [symmetric] by simp
qed

theorem idle_decrease_reports_negative_cpu_witness:
  "fst (cpu_shares (cpu_times [100, 0, 100, 1000, 50]) (cpu_times [150, 0, 150, 1000, 40])) < 0"
  by (rule idle_decrease_reports_negative_cpu) (simp_all add: cpu_times_def)

end
