(* ===== verification/Spec2Isabelle.thy ===== *)
theory Spec2Isabelle
  imports Pulse_Store_Props Pulse_Http Pulse_Agents Pulse_Accounts Pulse_Alerts Pulse_Wsx Pulse_Scanner Pulse_Agent_Props Pulse_Console
    Pulse_Audit_Props Pulse_Inventory Pulse_Views_Props Pulse_Detect_Props Pulse_Proxies Pulse_Sockets Pulse_Oidc_Props
    Pulse_Scan_Active Pulse_Collect
begin

text \<open>
  Verification of PulseFrix: the control plane, the Go API under \<^verbatim>\<open>apps/api\<close>, and the agent
  under \<^verbatim>\<open>agent\<close> that reports to it.

  \<^bold>\<open>The program.\<close> Agents installed on servers send signed snapshots, metrics and logs; the API
  authenticates them, keeps them in a store scoped by organisation, and serves views, alerts and
  security scans to signed-in users. A request goes through the middleware chain (authentication by
  session cookie, rate limits), a permission gate, and a handler that reads and changes the store
  and leaves an audit entry.

  \<^bold>\<open>Theories and sources.\<close> One theory per component, in the order of the imports:

  \<^item> \<open>Pulse_Prelude\<close>: Go strings, times and durations at 64 bits, shared lemmas.
    \<open>Pulse_Systems\<close>: runs and reachable states of a state machine, and the locales
    \<open>invariant_of\<close>, \<open>tenant_isolation\<close>, \<open>single_use\<close> whose lemmas the components reuse.
    \<open>Go_Encoding\<close>, \<open>Go_Json\<close>: decimal, hexadecimal, big-endian and base64 text; the JSON parser
    and the decoding of JSON values into typed fields.
  \<^item> \<open>Pulse_Auth\<close>: \<^verbatim>\<open>auth/password.go\<close>, \<^verbatim>\<open>auth/tokens.go\<close>. PBKDF2 equals RFC 8018, encoded
    hashes verify, e-mail and password policy, token round trip.
  \<^item> \<open>Pulse_Model\<close>, \<open>Pulse_Store\<close>, \<open>Pulse_Store_Props\<close>: \<^verbatim>\<open>model/model.go\<close> and
    \<^verbatim>\<open>store/memory.go\<close>, every method of the store as a function on the record \<open>memory\<close>. The
    invariant of all reachable states (\<open>store\<close>), isolation of organisations (\<open>tenants\<close>), single use
    of enrollment tokens (\<open>tokens\<close>) are interpretations of the locales.
  \<^item> \<open>Pulse_Rbac\<close>, \<open>Pulse_Http\<close>: \<^verbatim>\<open>rbac/rbac.go\<close>, \<^verbatim>\<open>httpx/middleware.go\<close>, \<^verbatim>\<open>respond.go\<close>,
    \<^verbatim>\<open>handlers_common.go\<close>, the gates of \<^verbatim>\<open>server.go\<close>, \<^verbatim>\<open>audit/audit.go\<close>. What a permission
    gate lets through, and how many requests the token bucket grants.
  \<^item> \<open>Pulse_Config\<close>: \<^verbatim>\<open>config/config.go\<close> over an environment.
  \<^item> \<open>Pulse_Agents\<close>: \<^verbatim>\<open>httpx/handlers_agents.go\<close>, enrollment, signed ingestion and re-enrollment:
    authenticity, no replay (interpretation \<open>signed\<close>), binding of keys to organisations.
  \<^item> \<open>Pulse_Accounts\<close>: \<^verbatim>\<open>handlers_auth.go\<close>, \<^verbatim>\<open>handlers_setup.go\<close>, \<^verbatim>\<open>handlers_account.go\<close>: login,
    first-boot set-up, credential changes, logout.
  \<^item> \<open>Pulse_Snapshot\<close>: \<^verbatim>\<open>handlers_discovery.go\<close>, the decoded snapshot and the views on it.
    \<open>Pulse_Alerts\<close>: \<^verbatim>\<open>alerts_eval.go\<close>, \<^verbatim>\<open>handlers_alerts.go\<close>, the rule evaluator against a
    per-rule specification.
  \<^item> \<open>Pulse_Wsx\<close>: \<^verbatim>\<open>wsx/websocket.go\<close>: frames and reassembled messages against the grammar of
    RFC 6455.
  \<^item> \<open>Pulse_Ssrf\<close>: \<^verbatim>\<open>ssrf/ssrf.go\<close>: the address filter is exactly the registry of reserved blocks,
    and a client behind it connects nowhere else.
  \<^item> \<open>Pulse_Scan_Checks\<close>, \<open>Pulse_Scanner\<close>: \<^verbatim>\<open>scanner/types.go\<close>, \<^verbatim>\<open>catalog.go\<close>,
    \<^verbatim>\<open>checks_passive.go\<close>, \<^verbatim>\<open>engine.go\<close> and \<^verbatim>\<open>httpx/handlers_security.go\<close>: the passive checks, the
    job state, its results and the table of jobs (interpretation \<open>scans\<close>). \<open>Pulse_Scan_Active\<close>:
    \<^verbatim>\<open>checks_active.go\<close>, the probes, which reach the server's own endpoints only, and whole scans.
  \<^item> \<open>Go_Json_Print\<close>, \<open>Pulse_Buffer\<close>, \<open>Pulse_Agent\<close>, \<open>Pulse_Agent_Props\<close>: the agent,
    \<^verbatim>\<open>cache/cache.go\<close>, \<^verbatim>\<open>protocol/client.go\<close> and \<^verbatim>\<open>cmd/pulse-agent/main.go\<close>. JSON printing reads
    back; the offline buffer is a bounded priority queue; the agent's requests against the handlers
    of \<open>Pulse_Agents\<close>: signatures verify, messages are stored, a lost registration is recovered.
  \<^item> \<open>Pulse_Ssh\<close>, \<open>Pulse_Console\<close>: \<^verbatim>\<open>sshx/sshx.go\<close>, \<^verbatim>\<open>sshx/dial_ssh.go\<close>, \<^verbatim>\<open>httpx/handlers_ssh.go\<close>,
    \<^verbatim>\<open>handlers_ssh_stream.go\<close>: sessions as objects on a heap, their manager as a state machine
    (interpretations \<open>console\<close>, \<open>windows\<close>, \<open>serial\<close>), quotas, host keys, shell quoting, and the
    handlers over HTTP, WebSocket and event streams.
  \<^item> \<open>Pulse_Audit_Graph\<close>, \<open>Pulse_Audit_Rules\<close>, \<open>Pulse_Audit_Props\<close>, \<open>Pulse_Inventory\<close>:
    \<^verbatim>\<open>handlers_service_audit.go\<close>, \<^verbatim>\<open>service_audit_rules.go\<close>, \<^verbatim>\<open>handlers_inventory.go\<close>: the graph of
    services and its invariant, the rules that look for waste, and the list of workloads.
  \<^item> \<open>Pulse_Views\<close>, \<open>Pulse_Views_Props\<close>: \<^verbatim>\<open>handlers_metrics.go\<close>, \<^verbatim>\<open>handlers_logs.go\<close>,
    \<^verbatim>\<open>handlers_servers.go\<close>, \<^verbatim>\<open>handlers_domains_security.go\<close>, \<^verbatim>\<open>metricsproxy/metricsproxy.go\<close>: charts
    from stored samples or the metrics backend, log lines, the server summary, published names.
  \<^item> \<open>Go_Regexp\<close>: a backtracking matcher for the regular expressions of the agent, equivalent to a
    declarative relation. \<open>Pulse_Redact\<close>, \<open>Pulse_Redact_Props\<close>: \<^verbatim>\<open>redact/redact.go\<close>,
    \<^verbatim>\<open>model/model.go\<close>, \<^verbatim>\<open>discovery/engine.go\<close>, \<^verbatim>\<open>topology.go\<close>, \<^verbatim>\<open>logs.go\<close>: what leaves the agent, and
    that it does not depend on secrets. \<open>Pulse_Detect\<close>, \<open>Pulse_Detect_Props\<close>:
    \<^verbatim>\<open>discovery/security.go\<close>: the effective configuration of sshd, and what the scanner of
    \<open>Pulse_Scan_Checks\<close> can still see of it.
  \<^item> \<open>Pulse_Proxies\<close>: \<^verbatim>\<open>discovery/proxies.go\<close>, \<^verbatim>\<open>nginx.go\<close>: the parsers of proxy configurations; every
    name is reported once. \<open>Pulse_Sockets\<close>: \<^verbatim>\<open>procscan.go\<close>, \<^verbatim>\<open>ports.go\<close>, \<^verbatim>\<open>privileged.go\<close>,
    \<^verbatim>\<open>docker.go\<close>, \<^verbatim>\<open>health/health.go\<close>: processes, the owners of listening sockets, containers.
    \<open>Pulse_Collect\<close>: \<^verbatim>\<open>metrics/collector.go\<close>, \<^verbatim>\<open>filesystem.go\<close>, \<^verbatim>\<open>network.go\<close>, \<^verbatim>\<open>os.go\<close>: counters of
    64 bits and the percentages made of them.
  \<^item> \<open>Pulse_Oidc\<close>, \<open>Pulse_Oidc_Props\<close>: \<^verbatim>\<open>oidc/oidc.go\<close>, \<^verbatim>\<open>handlers_oidc.go\<close>: single sign-on. State
    tokens are single use and bound to their provider (interpretations \<open>sso\<close>, \<open>sso_tokens\<close>); what a
    failed discovery and an unverified address lead to.

  \<^bold>\<open>Conventions.\<close> A handler maps a request and the server state to a response and a new state; errors
  are values. The mutexes of the code make each method one step, and interleavings are sequences of
  steps. The clock, random bytes, map iteration orders, the resolver, SHA-256, HMAC, SHA-1 and
  Ed25519 are arguments. Strings are bytes; case mapping follows Go on ASCII. \<open>float64\<close> values are
  exact rationals or reals.

  \<^bold>\<open>Bounds and fuel.\<close> The JSON parser has fuel \<open>2 * length + 2\<close>; \<open>jval_fuel\<close> shows more fuel never
  changes its result. The WebSocket read loop and the redirecting client are total functions: every
  round consumes input, or a redirect.

  \<^bold>\<open>Not modelled.\<close> The PostgreSQL store (SQL run by a server), logging and header middleware, process start-up, the text of the SSH set-up script, the dashboard and the
  installer. Of the agent, the detectors of services,
  databases, certificates and disk usage by project, and the identity file.
\<close>

end
